(* ===== verification/Nex_Prelude.thy ===== *)
theory Nex_Prelude
  imports
    Complex_Main
    "HOL-Library.AList"
    "HOL-Library.Char_ord"
    "HOL-Library.List_Lexorder"
    "HOL-Library.Product_Lexorder"
begin

section \<open>Shared vocabulary of the development\<close>

text \<open>
  What the components share: Python's dynamically typed values and dictionaries, its
  truth test and \<open>str.strip\<close>, results of fallible code as sums, and the generic facts about
  association lists and key-sorted lists the component proofs rest on.

  A Python \<open>dict\<close> keeps its insertion order, so it is an association list: reading is
  \<open>map_of\<close>, writing is \<open>AList.update\<close>, which overwrites in place and appends a new key at
  the end, as Python does. Strings are \<open>char list\<close> and their order is the lexicographic one
  on code points, as Python's is.
\<close>

subsection \<open>Collections of rules\<close>

named_theorems res_simps \<open>rules that decompose results of fallible operations\<close>
named_theorems job_simps \<open>unfolding rules of the job components\<close>

subsection \<open>Python values\<close>

datatype pyval =
    PNone
  | PBool bool
  | PInt int
  | PFloat rat
  | PStr string
  | PList "pyval list"
  | PDict "(string \<times> pyval) list"

type_synonym pydict = "(string \<times> pyval) list"

text \<open>\<open>d.get(k)\<close>: the value, or \<open>None\<close> when the key is missing.\<close>

definition dget :: "pydict \<Rightarrow> string \<Rightarrow> pyval" where
  "dget d k = (case map_of d k of None \<Rightarrow> PNone | Some v \<Rightarrow> v)"

text \<open>The truth value of an object, as \<open>bool(v)\<close>, \<open>not v\<close> and \<open>v or w\<close> use it.\<close>

fun truthy :: "pyval \<Rightarrow> bool" where
  "truthy PNone = False"
| "truthy (PBool b) = b"
| "truthy (PInt i) = (i \<noteq> 0)"
| "truthy (PFloat f) = (f \<noteq> 0)"
| "truthy (PStr s) = (s \<noteq> [])"
| "truthy (PList l) = (l \<noteq> [])"
| "truthy (PDict d) = (d \<noteq> [])"

text \<open>\<open>isinstance(v, int)\<close> accepts booleans, whose value is then 0 or 1.\<close>

fun py_int :: "pyval \<Rightarrow> int option" where
  "py_int (PInt i) = Some i"
| "py_int (PBool b) = Some (if b then 1 else 0)"
| "py_int _ = None"

fun py_bool :: "pyval \<Rightarrow> bool option" where
  "py_bool (PBool b) = Some b"
| "py_bool _ = None"

fun py_dict :: "pyval \<Rightarrow> pydict option" where
  "py_dict (PDict d) = Some d"
| "py_dict _ = None"

lemma py_bool_Some: "py_bool v = Some b \<longleftrightarrow> v = PBool b"
  by (cases v) simp_all

lemma py_dict_Some: "py_dict v = Some d \<longleftrightarrow> v = PDict d"
  by (cases v) simp_all

text \<open>Whether \<open>str(v)\<close> is a non-empty string: only the empty string renders as empty.\<close>

fun str_nonempty :: "pyval \<Rightarrow> bool" where
  "str_nonempty (PStr s) = (s \<noteq> [])"
| "str_nonempty _ = True"

text \<open>
  \<open>str(v)\<close> of a scalar. Floats and containers, whose text only reaches human-readable
  messages, are abbreviated.
\<close>

fun show_nat :: "nat \<Rightarrow> string" where
  "show_nat n = (if n < 10 then [char_of (48 + n)] else show_nat (n div 10) @ [char_of (48 + n mod 10)])"

declare show_nat.simps [simp del]

definition show_int :: "int \<Rightarrow> string" where
  "show_int i = (if i < 0 then ''-'' @ show_nat (nat (- i)) else show_nat (nat i))"

fun py_text :: "pyval \<Rightarrow> string" where
  "py_text PNone = ''None''"
| "py_text (PBool b) = (if b then ''True'' else ''False'')"
| "py_text (PInt i) = show_int i"
| "py_text (PFloat _) = ''<float>''"
| "py_text (PStr s) = s"
| "py_text (PList _) = ''<list>''"
| "py_text (PDict _) = ''<dict>''"

fun join :: "string \<Rightarrow> string list \<Rightarrow> string" where
  "join sep [] = []"
| "join sep [x] = x"
| "join sep (x # xs) = x @ sep @ join sep xs"

subsection \<open>Built-in exceptions\<close>

datatype py_error = ValueError | OverflowError | KeyError string | TypeError

subsection \<open>Results\<close>

text \<open>Sequencing of fallible steps: the first error is the result.\<close>

definition sbind :: "'e + 'a \<Rightarrow> ('a \<Rightarrow> 'e + 'b) \<Rightarrow> 'e + 'b" where
  "sbind m f = (case m of Inl e \<Rightarrow> Inl e | Inr x \<Rightarrow> f x)"

text \<open>Translation of the errors of a callee into the errors of its caller.\<close>

definition map_err :: "('e \<Rightarrow> 'f) \<Rightarrow> 'e + 'a \<Rightarrow> 'f + 'a" where
  "map_err g m = (case m of Inl e \<Rightarrow> Inl (g e) | Inr x \<Rightarrow> Inr x)"

lemma sbind_simps [simp]:
  "sbind (Inl e) f = Inl e" "sbind (Inr x) f = f x"
  by (simp_all add: sbind_def)

lemma map_err_simps [simp]:
  "map_err g (Inl e) = Inl (g e)" "map_err g (Inr x) = Inr x"
  by (simp_all add: map_err_def)

lemma sbind_assoc: "sbind (sbind m f) g = sbind m (\<lambda>x. sbind (f x) g)"
  by (cases m) simp_all

lemma sbind_if: "sbind (if b then m else n) g = (if b then sbind m g else sbind n g)"
  by simp

lemma sbind_eq_Inr [res_simps]: "sbind m f = Inr y \<longleftrightarrow> (\<exists>x. m = Inr x \<and> f x = Inr y)"
  by (cases m) auto

lemma sbind_eq_Inl [res_simps]:
  "sbind m f = Inl e \<longleftrightarrow> m = Inl e \<or> (\<exists>x. m = Inr x \<and> f x = Inl e)"
  by (cases m) auto

lemma map_err_eq_Inr [res_simps]: "map_err g m = Inr y \<longleftrightarrow> m = Inr y"
  by (cases m) auto

lemma map_err_eq_Inl [res_simps]: "map_err g m = Inl e \<longleftrightarrow> (\<exists>e'. m = Inl e' \<and> e = g e')"
  by (cases m) auto

lemma if_Inl_eq_Inr [res_simps]: "(if b then Inl e else m) = Inr z \<longleftrightarrow> \<not> b \<and> m = Inr z"
  by auto

lemma option_Inl_eq_Inr [res_simps]:
  "(case x of None \<Rightarrow> Inl e | Some y \<Rightarrow> f y) = Inr z \<longleftrightarrow> (\<exists>y. x = Some y \<and> f y = Inr z)"
  by (cases x) auto

subsection \<open>Strings\<close>

text \<open>The characters \<open>str.strip()\<close> removes (those of Latin-1).\<close>

definition py_space :: "char \<Rightarrow> bool" where
  "py_space c = (let n = (of_char c :: nat) in n \<in> {9, 10, 11, 12, 13, 28, 29, 30, 31, 32, 133, 160})"

text \<open>The same on the bits of a character, for evaluation.\<close>

lemma py_space_code [code]: "py_space (Char b0 b1 b2 b3 b4 b5 b6 b7) \<longleftrightarrow> \<not> b6 \<and>
    (if b7 then (\<not> b4 \<and> \<not> b3 \<and> ((b5 \<and> \<not> b2 \<and> \<not> b1 \<and> \<not> b0) \<or> (\<not> b5 \<and> b2 \<and> \<not> b1 \<and> b0)))
     else if b5 then \<not> b4 \<and> \<not> b3 \<and> \<not> b2 \<and> \<not> b1 \<and> \<not> b0
     else b3 \<and> (if b4 then b2 else (b0 \<or> b1 \<or> b2) \<and> \<not> (b2 \<and> b1)))"
  by (cases b0; cases b1; cases b2; cases b3; cases b4; cases b5; cases b6; cases b7)
     (simp_all add: py_space_def Let_def)

definition py_strip :: "string \<Rightarrow> string" where
  "py_strip s = rev (dropWhile py_space (rev (dropWhile py_space s)))"

lemma length_py_strip: "length (py_strip s) \<le> length s"
  unfolding py_strip_def length_rev
  by (rule order_trans [OF length_dropWhile_le]) (simp add: length_dropWhile_le)

lemma py_strip_Cons:
  assumes "dropWhile py_space s = x # xs"
  shows "py_strip s = x # rev (dropWhile py_space (rev xs))"
proof -
  have "\<not> py_space x" using hd_dropWhile [of py_space s] assms by simp
  then have "dropWhile py_space (ys @ [x]) = dropWhile py_space ys @ [x]" for ys
    by (induction ys) simp_all
  then show ?thesis by (simp add: py_strip_def assms)
qed

lemma py_strip_Nil: "py_strip s = [] \<longleftrightarrow> (\<forall>c \<in> set s. py_space c)"
proof (cases "dropWhile py_space s")
  case Nil
  then show ?thesis unfolding dropWhile_eq_Nil_conv by (simp add: py_strip_def Nil dropWhile_eq_Nil_conv [THEN iffD2])
next
  case (Cons x xs)
  moreover have "\<not> (\<forall>c \<in> set s. py_space c)"
    using Cons by (metis dropWhile_eq_Nil_conv list.distinct(1))
  ultimately show ?thesis by (simp add: py_strip_Cons)
qed

lemma strip_ends:
  assumes "py_strip s \<noteq> []"
  shows "\<not> py_space (hd (py_strip s))"
proof (cases "dropWhile py_space s")
  case Nil
  with assms show ?thesis by (simp add: py_strip_def)
next
  case (Cons x xs)
  with hd_dropWhile [of py_space s] show ?thesis by (simp add: py_strip_Cons)
qed

lemma py_strip_id:
  assumes "s \<noteq> []" "\<not> py_space (hd s)" "\<not> py_space (last s)"
  shows "py_strip s = s"
proof -
  have "dropWhile py_space s = s" using assms(1,2) by (cases s) auto
  moreover have "dropWhile py_space (rev s) = rev s" using assms(1,3) by (cases "rev s") (auto simp: last_rev hd_rev [symmetric])
  ultimately show ?thesis by (simp add: py_strip_def)
qed

lemma py_strip_idem [simp]: "py_strip (py_strip s) = py_strip s"
proof (cases "py_strip s = []")
  case True
  show ?thesis unfolding True by (simp add: py_strip_def)
next
  case False
  have "\<not> py_space (last (py_strip s))"
    using False hd_dropWhile [of py_space "rev (dropWhile py_space s)"] by (simp add: py_strip_def last_rev)
  with False strip_ends [OF False] show ?thesis by (simp add: py_strip_id)
qed

text \<open>\<open>v or default\<close> on an optional string argument: missing and empty both take the default.\<close>

fun or_default :: "string option \<Rightarrow> string \<Rightarrow> string" where
  "or_default (Some (c # cs)) d = c # cs"
| "or_default _ d = d"

subsection \<open>Dictionaries as association lists\<close>

abbreviation dict_put :: "'k \<Rightarrow> 'v \<Rightarrow> ('k \<times> 'v) list \<Rightarrow> ('k \<times> 'v) list" where
  "dict_put \<equiv> AList.update"

lemma map_of_dict_put [simp]: "map_of (dict_put k v d) = (map_of d)(k \<mapsto> v)"
  by (simp add: update_conv')

lemma keys_dict_put [simp]: "fst ` set (dict_put k v d) = insert k (fst ` set d)"
  by (induction d) auto

lemma distinct_dict_put [simp]:
  "distinct (map fst (dict_put k v d)) \<longleftrightarrow> distinct (map fst d)"
proof (induction d)
  case Nil
  then show ?case by simp
next
  case (Cons a d)
  then show ?case
    by (cases "fst a = k") (use keys_dict_put [of k v d] in \<open>auto simp: image_iff\<close>)
qed

lemma set_dict_put_distinct:
  assumes "distinct (map fst d)"
  shows "set (dict_put k v d) = insert (k, v) {p \<in> set d. fst p \<noteq> k}"
  using assms
proof (induction d)
  case Nil
  then show ?case by simp
next
  case (Cons a d)
  then show ?case by (cases "fst a = k") (force simp: image_iff)+
qed

lemma dict_put_new: "k \<notin> fst ` set d \<Longrightarrow> dict_put k v d = d @ [(k, v)]"
  by (induction d) auto

lemma fold_dict_put:
  "distinct (map k xs) \<Longrightarrow> k ` set xs \<inter> fst ` set d = {} \<Longrightarrow>
    fold (\<lambda>x. dict_put (k x) x) xs d = d @ map (\<lambda>x. (k x, x)) xs"
proof (induction xs arbitrary: d)
  case (Cons x xs)
  have "fold (\<lambda>x. dict_put (k x) x) xs (d @ [(k x, x)]) = (d @ [(k x, x)]) @ map (\<lambda>x. (k x, x)) xs"
    by (rule Cons.IH) (use Cons.prems in auto)
  then show ?case using Cons.prems by (simp add: dict_put_new)
qed simp

lemma map_of_keyed: "distinct (map k xs) \<Longrightarrow> map_of (map (\<lambda>x. (k x, x)) xs) i = Some x \<longleftrightarrow> x \<in> set xs \<and> k x = i"
  by (subst map_of_eq_Some_iff) (auto simp: comp_def)

lemma map_of_values: "distinct (map fst d) \<Longrightarrow> x \<in> snd ` set d \<longleftrightarrow> (\<exists>k. map_of d k = Some x)"
  by (force simp: image_iff)

subsection \<open>Sorting by a key\<close>

text \<open>The head of a stably sorted list is a least element.\<close>

lemma hd_sort_key_in: "xs \<noteq> [] \<Longrightarrow> hd (sort_key k xs) \<in> set xs"
  by (metis hd_in_set set_sort sort_key_simps(1) length_sort length_0_conv)

lemma hd_sort_key_least:
  assumes "x \<in> set xs"
  shows "k (hd (sort_key k xs)) \<le> k x"
proof -
  have "sorted (map k (sort_key k xs))" by (rule sorted_sort_key)
  moreover have "x \<in> set (sort_key k xs)" using assms by simp
  ultimately show ?thesis
    by (cases "sort_key k xs") auto
qed

end
