(* ===== verification/Wire_Time.thy ===== *)
theory Wire_Time
  imports Nex_Prelude
begin

section \<open>Wire timestamps\<close>

text \<open>
  Every service writes instants as \<open>datetime.now(UTC).isoformat().replace("+00:00", "Z")\<close> and
  reads them back with \<open>datetime.fromisoformat(value.replace("Z", "+00:00"))\<close>. An instant is
  the number of microseconds since 0001-01-01T00:00:00 UTC (an \<open>int\<close>). What is modelled of the standard
  library is the proleptic Gregorian calendar, \<open>isoformat\<close>, and \<open>fromisoformat\<close> on the
  extended format \<open>YYYY-MM-DD[*HH[:MM[:SS[.f+]]]][+HH[:MM[:SS[.f+]]]]\<close>; the basic and the
  week-date formats, which no service writes, are rejected by the model.
\<close>

subsection \<open>The calendar\<close>

definition is_leap :: "int \<Rightarrow> bool" where
  "is_leap y \<longleftrightarrow> y mod 4 = 0 \<and> (y mod 100 \<noteq> 0 \<or> y mod 400 = 0)"

definition days_in_month :: "int \<Rightarrow> int \<Rightarrow> int" where
  "days_in_month y m =
     (if m = 2 then (if is_leap y then 29 else 28)
      else if m \<in> {4, 6, 9, 11} then 30 else 31)"

definition days_before_year :: "int \<Rightarrow> int" where
  "days_before_year y = (y - 1) * 365 + (y - 1) div 4 - (y - 1) div 100 + (y - 1) div 400"

text \<open>Days of the year before the first of the month.\<close>

definition days_before_month :: "int \<Rightarrow> int \<Rightarrow> int" where
  "days_before_month y m =
     (if m \<le> 1 then 0 else if m = 2 then 31
      else (if is_leap y then 1 else 0) +
        (if m = 3 then 59 else if m = 4 then 90 else if m = 5 then 120 else if m = 6 then 151
         else if m = 7 then 181 else if m = 8 then 212 else if m = 9 then 243
         else if m = 10 then 273 else if m = 11 then 304 else 334))"

text \<open>Days since 0001-01-01.\<close>

definition ymd_to_days :: "int \<Rightarrow> int \<Rightarrow> int \<Rightarrow> int" where
  "ymd_to_days y m d = days_before_year y + days_before_month y m + (d - 1)"

text \<open>The year of a day number, by cycles of 400, 100, 4 and 1 years.\<close>

definition year_of_days :: "int \<Rightarrow> int" where
  "year_of_days n =
     (let n400 = n div 146097; r400 = n mod 146097;
          n100 = min 3 (r400 div 36524); r100 = r400 - n100 * 36524;
          n4 = r100 div 1461; r4 = r100 mod 1461;
          n1 = min 3 (r4 div 365)
      in n400 * 400 + n100 * 100 + n4 * 4 + n1 + 1)"

definition month_of_yday :: "int \<Rightarrow> int \<Rightarrow> int" where
  "month_of_yday y r =
     (if r < days_before_month y 2 then 1 else if r < days_before_month y 3 then 2
      else if r < days_before_month y 4 then 3 else if r < days_before_month y 5 then 4
      else if r < days_before_month y 6 then 5 else if r < days_before_month y 7 then 6
      else if r < days_before_month y 8 then 7 else if r < days_before_month y 9 then 8
      else if r < days_before_month y 10 then 9 else if r < days_before_month y 11 then 10
      else if r < days_before_month y 12 then 11 else 12)"

definition days_to_ymd :: "int \<Rightarrow> int \<times> int \<times> int" where
  "days_to_ymd n =
     (let y = year_of_days n; r = n - days_before_year y; m = month_of_yday y r
      in (y, m, r - days_before_month y m + 1))"

definition max_days :: int where
  "max_days = 3652059"

definition day_us :: int where
  "day_us = 86400000000"

text \<open>The instants \<open>datetime\<close> can represent: years 1 to 9999.\<close>

definition in_range :: "int \<Rightarrow> bool" where
  "in_range t \<longleftrightarrow> 0 \<le> t \<and> t < max_days * day_us"

subsection \<open>Fixed-width decimal fields\<close>

definition digit :: "char \<Rightarrow> int option" where
  "digit c = (let n = (of_char c :: int) in if 48 \<le> n \<and> n \<le> 57 then Some (n - 48) else None)"

fun take_digits :: "nat \<Rightarrow> int \<Rightarrow> string \<Rightarrow> (int \<times> string) option" where
  "take_digits 0 acc s = Some (acc, s)"
| "take_digits (Suc n) acc [] = None"
| "take_digits (Suc n) acc (c # s) =
     (case digit c of None \<Rightarrow> None | Some d \<Rightarrow> take_digits n (10 * acc + d) s)"

fun fixed_digits :: "nat \<Rightarrow> int \<Rightarrow> string" where
  "fixed_digits 0 v = []"
| "fixed_digits (Suc n) v = fixed_digits n (v div 10) @ [char_of (48 + v mod 10)]"

subsection \<open>Reading: \<open>datetime.fromisoformat\<close>\<close>

definition parse_fraction :: "string \<Rightarrow> int option" where
  "parse_fraction s =
     (if s = [] \<or> \<not> list_all (\<lambda>c. digit c \<noteq> None) s then None
      else map_option fst (take_digits 6 0 (take 6 (s @ ''000000''))))"

definition parse_hms :: "string \<Rightarrow> (int \<times> int \<times> int \<times> int) option" where
  "parse_hms s =
     (case take_digits 2 0 s of
        None \<Rightarrow> None
      | Some (h, []) \<Rightarrow> Some (h, 0, 0, 0)
      | Some (h, c # s1) \<Rightarrow>
          if c \<noteq> CHR '':'' then None
          else (case take_digits 2 0 s1 of
                  None \<Rightarrow> None
                | Some (m, []) \<Rightarrow> Some (h, m, 0, 0)
                | Some (m, c1 # s2) \<Rightarrow>
                    if c1 \<noteq> CHR '':'' then None
                    else (case take_digits 2 0 s2 of
                            None \<Rightarrow> None
                          | Some (sec, []) \<Rightarrow> Some (h, m, sec, 0)
                          | Some (sec, c2 # s3) \<Rightarrow>
                              if c2 \<noteq> CHR ''.'' \<and> c2 \<noteq> CHR '','' then None
                              else map_option (\<lambda>us. (h, m, sec, us)) (parse_fraction s3))))"

definition hms_us :: "int \<times> int \<times> int \<times> int \<Rightarrow> int" where
  "hms_us p = (case p of (h, m, s, us) \<Rightarrow> ((h * 60 + m) * 60 + s) * 1000000 + us)"

text \<open>
  The time of day in microseconds and the UTC offset in microseconds, \<open>None\<close> for a naive time.
\<close>

definition parse_time :: "string \<Rightarrow> (int \<times> int option) option" where
  "parse_time t =
     (let clock = takeWhile (\<lambda>c. c \<noteq> CHR ''+'' \<and> c \<noteq> CHR ''-'') t;
          zone = dropWhile (\<lambda>c. c \<noteq> CHR ''+'' \<and> c \<noteq> CHR ''-'') t
      in case parse_hms clock of
           None \<Rightarrow> None
         | Some (h, m, s, us) \<Rightarrow>
             if \<not> (h < 24 \<and> m < 60 \<and> s < 60) then None
             else (case zone of
                     [] \<Rightarrow> Some (hms_us (h, m, s, us), None)
                   | sign # z \<Rightarrow>
                       (case parse_hms z of
                          None \<Rightarrow> None
                        | Some off \<Rightarrow>
                            if hms_us off < day_us
                            then Some (hms_us (h, m, s, us),
                                   Some (if sign = CHR ''-'' then - hms_us off else hms_us off))
                            else None)))"

definition parse_date :: "string \<Rightarrow> (int \<times> string) option" where
  "parse_date s =
     (case take_digits 4 0 s of
        Some (y, c1 # s1) \<Rightarrow>
          (case take_digits 2 0 s1 of
             Some (m, c2 # s2) \<Rightarrow>
               (case take_digits 2 0 s2 of
                  Some (d, rest) \<Rightarrow>
                    if c1 = CHR ''-'' \<and> c2 = CHR ''-'' \<and> 1 \<le> y \<and> 1 \<le> m \<and> m \<le> 12 \<and>
                       1 \<le> d \<and> d \<le> days_in_month y m
                    then Some (ymd_to_days y m d, rest) else None
                | None \<Rightarrow> None)
           | _ \<Rightarrow> None)
      | _ \<Rightarrow> None)"

text \<open>
  The local time in microseconds and the offset. A lone separator after the date is accepted, as
  the interpreter does.
\<close>

definition fromisoformat :: "string \<Rightarrow> (int \<times> int option) option" where
  "fromisoformat s =
     (case parse_date s of
        None \<Rightarrow> None
      | Some (days, []) \<Rightarrow> Some (days * day_us, None)
      | Some (days, [sep]) \<Rightarrow> Some (days * day_us, None)
      | Some (days, sep # t) \<Rightarrow>
          map_option (\<lambda>(us, off). (days * day_us + us, off)) (parse_time t))"

text \<open>\<open>value.replace("Z", "+00:00")\<close>.\<close>

definition replace_Z :: "string \<Rightarrow> string" where
  "replace_Z s = concat (map (\<lambda>c. if c = CHR ''Z'' then ''+00:00'' else [c]) s)"

text \<open>\<open>astimezone(UTC)\<close> of an aware value; leaving the years 1 to 9999 raises.\<close>

definition to_utc :: "int \<Rightarrow> int \<Rightarrow> py_error + int" where
  "to_utc local off = (if in_range (local - off) then Inr (local - off) else Inl OverflowError)"

text \<open>\<open>_parse_wire_datetime\<close>: a naive value is read as UTC.\<close>

definition parse_wire_datetime :: "string \<Rightarrow> py_error + int" where
  "parse_wire_datetime s =
     (case fromisoformat (replace_Z s) of
        None \<Rightarrow> Inl ValueError
      | Some (local, None) \<Rightarrow> to_utc local 0
      | Some (local, Some off) \<Rightarrow> to_utc local off)"

subsection \<open>Writing: \<open>isoformat().replace("+00:00", "Z")\<close>\<close>

definition wire_timestamp :: "int \<Rightarrow> string" where
  "wire_timestamp t =
     (let (y, m, d) = days_to_ymd (t div day_us);
          r = t mod day_us; us = r mod 1000000; s = r div 1000000
      in fixed_digits 4 y @ ''-'' @ fixed_digits 2 m @ ''-'' @ fixed_digits 2 d @ ''T'' @
         fixed_digits 2 (s div 3600) @ '':'' @ fixed_digits 2 (s div 60 mod 60) @ '':'' @
         fixed_digits 2 (s mod 60) @
         (if us = 0 then [] else ''.'' @ fixed_digits 6 us) @ ''Z'')"

text \<open>\<open>_add_seconds\<close>: \<open>datetime + timedelta\<close> raises when it leaves the representable range.\<close>

definition add_seconds :: "string \<Rightarrow> int \<Rightarrow> py_error + string" where
  "add_seconds timestamp seconds =
     sbind (parse_wire_datetime timestamp) (\<lambda>t.
       if in_range (t + seconds * 1000000) then Inr (wire_timestamp (t + seconds * 1000000))
       else Inl OverflowError)"

subsection \<open>The calendar arithmetic is exact\<close>

lemma year_cycles:
  fixes a b c d :: int
  assumes "0 \<le> b" "b \<le> 3" "0 \<le> c" "c \<le> 24" "0 \<le> d" "d \<le> 3"
  shows "days_before_year (400 * a + 100 * b + 4 * c + d + 1)
           = 146097 * a + 36524 * b + 1461 * c + 365 * d"
proof -
  have "(400 * a + 100 * b + 4 * c + d) div 4 = 100 * a + 25 * b + c"
    using assms by linarith
  moreover have "(400 * a + 100 * b + 4 * c + d) div 100 = 4 * a + b"
    using assms by linarith
  moreover have "(400 * a + 100 * b + 4 * c + d) div 400 = a"
    using assms by linarith
  ultimately show ?thesis by (simp add: days_before_year_def algebra_simps)
qed

lemma leap_cycles:
  fixes a b c :: int
  assumes "0 \<le> b" "b \<le> 3" "0 \<le> c" "c \<le> 24" "c < 24 \<or> b = 3"
  shows "is_leap (400 * a + 100 * b + 4 * c + 4)"
proof -
  have "400 * a + 100 * b + 4 * c + 4 = 4 * (100 * a + 25 * b + c + 1)" by simp
  then have four: "(400 * a + 100 * b + 4 * c + 4) mod 4 = 0"
    by (simp only: mod_mult_self1_is_0)
  show ?thesis
  proof (cases "c < 24")
    case True
    have "400 * a + 100 * b + 4 * c + 4 = (4 * c + 4) + 100 * (4 * a + b)" by simp
    then have "(400 * a + 100 * b + 4 * c + 4) mod 100 = (4 * c + 4) mod 100"
      by (simp only: mod_mult_self2)
    also have "\<dots> = 4 * c + 4" using True assms by simp
    finally show ?thesis using four assms by (simp add: is_leap_def)
  next
    case False
    with assms have "400 * a + 100 * b + 4 * c + 4 = 400 * (a + 1)" by auto
    then have "(400 * a + 100 * b + 4 * c + 4) mod 400 = 0"
      by (simp only: mod_mult_self1_is_0)
    with four show ?thesis by (simp add: is_leap_def)
  qed
qed

text \<open>A quotient capped at 3, as the cycles of 100 years and of one year are.\<close>

lemma capped_div:
  fixes k x :: int
  assumes "0 < k" "0 \<le> x" "x \<le> 4 * k"
  shows "0 \<le> min 3 (x div k)" "min 3 (x div k) \<le> 3" "0 \<le> x - min 3 (x div k) * k"
    "x - min 3 (x div k) * k \<le> k" "min 3 (x div k) < 3 \<Longrightarrow> x - min 3 (x div k) * k < k"
proof -
  define q m where "q = x div k" and "m = x mod k"
  have "x div k \<le> 4 * k div k" using assms by (intro zdiv_mono1)
  then have q: "0 \<le> q" "q \<le> 4" using assms by (simp_all add: q_def pos_imp_zdiv_nonneg_iff)
  have m: "x = q * k + m" "0 \<le> m" "m < k" using assms by (simp_all add: q_def m_def)
  have "q = 0 \<or> q = 1 \<or> q = 2 \<or> q = 3 \<or> q = 4" using q by linarith
  then show "0 \<le> min 3 (x div k)" "min 3 (x div k) \<le> 3" "0 \<le> x - min 3 (x div k) * k"
    "x - min 3 (x div k) * k \<le> k" "min 3 (x div k) < 3 \<Longrightarrow> x - min 3 (x div k) * k < k"
    unfolding q_def [symmetric] using m assms by auto
qed

lemma year_of_days:
  assumes "0 \<le> n"
  shows "1 \<le> year_of_days n \<and> days_before_year (year_of_days n) \<le> n \<and>
    n - days_before_year (year_of_days n) < (if is_leap (year_of_days n) then 366 else 365)"
proof -
  define a r400 where "a = n div 146097" and "r400 = n mod 146097"
  define b where "b = min 3 (r400 div 36524)"
  define r100 where "r100 = r400 - b * 36524"
  define c r4 where "c = r100 div 1461" and "r4 = r100 mod 1461"
  define d where "d = min 3 (r4 div 365)"
  define x where "x = r4 - d * 365"
  have n: "n = a * 146097 + r400"
    unfolding a_def r400_def by (rule div_mult_mod_eq [symmetric])
  have "0 \<le> r400" "r400 < 146097"
    unfolding r400_def by (rule pos_mod_sign pos_mod_bound, simp)+
  then have r400: "0 \<le> r400" "r400 \<le> 4 * 36524" by simp_all
  note b = capped_div [of 36524 r400, folded b_def r100_def, OF _ r400, simplified]
  have "r4 < 1461" unfolding r4_def by (rule pos_mod_bound) simp
  then have c: "r100 = c * 1461 + r4" "0 \<le> r4" "r4 \<le> 4 * 365"
    unfolding c_def r4_def by (rule div_mult_mod_eq [symmetric] pos_mod_sign | simp)+
  have c': "0 \<le> c" "c \<le> 24" using c b by auto
  note d = capped_div [of 365 r4, folded d_def x_def, OF _ c(2,3), simplified]
  have "year_of_days n = a * 400 + b * 100 + c * 4 + d + 1"
    by (simp only: year_of_days_def Let_def a_def b_def c_def d_def r400_def r100_def r4_def)
  then have y: "year_of_days n = 400 * a + 100 * b + 4 * c + d + 1" by linarith
  have "days_before_year (year_of_days n) = 146097 * a + 36524 * b + 1461 * c + 365 * d"
    unfolding y by (rule year_cycles [OF b(1,2) c' d(1,2)])
  then have rem: "n - days_before_year (year_of_days n) = x"
    using n c(1) r100_def x_def by linarith
  have "x < 365 \<or> is_leap (year_of_days n)"
  proof (cases "d = 3 \<and> (c < 24 \<or> b = 3)")
    case True
    then show ?thesis using leap_cycles [OF b(1,2) c'] by (simp add: y algebra_simps)
  next
    case False
    then show ?thesis using b c c' d x_def by (cases "d = 3") auto
  qed
  moreover have "0 \<le> a" using assms by (simp add: a_def pos_imp_zdiv_nonneg_iff)
  ultimately show ?thesis using rem y b(1) c'(1) d(1,3,4) by auto
qed

lemma month_of_yday:
  fixes r :: int
  assumes "0 \<le> r" "r < (if is_leap y then 366 else 365)"
  shows "1 \<le> month_of_yday y r \<and> month_of_yday y r \<le> 12 \<and>
    days_before_month y (month_of_yday y r) \<le> r \<and>
    r - days_before_month y (month_of_yday y r) < days_in_month y (month_of_yday y r)"
proof -
  define D where "D = days_before_month y"
  have "r < D 2 \<or> D 2 \<le> r \<and> r < D 3 \<or> D 3 \<le> r \<and> r < D 4 \<or> D 4 \<le> r \<and> r < D 5 \<or>
    D 5 \<le> r \<and> r < D 6 \<or> D 6 \<le> r \<and> r < D 7 \<or> D 7 \<le> r \<and> r < D 8 \<or> D 8 \<le> r \<and> r < D 9 \<or>
    D 9 \<le> r \<and> r < D 10 \<or> D 10 \<le> r \<and> r < D 11 \<or> D 11 \<le> r \<and> r < D 12 \<or> D 12 \<le> r"
    by linarith
  then show ?thesis
    using assms unfolding D_def
    by (cases "is_leap y"; elim disjE)
      (simp_all add: month_of_yday_def days_before_month_def days_in_month_def)
qed

lemma days_to_ymd:
  assumes "0 \<le> n" "days_to_ymd n = (y, m, d)"
  shows "ymd_to_days y m d = n" "1 \<le> m" "m \<le> 12" "1 \<le> d" "d \<le> days_in_month y m"
    "y = year_of_days n"
proof -
  define r where "r = n - days_before_year (year_of_days n)"
  have r: "0 \<le> r" "r < (if is_leap (year_of_days n) then 366 else 365)"
    using year_of_days [OF assms(1)] by (auto simp: r_def)
  note yd = month_of_yday [OF r]
  have "y = year_of_days n" "m = month_of_yday (year_of_days n) r"
    "d = r - days_before_month (year_of_days n) m + 1"
    using assms(2) by (auto simp: days_to_ymd_def Let_def r_def)
  with yd show "ymd_to_days y m d = n" "1 \<le> m" "m \<le> 12" "1 \<le> d" "d \<le> days_in_month y m"
    "y = year_of_days n"
    by (auto simp: ymd_to_days_def r_def)
qed

lemma year_of_days_range:
  assumes "0 \<le> n" "n < max_days"
  shows "1 \<le> year_of_days n" "year_of_days n \<le> 9999"
proof -
  have "\<not> year_of_days n \<ge> 10000"
  proof
    define k where "k = year_of_days n - 1"
    assume "10000 \<le> year_of_days n"
    then have k: "9999 \<le> k" by (simp add: k_def)
    have bound: "3652058 < k * 365 + p - q + r"
      if "2499 \<le> p" "24 \<le> r" "100 * q \<le> k" for p q r
      using that k by linarith
    have "2499 \<le> k div 4" "24 \<le> k div 400"
      using zdiv_mono1 [OF k, of 4] zdiv_mono1 [OF k, of 400] by simp_all
    moreover have "100 * (k div 100) \<le> k"
      using mult_div_mod_eq [of 100 k] pos_mod_sign [of 100 k] by (simp only:)
    ultimately have "3652058 < days_before_year (year_of_days n)"
      unfolding days_before_year_def k_def [symmetric] by (rule bound)
    moreover have "n \<le> 3652058" using assms(2) by (simp add: max_days_def)
    ultimately show False using year_of_days [OF assms(1)] by simp
  qed
  then show "year_of_days n \<le> 9999" by simp
  show "1 \<le> year_of_days n"
    using year_of_days [OF assms(1)] by simp
qed

subsection \<open>Fields read back\<close>

lemma digit_char_of: "0 \<le> d \<Longrightarrow> d \<le> 9 \<Longrightarrow> digit (char_of (48 + d)) = Some d"
  by (simp add: digit_def of_char_of take_bit_eq_mod)

lemma take_digits_append:
  assumes "take_digits n acc s = Some (v, [])"
  shows "take_digits (n + k) acc (s @ t) = take_digits k v t"
  using assms by (induction n acc s rule: take_digits.induct) (auto split: option.splits)

lemma take_digits_fixed:
  assumes "0 \<le> v" "v < 10 ^ n"
  shows "take_digits n acc (fixed_digits n v) = Some (acc * 10 ^ n + v, [])"
  using assms
proof (induction n arbitrary: v)
  case 0
  then show ?case by simp
next
  case (Suc n)
  have "take_digits n acc (fixed_digits n (v div 10)) = Some (acc * 10 ^ n + v div 10, [])"
    using Suc.prems by (intro Suc.IH) auto
  from take_digits_append [OF this, of 1 "[char_of (48 + v mod 10)]"]
  show ?case by (simp add: digit_char_of algebra_simps)
qed

lemma take_digits_fixed_append [simp]:
  assumes "0 \<le> v" "v < 10 ^ n"
  shows "take_digits n 0 (fixed_digits n v @ s) = Some (v, s)"
  using take_digits_append [OF take_digits_fixed [OF assms, of 0], of 0 s] by simp

lemma length_fixed_digits [simp]: "length (fixed_digits n v) = n"
  by (induction n arbitrary: v) auto

lemma fixed_digits_digit: "c \<in> set (fixed_digits n v) \<Longrightarrow> digit c \<noteq> None"
proof (induction n arbitrary: v)
  case (Suc n)
  have "digit (char_of (48 + v mod 10)) = Some (v mod 10)"
    by (rule digit_char_of) auto
  with Suc show ?case by auto
qed simp

lemma digit_other [simp]: "digit CHR ''Z'' = None" "digit CHR ''+'' = None" "digit CHR ''-'' = None"
  "digit CHR '':'' = None" "digit CHR ''.'' = None"
  by (simp_all add: digit_def)

lemma replace_Z_simps [simp]:
  "replace_Z [] = []"
  "replace_Z (c # s) = (if c = CHR ''Z'' then ''+00:00'' @ replace_Z s else c # replace_Z s)"
  by (simp_all add: replace_Z_def)

lemma replace_Z_append [simp]: "replace_Z (s @ t) = replace_Z s @ replace_Z t"
  by (simp add: replace_Z_def)

lemma replace_Z_id: "CHR ''Z'' \<notin> set s \<Longrightarrow> replace_Z s = s"
  by (induction s) auto

lemma replace_Z_fixed [simp]: "replace_Z (fixed_digits n v) = fixed_digits n v"
  by (rule replace_Z_id) (use fixed_digits_digit in fastforce)


subsection \<open>Round trip\<close>

lemma parse_date_wire:
  assumes "1 \<le> y" "y \<le> 9999" "1 \<le> m" "m \<le> 12" "1 \<le> d" "d \<le> days_in_month y m"
  shows "parse_date (fixed_digits 4 y @ ''-'' @ fixed_digits 2 m @ ''-'' @ fixed_digits 2 d @ rest)
    = Some (ymd_to_days y m d, rest)"
proof -
  have "d < 10 ^ 2" using assms(6) by (auto simp: days_in_month_def split: if_splits)
  with assms show ?thesis by (simp add: parse_date_def)
qed

lemma parse_fraction_wire:
  assumes "0 \<le> us" "us < 1000000"
  shows "parse_fraction (fixed_digits 6 us) = Some us"
proof -
  have "fixed_digits 6 us \<noteq> []" by (metis length_fixed_digits list.size(3) numeral_eq_iff semiring_norm(85) zero_neq_numeral)
  moreover have "list_all (\<lambda>c. digit c \<noteq> None) (fixed_digits 6 us)"
    unfolding list_all_iff using fixed_digits_digit by blast
  ultimately show ?thesis
    using take_digits_fixed [of us 6 0] assms by (simp add: parse_fraction_def)
qed

lemma parse_hms_wire:
  assumes "0 \<le> h" "h < 100" "0 \<le> m" "m < 100" "0 \<le> s" "s < 100" "0 \<le> us" "us < 1000000"
  shows "parse_hms (fixed_digits 2 h @ '':'' @ fixed_digits 2 m @ '':'' @ fixed_digits 2 s @
    (if us = 0 then [] else ''.'' @ fixed_digits 6 us)) = Some (h, m, s, us)"
  using assms take_digits_fixed_append [of s 2 "[]"]
  by (simp add: parse_hms_def parse_fraction_wire)

lemma parse_time_wire:
  assumes "0 \<le> h" "h < 24" "0 \<le> m" "m < 60" "0 \<le> s" "s < 60" "0 \<le> us" "us < 1000000"
  shows "parse_time ((fixed_digits 2 h @ '':'' @ fixed_digits 2 m @ '':'' @ fixed_digits 2 s @
    (if us = 0 then [] else ''.'' @ fixed_digits 6 us)) @ ''+00:00'') = Some (hms_us (h, m, s, us), Some 0)"
    (is "parse_time (?clock @ _) = _")
proof -
  have clock: "c \<noteq> CHR ''+'' \<and> c \<noteq> CHR ''-''" if "c \<in> set ?clock" for c
    using that fixed_digits_digit by (fastforce split: if_splits)
  have "takeWhile (\<lambda>c. c \<noteq> CHR ''+'' \<and> c \<noteq> CHR ''-'') (?clock @ ''+00:00'') = ?clock"
    using clock by (subst takeWhile_append2) auto
  moreover have "dropWhile (\<lambda>c. c \<noteq> CHR ''+'' \<and> c \<noteq> CHR ''-'') (?clock @ ''+00:00'') = ''+00:00''"
    using clock by (subst dropWhile_append2) auto
  moreover have "parse_hms ?clock = Some (h, m, s, us)"
    using assms by (intro parse_hms_wire) auto
  moreover have "parse_hms ''00:00'' = Some (0, 0, 0, 0)" by code_simp
  ultimately show ?thesis
    using assms by (simp add: parse_time_def Let_def hms_us_def day_us_def)
qed

lemma hms_us_split: "hms_us (s div 3600, s div 60 mod 60, s mod 60, us) = s * 1000000 + us"
proof -
  have "s div 3600 = s div 60 div 60" using zdiv_zmult2_eq [of 60 s 60] by simp
  then have "s div 3600 * 60 + s div 60 mod 60 = s div 60"
    by (simp only: div_mult_mod_eq)
  then show ?thesis
    by (simp only: hms_us_def prod.case div_mult_mod_eq)
qed

lemma parse_wire_timestamp [simp]:
  assumes "in_range t"
  shows "parse_wire_datetime (wire_timestamp t) = Inr t"
proof -
  define n r where "n = t div day_us" and "r = t mod day_us"
  define us s where "us = r mod 1000000" and "s = r div 1000000"
  obtain y m d where ymd: "days_to_ymd n = (y, m, d)" by (cases "days_to_ymd n")
  have n: "0 \<le> n" "n < max_days" and r: "0 \<le> r" "r < day_us" and t: "t = n * day_us + r"
    using assms by (auto simp: in_range_def n_def r_def day_us_def max_days_def)
  have us: "0 \<le> us" "us < 1000000" and s: "0 \<le> s" "s < 86400" and r': "r = s * 1000000 + us"
    using r by (auto simp: us_def s_def day_us_def)
  note d = days_to_ymd [OF n(1) ymd]
  let ?time = "(fixed_digits 2 (s div 3600) @ '':'' @ fixed_digits 2 (s div 60 mod 60) @ '':'' @
    fixed_digits 2 (s mod 60) @ (if us = 0 then [] else ''.'' @ fixed_digits 6 us)) @ ''+00:00''"
  let ?date = "fixed_digits 4 y @ ''-'' @ fixed_digits 2 m @ ''-'' @ fixed_digits 2 d @ CHR ''T'' # ?time"
  have "replace_Z (wire_timestamp t) = ?date"
    by (simp add: wire_timestamp_def Let_def flip: n_def r_def us_def s_def)
      (simp add: ymd)
  moreover have "parse_date ?date = Some (n, CHR ''T'' # ?time)"
    using parse_date_wire [OF year_of_days_range [OF n, folded d(6)] d(2-5)] d(1) by simp
  moreover have "parse_time ?time = Some (hms_us (s div 3600, s div 60 mod 60, s mod 60, us), Some 0)"
    using s us by (intro parse_time_wire) auto
  moreover have "hms_us (s div 3600, s div 60 mod 60, s mod 60, us) = r"
    unfolding r' by (rule hms_us_split)
  moreover have "?time \<noteq> []" by simp
  ultimately show ?thesis
    using assms t by (cases ?time) (auto simp: parse_wire_datetime_def fromisoformat_def to_utc_def)
qed

lemma wire_timestamp_inj: "in_range s \<Longrightarrow> in_range t \<Longrightarrow> wire_timestamp s = wire_timestamp t \<longleftrightarrow> s = t"
  by (metis parse_wire_timestamp sum.inject(2))

lemma parse_wire_datetime_range: "parse_wire_datetime s = Inr t \<Longrightarrow> in_range t"
  by (auto simp: parse_wire_datetime_def to_utc_def split: option.splits prod.splits if_splits)

lemma wire_timestamp_nonempty [simp]: "wire_timestamp t \<noteq> []"
  by (simp add: wire_timestamp_def Let_def split: prod.split)

lemma or_default_wire [simp]: "or_default (Some (wire_timestamp t)) d = wire_timestamp t"
  by (cases "wire_timestamp t") (use wire_timestamp_nonempty [of t] in auto)

lemma add_seconds_Inr:
  "add_seconds ts n = Inr w \<longleftrightarrow>
    (\<exists>t. parse_wire_datetime ts = Inr t \<and> in_range (t + n * 1000000) \<and> w = wire_timestamp (t + n * 1000000))"
  by (auto simp: add_seconds_def res_simps split: if_splits)

text \<open>
  The order of the strings is not the order of the instants: a fraction sorts before the bare
  second it follows, because \<open>.\<close> precedes \<open>Z\<close>.
\<close>

lemma wire_order_not_chronological:
  "''2026-07-01T00:00:00.500000Z'' < ''2026-07-01T00:00:00Z''"
  "parse_wire_datetime ''2026-07-01T00:00:00Z'' = Inr 63918460800000000"
  "parse_wire_datetime ''2026-07-01T00:00:00.500000Z'' = Inr 63918460800500000"
  by code_simp+

text \<open>So it is for every whole second and any fraction of it.\<close>

lemma fraction_sorts_first:
  assumes "t mod 1000000 = 0" "0 < d" "d < 1000000"
  shows "wire_timestamp (t + d) < wire_timestamp t"
proof -
  define q where "q = t div 1000000"
  have t: "t = q * 1000000" using assms(1) by (auto simp: q_def)
  have us: "day_us = 1000000 * 86400" by (simp add: day_us_def)
  have small: "(q * 1000000 + e) div day_us = q div 86400 \<and>
      (q * 1000000 + e) mod day_us mod 1000000 = e \<and>
      (q * 1000000 + e) mod day_us div 1000000 = q mod 86400" if "0 \<le> e" "e < 1000000" for e
  proof -
    have "(q * 1000000 + e) div 1000000 = q" "(q * 1000000 + e) mod 1000000 = e" using that by auto
    then show ?thesis
      unfolding us by (simp only: zdiv_zmult2_eq zmod_zmult2_eq) (use that in auto)
  qed
  obtain y m n where ymd: "days_to_ymd (q div 86400) = (y, m, n)" by (cases "days_to_ymd (q div 86400)")
  define pre where "pre = fixed_digits 4 y @ ''-'' @ fixed_digits 2 m @ ''-'' @ fixed_digits 2 n @ ''T'' @
    fixed_digits 2 (q mod 86400 div 3600) @ '':'' @ fixed_digits 2 (q mod 86400 div 60 mod 60) @ '':'' @
    fixed_digits 2 (q mod 86400 mod 60)"
  have "wire_timestamp t = pre @ ''Z''"
    using small [of 0] by (simp add: t wire_timestamp_def Let_def ymd pre_def)
  moreover have "wire_timestamp (t + d) = pre @ ''.'' @ fixed_digits 6 d @ ''Z''"
    using small [of d] assms(2,3) by (simp add: t wire_timestamp_def Let_def ymd pre_def)
  moreover have "pre @ ''.'' @ fixed_digits 6 d @ ''Z'' < pre @ ''Z''"
    by (induction pre) (simp_all add: less_char_def)
  ultimately show ?thesis by simp
qed

end
