(* ===== verification/Common_Job.thy ===== *)
theory Common_Job
  imports Wire_Time
begin

section \<open>The common job: data, validation, transitions, retry and replay plans\<close>

text \<open>
  The pure half of \<^verbatim>\<open>services/_shared/nex_runtime/jobs.py\<close>: the job record and its wire
  dictionary, \<open>validate_common_job\<close>, the status machine, the retry policy with its delay, and
  the planners of retry, dead-letter and replay. A job that passed validation is a record;
  \<open>validate_common_job\<close> reads the dictionary, with the same checks in the same order, and
  \<open>check_job\<close> is what those checks say of a record. The status of a record is one of the five
  of \<open>JOB_STATUSES\<close> by its type. Every optional time argument comes with the value
  \<open>_utc_now()\<close> would give.

  What the record does not keep of the dictionary: keys beyond those listed in it
  (\<open>_job_insert_params\<close> would also store \<open>locked_at\<close>, \<open>locked_by\<close>, \<open>started_at\<close> and
  \<open>completed_at\<close> of a caller that sends them), the Python type of a time that is no string (a
  time is kept as the text \<open>str\<close> gives, which is what every reader of it in this file takes), and
  whether \<open>error\<close> or \<open>replay_lineage\<close> was \<open>None\<close> or missing (every reader uses \<open>get\<close>).
\<close>

subsection \<open>Statuses and transitions\<close>

datatype job_status = QUEUED | RUNNING | SUCCEEDED | FAILED | CANCELLED

definition JOB_STATUSES :: "job_status list" where
  "JOB_STATUSES = [QUEUED, RUNNING, SUCCEEDED, FAILED, CANCELLED]"

definition TERMINAL_JOB_STATUSES :: "job_status list" where
  "TERMINAL_JOB_STATUSES = [SUCCEEDED, FAILED, CANCELLED]"

definition ACTIVE_JOB_STATUSES :: "job_status list" where
  "ACTIVE_JOB_STATUSES = [QUEUED, RUNNING]"

fun VALID_JOB_TRANSITIONS :: "job_status \<Rightarrow> job_status list" where
  "VALID_JOB_TRANSITIONS QUEUED = [RUNNING, CANCELLED]"
| "VALID_JOB_TRANSITIONS RUNNING = [SUCCEEDED, FAILED, CANCELLED]"
| "VALID_JOB_TRANSITIONS SUCCEEDED = []"
| "VALID_JOB_TRANSITIONS FAILED = []"
| "VALID_JOB_TRANSITIONS CANCELLED = []"

fun status_text :: "job_status \<Rightarrow> string" where
  "status_text QUEUED = ''QUEUED''"
| "status_text RUNNING = ''RUNNING''"
| "status_text SUCCEEDED = ''SUCCEEDED''"
| "status_text FAILED = ''FAILED''"
| "status_text CANCELLED = ''CANCELLED''"

definition status_of :: "pyval \<Rightarrow> job_status option" where
  "status_of v = find (\<lambda>s. v = PStr (status_text s)) JOB_STATUSES"

abbreviation terminal :: "job_status \<Rightarrow> bool" where
  "terminal s \<equiv> s \<in> set TERMINAL_JOB_STATUSES"

subsection \<open>Errors\<close>

text \<open>
  \<open>JobQueueError\<close> with its code, detail and status code, or a built-in exception that
  escapes from a library call.
\<close>

datatype job_exn = JobQueueError string string int | Py py_error

fun error_code_of :: "job_exn \<Rightarrow> string option" where
  "error_code_of (JobQueueError c _ _) = Some c"
| "error_code_of (Py _) = None"

subsection \<open>The job\<close>

record common_job =
  job_schema_version :: string
  job_id :: string
  job_type :: string
  status :: job_status
  trace_id :: string
  request_id :: string
  subject_ref :: pydict
  idempotency_key :: string
  attempt_count :: int
  max_attempts :: int
  retryable :: bool
  links :: pydict
  created_at :: string
  updated_at :: string
  payload :: "pyval option"
  error :: pyval
  available_at :: "string option"
  replay_lineage :: pyval

definition COMMON_JOB_SCHEMA_VERSION :: string where
  "COMMON_JOB_SCHEMA_VERSION = ''common_job.v1''"

subsection \<open>Validation\<close>

definition required_string :: "pyval \<Rightarrow> string \<Rightarrow> job_exn + string" where
  "required_string value field_name =
     (case value of
        PStr s \<Rightarrow> if s \<noteq> [] then Inr s
          else Inl (JobQueueError ''job.field_invalid'' (field_name @ '' must be a non-empty string'') 422)
      | _ \<Rightarrow> Inl (JobQueueError ''job.field_invalid'' (field_name @ '' must be a non-empty string'') 422))"

text \<open>\<open>_required_string(str(subject_ref.get(key, "")), ...)\<close>.\<close>

definition required_ref :: "pydict \<Rightarrow> string \<Rightarrow> job_exn + string" where
  "required_ref ref key =
     (case map_of ref key of
        None \<Rightarrow> required_string (PStr []) (''subject_ref.'' @ key)
      | Some v \<Rightarrow> required_string (PStr (py_text v)) (''subject_ref.'' @ key))"

definition job_fields :: "string list" where
  "job_fields = [''job_schema_version'', ''job_id'', ''job_type'', ''status'', ''trace_id'',
     ''request_id'', ''subject_ref'', ''idempotency_key'', ''attempt_count'', ''max_attempts'',
     ''retryable'', ''links'', ''created_at'', ''updated_at'']"

definition validate_common_job :: "pydict \<Rightarrow> job_exn + common_job" where
  "validate_common_job job =
     (let missing = filter (\<lambda>field_name. map_of job field_name = None) job_fields in
      if missing \<noteq> [] then
        Inl (JobQueueError ''job.invalid'' (''missing job fields: '' @ join '', '' missing) 422)
      else if dget job ''job_schema_version'' \<noteq> PStr COMMON_JOB_SCHEMA_VERSION then
        Inl (JobQueueError ''job.schema_version_invalid'' ''job_schema_version must be common_job.v1'' 422)
      else
        sbind (required_string (dget job ''job_id'') ''job_id'') (\<lambda>jid.
        sbind (required_string (dget job ''job_type'') ''job_type'') (\<lambda>jtype.
        sbind (required_string (dget job ''trace_id'') ''trace_id'') (\<lambda>trace.
        sbind (required_string (dget job ''request_id'') ''request_id'') (\<lambda>request.
        sbind (required_string (dget job ''idempotency_key'') ''idempotency_key'') (\<lambda>idem.
        case status_of (dget job ''status'') of
          None \<Rightarrow> Inl (JobQueueError ''job.status_invalid''
            (''unsupported job status: '' @ py_text (dget job ''status'')) 422)
        | Some st \<Rightarrow>
        (case py_dict (dget job ''subject_ref'') of
          None \<Rightarrow> Inl (JobQueueError ''job.subject_ref_invalid'' ''subject_ref must be an object'' 422)
        | Some ref \<Rightarrow>
        sbind (required_ref ref ''type'') (\<lambda>_.
        sbind (required_ref ref ''id'') (\<lambda>_.
        case py_int (dget job ''attempt_count'') of
          None \<Rightarrow> Inl (JobQueueError ''job.attempt_count_invalid''
            ''attempt_count must be a non-negative integer'' 422)
        | Some attempts \<Rightarrow>
        if attempts < 0 then Inl (JobQueueError ''job.attempt_count_invalid''
            ''attempt_count must be a non-negative integer'' 422)
        else (case py_int (dget job ''max_attempts'') of
          None \<Rightarrow> Inl (JobQueueError ''job.max_attempts_invalid''
            ''max_attempts must be a positive integer'' 422)
        | Some limit \<Rightarrow>
        if limit < 1 then Inl (JobQueueError ''job.max_attempts_invalid''
            ''max_attempts must be a positive integer'' 422)
        else if attempts > limit then Inl (JobQueueError ''job.attempts_exhausted''
            ''attempt_count cannot exceed max_attempts'' 422)
        else (case py_bool (dget job ''retryable'') of
          None \<Rightarrow> Inl (JobQueueError ''job.retryable_invalid'' ''retryable must be a boolean'' 422)
        | Some r \<Rightarrow>
            (case py_dict (dget job ''links'') of
               None \<Rightarrow> Inl (JobQueueError ''job.links_invalid'' ''links must be an object'' 422)
             | Some ls \<Rightarrow>
               Inr \<lparr>job_schema_version = COMMON_JOB_SCHEMA_VERSION, job_id = jid, job_type = jtype,
                 status = st, trace_id = trace, request_id = request, subject_ref = ref,
                 idempotency_key = idem, attempt_count = attempts, max_attempts = limit,
                 retryable = r, links = ls, created_at = py_text (dget job ''created_at''),
                 updated_at = py_text (dget job ''updated_at''), payload = map_of job ''payload'',
                 error = dget job ''error'',
                 available_at = map_option py_text (map_of job ''available_at''),
                 replay_lineage = dget job ''replay_lineage''\<rparr>))))))))))))"

text \<open>The same checks on a record, whose types already say what \<open>isinstance\<close> tests.\<close>

definition check_job :: "common_job \<Rightarrow> job_exn + unit" where
  "check_job j =
     (if job_schema_version j \<noteq> COMMON_JOB_SCHEMA_VERSION then
        Inl (JobQueueError ''job.schema_version_invalid'' ''job_schema_version must be common_job.v1'' 422)
      else
        sbind (required_string (PStr (job_id j)) ''job_id'') (\<lambda>_.
        sbind (required_string (PStr (job_type j)) ''job_type'') (\<lambda>_.
        sbind (required_string (PStr (trace_id j)) ''trace_id'') (\<lambda>_.
        sbind (required_string (PStr (request_id j)) ''request_id'') (\<lambda>_.
        sbind (required_string (PStr (idempotency_key j)) ''idempotency_key'') (\<lambda>_.
        sbind (required_ref (subject_ref j) ''type'') (\<lambda>_.
        sbind (required_ref (subject_ref j) ''id'') (\<lambda>_.
        if attempt_count j < 0 then Inl (JobQueueError ''job.attempt_count_invalid''
            ''attempt_count must be a non-negative integer'' 422)
        else if max_attempts j < 1 then Inl (JobQueueError ''job.max_attempts_invalid''
            ''max_attempts must be a positive integer'' 422)
        else if attempt_count j > max_attempts j then Inl (JobQueueError ''job.attempts_exhausted''
            ''attempt_count cannot exceed max_attempts'' 422)
        else Inr ()))))))))"

text \<open>What a validated job satisfies.\<close>

definition job_wf :: "common_job \<Rightarrow> bool" where
  "job_wf j \<longleftrightarrow>
     job_schema_version j = COMMON_JOB_SCHEMA_VERSION \<and>
     job_id j \<noteq> [] \<and> job_type j \<noteq> [] \<and> trace_id j \<noteq> [] \<and> request_id j \<noteq> [] \<and>
     idempotency_key j \<noteq> [] \<and>
     (\<exists>v. map_of (subject_ref j) ''type'' = Some v \<and> py_text v \<noteq> []) \<and>
     (\<exists>v. map_of (subject_ref j) ''id'' = Some v \<and> py_text v \<noteq> []) \<and>
     0 \<le> attempt_count j \<and> 1 \<le> max_attempts j \<and> attempt_count j \<le> max_attempts j"

text \<open>
  What the contract asks of a dictionary, stated without the order of the checks; that validation
  accepts exactly these is proved below.
\<close>

definition accepted_job :: "pydict \<Rightarrow> bool" where
  "accepted_job d \<longleftrightarrow>
     (\<forall>f \<in> set job_fields. map_of d f \<noteq> None) \<and>
     dget d ''job_schema_version'' = PStr COMMON_JOB_SCHEMA_VERSION \<and>
     (\<forall>f \<in> set [''job_id'', ''job_type'', ''trace_id'', ''request_id'', ''idempotency_key''].
        \<exists>s. dget d f = PStr s \<and> s \<noteq> []) \<and>
     (\<exists>st. dget d ''status'' = PStr (status_text st)) \<and>
     (\<exists>ref. dget d ''subject_ref'' = PDict ref \<and>
        (\<forall>k \<in> set [''type'', ''id'']. \<exists>v. map_of ref k = Some v \<and> py_text v \<noteq> [])) \<and>
     (\<exists>a m. py_int (dget d ''attempt_count'') = Some a \<and> py_int (dget d ''max_attempts'') = Some m \<and>
        0 \<le> a \<and> a \<le> m \<and> 1 \<le> m) \<and>
     (\<exists>b. dget d ''retryable'' = PBool b) \<and> (\<exists>l. dget d ''links'' = PDict l)"

text \<open>The dictionary a job travels as.\<close>

definition job_to_dict :: "common_job \<Rightarrow> pydict" where
  "job_to_dict j =
     [(''job_schema_version'', PStr (job_schema_version j)), (''job_id'', PStr (job_id j)),
      (''job_type'', PStr (job_type j)), (''status'', PStr (status_text (status j))),
      (''trace_id'', PStr (trace_id j)), (''request_id'', PStr (request_id j)),
      (''subject_ref'', PDict (subject_ref j)), (''idempotency_key'', PStr (idempotency_key j)),
      (''attempt_count'', PInt (attempt_count j)), (''max_attempts'', PInt (max_attempts j)),
      (''retryable'', PBool (retryable j)), (''links'', PDict (links j)),
      (''created_at'', PStr (created_at j)), (''updated_at'', PStr (updated_at j)),
      (''error'', error j), (''replay_lineage'', replay_lineage j)] @
     (case payload j of None \<Rightarrow> [] | Some v \<Rightarrow> [(''payload'', v)]) @
     (case available_at j of None \<Rightarrow> [] | Some a \<Rightarrow> [(''available_at'', PStr a)])"

subsection \<open>Building and moving a job\<close>

definition build_common_job ::
  "string \<Rightarrow> string \<Rightarrow> string \<Rightarrow> string \<Rightarrow> pydict \<Rightarrow> string \<Rightarrow> string option \<Rightarrow> string \<Rightarrow> int \<Rightarrow> bool
    \<Rightarrow> pydict \<Rightarrow> job_status \<Rightarrow> job_exn + common_job" where
  "build_common_job jid jtype trace request ref idem created now limit retry ls st =
     (let stamp = or_default created now;
          job = \<lparr>job_schema_version = COMMON_JOB_SCHEMA_VERSION, job_id = jid, job_type = jtype,
            status = st, trace_id = trace, request_id = request, subject_ref = ref,
            idempotency_key = idem, attempt_count = 0, max_attempts = limit, retryable = retry,
            links = ls, created_at = stamp, updated_at = stamp, payload = None, error = PNone,
            available_at = None, replay_lineage = PNone\<rparr>
      in sbind (check_job job) (\<lambda>_. Inr job))"

definition build_subject_ref :: "pyval \<Rightarrow> pyval \<Rightarrow> job_exn + pydict" where
  "build_subject_ref subject_type subject_id =
     sbind (required_string subject_type ''subject_ref.type'') (\<lambda>t.
     sbind (required_string subject_id ''subject_ref.id'') (\<lambda>i.
     Inr [(''type'', PStr t), (''id'', PStr i)]))"

definition transition_common_job ::
  "common_job \<Rightarrow> job_status \<Rightarrow> string option \<Rightarrow> string \<Rightarrow> job_exn + common_job" where
  "transition_common_job job st updated now =
     sbind (check_job job) (\<lambda>_.
       if status job = st then Inr job
       else if st \<notin> set (VALID_JOB_TRANSITIONS (status job)) then
         Inl (JobQueueError ''job.transition_invalid''
           (''cannot transition job from '' @ status_text (status job) @ '' to '' @ status_text st) 409)
       else if st = RUNNING \<and> attempt_count job \<ge> max_attempts job then
         Inl (JobQueueError ''job.attempts_exhausted'' ''job has no remaining attempts'' 409)
       else Inr (job\<lparr>attempt_count := (if st = RUNNING then attempt_count job + 1 else attempt_count job),
                     status := st, updated_at := or_default updated now\<rparr>))"

record job_summary =
  sum_total :: nat
  sum_active :: nat
  sum_terminal :: nat
  sum_statuses :: "(job_status \<times> nat) list"

definition count_status :: "common_job list \<Rightarrow> job_status \<Rightarrow> nat" where
  "count_status js st = length (filter (\<lambda>j. status j = st) js)"

definition summarize_jobs :: "common_job list \<Rightarrow> job_summary" where
  "summarize_jobs js =
     \<lparr>sum_total = length js,
      sum_active = count_status js QUEUED + count_status js RUNNING,
      sum_terminal = count_status js SUCCEEDED + count_status js FAILED + count_status js CANCELLED,
      sum_statuses = map (\<lambda>st. (st, count_status js st)) JOB_STATUSES\<rparr>"

definition normalize_job_limit :: "int \<Rightarrow> int" where
  "normalize_job_limit limit = (if limit < 1 then 1 else if limit > 500 then 500 else limit)"

subsection \<open>Retry policy and delay\<close>

record job_retry_policy =
  initial_delay_seconds :: int
  max_delay_seconds :: int
  backoff_multiplier :: rat

definition make_retry_policy :: "int \<Rightarrow> int \<Rightarrow> rat \<Rightarrow> job_exn + job_retry_policy" where
  "make_retry_policy initial maximum multiplier =
     (if initial < 0 then Inl (JobQueueError ''job_retry_policy.initial_delay_invalid''
        ''initial_delay_seconds must be a non-negative integer'' 422)
      else if maximum < 0 then Inl (JobQueueError ''job_retry_policy.max_delay_invalid''
        ''max_delay_seconds must be a non-negative integer'' 422)
      else if maximum < initial then Inl (JobQueueError ''job_retry_policy.max_delay_invalid''
        ''max_delay_seconds must be greater than or equal to initial_delay_seconds'' 422)
      else if multiplier < 1 then Inl (JobQueueError ''job_retry_policy.multiplier_invalid''
        ''backoff_multiplier must be greater than or equal to 1'' 422)
      else Inr \<lparr>initial_delay_seconds = initial, max_delay_seconds = maximum,
             backoff_multiplier = multiplier\<rparr>)"

definition default_retry_policy :: job_retry_policy where
  "default_retry_policy =
     \<lparr>initial_delay_seconds = 30, max_delay_seconds = 900, backoff_multiplier = 2\<rparr>"

text \<open>What the constructor of a policy guarantees.\<close>

definition policy_wf :: "job_retry_policy \<Rightarrow> bool" where
  "policy_wf p \<longleftrightarrow> 0 \<le> initial_delay_seconds p \<and> initial_delay_seconds p \<le> max_delay_seconds p \<and>
     1 \<le> backoff_multiplier p"

text \<open>
  \<open>_retry_delay_seconds\<close>. A float is a rational; \<open>**\<close> on floats raises \<open>OverflowError\<close> when the
  power is no double, and so does \<open>int\<close> of an infinite product. The rounding of doubles is not
  modelled: powers and products of the default multiplier 2.0 are exact, other multipliers may
  differ from the model by the last digit of a double before the cap is taken.
\<close>

definition double_limit :: rat where
  "double_limit = 2 ^ 1024"

lemma double_limit_code [code]: "double_limit = 179769313486231590772930519078902473361797697894230657273430081157732675805500963132708477322407536021120113879871393357658789768814416622492847430639474124377767893424865485276302219601246094119453082952085005768838150682342462881473913110540827237163350510684586298239947245938479716304835356329624224137216"
  by (simp add: double_limit_def)

definition retry_delay_seconds :: "int \<Rightarrow> job_retry_policy \<Rightarrow> job_exn + int" where
  "retry_delay_seconds attempts policy =
     (let exponent = nat (max (attempts - 1) 0);
          factor = backoff_multiplier policy ^ exponent;
          raw_delay = of_int (initial_delay_seconds policy) * factor
      in if factor \<ge> double_limit \<or> raw_delay \<ge> double_limit then Inl (Py OverflowError)
         else Inr (min \<lfloor>raw_delay\<rfloor> (max_delay_seconds policy)))"

subsection \<open>Errors of a job\<close>

definition build_job_error :: "string \<Rightarrow> string \<Rightarrow> bool \<Rightarrow> bool \<Rightarrow> job_exn + pydict" where
  "build_job_error code text retry dead =
     sbind (required_string (PStr code) ''error.error_code'') (\<lambda>c.
     sbind (required_string (PStr text) ''error.detail'') (\<lambda>t.
     Inr [(''error_code'', PStr c), (''detail'', PStr t), (''retryable'', PBool retry),
          (''dead_lettered'', PBool dead)]))"

text \<open>\<open>str(d.get(k, default))\<close>.\<close>

definition get_text :: "pydict \<Rightarrow> string \<Rightarrow> string \<Rightarrow> string" where
  "get_text d k dflt = (case map_of d k of None \<Rightarrow> dflt | Some v \<Rightarrow> py_text v)"

definition normalize_job_error :: "pydict option \<Rightarrow> bool \<Rightarrow> job_exn + pydict" where
  "normalize_job_error err retry =
     (case err of
        None \<Rightarrow> build_job_error ''job.execution_failed'' ''job execution failed'' retry False
      | Some d \<Rightarrow> build_job_error (get_text d ''error_code'' ''job.execution_failed'')
          (get_text d ''detail'' ''job execution failed'') retry (truthy (dget d ''dead_lettered'')))"

text \<open>\<open>{**safe_error, "retryable": r, "dead_lettered": d}\<close>.\<close>

definition mark_error :: "pydict \<Rightarrow> bool \<Rightarrow> bool \<Rightarrow> pyval" where
  "mark_error e retry dead =
     PDict (dict_put ''dead_lettered'' (PBool dead) (dict_put ''retryable'' (PBool retry) e))"

text \<open>\<open>isinstance(error, dict) and error.get("dead_lettered")\<close>.\<close>

definition dead_lettered :: "pyval \<Rightarrow> bool" where
  "dead_lettered e = (case e of PDict d \<Rightarrow> truthy (dget d ''dead_lettered'') | _ \<Rightarrow> False)"

subsection \<open>Planning a retry or a dead letter\<close>

datatype retry_action = REQUEUE | DEAD_LETTER

record job_retry_decision =
  action :: retry_action
  failed_at :: string
  decided_available_at :: "string option"
  decided_error :: pyval

definition plan_job_retry ::
  "common_job \<Rightarrow> pydict option \<Rightarrow> string option \<Rightarrow> string \<Rightarrow> job_retry_policy option
    \<Rightarrow> job_exn + job_retry_decision" where
  "plan_job_retry job err failed now policy =
     sbind (check_job job) (\<lambda>_.
       if status job \<noteq> RUNNING then
         Inl (JobQueueError ''job.retry_status_invalid'' ''only RUNNING jobs can be retried'' 409)
       else
         let observed = or_default failed now;
             can_retry = retryable job \<and> attempt_count job < max_attempts job in
         sbind (normalize_job_error err can_retry) (\<lambda>safe_error.
           if \<not> can_retry then
             Inr \<lparr>action = DEAD_LETTER, failed_at = observed, decided_available_at = None,
                  decided_error = mark_error safe_error False True\<rparr>
           else
             sbind (retry_delay_seconds (attempt_count job)
               (case policy of None \<Rightarrow> default_retry_policy | Some p \<Rightarrow> p)) (\<lambda>delay.
             sbind (map_err Py (add_seconds observed delay)) (\<lambda>available.
             Inr \<lparr>action = REQUEUE, failed_at = observed, decided_available_at = Some available,
                  decided_error = mark_error safe_error True False\<rparr>))))"

definition plan_job_dead_letter ::
  "common_job \<Rightarrow> pydict option \<Rightarrow> string option \<Rightarrow> string \<Rightarrow> job_exn + job_retry_decision" where
  "plan_job_dead_letter job err failed now =
     sbind (check_job job) (\<lambda>_.
       if status job \<noteq> RUNNING then
         Inl (JobQueueError ''job.dead_letter_status_invalid'' ''only RUNNING jobs can be dead-lettered'' 409)
       else
         sbind (normalize_job_error err False) (\<lambda>safe_error.
           Inr \<lparr>action = DEAD_LETTER, failed_at = or_default failed now, decided_available_at = None,
                decided_error = mark_error safe_error False True\<rparr>))"

subsection \<open>Planning a replay\<close>

record job_replay_policy =
  require_dead_lettered :: bool
  require_operator_reason :: bool
  max_reason_length :: int
  copy_payload :: bool

definition make_replay_policy :: "bool \<Rightarrow> bool \<Rightarrow> int \<Rightarrow> bool \<Rightarrow> job_exn + job_replay_policy" where
  "make_replay_policy dead reason len copy =
     (if len < 1 then Inl (JobQueueError ''job_replay_policy.max_reason_length_invalid''
        ''max_reason_length must be a positive integer'' 422)
      else Inr \<lparr>require_dead_lettered = dead, require_operator_reason = reason,
             max_reason_length = len, copy_payload = copy\<rparr>)"

definition default_replay_policy :: job_replay_policy where
  "default_replay_policy = \<lparr>require_dead_lettered = True, require_operator_reason = True,
     max_reason_length = 240, copy_payload = True\<rparr>"

record job_replay_decision =
  replayed_at :: string
  source_job_id :: string
  replay_job :: common_job
  lineage :: pydict

definition normalize_replay_reason :: "pyval \<Rightarrow> job_replay_policy \<Rightarrow> job_exn + string" where
  "normalize_replay_reason reason policy =
     (case reason of
        PStr r \<Rightarrow>
          (let normalized = py_strip r in
           if require_operator_reason policy \<and> normalized = [] then
             Inl (JobQueueError ''job_replay.reason_required'' ''reason must be a non-empty string'' 422)
           else if int (length normalized) > max_reason_length policy then
             Inl (JobQueueError ''job_replay.reason_too_long''
               (''reason must be at most '' @ show_int (max_reason_length policy) @ '' characters'') 422)
           else Inr normalized)
      | _ \<Rightarrow> Inl (JobQueueError ''job_replay.reason_invalid'' ''reason must be a string'' 422))"

definition build_replay_lineage :: "common_job \<Rightarrow> string \<Rightarrow> string \<Rightarrow> string \<Rightarrow> pydict" where
  "build_replay_lineage source by reason stamp =
     (let code = (case error source of PDict d \<Rightarrow> dget d ''error_code'' | _ \<Rightarrow> PNone) in
      [(''lineage_schema_version'', PStr ''job_replay_lineage.v1''),
       (''source_job_id'', PStr (job_id source)),
       (''source_status'', PStr (status_text (status source))),
       (''source_attempt_count'', PInt (attempt_count source)),
       (''source_max_attempts'', PInt (max_attempts source)),
       (''source_error_code'', if truthy code then PStr (py_text code) else PNone),
       (''requested_by'', PStr by), (''reason'', PStr reason), (''replayed_at'', PStr stamp)])"

definition plan_dead_letter_replay ::
  "common_job \<Rightarrow> pyval \<Rightarrow> pyval \<Rightarrow> pyval \<Rightarrow> pyval \<Rightarrow> string option \<Rightarrow> string
    \<Rightarrow> job_replay_policy option \<Rightarrow> job_exn + job_replay_decision" where
  "plan_dead_letter_replay job replay_id idem requested_by reason replayed now policy =
     sbind (check_job job) (\<lambda>_.
     let p = (case policy of None \<Rightarrow> default_replay_policy | Some p \<Rightarrow> p) in
     if status job \<noteq> FAILED then
       Inl (JobQueueError ''job_replay.status_invalid'' ''only FAILED jobs can be replayed'' 409)
     else if require_dead_lettered p \<and> \<not> dead_lettered (error job) then
       Inl (JobQueueError ''job_replay.dead_letter_required'' ''only dead-lettered jobs can be replayed'' 409)
     else
       sbind (required_string requested_by ''requested_by'') (\<lambda>operator.
       sbind (normalize_replay_reason reason p) (\<lambda>normalized_reason.
       let observed = or_default replayed now in
       sbind (required_string replay_id ''replay_job_id'') (\<lambda>new_id.
       sbind (required_string idem ''idempotency_key'') (\<lambda>key.
       sbind (build_common_job new_id (job_type job) (trace_id job) (request_id job) (subject_ref job)
                key (Some observed) now (max_attempts job) True (links job) QUEUED) (\<lambda>built.
       let lin = build_replay_lineage job operator normalized_reason observed;
           new = built\<lparr>replay_lineage := PDict lin,
                   payload := (if copy_payload p then payload job else None)\<rparr>
       in sbind (check_job new) (\<lambda>_.
          Inr \<lparr>replayed_at = observed, source_job_id = job_id job, replay_job = new,
               lineage = lin\<rparr>)))))))"


subsection \<open>Validation establishes well-formedness\<close>

lemma show_nat_nonempty [simp]: "show_nat n \<noteq> []"
  by (subst show_nat.simps) simp

lemma required_string_PStr [simp]: "required_string (PStr s) f = Inr x \<longleftrightarrow> s \<noteq> [] \<and> x = s"
  by (auto simp: required_string_def)

lemma required_string_eq_Inr: "required_string v f = Inr x \<longleftrightarrow> v = PStr x \<and> x \<noteq> []"
  by (auto simp: required_string_def split: pyval.splits if_splits)

lemma required_ref_eq_Inr:
  "required_ref r k = Inr x \<longleftrightarrow> (\<exists>v. map_of r k = Some v \<and> py_text v = x \<and> x \<noteq> [])"
  by (auto simp: required_ref_def split: option.splits)

lemma check_job_iff [simp]: "check_job j = Inr u \<longleftrightarrow> job_wf j"
  by (auto simp: check_job_def job_wf_def res_simps required_ref_eq_Inr)

lemma check_job_wf [simp]: "job_wf j \<Longrightarrow> check_job j = Inr ()"
  by simp

lemma validate_common_job_wf: "validate_common_job d = Inr j \<Longrightarrow> job_wf j"
  by (auto simp: validate_common_job_def Let_def res_simps required_string_eq_Inr required_ref_eq_Inr
      job_wf_def)

lemma status_of_text [simp]: "status_of (PStr (status_text s)) = Some s"
  by (cases s) (simp_all add: status_of_def JOB_STATUSES_def)

lemma status_of_Some: "status_of v = Some s \<longleftrightarrow> v = PStr (status_text s)"
proof
  show "status_of v = Some s \<Longrightarrow> v = PStr (status_text s)"
    by (auto simp: status_of_def find_Some_iff)
qed simp

lemma dget_job_to_dict:
  "dget (job_to_dict j) ''job_schema_version'' = PStr (job_schema_version j)"
  "dget (job_to_dict j) ''job_id'' = PStr (job_id j)"
  "dget (job_to_dict j) ''job_type'' = PStr (job_type j)"
  "dget (job_to_dict j) ''status'' = PStr (status_text (status j))"
  "dget (job_to_dict j) ''trace_id'' = PStr (trace_id j)"
  "dget (job_to_dict j) ''request_id'' = PStr (request_id j)"
  "dget (job_to_dict j) ''subject_ref'' = PDict (subject_ref j)"
  "dget (job_to_dict j) ''idempotency_key'' = PStr (idempotency_key j)"
  "dget (job_to_dict j) ''attempt_count'' = PInt (attempt_count j)"
  "dget (job_to_dict j) ''max_attempts'' = PInt (max_attempts j)"
  "dget (job_to_dict j) ''retryable'' = PBool (retryable j)"
  "dget (job_to_dict j) ''links'' = PDict (links j)"
  "dget (job_to_dict j) ''created_at'' = PStr (created_at j)"
  "dget (job_to_dict j) ''updated_at'' = PStr (updated_at j)"
  "dget (job_to_dict j) ''error'' = error j"
  "dget (job_to_dict j) ''replay_lineage'' = replay_lineage j"
  "map_of (job_to_dict j) ''payload'' = payload j"
  "map_of (job_to_dict j) ''available_at'' = map_option PStr (available_at j)"
  by (simp_all add: dget_def job_to_dict_def split: option.splits)

text \<open>Which dictionaries validation accepts, and what it keeps of them.\<close>

lemma validate_common_job_accepts: "(\<exists>j. validate_common_job d = Inr j) \<longleftrightarrow> accepted_job d"
proof
  assume "\<exists>j. validate_common_job d = Inr j"
  then obtain j where "validate_common_job d = Inr j" ..
  then show "accepted_job d"
    by (auto simp: validate_common_job_def accepted_job_def Let_def res_simps required_string_eq_Inr
        required_ref_eq_Inr status_of_Some py_bool_Some py_dict_Some filter_empty_conv)
next
  assume acc: "accepted_job d"
  then obtain ref l st b a m v w where parts:
    "dget d ''subject_ref'' = PDict ref" "map_of ref ''type'' = Some v" "py_text v \<noteq> []"
    "map_of ref ''id'' = Some w" "py_text w \<noteq> []" "dget d ''links'' = PDict l"
    "dget d ''status'' = PStr (status_text st)" "dget d ''retryable'' = PBool b"
    "py_int (dget d ''attempt_count'') = Some a" "py_int (dget d ''max_attempts'') = Some m"
    "0 \<le> a" "a \<le> m" "1 \<le> m"
    unfolding accepted_job_def by auto
  from acc obtain i t tr rq k where texts:
    "dget d ''job_id'' = PStr i" "i \<noteq> []" "dget d ''job_type'' = PStr t" "t \<noteq> []"
    "dget d ''trace_id'' = PStr tr" "tr \<noteq> []" "dget d ''request_id'' = PStr rq" "rq \<noteq> []"
    "dget d ''idempotency_key'' = PStr k" "k \<noteq> []"
    unfolding accepted_job_def by auto
  have "filter (\<lambda>f. map_of d f = None) job_fields = []"
    "dget d ''job_schema_version'' = PStr COMMON_JOB_SCHEMA_VERSION"
    using acc by (auto simp: accepted_job_def filter_empty_conv)
  then show "\<exists>j. validate_common_job d = Inr j"
    using parts texts
    by (simp add: validate_common_job_def required_string_def required_ref_def)
qed

lemma validate_keeps:
  assumes "validate_common_job d = Inr j"
  shows "\<forall>k \<in> set [''job_schema_version'', ''job_id'', ''job_type'', ''status'', ''trace_id'', ''request_id'',
      ''subject_ref'', ''idempotency_key'', ''retryable'', ''links'', ''error'', ''replay_lineage''].
      dget (job_to_dict j) k = dget d k"
    "py_int (dget d ''attempt_count'') = Some (attempt_count j)"
    "py_int (dget d ''max_attempts'') = Some (max_attempts j)" "payload j = map_of d ''payload''"
  using assms
  by (auto simp: validate_common_job_def Let_def res_simps required_string_eq_Inr status_of_Some py_bool_Some
      py_dict_Some dget_job_to_dict)

lemma validate_job_to_dict:
  "validate_common_job (job_to_dict j) = sbind (check_job j) (\<lambda>_. Inr j)"
proof -
  have keys: "filter (\<lambda>f. map_of (job_to_dict j) f = None) job_fields = []"
    by (simp add: job_fields_def job_to_dict_def)
  have eta: "job_schema_version j = COMMON_JOB_SCHEMA_VERSION \<Longrightarrow>
    \<lparr>job_schema_version = COMMON_JOB_SCHEMA_VERSION, job_id = job_id j, job_type = job_type j,
     status = status j, trace_id = trace_id j, request_id = request_id j,
     subject_ref = subject_ref j, idempotency_key = idempotency_key j,
     attempt_count = attempt_count j, max_attempts = max_attempts j, retryable = retryable j,
     links = links j, created_at = created_at j, updated_at = updated_at j, payload = payload j,
     error = error j, available_at = available_at j, replay_lineage = replay_lineage j\<rparr> = j"
    by (cases j) simp
  show ?thesis
    unfolding validate_common_job_def Let_def keys dget_job_to_dict
    by (simp add: eta check_job_def required_string_def sbind_assoc sbind_if option.map_comp comp_def option.map_ident
        cong: if_cong)
qed

lemma validate_round_trip: "job_wf j \<Longrightarrow> validate_common_job (job_to_dict j) = Inr j"
  by (simp add: validate_job_to_dict)

subsection \<open>Transitions\<close>

lemma JOB_STATUSES_all [simp]: "s \<in> set JOB_STATUSES"
  by (cases s) (simp_all add: JOB_STATUSES_def)

lemma terminal_simps [simp]:
  "\<not> terminal QUEUED" "\<not> terminal RUNNING" "terminal SUCCEEDED" "terminal FAILED" "terminal CANCELLED"
  by (simp_all add: TERMINAL_JOB_STATUSES_def)

lemma terminal_iff: "terminal s \<longleftrightarrow> VALID_JOB_TRANSITIONS s = []"
  by (cases s) simp_all

lemma build_common_job_Inr:
  "build_common_job jid jtype trace request ref idem created now limit retry ls st = Inr j \<Longrightarrow>
    job_wf j \<and> job_id j = jid \<and> job_type j = jtype \<and> status j = st \<and> attempt_count j = 0 \<and>
    max_attempts j = limit \<and> idempotency_key j = idem \<and> retryable j = retry \<and>
    trace_id j = trace \<and> request_id j = request \<and> subject_ref j = ref \<and> links j = ls \<and>
    payload j = None \<and> available_at j = None \<and> created_at j = or_default created now \<and>
    error j = PNone"
  by (auto simp: build_common_job_def Let_def res_simps)

text \<open>A successful transition, by its two cases.\<close>

lemma transition_Inr:
  "transition_common_job j st upd now = Inr j' \<longleftrightarrow>
    job_wf j \<and>
    (status j = st \<and> j' = j \<or>
     status j \<noteq> st \<and> st \<in> set (VALID_JOB_TRANSITIONS (status j)) \<and>
     (st = RUNNING \<longrightarrow> attempt_count j < max_attempts j) \<and>
     j' = j\<lparr>attempt_count := (if st = RUNNING then attempt_count j + 1 else attempt_count j),
            status := st, updated_at := or_default upd now\<rparr>)"
  by (auto simp: transition_common_job_def res_simps)

lemma job_wf_update [simp]:
  "job_wf (j\<lparr>status := st\<rparr>) = job_wf j" "job_wf (j\<lparr>updated_at := u\<rparr>) = job_wf j"
  "job_wf (j\<lparr>error := e\<rparr>) = job_wf j" "job_wf (j\<lparr>available_at := a\<rparr>) = job_wf j"
  "job_wf (j\<lparr>retryable := r\<rparr>) = job_wf j" "job_wf (j\<lparr>payload := p\<rparr>) = job_wf j"
  "job_wf (j\<lparr>replay_lineage := l\<rparr>) = job_wf j"
  by (simp_all add: job_wf_def)

lemma job_wf_attempt:
  "job_wf j \<Longrightarrow> attempt_count j < max_attempts j \<Longrightarrow> job_wf (j\<lparr>attempt_count := attempt_count j + 1\<rparr>)"
  by (simp add: job_wf_def)

lemma transition_wf: "transition_common_job j st upd now = Inr j' \<Longrightarrow> job_wf j'"
  by (auto simp: transition_Inr job_wf_attempt)

lemma transition_terminal:
  assumes "terminal (status j)"
  shows "transition_common_job j st upd now = Inr j' \<Longrightarrow> j' = j"
  using assms by (auto simp: transition_Inr terminal_iff)

lemma transition_ids:
  "transition_common_job j st upd now = Inr j' \<Longrightarrow>
    job_id j' = job_id j \<and> job_type j' = job_type j \<and> idempotency_key j' = idempotency_key j \<and>
    max_attempts j' = max_attempts j \<and> created_at j' = created_at j \<and> available_at j' = available_at j \<and>
    payload j' = payload j \<and> status j' = st"
  by (auto simp: transition_Inr)

text \<open>An error of a transition names one of two causes.\<close>

lemma transition_Inl:
  "job_wf j \<Longrightarrow> transition_common_job j st upd now = Inl e \<longleftrightarrow>
    status j \<noteq> st \<and>
    (st \<notin> set (VALID_JOB_TRANSITIONS (status j)) \<and>
       e = JobQueueError ''job.transition_invalid''
         (''cannot transition job from '' @ status_text (status j) @ '' to '' @ status_text st) 409 \<or>
     st \<in> set (VALID_JOB_TRANSITIONS (status j)) \<and> st = RUNNING \<and> max_attempts j \<le> attempt_count j \<and>
       e = JobQueueError ''job.attempts_exhausted'' ''job has no remaining attempts'' 409)"
  by (auto simp: transition_common_job_def)

lemma count_status_partition:
  "count_status js QUEUED + count_status js RUNNING + count_status js SUCCEEDED +
    count_status js FAILED + count_status js CANCELLED = length js"
proof (induction js)
  case (Cons j js)
  then show ?case by (cases "status j") (simp_all add: count_status_def)
qed (simp add: count_status_def)

subsection \<open>Retry delays\<close>

lemma make_retry_policy_wf: "make_retry_policy i m b = Inr p \<longleftrightarrow>
    policy_wf p \<and> i = initial_delay_seconds p \<and> m = max_delay_seconds p \<and> b = backoff_multiplier p"
  by (cases p) (auto simp: make_retry_policy_def policy_wf_def)

lemma default_retry_policy_wf: "policy_wf default_retry_policy"
  by (simp add: policy_wf_def default_retry_policy_def)

lemma retry_delay_Inr:
  "retry_delay_seconds a p = Inr d \<longleftrightarrow>
    backoff_multiplier p ^ nat (max (a - 1) 0) < double_limit \<and>
    of_int (initial_delay_seconds p) * backoff_multiplier p ^ nat (max (a - 1) 0) < double_limit \<and>
    d = min \<lfloor>of_int (initial_delay_seconds p) * backoff_multiplier p ^ nat (max (a - 1) 0)\<rfloor>
          (max_delay_seconds p)"
  unfolding retry_delay_seconds_def Let_def if_Inl_eq_Inr sum.inject de_Morgan_disj not_le
  by (simp only: conj_assoc eq_commute)

lemma retry_delay_bounds:
  assumes "policy_wf p" "retry_delay_seconds a p = Inr d"
  shows "initial_delay_seconds p \<le> d" "d \<le> max_delay_seconds p"
proof -
  let ?f = "backoff_multiplier p ^ nat (max (a - 1) 0)"
  have "1 \<le> ?f" using assms(1) by (intro one_le_power) (simp add: policy_wf_def)
  then have "(of_int (initial_delay_seconds p) :: rat) * 1 \<le> of_int (initial_delay_seconds p) * ?f"
    using assms(1) by (intro mult_left_mono) (simp_all add: policy_wf_def)
  then have "initial_delay_seconds p \<le> \<lfloor>of_int (initial_delay_seconds p) * ?f\<rfloor>"
    by (simp add: le_floor_iff)
  moreover have "d = min \<lfloor>of_int (initial_delay_seconds p) * ?f\<rfloor> (max_delay_seconds p)"
    using assms(2) unfolding retry_delay_Inr by simp
  ultimately show "initial_delay_seconds p \<le> d" "d \<le> max_delay_seconds p"
    using assms(1) by (simp_all add: policy_wf_def)
qed

lemma retry_delay_mono:
  assumes "policy_wf p" "a \<le> b" "retry_delay_seconds a p = Inr d" "retry_delay_seconds b p = Inr d'"
  shows "d \<le> d'"
proof -
  let ?f = "\<lambda>a. backoff_multiplier p ^ nat (max (a - 1) 0)"
  have "?f a \<le> ?f b"
    using assms(1,2) by (intro power_increasing) (auto simp: policy_wf_def)
  then have "(of_int (initial_delay_seconds p) :: rat) * ?f a \<le> of_int (initial_delay_seconds p) * ?f b"
    using assms(1) by (intro mult_left_mono) (simp_all add: policy_wf_def)
  then have "\<lfloor>of_int (initial_delay_seconds p) * ?f a\<rfloor> \<le> \<lfloor>of_int (initial_delay_seconds p) * ?f b\<rfloor>"
    by (rule floor_mono)
  moreover have "d = min \<lfloor>of_int (initial_delay_seconds p) * ?f a\<rfloor> (max_delay_seconds p)"
    "d' = min \<lfloor>of_int (initial_delay_seconds p) * ?f b\<rfloor> (max_delay_seconds p)"
    using assms(3,4) unfolding retry_delay_Inr by blast+
  ultimately show ?thesis by (simp only: min.mono order_refl)
qed

text \<open>The default policy returns a delay for the first thousand attempts.\<close>

lemma default_delay_total:
  assumes "a \<le> 1000"
  shows "\<exists>d. retry_delay_seconds a default_retry_policy = Inr d \<and> 30 \<le> d \<and> d \<le> 900"
proof -
  define e where "e = nat (max (a - 1) 0)"
  have "(2::rat) ^ e \<le> 2 ^ 999" using assms unfolding e_def by (intro power_increasing) auto
  then have "30 * (2::rat) ^ e \<le> 2 ^ 5 * 2 ^ 999" by (intro mult_mono) simp_all
  also have "\<dots> < double_limit"
    unfolding double_limit_def power_add [symmetric] by (rule power_strict_increasing) simp_all
  finally have "30 * (2::rat) ^ e < double_limit" .
  moreover have "(2::rat) ^ e \<le> 30 * 2 ^ e" by simp
  ultimately obtain d where d: "retry_delay_seconds a default_retry_policy = Inr d"
    unfolding retry_delay_Inr default_retry_policy_def job_retry_policy.simps e_def [symmetric]
    by (metis le_less_trans of_int_numeral)
  with retry_delay_bounds [OF default_retry_policy_wf d] show ?thesis
    by (simp add: default_retry_policy_def)
qed

subsection \<open>The plans\<close>

lemma dead_lettered_mark [simp]: "dead_lettered (mark_error e r d) = d"
  by (simp add: dead_lettered_def mark_error_def dget_def)

lemma dget_mark_error:
  "mark_error e r d = PDict m \<Longrightarrow> dget m ''retryable'' = PBool r \<and> dget m ''error_code'' = dget e ''error_code''"
  by (auto simp: mark_error_def dget_def)

lemma normalize_job_error_None [simp]:
  "normalize_job_error None r = Inr [(''error_code'', PStr ''job.execution_failed''),
     (''detail'', PStr ''job execution failed''), (''retryable'', PBool r), (''dead_lettered'', PBool False)]"
  by (simp add: normalize_job_error_def build_job_error_def required_string_def)

text \<open>A retry either requeues, with a delay, while attempts remain, or dead-letters.\<close>

lemma plan_job_retry_Inr:
  assumes "plan_job_retry j err fa now pol = Inr dec"
  shows "job_wf j" "status j = RUNNING" "failed_at dec = or_default fa now"
    "retryable j \<and> attempt_count j < max_attempts j \<Longrightarrow>
      action dec = REQUEUE \<and> \<not> dead_lettered (decided_error dec) \<and>
      (\<exists>d w. retry_delay_seconds (attempt_count j) (case pol of None \<Rightarrow> default_retry_policy | Some p \<Rightarrow> p) = Inr d \<and>
        add_seconds (or_default fa now) d = Inr w \<and> decided_available_at dec = Some w)"
    "\<not> (retryable j \<and> attempt_count j < max_attempts j) \<Longrightarrow>
      action dec = DEAD_LETTER \<and> dead_lettered (decided_error dec) \<and> decided_available_at dec = None"
  using assms by (auto simp: plan_job_retry_def Let_def res_simps split: if_splits)

text \<open>A retry of a running job returns whenever its time is readable and no double overflows.\<close>

lemma plan_job_retry_total:
  assumes "job_wf j" "status j = RUNNING" "normalize_job_error err (retryable j \<and> attempt_count j < max_attempts j) = Inr e"
    "retry_delay_seconds (attempt_count j) (case pol of None \<Rightarrow> default_retry_policy | Some p \<Rightarrow> p) = Inr d"
    "add_seconds (or_default fa now) d = Inr w"
  shows "\<exists>dec. plan_job_retry j err fa now pol = Inr dec"
  using assms by (simp add: plan_job_retry_def Let_def)

lemma plan_job_dead_letter_Inr:
  assumes "plan_job_dead_letter j err fa now = Inr dec"
  shows "job_wf j" "status j = RUNNING" "failed_at dec = or_default fa now" "action dec = DEAD_LETTER"
    "dead_lettered (decided_error dec)"
  using assms by (auto simp: plan_job_dead_letter_def res_simps)

lemma normalize_replay_reason_Inr:
  "normalize_replay_reason v p = Inr r \<longleftrightarrow>
    (\<exists>s. v = PStr s \<and> r = py_strip s \<and> (require_operator_reason p \<longrightarrow> r \<noteq> []) \<and>
      int (length r) \<le> max_reason_length p)"
  by (auto simp: normalize_replay_reason_def Let_def res_simps split: pyval.splits)

lemma plan_replay_obtain:
  assumes "plan_dead_letter_replay j rid idem who reason ra now pol = Inr dec"
  defines "p \<equiv> (case pol of None \<Rightarrow> default_replay_policy | Some p \<Rightarrow> p)"
  obtains operator r built where
    "job_wf j" "status j = FAILED" "require_dead_lettered p \<longrightarrow> dead_lettered (error j)"
    "who = PStr operator" "normalize_replay_reason reason p = Inr r"
    "rid = PStr (job_id built)" "idem = PStr (idempotency_key built)"
    "build_common_job (job_id built) (job_type j) (trace_id j) (request_id j) (subject_ref j)
       (idempotency_key built) (Some (or_default ra now)) now (max_attempts j) True (links j) QUEUED = Inr built"
    "dec = \<lparr>replayed_at = or_default ra now, source_job_id = job_id j,
       replay_job = built\<lparr>replay_lineage := PDict (build_replay_lineage j operator r (or_default ra now)),
         payload := (if copy_payload p then payload j else None)\<rparr>,
       lineage = build_replay_lineage j operator r (or_default ra now)\<rparr>"
proof -
  obtain operator r new_id key built where 1:
    "job_wf j" "status j = FAILED" "\<not> (require_dead_lettered p \<and> \<not> dead_lettered (error j))"
    "who = PStr operator" "normalize_replay_reason reason p = Inr r"
    "rid = PStr new_id" "idem = PStr key"
    "build_common_job new_id (job_type j) (trace_id j) (request_id j) (subject_ref j) key
       (Some (or_default ra now)) now (max_attempts j) True (links j) QUEUED = Inr built"
    "dec = \<lparr>replayed_at = or_default ra now, source_job_id = job_id j,
       replay_job = built\<lparr>replay_lineage := PDict (build_replay_lineage j operator r (or_default ra now)),
         payload := (if copy_payload p then payload j else None)\<rparr>,
       lineage = build_replay_lineage j operator r (or_default ra now)\<rparr>"
    using assms(1) unfolding plan_dead_letter_replay_def Let_def res_simps p_def [symmetric]
    by (auto simp: required_string_eq_Inr)
  from build_common_job_Inr [OF 1(8)] have "job_id built = new_id" "idempotency_key built = key"
    by auto
  with 1 that show ?thesis by metis
qed

lemma or_default_same [simp]: "or_default (Some d) d = d"
  by (cases d) auto

lemma or_default_idem [simp]: "or_default (Some (or_default a d)) d = or_default a d"
  by (induction a d rule: or_default.induct) auto

lemma plan_replay_Inr:
  assumes "plan_dead_letter_replay j rid idem who reason ra now pol = Inr dec"
  defines "p \<equiv> (case pol of None \<Rightarrow> default_replay_policy | Some p \<Rightarrow> p)"
  shows "job_wf j" "status j = FAILED" "require_dead_lettered p \<Longrightarrow> dead_lettered (error j)"
    "source_job_id dec = job_id j" "job_wf (replay_job dec)"
    "rid = PStr (job_id (replay_job dec))" "idem = PStr (idempotency_key (replay_job dec))"
    "status (replay_job dec) = QUEUED" "attempt_count (replay_job dec) = 0"
    "max_attempts (replay_job dec) = max_attempts j" "job_type (replay_job dec) = job_type j"
    "trace_id (replay_job dec) = trace_id j"
    "retryable (replay_job dec)" "replay_lineage (replay_job dec) = PDict (lineage dec)"
    "payload (replay_job dec) = (if copy_payload p then payload j else None)"
    "dget (lineage dec) ''source_job_id'' = PStr (job_id j)"
    "error (replay_job dec) = PNone" "available_at (replay_job dec) = None"
    "created_at (replay_job dec) = replayed_at dec" "replayed_at dec = or_default ra now"
proof -
  obtain operator r built where 1:
    "job_wf j" "status j = FAILED" "require_dead_lettered p \<longrightarrow> dead_lettered (error j)"
    "who = PStr operator" "normalize_replay_reason reason p = Inr r"
    "rid = PStr (job_id built)" "idem = PStr (idempotency_key built)"
    "build_common_job (job_id built) (job_type j) (trace_id j) (request_id j) (subject_ref j)
       (idempotency_key built) (Some (or_default ra now)) now (max_attempts j) True (links j) QUEUED = Inr built"
    "dec = \<lparr>replayed_at = or_default ra now, source_job_id = job_id j,
       replay_job = built\<lparr>replay_lineage := PDict (build_replay_lineage j operator r (or_default ra now)),
         payload := (if copy_payload p then payload j else None)\<rparr>,
       lineage = build_replay_lineage j operator r (or_default ra now)\<rparr>"
    using assms(1) unfolding p_def by (rule plan_replay_obtain)
  note 2 = build_common_job_Inr [OF 1(8)]
  show "job_wf j" "status j = FAILED" "require_dead_lettered p \<Longrightarrow> dead_lettered (error j)"
    "rid = PStr (job_id (replay_job dec))" "idem = PStr (idempotency_key (replay_job dec))"
    using 1(1-7) by (simp_all add: 1(9))
  show "source_job_id dec = job_id j" "job_wf (replay_job dec)"
    "status (replay_job dec) = QUEUED" "attempt_count (replay_job dec) = 0"
    "max_attempts (replay_job dec) = max_attempts j" "job_type (replay_job dec) = job_type j"
    "trace_id (replay_job dec) = trace_id j"
    "retryable (replay_job dec)" "replay_lineage (replay_job dec) = PDict (lineage dec)"
    "payload (replay_job dec) = (if copy_payload p then payload j else None)"
    "error (replay_job dec) = PNone" "available_at (replay_job dec) = None"
    "created_at (replay_job dec) = replayed_at dec" "replayed_at dec = or_default ra now"
    using 2 by (simp_all add: 1(9))
  show "dget (lineage dec) ''source_job_id'' = PStr (job_id j)"
    by (simp add: 1(9) build_replay_lineage_def Let_def dget_def)
qed

end
