(* ===== verification/Job_Queue_Interface.thy ===== *)
theory Job_Queue_Interface
  imports Common_Job
begin

section \<open>The job queue as an interface\<close>

text \<open>
  The \<open>JobQueue\<close> protocol of \<^verbatim>\<open>services/_shared/nex_runtime/jobs.py\<close>: the steps a job
  takes, the operations a client calls as a record of functions over the queue's state, and the
  laws every provider keeps as a locale. The in-memory and the SQL queue interpret it; the worker
  runner and the job control service rest on it.
\<close>

subsection \<open>How a job moves\<close>

text \<open>What no operation changes of a job.\<close>

definition same_job :: "common_job \<Rightarrow> common_job \<Rightarrow> bool" where
  "same_job j j' \<longleftrightarrow>
     job_id j' = job_id j \<and> job_type j' = job_type j \<and> idempotency_key j' = idempotency_key j \<and>
     trace_id j' = trace_id j \<and> request_id j' = request_id j \<and> subject_ref j' = subject_ref j \<and>
     max_attempts j' = max_attempts j \<and> links j' = links j \<and> payload j' = payload j \<and>
     created_at j' = created_at j \<and> replay_lineage j' = replay_lineage j"

lemma same_jobD:
  "same_job j j' \<Longrightarrow> job_id j' = job_id j" "same_job j j' \<Longrightarrow> max_attempts j' = max_attempts j"
  "same_job j j' \<Longrightarrow> job_type j' = job_type j" "same_job j j' \<Longrightarrow> idempotency_key j' = idempotency_key j"
  by (simp_all add: same_job_def)

inductive job_step :: "common_job \<Rightarrow> common_job \<Rightarrow> bool" where
  step_start: "same_job j j' \<Longrightarrow> status j = QUEUED \<Longrightarrow> status j' = RUNNING \<Longrightarrow>
    attempt_count j < max_attempts j \<Longrightarrow> attempt_count j' = attempt_count j + 1 \<Longrightarrow> job_step j j'"
| step_cancel: "same_job j j' \<Longrightarrow> status j = QUEUED \<Longrightarrow> status j' = CANCELLED \<Longrightarrow>
    attempt_count j' = attempt_count j \<Longrightarrow> job_step j j'"
| step_finish: "same_job j j' \<Longrightarrow> status j = RUNNING \<Longrightarrow> terminal (status j') \<Longrightarrow>
    attempt_count j' = attempt_count j \<Longrightarrow> job_step j j'"
| step_requeue: "same_job j j' \<Longrightarrow> status j = RUNNING \<Longrightarrow> status j' = QUEUED \<Longrightarrow> retryable j \<Longrightarrow>
    attempt_count j < max_attempts j \<Longrightarrow> attempt_count j' = attempt_count j \<Longrightarrow> job_step j j'"

lemmas job_step_intros = job_step.intros

lemma job_step_not_terminal: "job_step j j' \<Longrightarrow> \<not> terminal (status j)"
  by (auto elim: job_step.cases)

lemma job_step_wf: "job_step j j' \<Longrightarrow> 0 \<le> attempt_count j \<Longrightarrow> attempt_count j \<le> max_attempts j \<Longrightarrow>
    attempt_count j \<le> attempt_count j' \<and> attempt_count j' \<le> max_attempts j'"
  by (auto elim!: job_step.cases simp: same_job_def)

lemma transition_step:
  assumes "transition_common_job j st upd now = Inr j'"
  shows "j' = j \<or> job_step j j'"
proof (cases "status j = st")
  case False
  with assms have *: "st \<in> set (VALID_JOB_TRANSITIONS (status j))" "same_job j j'" "status j' = st"
    "st = RUNNING \<Longrightarrow> attempt_count j < max_attempts j"
    "attempt_count j' = (if st = RUNNING then attempt_count j + 1 else attempt_count j)"
    by (auto simp: transition_Inr same_job_def)
  then show ?thesis
    by (cases "status j") (auto intro: job_step_intros)
qed (use assms in \<open>simp add: transition_Inr\<close>)

subsection \<open>Every job settles\<close>

definition potential :: "common_job \<Rightarrow> int" where
  "potential j =
     (if terminal (status j) then 0
      else 2 * (max_attempts j - attempt_count j) + (if status j = RUNNING then 2 else 1))"

lemma job_step_potential:
  assumes "job_step j j'" "attempt_count j \<le> max_attempts j"
  shows "potential j' < potential j"
  using assms by (cases rule: job_step.cases) (auto simp: potential_def same_job_def)

lemma potential_nonneg: "attempt_count j \<le> max_attempts j \<Longrightarrow> 0 \<le> potential j"
  by (simp add: potential_def)

lemma job_steps_potential:
  assumes "(job_step ^^ n) j j'" "0 \<le> attempt_count j" "attempt_count j \<le> max_attempts j"
  shows "int n + potential j' \<le> potential j \<and> attempt_count j' \<le> max_attempts j' \<and> 0 \<le> attempt_count j'"
  using assms(1)
proof (induction n arbitrary: j')
  case 0
  with assms show ?case by simp
next
  case (Suc n)
  then obtain k where k: "(job_step ^^ n) j k" "job_step k j'" by auto
  with Suc.IH have "int n + potential k \<le> potential j" "attempt_count k \<le> max_attempts k" "0 \<le> attempt_count k"
    by auto
  with job_step_potential [OF k(2)] job_step_wf [OF k(2)] show ?case by auto
qed


subsection \<open>The operations a client calls\<close>

text \<open>
  Each operation takes the queue's state and, last, the value \<open>_utc_now()\<close> would give; it
  returns its result with the new state, or raises and leaves the state as it was.
\<close>

record 's job_queue =
  q_get :: "'s \<Rightarrow> string \<Rightarrow> common_job option"
  q_enqueue :: "'s \<Rightarrow> common_job \<Rightarrow> job_exn + common_job \<times> 's"
  q_claim :: "'s \<Rightarrow> string \<Rightarrow> string option \<Rightarrow> string option \<Rightarrow> string
    \<Rightarrow> job_exn + common_job option \<times> 's"
  q_complete :: "'s \<Rightarrow> string \<Rightarrow> string option \<Rightarrow> string \<Rightarrow> job_exn + common_job \<times> 's"
  q_cancel :: "'s \<Rightarrow> string \<Rightarrow> string option \<Rightarrow> string \<Rightarrow> job_exn + common_job \<times> 's"
  q_retry :: "'s \<Rightarrow> string \<Rightarrow> pydict option \<Rightarrow> string option \<Rightarrow> job_retry_policy option \<Rightarrow> string
    \<Rightarrow> job_exn + common_job \<times> 's"

text \<open>
  Times every queue can work with: what a service writes, with the longest default delay later
  still a date.
\<close>

definition good_time :: "string \<Rightarrow> bool" where
  "good_time w = (case parse_wire_datetime w of Inl _ \<Rightarrow> False
     | Inr t \<Rightarrow> w = wire_timestamp t \<and> in_range (t + 900 * 1000000))"

lemma good_timeE:
  assumes "good_time w"
  obtains t where "w = wire_timestamp t" "in_range t" "parse_wire_datetime w = Inr t"
    "\<And>d. 0 \<le> d \<Longrightarrow> d \<le> 900 \<Longrightarrow> in_range (t + d * 1000000)"
proof -
  from assms obtain t where t: "parse_wire_datetime w = Inr t" "w = wire_timestamp t"
    "in_range (t + 900 * 1000000)"
    by (auto simp: good_time_def split: sum.splits)
  with parse_wire_datetime_range [OF t(1)] show ?thesis
    by (intro that [of t]) (auto simp: in_range_def)
qed

text \<open>With the default policy a running job can be retried at any such time.\<close>

lemma plan_job_retry_default:
  assumes "job_wf j" "status j = RUNNING" "attempt_count j \<le> 1000"
    "good_time (or_default f n)" "\<And>b. \<exists>d. normalize_job_error e b = Inr d"
  shows "\<exists>dec. plan_job_retry j e f n None = Inr dec"
proof -
  obtain d where d: "retry_delay_seconds (attempt_count j) default_retry_policy = Inr d" "0 \<le> d" "d \<le> 900"
    using default_delay_total [OF assms(3)] by auto
  obtain t where "parse_wire_datetime (or_default f n) = Inr t" "in_range (t + d * 1000000)"
    using assms(4) d by (elim good_timeE) blast
  then have "\<exists>w. add_seconds (or_default f n) d = Inr w" by (simp add: add_seconds_Inr)
  then show ?thesis
    using plan_job_retry_total [of j e _ None d f n] assms(1,2,5) d(1) by fastforce
qed

locale job_queue_laws =
  fixes Q :: "'s job_queue" and inv :: "'s \<Rightarrow> bool"
  assumes get_wf: "inv s \<Longrightarrow> q_get Q s i = Some j \<Longrightarrow> job_id j = i \<and> job_wf j"
    and enqueue_law: "inv s \<Longrightarrow> q_enqueue Q s j = Inr (j', s') \<Longrightarrow>
      inv s' \<and> q_get Q s' (job_id j') = Some j' \<and>
      job_type j' = job_type j \<and> idempotency_key j' = idempotency_key j \<and>
      (q_get Q s' = q_get Q s \<or>
       q_get Q s (job_id j') = None \<and> status j' = QUEUED \<and> q_get Q s' = (q_get Q s)(job_id j' := Some j'))"
    and claim_none: "inv s \<Longrightarrow> q_claim Q s w ty u n = Inr (None, s') \<Longrightarrow> s' = s"
    and claim_some: "inv s \<Longrightarrow> q_claim Q s w ty u n = Inr (Some j', s') \<Longrightarrow>
      inv s' \<and> status j' = RUNNING \<and> (\<forall>t. ty = Some t \<longrightarrow> job_type j' = t) \<and>
      (\<exists>j. q_get Q s (job_id j') = Some j \<and> job_step j j') \<and>
      q_get Q s' = (q_get Q s)(job_id j' := Some j')"
    and complete_law: "inv s \<Longrightarrow> q_complete Q s i u n = Inr (j', s') \<Longrightarrow>
      inv s' \<and> status j' = SUCCEEDED \<and> (\<exists>j. q_get Q s i = Some j \<and> (j' = j \<or> job_step j j')) \<and>
      q_get Q s' = (q_get Q s)(i := Some j')"
    and complete_running: "inv s \<Longrightarrow> q_get Q s i = Some j \<Longrightarrow> status j = RUNNING \<Longrightarrow>
      good_time (or_default u n) \<Longrightarrow> \<exists>r. q_complete Q s i u n = Inr r"
    and complete_rejected: "inv s \<Longrightarrow> q_get Q s i = Some j \<Longrightarrow> status j \<notin> {RUNNING, SUCCEEDED} \<Longrightarrow>
      \<exists>d. q_complete Q s i u n = Inl (JobQueueError ''job.transition_invalid'' d 409)"
    and cancel_law: "inv s \<Longrightarrow> q_cancel Q s i u n = Inr (j', s') \<Longrightarrow>
      inv s' \<and> status j' = CANCELLED \<and> (\<exists>j. q_get Q s i = Some j \<and> (j' = j \<or> job_step j j')) \<and>
      q_get Q s' = (q_get Q s)(i := Some j')"
    and retry_law: "inv s \<Longrightarrow> q_retry Q s i e f p n = Inr (j', s') \<Longrightarrow>
      inv s' \<and> (status j' = QUEUED \<or> status j' = FAILED \<and> dead_lettered (error j')) \<and>
      (\<exists>j. q_get Q s i = Some j \<and> job_step j j') \<and> q_get Q s' = (q_get Q s)(i := Some j')"
    and retry_running: "inv s \<Longrightarrow> q_get Q s i = Some j \<Longrightarrow> status j = RUNNING \<Longrightarrow>
      attempt_count j \<le> 1000 \<Longrightarrow> good_time (or_default f n) \<Longrightarrow>
      (\<And>b. \<exists>d. normalize_job_error e b = Inr d) \<Longrightarrow> \<exists>r. q_retry Q s i e f None n = Inr r"

end
