(* ===== verification/Memory_Queue.thy ===== *)
theory Memory_Queue
  imports Job_Queue_Interface
begin

section \<open>The in-memory job queue\<close>

text \<open>
  \<open>InMemoryJobQueue\<close> of \<^verbatim>\<open>services/_shared/nex_runtime/jobs.py\<close>: the dictionary of jobs in
  insertion order, the idempotency index, and every operation. An operation returns its
  result with the new queue, or the exception it raises; an exception leaves the queue as it was,
  because every operation writes last. The deep copies the code takes are the value semantics of
  the model.
\<close>

subsection \<open>State and operations\<close>

record memory_queue =
  jobs :: "(string \<times> common_job) list"
  idempotency_index :: "((string \<times> string) \<times> string) list"

definition empty_queue :: memory_queue where
  "empty_queue = \<lparr>jobs = [], idempotency_index = []\<rparr>"

definition get_job :: "memory_queue \<Rightarrow> string \<Rightarrow> common_job option" where
  "get_job q i = map_of (jobs q) i"

definition put_job :: "memory_queue \<Rightarrow> string \<Rightarrow> common_job \<Rightarrow> memory_queue" where
  "put_job q i j = q\<lparr>jobs := dict_put i j (jobs q)\<rparr>"

definition not_found :: "string \<Rightarrow> job_exn" where
  "not_found i = JobQueueError ''job.not_found'' (''job was not found: '' @ i) 404"

definition enqueue :: "memory_queue \<Rightarrow> common_job \<Rightarrow> job_exn + common_job \<times> memory_queue" where
  "enqueue q job =
     sbind (check_job job) (\<lambda>_.
       if status job \<noteq> QUEUED then
         Inl (JobQueueError ''job.enqueue_status_invalid'' ''only QUEUED jobs can be enqueued'' 422)
       else
         (let index_key = (job_type job, idempotency_key job) in
          case map_of (idempotency_index q) index_key of
            Some existing \<Rightarrow>
              (case map_of (jobs q) existing of
                 None \<Rightarrow> Inl (Py (KeyError existing))
               | Some j \<Rightarrow> Inr (j, q))
          | None \<Rightarrow>
              if map_of (jobs q) (job_id job) \<noteq> None then
                Inl (JobQueueError ''job.duplicate_id'' (''job already exists: '' @ job_id job) 409)
              else
                Inr (job, q\<lparr>jobs := dict_put (job_id job) job (jobs q),
                           idempotency_index := dict_put index_key (job_id job) (idempotency_index q)\<rparr>)))"

definition transition ::
  "memory_queue \<Rightarrow> string \<Rightarrow> job_status \<Rightarrow> string option \<Rightarrow> string \<Rightarrow> job_exn + common_job \<times> memory_queue" where
  "transition q i st updated now =
     (case map_of (jobs q) i of
        None \<Rightarrow> Inl (not_found i)
      | Some job \<Rightarrow>
          sbind (transition_common_job job st updated now) (\<lambda>j. Inr (j, put_job q i j)))"

definition start_job where "start_job q i updated now = transition q i RUNNING updated now"
definition complete_job where "complete_job q i updated now = transition q i SUCCEEDED updated now"
definition fail_job where "fail_job q i updated now = transition q i FAILED updated now"
definition cancel_job where "cancel_job q i updated now = transition q i CANCELLED updated now"

definition retry_job ::
  "memory_queue \<Rightarrow> string \<Rightarrow> pydict option \<Rightarrow> string option \<Rightarrow> job_retry_policy option \<Rightarrow> string
    \<Rightarrow> job_exn + common_job \<times> memory_queue" where
  "retry_job q i err failed policy now =
     (case map_of (jobs q) i of
        None \<Rightarrow> Inl (not_found i)
      | Some job \<Rightarrow>
          sbind (plan_job_retry job err failed now policy) (\<lambda>decision.
            let base = job\<lparr>updated_at := failed_at decision, error := decided_error decision\<rparr>;
                new = (if action decision = REQUEUE
                       then base\<lparr>status := QUEUED, available_at := decided_available_at decision\<rparr>
                       else base\<lparr>status := FAILED, retryable := False,
                                 available_at := Some (failed_at decision)\<rparr>)
            in Inr (new, put_job q i new)))"

definition dead_letter_job ::
  "memory_queue \<Rightarrow> string \<Rightarrow> pydict option \<Rightarrow> string option \<Rightarrow> string
    \<Rightarrow> job_exn + common_job \<times> memory_queue" where
  "dead_letter_job q i err failed now =
     (case map_of (jobs q) i of
        None \<Rightarrow> Inl (not_found i)
      | Some job \<Rightarrow>
          sbind (plan_job_dead_letter job err failed now) (\<lambda>decision.
            let new = job\<lparr>status := FAILED, retryable := False, error := decided_error decision,
                          available_at := Some (failed_at decision), updated_at := failed_at decision\<rparr>
            in Inr (new, put_job q i new)))"

text \<open>\<open>job.get("available_at", job["created_at"])\<close>.\<close>

definition effective_available :: "common_job \<Rightarrow> string" where
  "effective_available j = (case available_at j of None \<Rightarrow> created_at j | Some a \<Rightarrow> a)"

definition available_at_is_ready :: "string \<Rightarrow> string \<Rightarrow> job_exn + bool" where
  "available_at_is_ready available observed =
     sbind (map_err Py (parse_wire_datetime available)) (\<lambda>a.
     sbind (map_err Py (parse_wire_datetime observed)) (\<lambda>t. Inr (a \<le> t)))"

text \<open>
  The comprehension of \<open>claim_next_job\<close>: its conditions are tried in order, and the times are
  only read once the status and the attempts allow a claim.
\<close>

fun claim_candidates ::
  "common_job list \<Rightarrow> string option \<Rightarrow> string \<Rightarrow> job_exn + common_job list" where
  "claim_candidates [] jtype observed = Inr []"
| "claim_candidates (j # js) jtype observed =
     (if status j = QUEUED \<and> attempt_count j < max_attempts j then
        sbind (available_at_is_ready (effective_available j) observed) (\<lambda>ready.
        sbind (claim_candidates js jtype observed) (\<lambda>rest.
          Inr (if ready \<and> (jtype = None \<or> jtype = Some (job_type j)) then j # rest else rest)))
      else claim_candidates js jtype observed)"

definition claim_key :: "common_job \<Rightarrow> string \<times> string \<times> string" where
  "claim_key j = (effective_available j, created_at j, job_id j)"

definition claim_next_job ::
  "memory_queue \<Rightarrow> string \<Rightarrow> string option \<Rightarrow> string option \<Rightarrow> string
    \<Rightarrow> job_exn + common_job option \<times> memory_queue" where
  "claim_next_job q worker jtype updated now =
     sbind (required_string (PStr worker) ''worker_id'') (\<lambda>_.
     let observed = or_default updated now in
     sbind (claim_candidates (map snd (jobs q)) jtype observed) (\<lambda>candidates.
       if candidates = [] then Inr (None, q)
       else sbind (start_job q (job_id (hd (sort_key claim_key candidates))) (Some observed) now)
              (\<lambda>(j, q'). Inr (Some j, q'))))"

definition list_jobs :: "memory_queue \<Rightarrow> string option \<Rightarrow> job_status option \<Rightarrow> common_job list" where
  "list_jobs q jtype st =
     filter (\<lambda>j. (jtype = None \<or> jtype = Some (job_type j)) \<and> (st = None \<or> st = Some (status j)))
       (map snd (jobs q))"

definition queue_summary :: "memory_queue \<Rightarrow> job_summary" where
  "queue_summary q = summarize_jobs (list_jobs q None None)"

subsection \<open>The invariant\<close>

text \<open>
  Keys are unique and name their jobs, every stored job is well formed, and the index holds exactly
  one entry per stored job, under its type and idempotency key.
\<close>

definition queue_inv :: "memory_queue \<Rightarrow> bool" where
  "queue_inv q \<longleftrightarrow>
     distinct (map fst (jobs q)) \<and>
     (\<forall>i j. map_of (jobs q) i = Some j \<longrightarrow> job_id j = i \<and> job_wf j) \<and>
     (\<forall>t k i. map_of (idempotency_index q) (t, k) = Some i \<longleftrightarrow>
        (\<exists>j. map_of (jobs q) i = Some j \<and> job_type j = t \<and> idempotency_key j = k))"

lemma queue_invD:
  assumes "queue_inv q"
  shows "distinct (map fst (jobs q))"
    "map_of (jobs q) i = Some j \<Longrightarrow> job_id j = i"
    "map_of (jobs q) i = Some j \<Longrightarrow> job_wf j"
    "map_of (idempotency_index q) (t, k) = Some i \<longleftrightarrow>
        (\<exists>j. map_of (jobs q) i = Some j \<and> job_type j = t \<and> idempotency_key j = k)"
  using assms unfolding queue_inv_def by blast+

lemma queue_inv_empty [simp]: "queue_inv empty_queue"
  by (simp add: queue_inv_def empty_queue_def)

lemma get_put_job [simp]: "get_job (put_job q i j) = (get_job q)(i := Some j)"
  by (simp add: get_job_def put_job_def fun_eq_iff)

lemma queue_inv_put:
  assumes "queue_inv q" "map_of (jobs q) i = Some j"
    and "job_wf j'" "job_id j' = i" "job_type j' = job_type j" "idempotency_key j' = idempotency_key j"
  shows "queue_inv (put_job q i j')"
  using assms unfolding queue_inv_def put_job_def by (auto simp del: map_of_eq_Some_iff)

lemma transition_queue_Inr:
  "transition q i st upd now = Inr (j', q') \<longleftrightarrow>
    (\<exists>j. get_job q i = Some j \<and> transition_common_job j st upd now = Inr j' \<and> q' = put_job q i j')"
  by (auto simp: transition_def get_job_def res_simps)

lemma transition_inv:
  "queue_inv q \<Longrightarrow> transition q i st upd now = Inr (j', q') \<Longrightarrow> queue_inv q'"
proof -
  assume inv: "queue_inv q" and "transition q i st upd now = Inr (j', q')"
  then obtain j where j: "map_of (jobs q) i = Some j" "transition_common_job j st upd now = Inr j'"
    and q': "q' = put_job q i j'"
    by (auto simp: transition_queue_Inr get_job_def)
  show ?thesis
    unfolding q' using queue_invD(2) [OF inv j(1)] transition_ids [OF j(2)]
    by (intro queue_inv_put [OF inv j(1) transition_wf [OF j(2)]]) simp_all
qed

lemma queue_inv_enqueue:
  assumes "queue_inv q" "enqueue q job = Inr (j, q')"
  shows "queue_inv q'"
proof (cases "q' = q")
  case False
  from assms(2) False have new: "job_wf job"
    "map_of (idempotency_index q) (job_type job, idempotency_key job) = None"
    "map_of (jobs q) (job_id job) = None"
    and q': "q' = q\<lparr>jobs := dict_put (job_id job) job (jobs q),
      idempotency_index := dict_put (job_type job, idempotency_key job) (job_id job) (idempotency_index q)\<rparr>"
    by (auto simp: enqueue_def Let_def res_simps split: option.splits if_splits)
  have "\<nexists>i j. map_of (jobs q) i = Some j \<and> job_type j = job_type job \<and> idempotency_key j = idempotency_key job"
    using queue_invD(4) [OF assms(1)] new(2) by (metis option.distinct(1))
  then show ?thesis
    using assms(1) new unfolding queue_inv_def q'
    by (auto simp del: map_of_eq_Some_iff split: if_splits)
qed (use assms in simp)

subsection \<open>What each operation does\<close>

definition ready :: "common_job \<Rightarrow> string \<Rightarrow> bool" where
  "ready j observed =
     (case (parse_wire_datetime (effective_available j), parse_wire_datetime observed) of
        (Inr a, Inr t) \<Rightarrow> a \<le> t | _ \<Rightarrow> False)"

definition claimable :: "common_job \<Rightarrow> string option \<Rightarrow> string \<Rightarrow> bool" where
  "claimable j jtype observed \<longleftrightarrow>
     status j = QUEUED \<and> attempt_count j < max_attempts j \<and> ready j observed \<and>
     (jtype = None \<or> jtype = Some (job_type j))"

text \<open>Whether the time test of a claim raises on a job.\<close>

definition readable :: "common_job \<Rightarrow> string \<Rightarrow> bool" where
  "readable j observed \<longleftrightarrow>
     (\<exists>a t. parse_wire_datetime (effective_available j) = Inr a \<and> parse_wire_datetime observed = Inr t)"

definition poisons :: "common_job \<Rightarrow> string \<Rightarrow> bool" where
  "poisons j observed \<longleftrightarrow>
     status j = QUEUED \<and> attempt_count j < max_attempts j \<and> \<not> readable j observed"

lemma is_ready_Inr:
  "available_at_is_ready (effective_available j) observed = Inr b \<longleftrightarrow>
    readable j observed \<and> b = ready j observed"
  by (auto simp: available_at_is_ready_def ready_def readable_def res_simps)

lemma claim_candidates_Inr:
  "claim_candidates js jtype observed = Inr cs \<longleftrightarrow>
    (\<forall>j \<in> set js. \<not> poisons j observed) \<and> cs = filter (\<lambda>j. claimable j jtype observed) js"
proof (induction js arbitrary: cs)
  case (Cons j js)
  show ?case
  proof (cases "status j = QUEUED \<and> attempt_count j < max_attempts j")
    case True
    then show ?thesis
      by (auto simp: Cons.IH sbind_eq_Inr is_ready_Inr poisons_def claimable_def)
  next
    case False
    then show ?thesis by (auto simp: Cons.IH poisons_def claimable_def)
  qed
qed auto

lemma put_get_same: "get_job q i = Some j \<Longrightarrow> get_job (put_job q i j) = get_job q"
  by (auto simp: fun_eq_iff)

text \<open>A claim takes a least claimable job and starts it, or finds none and changes nothing.\<close>

lemma claim_next_job_Inr:
  assumes inv: "queue_inv q" and claim: "claim_next_job q worker jtype upd now = Inr (r, q')"
  defines "obs \<equiv> or_default upd now"
  shows "case r of
      None \<Rightarrow> q' = q \<and> (\<forall>i j. get_job q i = Some j \<longrightarrow> \<not> claimable j jtype obs)
    | Some j' \<Rightarrow> \<exists>j. get_job q (job_id j') = Some j \<and> claimable j jtype obs \<and>
        transition_common_job j RUNNING (Some obs) now = Inr j' \<and> q' = put_job q (job_id j') j' \<and>
        (\<forall>i k. get_job q i = Some k \<longrightarrow> claimable k jtype obs \<longrightarrow> claim_key j \<le> claim_key k)"
proof -
  have vals: "k \<in> set (map snd (jobs q)) \<longleftrightarrow> (\<exists>i. get_job q i = Some k)" for k
    using map_of_values [OF queue_invD(1) [OF inv]] by (simp add: get_job_def)
  let ?cs = "filter (\<lambda>j. claimable j jtype obs) (map snd (jobs q))"
  have cs: "claim_candidates (map snd (jobs q)) jtype obs = Inr ?cs"
    using claim unfolding claim_next_job_def Let_def obs_def [symmetric]
    by (auto simp: res_simps claim_candidates_Inr)
  show ?thesis
  proof (cases "?cs = []")
    case True
    with claim cs have "r = None" "q' = q"
      unfolding claim_next_job_def Let_def obs_def [symmetric] by (auto simp: res_simps)
    moreover have "\<not> claimable j jtype obs" if "get_job q i = Some j" for i j
      using True vals that unfolding filter_empty_conv by blast
    ultimately show ?thesis by simp
  next
    case False
    define j where "j = hd (sort_key claim_key ?cs)"
    have j: "j \<in> set ?cs" unfolding j_def by (rule hd_sort_key_in [OF False])
    then have jq: "get_job q (job_id j) = Some j" "claimable j jtype obs"
      using vals queue_invD(2) [OF inv] by (fastforce simp: get_job_def)+
    obtain j' where j': "r = Some j'" "transition q (job_id j) RUNNING (Some obs) now = Inr (j', q')"
      using claim cs False unfolding claim_next_job_def Let_def obs_def [symmetric] start_job_def
      by (auto simp: res_simps j_def)
    have tr: "transition_common_job j RUNNING (Some obs) now = Inr j'" "q' = put_job q (job_id j) j'"
      using j'(2) jq(1) by (auto simp: transition_queue_Inr)
    moreover have "job_id j' = job_id j" using transition_ids [OF tr(1)] by simp
    moreover have "claim_key j \<le> claim_key k" if "get_job q i = Some k" "claimable k jtype obs" for i k
      unfolding j_def using that vals by (intro hd_sort_key_least) auto
    ultimately show ?thesis using j'(1) jq by auto
  qed
qed

text \<open>A claim never takes a job while one with a smaller key can be claimed.\<close>

lemma claim_passes_over:
  assumes inv: "queue_inv q" and claim: "claim_next_job q worker jtype upd now = Inr (r, q')"
    and a: "get_job q i = Some a" and b: "get_job q k = Some b" "claimable b jtype (or_default upd now)"
    and key: "claim_key b < claim_key a"
  obtains j j0 where "r = Some j" "get_job q (job_id j) = Some j0" "claimable j0 jtype (or_default upd now)" "job_id j \<noteq> i"
proof -
  note mem = claim_next_job_Inr [OF inv claim]
  show ?thesis
  proof (cases r)
    case None
    with mem have "\<not> claimable b jtype (or_default upd now)" using b(1) by simp
    with b(2) show ?thesis by blast
  next
    case (Some j)
    with mem obtain j0 where j: "get_job q (job_id j) = Some j0" "claimable j0 jtype (or_default upd now)"
      "claim_key j0 \<le> claim_key b"
      using b by auto
    then have "claim_key j0 < claim_key a" using key by simp
    with j a have "job_id j \<noteq> i" by auto
    with Some j show ?thesis using that by blast
  qed
qed

lemma claim_inv:
  assumes "queue_inv q" "claim_next_job q worker jtype upd now = Inr (r, q')"
  shows "queue_inv q'"
proof (cases r)
  case None
  with claim_next_job_Inr [OF assms] assms(1) show ?thesis by simp
next
  case (Some j')
  with claim_next_job_Inr [OF assms] obtain j where
    "get_job q (job_id j') = Some j" "q' = put_job q (job_id j') j'"
    "transition_common_job j RUNNING (Some (or_default upd now)) now = Inr j'"
    by auto
  then have "transition q (job_id j') RUNNING (Some (or_default upd now)) now = Inr (j', q')"
    by (simp add: transition_queue_Inr)
  with assms(1) show ?thesis by (rule transition_inv)
qed

text \<open>One unreadable time among the waiting jobs makes every claim raise, whatever its job type.\<close>

lemma claim_candidates_Inl: "claim_candidates js jtype observed = Inl e \<Longrightarrow> \<exists>p. e = Py p"
  by (induction js) (auto simp: available_at_is_ready_def res_simps split: if_splits)

lemma claim_poisoned:
  assumes "get_job q i = Some j" "poisons j (or_default upd now)" "worker \<noteq> []"
  shows "\<exists>p. claim_next_job q worker jtype upd now = Inl (Py p)"
proof -
  have "j \<in> set (map snd (jobs q))"
    using assms(1) unfolding get_job_def by (force dest: map_of_SomeD)
  then have "claim_candidates (map snd (jobs q)) jtype (or_default upd now) \<noteq> Inr cs" for cs
    using assms(2) by (auto simp: claim_candidates_Inr)
  then obtain e where "claim_candidates (map snd (jobs q)) jtype (or_default upd now) = Inl e"
    by (cases "claim_candidates (map snd (jobs q)) jtype (or_default upd now)") auto
  moreover from claim_candidates_Inl [OF this] obtain p where "e = Py p" by blast
  ultimately show ?thesis using assms(3) by (simp add: claim_next_job_def required_string_def)
qed

subsection \<open>Retry and dead letter\<close>

lemma retry_job_Inr:
  assumes "retry_job q i err fa pol now = Inr (j', q')"
  obtains j where "get_job q i = Some j" "job_wf j" "status j = RUNNING" "q' = put_job q i j'"
    "same_job j j'" "job_wf j'" "attempt_count j' = attempt_count j" "updated_at j' = or_default fa now"
    "if retryable j \<and> attempt_count j < max_attempts j
     then status j' = QUEUED \<and> retryable j' \<and> \<not> dead_lettered (error j') \<and>
       (\<exists>d w. retry_delay_seconds (attempt_count j) (case pol of None \<Rightarrow> default_retry_policy | Some p \<Rightarrow> p) = Inr d \<and>
          add_seconds (or_default fa now) d = Inr w \<and> available_at j' = Some w)
     else status j' = FAILED \<and> \<not> retryable j' \<and> dead_lettered (error j')"
proof -
  from assms obtain j dec where j: "map_of (jobs q) i = Some j"
    and dec: "plan_job_retry j err fa now pol = Inr dec"
    and new: "j' = (if action dec = REQUEUE
        then j\<lparr>updated_at := failed_at dec, error := decided_error dec, status := QUEUED,
               available_at := decided_available_at dec\<rparr>
        else j\<lparr>updated_at := failed_at dec, error := decided_error dec, status := FAILED,
               retryable := False, available_at := Some (failed_at dec)\<rparr>)"
    and q': "q' = put_job q i j'"
    by (auto simp: retry_job_def Let_def res_simps)
  note p = plan_job_retry_Inr [OF dec]
  show ?thesis
    by (rule that [of j]) (use j p new q' in \<open>auto simp: get_job_def same_job_def split: if_splits\<close>)
qed

lemma dead_letter_job_Inr:
  assumes "dead_letter_job q i err fa now = Inr (j', q')"
  obtains j where "get_job q i = Some j" "job_wf j" "status j = RUNNING" "q' = put_job q i j'"
    "same_job j j'" "job_wf j'" "attempt_count j' = attempt_count j" "status j' = FAILED"
    "\<not> retryable j'" "dead_lettered (error j')"
proof -
  from assms obtain j dec where j: "map_of (jobs q) i = Some j"
    and dec: "plan_job_dead_letter j err fa now = Inr dec"
    and new: "j' = j\<lparr>status := FAILED, retryable := False, error := decided_error dec,
      available_at := Some (failed_at dec), updated_at := failed_at dec\<rparr>" and q': "q' = put_job q i j'"
    by (auto simp: dead_letter_job_def Let_def res_simps)
  note p = plan_job_dead_letter_Inr [OF dec]
  show ?thesis
    by (rule that [of j]) (use j p new q' in \<open>auto simp: get_job_def same_job_def\<close>)
qed

lemma put_step_inv:
  assumes "queue_inv q" "get_job q i = Some j" "same_job j j'" "job_wf j'"
  shows "queue_inv (put_job q i j')"
  using assms queue_invD(2) [OF assms(1)]
  by (intro queue_inv_put [of q i j]) (auto simp: get_job_def same_job_def)

subsection \<open>The interface as one step relation\<close>

datatype queue_call =
    Enqueue common_job
  | Start string "string option"
  | Complete string "string option"
  | Fail string "string option"
  | Cancel string "string option"
  | Retry string "pydict option" "string option" "job_retry_policy option"
  | Dead_Letter string "pydict option" "string option"
  | Claim string "string option" "string option"

fun queue_exec :: "memory_queue \<Rightarrow> string \<Rightarrow> queue_call \<Rightarrow> job_exn + common_job option \<times> memory_queue" where
  "queue_exec q now (Enqueue j) = sbind (enqueue q j) (\<lambda>(j', q'). Inr (Some j', q'))"
| "queue_exec q now (Start i u) = sbind (start_job q i u now) (\<lambda>(j', q'). Inr (Some j', q'))"
| "queue_exec q now (Complete i u) = sbind (complete_job q i u now) (\<lambda>(j', q'). Inr (Some j', q'))"
| "queue_exec q now (Fail i u) = sbind (fail_job q i u now) (\<lambda>(j', q'). Inr (Some j', q'))"
| "queue_exec q now (Cancel i u) = sbind (cancel_job q i u now) (\<lambda>(j', q'). Inr (Some j', q'))"
| "queue_exec q now (Retry i e f p) = sbind (retry_job q i e f p now) (\<lambda>(j', q'). Inr (Some j', q'))"
| "queue_exec q now (Dead_Letter i e f) = sbind (dead_letter_job q i e f now) (\<lambda>(j', q'). Inr (Some j', q'))"
| "queue_exec q now (Claim w t u) = claim_next_job q w t u now"

inductive queue_step :: "memory_queue \<Rightarrow> memory_queue \<Rightarrow> bool" where
  call: "queue_exec q now c = Inr (r, q') \<Longrightarrow> queue_step q q'"

inductive queue_reachable :: "memory_queue \<Rightarrow> bool" where
  start: "queue_reachable empty_queue"
| step: "queue_reachable q \<Longrightarrow> queue_step q q' \<Longrightarrow> queue_reachable q'"

text \<open>The effect of a call on the jobs: at most one is added, at most one takes one step.\<close>

definition queue_effect :: "memory_queue \<Rightarrow> memory_queue \<Rightarrow> bool" where
  "queue_effect q q' \<longleftrightarrow>
     get_job q' = get_job q \<or>
     (\<exists>j. get_job q (job_id j) = None \<and> status j = QUEUED \<and> job_wf j \<and>
        get_job q' = (get_job q)(job_id j := Some j)) \<or>
     (\<exists>i j j'. get_job q i = Some j \<and> job_step j j' \<and> get_job q' = (get_job q)(i := Some j'))"

lemma effect_put:
  "get_job q i = Some j \<Longrightarrow> j' = j \<or> job_step j j' \<Longrightarrow> queue_effect q (put_job q i j')"
  unfolding queue_effect_def by (auto simp: fun_eq_iff)

lemma transition_effect:
  assumes "queue_inv q" "transition q i st upd now = Inr (j', q')"
  shows "queue_inv q' \<and> queue_effect q q'"
  using assms transition_inv effect_put transition_step by (auto simp: transition_queue_Inr)

lemma enqueue_effect:
  assumes "queue_inv q" "enqueue q j = Inr (j', q')"
  shows "queue_inv q' \<and> queue_effect q q'"
proof -
  have "q' = q \<or> (get_job q (job_id j) = None \<and> status j = QUEUED \<and> job_wf j \<and>
      get_job q' = (get_job q)(job_id j := Some j))"
    using assms(2) by (auto simp: enqueue_def Let_def res_simps get_job_def split: option.splits if_splits)
  then show ?thesis
    using queue_inv_enqueue [OF assms] unfolding queue_effect_def by blast
qed

lemma retry_effect:
  assumes "queue_inv q" "retry_job q i err fa pol now = Inr (j', q')"
  shows "queue_inv q' \<and> queue_effect q q'"
proof -
  from assms(2) obtain j where j: "get_job q i = Some j" "status j = RUNNING" "q' = put_job q i j'"
    "same_job j j'" "job_wf j'" "attempt_count j' = attempt_count j"
    and c: "if retryable j \<and> attempt_count j < max_attempts j then status j' = QUEUED else status j' = FAILED"
    by (rule retry_job_Inr) (auto split: if_splits)
  have "job_step j j'"
    using c j by (auto intro: job_step_intros split: if_splits)
  with j show ?thesis by (simp add: put_step_inv [OF assms(1)] effect_put)
qed

lemma dead_letter_effect:
  assumes "queue_inv q" "dead_letter_job q i err fa now = Inr (j', q')"
  shows "queue_inv q' \<and> queue_effect q q'"
proof -
  from assms(2) obtain j where j: "get_job q i = Some j" "status j = RUNNING" "q' = put_job q i j'"
    "same_job j j'" "job_wf j'" "attempt_count j' = attempt_count j" "status j' = FAILED"
    by (rule dead_letter_job_Inr)
  then show ?thesis by (simp add: put_step_inv [OF assms(1)] effect_put step_finish)
qed

lemma claim_effect:
  assumes "queue_inv q" "claim_next_job q w ty upd now = Inr (r, q')"
  shows "queue_inv q' \<and> queue_effect q q'"
proof (cases r)
  case None
  with claim_next_job_Inr [OF assms] assms(1) show ?thesis by (simp add: queue_effect_def)
next
  case (Some j')
  with claim_next_job_Inr [OF assms] obtain j where
    "get_job q (job_id j') = Some j" "q' = put_job q (job_id j') j'"
    "transition_common_job j RUNNING (Some (or_default upd now)) now = Inr j'"
    by auto
  with claim_inv [OF assms] show ?thesis by (simp add: effect_put transition_step)
qed

lemma queue_step_effect:
  assumes "queue_step q q'" "queue_inv q"
  shows "queue_inv q' \<and> queue_effect q q'"
proof -
  from assms(1) obtain now c r where exec: "queue_exec q now c = Inr (r, q')"
    by (auto elim: queue_step.cases)
  note eff = transition_effect [OF assms(2)] enqueue_effect [OF assms(2)] retry_effect [OF assms(2)]
    dead_letter_effect [OF assms(2)] claim_effect [OF assms(2)]
  from exec show ?thesis
    by (cases c) (auto simp: res_simps start_job_def complete_job_def fail_job_def cancel_job_def dest: eff)
qed

lemma queue_reachable_inv: "queue_reachable q \<Longrightarrow> queue_inv q"
  by (induction rule: queue_reachable.induct) (auto dest: queue_step_effect)

lemma queue_effect_job:
  assumes "queue_effect q q'" "get_job q i = Some j"
  shows "\<exists>j'. get_job q' i = Some j' \<and> (j' = j \<or> job_step j j')"
  using assms unfolding queue_effect_def by (auto simp: fun_upd_apply split: if_splits)

subsection \<open>The queue keeps the laws of the interface\<close>

definition memory_ops :: "memory_queue job_queue" where
  "memory_ops = \<lparr>q_get = get_job, q_enqueue = enqueue, q_claim = claim_next_job,
     q_complete = complete_job, q_cancel = cancel_job, q_retry = retry_job\<rparr>"

lemma memory_ops_simps [simp]:
  "q_get memory_ops = get_job" "q_enqueue memory_ops = enqueue" "q_claim memory_ops = claim_next_job"
  "q_complete memory_ops = complete_job" "q_cancel memory_ops = cancel_job"
  "q_retry memory_ops = retry_job"
  by (simp_all add: memory_ops_def)

lemma enqueue_Inr:
  assumes "queue_inv q" "enqueue q j = Inr (j', q')"
  shows "get_job q' (job_id j') = Some j' \<and> job_type j' = job_type j \<and>
    idempotency_key j' = idempotency_key j \<and>
    (q' = q \<or> j' = j \<and> get_job q (job_id j') = None \<and> status j' = QUEUED \<and>
      get_job q' = (get_job q)(job_id j' := Some j'))"
proof (cases "map_of (idempotency_index q) (job_type j, idempotency_key j)")
  case None
  with assms(2) show ?thesis
    by (auto simp: enqueue_def Let_def res_simps get_job_def)
next
  case (Some i)
  then obtain k where "map_of (jobs q) i = Some k" "job_type k = job_type j" "idempotency_key k = idempotency_key j"
    using queue_invD(4) [OF assms(1)] by blast
  with assms Some queue_invD(2) [OF assms(1)] show ?thesis
    by (auto simp: enqueue_def Let_def res_simps get_job_def)
qed

lemma retry_job_running:
  assumes "queue_inv q" "get_job q i = Some j" "status j = RUNNING" "attempt_count j \<le> 1000"
    "good_time (or_default f n)" "\<And>b. \<exists>d. normalize_job_error e b = Inr d"
  shows "\<exists>r. retry_job q i e f None n = Inr r"
proof -
  have "job_wf j" using queue_invD(3) [OF assms(1)] assms(2) by (simp add: get_job_def)
  then obtain dec where "plan_job_retry j e f n None = Inr dec"
    using plan_job_retry_default [OF _ assms(3-6)] by blast
  with assms(2) show ?thesis by (simp add: retry_job_def get_job_def Let_def)
qed

interpretation memory: job_queue_laws memory_ops queue_inv
proof
  fix s :: memory_queue and i j w ty u n s' j' e f p
  assume inv: "queue_inv s"
  note complete = complete_job_def [of s i u n] and cancel = cancel_job_def [of s i u n]
  show "q_get memory_ops s i = Some j \<Longrightarrow> job_id j = i \<and> job_wf j"
    using queue_invD [OF inv] by (simp add: get_job_def)
  show "q_claim memory_ops s w ty u n = Inr (None, s') \<Longrightarrow> s' = s"
    using claim_next_job_Inr [OF inv, of w ty u n None s'] by simp
  show "q_enqueue memory_ops s j = Inr (j', s') \<Longrightarrow>
      queue_inv s' \<and> q_get memory_ops s' (job_id j') = Some j' \<and>
      job_type j' = job_type j \<and> idempotency_key j' = idempotency_key j \<and>
      (q_get memory_ops s' = q_get memory_ops s \<or> q_get memory_ops s (job_id j') = None \<and>
       status j' = QUEUED \<and> q_get memory_ops s' = (q_get memory_ops s)(job_id j' := Some j'))"
    using enqueue_Inr [OF inv] queue_inv_enqueue [OF inv] by simp blast
  show "queue_inv s' \<and> status j' = RUNNING \<and> (\<forall>t. ty = Some t \<longrightarrow> job_type j' = t) \<and>
      (\<exists>j. q_get memory_ops s (job_id j') = Some j \<and> job_step j j') \<and>
      q_get memory_ops s' = (q_get memory_ops s)(job_id j' := Some j')"
    if "q_claim memory_ops s w ty u n = Inr (Some j', s')"
  proof -
    from that have *: "claim_next_job s w ty u n = Inr (Some j', s')" by simp
    from claim_next_job_Inr [OF inv *] obtain j where j: "get_job s (job_id j') = Some j"
      "claimable j ty (or_default u n)" "s' = put_job s (job_id j') j'"
      "transition_common_job j RUNNING (Some (or_default u n)) n = Inr j'" by auto
    have "job_step j j'" using transition_step [OF j(4)] transition_ids [OF j(4)] j(2)
      by (auto simp: claimable_def)
    with j transition_ids [OF j(4)] claim_inv [OF inv *] show ?thesis by (auto simp: claimable_def)
  qed
  show "queue_inv s' \<and> status j' = SUCCEEDED \<and>
      (\<exists>j. q_get memory_ops s i = Some j \<and> (j' = j \<or> job_step j j')) \<and>
      q_get memory_ops s' = (q_get memory_ops s)(i := Some j')"
    if "q_complete memory_ops s i u n = Inr (j', s')"
    using that transition_inv [OF inv] transition_step transition_ids
    by (auto simp: complete transition_queue_Inr)
  show "queue_inv s' \<and> status j' = CANCELLED \<and>
      (\<exists>j. q_get memory_ops s i = Some j \<and> (j' = j \<or> job_step j j')) \<and>
      q_get memory_ops s' = (q_get memory_ops s)(i := Some j')"
    if "q_cancel memory_ops s i u n = Inr (j', s')"
    using that transition_inv [OF inv] transition_step transition_ids
    by (auto simp: cancel transition_queue_Inr)
  show "\<exists>r. q_complete memory_ops s i u n = Inr r"
    if "q_get memory_ops s i = Some j" "status j = RUNNING" "good_time (or_default u n)"
    using that queue_invD(3) [OF inv] by (simp add: complete transition_def transition_common_job_def get_job_def)
  show "\<exists>d. q_complete memory_ops s i u n = Inl (JobQueueError ''job.transition_invalid'' d 409)"
    if "q_get memory_ops s i = Some j" "status j \<notin> {RUNNING, SUCCEEDED}"
    using that queue_invD(3) [OF inv]
    by (cases "status j") (auto simp: complete transition_def transition_common_job_def get_job_def)
  show "queue_inv s' \<and> (status j' = QUEUED \<or> status j' = FAILED \<and> dead_lettered (error j')) \<and>
      (\<exists>j. q_get memory_ops s i = Some j \<and> job_step j j') \<and>
      q_get memory_ops s' = (q_get memory_ops s)(i := Some j')"
    if "q_retry memory_ops s i e f p n = Inr (j', s')"
  proof -
    from that have *: "retry_job s i e f p n = Inr (j', s')" by simp
    then obtain j where j: "get_job s i = Some j" "status j = RUNNING" "s' = put_job s i j'" "same_job j j'"
      "attempt_count j' = attempt_count j"
      and c: "if retryable j \<and> attempt_count j < max_attempts j then status j' = QUEUED
        else status j' = FAILED \<and> dead_lettered (error j')"
      by (rule retry_job_Inr) (auto split: if_splits)
    from j c have "job_step j j'" by (auto intro: job_step_intros split: if_splits)
    with j c retry_effect [OF inv *] show ?thesis by (auto split: if_splits)
  qed
  show "\<exists>r. q_retry memory_ops s i e f None n = Inr r"
    if "q_get memory_ops s i = Some j" "status j = RUNNING" "attempt_count j \<le> 1000"
      "good_time (or_default f n)" "\<And>b. \<exists>d. normalize_job_error e b = Inr d"
    using that retry_job_running [OF inv] by simp
qed

end
