(* ===== verification/Sql_Queue.thy ===== *)
theory Sql_Queue
  imports Memory_Queue
begin

section \<open>The SQL job queue\<close>

text \<open>
  \<open>SqlAlchemyJobQueue\<close> of \<^verbatim>\<open>services/_shared/nex_runtime/jobs.py\<close> over the table
  \<open>service_jobs\<close>: its rows, the queries and updates as list functions, and the operations, each one
  transaction that rolls back when it raises. Time columns hold instants, as \<open>TIMESTAMPTZ\<close>
  does, and JSON columns their value, as \<open>JSONB\<close> does. Two things are parameters, the
  fields of \<open>database\<close>: how the database reads a time string (\<open>None\<close> where it refuses
  one, which the code reports as \<open>job.store_unavailable\<close>), and \<open>json.loads\<close>, which the
  code applies to a column that comes back as a string. The order of JSON keys is not modelled,
  nor are lost connections and concurrent transactions.
\<close>

subsection \<open>Rows\<close>

record job_row =
  row_job_id :: string
  row_schema_version :: string
  row_job_type :: string
  row_status :: job_status
  row_trace_id :: string
  row_request_id :: string
  row_subject_type :: pyval
  row_subject_id :: pyval
  row_idempotency_key :: string
  row_attempt_count :: int
  row_max_attempts :: int
  row_retryable :: bool
  row_links :: pydict
  row_payload :: pyval
  row_error :: pyval
  row_replay_lineage :: pyval
  row_available_at :: int
  row_locked_at :: "int option"
  row_locked_by :: "string option"
  row_started_at :: "int option"
  row_completed_at :: "int option"
  row_created_at :: int
  row_updated_at :: int

type_synonym table = "job_row list"

record database =
  db_time :: "string \<Rightarrow> int option"
  db_loads :: "string \<Rightarrow> py_error + pyval"

text \<open>\<open>_json_loads\<close> of a column; a number or a truth value reads as the default.\<close>

fun json_column :: "database \<Rightarrow> pyval \<Rightarrow> pyval \<Rightarrow> job_exn + pyval" where
  "json_column D dflt (PDict d) = Inr (PDict d)"
| "json_column D dflt (PList l) = Inr (PList l)"
| "json_column D dflt (PStr s) = map_err Py (db_loads D s)"
| "json_column D dflt _ = Inr dflt"

definition job_from_row :: "database \<Rightarrow> job_row \<Rightarrow> job_exn + common_job" where
  "job_from_row D r =
     sbind (json_column D (PDict []) (row_payload r)) (\<lambda>body.
     sbind (json_column D PNone (row_error r)) (\<lambda>err.
     sbind (json_column D PNone (row_replay_lineage r)) (\<lambda>replayed.
     let job = \<lparr>job_schema_version = row_schema_version r, job_id = row_job_id r, job_type = row_job_type r,
        status = row_status r, trace_id = row_trace_id r, request_id = row_request_id r,
        subject_ref = [(''type'', row_subject_type r), (''id'', row_subject_id r)],
        idempotency_key = row_idempotency_key r, attempt_count = row_attempt_count r,
        max_attempts = row_max_attempts r, retryable = row_retryable r, links = row_links r,
        created_at = wire_timestamp (row_created_at r), updated_at = wire_timestamp (row_updated_at r),
        payload = Some body, error = err, available_at = Some (wire_timestamp (row_available_at r)),
        replay_lineage = replayed\<rparr>
     in sbind (check_job job) (\<lambda>_. Inr job))))"

subsection \<open>Queries\<close>

definition find_row :: "table \<Rightarrow> string \<Rightarrow> job_row option" where
  "find_row tbl i = find (\<lambda>r. row_job_id r = i) tbl"

definition select_job :: "database \<Rightarrow> table \<Rightarrow> string \<Rightarrow> job_exn + common_job option" where
  "select_job D tbl i =
     (case find_row tbl i of None \<Rightarrow> Inr None
      | Some r \<Rightarrow> sbind (job_from_row D r) (\<lambda>j. Inr (Some j)))"

definition select_idempotent_job :: "database \<Rightarrow> table \<Rightarrow> string \<Rightarrow> string \<Rightarrow> job_exn + common_job option" where
  "select_idempotent_job D tbl jtype key =
     (case find (\<lambda>r. row_job_type r = jtype \<and> row_idempotency_key r = key) tbl of None \<Rightarrow> Inr None
      | Some r \<Rightarrow> sbind (job_from_row D r) (\<lambda>j. Inr (Some j)))"

text \<open>The \<open>WHERE\<close> clause of a claim, and \<open>ORDER BY ... LIMIT 1\<close>.\<close>

definition row_claimable :: "string option \<Rightarrow> int \<Rightarrow> job_row \<Rightarrow> bool" where
  "row_claimable jtype now r \<longleftrightarrow>
     row_status r = QUEUED \<and> row_available_at r \<le> now \<and> row_attempt_count r < row_max_attempts r \<and>
     (jtype = None \<or> jtype = Some (row_job_type r))"

definition row_claim_key :: "job_row \<Rightarrow> int \<times> int \<times> string" where
  "row_claim_key r = (row_available_at r, row_created_at r, row_job_id r)"

definition store_unavailable :: job_exn where
  "store_unavailable = JobQueueError ''job.store_unavailable'' ''job queue store is unavailable'' 503"

text \<open>A time parameter as the database reads it.\<close>

definition db_param :: "database \<Rightarrow> string \<Rightarrow> job_exn + int" where
  "db_param D w = (case db_time D w of None \<Rightarrow> Inl store_unavailable | Some t \<Rightarrow> Inr t)"

definition select_claim_candidate ::
  "database \<Rightarrow> table \<Rightarrow> string option \<Rightarrow> string \<Rightarrow> job_exn + common_job option" where
  "select_claim_candidate D tbl jtype available =
     sbind (db_param D available) (\<lambda>now.
       case sort_key row_claim_key (filter (row_claimable jtype now) tbl) of
         [] \<Rightarrow> Inr None
       | r # _ \<Rightarrow> sbind (job_from_row D r) (\<lambda>j. Inr (Some j)))"

subsection \<open>Updates\<close>

definition update_row :: "table \<Rightarrow> string \<Rightarrow> (job_row \<Rightarrow> job_row) \<Rightarrow> table" where
  "update_row tbl i f = map (\<lambda>r. if row_job_id r = i then f r else r) tbl"

text \<open>\<open>_job_insert_params\<close>.\<close>

definition row_of_job :: "database \<Rightarrow> common_job \<Rightarrow> job_exn + job_row" where
  "row_of_job D j =
     sbind (db_param D (effective_available j)) (\<lambda>available.
     sbind (db_param D (created_at j)) (\<lambda>created.
     sbind (db_param D (updated_at j)) (\<lambda>updated.
     Inr \<lparr>row_job_id = job_id j, row_schema_version = job_schema_version j, row_job_type = job_type j,
       row_status = status j, row_trace_id = trace_id j, row_request_id = request_id j,
       row_subject_type = dget (subject_ref j) ''type'', row_subject_id = dget (subject_ref j) ''id'',
       row_idempotency_key = idempotency_key j, row_attempt_count = attempt_count j,
       row_max_attempts = max_attempts j, row_retryable = retryable j, row_links = links j,
       row_payload = (case payload j of None \<Rightarrow> PDict [] | Some v \<Rightarrow> v), row_error = error j,
       row_replay_lineage = replay_lineage j, row_available_at = available, row_locked_at = None,
       row_locked_by = None, row_started_at = None, row_completed_at = None,
       row_created_at = created, row_updated_at = updated\<rparr>)))"

text \<open>
  \<open>_insert_job\<close> under the table's constraints: the primary key and the unique pair of type and
  idempotency key, whose violation the code reports as a duplicate.
\<close>

definition duplicate_id :: "string \<Rightarrow> job_exn" where
  "duplicate_id i = JobQueueError ''job.duplicate_id'' (''job already exists: '' @ i) 409"

definition insert_job :: "database \<Rightarrow> table \<Rightarrow> common_job \<Rightarrow> job_exn + table" where
  "insert_job D tbl j =
     sbind (row_of_job D j) (\<lambda>r.
       if find_row tbl (job_id j) \<noteq> None \<or>
          (\<exists>s \<in> set tbl. row_job_type s = job_type j \<and> row_idempotency_key s = idempotency_key j)
       then Inl (duplicate_id (job_id j)) else Inr (tbl @ [r]))"

definition coalesce :: "'a option \<Rightarrow> 'a option \<Rightarrow> 'a option" where
  "coalesce a b = (case a of None \<Rightarrow> b | Some _ \<Rightarrow> a)"

definition update_job_transition ::
  "database \<Rightarrow> table \<Rightarrow> common_job \<Rightarrow> string option \<Rightarrow> string option \<Rightarrow> job_exn + table" where
  "update_job_transition D tbl j locked_by locked_at =
     sbind (db_param D (updated_at j)) (\<lambda>updated.
     sbind (if terminal (status j) then Inr None
            else (case locked_at of None \<Rightarrow> Inr None | Some w \<Rightarrow> sbind (db_param D w) (\<lambda>t. Inr (Some t)))) (\<lambda>locked.
     Inr (update_row tbl (job_id j) (\<lambda>r. r\<lparr>
       row_status := status j, row_attempt_count := attempt_count j, row_updated_at := updated,
       row_started_at := coalesce (row_started_at r) (if status j = RUNNING then Some updated else None),
       row_completed_at := coalesce (if terminal (status j) then Some updated else None) (row_completed_at r),
       row_locked_by := (if terminal (status j) then None else locked_by),
       row_locked_at := locked\<rparr>))))"

definition update_job_retry_decision ::
  "database \<Rightarrow> table \<Rightarrow> common_job \<Rightarrow> job_retry_decision \<Rightarrow> job_exn + table" where
  "update_job_retry_decision D tbl j decision =
     (let requeue = (action decision = REQUEUE);
          available = (if requeue then decided_available_at decision else Some (failed_at decision)) in
      sbind (db_param D (failed_at decision)) (\<lambda>failed.
      sbind (case available of None \<Rightarrow> Inl store_unavailable | Some w \<Rightarrow> db_param D w) (\<lambda>avail.
      Inr (update_row tbl (job_id j) (\<lambda>r. r\<lparr>
        row_status := (if requeue then QUEUED else FAILED), row_retryable := requeue,
        row_error := decided_error decision, row_available_at := avail, row_locked_by := None,
        row_locked_at := None, row_completed_at := (if requeue then None else Some failed),
        row_updated_at := failed\<rparr>)))))"

subsection \<open>Operations\<close>

text \<open>The read that ends a transaction; the code asserts that the row is there.\<close>

definition stored_job :: "database \<Rightarrow> table \<Rightarrow> string \<Rightarrow> job_exn + common_job \<times> table" where
  "stored_job D tbl i =
     sbind (select_job D tbl i) (\<lambda>stored.
       case stored of None \<Rightarrow> Inl (Py (KeyError i)) | Some j \<Rightarrow> Inr (j, tbl))"

definition sql_enqueue ::
  "database \<Rightarrow> table \<Rightarrow> common_job \<Rightarrow> job_exn + common_job \<times> table" where
  "sql_enqueue D tbl job =
     sbind (check_job job) (\<lambda>_.
       if status job \<noteq> QUEUED then
         Inl (JobQueueError ''job.enqueue_status_invalid'' ''only QUEUED jobs can be enqueued'' 422)
       else
         sbind (select_idempotent_job D tbl (job_type job) (idempotency_key job)) (\<lambda>existing.
           case existing of
             Some j \<Rightarrow> Inr (j, tbl)
           | None \<Rightarrow>
               sbind (select_job D tbl (job_id job)) (\<lambda>duplicate.
                 if duplicate \<noteq> None then Inl (duplicate_id (job_id job))
                 else sbind (insert_job D tbl job) (\<lambda>tbl'. stored_job D tbl' (job_id job)))))"

definition sql_transition ::
  "database \<Rightarrow> table \<Rightarrow> string \<Rightarrow> job_status \<Rightarrow> string option \<Rightarrow> string
    \<Rightarrow> job_exn + common_job \<times> table" where
  "sql_transition D tbl i st updated now =
     sbind (select_job D tbl i) (\<lambda>found.
       case found of None \<Rightarrow> Inl (not_found i)
       | Some job \<Rightarrow>
           sbind (transition_common_job job st updated now) (\<lambda>new.
             if new = job then Inr (new, tbl)
             else sbind (update_job_transition D tbl new None None) (\<lambda>tbl'. stored_job D tbl' i)))"

definition sql_start where "sql_start D tbl i updated now = sql_transition D tbl i RUNNING updated now"
definition sql_complete where "sql_complete D tbl i updated now = sql_transition D tbl i SUCCEEDED updated now"
definition sql_fail where "sql_fail D tbl i updated now = sql_transition D tbl i FAILED updated now"
definition sql_cancel where "sql_cancel D tbl i updated now = sql_transition D tbl i CANCELLED updated now"

definition sql_retry ::
  "database \<Rightarrow> table \<Rightarrow> string \<Rightarrow> pydict option \<Rightarrow> string option
    \<Rightarrow> job_retry_policy option \<Rightarrow> string \<Rightarrow> job_exn + common_job \<times> table" where
  "sql_retry D tbl i err failed policy now =
     sbind (select_job D tbl i) (\<lambda>found.
       case found of None \<Rightarrow> Inl (not_found i)
       | Some job \<Rightarrow>
           sbind (plan_job_retry job err failed now policy) (\<lambda>decision.
           sbind (update_job_retry_decision D tbl job decision) (\<lambda>tbl'. stored_job D tbl' i)))"

definition sql_dead_letter ::
  "database \<Rightarrow> table \<Rightarrow> string \<Rightarrow> pydict option \<Rightarrow> string option \<Rightarrow> string
    \<Rightarrow> job_exn + common_job \<times> table" where
  "sql_dead_letter D tbl i err failed now =
     sbind (select_job D tbl i) (\<lambda>found.
       case found of None \<Rightarrow> Inl (not_found i)
       | Some job \<Rightarrow>
           sbind (plan_job_dead_letter job err failed now) (\<lambda>decision.
           sbind (update_job_retry_decision D tbl job decision) (\<lambda>tbl'. stored_job D tbl' i)))"

definition sql_claim ::
  "database \<Rightarrow> table \<Rightarrow> string \<Rightarrow> string option \<Rightarrow> string option \<Rightarrow> string
    \<Rightarrow> job_exn + common_job option \<times> table" where
  "sql_claim D tbl worker jtype updated now =
     sbind (required_string (PStr worker) ''worker_id'') (\<lambda>_.
     let observed = or_default updated now in
     sbind (select_claim_candidate D tbl jtype observed) (\<lambda>found.
       case found of None \<Rightarrow> Inr (None, tbl)
       | Some job \<Rightarrow>
           sbind (transition_common_job job RUNNING (Some observed) now) (\<lambda>new.
           sbind (update_job_transition D tbl new (Some worker) (Some observed)) (\<lambda>tbl'.
           sbind (stored_job D tbl' (job_id new)) (\<lambda>(j, tbl''). Inr (Some j, tbl''))))))"

fun rows_to_jobs :: "database \<Rightarrow> job_row list \<Rightarrow> job_exn + common_job list" where
  "rows_to_jobs D [] = Inr []"
| "rows_to_jobs D (r # rs) =
     sbind (job_from_row D r) (\<lambda>j. sbind (rows_to_jobs D rs) (\<lambda>js. Inr (j # js)))"

definition sql_list_jobs ::
  "database \<Rightarrow> table \<Rightarrow> string option \<Rightarrow> job_status option \<Rightarrow> job_exn + common_job list" where
  "sql_list_jobs D tbl jtype st =
     rows_to_jobs D (sort_key (\<lambda>r. (row_created_at r, row_job_id r))
       (filter (\<lambda>r. (jtype = None \<or> jtype = Some (row_job_type r)) \<and> (st = None \<or> st = Some (row_status r))) tbl))"

definition sql_summary :: "database \<Rightarrow> table \<Rightarrow> job_exn + job_summary" where
  "sql_summary D tbl = sbind (sql_list_jobs D tbl None None) (\<lambda>js. Inr (summarize_jobs js))"

subsection \<open>The invariant\<close>

text \<open>
  What the constraints of the table keep, and that every row reads back as a valid job: an
  operation that wrote a row it cannot read raises and rolls back.
\<close>

definition sql_inv :: "database \<Rightarrow> table \<Rightarrow> bool" where
  "sql_inv D tbl \<longleftrightarrow>
     distinct (map row_job_id tbl) \<and>
     distinct (map (\<lambda>r. (row_job_type r, row_idempotency_key r)) tbl) \<and>
     (\<forall>r \<in> set tbl. \<exists>j. job_from_row D r = Inr j)"

definition sql_get_job :: "database \<Rightarrow> table \<Rightarrow> string \<Rightarrow> common_job option" where
  "sql_get_job D tbl i = (case select_job D tbl i of Inr (Some j) \<Rightarrow> Some j | _ \<Rightarrow> None)"

lemma job_from_row_Inr:
  "job_from_row D r = Inr j \<longleftrightarrow> job_wf j \<and>
    json_column D (PDict []) (row_payload r) = Inr (the (payload j)) \<and> payload j \<noteq> None \<and>
    json_column D PNone (row_error r) = Inr (error j) \<and>
    json_column D PNone (row_replay_lineage r) = Inr (replay_lineage j) \<and>
    job_schema_version j = row_schema_version r \<and> job_id j = row_job_id r \<and>
    job_type j = row_job_type r \<and> status j = row_status r \<and> trace_id j = row_trace_id r \<and>
    request_id j = row_request_id r \<and>
    subject_ref j = [(''type'', row_subject_type r), (''id'', row_subject_id r)] \<and>
    idempotency_key j = row_idempotency_key r \<and> attempt_count j = row_attempt_count r \<and>
    max_attempts j = row_max_attempts r \<and> retryable j = row_retryable r \<and> links j = row_links r \<and>
    created_at j = wire_timestamp (row_created_at r) \<and> updated_at j = wire_timestamp (row_updated_at r) \<and>
    available_at j = Some (wire_timestamp (row_available_at r))"
  by (cases j) (auto simp: job_from_row_def Let_def res_simps)

lemmas job_from_row_fields = job_from_row_Inr [THEN iffD1]

lemma find_row_Some:
  "distinct (map row_job_id tbl) \<Longrightarrow> find_row tbl i = Some r \<longleftrightarrow> r \<in> set tbl \<and> row_job_id r = i"
  unfolding find_row_def by (induction tbl) (auto simp: image_iff)

lemma find_row_in: "find_row tbl i = Some r \<Longrightarrow> r \<in> set tbl \<and> row_job_id r = i"
  by (auto simp: find_row_def find_Some_iff)

lemma find_row_None: "find_row tbl i = None \<longleftrightarrow> i \<notin> row_job_id ` set tbl"
  by (auto simp: find_row_def find_None_iff)

lemma sql_get_Some:
  "sql_get_job D tbl i = Some j \<longleftrightarrow> (\<exists>r. find_row tbl i = Some r \<and> job_from_row D r = Inr j)"
  by (cases "find_row tbl i"; cases "job_from_row D (the (find_row tbl i))")
    (auto simp: sql_get_job_def select_job_def)

lemma select_job_Some: "select_job D tbl i = Inr (Some j) \<longleftrightarrow> sql_get_job D tbl i = Some j"
  by (cases "find_row tbl i") (auto simp: sql_get_Some select_job_def sbind_eq_Inr)

lemma select_job_None: "sql_inv D tbl \<Longrightarrow> select_job D tbl i = Inr None \<longleftrightarrow> sql_get_job D tbl i = None"
  using find_row_in [of tbl i]
  by (cases "find_row tbl i") (fastforce simp: sql_get_job_def select_job_def sql_inv_def)+

lemma sql_get_wf: "sql_get_job D tbl i = Some j \<Longrightarrow> job_id j = i \<and> job_wf j"
  by (auto simp: sql_get_Some job_from_row_Inr find_row_def find_Some_iff)

lemma find_row_update:
  assumes "\<And>r. row_job_id (f r) = row_job_id r"
  shows "find_row (update_row tbl i f) k =
    (if k = i then map_option f (find_row tbl i) else find_row tbl k)"
  by (induction tbl) (auto simp: find_row_def update_row_def assms)

lemma stored_job_Inr:
  "stored_job D tbl i = Inr (j, t) \<longleftrightarrow> sql_get_job D tbl i = Some j \<and> t = tbl"
  by (auto simp: stored_job_def res_simps select_job_Some)

text \<open>An update of one row that still reads as a job is an update of that job.\<close>

lemma update_row_job:
  assumes inv: "sql_inv D tbl" and j: "sql_get_job D tbl i = Some j"
    and f: "\<And>r. row_job_id (f r) = row_job_id r" "\<And>r. row_job_type (f r) = row_job_type r"
      "\<And>r. row_idempotency_key (f r) = row_idempotency_key r"
    and j': "\<And>r. job_from_row D r = Inr j \<Longrightarrow> job_from_row D (f r) = Inr j'"
  shows "sql_inv D (update_row tbl i f)"
    "sql_get_job D (update_row tbl i f) = (sql_get_job D tbl)(i := Some j')"
proof -
  from j obtain r where r: "find_row tbl i = Some r" "job_from_row D r = Inr j"
    by (auto simp: sql_get_Some)
  have "map row_job_id (update_row tbl i f) = map row_job_id tbl"
    "map (\<lambda>r. (row_job_type r, row_idempotency_key r)) (update_row tbl i f) =
      map (\<lambda>r. (row_job_type r, row_idempotency_key r)) tbl"
    by (simp_all add: update_row_def f)
  moreover have "\<exists>k. job_from_row D s = Inr k" if "s \<in> set (update_row tbl i f)" for s
  proof -
    from that obtain t where t: "t \<in> set tbl" "s = (if row_job_id t = i then f t else t)"
      by (auto simp: update_row_def)
    show ?thesis
    proof (cases "row_job_id t = i")
      case True
      with inv t have "find_row tbl i = Some t" by (simp add: find_row_Some sql_inv_def)
      with r have "t = r" by simp
      then show ?thesis using t True j' r by auto
    qed (use t inv in \<open>auto simp: sql_inv_def\<close>)
  qed
  ultimately show "sql_inv D (update_row tbl i f)" using inv by (simp add: sql_inv_def)
  have "sql_get_job D (update_row tbl i f) k = ((sql_get_job D tbl)(i := Some j')) k" for k
    using r j' by (simp add: sql_get_job_def select_job_def find_row_update f)
  then show "sql_get_job D (update_row tbl i f) = (sql_get_job D tbl)(i := Some j')" ..
qed

subsection \<open>What each operation does\<close>

lemma db_param_Inr: "db_param D w = Inr t \<longleftrightarrow> db_time D w = Some t"
  by (auto simp: db_param_def split: option.splits)

text \<open>A job as the table stores it after a transition or a retry decision.\<close>

definition stamped :: "common_job \<Rightarrow> int \<Rightarrow> common_job" where
  "stamped j u = j\<lparr>updated_at := wire_timestamp u\<rparr>"

definition decided_job :: "common_job \<Rightarrow> job_retry_decision \<Rightarrow> int \<Rightarrow> int \<Rightarrow> common_job" where
  "decided_job j dec avail failed =
     j\<lparr>status := (if action dec = REQUEUE then QUEUED else FAILED), retryable := (action dec = REQUEUE),
       error := decided_error dec, available_at := Some (wire_timestamp avail),
       updated_at := wire_timestamp failed\<rparr>"

lemma update_transition_Inr:
  assumes inv: "sql_inv D tbl" and j: "sql_get_job D tbl i = Some j"
    and new: "transition_common_job j st upd now = Inr new" "status j \<noteq> st"
    and t': "update_job_transition D tbl new lby lat = Inr t'"
  obtains u where "db_time D (or_default upd now) = Some u" "sql_inv D t'"
    "sql_get_job D t' = (sql_get_job D tbl)(i := Some (stamped new u))"
proof -
  from t' obtain u locked where u: "db_time D (updated_at new) = Some u"
    and t'': "t' = update_row tbl (job_id new) (\<lambda>r. r\<lparr>
       row_status := status new, row_attempt_count := attempt_count new, row_updated_at := u,
       row_started_at := coalesce (row_started_at r) (if status new = RUNNING then Some u else None),
       row_completed_at := coalesce (if terminal (status new) then Some u else None) (row_completed_at r),
       row_locked_by := (if terminal (status new) then None else lby), row_locked_at := locked\<rparr>)"
    by (auto simp: update_job_transition_def res_simps db_param_Inr)
  have ids: "job_id new = i" "updated_at new = or_default upd now" "job_wf new"
    using transition_ids [OF new(1)] sql_get_wf [OF j] new transition_wf [OF new(1)]
    by (auto simp: transition_Inr)
  have same: "payload new = payload j" "error new = error j" "replay_lineage new = replay_lineage j"
    "job_schema_version new = job_schema_version j" "trace_id new = trace_id j"
    "request_id new = request_id j" "subject_ref new = subject_ref j" "retryable new = retryable j"
    "links new = links j"
    using new by (simp_all add: transition_Inr)
  note upd = update_row_job [OF inv j, of "\<lambda>r. r\<lparr>
       row_status := status new, row_attempt_count := attempt_count new, row_updated_at := u,
       row_started_at := coalesce (row_started_at r) (if status new = RUNNING then Some u else None),
       row_completed_at := coalesce (if terminal (status new) then Some u else None) (row_completed_at r),
       row_locked_by := (if terminal (status new) then None else lby), row_locked_at := locked\<rparr>" "stamped new u"]
  have row: "job_from_row D (r\<lparr>row_status := status new, row_attempt_count := attempt_count new,
      row_updated_at := u, row_started_at := a, row_completed_at := b, row_locked_by := c,
      row_locked_at := d\<rparr>) = Inr (stamped new u)" if "job_from_row D r = Inr j" for r a b c d
    using that ids(3) transition_ids [OF new(1)]
    by (simp add: job_from_row_Inr stamped_def same)
  show ?thesis
    using that [of u] u ids upd row unfolding t'' by simp
qed

lemma plan_job_retry_error: "plan_job_retry j err fa now pol = Inr dec \<Longrightarrow> \<exists>e. decided_error dec = PDict e"
  by (auto simp: plan_job_retry_def Let_def res_simps mark_error_def split: if_splits)

lemma plan_job_dead_letter_error:
  "plan_job_dead_letter j err fa now = Inr dec \<Longrightarrow> \<exists>e. decided_error dec = PDict e"
  by (auto simp: plan_job_dead_letter_def res_simps mark_error_def)

lemma update_retry_Inr:
  assumes inv: "sql_inv D tbl" and j: "sql_get_job D tbl i = Some j" "decided_error dec = PDict e"
    and t': "update_job_retry_decision D tbl j dec = Inr t'"
  obtains failed w avail where "db_time D (failed_at dec) = Some failed"
    "(if action dec = REQUEUE then decided_available_at dec else Some (failed_at dec)) = Some w"
    "db_time D w = Some avail" "sql_inv D t'"
    "sql_get_job D t' = (sql_get_job D tbl)(i := Some (decided_job j dec avail failed))"
proof -
  from t' obtain failed w avail where t: "db_time D (failed_at dec) = Some failed"
    "(if action dec = REQUEUE then decided_available_at dec else Some (failed_at dec)) = Some w"
    "db_time D w = Some avail"
    and t'': "t' = update_row tbl i (\<lambda>r. r\<lparr>
        row_status := (if action dec = REQUEUE then QUEUED else FAILED),
        row_retryable := (action dec = REQUEUE), row_error := decided_error dec,
        row_available_at := avail, row_locked_by := None, row_locked_at := None,
        row_completed_at := (if action dec = REQUEUE then None else Some failed),
        row_updated_at := failed\<rparr>)"
    using sql_get_wf [OF j(1)]
    by (auto simp: update_job_retry_decision_def Let_def res_simps db_param_Inr)
  have row: "job_from_row D (r\<lparr>row_status := (if action dec = REQUEUE then QUEUED else FAILED),
        row_retryable := (action dec = REQUEUE), row_error := decided_error dec,
        row_available_at := avail, row_locked_by := None, row_locked_at := None,
        row_completed_at := (if action dec = REQUEUE then None else Some failed),
        row_updated_at := failed\<rparr>) = Inr (decided_job j dec avail failed)"
    if "job_from_row D r = Inr j" for r
    using that by (simp add: job_from_row_Inr decided_job_def j(2))
  note upd = update_row_job [OF inv j(1) _ _ _ row]
  show ?thesis
    by (rule that [OF t]) (unfold t'', simp_all add: upd)
qed

lemma stamped_simps [simp]:
  "job_id (stamped j u) = job_id j" "job_type (stamped j u) = job_type j" "status (stamped j u) = status j"
  "attempt_count (stamped j u) = attempt_count j" "same_job k (stamped j u) = same_job k j"
  "job_wf (stamped j u) = job_wf j" "same_job (stamped j u) k = same_job j k" "error (stamped j u) = error j"
  by (simp_all add: stamped_def same_job_def)

lemma job_step_stamped [simp]: "job_step k (stamped j u) = job_step k j"
  by (auto elim!: job_step.cases intro: job_step_intros)

lemma sql_transition_Inr:
  assumes inv: "sql_inv D tbl" and ok: "sql_transition D tbl i st upd now = Inr (j', t')"
  obtains j new where "sql_get_job D tbl i = Some j" "transition_common_job j st upd now = Inr new"
    "sql_inv D t'" "sql_get_job D t' = (sql_get_job D tbl)(i := Some j')"
    "if status j = st then j' = j \<and> t' = tbl
     else \<exists>u. db_time D (or_default upd now) = Some u \<and> j' = stamped new u"
proof -
  from ok obtain j new where j: "sql_get_job D tbl i = Some j"
    and new: "transition_common_job j st upd now = Inr new"
    and w: "(if new = j then Inr (new, tbl)
       else sbind (update_job_transition D tbl new None None) (\<lambda>tbl'. stored_job D tbl' i)) = Inr (j', t')"
    by (auto simp: sql_transition_def res_simps select_job_Some split: option.splits)
  show ?thesis
  proof (cases "status j = st")
    case True
    with new have "new = j" by (simp add: transition_Inr)
    with w inv j new True show ?thesis by (intro that [of j new]) auto
  next
    case False
    then have "new \<noteq> j" using transition_ids [OF new] by auto
    with w have t': "update_job_transition D tbl new None None = Inr t'" and "sql_get_job D t' i = Some j'"
      by (auto simp: res_simps stored_job_Inr)
    moreover obtain u where "db_time D (or_default upd now) = Some u" "sql_inv D t'"
      "sql_get_job D t' = (sql_get_job D tbl)(i := Some (stamped new u))"
      by (rule update_transition_Inr [OF inv j new False t'])
    ultimately show ?thesis using False by (intro that [OF j new]) auto
  qed
qed

lemma decided_job_simps [simp]:
  "job_id (decided_job j dec a f) = job_id j" "attempt_count (decided_job j dec a f) = attempt_count j"
  "same_job k (decided_job j dec a f) = same_job k j" "error (decided_job j dec a f) = decided_error dec"
  "status (decided_job j dec a f) = (if action dec = REQUEUE then QUEUED else FAILED)"
  "retryable (decided_job j dec a f) = (action dec = REQUEUE)"
  by (simp_all add: decided_job_def same_job_def)

lemma same_job_refl [simp]: "same_job j j"
  by (simp add: same_job_def)

lemma sql_retry_Inr:
  assumes inv: "sql_inv D tbl" and ok: "sql_retry D tbl i err fa pol now = Inr (j', t')"
  obtains j dec failed avail where "sql_get_job D tbl i = Some j" "plan_job_retry j err fa now pol = Inr dec"
    "sql_inv D t'" "sql_get_job D t' = (sql_get_job D tbl)(i := Some j')"
    "j' = decided_job j dec avail failed" "db_time D (failed_at dec) = Some failed"
    "(if action dec = REQUEUE then map_option (db_time D) (decided_available_at dec) else Some (Some failed))
      = Some (Some avail)"
proof -
  from ok obtain j dec where j: "sql_get_job D tbl i = Some j" and dec: "plan_job_retry j err fa now pol = Inr dec"
    and t': "update_job_retry_decision D tbl j dec = Inr t'" "sql_get_job D t' i = Some j'"
    by (auto simp: sql_retry_def res_simps select_job_Some stored_job_Inr split: option.splits)
  obtain e where "decided_error dec = PDict e" using plan_job_retry_error [OF dec] by blast
  with inv j t'(1) obtain failed w avail where "db_time D (failed_at dec) = Some failed"
    "(if action dec = REQUEUE then decided_available_at dec else Some (failed_at dec)) = Some w"
    "db_time D w = Some avail" "sql_inv D t'"
    "sql_get_job D t' = (sql_get_job D tbl)(i := Some (decided_job j dec avail failed))"
    by (metis update_retry_Inr)
  then show ?thesis using t'(2) by (intro that [OF j dec, of avail failed]) (auto split: if_splits)
qed

lemma sql_dead_letter_Inr:
  assumes inv: "sql_inv D tbl" and ok: "sql_dead_letter D tbl i err fa now = Inr (j', t')"
  obtains j dec failed where "sql_get_job D tbl i = Some j" "plan_job_dead_letter j err fa now = Inr dec"
    "sql_inv D t'" "sql_get_job D t' = (sql_get_job D tbl)(i := Some j')"
    "j' = decided_job j dec failed failed" "db_time D (failed_at dec) = Some failed"
proof -
  from ok obtain j dec where j: "sql_get_job D tbl i = Some j" and dec: "plan_job_dead_letter j err fa now = Inr dec"
    and t': "update_job_retry_decision D tbl j dec = Inr t'" "sql_get_job D t' i = Some j'"
    by (auto simp: sql_dead_letter_def res_simps select_job_Some stored_job_Inr split: option.splits)
  obtain e where "decided_error dec = PDict e" using plan_job_dead_letter_error [OF dec] by blast
  with inv j t'(1) obtain failed w avail where "db_time D (failed_at dec) = Some failed"
    "(if action dec = REQUEUE then decided_available_at dec else Some (failed_at dec)) = Some w"
    "db_time D w = Some avail" "sql_inv D t'"
    "sql_get_job D t' = (sql_get_job D tbl)(i := Some (decided_job j dec avail failed))"
    by (metis update_retry_Inr)
  then show ?thesis
    using t'(2) plan_job_dead_letter_Inr(4) [OF dec]
    by (intro that [OF j dec, of failed]) (simp_all split: if_splits)
qed

text \<open>A claim takes the first claimable row by instant, or finds none.\<close>

lemma sql_claim_Inr:
  assumes inv: "sql_inv D tbl" and ok: "sql_claim D tbl w ty upd now = Inr (res, t')"
  obtains (none) n where "res = None" "t' = tbl" "db_time D (or_default upd now) = Some n"
      "\<forall>r \<in> set tbl. \<not> row_claimable ty n r"
  | (some) n r j new where "db_time D (or_default upd now) = Some n"
      "r \<in> set tbl" "row_claimable ty n r" "\<forall>s \<in> set tbl. row_claimable ty n s \<longrightarrow> row_claim_key r \<le> row_claim_key s"
      "job_from_row D r = Inr j" "sql_get_job D tbl (job_id j) = Some j"
      "transition_common_job j RUNNING (Some (or_default upd now)) now = Inr new"
      "res = Some (stamped new n)" "sql_inv D t'"
      "sql_get_job D t' = (sql_get_job D tbl)(job_id j := Some (stamped new n))"
proof -
  from ok obtain n where n: "db_time D (or_default upd now) = Some n"
    by (auto simp: sql_claim_def Let_def select_claim_candidate_def sbind_eq_Inr db_param_Inr)
  let ?cs = "filter (row_claimable ty n) tbl"
  show ?thesis
  proof (cases "?cs = []")
    case True
    with ok n have "res = None" "t' = tbl"
      by (auto simp: sql_claim_def Let_def select_claim_candidate_def res_simps db_param_Inr)
    with True n show ?thesis by (intro none) (auto simp: filter_empty_conv)
  next
    case False
    define r where "r = hd (sort_key row_claim_key ?cs)"
    have "sort_key row_claim_key ?cs \<noteq> []" using False by (metis length_0_conv length_sort)
    then obtain rs where rs: "sort_key row_claim_key ?cs = r # rs" unfolding r_def by (cases "sort_key row_claim_key ?cs") auto
    have r: "r \<in> set tbl" "row_claimable ty n r"
      using hd_sort_key_in [OF False, of row_claim_key] by (auto simp: r_def)
    have least: "\<forall>s \<in> set tbl. row_claimable ty n s \<longrightarrow> row_claim_key r \<le> row_claim_key s"
      using hd_sort_key_least [of _ ?cs row_claim_key] by (auto simp: r_def)
    from r inv obtain j where j: "job_from_row D r = Inr j" by (auto simp: sql_inv_def)
    have jid: "sql_get_job D tbl (job_id j) = Some j"
      using r j inv by (auto simp: sql_get_Some find_row_Some sql_inv_def job_from_row_Inr)
    from ok n rs j obtain new k where new: "transition_common_job j RUNNING (Some (or_default upd now)) now = Inr new"
      "update_job_transition D tbl new (Some w) (Some (or_default upd now)) = Inr t'"
      "sql_get_job D t' (job_id new) = Some k" "res = Some k"
      by (auto simp: sql_claim_def Let_def select_claim_candidate_def res_simps db_param_Inr stored_job_Inr
          split: option.splits)
    have "status j \<noteq> RUNNING" using r j by (auto simp: row_claimable_def job_from_row_Inr)
    with new obtain u where u: "db_time D (or_default (Some (or_default upd now)) now) = Some u" "sql_inv D t'"
      "sql_get_job D t' = (sql_get_job D tbl)(job_id j := Some (stamped new u))"
      by (metis update_transition_Inr [OF inv jid])
    with n r least j jid new transition_ids [OF new(1)] show ?thesis by (intro some) auto
  qed
qed

lemma sql_enqueue_Inr:
  assumes inv: "sql_inv D tbl" and ok: "sql_enqueue D tbl j = Inr (j', t')"
  obtains (existing) "t' = tbl" "sql_get_job D tbl (job_id j') = Some j'"
      "job_type j' = job_type j" "idempotency_key j' = idempotency_key j"
  | (new) r where "job_wf j" "status j = QUEUED" "row_of_job D j = Inr r" "job_from_row D r = Inr j'"
      "job_id j' = job_id j" "t' = tbl @ [r]" "sql_get_job D tbl (job_id j) = None"
      "\<forall>s \<in> set tbl. \<not> (row_job_type s = job_type j \<and> row_idempotency_key s = idempotency_key j)"
      "sql_inv D t'" "sql_get_job D t' = (sql_get_job D tbl)(job_id j := Some j')"
proof -
  let ?find = "find (\<lambda>r. row_job_type r = job_type j \<and> row_idempotency_key r = idempotency_key j) tbl"
  from ok have wf: "job_wf j" "status j = QUEUED"
    by (auto simp: sql_enqueue_def res_simps)
  show ?thesis
  proof (cases ?find)
    case (Some r)
    then have r: "r \<in> set tbl" "row_job_type r = job_type j" "row_idempotency_key r = idempotency_key j"
      by (auto simp: find_Some_iff)
    with ok Some have k: "job_from_row D r = Inr j'" "t' = tbl"
      by (auto simp: sql_enqueue_def res_simps select_idempotent_job_def split: option.splits)
    with r inv show ?thesis
      by (intro existing) (auto simp: sql_get_Some find_row_Some sql_inv_def job_from_row_Inr)
  next
    case None
    with ok wf obtain r where r: "select_job D tbl (job_id j) = Inr None" "find_row tbl (job_id j) = None"
      "row_of_job D j = Inr r" "t' = tbl @ [r]" "sql_get_job D t' (job_id j) = Some j'"
      by (auto simp: sql_enqueue_def res_simps select_idempotent_job_def insert_job_def stored_job_Inr
          split: option.splits if_splits)
    from r(3) have keys: "row_job_id r = job_id j" "row_job_type r = job_type j"
      "row_idempotency_key r = idempotency_key j"
      by (auto simp: row_of_job_def res_simps)
    have get: "find_row t' k = (if k = job_id j then Some r else find_row tbl k)" for k
      using r(2) keys(1) unfolding r(4) find_row_def by (induction tbl) (auto split: if_splits)
    then have r': "job_from_row D r = Inr j'" using r(5) by (simp add: sql_get_Some)
    have fresh: "\<forall>s \<in> set tbl. \<not> (row_job_type s = job_type j \<and> row_idempotency_key s = idempotency_key j)"
      using None by (auto simp: find_None_iff)
    with inv r r' keys have "sql_inv D t'" by (auto simp: sql_inv_def find_row_None)
    moreover have "sql_get_job D t' k = ((sql_get_job D tbl)(job_id j := Some j')) k" for k
      using r' by (simp add: sql_get_job_def select_job_def get)
    ultimately show ?thesis
      using r r' fresh wf sql_get_wf [OF r(5)] select_job_None [OF inv] by (intro new) (auto simp: fun_eq_iff)
  qed
qed

lemma row_of_job_fields:
  assumes "row_of_job D j = Inr r"
  obtains a c u where "db_time D (effective_available j) = Some a" "db_time D (created_at j) = Some c"
    "db_time D (updated_at j) = Some u" "row_status r = status j" "row_attempt_count r = attempt_count j"
    "row_job_type r = job_type j" "row_idempotency_key r = idempotency_key j" "row_max_attempts r = max_attempts j"
    "row_available_at r = a" "row_created_at r = c" "row_updated_at r = u"
  using assms by (auto simp: row_of_job_def res_simps db_param_Inr)

subsection \<open>The queue keeps the laws of the interface\<close>

definition sql_ops :: "database \<Rightarrow> table job_queue" where
  "sql_ops D = \<lparr>q_get = sql_get_job D, q_enqueue = sql_enqueue D, q_claim = sql_claim D,
     q_complete = sql_complete D, q_cancel = sql_cancel D, q_retry = sql_retry D\<rparr>"

lemma sql_ops_simps [simp]:
  "q_get (sql_ops D) = sql_get_job D" "q_enqueue (sql_ops D) = sql_enqueue D"
  "q_claim (sql_ops D) = sql_claim D" "q_complete (sql_ops D) = sql_complete D"
  "q_cancel (sql_ops D) = sql_cancel D" "q_retry (sql_ops D) = sql_retry D"
  by (simp_all add: sql_ops_def)

text \<open>What the code relies on: the database reads back the times a service writes.\<close>

locale sql_database =
  fixes D :: database
  assumes db_reads: "in_range t \<Longrightarrow> db_time D (wire_timestamp t) = Some t"

lemma sql_transition_law:
  assumes inv: "sql_inv D tbl" and ok: "sql_transition D tbl i st upd now = Inr (j', t')"
  shows "sql_inv D t'" "status j' = st" "\<exists>j. sql_get_job D tbl i = Some j \<and> (j' = j \<or> job_step j j')"
    "sql_get_job D t' = (sql_get_job D tbl)(i := Some j')"
proof -
  obtain j new where j: "sql_get_job D tbl i = Some j" and new: "transition_common_job j st upd now = Inr new"
    and t': "sql_inv D t'" "sql_get_job D t' = (sql_get_job D tbl)(i := Some j')"
    and c: "if status j = st then j' = j \<and> t' = tbl
     else \<exists>u. db_time D (or_default upd now) = Some u \<and> j' = stamped new u"
    by (rule sql_transition_Inr [OF inv ok])
  have "status j' = st \<and> (j' = j \<or> job_step j j')"
    using c transition_step [OF new] transition_ids [OF new] by (auto split: if_splits)
  with j t' show "sql_inv D t'" "status j' = st" "\<exists>j. sql_get_job D tbl i = Some j \<and> (j' = j \<or> job_step j j')"
    "sql_get_job D t' = (sql_get_job D tbl)(i := Some j')" by auto
qed

lemma sql_retry_law:
  assumes inv: "sql_inv D tbl" and ok: "sql_retry D tbl i err fa pol now = Inr (j', t')"
  shows "sql_inv D t' \<and> (status j' = QUEUED \<or> status j' = FAILED \<and> dead_lettered (error j')) \<and>
    (\<exists>j. sql_get_job D tbl i = Some j \<and> job_step j j') \<and>
    sql_get_job D t' = (sql_get_job D tbl)(i := Some j')"
proof -
  obtain j dec failed avail where j: "sql_get_job D tbl i = Some j" and dec: "plan_job_retry j err fa now pol = Inr dec"
    and t': "sql_inv D t'" "sql_get_job D t' = (sql_get_job D tbl)(i := Some j')"
    and j': "j' = decided_job j dec avail failed"
    by (rule sql_retry_Inr [OF inv ok])
  note p = plan_job_retry_Inr [OF dec]
  have "job_step j j'"
    unfolding j' using p(2,4,5)
    by (cases "retryable j \<and> attempt_count j < max_attempts j") (auto intro: job_step_intros)
  with j t' p(4,5) j' show ?thesis by auto
qed

lemma sql_claim_law:
  assumes inv: "sql_inv D tbl" and ok: "sql_claim D tbl w ty upd now = Inr (res, t')"
  shows "case res of None \<Rightarrow> t' = tbl
    | Some j' \<Rightarrow> sql_inv D t' \<and> status j' = RUNNING \<and> (\<forall>t. ty = Some t \<longrightarrow> job_type j' = t) \<and>
      (\<exists>j. sql_get_job D tbl (job_id j') = Some j \<and> job_step j j') \<and>
      sql_get_job D t' = (sql_get_job D tbl)(job_id j' := Some j')"
  using inv ok
proof (cases rule: sql_claim_Inr)
  case (some n r j new)
  then have "status j \<noteq> RUNNING" "ty = None \<or> ty = Some (job_type j)"
    by (auto simp: row_claimable_def job_from_row_Inr)
  with some transition_step [OF some(7)] transition_ids [OF some(7)] show ?thesis by auto
qed simp

subsection \<open>When an operation succeeds\<close>

lemma sql_transition_forward:
  assumes inv: "sql_inv D tbl" and j: "sql_get_job D tbl i = Some j"
    and new: "transition_common_job j st upd now = Inr new"
    and u: "status j \<noteq> st \<Longrightarrow> db_time D (or_default upd now) = Some u"
  defines "j' \<equiv> if status j = st then j else stamped new u"
  shows "\<exists>t'. sql_transition D tbl i st upd now = Inr (j', t') \<and> sql_inv D t' \<and>
    sql_get_job D t' = (sql_get_job D tbl)(i := Some j')"
proof (cases "status j = st")
  case True
  with new have "new = j" by (simp add: transition_Inr)
  with True new j inv show ?thesis
    using select_job_Some [of D tbl i j] by (auto simp: sql_transition_def j'_def)
next
  case False
  then have "new \<noteq> j" using transition_ids [OF new] by auto
  from False new have "updated_at new = or_default upd now" by (simp add: transition_Inr)
  then obtain t' where t': "update_job_transition D tbl new None None = Inr t'"
    using u [OF False] by (cases "terminal (status new)") (auto simp: update_job_transition_def db_param_def)
  obtain v where "db_time D (or_default upd now) = Some v" "sql_inv D t'"
    "sql_get_job D t' = (sql_get_job D tbl)(i := Some (stamped new v))"
    by (rule update_transition_Inr [OF inv j new False t'])
  then show ?thesis
    using \<open>new \<noteq> j\<close> False new t' u select_job_Some [of D tbl i j]
    by (simp add: sql_transition_def j'_def j stored_job_Inr)
qed

lemma retry_update_forward:
  assumes inv: "sql_inv D tbl" and j: "sql_get_job D tbl i = Some j" "decided_error dec = PDict e"
    and f: "db_time D (failed_at dec) = Some f"
    and w: "(if action dec = REQUEUE then decided_available_at dec else Some (failed_at dec)) = Some w"
      "db_time D w = Some a"
  shows "\<exists>t'. update_job_retry_decision D tbl j dec = Inr t' \<and>
    stored_job D t' i = Inr (decided_job j dec a f, t') \<and> sql_inv D t' \<and>
    sql_get_job D t' = (sql_get_job D tbl)(i := Some (decided_job j dec a f))"
proof -
  obtain t' where t': "update_job_retry_decision D tbl j dec = Inr t'"
    using f w by (simp add: update_job_retry_decision_def db_param_def Let_def split: if_splits)
  obtain f' w' a' where "db_time D (failed_at dec) = Some f'"
    "(if action dec = REQUEUE then decided_available_at dec else Some (failed_at dec)) = Some w'"
    "db_time D w' = Some a'" "sql_inv D t'"
    "sql_get_job D t' = (sql_get_job D tbl)(i := Some (decided_job j dec a' f'))"
    by (rule update_retry_Inr [OF inv j t'])
  then show ?thesis using f w t' by (simp add: stored_job_Inr)
qed

context sql_database
begin

lemma requeue_time:
  assumes "plan_job_retry j err fa now pol = Inr dec" "db_time D (failed_at dec) = Some f"
  obtains w a where "(if action dec = REQUEUE then decided_available_at dec else Some (failed_at dec)) = Some w"
    "db_time D w = Some a" "action dec \<noteq> REQUEUE \<Longrightarrow> a = f"
proof (cases "retryable j \<and> attempt_count j < max_attempts j")
  case True
  from plan_job_retry_Inr(4) [OF assms(1) True] obtain d w where
    "action dec = REQUEUE" "add_seconds (or_default fa now) d = Inr w" "decided_available_at dec = Some w"
    by blast
  moreover from this(2) obtain t where "in_range t" "w = wire_timestamp t" by (auto simp: add_seconds_Inr)
  ultimately show ?thesis using db_reads by (intro that [of w t]) auto
next
  case False
  from plan_job_retry_Inr(5) [OF assms(1) False] assms(2) show ?thesis
    by (intro that [of "failed_at dec" f]) auto
qed

lemma sql_retry_forward:
  assumes inv: "sql_inv D tbl" and j: "sql_get_job D tbl i = Some j"
    and dec: "plan_job_retry j err fa now pol = Inr dec" and f: "db_time D (failed_at dec) = Some f"
  obtains a t' where "sql_retry D tbl i err fa pol now = Inr (decided_job j dec a f, t')" "sql_inv D t'"
    "sql_get_job D t' = (sql_get_job D tbl)(i := Some (decided_job j dec a f))"
    "action dec = REQUEUE \<Longrightarrow> db_time D (the (decided_available_at dec)) = Some a \<and>
      decided_available_at dec \<noteq> None" "action dec \<noteq> REQUEUE \<Longrightarrow> a = f"
proof -
  obtain w a where w: "(if action dec = REQUEUE then decided_available_at dec else Some (failed_at dec)) = Some w"
    "db_time D w = Some a" "action dec \<noteq> REQUEUE \<Longrightarrow> a = f"
    using requeue_time [OF dec f] by metis
  obtain e where e: "decided_error dec = PDict e" using plan_job_retry_error [OF dec] by blast
  have sel: "select_job D tbl i = Inr (Some j)" using j by (simp add: select_job_Some)
  have time: "action dec = REQUEUE \<Longrightarrow> db_time D (the (decided_available_at dec)) = Some a \<and>
      decided_available_at dec \<noteq> None"
    using w by simp
  from retry_update_forward [OF inv j e f w(1,2)] obtain t' where
    "update_job_retry_decision D tbl j dec = Inr t'" "stored_job D t' i = Inr (decided_job j dec a f, t')"
    "sql_inv D t'" "sql_get_job D t' = (sql_get_job D tbl)(i := Some (decided_job j dec a f))" by blast
  then show ?thesis
    using time w(3) sel dec by (intro that [of a t']) (simp_all add: sql_retry_def)
qed

lemma sql_retry_total:
  assumes "sql_inv D tbl" "sql_get_job D tbl i = Some j" "status j = RUNNING" "attempt_count j \<le> 1000"
    "good_time (or_default f n)" "\<And>b. \<exists>d. normalize_job_error e b = Inr d"
  shows "\<exists>r. sql_retry D tbl i e f None n = Inr r"
proof -
  obtain dec where dec: "plan_job_retry j e f n None = Inr dec"
    using plan_job_retry_default [OF _ assms(3-6)] sql_get_wf [OF assms(2)] by blast
  obtain t where "db_time D (or_default f n) = Some t"
    using assms(5) good_timeE db_reads by metis
  then show ?thesis
    using sql_retry_forward [OF assms(1,2) dec, of t] plan_job_retry_Inr(3) [OF dec] by metis
qed

lemma sql_complete_total:
  assumes "sql_inv D tbl" "sql_get_job D tbl i = Some j" "status j = RUNNING" "good_time (or_default u n)"
  shows "\<exists>r. sql_complete D tbl i u n = Inr r"
proof -
  obtain t where "db_time D (or_default u n) = Some t"
    using assms(4) good_timeE db_reads by metis
  moreover obtain new where "transition_common_job j SUCCEEDED u n = Inr new"
    using assms(3) sql_get_wf [OF assms(2)] by (simp add: transition_common_job_def)
  ultimately show ?thesis
    using sql_transition_forward [OF assms(1,2)] unfolding sql_complete_def by blast
qed

end

sublocale sql_database \<subseteq> job_queue_laws "sql_ops D" "sql_inv D"
proof
  fix s :: table and i j w ty u n s' j' e f p
  assume inv: "sql_inv D s"
  show "q_get (sql_ops D) s i = Some j \<Longrightarrow> job_id j = i \<and> job_wf j"
    by (simp add: sql_get_wf)
  show "q_enqueue (sql_ops D) s j = Inr (j', s') \<Longrightarrow>
      sql_inv D s' \<and> q_get (sql_ops D) s' (job_id j') = Some j' \<and>
      job_type j' = job_type j \<and> idempotency_key j' = idempotency_key j \<and>
      (q_get (sql_ops D) s' = q_get (sql_ops D) s \<or> q_get (sql_ops D) s (job_id j') = None \<and>
       status j' = QUEUED \<and> q_get (sql_ops D) s' = (q_get (sql_ops D) s)(job_id j' := Some j'))"
  proof -
    assume "q_enqueue (sql_ops D) s j = Inr (j', s')"
    then have "sql_enqueue D s j = Inr (j', s')" by simp
    with inv show ?thesis
    proof (cases rule: sql_enqueue_Inr)
      case (new r)
      then show ?thesis by (auto simp: job_from_row_Inr elim!: row_of_job_fields)
    qed (use inv in simp)
  qed
  show "q_claim (sql_ops D) s w ty u n = Inr (None, s') \<Longrightarrow> s' = s"
    using sql_claim_law [OF inv, of w ty u n None s'] by simp
  show "sql_inv D s' \<and> status j' = RUNNING \<and> (\<forall>t. ty = Some t \<longrightarrow> job_type j' = t) \<and>
      (\<exists>j. q_get (sql_ops D) s (job_id j') = Some j \<and> job_step j j') \<and>
      q_get (sql_ops D) s' = (q_get (sql_ops D) s)(job_id j' := Some j')"
    if "q_claim (sql_ops D) s w ty u n = Inr (Some j', s')"
    using that sql_claim_law [OF inv, of w ty u n "Some j'" s'] by simp
  show "sql_inv D s' \<and> status j' = SUCCEEDED \<and>
      (\<exists>j. q_get (sql_ops D) s i = Some j \<and> (j' = j \<or> job_step j j')) \<and>
      q_get (sql_ops D) s' = (q_get (sql_ops D) s)(i := Some j')"
    if "q_complete (sql_ops D) s i u n = Inr (j', s')"
    using that sql_transition_law [OF inv] by (simp add: sql_complete_def)
  show "sql_inv D s' \<and> status j' = CANCELLED \<and>
      (\<exists>j. q_get (sql_ops D) s i = Some j \<and> (j' = j \<or> job_step j j')) \<and>
      q_get (sql_ops D) s' = (q_get (sql_ops D) s)(i := Some j')"
    if "q_cancel (sql_ops D) s i u n = Inr (j', s')"
    using that sql_transition_law [OF inv] by (simp add: sql_cancel_def)
  show "sql_inv D s' \<and> (status j' = QUEUED \<or> status j' = FAILED \<and> dead_lettered (error j')) \<and>
      (\<exists>j. q_get (sql_ops D) s i = Some j \<and> job_step j j') \<and>
      q_get (sql_ops D) s' = (q_get (sql_ops D) s)(i := Some j')"
    if "q_retry (sql_ops D) s i e f p n = Inr (j', s')"
    using that sql_retry_law [OF inv] by simp
  show "\<exists>d. q_complete (sql_ops D) s i u n = Inl (JobQueueError ''job.transition_invalid'' d 409)"
    if "q_get (sql_ops D) s i = Some j" "status j \<notin> {RUNNING, SUCCEEDED}"
    using that sql_get_wf [of D s i j] select_job_Some [of D s i j]
    by (cases "status j") (auto simp: sql_complete_def sql_transition_def transition_common_job_def)
  show "\<exists>r. q_complete (sql_ops D) s i u n = Inr r"
    if "q_get (sql_ops D) s i = Some j" "status j = RUNNING" "good_time (or_default u n)"
    using that sql_complete_total [OF inv] by simp
  show "\<exists>r. q_retry (sql_ops D) s i e f None n = Inr r"
    if "q_get (sql_ops D) s i = Some j" "status j = RUNNING" "attempt_count j \<le> 1000"
      "good_time (or_default f n)" "\<And>b. \<exists>d. normalize_job_error e b = Inr d"
    using that sql_retry_total [OF inv] by simp
qed

subsection \<open>A database that reads times as Python does\<close>

definition wire_database :: "(string \<Rightarrow> py_error + pyval) \<Rightarrow> database" where
  "wire_database loads =
     \<lparr>db_time = (\<lambda>w. case parse_wire_datetime w of Inr t \<Rightarrow> Some t | Inl _ \<Rightarrow> None), db_loads = loads\<rparr>"

interpretation wire: sql_database "wire_database loads" for loads
  by unfold_locales (simp add: wire_database_def)

subsection \<open>The SQL queue refines the in-memory queue\<close>

text \<open>
  A job of the in-memory queue as the table would hold it, and the two states side by side.
  Claims are left out: the two queues order them differently.
\<close>

definition stored_form :: "database \<Rightarrow> common_job \<Rightarrow> job_exn + common_job" where
  "stored_form D j = sbind (row_of_job D j) (job_from_row D)"

definition sql_sim :: "database \<Rightarrow> memory_queue \<Rightarrow> table \<Rightarrow> bool" where
  "sql_sim D q tbl \<longleftrightarrow> queue_inv q \<and> sql_inv D tbl \<and>
     (\<forall>i. case get_job q i of None \<Rightarrow> sql_get_job D tbl i = None
        | Some j \<Rightarrow> \<exists>k. stored_form D j = Inr k \<and> sql_get_job D tbl i = Some k)"

fun sql_exec :: "database \<Rightarrow> table \<Rightarrow> string \<Rightarrow> queue_call \<Rightarrow> job_exn + common_job option \<times> table" where
  "sql_exec D t now (Enqueue j) = sbind (sql_enqueue D t j) (\<lambda>(j', t'). Inr (Some j', t'))"
| "sql_exec D t now (Start i u) = sbind (sql_start D t i u now) (\<lambda>(j', t'). Inr (Some j', t'))"
| "sql_exec D t now (Complete i u) = sbind (sql_complete D t i u now) (\<lambda>(j', t'). Inr (Some j', t'))"
| "sql_exec D t now (Fail i u) = sbind (sql_fail D t i u now) (\<lambda>(j', t'). Inr (Some j', t'))"
| "sql_exec D t now (Cancel i u) = sbind (sql_cancel D t i u now) (\<lambda>(j', t'). Inr (Some j', t'))"
| "sql_exec D t now (Retry i e f p) = sbind (sql_retry D t i e f p now) (\<lambda>(j', t'). Inr (Some j', t'))"
| "sql_exec D t now (Dead_Letter i e f) = sbind (sql_dead_letter D t i e f now) (\<lambda>(j', t'). Inr (Some j', t'))"
| "sql_exec D t now (Claim w ty u) = sql_claim D t w ty u now"

text \<open>A call the table can store: its job has readable times and JSON, or its time is readable.\<close>

fun storable_call :: "database \<Rightarrow> string \<Rightarrow> queue_call \<Rightarrow> bool" where
  "storable_call D now (Enqueue j) \<longleftrightarrow> (\<exists>k. stored_form D j = Inr k)"
| "storable_call D now (Start i u) \<longleftrightarrow> db_time D (or_default u now) \<noteq> None"
| "storable_call D now (Complete i u) \<longleftrightarrow> db_time D (or_default u now) \<noteq> None"
| "storable_call D now (Fail i u) \<longleftrightarrow> db_time D (or_default u now) \<noteq> None"
| "storable_call D now (Cancel i u) \<longleftrightarrow> db_time D (or_default u now) \<noteq> None"
| "storable_call D now (Retry i e f p) \<longleftrightarrow> db_time D (or_default f now) \<noteq> None"
| "storable_call D now (Dead_Letter i e f) \<longleftrightarrow> db_time D (or_default f now) \<noteq> None"
| "storable_call D now (Claim w ty u) \<longleftrightarrow> False"

lemma stored_form_Inr:
  "stored_form D j = Inr k \<longleftrightarrow> job_wf k \<and>
    (\<exists>a c u. db_time D (effective_available j) = Some a \<and> db_time D (created_at j) = Some c \<and>
      db_time D (updated_at j) = Some u \<and> created_at k = wire_timestamp c \<and>
      updated_at k = wire_timestamp u \<and> available_at k = Some (wire_timestamp a)) \<and>
    json_column D (PDict []) (case payload j of None \<Rightarrow> PDict [] | Some v \<Rightarrow> v) = Inr (the (payload k)) \<and>
    payload k \<noteq> None \<and> json_column D PNone (error j) = Inr (error k) \<and>
    json_column D PNone (replay_lineage j) = Inr (replay_lineage k) \<and>
    job_schema_version k = job_schema_version j \<and> job_id k = job_id j \<and>
    job_type k = job_type j \<and> status k = status j \<and> trace_id k = trace_id j \<and> request_id k = request_id j \<and>
    subject_ref k = [(''type'', dget (subject_ref j) ''type''), (''id'', dget (subject_ref j) ''id'')] \<and>
    idempotency_key k = idempotency_key j \<and> attempt_count k = attempt_count j \<and>
    max_attempts k = max_attempts j \<and> retryable k = retryable j \<and> links k = links j"
  by (auto simp: stored_form_def row_of_job_def res_simps db_param_Inr job_from_row_Inr)

lemma effective_available_update [simp]:
  "effective_available (j\<lparr>attempt_count := a\<rparr>) = effective_available j"
  "effective_available (j\<lparr>status := s\<rparr>) = effective_available j"
  "effective_available (j\<lparr>updated_at := u\<rparr>) = effective_available j"
  "effective_available (j\<lparr>error := e\<rparr>) = effective_available j"
  "effective_available (j\<lparr>retryable := r\<rparr>) = effective_available j"
  "effective_available (j\<lparr>available_at := Some w\<rparr>) = w"
  by (simp_all add: effective_available_def split: option.split)

text \<open>Transitions and plans see a job and its stored form alike.\<close>

lemma stored_transition:
  assumes k: "stored_form D j = Inr k" and wf: "job_wf j"
  shows "transition_common_job j st upd now = Inl e \<Longrightarrow> transition_common_job k st upd now = Inl e"
    "transition_common_job j st upd now = Inr j' \<Longrightarrow> \<exists>k'. transition_common_job k st upd now = Inr k' \<and>
      (if status j = st then k' = k else \<forall>u. db_time D (or_default upd now) = Some u \<longrightarrow>
        stored_form D j' = Inr (stamped k' u))"
proof -
  from k have same: "status k = status j" "attempt_count k = attempt_count j" "max_attempts k = max_attempts j"
    "job_wf k" by (simp_all add: stored_form_Inr)
  show "transition_common_job j st upd now = Inl e \<Longrightarrow> transition_common_job k st upd now = Inl e"
    using same wf by (simp add: transition_Inl)
  assume t: "transition_common_job j st upd now = Inr j'"
  show "\<exists>k'. transition_common_job k st upd now = Inr k' \<and>
      (if status j = st then k' = k else \<forall>u. db_time D (or_default upd now) = Some u \<longrightarrow>
        stored_form D j' = Inr (stamped k' u))"
  proof (cases "status j = st")
    case True
    with same t show ?thesis by (simp add: transition_Inr)
  next
    case False
    with t have j': "j' = j\<lparr>attempt_count := (if st = RUNNING then attempt_count j + 1 else attempt_count j),
      status := st, updated_at := or_default upd now\<rparr>"
      and ok: "st \<in> set (VALID_JOB_TRANSITIONS (status j))" "st = RUNNING \<longrightarrow> attempt_count j < max_attempts j"
      by (auto simp: transition_Inr)
    let ?k = "k\<lparr>attempt_count := (if st = RUNNING then attempt_count j + 1 else attempt_count j),
      status := st, updated_at := or_default upd now\<rparr>"
    have kt: "transition_common_job k st upd now = Inr ?k"
      using same ok False by (simp add: transition_Inr)
    have "stored_form D j' = Inr (stamped ?k u)" if "db_time D (or_default upd now) = Some u" for u
      using k that transition_wf [OF kt] unfolding j' stored_form_Inr
      by (auto simp: stamped_def)
    with kt False show ?thesis by simp
  qed
qed

lemma stored_retry_plan:
  assumes "stored_form D j = Inr k" "job_wf j"
  shows "plan_job_retry k err fa now pol = plan_job_retry j err fa now pol"
    "plan_job_dead_letter k err fa now = plan_job_dead_letter j err fa now"
proof -
  have same: "status k = status j" "attempt_count k = attempt_count j" "max_attempts k = max_attempts j"
    "retryable k = retryable j" and wf: "job_wf k"
    using assms by (simp_all add: stored_form_Inr)
  show "plan_job_retry k err fa now pol = plan_job_retry j err fa now pol"
    "plan_job_dead_letter k err fa now = plan_job_dead_letter j err fa now"
    unfolding plan_job_retry_def plan_job_dead_letter_def same using assms(2) wf by simp_all
qed

text \<open>Writing the same job on both sides keeps them side by side.\<close>

lemma sql_simD:
  "sql_sim D q tbl \<Longrightarrow> case get_job q i of None \<Rightarrow> sql_get_job D tbl i = None
    | Some j \<Rightarrow> \<exists>k. stored_form D j = Inr k \<and> sql_get_job D tbl i = Some k"
  unfolding sql_sim_def by blast

lemma sql_sim_upd:
  assumes "sql_sim D q tbl" "queue_inv q'" "sql_inv D tbl'"
    and "get_job q' = (get_job q)(i := Some j')" "sql_get_job D tbl' = (sql_get_job D tbl)(i := Some k')"
    and "stored_form D j' = Inr k'"
  shows "sql_sim D q' tbl'"
  unfolding sql_sim_def
proof (intro conjI allI)
  show "case get_job q' k of None \<Rightarrow> sql_get_job D tbl' k = None
    | Some j \<Rightarrow> \<exists>l. stored_form D j = Inr l \<and> sql_get_job D tbl' k = Some l" for k
    using sql_simD [OF assms(1), of k] assms(4-6)
    by (cases "k = i"; cases "get_job q k") (simp_all add: fun_upd_apply)
qed (rule assms)+

lemma sql_sim_put:
  assumes "sql_sim D q tbl" "get_job q i = Some j" "same_job j j'" "job_wf j'"
    and "stored_form D j' = Inr k'" "sql_inv D tbl'" "sql_get_job D tbl' = (sql_get_job D tbl)(i := Some k')"
  shows "sql_sim D (put_job q i j') tbl'"
proof -
  have "queue_inv (put_job q i j')" using assms(1-4) put_step_inv by (auto simp: sql_sim_def)
  then show ?thesis using sql_sim_upd [OF assms(1) _ assms(6) _ assms(7) assms(5)] by simp
qed

lemma sql_simE:
  assumes "sql_sim D q tbl" "get_job q i = Some j"
  obtains k where "stored_form D j = Inr k" "sql_get_job D tbl i = Some k" "job_wf j" "queue_inv q" "sql_inv D tbl"
proof -
  from sql_simD [OF assms(1), of i] assms that queue_invD(3) [of q i j] show ?thesis by (auto simp: sql_sim_def get_job_def)
qed

lemma sql_sim_missing:
  assumes "sql_sim D q tbl" "get_job q i = None"
  shows "select_job D tbl i = Inr None"
  using sql_simD [OF assms(1), of i] assms by (simp add: sql_sim_def select_job_None)

text \<open>The outcome both queues agree on.\<close>

definition sim_result ::
  "database \<Rightarrow> (job_exn + common_job \<times> memory_queue) \<Rightarrow> (job_exn + common_job \<times> table) \<Rightarrow> bool" where
  "sim_result D m s \<longleftrightarrow>
     (case m of Inl e \<Rightarrow> s = Inl e
      | Inr (j', q') \<Rightarrow> \<exists>k' t'. stored_form D j' = Inr k' \<and> s = Inr (k', t') \<and> sql_sim D q' t')"

lemma sim_transition:
  assumes sim: "sql_sim D q tbl" and w: "db_time D (or_default upd now) \<noteq> None"
  shows "sim_result D (transition q i st upd now) (sql_transition D tbl i st upd now)"
proof (cases "get_job q i")
  case None
  with sql_sim_missing [OF sim None] show ?thesis
    by (simp add: sim_result_def transition_def get_job_def sql_transition_def)
next
  case (Some j)
  obtain k where k: "stored_form D j = Inr k" "sql_get_job D tbl i = Some k" "job_wf j" "queue_inv q" "sql_inv D tbl"
    by (rule sql_simE [OF sim Some])
  show ?thesis
  proof (cases "transition_common_job j st upd now")
    case (Inl e)
    with stored_transition(1) [OF k(1,3) Inl] k(2) Some show ?thesis
      using select_job_Some [of D tbl i k]
      by (simp add: sim_result_def transition_def get_job_def sql_transition_def)
  next
    case (Inr j')
    then obtain k' where k': "transition_common_job k st upd now = Inr k'"
      "if status j = st then k' = k else \<forall>u. db_time D (or_default upd now) = Some u \<longrightarrow>
        stored_form D j' = Inr (stamped k' u)"
      using stored_transition(2) [OF k(1,3)] by blast
    obtain u where u: "db_time D (or_default upd now) = Some u" using w by auto
    let ?k = "if status k = st then k else stamped k' u"
    have "status k = status j" using k(1) by (simp add: stored_form_Inr)
    then have sf: "stored_form D j' = Inr ?k"
      using k' u k(1) Inr by (auto simp: transition_Inr)
    obtain t' where "sql_transition D tbl i st upd now = Inr (?k, t')" "sql_inv D t'"
      "sql_get_job D t' = (sql_get_job D tbl)(i := Some ?k)"
      using sql_transition_forward [OF k(5,2) k'(1), of u] u by auto
    moreover have "same_job j j'" "job_wf j'"
      using Inr transition_wf [OF Inr] by (auto simp: transition_Inr same_job_def)
    moreover have "transition q i st upd now = Inr (j', put_job q i j')"
      using Some Inr by (simp add: transition_def get_job_def)
    ultimately show ?thesis using sql_sim_put [OF sim Some _ _ sf] sf by (simp add: sim_result_def)
  qed
qed

lemma find_unique_key:
  assumes "distinct (map f tbl)" "r \<in> set tbl"
  shows "find (\<lambda>s. f s = f r) tbl = Some r"
  using assms by (induction tbl) (auto simp: image_iff)

lemma sim_missing:
  assumes "sql_sim D q tbl" "get_job q i = None"
  shows "sim_result D (retry_job q i err fa pol now) (sql_retry D tbl i err fa pol now)"
    "sim_result D (dead_letter_job q i err fa now) (sql_dead_letter D tbl i err fa now)"
  using sql_sim_missing [OF assms] assms(2)
  by (simp_all add: sim_result_def retry_job_def dead_letter_job_def get_job_def sql_retry_def
      sql_dead_letter_def)

text \<open>The stored form of a job after a decision.\<close>

lemma stored_decided:
  assumes k: "stored_form D j = Inr k" and dec: "decided_error dec = PDict e"
    and w: "db_time D w = Some a" and f: "db_time D (failed_at dec) = Some f"
    and r: "action dec = REQUEUE \<Longrightarrow> retryable j"
  shows "stored_form D (j\<lparr>updated_at := failed_at dec, error := decided_error dec,
      status := (if action dec = REQUEUE then QUEUED else FAILED),
      retryable := (retryable j \<and> action dec = REQUEUE), available_at := Some w\<rparr>) =
    Inr (decided_job k dec a f)"
  using k w f r unfolding stored_form_Inr by (auto simp: decided_job_def dec)

context sql_database
begin

lemma sim_retry:
  assumes sim: "sql_sim D q tbl" and w: "db_time D (or_default fa now) \<noteq> None"
  shows "sim_result D (retry_job q i err fa pol now) (sql_retry D tbl i err fa pol now)"
proof (cases "get_job q i")
  case None
  then show ?thesis by (rule sim_missing(1) [OF sim])
next
  case (Some j)
  obtain k where k: "stored_form D j = Inr k" "sql_get_job D tbl i = Some k" "job_wf j" "queue_inv q" "sql_inv D tbl"
    by (rule sql_simE [OF sim Some])
  note plan = stored_retry_plan(1) [OF k(1,3)]
  show ?thesis
  proof (cases "plan_job_retry j err fa now pol")
    case (Inl e)
    with Some k(2) show ?thesis using select_job_Some [of D tbl i k]
      by (simp add: sim_result_def retry_job_def get_job_def sql_retry_def plan)
  next
    case (Inr dec)
    obtain f where f: "db_time D (failed_at dec) = Some f"
      using w plan_job_retry_Inr(3) [OF Inr] by auto
    have plank: "plan_job_retry k err fa now pol = Inr dec" using Inr by (simp add: plan)
    obtain a t' where t': "sql_retry D tbl i err fa pol now = Inr (decided_job k dec a f, t')" "sql_inv D t'"
      "sql_get_job D t' = (sql_get_job D tbl)(i := Some (decided_job k dec a f))"
      and a: "action dec = REQUEUE \<Longrightarrow> db_time D (the (decided_available_at dec)) = Some a \<and>
        decided_available_at dec \<noteq> None" "action dec \<noteq> REQUEUE \<Longrightarrow> a = f"
      by (rule sql_retry_forward [OF k(5,2) plank f]) blast
    let ?w = "if action dec = REQUEUE then the (decided_available_at dec) else failed_at dec"
    let ?j = "j\<lparr>updated_at := failed_at dec, error := decided_error dec,
      status := (if action dec = REQUEUE then QUEUED else FAILED),
      retryable := (retryable j \<and> action dec = REQUEUE), available_at := Some ?w\<rparr>"
    have av: "db_time D ?w = Some a"
      using a f by simp
    have ret: "action dec = REQUEUE \<Longrightarrow> retryable j"
      using plan_job_retry_Inr(4,5) [OF Inr] by fastforce
    obtain e where e: "decided_error dec = PDict e" using plan_job_retry_error [OF Inr] by blast
    have sf: "stored_form D ?j = Inr (decided_job k dec a f)"
      by (rule stored_decided [OF k(1) e av f ret])
    have "?j = (if action dec = REQUEUE
      then j\<lparr>updated_at := failed_at dec, error := decided_error dec, status := QUEUED,
             available_at := decided_available_at dec\<rparr>
      else j\<lparr>updated_at := failed_at dec, error := decided_error dec, status := FAILED,
             retryable := False, available_at := Some (failed_at dec)\<rparr>)"
      using ret a(1) by (cases j) auto
    then have "retry_job q i err fa pol now = Inr (?j, put_job q i ?j)"
      using Some Inr by (simp add: retry_job_def get_job_def Let_def)
    moreover have "same_job j ?j" "job_wf ?j" using k(3) by (simp_all add: same_job_def)
    ultimately show ?thesis
      using sql_sim_put [OF sim Some _ _ sf t'(2,3)] sf t'(1) by (simp add: sim_result_def)
  qed
qed

end

lemma sim_dead_letter:
  assumes sim: "sql_sim D q tbl" and w: "db_time D (or_default fa now) \<noteq> None"
  shows "sim_result D (dead_letter_job q i err fa now) (sql_dead_letter D tbl i err fa now)"
proof (cases "get_job q i")
  case None
  then show ?thesis by (rule sim_missing(2) [OF sim])
next
  case (Some j)
  obtain k where k: "stored_form D j = Inr k" "sql_get_job D tbl i = Some k" "job_wf j" "queue_inv q" "sql_inv D tbl"
    by (rule sql_simE [OF sim Some])
  note plan = stored_retry_plan(2) [OF k(1,3)]
  have sel: "select_job D tbl i = Inr (Some k)" using k(2) by (simp add: select_job_Some)
  show ?thesis
  proof (cases "plan_job_dead_letter j err fa now")
    case (Inl e)
    with Some sel show ?thesis
      by (simp add: sim_result_def dead_letter_job_def get_job_def sql_dead_letter_def plan)
  next
    case (Inr dec)
    note d = plan_job_dead_letter_Inr [OF Inr]
    obtain f where f: "db_time D (failed_at dec) = Some f" using w d(3) by auto
    obtain e where e: "decided_error dec = PDict e" using plan_job_dead_letter_error [OF Inr] by blast
    from retry_update_forward [OF k(5,2) e f, of "failed_at dec" f] d(4) f obtain t' where
      t': "update_job_retry_decision D tbl k dec = Inr t'" "stored_job D t' i = Inr (decided_job k dec f f, t')"
      "sql_inv D t'" "sql_get_job D t' = (sql_get_job D tbl)(i := Some (decided_job k dec f f))" by auto
    let ?j = "j\<lparr>status := FAILED, retryable := False, error := decided_error dec,
      available_at := Some (failed_at dec), updated_at := failed_at dec\<rparr>"
    have jeq: "?j = j\<lparr>updated_at := failed_at dec, error := decided_error dec,
        status := FAILED, retryable := False, available_at := Some (failed_at dec)\<rparr>"
      by (cases j) simp
    have sf: "stored_form D ?j = Inr (decided_job k dec f f)"
      unfolding jeq using stored_decided [OF k(1) e f f] d(4) by simp
    have "dead_letter_job q i err fa now = Inr (?j, put_job q i ?j)"
      using Some Inr by (simp add: dead_letter_job_def get_job_def Let_def)
    moreover have "sql_dead_letter D tbl i err fa now = Inr (decided_job k dec f f, t')"
      using Inr sel t' by (simp add: sql_dead_letter_def plan)
    moreover have "same_job j ?j" "job_wf ?j" using k(3) by (simp_all add: same_job_def)
    ultimately show ?thesis
      using sql_sim_put [OF sim Some _ _ sf t'(3,4)] sf by (simp add: sim_result_def)
  qed
qed

lemma sim_enqueue:
  assumes sim: "sql_sim D q tbl" and new: "stored_form D job = Inr knew"
  shows "sim_result D (enqueue q job) (sql_enqueue D tbl job)"
proof (cases "check_job job = Inr () \<and> status job = QUEUED")
  case False
  then show ?thesis
    by (cases "check_job job") (auto simp: sim_result_def enqueue_def sql_enqueue_def)
next
  case ok: True
  from sim have inv: "queue_inv q" "sql_inv D tbl" by (auto simp: sql_sim_def)
  show ?thesis
  proof (cases "map_of (idempotency_index q) (job_type job, idempotency_key job)")
    case (Some i)
    then obtain j where j: "get_job q i = Some j" "job_type j = job_type job" "idempotency_key j = idempotency_key job"
      using queue_invD(4) [OF inv(1)] unfolding get_job_def by blast
    obtain k where k: "stored_form D j = Inr k" "sql_get_job D tbl i = Some k"
      by (rule sql_simE [OF sim j(1)])
    then obtain r where r: "r \<in> set tbl" "row_job_type r = job_type job" "row_idempotency_key r = idempotency_key job"
      "job_from_row D r = Inr k"
      using j find_row_in by (fastforce simp: sql_get_Some job_from_row_Inr stored_form_Inr)
    have "select_idempotent_job D tbl (job_type job) (idempotency_key job) = Inr (Some k)"
      using r inv(2) find_unique_key [of "\<lambda>r. (row_job_type r, row_idempotency_key r)" tbl r]
      by (simp add: select_idempotent_job_def sql_inv_def)
    then have "sql_enqueue D tbl job = Inr (k, tbl)" using ok by (simp add: sql_enqueue_def)
    moreover have "enqueue q job = Inr (j, q)"
      using ok Some j(1) by (simp add: enqueue_def get_job_def)
    ultimately show ?thesis using sim k(1) by (simp add: sim_result_def)
  next
    case None
    have fresh: "\<not> (row_job_type s = job_type job \<and> row_idempotency_key s = idempotency_key job)"
      if "s \<in> set tbl" for s
    proof
      assume key: "row_job_type s = job_type job \<and> row_idempotency_key s = idempotency_key job"
      from that inv(2) obtain k where k: "job_from_row D s = Inr k" by (auto simp: sql_inv_def)
      then have "sql_get_job D tbl (row_job_id s) = Some k"
        using that inv(2) by (auto simp: sql_get_Some find_row_Some sql_inv_def)
      with sql_simD [OF sim, of "row_job_id s"] obtain j where "get_job q (row_job_id s) = Some j"
        "stored_form D j = Inr k" by (auto split: option.splits)
      moreover from this k key have "job_type j = job_type job" "idempotency_key j = idempotency_key job"
        by (simp_all add: job_from_row_Inr stored_form_Inr)
      ultimately have "map_of (idempotency_index q) (job_type job, idempotency_key job) = Some (row_job_id s)"
        using queue_invD(4) [OF inv(1)] unfolding get_job_def by blast
      with None show False by simp
    qed
    then have idem: "select_idempotent_job D tbl (job_type job) (idempotency_key job) = Inr None"
      by (auto simp: select_idempotent_job_def find_Some_iff dest: nth_mem split: option.split)
    show ?thesis
    proof (cases "get_job q (job_id job)")
      case (Some j)
      then obtain k where "sql_get_job D tbl (job_id job) = Some k" by (rule sql_simE [OF sim])
      then have "select_job D tbl (job_id job) = Inr (Some k)" by (simp add: select_job_Some)
      with idem ok Some None show ?thesis
        by (simp add: sim_result_def enqueue_def sql_enqueue_def get_job_def duplicate_id_def)
    next
      case none: None
      have sel: "select_job D tbl (job_id job) = Inr None" by (rule sql_sim_missing [OF sim none])
      then have row: "find_row tbl (job_id job) = None"
        by (auto simp: select_job_def res_simps split: option.splits)
      obtain r where r: "row_of_job D job = Inr r" "job_from_row D r = Inr knew"
        using new by (auto simp: stored_form_def res_simps)
      then have rid: "row_job_id r = job_id job" "job_id knew = job_id job"
        using new by (auto simp: stored_form_Inr job_from_row_Inr)
      have "find_row (tbl @ [r]) (job_id job) = Some r"
        using row rid unfolding find_row_def by (induction tbl) (auto split: if_splits)
      then have "sql_get_job D (tbl @ [r]) (job_id job) = Some knew" using r by (simp add: sql_get_Some)
      then have t': "sql_enqueue D tbl job = Inr (knew, tbl @ [r])"
        using ok idem sel r row fresh by (auto simp: sql_enqueue_def insert_job_def stored_job_Inr)
      let ?q = "q\<lparr>jobs := dict_put (job_id job) job (jobs q),
        idempotency_index := dict_put (job_type job, idempotency_key job) (job_id job) (idempotency_index q)\<rparr>"
      have m: "enqueue q job = Inr (job, ?q)"
        using ok None none by (simp add: enqueue_def get_job_def Let_def)
      have gm: "get_job ?q = (get_job q)(job_id job := Some job)"
        by (simp add: get_job_def fun_eq_iff)
      from inv(2) t' have "sql_inv D (tbl @ [r]) \<and>
        sql_get_job D (tbl @ [r]) = (sql_get_job D tbl)(job_id job := Some knew)"
        by (cases rule: sql_enqueue_Inr) simp_all
      then have "sql_sim D ?q (tbl @ [r])"
        using sql_sim_upd [OF sim queue_inv_enqueue [OF inv(1) m] _ gm _ new] by blast
      with m t' new show ?thesis by (simp add: sim_result_def)
    qed
  qed
qed

text \<open>Every call but a claim has the same outcome on both queues.\<close>

context sql_database
begin

lemma sim_exec:
  assumes sim: "sql_sim D q tbl" and ok: "storable_call D now c"
  shows "case queue_exec q now c of Inl e \<Rightarrow> sql_exec D tbl now c = Inl e
    | Inr (res, q') \<Rightarrow> \<exists>t' res'. sql_exec D tbl now c = Inr (res', t') \<and> sql_sim D q' t' \<and>
        (\<exists>j k. res = Some j \<and> res' = Some k \<and> stored_form D j = Inr k)"
proof -
  note sims = sim_transition [OF sim] sim_retry [OF sim] sim_dead_letter [OF sim] sim_enqueue [OF sim]
  have lift: ?thesis if "queue_exec q now c = sbind m (\<lambda>(j, q'). Inr (Some j, q'))"
    "sql_exec D tbl now c = sbind s (\<lambda>(j, q'). Inr (Some j, q'))" "sim_result D m s" for m s
    using that by (auto simp: sim_result_def split: sum.splits prod.splits)
  show ?thesis
  proof (cases c)
    case (Enqueue j)
    with ok show ?thesis by (intro lift [of "enqueue q j" "sql_enqueue D tbl j"]) (auto intro: sims)
  next
    case (Start i u)
    with ok show ?thesis
      by (intro lift [of "start_job q i u now" "sql_start D tbl i u now"])
        (auto simp: start_job_def sql_start_def intro: sims)
  next
    case (Complete i u)
    with ok show ?thesis
      by (intro lift [of "complete_job q i u now" "sql_complete D tbl i u now"])
        (auto simp: complete_job_def sql_complete_def intro: sims)
  next
    case (Fail i u)
    with ok show ?thesis
      by (intro lift [of "fail_job q i u now" "sql_fail D tbl i u now"])
        (auto simp: fail_job_def sql_fail_def intro: sims)
  next
    case (Cancel i u)
    with ok show ?thesis
      by (intro lift [of "cancel_job q i u now" "sql_cancel D tbl i u now"])
        (auto simp: cancel_job_def sql_cancel_def intro: sims)
  next
    case (Retry i e f p)
    with ok show ?thesis
      by (intro lift [of "retry_job q i e f p now" "sql_retry D tbl i e f p now"]) (auto intro: sims)
  next
    case (Dead_Letter i e f)
    with ok show ?thesis
      by (intro lift [of "dead_letter_job q i e f now" "sql_dead_letter D tbl i e f now"]) (auto intro: sims)
  qed (use ok in simp)
qed

end

text \<open>Rows and jobs that are alike can be claimed at the same times.\<close>

lemma sim_row:
  assumes sim: "sql_sim (wire_database loads) q tbl" and r: "r \<in> set tbl" "in_range (row_available_at r)"
  obtains c where "get_job q (row_job_id r) = Some c" "job_id c = row_job_id r"
    "parse_wire_datetime (effective_available c) = Inr (row_available_at r)"
    "\<And>ty obs n. parse_wire_datetime obs = Inr n \<Longrightarrow> row_claimable ty n r \<longleftrightarrow> claimable c ty obs"
proof -
  have inv: "sql_inv (wire_database loads) tbl" "queue_inv q" using sim by (auto simp: sql_sim_def)
  obtain k where k: "job_from_row (wire_database loads) r = Inr k" using inv(1) r(1) by (auto simp: sql_inv_def)
  have "find_row tbl (row_job_id r) = Some r" using r(1) inv(1) by (simp add: find_row_Some sql_inv_def)
  with k have got: "sql_get_job (wire_database loads) tbl (row_job_id r) = Some k" by (simp add: sql_get_Some)
  with sql_simD [OF sim, of "row_job_id r"] obtain c where c: "get_job q (row_job_id r) = Some c"
    "stored_form (wire_database loads) c = Inr k" by (auto split: option.splits)
  note row = job_from_row_fields [OF k] and sto = c(2) [unfolded stored_form_Inr]
  have "job_id c = row_job_id r" using row sto by simp
  moreover obtain a where a: "parse_wire_datetime (effective_available c) = Inr a" "wire_timestamp a = wire_timestamp (row_available_at r)"
    using row sto by (auto simp: wire_database_def split: sum.splits)
  moreover have "a = row_available_at r"
    using a wire_timestamp_inj [OF parse_wire_datetime_range [OF a(1)] r(2)] by simp
  moreover have "row_claimable ty n r \<longleftrightarrow> claimable c ty obs" if "parse_wire_datetime obs = Inr n" for ty obs n
    using that row sto calculation by (auto simp: row_claimable_def claimable_def ready_def)
  ultimately show ?thesis using c(1) that by blast
qed

lemma sim_job_row:
  assumes "sql_sim D q tbl" "get_job q i = Some c"
  shows "\<exists>r \<in> set tbl. row_job_id r = i"
  by (rule sql_simE [OF assms]) (auto simp: sql_get_Some dest: find_row_in)

text \<open>The same for a claim on a table that holds the jobs of the queue, by the keys of the rows.\<close>

lemma sql_claim_passes_over:
  assumes sim: "sql_sim (wire_database loads) q tbl" and range: "\<forall>r \<in> set tbl. in_range (row_available_at r)"
    and claim: "sql_claim (wire_database loads) tbl worker jtype upd now = Inr (r, tbl')"
    and ra: "ra \<in> set tbl" "get_job q (row_job_id ra) = Some a" "claimable a jtype (or_default upd now)"
    and rb: "rb \<in> set tbl" "row_claim_key ra < row_claim_key rb"
  obtains j c where "r = Some j" "get_job q (job_id j) = Some c" "claimable c jtype (or_default upd now)"
    "job_id j \<noteq> row_job_id rb"
proof -
  let ?obs = "or_default upd now"
  have inv: "sql_inv (wire_database loads) tbl" using sim by (simp add: sql_sim_def)
  have ready: "row_claimable jtype n ra" if "parse_wire_datetime ?obs = Inr n" for n
    by (rule sim_row [OF sim ra(1)]) (use range ra that in auto)
  show ?thesis
    using inv claim
  proof (cases rule: sql_claim_Inr)
    case (none n)
    then have "parse_wire_datetime ?obs = Inr n" by (auto simp: wire_database_def split: sum.splits)
    with none ready ra(1) show ?thesis by blast
  next
    case (some n s j new)
    have n: "parse_wire_datetime ?obs = Inr n" using some(1) by (auto simp: wire_database_def split: sum.splits)
    have id: "job_id (stamped new n) = row_job_id s"
      using transition_ids [OF some(7)] some(5) by (simp add: stamped_def job_from_row_Inr)
    have "row_claim_key s \<le> row_claim_key ra" using some(4) ra(1) ready [OF n] by blast
    then have "row_claim_key s < row_claim_key rb" using rb(2) by (rule le_less_trans)
    then have "row_job_id s \<noteq> row_job_id rb"
      using rb(1) some(2) inv by (metis find_row_Some less_irrefl option.inject sql_inv_def)
    moreover obtain c where "get_job q (row_job_id s) = Some c" "claimable c jtype ?obs"
      by (rule sim_row [OF sim some(2)]) (use range some(2,3) n in auto)
    ultimately show ?thesis using that [OF some(8)] id by simp
  qed
qed

end
