(* ===== verification/Worker_Heartbeats.thy ===== *)
theory Worker_Heartbeats
  imports Wire_Time
begin

section \<open>Worker heartbeats\<close>

text \<open>
  \<^verbatim>\<open>services/_shared/nex_runtime/worker_heartbeats.py\<close>: the heartbeat a worker reports, its
  validation, staleness and summary, the in-memory store keyed by service and worker, and the
  emitter whose \<open>safe_emit\<close> turns every failure into a result. A heartbeat that passed
  validation is a record; \<open>validate_worker_heartbeat\<close> reads the dictionary, with the checks in
  the order of the code.
\<close>

subsection \<open>Constants and errors\<close>

datatype heartbeat_status = STARTING | IDLE | BUSY | STOPPING | STOPPED | ERROR

fun heartbeat_status_text :: "heartbeat_status \<Rightarrow> string" where
  "heartbeat_status_text STARTING = ''STARTING''"
| "heartbeat_status_text IDLE = ''IDLE''"
| "heartbeat_status_text BUSY = ''BUSY''"
| "heartbeat_status_text STOPPING = ''STOPPING''"
| "heartbeat_status_text STOPPED = ''STOPPED''"
| "heartbeat_status_text ERROR = ''ERROR''"

definition WORKER_HEARTBEAT_STATUSES :: "heartbeat_status list" where
  "WORKER_HEARTBEAT_STATUSES = [STARTING, IDLE, BUSY, STOPPING, STOPPED, ERROR]"

definition ACTIVE_WORKER_HEARTBEAT_STATUSES :: "heartbeat_status list" where
  "ACTIVE_WORKER_HEARTBEAT_STATUSES = [STARTING, IDLE, BUSY]"

definition SERVICE_IDS :: "string list" where
  "SERVICE_IDS = [''nex-oa'', ''nex-ag'', ''nex-ae-api'', ''nex-cx'', ''nex-mo'']"

definition WORKER_HEARTBEAT_SCHEMA_VERSION :: string where
  "WORKER_HEARTBEAT_SCHEMA_VERSION = ''worker_heartbeat.v1''"

definition MAX_WORKER_STALE_AFTER_SECONDS :: int where
  "MAX_WORKER_STALE_AFTER_SECONDS = 86400"

datatype heartbeat_exn = HeartbeatError string string int | Heartbeat_Py py_error

abbreviation heartbeat_error :: "string \<Rightarrow> string \<Rightarrow> heartbeat_exn" where
  "heartbeat_error c d \<equiv> HeartbeatError (''worker_heartbeat.'' @ c) d 422"

definition heartbeat_status_of :: "pyval \<Rightarrow> heartbeat_status option" where
  "heartbeat_status_of v = find (\<lambda>s. v = PStr (heartbeat_status_text s)) WORKER_HEARTBEAT_STATUSES"

subsection \<open>The heartbeat and its validation\<close>

record heartbeat =
  hb_service :: string
  hb_worker :: string
  hb_type :: string
  hb_status :: heartbeat_status
  hb_job :: "string option"
  hb_trace :: "string option"
  hb_started :: string
  hb_seen :: string
  hb_metadata :: pydict

definition is_trace_id :: "string \<Rightarrow> bool" where
  "is_trace_id v \<longleftrightarrow> length v = 32 \<and> list_all (\<lambda>c. c \<in> set ''0123456789abcdef'') v"

definition heartbeat_string :: "pyval \<Rightarrow> string \<Rightarrow> heartbeat_exn + string" where
  "heartbeat_string value field_name =
     (case value of
        PStr s \<Rightarrow> if s \<noteq> [] then Inr s
          else Inl (heartbeat_error ''field_invalid'' (field_name @ '' must be a non-empty string''))
      | _ \<Rightarrow> Inl (heartbeat_error ''field_invalid'' (field_name @ '' must be a non-empty string'')))"

text \<open>
  \<open>_parse_wire_datetime\<close>: a \<open>ValueError\<close> is translated; the \<open>OverflowError\<close> of
  \<open>astimezone\<close>, raised outside the \<open>try\<close>, is not.
\<close>

definition heartbeat_time :: "pyval \<Rightarrow> string \<Rightarrow> heartbeat_exn + string \<times> int" where
  "heartbeat_time value field_name =
     (case value of
        PStr s \<Rightarrow>
          if s = [] then Inl (heartbeat_error ''timestamp_invalid'' (field_name @ '' must be a date-time string''))
          else (case parse_wire_datetime s of
             Inr t \<Rightarrow> Inr (s, t)
           | Inl ValueError \<Rightarrow>
               Inl (heartbeat_error ''timestamp_invalid'' (field_name @ '' must be a valid date-time string''))
           | Inl e \<Rightarrow> Inl (Heartbeat_Py e))
      | _ \<Rightarrow> Inl (heartbeat_error ''timestamp_invalid'' (field_name @ '' must be a date-time string'')))"

definition heartbeat_fields :: "string list" where
  "heartbeat_fields = [''heartbeat_schema_version'', ''service_id'', ''worker_id'', ''worker_type'', ''status'',
     ''active_job_id'', ''trace_id'', ''started_at'', ''last_seen_at'', ''metadata'']"

definition optional_trace :: "pyval \<Rightarrow> heartbeat_exn + string option" where
  "optional_trace v =
     (case v of
        PNone \<Rightarrow> Inr None
      | PStr s \<Rightarrow> if is_trace_id s then Inr (Some s)
          else Inl (heartbeat_error ''trace_id_invalid'' ''trace_id must be null or a 32-character lowercase hex string'')
      | _ \<Rightarrow> Inl (heartbeat_error ''trace_id_invalid'' ''trace_id must be null or a 32-character lowercase hex string''))"

definition optional_active_job :: "pyval \<Rightarrow> heartbeat_exn + string option" where
  "optional_active_job v =
     (case v of
        PNone \<Rightarrow> Inr None
      | PStr s \<Rightarrow> if s \<noteq> [] then Inr (Some s)
          else Inl (heartbeat_error ''active_job_id_invalid'' ''active_job_id must be null or a non-empty string'')
      | _ \<Rightarrow> Inl (heartbeat_error ''active_job_id_invalid'' ''active_job_id must be null or a non-empty string''))"

definition validate_worker_heartbeat :: "pydict \<Rightarrow> heartbeat_exn + heartbeat" where
  "validate_worker_heartbeat h =
     (if \<exists>f \<in> set heartbeat_fields. map_of h f = None then
        Inl (heartbeat_error ''invalid'' ''worker heartbeat is missing required fields'')
      else if dget h ''heartbeat_schema_version'' \<noteq> PStr WORKER_HEARTBEAT_SCHEMA_VERSION then
        Inl (heartbeat_error ''schema_version_invalid'' ''worker heartbeat schema version is invalid'')
      else
        sbind (heartbeat_string (dget h ''worker_id'') ''worker_id'') (\<lambda>worker.
        sbind (heartbeat_string (dget h ''worker_type'') ''worker_type'') (\<lambda>wtype.
        case find (\<lambda>s. dget h ''service_id'' = PStr s) SERVICE_IDS of
          None \<Rightarrow> Inl (heartbeat_error ''service_invalid'' (''unknown service_id: '' @ py_text (dget h ''service_id'')))
        | Some service \<Rightarrow>
        (case heartbeat_status_of (dget h ''status'') of
          None \<Rightarrow> Inl (heartbeat_error ''status_invalid''
            (''unknown worker heartbeat status: '' @ py_text (dget h ''status'')))
        | Some st \<Rightarrow>
        sbind (optional_trace (dget h ''trace_id'')) (\<lambda>trace.
        sbind (optional_active_job (dget h ''active_job_id'')) (\<lambda>job.
        if st = BUSY \<and> job = None then
          Inl (heartbeat_error ''active_job_required'' ''BUSY worker heartbeats require active_job_id'')
        else (case py_dict (dget h ''metadata'') of
          None \<Rightarrow> Inl (heartbeat_error ''metadata_invalid'' ''metadata must be an object'')
        | Some meta \<Rightarrow>
        sbind (heartbeat_time (dget h ''started_at'') ''started_at'') (\<lambda>(started, t0).
        sbind (heartbeat_time (dget h ''last_seen_at'') ''last_seen_at'') (\<lambda>(seen, t1).
        if t1 < t0 then
          Inl (heartbeat_error ''timestamp_order_invalid'' ''last_seen_at must be greater than or equal to started_at'')
        else Inr \<lparr>hb_service = service, hb_worker = worker, hb_type = wtype, hb_status = st, hb_job = job,
               hb_trace = trace, hb_started = started, hb_seen = seen, hb_metadata = meta\<rparr>)))))))))"

definition opt_value :: "string option \<Rightarrow> pyval" where
  "opt_value v = (case v of None \<Rightarrow> PNone | Some s \<Rightarrow> PStr s)"

definition heartbeat_to_dict :: "heartbeat \<Rightarrow> pydict" where
  "heartbeat_to_dict h =
     [(''heartbeat_schema_version'', PStr WORKER_HEARTBEAT_SCHEMA_VERSION), (''service_id'', PStr (hb_service h)),
      (''worker_id'', PStr (hb_worker h)), (''worker_type'', PStr (hb_type h)),
      (''status'', PStr (heartbeat_status_text (hb_status h))), (''active_job_id'', opt_value (hb_job h)),
      (''trace_id'', opt_value (hb_trace h)), (''started_at'', PStr (hb_started h)),
      (''last_seen_at'', PStr (hb_seen h)), (''metadata'', PDict (hb_metadata h))]"

definition build_worker_heartbeat ::
  "string \<Rightarrow> string \<Rightarrow> string \<Rightarrow> string \<Rightarrow> string option \<Rightarrow> string option \<Rightarrow> string option \<Rightarrow> string option
    \<Rightarrow> pydict option \<Rightarrow> string \<Rightarrow> heartbeat_exn + heartbeat" where
  "build_worker_heartbeat service worker wtype st job trace started seen meta now =
     validate_worker_heartbeat
       [(''heartbeat_schema_version'', PStr WORKER_HEARTBEAT_SCHEMA_VERSION), (''service_id'', PStr service),
        (''worker_id'', PStr worker), (''worker_type'', PStr wtype), (''status'', PStr st),
        (''active_job_id'', opt_value job), (''trace_id'', opt_value trace),
        (''started_at'', PStr (or_default started now)), (''last_seen_at'', PStr (or_default seen now)),
        (''metadata'', PDict (case meta of None \<Rightarrow> [] | Some m \<Rightarrow> m))]"

text \<open>What validation establishes.\<close>

definition heartbeat_wf :: "heartbeat \<Rightarrow> bool" where
  "heartbeat_wf h \<longleftrightarrow>
     hb_service h \<in> set SERVICE_IDS \<and> hb_worker h \<noteq> [] \<and> hb_type h \<noteq> [] \<and> hb_job h \<noteq> Some [] \<and>
     (hb_status h = BUSY \<longrightarrow> hb_job h \<noteq> None) \<and> (\<forall>t. hb_trace h = Some t \<longrightarrow> is_trace_id t) \<and>
     hb_started h \<noteq> [] \<and> hb_seen h \<noteq> [] \<and>
     (case (parse_wire_datetime (hb_started h), parse_wire_datetime (hb_seen h)) of
        (Inr t0, Inr t1) \<Rightarrow> t0 \<le> t1 | _ \<Rightarrow> False)"

subsection \<open>Staleness and summary\<close>

definition normalize_worker_stale_after_seconds :: "int \<Rightarrow> int" where
  "normalize_worker_stale_after_seconds s =
     (if s < 1 then 1 else if s > MAX_WORKER_STALE_AFTER_SECONDS then MAX_WORKER_STALE_AFTER_SECONDS else s)"

text \<open>\<open>checked\<close> is \<open>checked_at\<close>, or the current instant when it is missing.\<close>

definition worker_heartbeat_is_stale :: "heartbeat \<Rightarrow> int \<Rightarrow> string option \<Rightarrow> int \<Rightarrow> heartbeat_exn + bool" where
  "worker_heartbeat_is_stale h stale_after checked now =
     sbind (validate_worker_heartbeat (heartbeat_to_dict h)) (\<lambda>n.
     sbind (heartbeat_time (PStr (hb_seen n)) ''last_seen_at'') (\<lambda>(_, seen).
     sbind (case checked of None \<Rightarrow> Inr now
        | Some w \<Rightarrow> sbind (heartbeat_time (PStr w) ''checked_at'') (\<lambda>(_, t). Inr t)) (\<lambda>observed.
     Inr (observed - seen > normalize_worker_stale_after_seconds stale_after * 1000000))))"

record heartbeat_summary =
  hs_total :: nat
  hs_active :: nat
  hs_stale :: nat
  hs_statuses :: "(heartbeat_status \<times> nat) list"
  hs_services :: "(string \<times> nat) list"

definition bump :: "'k \<Rightarrow> ('k \<times> nat) list \<Rightarrow> ('k \<times> nat) list" where
  "bump k m = map (\<lambda>(k', n). (k', if k' = k then n + 1 else n)) m"

fun summarize_loop ::
  "heartbeat list \<Rightarrow> int \<Rightarrow> string option \<Rightarrow> int \<Rightarrow> heartbeat_summary \<Rightarrow> heartbeat_exn + heartbeat_summary" where
  "summarize_loop [] stale checked now acc = Inr acc"
| "summarize_loop (h # hs) stale checked now acc =
     sbind (validate_worker_heartbeat (heartbeat_to_dict h)) (\<lambda>n.
     sbind (worker_heartbeat_is_stale n stale checked now) (\<lambda>old.
       summarize_loop hs stale checked now
         (acc\<lparr>hs_statuses := bump (hb_status n) (hs_statuses acc),
              hs_services := bump (hb_service n) (hs_services acc),
              hs_active := hs_active acc + (if hb_status n \<in> set ACTIVE_WORKER_HEARTBEAT_STATUSES then 1 else 0),
              hs_stale := hs_stale acc + (if old then 1 else 0)\<rparr>)))"

definition summarize_worker_heartbeats ::
  "heartbeat list \<Rightarrow> int \<Rightarrow> string option \<Rightarrow> int \<Rightarrow> heartbeat_exn + heartbeat_summary" where
  "summarize_worker_heartbeats hs stale checked now =
     summarize_loop hs stale checked now
       \<lparr>hs_total = length hs, hs_active = 0, hs_stale = 0,
        hs_statuses = map (\<lambda>s. (s, 0)) WORKER_HEARTBEAT_STATUSES, hs_services = map (\<lambda>s. (s, 0)) SERVICE_IDS\<rparr>"

subsection \<open>The in-memory store\<close>

type_synonym heartbeat_store = "((string \<times> string) \<times> heartbeat) list"

definition upsert_heartbeat :: "heartbeat_store \<Rightarrow> heartbeat \<Rightarrow> heartbeat_exn + heartbeat \<times> heartbeat_store" where
  "upsert_heartbeat st h =
     sbind (validate_worker_heartbeat (heartbeat_to_dict h)) (\<lambda>n.
       Inr (n, dict_put (hb_service n, hb_worker n) n st))"

definition validate_service_id :: "string \<Rightarrow> heartbeat_exn + string" where
  "validate_service_id s =
     sbind (heartbeat_string (PStr s) ''service_id'') (\<lambda>s.
       if s \<in> set SERVICE_IDS then Inr s
       else Inl (heartbeat_error ''service_invalid'' (''unknown service_id: '' @ s)))"

definition ascii_upper :: "string \<Rightarrow> string" where
  "ascii_upper = map (\<lambda>c. let n = (of_char c :: nat) in if 97 \<le> n \<and> n \<le> 122 then char_of (n - 32) else c)"

definition validate_heartbeat_status :: "string \<Rightarrow> heartbeat_exn + heartbeat_status" where
  "validate_heartbeat_status st =
     sbind (heartbeat_string (PStr st) ''status'') (\<lambda>s.
       case heartbeat_status_of (PStr (ascii_upper s)) of
         None \<Rightarrow> Inl (heartbeat_error ''status_invalid'' (''unknown worker heartbeat status: '' @ st))
       | Some v \<Rightarrow> Inr v)"

definition get_heartbeat :: "heartbeat_store \<Rightarrow> string \<Rightarrow> string \<Rightarrow> heartbeat_exn + heartbeat option" where
  "get_heartbeat st service worker =
     sbind (validate_service_id service) (\<lambda>_.
     sbind (heartbeat_string (PStr worker) ''worker_id'') (\<lambda>_.
       Inr (map_of st (service, worker))))"

definition opt_check :: "('a \<Rightarrow> 'e + 'b) \<Rightarrow> 'a option \<Rightarrow> 'e + 'b option" where
  "opt_check f v = (case v of None \<Rightarrow> Inr None | Some x \<Rightarrow> sbind (f x) (\<lambda>y. Inr (Some y)))"

definition list_heartbeats ::
  "heartbeat_store \<Rightarrow> string option \<Rightarrow> string option \<Rightarrow> string option \<Rightarrow> heartbeat_exn + heartbeat list" where
  "list_heartbeats st service wtype status =
     sbind (opt_check validate_service_id service) (\<lambda>sv.
     sbind (opt_check (\<lambda>w. heartbeat_string (PStr w) ''worker_type'') wtype) (\<lambda>ty.
     sbind (opt_check validate_heartbeat_status status) (\<lambda>sta.
       Inr (sort_key (\<lambda>h. (hb_service h, hb_type h, hb_worker h))
         (filter (\<lambda>h. (sv = None \<or> sv = Some (hb_service h)) \<and> (ty = None \<or> ty = Some (hb_type h)) \<and>
            (sta = None \<or> sta = Some (hb_status h))) (map snd st))))))"

definition DEFAULT_WORKER_STALE_AFTER_SECONDS :: int where
  "DEFAULT_WORKER_STALE_AFTER_SECONDS = 60"

definition store_summary :: "heartbeat_store \<Rightarrow> int \<Rightarrow> heartbeat_exn + heartbeat_summary" where
  "store_summary st now =
     sbind (list_heartbeats st None None None) (\<lambda>hs.
       summarize_worker_heartbeats hs DEFAULT_WORKER_STALE_AFTER_SECONDS None now)"

subsection \<open>The emitter\<close>

record heartbeat_emitter =
  em_service :: string
  em_worker :: string
  em_type :: string
  em_started :: string
  em_metadata :: pydict

definition make_emitter ::
  "string \<Rightarrow> string \<Rightarrow> string \<Rightarrow> string option \<Rightarrow> pydict option \<Rightarrow> string \<Rightarrow> heartbeat_exn + heartbeat_emitter" where
  "make_emitter service worker wtype started meta now =
     (let observed = or_default started now;
          m = (case meta of None \<Rightarrow> [] | Some m \<Rightarrow> m) in
      sbind (validate_service_id service) (\<lambda>s.
      sbind (heartbeat_string (PStr worker) ''worker_id'') (\<lambda>w.
      sbind (heartbeat_string (PStr wtype) ''worker_type'') (\<lambda>t.
      sbind (build_worker_heartbeat s w t ''IDLE'' None None (Some observed) (Some observed) (Some m) now) (\<lambda>_.
        Inr \<lparr>em_service = s, em_worker = w, em_type = t, em_started = observed, em_metadata = m\<rparr>)))))"

text \<open>\<open>dict.update\<close>.\<close>

definition dict_update :: "pydict \<Rightarrow> pydict \<Rightarrow> pydict" where
  "dict_update d e = fold (\<lambda>(k, v). dict_put k v) e d"

definition emit ::
  "heartbeat_emitter \<Rightarrow> heartbeat_store \<Rightarrow> heartbeat_status \<Rightarrow> string option \<Rightarrow> string option \<Rightarrow> pydict option
    \<Rightarrow> string option \<Rightarrow> string \<Rightarrow> heartbeat_exn + heartbeat \<times> heartbeat_store" where
  "emit em st status job trace meta observed now =
     (let merged = (case meta of None \<Rightarrow> em_metadata em | Some m \<Rightarrow> dict_update (em_metadata em) m) in
      sbind (build_worker_heartbeat (em_service em) (em_worker em) (em_type em) (heartbeat_status_text status)
        job trace (Some (em_started em)) observed (Some merged) now) (\<lambda>h. upsert_heartbeat st h))"

datatype emit_result = Emitted heartbeat | Emit_Failed string string int

definition safe_emit ::
  "heartbeat_emitter \<Rightarrow> heartbeat_store \<Rightarrow> heartbeat_status \<Rightarrow> string option \<Rightarrow> string option \<Rightarrow> pydict option
    \<Rightarrow> string option \<Rightarrow> string \<Rightarrow> emit_result \<times> heartbeat_store" where
  "safe_emit em st status job trace meta observed now =
     (case emit em st status job trace meta observed now of
        Inr (h, st') \<Rightarrow> (Emitted h, st')
      | Inl (HeartbeatError code detail sc) \<Rightarrow> (Emit_Failed code detail sc, st)
      | Inl (Heartbeat_Py _) \<Rightarrow>
          (Emit_Failed ''worker_heartbeat.emit_failed'' ''worker heartbeat emission failed'' 503, st))"

fun emit_summary :: "emit_result \<Rightarrow> pydict" where
  "emit_summary (Emitted h) =
     [(''ok'', PBool True), (''service_id'', PStr (hb_service h)), (''worker_id'', PStr (hb_worker h)),
      (''worker_type'', PStr (hb_type h)), (''status'', PStr (heartbeat_status_text (hb_status h))),
      (''active_job_id'', opt_value (hb_job h))]"
| "emit_summary (Emit_Failed code detail sc) =
     [(''ok'', PBool False), (''error_code'', PStr code), (''detail'', PStr detail), (''status_code'', PInt sc)]"

subsection \<open>Validation\<close>

lemma heartbeat_string_Inr [res_simps]: "heartbeat_string v f = Inr s \<longleftrightarrow> v = PStr s \<and> s \<noteq> []"
  by (auto simp: heartbeat_string_def split: pyval.splits)

lemma heartbeat_string_ok [simp]: "s \<noteq> [] \<Longrightarrow> heartbeat_string (PStr s) f = Inr s"
  by (simp add: heartbeat_string_def)

lemma heartbeat_time_Inr [res_simps]:
  "heartbeat_time v f = Inr (s, t) \<longleftrightarrow> v = PStr s \<and> s \<noteq> [] \<and> parse_wire_datetime s = Inr t"
  by (auto simp: heartbeat_time_def split: pyval.splits sum.splits py_error.splits)

lemma optional_trace_Inr [res_simps]:
  "optional_trace v = Inr t \<longleftrightarrow> v = opt_value t \<and> (\<forall>s. t = Some s \<longrightarrow> is_trace_id s)"
  by (auto simp: optional_trace_def opt_value_def split: pyval.splits option.splits)

lemma optional_active_job_Inr [res_simps]:
  "optional_active_job v = Inr j \<longleftrightarrow> v = opt_value j \<and> j \<noteq> Some []"
  by (auto simp: optional_active_job_def opt_value_def split: pyval.splits option.splits)

lemma find_service: "find (\<lambda>s. v = PStr s) SERVICE_IDS = Some x \<longleftrightarrow> v = PStr x \<and> x \<in> set SERVICE_IDS"
  by (auto simp: SERVICE_IDS_def)

lemma heartbeat_status_of_Some: "heartbeat_status_of v = Some s \<longleftrightarrow> v = PStr (heartbeat_status_text s)"
  by (cases s) (auto simp: heartbeat_status_of_def WORKER_HEARTBEAT_STATUSES_def)

text \<open>Validation accepts exactly the dictionaries of well-formed heartbeats.\<close>

lemma validate_heartbeat_Inr:
  "validate_worker_heartbeat d = Inr h \<longleftrightarrow> heartbeat_wf h \<and>
    (\<forall>f \<in> set heartbeat_fields. map_of d f \<noteq> None) \<and>
    (\<forall>f \<in> set heartbeat_fields. dget d f = dget (heartbeat_to_dict h) f)"
proof -
  have fields: "(\<forall>f \<in> set heartbeat_fields. dget d f = dget (heartbeat_to_dict h) f) \<longleftrightarrow>
    dget d ''heartbeat_schema_version'' = PStr WORKER_HEARTBEAT_SCHEMA_VERSION \<and>
    dget d ''service_id'' = PStr (hb_service h) \<and> dget d ''worker_id'' = PStr (hb_worker h) \<and>
    dget d ''worker_type'' = PStr (hb_type h) \<and> dget d ''status'' = PStr (heartbeat_status_text (hb_status h)) \<and>
    dget d ''active_job_id'' = opt_value (hb_job h) \<and> dget d ''trace_id'' = opt_value (hb_trace h) \<and>
    dget d ''started_at'' = PStr (hb_started h) \<and> dget d ''last_seen_at'' = PStr (hb_seen h) \<and>
    dget d ''metadata'' = PDict (hb_metadata h)"
    by (simp add: heartbeat_fields_def heartbeat_to_dict_def dget_def [of "_ # _"])
  show ?thesis
    unfolding fields
    by (cases h) (auto simp: validate_worker_heartbeat_def res_simps find_service heartbeat_status_of_Some
        py_dict_Some heartbeat_wf_def not_less split: if_splits sum.splits)
qed

lemma heartbeat_status_text_inj [simp]:
  "heartbeat_status_text a = heartbeat_status_text b \<longleftrightarrow> a = b"
  by (cases a; cases b) simp_all

lemma opt_value_inj [simp]: "opt_value a = opt_value b \<longleftrightarrow> a = b"
  by (cases a; cases b) (simp_all add: opt_value_def)

lemma validate_heartbeat_to_dict [simp]:
  "validate_worker_heartbeat (heartbeat_to_dict h) = Inr h' \<longleftrightarrow> h' = h \<and> heartbeat_wf h"
  unfolding validate_heartbeat_Inr
  by (cases h; cases h') (auto simp: heartbeat_fields_def heartbeat_to_dict_def dget_def)

lemma validate_wf: "heartbeat_wf h \<Longrightarrow> validate_worker_heartbeat (heartbeat_to_dict h) = Inr h"
  by simp

text \<open>What a built heartbeat holds.\<close>

lemma build_heartbeat_Inr:
  "build_worker_heartbeat service worker wtype st job trace started seen meta now = Inr h \<longleftrightarrow>
    heartbeat_wf h \<and> hb_service h = service \<and> hb_worker h = worker \<and> hb_type h = wtype \<and>
    heartbeat_status_text (hb_status h) = st \<and> hb_job h = job \<and> hb_trace h = trace \<and>
    hb_started h = or_default started now \<and> hb_seen h = or_default seen now \<and>
    hb_metadata h = (case meta of None \<Rightarrow> [] | Some m \<Rightarrow> m)"
  unfolding build_worker_heartbeat_def validate_heartbeat_Inr
  by (auto simp: heartbeat_fields_def heartbeat_to_dict_def dget_def)

subsection \<open>Staleness\<close>

lemma heartbeat_wf_times:
  "heartbeat_wf h \<Longrightarrow> \<exists>t0 t1. parse_wire_datetime (hb_started h) = Inr t0 \<and>
    parse_wire_datetime (hb_seen h) = Inr t1 \<and> t0 \<le> t1"
  by (auto simp: heartbeat_wf_def split: sum.splits)

lemma stale_Inr:
  assumes "heartbeat_wf h" "parse_wire_datetime (hb_seen h) = Inr t"
  shows "worker_heartbeat_is_stale h s (Some w) now = Inr b \<longleftrightarrow>
    w \<noteq> [] \<and> (\<exists>c. parse_wire_datetime w = Inr c \<and> b = (t + normalize_worker_stale_after_seconds s * 1000000 < c))"
    "worker_heartbeat_is_stale h s None now = Inr (t + normalize_worker_stale_after_seconds s * 1000000 < now)"
proof -
  have v: "validate_worker_heartbeat (heartbeat_to_dict h) = Inr h" using assms(1) by simp
  have t: "heartbeat_time (PStr (hb_seen h)) ''last_seen_at'' = Inr (hb_seen h, t)"
    using assms unfolding heartbeat_time_Inr by (simp add: heartbeat_wf_def)
  show "worker_heartbeat_is_stale h s None now = Inr (t + normalize_worker_stale_after_seconds s * 1000000 < now)"
    by (simp add: worker_heartbeat_is_stale_def v t) arith
  show "worker_heartbeat_is_stale h s (Some w) now = Inr b \<longleftrightarrow>
    w \<noteq> [] \<and> (\<exists>c. parse_wire_datetime w = Inr c \<and> b = (t + normalize_worker_stale_after_seconds s * 1000000 < c))"
    by (auto simp: worker_heartbeat_is_stale_def v t res_simps)
qed

lemma normalize_stale_bounds:
  "1 \<le> normalize_worker_stale_after_seconds s" "normalize_worker_stale_after_seconds s \<le> 86400"
  by (simp_all add: normalize_worker_stale_after_seconds_def MAX_WORKER_STALE_AFTER_SECONDS_def)

text \<open>A heartbeat that is not seen again only grows staler.\<close>

lemma stale_mono:
  assumes "worker_heartbeat_is_stale h s (Some w) now = Inr True"
    and "worker_heartbeat_is_stale h s (Some w') now' = Inr b"
    and "parse_wire_datetime w = Inr t" "parse_wire_datetime w' = Inr t'" "t \<le> t'"
  shows "b"
proof -
  have wf: "heartbeat_wf h"
    using assms(1) by (auto simp: worker_heartbeat_is_stale_def res_simps)
  then obtain t1 where "parse_wire_datetime (hb_seen h) = Inr t1" using heartbeat_wf_times by blast
  from stale_Inr(1) [OF wf this] assms show ?thesis by auto
qed

subsection \<open>The summary\<close>

lemma sum_bump:
  assumes "distinct (map fst m)" "k \<in> fst ` set m"
  shows "sum_list (map snd (bump k m)) = Suc (sum_list (map snd m))"
  using assms
proof (induction m)
  case (Cons a m)
  show ?case
  proof (cases "fst a = k")
    case True
    then have "k \<notin> fst ` set m" using Cons.prems(1) by auto
    then have "bump k m = m" unfolding bump_def by (intro map_idI) force
    with True show ?thesis by (simp add: bump_def case_prod_beta)
  next
    case False
    with Cons show ?thesis by (simp add: bump_def case_prod_beta)
  qed
qed simp

lemma keys_bump [simp]: "map fst (bump k m) = map fst m"
  by (induction m) (auto simp: bump_def)

lemma keys_bump_set [simp]: "fst ` set (bump k m) = fst ` set m"
  by (metis keys_bump list.set_map)

lemma all_statuses: "s \<in> set [STARTING, IDLE, BUSY, STOPPING, STOPPED, ERROR]"
  by (cases s) simp_all

lemma summarize_loop_sums:
  assumes "summarize_loop hs stale checked now acc = Inr res"
    and "map fst (hs_statuses acc) = WORKER_HEARTBEAT_STATUSES" "map fst (hs_services acc) = SERVICE_IDS"
  shows "hs_total res = hs_total acc \<and>
    sum_list (map snd (hs_statuses res)) = sum_list (map snd (hs_statuses acc)) + length hs \<and>
    sum_list (map snd (hs_services res)) = sum_list (map snd (hs_services acc)) + length hs \<and>
    hs_active res \<le> hs_active acc + length hs \<and> hs_stale res \<le> hs_stale acc + length hs"
  using assms
proof (induction hs arbitrary: acc)
  case (Cons h hs)
  from Cons.prems(1) obtain n old where v: "validate_worker_heartbeat (heartbeat_to_dict h) = Inr n"
    and rest: "summarize_loop hs stale checked now (acc\<lparr>hs_statuses := bump (hb_status n) (hs_statuses acc),
              hs_services := bump (hb_service n) (hs_services acc),
              hs_active := hs_active acc + (if hb_status n \<in> set ACTIVE_WORKER_HEARTBEAT_STATUSES then 1 else 0),
              hs_stale := hs_stale acc + (if old then 1 else 0)\<rparr>) = Inr res"
    by (auto simp: res_simps simp del: validate_heartbeat_to_dict)
  have wf: "heartbeat_wf n" using v by (simp add: validate_heartbeat_Inr)
  have st: "distinct (map fst (hs_statuses acc))" "hb_status n \<in> fst ` set (hs_statuses acc)"
    using Cons.prems(2) all_statuses unfolding list.set_map [symmetric]
    by (simp_all add: WORKER_HEARTBEAT_STATUSES_def)
  have se: "distinct (map fst (hs_services acc))" "hb_service n \<in> fst ` set (hs_services acc)"
    using Cons.prems(3) wf unfolding list.set_map [symmetric]
    by (simp_all add: SERVICE_IDS_def heartbeat_wf_def)
  show ?case
    using Cons.IH [OF rest] Cons.prems(2,3) sum_bump [OF st] sum_bump [OF se]
    by (simp_all split: if_splits)
qed auto

lemma summarize_heartbeats_sums:
  assumes "summarize_worker_heartbeats hs stale checked now = Inr res"
  shows "hs_total res = length hs" "sum_list (map snd (hs_statuses res)) = length hs"
    "sum_list (map snd (hs_services res)) = length hs" "hs_active res \<le> length hs" "hs_stale res \<le> length hs"
  using summarize_loop_sums [OF assms [unfolded summarize_worker_heartbeats_def]]
  by (simp_all add: o_def SERVICE_IDS_def WORKER_HEARTBEAT_STATUSES_def)

subsection \<open>The store and the emitter\<close>

definition store_inv :: "heartbeat_store \<Rightarrow> bool" where
  "store_inv st \<longleftrightarrow> distinct (map fst st) \<and>
     (\<forall>k h. map_of st k = Some h \<longrightarrow> heartbeat_wf h \<and> k = (hb_service h, hb_worker h))"

lemma upsert_Inr:
  "upsert_heartbeat st h = Inr (h', st') \<longleftrightarrow>
    heartbeat_wf h \<and> h' = h \<and> st' = dict_put (hb_service h, hb_worker h) h st"
  by (auto simp: upsert_heartbeat_def res_simps)

lemma upsert_inv:
  assumes "store_inv st" "upsert_heartbeat st h = Inr (h', st')"
  shows "store_inv st'"
  using assms unfolding store_inv_def upsert_Inr by (auto simp del: map_of_eq_Some_iff)

text \<open>An emission either stores exactly the heartbeat it reports, or changes nothing.\<close>

lemma emit_Inr:
  assumes "emit em st status job trace meta observed now = Inr (h, st')"
  shows "heartbeat_wf h" "hb_status h = status" "hb_job h = job" "hb_trace h = trace"
    "hb_service h = em_service em" "hb_worker h = em_worker em" "hb_started h = or_default (Some (em_started em)) now"
    "hb_seen h = or_default observed now" "st' = dict_put (em_service em, em_worker em) h st"
  using assms by (auto simp: emit_def Let_def res_simps build_heartbeat_Inr upsert_Inr)

lemma safe_emit_cases:
  obtains (emitted) h where "safe_emit em st status job trace meta observed now =
      (Emitted h, dict_put (em_service em, em_worker em) h st)"
      "heartbeat_wf h" "hb_status h = status" "hb_job h = job" "hb_service h = em_service em" "hb_worker h = em_worker em"
  | (failed) c d n where "safe_emit em st status job trace meta observed now = (Emit_Failed c d n, st)"
proof (cases "emit em st status job trace meta observed now")
  case (Inl e)
  then show ?thesis using failed by (cases e) (simp_all add: safe_emit_def)
next
  case (Inr r)
  then obtain h st' where r: "emit em st status job trace meta observed now = Inr (h, st')" by (cases r) auto
  from emit_Inr [OF r] r show ?thesis by (intro emitted [of h]) (simp_all add: safe_emit_def)
qed

lemma safe_emit_inv:
  assumes "store_inv st"
  shows "store_inv (snd (safe_emit em st status job trace meta observed now))"
  using assms
  by (cases rule: safe_emit_cases [of em st status job trace meta observed now])
    (auto simp: store_inv_def simp del: map_of_eq_Some_iff)

text \<open>When an emission cannot fail: the emitter's identity is good, and its clock has not gone back.\<close>

lemma emit_total:
  assumes "em_service em \<in> set SERVICE_IDS" "em_worker em \<noteq> []" "em_type em \<noteq> []"
    and "job \<noteq> Some []" "status = BUSY \<Longrightarrow> job \<noteq> None" "\<forall>t. trace = Some t \<longrightarrow> is_trace_id t"
    and "em_started em \<noteq> []" "parse_wire_datetime (em_started em) = Inr t0"
    and "parse_wire_datetime (or_default observed now) = Inr t1" "t0 \<le> t1" "or_default observed now \<noteq> []"
  shows "\<exists>h. emit em st status job trace meta observed now = Inr (h, dict_put (em_service em, em_worker em) h st)"
proof -
  let ?m = "case meta of None \<Rightarrow> em_metadata em | Some m \<Rightarrow> dict_update (em_metadata em) m"
  let ?h = "\<lparr>hb_service = em_service em, hb_worker = em_worker em, hb_type = em_type em, hb_status = status,
    hb_job = job, hb_trace = trace, hb_started = em_started em, hb_seen = or_default observed now, hb_metadata = ?m\<rparr>"
  have started: "or_default (Some (em_started em)) now = em_started em"
    using assms(7) by (cases "em_started em") auto
  have wf: "heartbeat_wf ?h" using assms by (auto simp: heartbeat_wf_def)
  have "build_worker_heartbeat (em_service em) (em_worker em) (em_type em) (heartbeat_status_text status)
      job trace (Some (em_started em)) observed (Some ?m) now = Inr ?h"
    unfolding build_heartbeat_Inr using wf started by simp
  moreover have "upsert_heartbeat st ?h = Inr (?h, dict_put (em_service em, em_worker em) ?h st)"
    unfolding upsert_Inr using wf by simp
  ultimately show ?thesis by (simp add: emit_def Let_def)
qed

end
