(* ===== verification/Worker_Runner.thy ===== *)
theory Worker_Runner
  imports Sql_Queue Worker_Heartbeats
begin

section \<open>The worker runner\<close>

text \<open>
  \<^verbatim>\<open>services/_shared/nex_runtime/worker_runner.py\<close>: one poll of a worker and the batch of
  polls. What the code receives as arguments are fields of \<open>runner_env\<close>: the queue, the job
  handler (any function of a job and the queue that returns or raises), the heartbeat emitter, the
  log emitter and the clock. What it changes is \<open>runner_state\<close>. A result is the value returned
  or the exception that escapes, with the state it leaves either way.
\<close>

subsection \<open>Configuration\<close>

record worker_config =
  cfg_service :: string
  cfg_worker :: string
  cfg_type :: string
  cfg_job_type :: string
  cfg_max_jobs :: int

datatype runner_error = WorkerRunnerError string string

definition runner_string :: "string \<Rightarrow> string \<Rightarrow> runner_error + string" where
  "runner_string value field_name =
     (if value = [] then
        Inl (WorkerRunnerError ''worker_runner.field_invalid'' (field_name @ '' must be a non-empty string''))
      else Inr value)"

definition make_worker_config ::
  "string \<Rightarrow> string \<Rightarrow> string \<Rightarrow> string \<Rightarrow> int \<Rightarrow> runner_error + worker_config" where
  "make_worker_config service worker wtype jtype max_jobs =
     sbind (runner_string service ''service_id'') (\<lambda>_.
     sbind (runner_string worker ''worker_id'') (\<lambda>_.
     sbind (runner_string wtype ''worker_type'') (\<lambda>_.
     sbind (runner_string jtype ''job_type'') (\<lambda>_.
     if max_jobs < 1 then
       Inl (WorkerRunnerError ''worker_runner.max_jobs_invalid'' ''max_jobs must be a positive integer'')
     else Inr \<lparr>cfg_service = service, cfg_worker = worker, cfg_type = wtype, cfg_job_type = jtype,
                cfg_max_jobs = max_jobs\<rparr>))))"

subsection \<open>Environment and state\<close>

text \<open>An exception of a handler: its optional attributes and its class name.\<close>

record handler_exn =
  exn_code :: "pyval option"
  exn_detail :: "pyval option"
  exn_class :: string

record log_request =
  log_severity :: string
  log_message :: string
  log_trace :: "string option"
  log_request_id :: "string option"
  log_job :: "string option"
  log_subject :: "pydict option"
  log_attributes :: pydict
  log_observed :: string

record ('s, 'l) runner_env =
  config :: worker_config
  queue :: "'s job_queue"
  emitter :: heartbeat_emitter
  handler :: "common_job \<Rightarrow> 's \<Rightarrow> (handler_exn + pydict option) \<times> 's"
  log_emit :: "(log_request \<Rightarrow> 'l \<Rightarrow> pydict \<times> 'l) option"
  finalizes :: bool
  clock :: "nat \<Rightarrow> string"
  utc_now :: string

record ('s, 'l) runner_state =
  rs_queue :: 's
  rs_ticks :: nat
  rs_beats :: heartbeat_store
  rs_logs :: 'l
  rs_beat_results :: "pydict list"
  rs_log_results :: "pydict list"

record worker_execution =
  x_status :: string
  x_job :: "common_job option"
  x_completed :: "common_job option"
  x_result :: "pydict option"
  x_error_code :: "string option"
  x_error_detail :: "string option"
  x_beats :: "pydict list"
  x_logs :: "pydict list"

subsection \<open>Clock, heartbeats and logs\<close>

definition tick :: "('s, 'l) runner_env \<Rightarrow> ('s, 'l) runner_state \<Rightarrow> string \<times> ('s, 'l) runner_state" where
  "tick env st = (clock env (rs_ticks st), st\<lparr>rs_ticks := rs_ticks st + 1\<rparr>)"

definition beat ::
  "('s, 'l) runner_env \<Rightarrow> heartbeat_status \<Rightarrow> string option \<Rightarrow> string option \<Rightarrow> pydict
    \<Rightarrow> ('s, 'l) runner_state \<Rightarrow> ('s, 'l) runner_state" where
  "beat env hstatus job trace meta st =
     (let (now, st) = tick env st;
          (res, store) = safe_emit (emitter env) (rs_beats st) hstatus job trace (Some meta) (Some now) (utc_now env)
      in st\<lparr>rs_beats := store, rs_beat_results := rs_beat_results st @ [emit_summary res]\<rparr>)"

definition job_metadata :: "common_job \<Rightarrow> pydict" where
  "job_metadata j =
     [(''job_id'', PStr (job_id j)), (''job_type'', PStr (job_type j)),
      (''job_status'', PStr (status_text (status j))), (''attempt_count'', PInt (attempt_count j))]"

text \<open>\<open>_safe_emit_worker_log\<close>: without a log emitter the clock is not read.\<close>

definition wlog ::
  "('s, 'l) runner_env \<Rightarrow> string \<Rightarrow> string \<Rightarrow> common_job option \<Rightarrow> pydict
    \<Rightarrow> ('s, 'l) runner_state \<Rightarrow> ('s, 'l) runner_state" where
  "wlog env severity message job attrs st =
     (case log_emit env of None \<Rightarrow> st
      | Some send \<Rightarrow>
          let (now, st) = tick env st;
              c = config env;
              base = [(''service_id'', PStr (cfg_service c)), (''worker_id'', PStr (cfg_worker c)),
                      (''worker_type'', PStr (cfg_type c)), (''job_type'', PStr (cfg_job_type c))];
              meta = (case job of None \<Rightarrow> [] | Some j \<Rightarrow> job_metadata j);
              (res, logs) = send
                \<lparr>log_severity = severity, log_message = message, log_trace = map_option trace_id job,
                 log_request_id = map_option request_id job, log_job = map_option job_id job,
                 log_subject = map_option subject_ref job,
                 log_attributes = dict_update (dict_update base meta) attrs, log_observed = now\<rparr> (rs_logs st)
          in st\<lparr>rs_logs := logs, rs_log_results := rs_log_results st @ [res]\<rparr>)"

definition finish ::
  "('s, 'l) runner_state \<Rightarrow> string \<Rightarrow> common_job option \<Rightarrow> common_job option \<Rightarrow> pydict option
    \<Rightarrow> string option \<Rightarrow> string option \<Rightarrow> (job_exn + worker_execution) \<times> ('s, 'l) runner_state" where
  "finish st xstatus job completed res code detail =
     (Inr \<lparr>x_status = xstatus, x_job = job, x_completed = completed, x_result = res, x_error_code = code,
           x_error_detail = detail, x_beats = rs_beat_results st, x_logs = rs_log_results st\<rparr>, st)"

subsection \<open>One poll\<close>

text \<open>\<open>_safe_retry_job\<close>: any error of the queue's own falls back to reading the job.\<close>

definition safe_retry_job ::
  "'s job_queue \<Rightarrow> 's \<Rightarrow> string \<Rightarrow> pydict \<Rightarrow> string \<Rightarrow> string \<Rightarrow> (job_exn + common_job option) \<times> 's" where
  "safe_retry_job Q s i err failed now =
     (case q_retry Q s i (Some err) (Some failed) None now of
        Inr (j, s') \<Rightarrow> (Inr (Some j), s')
      | Inl (JobQueueError _ _ _) \<Rightarrow> (Inr (q_get Q s i), s)
      | Inl (Py e) \<Rightarrow> (Inl (Py e), s))"

definition handler_error_code :: "handler_exn \<Rightarrow> string" where
  "handler_error_code e = (case exn_code e of None \<Rightarrow> ''worker_runner.handler_failed'' | Some v \<Rightarrow> py_text v)"

definition handler_error_detail :: "handler_exn \<Rightarrow> string" where
  "handler_error_detail e = (case exn_detail e of None \<Rightarrow> exn_class e | Some v \<Rightarrow> py_text v)"

text \<open>The \<open>except Exception\<close> branch around the handler.\<close>

definition handler_failed ::
  "('s, 'l) runner_env \<Rightarrow> common_job \<Rightarrow> handler_exn \<Rightarrow> ('s, 'l) runner_state
    \<Rightarrow> (job_exn + worker_execution) \<times> ('s, 'l) runner_state" where
  "handler_failed env job e st =
     (let code = handler_error_code e; detail = handler_error_detail e in
      case build_job_error code detail True False of
        Inl x \<Rightarrow> (Inl x, st)
      | Inr err \<Rightarrow>
          let (failed, st) = tick env st in
          case safe_retry_job (queue env) (rs_queue st) (job_id job) err failed (utc_now env) of
            (Inl x, s') \<Rightarrow> (Inl x, st\<lparr>rs_queue := s'\<rparr>)
          | (Inr failed_job, s') \<Rightarrow>
              let st = st\<lparr>rs_queue := s'\<rparr>;
                  shown = (case failed_job of None \<Rightarrow> job | Some j \<Rightarrow> j);
                  st = beat env ERROR (Some (job_id job)) (Some (trace_id job))
                         (dict_put ''error_code'' (PStr code) (job_metadata shown)) st;
                  st = wlog env ''ERROR'' ''Worker handler failed.'' (Some shown) [(''error_code'', PStr code)] st
              in finish st ''FAILED'' (Some job) failed_job None (Some code) (Some detail))"

text \<open>After the handler returned.\<close>

definition handler_done ::
  "('s, 'l) runner_env \<Rightarrow> common_job \<Rightarrow> pydict \<Rightarrow> ('s, 'l) runner_state
    \<Rightarrow> (job_exn + worker_execution) \<times> ('s, 'l) runner_state" where
  "handler_done env job result st =
     (let (outcome, st) =
        (if finalizes env then (Inr (q_get (queue env) (rs_queue st) (job_id job)), st)
         else let (now, st) = tick env st in
           (case q_complete (queue env) (rs_queue st) (job_id job) (Some now) (utc_now env) of
              Inl x \<Rightarrow> (Inl x, st)
            | Inr (j, s') \<Rightarrow> (Inr (Some j), st\<lparr>rs_queue := s'\<rparr>)))
      in case outcome of
           Inl x \<Rightarrow> (Inl x, st)
         | Inr found \<Rightarrow>
             let completed = (case found of None \<Rightarrow> job | Some j \<Rightarrow> j);
                 st = beat env IDLE None (Some (trace_id completed)) (job_metadata completed) st;
                 st = wlog env ''INFO'' ''Worker completed a job.'' (Some completed)
                        [(''handler_finalizes_job'', PBool (finalizes env))] st
             in finish st (status_text (status completed)) (Some job) (Some completed) (Some result) None None)"

definition run_claimed ::
  "('s, 'l) runner_env \<Rightarrow> common_job \<Rightarrow> ('s, 'l) runner_state
    \<Rightarrow> (job_exn + worker_execution) \<times> ('s, 'l) runner_state" where
  "run_claimed env job st =
     (let st = beat env BUSY (Some (job_id job)) (Some (trace_id job)) (job_metadata job) st;
          st = wlog env ''INFO'' ''Worker claimed a job.'' (Some job) [(''claimed'', PBool True)] st;
          (outcome, s') = handler env job (rs_queue st);
          st = st\<lparr>rs_queue := s'\<rparr>
      in case outcome of
           Inl e \<Rightarrow> handler_failed env job e st
         | Inr result \<Rightarrow> handler_done env job (case result of None \<Rightarrow> [] | Some d \<Rightarrow> d) st)"

text \<open>The \<open>except JobQueueError\<close> branch of the claim.\<close>

definition claim_failed ::
  "('s, 'l) runner_env \<Rightarrow> string \<Rightarrow> string \<Rightarrow> ('s, 'l) runner_state
    \<Rightarrow> (job_exn + worker_execution) \<times> ('s, 'l) runner_state" where
  "claim_failed env code detail st =
     (let st = beat env ERROR None None
            [(''job_type'', PStr (cfg_job_type (config env))), (''error_code'', PStr code)] st;
          st = wlog env ''ERROR'' ''Worker job claim failed.'' None [(''error_code'', PStr code)] st
      in finish st ''FAILED'' None None None (Some code) (Some detail))"

definition nothing_claimed ::
  "('s, 'l) runner_env \<Rightarrow> ('s, 'l) runner_state \<Rightarrow> (job_exn + worker_execution) \<times> ('s, 'l) runner_state" where
  "nothing_claimed env st =
     (let st = beat env IDLE None None
            [(''job_type'', PStr (cfg_job_type (config env))), (''claimed'', PBool False)] st;
          st = wlog env ''INFO'' ''Worker did not claim a job.'' None [(''claimed'', PBool False)] st
      in finish st ''IDLE'' None None None None None)"

definition run_worker_once ::
  "('s, 'l) runner_env \<Rightarrow> ('s, 'l) runner_state \<Rightarrow> (job_exn + worker_execution) \<times> ('s, 'l) runner_state" where
  "run_worker_once env st =
     (let st = st\<lparr>rs_beat_results := [], rs_log_results := []\<rparr>;
          st = beat env STARTING None None [(''job_type'', PStr (cfg_job_type (config env)))] st;
          st = wlog env ''INFO'' ''Worker polling started.'' None [(''polling'', PBool True)] st;
          (now, st) = tick env st
      in case q_claim (queue env) (rs_queue st) (cfg_worker (config env)) (Some (cfg_job_type (config env)))
                (Some now) (utc_now env) of
           Inl (JobQueueError code detail _) \<Rightarrow> claim_failed env code detail st
         | Inl (Py e) \<Rightarrow> (Inl (Py e), st)
         | Inr (None, s') \<Rightarrow> nothing_claimed env (st\<lparr>rs_queue := s'\<rparr>)
         | Inr (Some job, s') \<Rightarrow> run_claimed env job (st\<lparr>rs_queue := s'\<rparr>))"

subsection \<open>A batch\<close>

fun batch_loop ::
  "nat \<Rightarrow> ('s, 'l) runner_env \<Rightarrow> bool \<Rightarrow> ('s, 'l) runner_state
    \<Rightarrow> (job_exn + worker_execution list) \<times> ('s, 'l) runner_state" where
  "batch_loop 0 env stop st = (Inr [], st)"
| "batch_loop (Suc n) env stop st =
     (case run_worker_once env st of
        (Inl e, st') \<Rightarrow> (Inl e, st')
      | (Inr x, st') \<Rightarrow>
          if x_status x = ''IDLE'' \<or> x_status x = ''FAILED'' \<and> stop then (Inr [x], st')
          else (case batch_loop n env stop st' of
             (Inl e, st'') \<Rightarrow> (Inl e, st'')
           | (Inr xs, st'') \<Rightarrow> (Inr (x # xs), st'')))"

definition run_worker_batch ::
  "('s, 'l) runner_env \<Rightarrow> bool \<Rightarrow> ('s, 'l) runner_state
    \<Rightarrow> (job_exn + worker_execution list) \<times> ('s, 'l) runner_state" where
  "run_worker_batch env stop st = batch_loop (nat (cfg_max_jobs (config env))) env stop st"

definition claimed_count :: "worker_execution list \<Rightarrow> nat" where
  "claimed_count xs = length (filter (\<lambda>x. x_job x \<noteq> None) xs)"

definition succeeded_count :: "worker_execution list \<Rightarrow> nat" where
  "succeeded_count xs = length (filter (\<lambda>x. x_status x = ''SUCCEEDED'') xs)"

definition failed_count :: "worker_execution list \<Rightarrow> nat" where
  "failed_count xs = length (filter (\<lambda>x. x_status x = ''FAILED'') xs)"

definition idle_count :: "worker_execution list \<Rightarrow> nat" where
  "idle_count xs = length (filter (\<lambda>x. x_status x = ''IDLE'') xs)"

subsection \<open>What a poll leaves of the queue\<close>

lemma beat_queue [simp]: "rs_queue (beat env hs j t m st) = rs_queue st"
  by (simp add: beat_def tick_def Let_def split: prod.split)

lemma wlog_queue [simp]: "rs_queue (wlog env s m j a st) = rs_queue st"
  by (simp add: wlog_def tick_def Let_def split: option.split prod.split)

lemma tick_queue [simp]: "rs_queue (snd (tick env st)) = rs_queue st"
  by (simp add: tick_def)

lemma finish_simps [simp]: "snd (finish st s j c r e d) = st" "fst (finish st s j c r e d) =
    Inr \<lparr>x_status = s, x_job = j, x_completed = c, x_result = r, x_error_code = e,
      x_error_detail = d, x_beats = rs_beat_results st, x_logs = rs_log_results st\<rparr>"
  by (simp_all add: finish_def)

lemma or_default_good: "good_time w \<Longrightarrow> or_default (Some w) d = w"
proof (cases w)
  case Nil
  moreover have "parse_wire_datetime [] = Inl ValueError" by code_simp
  moreover assume "good_time w"
  ultimately show ?thesis by (simp add: good_time_def)
qed simp

text \<open>A handler that leaves the queue alone and whose exceptions carry non-empty texts.\<close>

definition quiet_handler :: "(common_job \<Rightarrow> 's \<Rightarrow> (handler_exn + pydict option) \<times> 's) \<Rightarrow> bool" where
  "quiet_handler h \<longleftrightarrow>
     (\<forall>j s. snd (h j s) = s \<and>
        (\<forall>e. fst (h j s) = Inl e \<longrightarrow> handler_error_code e \<noteq> [] \<and> handler_error_detail e \<noteq> []))"

definition runner_ok :: "('s, 'l) runner_env \<Rightarrow> bool" where
  "runner_ok env \<longleftrightarrow> quiet_handler (handler env) \<and> \<not> finalizes env \<and> (\<forall>n. good_time (clock env n))"

lemma build_job_error_ok:
  "c \<noteq> [] \<Longrightarrow> d \<noteq> [] \<Longrightarrow> build_job_error c d r b = Inr [(''error_code'', PStr c), (''detail'', PStr d),
     (''retryable'', PBool r), (''dead_lettered'', PBool b)]"
  by (simp add: build_job_error_def required_string_def)

lemma normalize_built_error:
  assumes "build_job_error c d r b = Inr e"
  shows "\<exists>e'. normalize_job_error (Some e) b' = Inr e'"
proof -
  from assms have "c \<noteq> []" "d \<noteq> []" "map_of e ''error_code'' = Some (PStr c)" "map_of e ''detail'' = Some (PStr d)"
    by (auto simp: build_job_error_def required_string_eq_Inr sbind_eq_Inr)
  then show ?thesis by (simp add: normalize_job_error_def get_text_def build_job_error_ok)
qed

text \<open>What became of the claimed job \<open>j\<close>.\<close>

definition settled :: "common_job \<Rightarrow> worker_execution \<Rightarrow> common_job \<Rightarrow> bool" where
  "settled j x j' \<longleftrightarrow>
     x_completed x = Some j' \<and> job_step j j' \<and>
     (status j' = SUCCEEDED \<and> x_status x = ''SUCCEEDED'' \<or>
      x_status x = ''FAILED'' \<and> (status j' = QUEUED \<or> status j' = FAILED \<and> dead_lettered (error j')))"

lemma job_step_running: "job_step j j' \<Longrightarrow> status j = RUNNING \<Longrightarrow> status j' \<noteq> RUNNING"
  by (auto elim!: job_step.cases simp: TERMINAL_JOB_STATUSES_def)

context job_queue_laws
begin

lemma handler_done_settles:
  assumes env: "runner_ok env" "queue env = Q" and inv: "inv (rs_queue st)"
    and j: "q_get Q (rs_queue st) (job_id job) = Some job" "status job = RUNNING"
  obtains x st' j' where "handler_done env job res st = (Inr x, st')" "inv (rs_queue st')" "settled job x j'"
    "q_get Q (rs_queue st') = (q_get Q (rs_queue st))(job_id job := Some j')" "x_job x = Some job"
proof -
  obtain now st1 where t: "tick env st = (now, st1)" "rs_queue st1 = rs_queue st" "good_time now"
    using env by (simp add: tick_def runner_ok_def)
  obtain j' s' where c: "q_complete Q (rs_queue st) (job_id job) (Some now) (utc_now env) = Inr (j', s')"
    using complete_running [OF inv j, of "Some now" "utc_now env"] t(3) or_default_good by auto
  from complete_law [OF inv c] j have law: "inv s'" "status j' = SUCCEEDED" "j' = job \<or> job_step job j'"
    "q_get Q s' = (q_get Q (rs_queue st))(job_id job := Some j')" by auto
  define st2 where "st2 = wlog env ''INFO'' ''Worker completed a job.'' (Some j')
      [(''handler_finalizes_job'', PBool (finalizes env))]
      (beat env IDLE None (Some (trace_id j')) (job_metadata j') (st1\<lparr>rs_queue := s'\<rparr>))"
  have run: "handler_done env job res st =
      finish st2 (status_text (status j')) (Some job) (Some j') (Some res) None None"
    using env c t by (simp add: handler_done_def runner_ok_def Let_def st2_def)
  have q2: "rs_queue st2 = s'" by (simp add: st2_def)
  show ?thesis
    by (rule that [of _ st2 j'])
      (use run law q2 j in \<open>auto simp: finish_def settled_def\<close>)
qed

lemma handler_failed_settles:
  assumes env: "runner_ok env" "queue env = Q" and inv: "inv (rs_queue st)"
    and j: "q_get Q (rs_queue st) (job_id job) = Some job" "status job = RUNNING" "attempt_count job \<le> 1000"
    and e: "handler_error_code e \<noteq> []" "handler_error_detail e \<noteq> []"
  obtains x st' j' where "handler_failed env job e st = (Inr x, st')" "inv (rs_queue st')" "settled job x j'"
    "q_get Q (rs_queue st') = (q_get Q (rs_queue st))(job_id job := Some j')" "x_job x = Some job"
proof -
  obtain now st1 where t: "tick env st = (now, st1)" "rs_queue st1 = rs_queue st" "good_time now"
    using env by (simp add: tick_def runner_ok_def)
  obtain err where err: "build_job_error (handler_error_code e) (handler_error_detail e) True False = Inr err"
    using build_job_error_ok [OF e] by blast
  obtain j' s' where c: "q_retry Q (rs_queue st) (job_id job) (Some err) (Some now) None (utc_now env) = Inr (j', s')"
    using retry_running [OF inv j, of "Some now" "utc_now env" "Some err"] t(3)
      normalize_built_error [OF err] or_default_good by auto
  from retry_law [OF inv c] j have law: "inv s'" "status j' = QUEUED \<or> status j' = FAILED \<and> dead_lettered (error j')"
    "job_step job j'" "q_get Q s' = (q_get Q (rs_queue st))(job_id job := Some j')" by auto
  define st2 where "st2 = wlog env ''ERROR'' ''Worker handler failed.'' (Some j')
      [(''error_code'', PStr (handler_error_code e))]
      (beat env ERROR (Some (job_id job)) (Some (trace_id job))
        (dict_put ''error_code'' (PStr (handler_error_code e)) (job_metadata j')) (st1\<lparr>rs_queue := s'\<rparr>))"
  have run: "handler_failed env job e st =
      finish st2 ''FAILED'' (Some job) (Some j') None (Some (handler_error_code e)) (Some (handler_error_detail e))"
    using env(2) c t err by (simp add: handler_failed_def safe_retry_job_def Let_def st2_def)
  have q2: "rs_queue st2 = s'" by (simp add: st2_def)
  show ?thesis
    by (rule that [of _ st2 j']) (use run law q2 j in \<open>auto simp: finish_def settled_def\<close>)
qed

lemma run_claimed_settles:
  assumes env: "runner_ok env" "queue env = Q" and inv: "inv (rs_queue st)"
    and j: "q_get Q (rs_queue st) (job_id job) = Some job" "status job = RUNNING" "attempt_count job \<le> 1000"
  obtains x st' j' where "run_claimed env job st = (Inr x, st')" "inv (rs_queue st')" "settled job x j'"
    "q_get Q (rs_queue st') = (q_get Q (rs_queue st))(job_id job := Some j')" "x_job x = Some job"
proof -
  define st1 where "st1 = wlog env ''INFO'' ''Worker claimed a job.'' (Some job) [(''claimed'', PBool True)]
      (beat env BUSY (Some (job_id job)) (Some (trace_id job)) (job_metadata job) st)"
  have q1: "rs_queue st1 = rs_queue st" by (simp add: st1_def)
  obtain out where h: "handler env job (rs_queue st) = (out, rs_queue st)"
    and e: "\<And>e. out = Inl e \<Longrightarrow> handler_error_code e \<noteq> [] \<and> handler_error_detail e \<noteq> []"
    using env(1) unfolding runner_ok_def quiet_handler_def by (metis prod.collapse)
  have st1: "st1\<lparr>rs_queue := rs_queue st\<rparr> = st1" using q1 by simp
  have run: "run_claimed env job st =
      (case out of Inl e \<Rightarrow> handler_failed env job e st1
       | Inr result \<Rightarrow> handler_done env job (case result of None \<Rightarrow> [] | Some d \<Rightarrow> d) st1)"
    unfolding run_claimed_def Let_def st1_def [symmetric] q1 h prod.case st1 by (rule refl)
  note pre = env inv [folded q1] j(1) [folded q1] j(2)
  show ?thesis
  proof (cases out)
    case (Inl x)
    obtain y st' j' where "handler_failed env job x st1 = (Inr y, st')" "inv (rs_queue st')" "settled job y j'"
      "q_get Q (rs_queue st') = (q_get Q (rs_queue st1))(job_id job := Some j')" "x_job y = Some job"
      by (rule handler_failed_settles [OF pre j(3)]) (use e Inl in auto)
    then show ?thesis using run Inl q1 by (intro that [of y st' j']) simp_all
  next
    case (Inr r)
    obtain y st' j' where "handler_done env job (case r of None \<Rightarrow> [] | Some d \<Rightarrow> d) st1 = (Inr y, st')"
      "inv (rs_queue st')" "settled job y j'"
      "q_get Q (rs_queue st') = (q_get Q (rs_queue st1))(job_id job := Some j')" "x_job y = Some job"
      by (rule handler_done_settles [OF pre])
    then show ?thesis using run Inr q1 by (intro that [of y st' j']) simp_all
  qed
qed

text \<open>
  One poll: it raises only what the claim raises outside the queue's own errors and then changes
  no job, it changes no job when it claims none, and otherwise it settles exactly the job it
  claimed.
\<close>

lemma worker_once:
  assumes env: "runner_ok env" "queue env = Q" and inv: "inv (rs_queue st)"
    and small: "\<And>i j. q_get Q (rs_queue st) i = Some j \<Longrightarrow> max_attempts j \<le> 1000"
    and run: "run_worker_once env st = (res, st')"
  shows "inv (rs_queue st') \<and>
    (case res of
      Inl e \<Rightarrow> error_code_of e = None \<and> rs_queue st' = rs_queue st
    | Inr x \<Rightarrow>
        (case x_job x of
          None \<Rightarrow> rs_queue st' = rs_queue st \<and> x_status x \<in> {''IDLE'', ''FAILED''}
        | Some j \<Rightarrow> \<exists>j0 j'. q_get Q (rs_queue st) (job_id j) = Some j0 \<and> job_step j0 j \<and>
            status j = RUNNING \<and> settled j x j' \<and>
            q_get Q (rs_queue st') = (q_get Q (rs_queue st))(job_id j := Some j')))"
proof -
  define st1 where "st1 = wlog env ''INFO'' ''Worker polling started.'' None [(''polling'', PBool True)]
      (beat env STARTING None None [(''job_type'', PStr (cfg_job_type (config env)))]
        (st\<lparr>rs_beat_results := [], rs_log_results := []\<rparr>))"
  obtain now st2 where t: "tick env st1 = (now, st2)" by fastforce
  have q1: "rs_queue st1 = rs_queue st" by (simp add: st1_def)
  have q: "rs_queue st2 = rs_queue st" using tick_queue [of env st1] unfolding t q1 by simp
  let ?claim = "q_claim Q (rs_queue st) (cfg_worker (config env)) (Some (cfg_job_type (config env)))
      (Some now) (utc_now env)"
  have run': "run_worker_once env st = (case ?claim of
           Inl (JobQueueError code detail _) \<Rightarrow> claim_failed env code detail st2
         | Inl (Py e) \<Rightarrow> (Inl (Py e), st2)
         | Inr (None, s') \<Rightarrow> nothing_claimed env (st2\<lparr>rs_queue := s'\<rparr>)
         | Inr (Some job, s') \<Rightarrow> run_claimed env job (st2\<lparr>rs_queue := s'\<rparr>))"
    unfolding run_worker_once_def Let_def env(2) q [symmetric] st1_def [symmetric] t by simp
  show ?thesis
  proof (cases ?claim)
    case (Inl e)
    then show ?thesis
      using run run' q inv by (cases e) (auto simp: claim_failed_def finish_def Let_def)
  next
    case (Inr r)
    show ?thesis
    proof (cases "fst r")
      case None
      then obtain s' where r: "r = (None, s')" by (cases r) auto
      with Inr have "s' = rs_queue st" by (intro claim_none [OF inv]) simp
      with Inr r run run' inv q show ?thesis by (auto simp: nothing_claimed_def finish_def Let_def)
    next
      case (Some job)
      then obtain s' where "r = (Some job, s')" by (cases r) auto
      with Inr have c: "?claim = Inr (Some job, s')" by simp
      from claim_some [OF inv c] obtain j0 where law: "inv s'" "status job = RUNNING"
        "q_get Q (rs_queue st) (job_id job) = Some j0" "job_step j0 job"
        "q_get Q s' = (q_get Q (rs_queue st))(job_id job := Some job)" by auto
      have "attempt_count job \<le> 1000"
        using get_wf [OF law(1), of "job_id job" job] small [OF law(3)] law
        by (auto simp: job_wf_def elim!: job_step.cases simp: same_job_def)
      with law obtain x st3 j' where "run_claimed env job (st2\<lparr>rs_queue := s'\<rparr>) = (Inr x, st3)"
        "inv (rs_queue st3)" "settled job x j'"
        "q_get Q (rs_queue st3) = (q_get Q s')(job_id job := Some j')" "x_job x = Some job"
        using run_claimed_settles [OF env, of "st2\<lparr>rs_queue := s'\<rparr>" job] by auto
      with law c run run' show ?thesis by auto
    qed
  qed
qed

end

subsection \<open>What a poll does\<close>

text \<open>
  How a poll treats the jobs, as \<open>get\<close> reads them: an exception that is none of the queue's own
  changes nothing, a poll without a job changes nothing, and a claimed job is settled as reported.
\<close>

definition poll_settled ::
  "('s \<Rightarrow> string \<Rightarrow> common_job option) \<Rightarrow> 's \<Rightarrow> job_exn + worker_execution \<Rightarrow> 's \<Rightarrow> bool" where
  "poll_settled get s res s' \<longleftrightarrow>
     (case res of
       Inl e \<Rightarrow> error_code_of e = None \<and> s' = s
     | Inr x \<Rightarrow>
         (case x_job x of
           None \<Rightarrow> s' = s \<and> x_status x \<in> {''IDLE'', ''FAILED''}
         | Some j \<Rightarrow> \<exists>j0 j'. get s (job_id j) = Some j0 \<and> job_step j0 j \<and>
             status j = RUNNING \<and> settled j x j' \<and> get s' = (get s)(job_id j := Some j')))"

text \<open>Attempts stay in the range where every delay is a float.\<close>

definition small_jobs :: "('s \<Rightarrow> string \<Rightarrow> common_job option) \<Rightarrow> 's \<Rightarrow> bool" where
  "small_jobs get s \<longleftrightarrow> (\<forall>i j. get s i = Some j \<longrightarrow> max_attempts j \<le> 1000)"

context job_queue_laws
begin

lemma poll_settles:
  assumes "runner_ok env" "queue env = Q" "inv (rs_queue st)" "small_jobs (q_get Q) (rs_queue st)"
    and "run_worker_once env st = (res, st')"
  shows "inv (rs_queue st') \<and> poll_settled (q_get Q) (rs_queue st) res (rs_queue st')"
  unfolding poll_settled_def
  by (rule worker_once [OF assms(1-3) _ assms(5)]) (use assms(4) in \<open>auto simp: small_jobs_def\<close>)

end

subsection \<open>What a batch does\<close>

lemma batch_length:
  "batch_loop n env stop st = (Inr xs, st') \<Longrightarrow> length xs \<le> n"
  by (induction n arbitrary: st xs st') (auto split: sum.splits prod.splits if_splits)

text \<open>Only the last poll of a batch may be idle, or failed when the batch stops on failure.\<close>

lemma batch_stops:
  assumes "batch_loop n env stop st = (Inr xs, st')" "x \<in> set (butlast xs)"
  shows "x_status x \<noteq> ''IDLE'' \<and> (stop \<longrightarrow> x_status x \<noteq> ''FAILED'')"
  using assms
proof (induction n arbitrary: st xs st')
  case (Suc n)
  obtain y st1 where y: "run_worker_once env st = (Inr y, st1)"
    using Suc.prems(1) by (auto split: sum.splits prod.splits)
  show ?case
  proof (cases "x_status y = ''IDLE'' \<or> x_status y = ''FAILED'' \<and> stop")
    case True
    with Suc.prems y show ?thesis by auto
  next
    case False
    with Suc.prems y obtain ys where "batch_loop n env stop st1 = (Inr ys, st')" "xs = y # ys"
      by (auto split: sum.splits prod.splits)
    with Suc.prems(2) False Suc.IH [of st1 ys st'] show ?thesis by (auto split: if_splits)
  qed
qed simp

text \<open>The batch ends early only after an idle poll or a failed one.\<close>

lemma batch_full:
  assumes "batch_loop n env stop st = (Inr xs, st')" "length xs < n"
  shows "xs \<noteq> [] \<and> (x_status (last xs) = ''IDLE'' \<or> x_status (last xs) = ''FAILED'' \<and> stop)"
  using assms
proof (induction n arbitrary: st xs st')
  case (Suc n)
  obtain y st1 where y: "run_worker_once env st = (Inr y, st1)"
    using Suc.prems(1) by (auto split: sum.splits prod.splits)
  show ?case
  proof (cases "x_status y = ''IDLE'' \<or> x_status y = ''FAILED'' \<and> stop")
    case True
    with Suc.prems y show ?thesis by auto
  next
    case False
    with Suc.prems y obtain ys where "batch_loop n env stop st1 = (Inr ys, st')" "xs = y # ys"
      by (auto split: sum.splits prod.splits)
    with Suc.prems(2) Suc.IH [of st1 ys st'] show ?thesis by auto
  qed
qed simp

text \<open>No job runs after the call that did not run before it.\<close>

definition no_new_running :: "('s \<Rightarrow> string \<Rightarrow> common_job option) \<Rightarrow> 's \<Rightarrow> 's \<Rightarrow> bool" where
  "no_new_running get s s' \<longleftrightarrow>
     (\<forall>i j. get s' i = Some j \<longrightarrow> status j = RUNNING \<longrightarrow> get s i = Some j)"

context job_queue_laws
begin

lemma worker_once_no_new_running:
  assumes env: "runner_ok env" "queue env = Q" and inv: "inv (rs_queue st)"
    and small: "small_jobs (q_get Q) (rs_queue st)" and run: "run_worker_once env st = (res, st')"
  shows "inv (rs_queue st')" "small_jobs (q_get Q) (rs_queue st')"
    "no_new_running (q_get Q) (rs_queue st) (rs_queue st')"
    "res = Inr x \<Longrightarrow> x_status x \<in> {''IDLE'', ''FAILED'', ''SUCCEEDED''}"
proof -
  have once: "inv (rs_queue st') \<and> poll_settled (q_get Q) (rs_queue st) res (rs_queue st')"
    by (rule poll_settles [OF assms])
  then show "inv (rs_queue st')" by blast
  show "res = Inr x \<Longrightarrow> x_status x \<in> {''IDLE'', ''FAILED'', ''SUCCEEDED''}"
    using once by (auto simp: poll_settled_def settled_def split: option.splits)
  have "rs_queue st' = rs_queue st \<or> (\<exists>i j0 j'. q_get Q (rs_queue st) i = Some j0 \<and> status j' \<noteq> RUNNING \<and>
      max_attempts j' = max_attempts j0 \<and> q_get Q (rs_queue st') = (q_get Q (rs_queue st))(i := Some j'))"
  proof (cases res)
    case (Inr x)
    show ?thesis
    proof (cases "x_job x")
      case (Some j)
      with once Inr obtain j0 j' where *: "q_get Q (rs_queue st) (job_id j) = Some j0" "job_step j0 j"
        "status j = RUNNING" "job_step j j'"
        "q_get Q (rs_queue st') = (q_get Q (rs_queue st))(job_id j := Some j')"
        by (auto simp: poll_settled_def settled_def)
      moreover have "max_attempts j' = max_attempts j0"
        using *(2,4) by (auto elim!: job_step.cases simp: same_job_def)
      moreover have "status j' \<noteq> RUNNING" by (rule job_step_running [OF *(4,3)])
      ultimately show ?thesis by blast
    qed (use once Inr in \<open>simp add: poll_settled_def\<close>)
  qed (use once in \<open>simp add: poll_settled_def\<close>)
  then show "small_jobs (q_get Q) (rs_queue st')"
    "no_new_running (q_get Q) (rs_queue st) (rs_queue st')"
    using small unfolding small_jobs_def no_new_running_def by (auto split: if_splits)
qed

lemma batch_no_new_running:
  assumes env: "runner_ok env" "queue env = Q" and inv: "inv (rs_queue st)"
    and small: "small_jobs (q_get Q) (rs_queue st)" and run: "batch_loop n env stop st = (res, st')"
  shows "inv (rs_queue st') \<and> small_jobs (q_get Q) (rs_queue st') \<and>
    no_new_running (q_get Q) (rs_queue st) (rs_queue st') \<and>
    (\<forall>xs. res = Inr xs \<longrightarrow> (\<forall>x \<in> set xs. x_status x \<in> {''IDLE'', ''FAILED'', ''SUCCEEDED''}))"
  using inv small run
proof (induction n arbitrary: st res)
  case 0
  then show ?case by (auto simp: no_new_running_def)
next
  case (Suc n)
  obtain o1 st1 where o1: "run_worker_once env st = (o1, st1)" by fastforce
  note once = worker_once_no_new_running [OF env Suc.prems(1,2) o1]
  show ?case
  proof (cases o1)
    case (Inl e)
    with once o1 Suc.prems(3) show ?thesis by auto
  next
    case (Inr x)
    show ?thesis
    proof (cases "x_status x = ''IDLE'' \<or> x_status x = ''FAILED'' \<and> stop")
      case True
      with once(1-3) once(4) [OF Inr] o1 Inr Suc.prems(3) show ?thesis by auto
    next
      case False
      obtain r where r: "batch_loop n env stop st1 = (r, st')"
        and res: "res = (case r of Inl e \<Rightarrow> Inl e | Inr xs \<Rightarrow> Inr (x # xs))"
        using Suc.prems(3) o1 Inr False by (auto split: sum.splits prod.splits)
      from Suc.IH [OF once(1,2) r] once(3) once(4) [OF Inr] res show ?thesis
        by (auto simp: no_new_running_def split: sum.splits)
    qed
  qed
qed

text \<open>
  A job that is cancelled while its handler runs: the completion is refused, and the refusal
  escapes the poll.
\<close>

lemma cancelled_escapes:
  assumes "queue env = Q" "\<not> finalizes env" "inv (rs_queue st)"
    and "q_get Q (rs_queue st) (job_id job) = Some j" "status j = CANCELLED"
  shows "\<exists>d. fst (handler_done env job res st) = Inl (JobQueueError ''job.transition_invalid'' d 409)"
proof -
  obtain now st1 where t: "tick env st = (now, st1)" "rs_queue st1 = rs_queue st" by (simp add: tick_def)
  obtain d where "q_complete Q (rs_queue st) (job_id job) (Some now) (utc_now env) =
      Inl (JobQueueError ''job.transition_invalid'' d 409)"
    using complete_rejected [OF assms(3,4)] assms(5) by fastforce
  then show ?thesis using assms(1,2) t by (simp add: handler_done_def)
qed

end

end
