(* ===== verification/Job_Control.thy ===== *)
theory Job_Control
  imports Sql_Queue
begin

section \<open>The job control routes\<close>

text \<open>
  \<^verbatim>\<open>services/_shared/nex_runtime/job_control.py\<close>: the four routes of a service (read, cancel,
  retry, replay) over any job queue, what they show of a job and which actions they offer. The
  verdict of \<open>validate_authorization_header\<close> is an argument: \<open>None\<close> when the claim is
  good, otherwise the error code and detail. A route answers with a body, with a problem document,
  or lets an exception escape; an answer comes with the queue it leaves.
\<close>

subsection \<open>Answers\<close>

datatype answer =
    Served pydict
  | Problem int string string bool
  | Escaped job_exn

type_synonym auth_verdict = "(string \<times> string) option"

definition SERVICE_JOB_CONTROL_SCHEMA_VERSION :: string where
  "SERVICE_JOB_CONTROL_SCHEMA_VERSION = ''service_job_control.v1''"

text \<open>\<open>_job_control_problem_response\<close>, for the errors the routes catch.\<close>

definition job_problem :: "job_exn \<Rightarrow> answer" where
  "job_problem e =
     (case e of
        JobQueueError code detail sc \<Rightarrow> Problem sc code detail (sc \<ge> 500)
      | Py _ \<Rightarrow> Escaped e)"

definition authorize_request :: "string \<Rightarrow> auth_verdict \<Rightarrow> answer option" where
  "authorize_request audience verdict =
     (case verdict of
        None \<Rightarrow> None
      | Some (code, detail) \<Rightarrow>
          Some (Problem 401 (if code = [] then ''SERVICE_CLAIM_INVALID'' else code)
            (if detail = [] then audience @ '' requires a valid service claim.'' else detail) False))"

subsection \<open>What is shown of a job\<close>

definition project_service_job_control_job :: "string \<Rightarrow> common_job \<Rightarrow> job_exn + pydict" where
  "project_service_job_control_job service j =
     sbind (check_job j) (\<lambda>_. Inr
       [(''service_id'', PStr service), (''job_schema_version'', PStr (job_schema_version j)),
        (''job_id'', PStr (job_id j)), (''job_type'', PStr (job_type j)),
        (''status'', PStr (status_text (status j))), (''trace_id'', PStr (trace_id j)),
        (''request_id'', PStr (request_id j)), (''subject_ref'', PDict (subject_ref j)),
        (''attempt_count'', PInt (attempt_count j)), (''max_attempts'', PInt (max_attempts j)),
        (''retryable'', PBool (retryable j)), (''links'', PDict (links j)), (''error'', error j),
        (''available_at'', (case available_at j of None \<Rightarrow> PNone | Some a \<Rightarrow> PStr a)),
        (''created_at'', PStr (created_at j)), (''updated_at'', PStr (updated_at j))])"

definition allowed_actions :: "bool \<Rightarrow> bool \<Rightarrow> bool \<Rightarrow> string list" where
  "allowed_actions can_cancel can_retry can_replay =
     [''read''] @ (if can_cancel then [''cancel''] else []) @ (if can_retry then [''retry''] else []) @
     (if can_replay then [''replay''] else [])"

record job_controls =
  can_cancel :: bool
  can_retry :: bool
  can_replay :: bool
  ctl_terminal :: bool
  ctl_dead_lettered :: bool
  ctl_allowed :: "string list"

definition build_service_job_controls :: "common_job \<Rightarrow> job_controls" where
  "build_service_job_controls j =
     (let dead = dead_lettered (error j);
          c = (status j \<in> set ACTIVE_JOB_STATUSES);
          r = (status j = RUNNING);
          p = (status j = FAILED \<and> dead)
      in \<lparr>can_cancel = c, can_retry = r, can_replay = p, ctl_terminal = terminal (status j),
          ctl_dead_lettered = (status j = FAILED \<and> dead), ctl_allowed = allowed_actions c r p\<rparr>)"

definition controls_dict :: "job_controls \<Rightarrow> pydict" where
  "controls_dict c =
     [(''can_cancel'', PBool (can_cancel c)), (''can_retry'', PBool (can_retry c)),
      (''can_replay'', PBool (can_replay c)), (''terminal'', PBool (ctl_terminal c)),
      (''dead_lettered'', PBool (ctl_dead_lettered c)),
      (''allowed_actions'', PList (map PStr (ctl_allowed c)))]"

definition build_service_job_control_response :: "string \<Rightarrow> string \<Rightarrow> common_job \<Rightarrow> job_exn + pydict" where
  "build_service_job_control_response service act j =
     sbind (project_service_job_control_job service j) (\<lambda>shown. Inr
       [(''job_control_schema_version'', PStr SERVICE_JOB_CONTROL_SCHEMA_VERSION),
        (''service_id'', PStr service), (''action'', PStr act), (''job'', PDict shown),
        (''controls'', PDict (controls_dict (build_service_job_controls j)))])"

definition project_replay_source_job :: "string \<Rightarrow> common_job \<Rightarrow> job_exn + pydict" where
  "project_replay_source_job service j =
     sbind (project_service_job_control_job service j) (\<lambda>shown.
       let code = (case error j of PDict d \<Rightarrow> dget d ''error_code'' | _ \<Rightarrow> PNone) in Inr
       ([(''service_id'', PStr service)] @
        map (\<lambda>k. (k, dget shown k)) [''job_id'', ''job_type'', ''status'', ''trace_id'', ''request_id'',
          ''subject_ref'', ''attempt_count'', ''max_attempts'', ''retryable''] @
        [(''source_error_code'', if truthy code then PStr (py_text code) else PNone),
         (''dead_lettered'', PBool (dead_lettered (error j)))]))"

definition build_service_job_replay_response ::
  "string \<Rightarrow> common_job \<Rightarrow> common_job \<Rightarrow> job_replay_decision \<Rightarrow> job_exn + pydict" where
  "build_service_job_replay_response service source replayed decision =
     sbind (build_service_job_control_response service ''replay'' replayed) (\<lambda>response.
     sbind (project_replay_source_job service source) (\<lambda>shown. Inr
       (response @ [(''replay'', PDict
          [(''action'', PStr ''CREATE_NEW_JOB''), (''source_job'', PDict shown),
           (''source_job_id'', PStr (source_job_id decision)),
           (''replay_job_id'', PStr (job_id replayed)), (''lineage'', PDict (lineage decision))])])))"

definition answer_of :: "job_exn + pydict \<Rightarrow> answer" where
  "answer_of r = (case r of Inl e \<Rightarrow> Escaped e | Inr d \<Rightarrow> Served d)"

subsection \<open>Reading the payload\<close>

definition optional_timestamp :: "pydict option \<Rightarrow> job_exn + string option" where
  "optional_timestamp body =
     (case body of
        None \<Rightarrow> Inr None
      | Some d \<Rightarrow>
          (case dget d ''observed_at'' of
             PNone \<Rightarrow> Inr None
           | PStr s \<Rightarrow>
               if s = [] then Inl (JobQueueError ''job_control.observed_at_invalid''
                 ''observed_at must be a non-empty string when supplied.'' 422)
               else Inr (Some s)
           | _ \<Rightarrow> Inl (JobQueueError ''job_control.observed_at_invalid''
               ''observed_at must be a non-empty string when supplied.'' 422)))"

definition manual_retry_error :: "pydict option \<Rightarrow> job_exn + pydict" where
  "manual_retry_error body =
     (let source = (case body of None \<Rightarrow> [] | Some d \<Rightarrow> d) in
      build_job_error (get_text source ''error_code'' ''job.manual_retry_requested'')
        (get_text source ''detail'' ''Manual retry requested.'') True False)"

definition required_payload_string :: "pydict option \<Rightarrow> string \<Rightarrow> job_exn + string" where
  "required_payload_string body key =
     (let bad = Inl (JobQueueError ''job_control.replay_payload_invalid''
            (key @ '' must be a non-empty string.'') 422) in
      case body of
        None \<Rightarrow> bad
      | Some d \<Rightarrow>
          (case map_of d key of
             Some (PStr s) \<Rightarrow> if s = [] then bad else Inr s
           | _ \<Rightarrow> bad))"

subsection \<open>The routes\<close>

definition get_service_job ::
  "'s job_queue \<Rightarrow> string \<Rightarrow> string \<Rightarrow> auth_verdict \<Rightarrow> 's \<Rightarrow> string \<Rightarrow> answer \<times> 's" where
  "get_service_job Q service audience verdict s i =
     (case authorize_request audience verdict of
        Some problem \<Rightarrow> (problem, s)
      | None \<Rightarrow>
          (case q_get Q s i of
             None \<Rightarrow> (job_problem (not_found i), s)
           | Some j \<Rightarrow> (answer_of (build_service_job_control_response service ''read'' j), s)))"

definition cancel_service_job ::
  "'s job_queue \<Rightarrow> string \<Rightarrow> string \<Rightarrow> auth_verdict \<Rightarrow> string \<Rightarrow> 's \<Rightarrow> string \<Rightarrow> pydict option \<Rightarrow> answer \<times> 's" where
  "cancel_service_job Q service audience verdict now s i body =
     (case authorize_request audience verdict of
        Some problem \<Rightarrow> (problem, s)
      | None \<Rightarrow>
          (case sbind (optional_timestamp body) (\<lambda>at_time. q_cancel Q s i at_time now) of
             Inl e \<Rightarrow> (job_problem e, s)
           | Inr (j, s') \<Rightarrow> (answer_of (build_service_job_control_response service ''cancel'' j), s')))"

definition retry_service_job ::
  "'s job_queue \<Rightarrow> string \<Rightarrow> string \<Rightarrow> job_retry_policy option \<Rightarrow> auth_verdict \<Rightarrow> string \<Rightarrow> 's \<Rightarrow> string
    \<Rightarrow> pydict option \<Rightarrow> answer \<times> 's" where
  "retry_service_job Q service audience policy verdict now s i body =
     (case authorize_request audience verdict of
        Some problem \<Rightarrow> (problem, s)
      | None \<Rightarrow>
          (case sbind (manual_retry_error body) (\<lambda>err.
                sbind (optional_timestamp body) (\<lambda>at_time. q_retry Q s i (Some err) at_time policy now)) of
             Inl e \<Rightarrow> (job_problem e, s)
           | Inr (j, s') \<Rightarrow> (answer_of (build_service_job_control_response service ''retry'' j), s')))"

text \<open>The decision and the job the queue gives back, before the response is built.\<close>

definition replay_and_enqueue ::
  "'s job_queue \<Rightarrow> string \<Rightarrow> 's \<Rightarrow> string \<Rightarrow> pydict option
    \<Rightarrow> job_exn + common_job \<times> job_replay_decision \<times> common_job \<times> 's" where
  "replay_and_enqueue Q now s i body =
     (case q_get Q s i of
        None \<Rightarrow> Inl (not_found i)
      | Some source \<Rightarrow>
          sbind (required_payload_string body ''replay_job_id'') (\<lambda>rid.
          sbind (required_payload_string body ''idempotency_key'') (\<lambda>key.
          sbind (required_payload_string body ''requested_by'') (\<lambda>who.
          sbind (required_payload_string body ''reason'') (\<lambda>why.
          sbind (optional_timestamp body) (\<lambda>at_time.
          sbind (plan_dead_letter_replay source (PStr rid) (PStr key) (PStr who) (PStr why) at_time now None)
            (\<lambda>decision.
          sbind (q_enqueue Q s (replay_job decision)) (\<lambda>(j, s').
            Inr (source, decision, j, s')))))))))"

definition replay_service_job ::
  "'s job_queue \<Rightarrow> string \<Rightarrow> string \<Rightarrow> auth_verdict \<Rightarrow> string \<Rightarrow> 's \<Rightarrow> string \<Rightarrow> pydict option \<Rightarrow> answer \<times> 's" where
  "replay_service_job Q service audience verdict now s i body =
     (case authorize_request audience verdict of
        Some problem \<Rightarrow> (problem, s)
      | None \<Rightarrow>
          (case replay_and_enqueue Q now s i body of
             Inl e \<Rightarrow> (job_problem e, s)
           | Inr (source, decision, j, s') \<Rightarrow>
               (answer_of (build_service_job_replay_response service source j decision), s')))"

subsection \<open>The routes over any lawful queue\<close>

lemma authorize_request_None [simp]: "authorize_request a v = None \<longleftrightarrow> v = None"
  by (auto simp: authorize_request_def split: option.splits)

lemma project_Inr:
  "project_service_job_control_job service j = Inr d \<Longrightarrow> job_wf j \<and> map_of d ''payload'' = None \<and>
    map_of d ''idempotency_key'' = None \<and> map_of d ''replay_lineage'' = None"
  by (auto simp: project_service_job_control_job_def res_simps)

lemma response_served:
  assumes "job_wf j"
  shows "\<exists>d. build_service_job_control_response service act j = Inr d"
  using assms by (simp add: build_service_job_control_response_def project_service_job_control_job_def)

lemma replay_response_served:
  assumes "job_wf j" "job_wf source"
  shows "\<exists>d. build_service_job_replay_response service source j dec = Inr d"
  using assms response_served [of j service "''replay''"]
  by (auto simp: build_service_job_replay_response_def project_replay_source_job_def
      project_service_job_control_job_def Let_def)

lemma replay_obtain:
  assumes "replay_and_enqueue Q now s i body = Inr (source, dec, j, s')"
  obtains rid key who why at_time where "q_get Q s i = Some source"
    "optional_timestamp body = Inr at_time"
    "required_payload_string body ''replay_job_id'' = Inr rid"
    "required_payload_string body ''idempotency_key'' = Inr key"
    "plan_dead_letter_replay source (PStr rid) (PStr key) (PStr who) (PStr why) at_time now None = Inr dec"
    "q_enqueue Q s (replay_job dec) = Inr (j, s')"
  using assms by (auto simp: replay_and_enqueue_def res_simps)

context job_queue_laws
begin

text \<open>No route breaks the queue, and no answer of a route lets an exception of the queue's own escape.\<close>

lemma route_cancel:
  assumes inv: "inv s" and run: "cancel_service_job Q service audience verdict now s i body = (a, s')"
  shows "inv s' \<and> (s' = s \<or> (\<exists>j j'. verdict = None \<and> q_get Q s i = Some j \<and> (j' = j \<or> job_step j j') \<and>
    status j' = CANCELLED \<and> q_get Q s' = (q_get Q s)(i := Some j') \<and> (\<exists>d. a = Served d)))"
proof (cases "verdict = None")
  case True
  show ?thesis
  proof (cases "sbind (optional_timestamp body) (\<lambda>at_time. q_cancel Q s i at_time now)")
    case (Inl e)
    with True run inv show ?thesis by (simp add: cancel_service_job_def authorize_request_def)
  next
    case (Inr r)
    then obtain j' t at_time where r: "q_cancel Q s i at_time now = Inr (j', t)" "r = (j', t)"
      by (cases r) (auto simp: res_simps)
    from cancel_law [OF inv r(1)] have law: "inv t" "status j' = CANCELLED"
      "\<exists>j. q_get Q s i = Some j \<and> (j' = j \<or> job_step j j')" "q_get Q t = (q_get Q s)(i := Some j')" by auto
    with get_wf [OF law(1), of i j'] have "job_wf j'" by simp
    then obtain d where "build_service_job_control_response service ''cancel'' j' = Inr d"
      using response_served by blast
    with True run Inr r(2) law show ?thesis
      by (auto simp: cancel_service_job_def authorize_request_def answer_of_def)
  qed
next
  case False
  with run inv show ?thesis by (auto simp: cancel_service_job_def authorize_request_def split: prod.splits)
qed

lemma route_retry:
  assumes inv: "inv s" and run: "retry_service_job Q service audience policy verdict now s i body = (a, s')"
  shows "inv s' \<and> (s' = s \<or> (\<exists>j j'. verdict = None \<and> q_get Q s i = Some j \<and> job_step j j' \<and>
    (status j' = QUEUED \<or> status j' = FAILED \<and> dead_lettered (error j')) \<and>
    q_get Q s' = (q_get Q s)(i := Some j') \<and> (\<exists>d. a = Served d)))"
proof (cases "verdict = None")
  case True
  show ?thesis
  proof (cases "sbind (manual_retry_error body) (\<lambda>err.
        sbind (optional_timestamp body) (\<lambda>at_time. q_retry Q s i (Some err) at_time policy now))")
    case (Inl e)
    with True run inv show ?thesis by (simp add: retry_service_job_def authorize_request_def)
  next
    case (Inr r)
    then obtain j' t at_time err where r: "q_retry Q s i (Some err) at_time policy now = Inr (j', t)" "r = (j', t)"
      by (cases r) (auto simp: res_simps)
    from retry_law [OF inv r(1)] have law: "inv t"
      "status j' = QUEUED \<or> status j' = FAILED \<and> dead_lettered (error j')"
      "\<exists>j. q_get Q s i = Some j \<and> job_step j j'" "q_get Q t = (q_get Q s)(i := Some j')" by auto
    with get_wf [OF law(1), of i j'] have "job_wf j'" by simp
    then obtain d where "build_service_job_control_response service ''retry'' j' = Inr d"
      using response_served by blast
    with True run Inr r(2) law show ?thesis
      by (auto simp: retry_service_job_def authorize_request_def answer_of_def)
  qed
next
  case False
  with run inv show ?thesis by (auto simp: retry_service_job_def authorize_request_def split: prod.splits)
qed

text \<open>
  A replay enqueues one new job with the source's work, or finds a job under the given key; the
  source is unchanged.
\<close>

lemma route_replay:
  assumes inv: "inv s" and run: "replay_and_enqueue Q now s i body = Inr (source, dec, j, s')"
  shows "inv s' \<and> q_get Q s i = Some source \<and> status source = FAILED \<and> dead_lettered (error source) \<and>
    job_type j = job_type source \<and> idempotency_key j = idempotency_key (replay_job dec) \<and>
    q_get Q s' (job_id j) = Some j \<and> q_get Q s' i = Some source \<and>
    (q_get Q s' = q_get Q s \<or> q_get Q s (job_id j) = None \<and> status j = QUEUED)"
proof -
  from run obtain rid key who why at_time where *: "q_get Q s i = Some source"
    "plan_dead_letter_replay source (PStr rid) (PStr key) (PStr who) (PStr why) at_time now None = Inr dec"
    "q_enqueue Q s (replay_job dec) = Inr (j, s')"
    by (rule replay_obtain)
  have policy: "require_dead_lettered (case None of None \<Rightarrow> default_replay_policy | Some p \<Rightarrow> p)"
    by (simp add: default_replay_policy_def)
  note p = plan_replay_Inr [OF *(2)]
  from enqueue_law [OF inv *(3)] p *(1) policy show ?thesis by auto
qed

end

subsection \<open>The controls offered\<close>

lemma controls_cancel: "can_cancel (build_service_job_controls j) \<longleftrightarrow> \<not> terminal (status j)"
  by (cases "status j") (simp_all add: build_service_job_controls_def ACTIVE_JOB_STATUSES_def
      TERMINAL_JOB_STATUSES_def Let_def)

text \<open>A cancel changes a stored job exactly when the controls offer it.\<close>

lemma memory_cancel_offered:
  assumes "queue_inv q" "get_job q i = Some j"
  shows "can_cancel (build_service_job_controls j) \<longleftrightarrow>
    (\<exists>j' q'. cancel_job q i upd now = Inr (j', q') \<and> status j' \<noteq> status j)"
proof -
  have "job_wf j" using queue_invD(3) [OF assms(1)] assms(2) by (simp add: get_job_def)
  with assms(2) show ?thesis
    unfolding controls_cancel
    by (cases "status j") (auto simp: cancel_job_def transition_queue_Inr transition_Inr TERMINAL_JOB_STATUSES_def)
qed

text \<open>No answer about a job shows its payload or its idempotency key.\<close>

lemma response_hides:
  assumes "build_service_job_control_response service act j = Inr d" "map_of d ''job'' = Some (PDict shown)"
  shows "map_of shown ''payload'' = None \<and> map_of shown ''idempotency_key'' = None"
  using assms project_Inr [of service j]
  by (auto simp: build_service_job_control_response_def res_simps)

subsection \<open>Replays on the in-memory queue\<close>

text \<open>
  A replay whose \<open>observed_at\<close> is not a time enqueues a job that makes every later claim of the
  in-memory queue raise.
\<close>

lemma replay_poisons:
  assumes inv: "queue_inv q" and run: "replay_and_enqueue memory_ops now q i body = Inr (source, dec, j, q')"
    and new: "get_job q (job_id j) = None"
    and t: "optional_timestamp body = Inr (Some w)" "parse_wire_datetime w = Inl e"
    and worker: "worker \<noteq> []"
  shows "\<exists>p. claim_next_job q' worker jtype upd n = Inl (Py p)"
proof -
  obtain rid key who why where *:
    "plan_dead_letter_replay source (PStr rid) (PStr key) (PStr who) (PStr why) (Some w) now None = Inr dec"
    "enqueue q (replay_job dec) = Inr (j, q')"
    using replay_obtain [OF run] t(1) by (metis memory_ops_simps(2) sum.inject(2))
  note p = plan_replay_Inr [OF *(1)]
  from enqueue_Inr [OF inv *(2)] new have j: "j = replay_job dec" "get_job q' (job_id j) = Some j" by auto
  have "w \<noteq> []" using t(1) by (auto simp: optional_timestamp_def split: option.splits pyval.splits if_splits)
  then have w: "or_default (Some w) now = w" by (cases w) auto
  have "effective_available j = w" using p(18,19,20) w by (simp add: j(1) effective_available_def)
  then have "poisons j (or_default upd n)"
    using p(5,8,9,10) t(2) by (auto simp: poisons_def readable_def j(1) job_wf_def)
  from claim_poisoned [OF j(2) this worker] show ?thesis .
qed

text \<open>
  A replay under the source's own idempotency key creates nothing: the queue answers with the dead
  job itself.
\<close>

lemma replay_same_key:
  assumes inv: "queue_inv q" and run: "replay_and_enqueue memory_ops now q i body = Inr (source, dec, j, q')"
    and key: "required_payload_string body ''idempotency_key'' = Inr (idempotency_key source)"
  shows "j = source \<and> q' = q"
proof -
  obtain rid key' who why at_time where *: "get_job q i = Some source"
    "required_payload_string body ''idempotency_key'' = Inr key'"
    "plan_dead_letter_replay source (PStr rid) (PStr key') (PStr who) (PStr why) at_time now None = Inr dec"
    "enqueue q (replay_job dec) = Inr (j, q')"
    using replay_obtain [OF run] by (metis memory_ops_simps(1,2))
  note p = plan_replay_Inr [OF *(3)]
  have "idempotency_key (replay_job dec) = idempotency_key source" "job_type (replay_job dec) = job_type source"
    using p(7,11) *(2) key by simp_all
  moreover have "map_of (idempotency_index q) (job_type source, idempotency_key source) = Some i"
    using queue_invD(4) [OF inv] *(1) unfolding get_job_def by blast
  ultimately show ?thesis
    using *(1,4) by (auto simp: enqueue_def get_job_def res_simps Let_def)
qed

end
