(* ===== verification/Worker_Contracts.thy ===== *)
theory Worker_Contracts
  imports Common_Job
begin

section \<open>The CX worker execution contract\<close>

text \<open>
  \<^verbatim>\<open>services/nex-cx/nex_cx/worker_contracts.py\<close>: the execution a CX worker holds for a claimed
  job, its validation, its state machine and its projection. A validated execution is a record;
  its time fields hold instants, whose wire form is the string the code keeps.
\<close>

subsection \<open>States\<close>

datatype execution_state =
  X_CLAIMED | X_RUNNING | X_CANCELLATION_REQUESTED | X_SUCCEEDED | X_RETRY_SCHEDULED | X_DEAD_LETTERED | X_CANCELLED

fun execution_state_text :: "execution_state \<Rightarrow> string" where
  "execution_state_text X_CLAIMED = ''CLAIMED''"
| "execution_state_text X_RUNNING = ''RUNNING''"
| "execution_state_text X_CANCELLATION_REQUESTED = ''CANCELLATION_REQUESTED''"
| "execution_state_text X_SUCCEEDED = ''SUCCEEDED''"
| "execution_state_text X_RETRY_SCHEDULED = ''RETRY_SCHEDULED''"
| "execution_state_text X_DEAD_LETTERED = ''DEAD_LETTERED''"
| "execution_state_text X_CANCELLED = ''CANCELLED''"

definition ACTIVE_EXECUTION_STATES :: "execution_state list" where
  "ACTIVE_EXECUTION_STATES = [X_CLAIMED, X_RUNNING, X_CANCELLATION_REQUESTED]"

definition TERMINAL_EXECUTION_STATES :: "execution_state list" where
  "TERMINAL_EXECUTION_STATES = [X_SUCCEEDED, X_RETRY_SCHEDULED, X_DEAD_LETTERED, X_CANCELLED]"

definition EXECUTION_STATES :: "execution_state list" where
  "EXECUTION_STATES = ACTIVE_EXECUTION_STATES @ TERMINAL_EXECUTION_STATES"

fun VALID_EXECUTION_TRANSITIONS :: "execution_state \<Rightarrow> execution_state list" where
  "VALID_EXECUTION_TRANSITIONS X_CLAIMED =
     [X_RUNNING, X_CANCELLATION_REQUESTED, X_RETRY_SCHEDULED, X_DEAD_LETTERED, X_CANCELLED]"
| "VALID_EXECUTION_TRANSITIONS X_RUNNING =
     [X_CANCELLATION_REQUESTED, X_SUCCEEDED, X_RETRY_SCHEDULED, X_DEAD_LETTERED]"
| "VALID_EXECUTION_TRANSITIONS X_CANCELLATION_REQUESTED =
     [X_SUCCEEDED, X_RETRY_SCHEDULED, X_DEAD_LETTERED, X_CANCELLED]"
| "VALID_EXECUTION_TRANSITIONS X_SUCCEEDED = []"
| "VALID_EXECUTION_TRANSITIONS X_RETRY_SCHEDULED = []"
| "VALID_EXECUTION_TRANSITIONS X_DEAD_LETTERED = []"
| "VALID_EXECUTION_TRANSITIONS X_CANCELLED = []"

definition CURRENT_CX_WORKLOADS :: "(string \<times> string) list" where
  "CURRENT_CX_WORKLOADS =
     [(''grounded_generation'', ''cx.grounded-generation.execute''),
      (''document_ingestion'', ''cx.document_ingestion''),
      (''document_processing'', ''cx.document_processing''),
      (''remediation_execution'', ''cx.remediation_execution'')]"

definition CX_WORKER_EXECUTION_SCHEMA_VERSION :: string where
  "CX_WORKER_EXECUTION_SCHEMA_VERSION = ''cx_worker_execution.v1''"

datatype contract_exn = ContractError string string int | Contract_Py py_error

abbreviation contract_error :: "string \<Rightarrow> string \<Rightarrow> int \<Rightarrow> contract_exn" where
  "contract_error c d s \<equiv> ContractError (''cx.worker_execution.'' @ c) d s"

subsection \<open>Field checks\<close>

definition contract_string :: "pyval \<Rightarrow> string \<Rightarrow> contract_exn + string" where
  "contract_string v f =
     (case v of
        PStr s \<Rightarrow> if py_strip s \<noteq> [] then Inr (py_strip s)
          else Inl (contract_error ''field_invalid'' (f @ '' must be a non-empty string.'') 422)
      | _ \<Rightarrow> Inl (contract_error ''field_invalid'' (f @ '' must be a non-empty string.'') 422))"

definition bounded_positive_int :: "pyval \<Rightarrow> string \<Rightarrow> int option \<Rightarrow> contract_exn + int" where
  "bounded_positive_int v f bound =
     (case v of
        PInt i \<Rightarrow>
          if i < 1 then Inl (contract_error ''integer_invalid'' (f @ '' must be a positive integer.'') 422)
          else (case bound of
             None \<Rightarrow> Inr i
           | Some m \<Rightarrow> if i > m then Inl (contract_error ''integer_too_large'' (f @ '' must be at most '' @ show_int m @ ''.'') 422)
               else Inr i)
      | _ \<Rightarrow> Inl (contract_error ''integer_invalid'' (f @ '' must be a positive integer.'') 422))"

text \<open>\<open>_timestamp\<close>; the \<open>OverflowError\<close> of \<open>astimezone\<close> is not translated.\<close>

definition contract_time :: "pyval \<Rightarrow> string \<Rightarrow> contract_exn + int" where
  "contract_time v f =
     (case v of
        PStr s \<Rightarrow>
          (case parse_wire_datetime s of
             Inr t \<Rightarrow> Inr t
           | Inl ValueError \<Rightarrow> Inl (contract_error ''timestamp_invalid'' (f @ '' must be an ISO-8601 timestamp.'') 422)
           | Inl e \<Rightarrow> Inl (Contract_Py e))
      | _ \<Rightarrow> Inl (contract_error ''timestamp_invalid'' (f @ '' must be an ISO-8601 timestamp.'') 422))"

definition optional_time :: "pyval \<Rightarrow> string \<Rightarrow> contract_exn + int option" where
  "optional_time v f = (if v = PNone then Inr None else sbind (contract_time v f) (\<lambda>t. Inr (Some t)))"

definition optional_text :: "pyval \<Rightarrow> string \<Rightarrow> contract_exn + string option" where
  "optional_text v f = (if v = PNone then Inr None else sbind (contract_string v f) (\<lambda>s. Inr (Some s)))"

definition execution_state_of :: "pyval \<Rightarrow> contract_exn + execution_state" where
  "execution_state_of v =
     sbind (contract_string v ''state'') (\<lambda>s.
       case find (\<lambda>x. s = execution_state_text x) EXECUTION_STATES of
         None \<Rightarrow> Inl (contract_error ''state_invalid'' (''unsupported CX worker execution state: '' @ s) 422)
       | Some x \<Rightarrow> Inr x)"

record execution_policy =
  lease_ttl_seconds :: int
  cancellation_check_interval_seconds :: int
  max_batch_jobs :: int

definition make_execution_policy :: "int \<Rightarrow> int \<Rightarrow> int \<Rightarrow> contract_exn + execution_policy" where
  "make_execution_policy ttl interval batch =
     sbind (bounded_positive_int (PInt ttl) ''lease_ttl_seconds'' None) (\<lambda>a.
     sbind (bounded_positive_int (PInt interval) ''cancellation_check_interval_seconds'' None) (\<lambda>b.
     sbind (bounded_positive_int (PInt batch) ''max_batch_jobs'' (Some 100)) (\<lambda>c.
     Inr \<lparr>lease_ttl_seconds = a, cancellation_check_interval_seconds = b, max_batch_jobs = c\<rparr>)))"

subsection \<open>The execution\<close>

record cx_execution =
  ex_id :: string
  ex_job :: string
  ex_job_type :: string
  ex_workload :: string
  ex_worker :: string
  ex_worker_type :: string
  ex_state :: execution_state
  ex_version :: int
  ex_attempt :: int
  ex_max :: int
  ex_retryable :: bool
  ex_trace :: string
  ex_request :: string
  ex_subject_type :: string
  ex_subject_id :: string
  ex_lease :: "int option"
  ex_cancel :: "int option"
  ex_error :: "string option"
  ex_started :: int
  ex_updated :: int
  ex_completed :: "int option"

definition execution_fields :: "string list" where
  "execution_fields = [''execution_schema_version'', ''execution_id'', ''job_id'', ''job_type'', ''workload'',
     ''worker_id'', ''worker_type'', ''state'', ''state_version'', ''attempt_count'', ''max_attempts'',
     ''retryable'', ''trace_id'', ''request_id'', ''subject_ref'', ''lease_expires_at'',
     ''cancellation_requested_at'', ''error_code'', ''started_at'', ''updated_at'', ''completed_at'']"

definition validate_state_fields :: "cx_execution \<Rightarrow> contract_exn + cx_execution" where
  "validate_state_fields e =
     (if ex_state e \<in> set ACTIVE_EXECUTION_STATES \<and> ex_lease e = None then
        Inl (contract_error ''lease_required'' ''active worker executions require lease_expires_at.'' 422)
      else if ex_state e \<in> set TERMINAL_EXECUTION_STATES \<and> ex_completed e = None then
        Inl (contract_error ''completed_at_required'' ''terminal worker executions require completed_at.'' 422)
      else if ex_state e = X_CANCELLATION_REQUESTED \<and> ex_cancel e = None then
        Inl (contract_error ''cancellation_time_required''
          ''cancellation_requested_at is required for cancellation state.'' 422)
      else if ex_state e \<in> {X_RETRY_SCHEDULED, X_DEAD_LETTERED} \<and> ex_error e = None then
        Inl (contract_error ''error_code_required'' ''retry and dead-letter outcomes require error_code.'' 422)
      else Inr e)"

definition validate_cx_worker_execution :: "pydict \<Rightarrow> contract_exn + cx_execution" where
  "validate_cx_worker_execution d =
     (let missing = filter (\<lambda>f. map_of d f = None) execution_fields in
      if missing \<noteq> [] then
        Inl (contract_error ''fields_missing'' (''worker execution is missing fields: '' @ join '', '' missing) 422)
      else if dget d ''execution_schema_version'' \<noteq> PStr CX_WORKER_EXECUTION_SCHEMA_VERSION then
        Inl (contract_error ''schema_version_invalid'' ''execution_schema_version is unsupported.'' 422)
      else
        sbind (contract_string (dget d ''execution_id'') ''execution_id'') (\<lambda>xid.
        sbind (contract_string (dget d ''job_id'') ''job_id'') (\<lambda>job.
        sbind (contract_string (dget d ''job_type'') ''job_type'') (\<lambda>jtype.
        sbind (contract_string (dget d ''workload'') ''workload'') (\<lambda>workload.
        sbind (contract_string (dget d ''worker_id'') ''worker_id'') (\<lambda>worker.
        sbind (contract_string (dget d ''worker_type'') ''worker_type'') (\<lambda>wtype.
        sbind (contract_string (dget d ''trace_id'') ''trace_id'') (\<lambda>trace.
        sbind (contract_string (dget d ''request_id'') ''request_id'') (\<lambda>request.
        sbind (execution_state_of (dget d ''state'')) (\<lambda>st.
        sbind (bounded_positive_int (dget d ''state_version'') ''state_version'' None) (\<lambda>version.
        sbind (bounded_positive_int (dget d ''attempt_count'') ''attempt_count'' None) (\<lambda>attempt.
        sbind (bounded_positive_int (dget d ''max_attempts'') ''max_attempts'' None) (\<lambda>limit.
        if attempt > limit then
          Inl (contract_error ''attempt_invalid'' ''attempt_count must not exceed max_attempts.'' 422)
        else (case py_bool (dget d ''retryable'') of
          None \<Rightarrow> Inl (contract_error ''retryable_invalid'' ''retryable must be a boolean.'' 422)
        | Some r \<Rightarrow>
        (case py_dict (dget d ''subject_ref'') of
          None \<Rightarrow> Inl (contract_error ''subject_ref_invalid'' ''subject_ref must be an object.'' 422)
        | Some ref \<Rightarrow>
        sbind (contract_string (dget ref ''type'') ''subject_ref.type'') (\<lambda>rtype.
        sbind (contract_string (dget ref ''id'') ''subject_ref.id'') (\<lambda>rid.
        sbind (contract_time (dget d ''started_at'') ''started_at'') (\<lambda>started.
        sbind (contract_time (dget d ''updated_at'') ''updated_at'') (\<lambda>updated.
        sbind (optional_time (dget d ''lease_expires_at'') ''lease_expires_at'') (\<lambda>lease.
        sbind (optional_time (dget d ''cancellation_requested_at'') ''cancellation_requested_at'') (\<lambda>cancel.
        sbind (optional_time (dget d ''completed_at'') ''completed_at'') (\<lambda>completed.
        sbind (optional_text (dget d ''error_code'') ''error_code'') (\<lambda>err.
        validate_state_fields
          \<lparr>ex_id = xid, ex_job = job, ex_job_type = jtype, ex_workload = workload, ex_worker = worker,
           ex_worker_type = wtype, ex_state = st, ex_version = version, ex_attempt = attempt, ex_max = limit,
           ex_retryable = r, ex_trace = trace, ex_request = request, ex_subject_type = rtype, ex_subject_id = rid,
           ex_lease = lease, ex_cancel = cancel, ex_error = err, ex_started = started, ex_updated = updated,
           ex_completed = completed\<rparr>)))))))))))))))))))))))"

definition time_value :: "int option \<Rightarrow> pyval" where
  "time_value t = (case t of None \<Rightarrow> PNone | Some t \<Rightarrow> PStr (wire_timestamp t))"

definition text_value :: "string option \<Rightarrow> pyval" where
  "text_value t = (case t of None \<Rightarrow> PNone | Some s \<Rightarrow> PStr s)"

text \<open>\<open>project_cx_worker_execution\<close>: the dictionary of a validated execution.\<close>

definition execution_to_dict :: "cx_execution \<Rightarrow> pydict" where
  "execution_to_dict e =
     [(''execution_schema_version'', PStr CX_WORKER_EXECUTION_SCHEMA_VERSION), (''execution_id'', PStr (ex_id e)),
      (''job_id'', PStr (ex_job e)), (''job_type'', PStr (ex_job_type e)), (''workload'', PStr (ex_workload e)),
      (''worker_id'', PStr (ex_worker e)), (''worker_type'', PStr (ex_worker_type e)),
      (''state'', PStr (execution_state_text (ex_state e))), (''state_version'', PInt (ex_version e)),
      (''attempt_count'', PInt (ex_attempt e)), (''max_attempts'', PInt (ex_max e)),
      (''retryable'', PBool (ex_retryable e)), (''trace_id'', PStr (ex_trace e)), (''request_id'', PStr (ex_request e)),
      (''subject_ref'', PDict [(''type'', PStr (ex_subject_type e)), (''id'', PStr (ex_subject_id e))]),
      (''lease_expires_at'', time_value (ex_lease e)), (''cancellation_requested_at'', time_value (ex_cancel e)),
      (''error_code'', text_value (ex_error e)), (''started_at'', PStr (wire_timestamp (ex_started e))),
      (''updated_at'', PStr (wire_timestamp (ex_updated e))), (''completed_at'', time_value (ex_completed e))]"

definition project_cx_worker_execution :: "pydict \<Rightarrow> contract_exn + pydict" where
  "project_cx_worker_execution d =
     sbind (validate_cx_worker_execution d) (\<lambda>e. Inr (execution_to_dict e))"

subsection \<open>Building and moving an execution\<close>

definition running_job :: "common_job \<Rightarrow> contract_exn + common_job" where
  "running_job job =
     (case check_job job of
        Inl (JobQueueError _ detail _) \<Rightarrow> Inl (contract_error ''job_invalid'' detail 422)
      | Inl (Py e) \<Rightarrow> Inl (contract_error ''job_invalid'' ''job is invalid.'' 422)
      | Inr _ \<Rightarrow>
          if status job \<noteq> RUNNING then
            Inl (contract_error ''job_not_running'' ''job must be atomically claimed before worker execution.'' 409)
          else Inr job)"

definition build_cx_worker_execution ::
  "common_job \<Rightarrow> string \<Rightarrow> string \<Rightarrow> string \<Rightarrow> string \<Rightarrow> string option \<Rightarrow> string \<Rightarrow> contract_exn + cx_execution" where
  "build_cx_worker_execution job worker wtype workload lease_expires observed now =
     sbind (running_job job) (\<lambda>j.
     sbind (contract_string (PStr workload) ''workload'') (\<lambda>w.
     case map_of CURRENT_CX_WORKLOADS w of
       None \<Rightarrow> Inl (contract_error ''workload_invalid'' ''workload must name a registered CX worker workload.'' 422)
     | Some expected \<Rightarrow>
     if job_type j \<noteq> expected then
       Inl (contract_error ''job_type_mismatch'' ''job_type does not match the selected CX workload.'' 409)
     else
     sbind (contract_time (PStr (or_default observed now)) ''observed_at'') (\<lambda>obs.
     sbind (contract_time (PStr lease_expires) ''lease_expires_at'') (\<lambda>expiry.
     if expiry \<le> obs then
       Inl (contract_error ''lease_expired'' ''lease_expires_at must be later than observed_at.'' 409)
     else
     sbind (contract_string (PStr worker) ''worker_id'') (\<lambda>wid.
     sbind (contract_string (PStr wtype) ''worker_type'') (\<lambda>wt.
     validate_cx_worker_execution
       [(''execution_schema_version'', PStr CX_WORKER_EXECUTION_SCHEMA_VERSION),
        (''execution_id'', PStr (job_id j @ '':'' @ show_int (attempt_count j))),
        (''job_id'', PStr (job_id j)), (''job_type'', PStr (job_type j)), (''workload'', PStr w),
        (''worker_id'', PStr wid), (''worker_type'', PStr wt), (''state'', PStr ''CLAIMED''),
        (''state_version'', PInt 1), (''attempt_count'', PInt (attempt_count j)),
        (''max_attempts'', PInt (max_attempts j)), (''retryable'', PBool (retryable j)),
        (''trace_id'', PStr (trace_id j)), (''request_id'', PStr (request_id j)),
        (''subject_ref'', PDict (subject_ref j)), (''lease_expires_at'', PStr (wire_timestamp expiry)),
        (''cancellation_requested_at'', PNone), (''error_code'', PNone),
        (''started_at'', PStr (wire_timestamp obs)), (''updated_at'', PStr (wire_timestamp obs)),
        (''completed_at'', PNone)]))))))"

definition transition_cx_worker_execution ::
  "pydict \<Rightarrow> pyval \<Rightarrow> string option \<Rightarrow> pyval \<Rightarrow> string \<Rightarrow> contract_exn + cx_execution" where
  "transition_cx_worker_execution d target_state observed error_code now =
     sbind (validate_cx_worker_execution d) (\<lambda>n.
     sbind (execution_state_of target_state) (\<lambda>target.
     if target = ex_state n then Inr n
     else if target \<notin> set (VALID_EXECUTION_TRANSITIONS (ex_state n)) then
       Inl (contract_error ''transition_invalid'' (''cannot transition CX worker execution from '' @
         execution_state_text (ex_state n) @ '' to '' @ execution_state_text target) 409)
     else
     sbind (contract_time (PStr (or_default observed now)) ''observed_at'') (\<lambda>obs.
     if obs < ex_updated n then
       Inl (contract_error ''time_regression'' ''worker execution timestamps must not move backwards.'' 409)
     else
     sbind (if target \<in> {X_RETRY_SCHEDULED, X_DEAD_LETTERED}
            then sbind (contract_string error_code ''error_code'') (\<lambda>c. Inr (Some c))
            else if error_code \<noteq> PNone then
              Inl (contract_error ''error_code_unexpected''
                ''error_code is only valid for retry or dead-letter outcomes.'' 422)
            else Inr (ex_error n)) (\<lambda>err.
     let moved = n\<lparr>ex_state := target, ex_version := ex_version n + 1, ex_updated := obs,
           ex_cancel := (if target = X_CANCELLATION_REQUESTED then Some obs else ex_cancel n), ex_error := err,
           ex_completed := (if target \<in> set TERMINAL_EXECUTION_STATES then Some obs else ex_completed n),
           ex_lease := (if target \<in> set TERMINAL_EXECUTION_STATES then None else ex_lease n)\<rparr>
     in validate_cx_worker_execution (execution_to_dict moved)))))"

subsection \<open>Validation\<close>

definition stripped :: "string \<Rightarrow> bool" where
  "stripped s \<longleftrightarrow> s \<noteq> [] \<and> py_strip s = s"

definition state_fields_ok :: "cx_execution \<Rightarrow> bool" where
  "state_fields_ok e \<longleftrightarrow>
     (ex_state e \<in> set ACTIVE_EXECUTION_STATES \<longrightarrow> ex_lease e \<noteq> None) \<and>
     (ex_state e \<in> set TERMINAL_EXECUTION_STATES \<longrightarrow> ex_completed e \<noteq> None) \<and>
     (ex_state e = X_CANCELLATION_REQUESTED \<longrightarrow> ex_cancel e \<noteq> None) \<and>
     (ex_state e \<in> {X_RETRY_SCHEDULED, X_DEAD_LETTERED} \<longrightarrow> ex_error e \<noteq> None)"

definition opt_all :: "('a \<Rightarrow> bool) \<Rightarrow> 'a option \<Rightarrow> bool" where
  "opt_all P v = (case v of None \<Rightarrow> True | Some x \<Rightarrow> P x)"

lemma opt_all_simps [simp]: "opt_all P None" "opt_all P (Some x) = P x"
  by (simp_all add: opt_all_def)

definition execution_wf :: "cx_execution \<Rightarrow> bool" where
  "execution_wf e \<longleftrightarrow>
     list_all stripped [ex_id e, ex_job e, ex_job_type e, ex_workload e, ex_worker e, ex_worker_type e,
       ex_trace e, ex_request e, ex_subject_type e, ex_subject_id e] \<and>
     1 \<le> ex_version e \<and> 1 \<le> ex_attempt e \<and> ex_attempt e \<le> ex_max e \<and>
     in_range (ex_started e) \<and> in_range (ex_updated e) \<and> opt_all in_range (ex_lease e) \<and>
     opt_all in_range (ex_cancel e) \<and> opt_all in_range (ex_completed e) \<and> opt_all stripped (ex_error e) \<and>
     state_fields_ok e"

lemma contract_string_Inr [res_simps]: "contract_string v f = Inr s \<longleftrightarrow> (\<exists>t. v = PStr t \<and> s = py_strip t \<and> s \<noteq> [])"
  by (auto simp: contract_string_def split: pyval.splits)

lemma contract_string_ok [simp]: "stripped s \<Longrightarrow> contract_string (PStr s) f = Inr s"
  by (simp add: contract_string_def stripped_def)

lemma bounded_int_Inr [res_simps]:
  "bounded_positive_int v f m = Inr i \<longleftrightarrow> v = PInt i \<and> 1 \<le> i \<and> opt_all (\<lambda>m. i \<le> m) m"
  by (cases v; cases m) (auto simp: bounded_positive_int_def)

lemma contract_time_Inr [res_simps]:
  "contract_time v f = Inr t \<longleftrightarrow> (\<exists>s. v = PStr s \<and> parse_wire_datetime s = Inr t)"
  by (auto simp: contract_time_def split: pyval.splits sum.splits py_error.splits)

lemma contract_time_wire [simp]: "in_range t \<Longrightarrow> contract_time (PStr (wire_timestamp t)) f = Inr t"
  by (simp add: contract_time_Inr)

lemma optional_time_Inr [res_simps]:
  "optional_time v f = Inr t \<longleftrightarrow>
    (case t of None \<Rightarrow> v = PNone | Some t \<Rightarrow> \<exists>s. v = PStr s \<and> parse_wire_datetime s = Inr t)"
  by (auto simp: optional_time_def res_simps split: option.splits)

lemma optional_time_value [simp]: "opt_all in_range t \<Longrightarrow> optional_time (time_value t) f = Inr t"
  by (cases t) (auto simp: optional_time_def time_value_def)

lemma execution_state_text_strip [simp]:
  "py_strip (execution_state_text x) = execution_state_text x" "execution_state_text x \<noteq> []"
  by (cases x; simp add: py_strip_def py_space_def)+

lemma execution_state_text_inj [simp]: "execution_state_text a = execution_state_text b \<longleftrightarrow> a = b"
  by (cases a; cases b) simp_all

lemma execution_state_of_text [simp]: "execution_state_of (PStr (execution_state_text x)) = Inr x"
proof -
  have "find (\<lambda>y. execution_state_text x = execution_state_text y) EXECUTION_STATES = Some x"
    by (cases x) (simp_all add: EXECUTION_STATES_def ACTIVE_EXECUTION_STATES_def TERMINAL_EXECUTION_STATES_def)
  then show ?thesis by (simp add: execution_state_of_def contract_string_def)
qed

lemma validate_state_fields_Inr [res_simps]: "validate_state_fields e = Inr x \<longleftrightarrow> x = e \<and> state_fields_ok e"
  by (auto simp: validate_state_fields_def state_fields_ok_def res_simps)

lemma field_checks:
  "contract_string v f = Inr s \<Longrightarrow> stripped s"
  "contract_time v f = Inr t \<Longrightarrow> in_range t"
  "optional_time v f = Inr ot \<Longrightarrow> opt_all in_range ot"
  "optional_text v f = Inr os \<Longrightarrow> opt_all stripped os"
  "bounded_positive_int v f m = Inr i \<Longrightarrow> 1 \<le> i"
  by (auto simp: contract_string_Inr stripped_def contract_time_Inr optional_time_def optional_text_def
      bounded_int_Inr sbind_eq_Inr split: if_splits dest: parse_wire_datetime_range)

lemma validate_execution_wf:
  assumes "validate_cx_worker_execution d = Inr e"
  shows "execution_wf e"
  using assms
  unfolding validate_cx_worker_execution_def Let_def sbind_eq_Inr if_Inl_eq_Inr option_Inl_eq_Inr
    validate_state_fields_Inr
  by (elim exE conjE, simp only: execution_wf_def list.pred_inject cx_execution.simps, intro conjI)
    (erule field_checks | simp)+

lemma validate_execution_to_dict:
  assumes "execution_wf e"
  shows "validate_cx_worker_execution (execution_to_dict e) = Inr e"
proof -
  have fields: "filter (\<lambda>f. map_of (execution_to_dict e) f = None) execution_fields = []"
    by (simp add: execution_to_dict_def execution_fields_def)
  have err: "optional_text (text_value (ex_error e)) ''error_code'' = Inr (ex_error e)"
    using assms by (cases "ex_error e") (auto simp: text_value_def optional_text_def execution_wf_def)
  have int: "1 \<le> i \<Longrightarrow> bounded_positive_int (PInt i) f None = Inr i" for i f
    by (simp add: bounded_int_Inr)
  have get: "dget (execution_to_dict e) ''execution_schema_version'' = PStr CX_WORKER_EXECUTION_SCHEMA_VERSION"
    "dget (execution_to_dict e) ''execution_id'' = PStr (ex_id e)" "dget (execution_to_dict e) ''job_id'' = PStr (ex_job e)"
    "dget (execution_to_dict e) ''job_type'' = PStr (ex_job_type e)"
    "dget (execution_to_dict e) ''workload'' = PStr (ex_workload e)"
    "dget (execution_to_dict e) ''worker_id'' = PStr (ex_worker e)"
    "dget (execution_to_dict e) ''worker_type'' = PStr (ex_worker_type e)"
    "dget (execution_to_dict e) ''state'' = PStr (execution_state_text (ex_state e))"
    "dget (execution_to_dict e) ''state_version'' = PInt (ex_version e)"
    "dget (execution_to_dict e) ''attempt_count'' = PInt (ex_attempt e)"
    "dget (execution_to_dict e) ''max_attempts'' = PInt (ex_max e)"
    "dget (execution_to_dict e) ''retryable'' = PBool (ex_retryable e)"
    "dget (execution_to_dict e) ''trace_id'' = PStr (ex_trace e)"
    "dget (execution_to_dict e) ''request_id'' = PStr (ex_request e)"
    "dget (execution_to_dict e) ''subject_ref'' = PDict [(''type'', PStr (ex_subject_type e)), (''id'', PStr (ex_subject_id e))]"
    "dget (execution_to_dict e) ''lease_expires_at'' = time_value (ex_lease e)"
    "dget (execution_to_dict e) ''cancellation_requested_at'' = time_value (ex_cancel e)"
    "dget (execution_to_dict e) ''error_code'' = text_value (ex_error e)"
    "dget (execution_to_dict e) ''started_at'' = PStr (wire_timestamp (ex_started e))"
    "dget (execution_to_dict e) ''updated_at'' = PStr (wire_timestamp (ex_updated e))"
    "dget (execution_to_dict e) ''completed_at'' = time_value (ex_completed e)"
    by (simp_all add: execution_to_dict_def dget_def)
  have ref: "dget [(''type'', a), (''id'', b)] ''type'' = a" "dget [(''type'', a), (''id'', b)] ''id'' = b" for a b
    by (simp_all add: dget_def)
  have wf: "stripped (ex_id e)" "stripped (ex_job e)" "stripped (ex_job_type e)" "stripped (ex_workload e)"
    "stripped (ex_worker e)" "stripped (ex_worker_type e)" "stripped (ex_trace e)" "stripped (ex_request e)"
    "stripped (ex_subject_type e)" "stripped (ex_subject_id e)" "1 \<le> ex_version e" "1 \<le> ex_attempt e" "1 \<le> ex_max e"
    "\<not> ex_max e < ex_attempt e" "in_range (ex_started e)" "in_range (ex_updated e)" "opt_all in_range (ex_lease e)"
    "opt_all in_range (ex_cancel e)" "opt_all in_range (ex_completed e)" "state_fields_ok e"
    using assms by (simp_all add: execution_wf_def)
  have self: "\<lparr>ex_id = ex_id e, ex_job = ex_job e, ex_job_type = ex_job_type e, ex_workload = ex_workload e,
      ex_worker = ex_worker e, ex_worker_type = ex_worker_type e, ex_state = ex_state e, ex_version = ex_version e,
      ex_attempt = ex_attempt e, ex_max = ex_max e, ex_retryable = ex_retryable e, ex_trace = ex_trace e,
      ex_request = ex_request e, ex_subject_type = ex_subject_type e, ex_subject_id = ex_subject_id e,
      ex_lease = ex_lease e, ex_cancel = ex_cancel e, ex_error = ex_error e, ex_started = ex_started e,
      ex_updated = ex_updated e, ex_completed = ex_completed e\<rparr> = e"
    by (cases e) simp
  show ?thesis
    unfolding validate_cx_worker_execution_def Let_def fields get ref
    by (simp add: wf int ref err self validate_state_fields_Inr)
qed

subsection \<open>The state machine\<close>

abbreviation x_terminal :: "execution_state \<Rightarrow> bool" where
  "x_terminal s \<equiv> s \<in> set TERMINAL_EXECUTION_STATES"

fun state_rank :: "execution_state \<Rightarrow> int" where
  "state_rank X_CLAIMED = 3"
| "state_rank X_RUNNING = 2"
| "state_rank X_CANCELLATION_REQUESTED = 1"
| "state_rank _ = 0"

lemma transition_rank: "t \<in> set (VALID_EXECUTION_TRANSITIONS s) \<Longrightarrow> state_rank t < state_rank s"
  by (cases s) auto

lemma state_rank_nonneg: "0 \<le> state_rank s"
  by (cases s) auto

lemma x_terminal_iff: "x_terminal s \<longleftrightarrow> VALID_EXECUTION_TRANSITIONS s = []"
  by (cases s) (simp_all add: TERMINAL_EXECUTION_STATES_def)

text \<open>One move of an execution, and what it fixes.\<close>

definition execution_step :: "cx_execution \<Rightarrow> cx_execution \<Rightarrow> bool" where
  "execution_step n e \<longleftrightarrow>
     ex_state e \<in> set (VALID_EXECUTION_TRANSITIONS (ex_state n)) \<and>
     ex_updated n \<le> ex_updated e \<and> in_range (ex_updated e) \<and>
     (ex_state e \<in> {X_RETRY_SCHEDULED, X_DEAD_LETTERED} \<longrightarrow> ex_error e \<noteq> None) \<and>
     e = n\<lparr>ex_state := ex_state e, ex_version := ex_version n + 1, ex_updated := ex_updated e,
           ex_cancel := (if ex_state e = X_CANCELLATION_REQUESTED then Some (ex_updated e) else ex_cancel n),
           ex_error := (if ex_state e \<in> {X_RETRY_SCHEDULED, X_DEAD_LETTERED} then ex_error e else ex_error n),
           ex_completed := (if x_terminal (ex_state e) then Some (ex_updated e) else ex_completed n),
           ex_lease := (if x_terminal (ex_state e) then None else ex_lease n)\<rparr>"

lemma step_fields:
  assumes "execution_step n e"
  shows "ex_version e = ex_version n + 1" "ex_started e = ex_started n"
    "ex_cancel e = (if ex_state e = X_CANCELLATION_REQUESTED then Some (ex_updated e) else ex_cancel n)"
    "ex_completed e = (if x_terminal (ex_state e) then Some (ex_updated e) else ex_completed n)"
    "ex_lease e = (if x_terminal (ex_state e) then None else ex_lease n)" "ex_updated n \<le> ex_updated e"
    "ex_state e \<in> {X_RETRY_SCHEDULED, X_DEAD_LETTERED} \<longrightarrow> ex_error e \<noteq> None"
    "ex_state e \<notin> {X_RETRY_SCHEDULED, X_DEAD_LETTERED} \<longrightarrow> ex_error e = ex_error n"
    "ex_id e = ex_id n" "ex_job e = ex_job n" "ex_worker e = ex_worker n" "ex_attempt e = ex_attempt n"
proof -
  note eq = assms [unfolded execution_step_def, THEN conjunct2, THEN conjunct2, THEN conjunct2, THEN conjunct2]
  show "ex_version e = ex_version n + 1" "ex_started e = ex_started n"
    "ex_cancel e = (if ex_state e = X_CANCELLATION_REQUESTED then Some (ex_updated e) else ex_cancel n)"
    "ex_completed e = (if x_terminal (ex_state e) then Some (ex_updated e) else ex_completed n)"
    "ex_lease e = (if x_terminal (ex_state e) then None else ex_lease n)"
    "ex_id e = ex_id n" "ex_job e = ex_job n" "ex_worker e = ex_worker n" "ex_attempt e = ex_attempt n"
    using arg_cong [OF eq, of ex_version] arg_cong [OF eq, of ex_started] arg_cong [OF eq, of ex_cancel]
      arg_cong [OF eq, of ex_completed] arg_cong [OF eq, of ex_lease]
      arg_cong [OF eq, of ex_id] arg_cong [OF eq, of ex_job] arg_cong [OF eq, of ex_worker]
      arg_cong [OF eq, of ex_attempt]
    unfolding cx_execution.simps by simp_all
  show "ex_state e \<notin> {X_RETRY_SCHEDULED, X_DEAD_LETTERED} \<longrightarrow> ex_error e = ex_error n"
    using arg_cong [OF eq, of ex_error] unfolding cx_execution.simps by (auto split: if_splits)
  show "ex_updated n \<le> ex_updated e" "ex_state e \<in> {X_RETRY_SCHEDULED, X_DEAD_LETTERED} \<longrightarrow> ex_error e \<noteq> None"
    using assms unfolding execution_step_def by blast+
qed

lemma validate_execution_to_dict_iff:
  "execution_wf e \<Longrightarrow> validate_cx_worker_execution (execution_to_dict e) = Inr e' \<longleftrightarrow> e' = e"
  by (auto simp: validate_execution_to_dict)

text \<open>The moved record the code validates again is well formed when the one it started from was.\<close>

lemma moved_wf:
  assumes n: "execution_wf n" and t: "target \<in> set (VALID_EXECUTION_TRANSITIONS (ex_state n))"
    and obs: "in_range obs" and err: "opt_all stripped err"
      "target \<in> {X_RETRY_SCHEDULED, X_DEAD_LETTERED} \<longrightarrow> err \<noteq> None"
  shows "execution_wf (n\<lparr>ex_state := target, ex_version := ex_version n + 1, ex_updated := obs,
           ex_cancel := (if target = X_CANCELLATION_REQUESTED then Some obs else ex_cancel n), ex_error := err,
           ex_completed := (if x_terminal target then Some obs else ex_completed n),
           ex_lease := (if x_terminal target then None else ex_lease n)\<rparr>)"
proof -
  have lease: "ex_lease n \<noteq> None"
  proof -
    have "ex_state n \<in> set ACTIVE_EXECUTION_STATES"
      using t by (cases "ex_state n") (simp_all add: ACTIVE_EXECUTION_STATES_def)
    then show ?thesis using n by (simp add: execution_wf_def state_fields_ok_def)
  qed
  show ?thesis
    using n t obs err lease
    by (cases target) (simp_all add: execution_wf_def state_fields_ok_def ACTIVE_EXECUTION_STATES_def
        TERMINAL_EXECUTION_STATES_def)
qed

lemma transition_execution_Inr:
  assumes "transition_cx_worker_execution d tgt observed code now = Inr e"
  obtains n target where "validate_cx_worker_execution d = Inr n" "execution_state_of tgt = Inr target"
    "execution_wf e" "target = ex_state n \<and> e = n \<or> execution_step n e \<and> ex_state e = target"
proof -
  obtain n target where n: "validate_cx_worker_execution d = Inr n" and t: "execution_state_of tgt = Inr target"
    using assms by (auto simp: transition_cx_worker_execution_def sbind_eq_Inr)
  note wf = validate_execution_wf [OF n]
  show ?thesis
  proof (cases "target = ex_state n")
    case True
    with assms n t wf show ?thesis by (intro that [of n target]) (auto simp: transition_cx_worker_execution_def)
  next
    case False
    with assms n t obtain obs err where go: "target \<in> set (VALID_EXECUTION_TRANSITIONS (ex_state n))"
      "contract_time (PStr (or_default observed now)) ''observed_at'' = Inr obs" "ex_updated n \<le> obs"
      and err: "(if target \<in> {X_RETRY_SCHEDULED, X_DEAD_LETTERED}
            then sbind (contract_string code ''error_code'') (\<lambda>c. Inr (Some c))
            else if code \<noteq> PNone then
              Inl (contract_error ''error_code_unexpected''
                ''error_code is only valid for retry or dead-letter outcomes.'' 422)
            else Inr (ex_error n)) = Inr err"
      and e: "validate_cx_worker_execution (execution_to_dict (n\<lparr>ex_state := target, ex_version := ex_version n + 1,
           ex_updated := obs,
           ex_cancel := (if target = X_CANCELLATION_REQUESTED then Some obs else ex_cancel n), ex_error := err,
           ex_completed := (if x_terminal target then Some obs else ex_completed n),
           ex_lease := (if x_terminal target then None else ex_lease n)\<rparr>)) = Inr e"
      unfolding transition_cx_worker_execution_def Let_def
      by (auto simp only: sbind_eq_Inr sbind_simps if_Inl_eq_Inr if_False not_less sum.inject)
    have obs: "in_range obs" by (rule field_checks(2) [OF go(2)])
    have errs: "opt_all stripped err" "target \<in> {X_RETRY_SCHEDULED, X_DEAD_LETTERED} \<longrightarrow> err \<noteq> None"
      "target \<notin> {X_RETRY_SCHEDULED, X_DEAD_LETTERED} \<longrightarrow> err = ex_error n"
      using err wf by (auto simp: sbind_eq_Inr execution_wf_def split: if_splits dest: field_checks(1))
    note mwf = moved_wf [OF wf go(1) obs errs(1,2)]
    from e have "e = n\<lparr>ex_state := target, ex_version := ex_version n + 1, ex_updated := obs,
           ex_cancel := (if target = X_CANCELLATION_REQUESTED then Some obs else ex_cancel n), ex_error := err,
           ex_completed := (if x_terminal target then Some obs else ex_completed n),
           ex_lease := (if x_terminal target then None else ex_lease n)\<rparr>"
      unfolding validate_execution_to_dict_iff [OF mwf] .
    with mwf go obs errs n t show ?thesis
      by (intro that [of n target]) (auto simp: execution_step_def)
  qed
qed

text \<open>What every execution satisfies from the moment it is built.\<close>

definition execution_inv :: "cx_execution \<Rightarrow> bool" where
  "execution_inv e \<longleftrightarrow> execution_wf e \<and>
     ex_version e + state_rank (ex_state e) \<le> 4 \<and> ex_started e \<le> ex_updated e \<and>
     (ex_lease e = None \<longleftrightarrow> x_terminal (ex_state e)) \<and>
     (ex_completed e = (if x_terminal (ex_state e) then Some (ex_updated e) else None)) \<and>
     (ex_error e \<noteq> None \<longleftrightarrow> ex_state e \<in> {X_RETRY_SCHEDULED, X_DEAD_LETTERED}) \<and>
     opt_all (\<lambda>c. ex_started e \<le> c \<and> c \<le> ex_updated e) (ex_cancel e)"

lemma step_inv:
  assumes inv: "execution_inv n" and step: "execution_step n e" and wf: "execution_wf e"
  shows "execution_inv e"
proof -
  have go: "ex_state e \<in> set (VALID_EXECUTION_TRANSITIONS (ex_state n))" using step by (simp add: execution_step_def)
  then have nt: "\<not> x_terminal (ex_state n)" by (auto simp: x_terminal_iff)
  note e = step_fields [OF step]
  have "ex_error n = None" using inv nt by (auto simp: execution_inv_def TERMINAL_EXECUTION_STATES_def)
  with e transition_rank [OF go] inv nt wf show ?thesis
    by (auto simp: execution_inv_def opt_all_def split: option.splits)
qed

inductive execution_reachable :: "cx_execution \<Rightarrow> bool" where
  built: "build_cx_worker_execution job worker wtype workload lease observed now = Inr e \<Longrightarrow> execution_reachable e"
| moved: "execution_reachable n \<Longrightarrow>
    transition_cx_worker_execution (execution_to_dict n) tgt observed code now = Inr e \<Longrightarrow> execution_reachable e"

text \<open>What validation keeps of the fields a built execution starts with.\<close>

lemma validate_fields:
  assumes "validate_cx_worker_execution d = Inr e"
  shows "execution_state_of (dget d ''state'') = Inr (ex_state e)"
    "dget d ''state_version'' = PInt (ex_version e)" "dget d ''attempt_count'' = PInt (ex_attempt e)"
    "contract_string (dget d ''worker_id'') ''worker_id'' = Inr (ex_worker e)"
    "contract_string (dget d ''workload'') ''workload'' = Inr (ex_workload e)"
    "contract_string (dget d ''job_id'') ''job_id'' = Inr (ex_job e)"
    "contract_time (dget d ''started_at'') ''started_at'' = Inr (ex_started e)"
    "contract_time (dget d ''updated_at'') ''updated_at'' = Inr (ex_updated e)"
    "optional_time (dget d ''lease_expires_at'') ''lease_expires_at'' = Inr (ex_lease e)"
    "optional_time (dget d ''cancellation_requested_at'') ''cancellation_requested_at'' = Inr (ex_cancel e)"
    "optional_time (dget d ''completed_at'') ''completed_at'' = Inr (ex_completed e)"
    "optional_text (dget d ''error_code'') ''error_code'' = Inr (ex_error e)"
  using assms
  unfolding validate_cx_worker_execution_def Let_def sbind_eq_Inr if_Inl_eq_Inr option_Inl_eq_Inr
    validate_state_fields_Inr
  by (elim exE conjE, simp add: bounded_int_Inr)+

lemma build_execution_Inr:
  assumes "build_cx_worker_execution job worker wtype workload lease observed now = Inr e"
  obtains t u where "job_wf job" "status job = RUNNING" "map_of CURRENT_CX_WORKLOADS (ex_workload e) = Some (job_type job)"
    "parse_wire_datetime lease = Inr t" "parse_wire_datetime (or_default observed now) = Inr u" "u < t"
    "execution_wf e" "ex_state e = X_CLAIMED" "ex_version e = 1" "ex_started e = u" "ex_updated e = u"
    "ex_lease e = Some t" "ex_cancel e = None" "ex_error e = None" "ex_completed e = None"
    "ex_worker e = py_strip worker" "ex_attempt e = attempt_count job"
proof -
  obtain w t u wid wt where job: "job_wf job" "status job = RUNNING"
    and w: "contract_string (PStr workload) ''workload'' = Inr w" "map_of CURRENT_CX_WORKLOADS w = Some (job_type job)"
    and t: "contract_time (PStr (or_default observed now)) ''observed_at'' = Inr u"
      "contract_time (PStr lease) ''lease_expires_at'' = Inr t" "u < t"
    and wid: "contract_string (PStr worker) ''worker_id'' = Inr wid"
    and v: "validate_cx_worker_execution
       [(''execution_schema_version'', PStr CX_WORKER_EXECUTION_SCHEMA_VERSION),
        (''execution_id'', PStr (job_id job @ '':'' @ show_int (attempt_count job))),
        (''job_id'', PStr (job_id job)), (''job_type'', PStr (job_type job)), (''workload'', PStr w),
        (''worker_id'', PStr wid), (''worker_type'', PStr wt), (''state'', PStr ''CLAIMED''),
        (''state_version'', PInt 1), (''attempt_count'', PInt (attempt_count job)),
        (''max_attempts'', PInt (max_attempts job)), (''retryable'', PBool (retryable job)),
        (''trace_id'', PStr (trace_id job)), (''request_id'', PStr (request_id job)),
        (''subject_ref'', PDict (subject_ref job)), (''lease_expires_at'', PStr (wire_timestamp t)),
        (''cancellation_requested_at'', PNone), (''error_code'', PNone),
        (''started_at'', PStr (wire_timestamp u)), (''updated_at'', PStr (wire_timestamp u)),
        (''completed_at'', PNone)] = Inr e"
    using assms unfolding build_cx_worker_execution_def sbind_eq_Inr option_Inl_eq_Inr if_Inl_eq_Inr not_le
    by (auto simp: running_job_def not_less split: sum.splits job_exn.splits if_splits)
  note f = validate_fields [OF v, unfolded dget_def, simplified]
  have range: "in_range t" "in_range u" using t(1,2) by (auto dest: field_checks(2))
  have strip: "contract_string (PStr w) ''workload'' = Inr w" "contract_string (PStr wid) ''worker_id'' = Inr wid"
    using field_checks(1) [OF w(1)] field_checks(1) [OF wid] by simp_all
  have "ex_state e = X_CLAIMED"
    using f(1) execution_state_of_text [of X_CLAIMED] by simp
  moreover have "ex_lease e = Some t"
    using f(9) range by (simp add: optional_time_def)
  moreover have "ex_cancel e = None" "ex_completed e = None" "ex_error e = None"
    using f(10,11,12) by (simp_all add: optional_time_def optional_text_def)
  moreover have "ex_workload e = w" "ex_worker e = py_strip worker"
    using f(4,5) strip wid by (auto simp: contract_string_Inr)
  ultimately show ?thesis
    using job w(2) t f range validate_execution_wf [OF v]
    by (intro that [of t u]) (auto simp: contract_time_Inr)
qed

lemma reachable_inv: "execution_reachable e \<Longrightarrow> execution_inv e"
proof (induction rule: execution_reachable.induct)
  case (built job worker wtype workload lease observed now e)
  then show ?case
    by (rule build_execution_Inr) (simp add: execution_inv_def TERMINAL_EXECUTION_STATES_def)
next
  case (moved n tgt observed code now e)
  from moved.hyps(2) obtain n' target where n': "validate_cx_worker_execution (execution_to_dict n) = Inr n'"
    "execution_wf e" "target = ex_state n' \<and> e = n' \<or> execution_step n' e \<and> ex_state e = target"
    by (rule transition_execution_Inr)
  have "n' = n" using n'(1) moved.IH by (simp add: execution_inv_def validate_execution_to_dict_iff)
  with n' moved.IH show ?case using step_inv by auto
qed

end
