(* ===== verification/Worker_Leases.thy ===== *)
theory Worker_Leases
  imports Sql_Queue Worker_Contracts
begin

section \<open>CX worker leases\<close>

text \<open>
  \<^verbatim>\<open>services/nex-cx/nex_cx/worker_leases.py\<close>: the lease of a worker on a running job, kept in
  the columns \<open>locked_by\<close> and \<open>locked_at\<close> of the job's row, and the claim that turns a
  queued job into an execution under a lease. The store works on the table of the SQL queue; the
  time parameters of the renewal go through the database, as in the queue.
\<close>

subsection \<open>Errors and policy\<close>

datatype lease_exn = LeaseError string string int bool | Lease_Py py_error

abbreviation lease_error :: "string \<Rightarrow> string \<Rightarrow> int \<Rightarrow> bool \<Rightarrow> lease_exn" where
  "lease_error c d s r \<equiv> LeaseError (''cx.worker_lease.'' @ c) d s r"

definition MAX_LEASE_TTL_SECONDS :: int where
  "MAX_LEASE_TTL_SECONDS = 86400"

definition make_lease_policy :: "int \<Rightarrow> lease_exn + int" where
  "make_lease_policy ttl =
     (if ttl < 1 \<or> ttl > MAX_LEASE_TTL_SECONDS then
        Inl (lease_error ''ttl_invalid'' (''ttl_seconds must be an integer between 1 and '' @
          show_int MAX_LEASE_TTL_SECONDS @ ''.'') 422 False)
      else Inr ttl)"

definition default_lease_ttl :: int where
  "default_lease_ttl = 120"

definition lease_store_unavailable :: lease_exn where
  "lease_store_unavailable =
     lease_error ''store_unavailable'' ''The CX worker lease store is unavailable.'' 503 True"

definition lease_string :: "string \<Rightarrow> string \<Rightarrow> lease_exn + string" where
  "lease_string s f =
     (if py_strip s = [] then Inl (lease_error ''field_invalid'' (f @ '' must be a non-empty string.'') 422 False)
      else Inr (py_strip s))"

definition lease_time :: "string \<Rightarrow> string \<Rightarrow> lease_exn + int" where
  "lease_time s f =
     (case parse_wire_datetime s of
        Inr t \<Rightarrow> Inr t
      | Inl ValueError \<Rightarrow> Inl (lease_error ''timestamp_invalid'' (f @ '' must be an ISO-8601 timestamp.'') 422 False)
      | Inl e \<Rightarrow> Inl (Lease_Py e))"

subsection \<open>The lease of a row\<close>

record lease =
  le_job :: string
  le_type :: string
  le_status :: job_status
  le_worker :: "string option"
  le_locked :: "int option"
  le_expires :: "int option"
  le_ttl :: int
  le_active :: bool
  le_expired :: bool
  le_observed :: int

text \<open>\<open>_lease_projection\<close>: an empty \<open>locked_by\<close> reads as none.\<close>

definition lease_projection :: "job_row \<Rightarrow> int \<Rightarrow> int \<Rightarrow> lease_exn + lease" where
  "lease_projection r ttl observed =
     sbind (case row_locked_at r of
              None \<Rightarrow> Inr None
            | Some t \<Rightarrow> if in_range (t + ttl * 1000000) then Inr (Some (t + ttl * 1000000))
                else Inl (Lease_Py OverflowError)) (\<lambda>expires.
     let owner = (case row_locked_by r of Some w \<Rightarrow> if w = [] then None else Some w | None \<Rightarrow> None);
         expired = (case expires of None \<Rightarrow> False | Some x \<Rightarrow> x \<le> observed)
     in Inr \<lparr>le_job = row_job_id r, le_type = row_job_type r, le_status = row_status r, le_worker = owner,
          le_locked = row_locked_at r, le_expires = expires, le_ttl = ttl,
          le_active = (row_status r = RUNNING \<and> owner \<noteq> None \<and> row_locked_at r \<noteq> None \<and> \<not> expired),
          le_expired = expired, le_observed = observed\<rparr>)"

definition inspect ::
  "table \<Rightarrow> string \<Rightarrow> int option \<Rightarrow> string option \<Rightarrow> string \<Rightarrow> lease_exn + lease option" where
  "inspect tbl job ttl observed now =
     sbind (lease_string job ''job_id'') (\<lambda>i.
     sbind (lease_time (or_default observed now) ''observed_at'') (\<lambda>obs.
     case find_row tbl i of
       None \<Rightarrow> Inr None
     | Some r \<Rightarrow>
         sbind (lease_projection r (case ttl of None \<Rightarrow> default_lease_ttl | Some t \<Rightarrow> t) obs) (\<lambda>l. Inr (Some l))))"

definition require_active ::
  "table \<Rightarrow> string \<Rightarrow> string \<Rightarrow> int option \<Rightarrow> string option \<Rightarrow> string \<Rightarrow> lease_exn + lease" where
  "require_active tbl job worker ttl observed now =
     sbind (inspect tbl job ttl observed now) (\<lambda>found.
       case found of
         None \<Rightarrow> Inl (lease_error ''job_not_found'' ''The worker job was not found.'' 404 False)
       | Some l \<Rightarrow>
           sbind (lease_string worker ''worker_id'') (\<lambda>expected.
           if le_status l \<noteq> RUNNING then
             Inl (lease_error ''job_not_running'' ''Only RUNNING jobs have an active worker lease.'' 409 False)
           else if le_locked l = None then
             Inl (lease_error ''not_acquired'' ''The worker job does not have a durable lease timestamp.'' 409 False)
           else if le_worker l \<noteq> Some expected then
             Inl (lease_error ''owner_mismatch'' ''The worker lease belongs to another worker.'' 409 False)
           else if le_expired l then
             Inl (lease_error ''expired'' ''The worker lease has expired.'' 409 True)
           else Inr l))"

subsection \<open>Renewal\<close>

definition renewal_conflict :: "job_row option \<Rightarrow> string \<Rightarrow> lease_exn" where
  "renewal_conflict current worker =
     (case current of
        None \<Rightarrow> lease_error ''job_not_found'' ''The worker job was not found.'' 404 False
      | Some r \<Rightarrow>
          if row_status r \<noteq> RUNNING then
            lease_error ''job_not_running'' ''Only RUNNING jobs can renew a worker lease.'' 409 False
          else if row_locked_by r \<noteq> Some worker then
            lease_error ''owner_mismatch'' ''The worker lease belongs to another worker.'' 409 False
          else lease_error ''changed'' ''The worker lease changed before renewal.'' 409 False)"

definition lease_param :: "database \<Rightarrow> int \<Rightarrow> lease_exn + int" where
  "lease_param D t = (case db_time D (wire_timestamp t) of None \<Rightarrow> Inl lease_store_unavailable | Some x \<Rightarrow> Inr x)"

text \<open>The rows the conditional update of a renewal changes.\<close>

definition renewable :: "string \<Rightarrow> string \<Rightarrow> int \<Rightarrow> job_row \<Rightarrow> bool" where
  "renewable i worker expected r \<longleftrightarrow>
     row_job_id r = i \<and> row_status r = RUNNING \<and> row_locked_by r = Some worker \<and> row_locked_at r = Some expected"

text \<open>The table after the conditional update.\<close>

definition renewed_table :: "table \<Rightarrow> string \<Rightarrow> string \<Rightarrow> int \<Rightarrow> int \<Rightarrow> table" where
  "renewed_table tbl i w e obs =
     map (\<lambda>r. if renewable i w e r then r\<lparr>row_locked_at := Some obs, row_updated_at := obs\<rparr> else r) tbl"

text \<open>The projection runs after the commit: its error leaves the renewed table.\<close>

definition renew ::
  "database \<Rightarrow> table \<Rightarrow> string \<Rightarrow> string \<Rightarrow> string \<Rightarrow> string option \<Rightarrow> int option \<Rightarrow> string
    \<Rightarrow> (lease_exn + lease) \<times> table" where
  "renew D tbl job worker expected_locked observed ttl now =
     (case sbind (lease_string job ''job_id'') (\<lambda>i.
           sbind (lease_string worker ''worker_id'') (\<lambda>w.
           sbind (lease_time expected_locked ''expected_locked_at'') (\<lambda>expected.
           sbind (lease_time (or_default observed now) ''observed_at'') (\<lambda>obs.
           if obs < expected then
             Inl (lease_error ''time_regression'' ''A worker lease cannot be renewed backwards in time.'' 409 False)
           else
           sbind (lease_param D expected) (\<lambda>e.
           sbind (lease_param D obs) (\<lambda>o'.
           if length (filter (renewable i w e) tbl) \<noteq> 1
           then Inl (renewal_conflict (find_row (renewed_table tbl i w e o') i) w)
           else (case find_row (renewed_table tbl i w e o') i of
              None \<Rightarrow> Inl (Lease_Py (KeyError i))
            | Some current \<Rightarrow> Inr (current, renewed_table tbl i w e o', obs)))))))) of
        Inl e \<Rightarrow> (Inl e, tbl)
      | Inr (current, tbl', obs) \<Rightarrow>
          (lease_projection current (case ttl of None \<Rightarrow> default_lease_ttl | Some t \<Rightarrow> t) obs, tbl'))"

text \<open>A renewal of any lease by any worker, whatever it answers.\<close>

inductive renewal_step :: "database \<Rightarrow> table \<Rightarrow> table \<Rightarrow> bool" for D where
  renewal: "renew D tbl job worker expected observed ttl now = (res, tbl') \<Longrightarrow> renewal_step D tbl tbl'"

subsection \<open>Claiming an execution\<close>

text \<open>
  The claim commits before the lease and the contract are checked, so an error after it leaves the
  claimed table: the result comes with the table it leaves.
\<close>

definition claim_next_worker_execution ::
  "database \<Rightarrow> table \<Rightarrow> string \<Rightarrow> string \<Rightarrow> string \<Rightarrow> int option \<Rightarrow> string option \<Rightarrow> string
    \<Rightarrow> (lease_exn + cx_execution option) \<times> table" where
  "claim_next_worker_execution D tbl worker wtype workload ttl observed now =
     (case sbind (lease_string worker ''worker_id'') (\<lambda>w.
           sbind (lease_string workload ''workload'') (\<lambda>load.
           case map_of CURRENT_CX_WORKLOADS load of
             None \<Rightarrow> Inl (lease_error ''workload_invalid'' ''workload must name a registered CX worker workload.'' 422 False)
           | Some jtype \<Rightarrow>
               sbind (lease_time (or_default observed now) ''observed_at'') (\<lambda>obs. Inr (w, load, jtype, obs)))) of
        Inl e \<Rightarrow> (Inl e, tbl)
      | Inr (w, load, jtype, obs) \<Rightarrow>
          (case sql_claim D tbl w (Some jtype) (Some (wire_timestamp obs)) now of
             Inl (JobQueueError _ detail sc) \<Rightarrow> (Inl (lease_error ''claim_failed'' detail sc (sc \<ge> 500)), tbl)
           | Inl (Py e) \<Rightarrow> (Inl (Lease_Py e), tbl)
           | Inr (None, tbl') \<Rightarrow> (Inr None, tbl')
           | Inr (Some job, tbl') \<Rightarrow>
               (case require_active tbl' (job_id job) w ttl (Some (wire_timestamp obs)) now of
                  Inl e \<Rightarrow> (Inl e, tbl')
                | Inr l \<Rightarrow>
                    (case build_cx_worker_execution job w wtype load
                            (case le_expires l of None \<Rightarrow> ''None'' | Some x \<Rightarrow> wire_timestamp x)
                            (Some (wire_timestamp obs)) now of
                       Inl (ContractError _ detail sc) \<Rightarrow>
                         (Inl (lease_error ''execution_contract_invalid'' detail sc False), tbl')
                     | Inl (Contract_Py e) \<Rightarrow> (Inl (Lease_Py e), tbl')
                     | Inr x \<Rightarrow> (Inr (Some x), tbl')))))"

subsection \<open>What a lease says\<close>

lemma lease_string_Inr [res_simps]: "lease_string s f = Inr x \<longleftrightarrow> x = py_strip s \<and> x \<noteq> []"
  by (auto simp: lease_string_def)

lemma lease_time_Inr [res_simps]: "lease_time s f = Inr t \<longleftrightarrow> parse_wire_datetime s = Inr t"
  by (auto simp: lease_time_def split: sum.splits py_error.splits)

lemma lease_param_Inr [res_simps]: "lease_param D t = Inr x \<longleftrightarrow> db_time D (wire_timestamp t) = Some x"
  by (auto simp: lease_param_def split: option.splits)

lemma lease_projection_Inr:
  "lease_projection r ttl obs = Inr l \<Longrightarrow>
    le_status l = row_status r \<and> le_locked l = row_locked_at r \<and> le_job l = row_job_id r \<and>
    le_expires l = map_option (\<lambda>t. t + ttl * 1000000) (row_locked_at r) \<and> le_observed l = obs \<and>
    (\<forall>w. le_worker l = Some w \<longleftrightarrow> row_locked_by r = Some w \<and> w \<noteq> []) \<and>
    (le_expired l \<longleftrightarrow> (\<exists>t. row_locked_at r = Some t \<and> t + ttl * 1000000 \<le> obs))"
proof (cases "row_locked_at r")
  case None
  moreover assume "lease_projection r ttl obs = Inr l"
  ultimately show ?thesis
    by (cases "row_locked_by r") (auto simp: lease_projection_def Let_def split: if_splits)
next
  case (Some t)
  moreover assume "lease_projection r ttl obs = Inr l"
  ultimately show ?thesis
    by (cases "row_locked_by r"; cases "in_range (t + ttl * 1000000)")
      (auto simp: lease_projection_def Let_def split: if_splits)
qed

text \<open>Holding a lease is owning the row of a running job whose lock has not run out.\<close>

lemma require_active_Inr:
  assumes "require_active tbl job worker ttl observed now = Inr l"
  obtains r t obs where "find_row tbl (py_strip job) = Some r" "row_status r = RUNNING"
    "row_locked_by r = Some (py_strip worker)" "row_locked_at r = Some t"
    "parse_wire_datetime (or_default observed now) = Inr obs"
    "obs < t + (case ttl of None \<Rightarrow> default_lease_ttl | Some t \<Rightarrow> t) * 1000000"
    "le_expires l = Some (t + (case ttl of None \<Rightarrow> default_lease_ttl | Some t \<Rightarrow> t) * 1000000)"
    "le_locked l = Some t" "le_observed l = obs"
proof -
  let ?ttl = "case ttl of None \<Rightarrow> default_lease_ttl | Some t \<Rightarrow> t"
  from assms have l: "le_status l = RUNNING" "le_locked l \<noteq> None" "le_worker l = Some (py_strip worker)" "\<not> le_expired l"
    and i: "inspect tbl job ttl observed now = Inr (Some l)"
    by (auto simp: require_active_def res_simps)
  from i obtain r obs where r: "find_row tbl (py_strip job) = Some r"
    "parse_wire_datetime (or_default observed now) = Inr obs" "lease_projection r ?ttl obs = Inr l"
    by (auto simp: inspect_def res_simps split: option.splits)
  with l lease_projection_Inr [OF r(3)] show ?thesis
    by (auto intro!: that [of r "the (row_locked_at r)" obs])
qed

lemma lease_exclusive:
  assumes "require_active tbl job w1 ttl1 obs1 now1 = Inr l1" "require_active tbl job w2 ttl2 obs2 now2 = Inr l2"
  shows "py_strip w1 = py_strip w2"
  using assms by (elim require_active_Inr) simp

subsection \<open>What a renewal does\<close>

text \<open>The row of a job carries a lock time after \<open>e\<close>.\<close>

definition locked_after :: "string \<Rightarrow> int \<Rightarrow> table \<Rightarrow> bool" where
  "locked_after i e tbl \<longleftrightarrow> (\<forall>r \<in> set tbl. row_job_id r = i \<longrightarrow> (\<exists>t. row_locked_at r = Some t \<and> e < t))"

context sql_database
begin

lemma lease_param_wire: "in_range t \<Longrightarrow> lease_param D t = Inr t"
  by (simp add: lease_param_Inr db_reads)

text \<open>Under the invariant the conditional update changes the one row of the job.\<close>

lemma renewed_update:
  assumes inv: "sql_inv D tbl" and r: "r \<in> set tbl" "renewable i w e r"
  shows "renewed_table tbl i w e obs = update_row tbl i (\<lambda>r. r\<lparr>row_locked_at := Some obs, row_updated_at := obs\<rparr>)"
    "find_row tbl i = Some r"
proof -
  have "renewable i w e s \<longleftrightarrow> row_job_id s = i" if "s \<in> set tbl" for s
  proof
    assume "row_job_id s = i"
    with r that inv have "find_row tbl i = Some s" "find_row tbl i = Some r"
      by (auto simp: find_row_Some sql_inv_def renewable_def)
    with r show "renewable i w e s" by simp
  qed (simp add: renewable_def)
  then show "renewed_table tbl i w e obs = update_row tbl i (\<lambda>r. r\<lparr>row_locked_at := Some obs, row_updated_at := obs\<rparr>)"
    unfolding renewed_table_def update_row_def by (intro map_cong [OF refl]) simp
  show "find_row tbl i = Some r" using r inv by (simp add: find_row_Some sql_inv_def renewable_def)
qed

text \<open>Of the jobs only the update time of the lease's own changes.\<close>

lemma renewed_jobs:
  assumes inv: "sql_inv D tbl" and r: "r \<in> set tbl" "renewable i w e r"
  obtains j where "sql_get_job D tbl i = Some j" "status j = RUNNING" "sql_inv D (renewed_table tbl i w e obs)"
    "sql_get_job D (renewed_table tbl i w e obs) = (sql_get_job D tbl)(i := Some (stamped j obs))"
proof -
  from r(1) inv obtain j where j: "job_from_row D r = Inr j" by (auto simp: sql_inv_def)
  have g: "sql_get_job D tbl i = Some j" "status j = RUNNING"
    using r j renewed_update(2) [OF inv r] by (auto simp: sql_get_Some renewable_def job_from_row_Inr)
  have row: "job_from_row D (s\<lparr>row_locked_at := Some obs, row_updated_at := obs\<rparr>) = Inr (stamped j obs)"
    if "job_from_row D s = Inr j" for s
    using that by (simp add: job_from_row_Inr stamped_def)
  from update_row_job [OF inv g(1) _ _ _ row] show ?thesis
    by (intro that [OF g]) (simp_all add: renewed_update(1) [OF inv r])
qed

text \<open>A renewal that fails has changed nothing, unless only the projection after the commit failed.\<close>

lemma renew_cases:
  assumes inv: "sql_inv D tbl" and run: "renew D tbl job worker expected observed ttl now = (res, tbl')"
  obtains (refused) err where "res = Inl err" "tbl' = tbl"
  | (renewed) r e obs where "r \<in> set tbl" "renewable (py_strip job) (py_strip worker) e r" "py_strip job \<noteq> []" "py_strip worker \<noteq> []"
      "parse_wire_datetime expected = Inr e" "parse_wire_datetime (or_default observed now) = Inr obs" "e \<le> obs"
      "tbl' = renewed_table tbl (py_strip job) (py_strip worker) e obs"
      "res = lease_projection (r\<lparr>row_locked_at := Some obs, row_updated_at := obs\<rparr>)
        (case ttl of None \<Rightarrow> default_lease_ttl | Some t \<Rightarrow> t) obs"
proof -
  let ?i = "py_strip job" and ?w = "py_strip worker" and ?ttl = "case ttl of None \<Rightarrow> default_lease_ttl | Some t \<Rightarrow> t"
  let ?ok = "\<lambda>e obs e' o' current. ?i \<noteq> [] \<and> ?w \<noteq> [] \<and> parse_wire_datetime expected = Inr e \<and>
    parse_wire_datetime (or_default observed now) = Inr obs \<and> \<not> obs < e \<and> lease_param D e = Inr e' \<and>
    lease_param D obs = Inr o' \<and> length (filter (renewable ?i ?w e') tbl) = 1 \<and>
    find_row (renewed_table tbl ?i ?w e' o') ?i = Some current \<and> tbl' = renewed_table tbl ?i ?w e' o' \<and>
    res = lease_projection current ?ttl obs"
  have "(\<exists>err. res = Inl err \<and> tbl' = tbl) \<or> (\<exists>e obs e' o' current. ?ok e obs e' o' current)"
    using run unfolding renew_def
    by (auto simp: res_simps simp del: One_nat_def split: sum.splits option.splits)
  then show thesis
  proof (elim disjE exE)
    fix err assume "res = Inl err \<and> tbl' = tbl"
    then show thesis using refused by blast
  next
    fix e obs e' o' current assume ok: "?ok e obs e' o' current"
    have same: "e' = e" "o' = obs" using ok lease_param_wire by (auto dest: parse_wire_datetime_range)
    from ok obtain r where hit: "filter (renewable ?i ?w e) tbl = [r]" unfolding same by (auto simp: length_Suc_conv)
    have "set (filter (renewable ?i ?w e) tbl) = {r}" unfolding hit by simp
    then have r: "r \<in> set tbl" "renewable ?i ?w e r" by auto
    have "current = r\<lparr>row_locked_at := Some obs, row_updated_at := obs\<rparr>"
      using ok unfolding same renewed_update(1) [OF inv r] by (simp add: find_row_update renewed_update(2) [OF inv r])
    then show thesis using ok same by (intro renewed [OF r]) auto
  qed
qed

lemma renew_Inr:
  assumes inv: "sql_inv D tbl" and ok: "renew D tbl job worker expected observed ttl now = (Inr l, tbl')"
  obtains r e obs where "r \<in> set tbl" "renewable (py_strip job) (py_strip worker) e r" "py_strip job \<noteq> []" "py_strip worker \<noteq> []"
    "parse_wire_datetime expected = Inr e" "parse_wire_datetime (or_default observed now) = Inr obs" "e \<le> obs"
    "tbl' = renewed_table tbl (py_strip job) (py_strip worker) e obs"
    "le_locked l = Some obs" "le_worker l = Some (py_strip worker)" "le_status l = RUNNING"
    "le_expires l = Some (obs + (case ttl of None \<Rightarrow> default_lease_ttl | Some t \<Rightarrow> t) * 1000000)"
    "in_range (obs + (case ttl of None \<Rightarrow> default_lease_ttl | Some t \<Rightarrow> t) * 1000000)"
  using inv ok
proof (cases rule: renew_cases)
  case (renewed r e obs)
  note l = lease_projection_Inr [OF renewed(9) [symmetric]]
  have "in_range (obs + (case ttl of None \<Rightarrow> default_lease_ttl | Some t \<Rightarrow> t) * 1000000)"
    using renewed(9) by (auto simp: lease_projection_def Let_def res_simps split: if_splits)
  with renewed l show ?thesis by (intro that [OF renewed(1-8)]) (auto simp: renewable_def)
qed simp

lemma renew_jobs:
  assumes inv: "sql_inv D tbl" and ok: "renew D tbl job worker expected observed ttl now = (Inr l, tbl')"
  obtains j obs where "sql_get_job D tbl (py_strip job) = Some j" "status j = RUNNING" "sql_inv D tbl'"
    "parse_wire_datetime (or_default observed now) = Inr obs"
    "sql_get_job D tbl' = (sql_get_job D tbl)(py_strip job := Some (stamped j obs))"
proof -
  obtain r e obs where r: "r \<in> set tbl" "renewable (py_strip job) (py_strip worker) e r"
    and obs: "parse_wire_datetime (or_default observed now) = Inr obs"
    and tbl': "tbl' = renewed_table tbl (py_strip job) (py_strip worker) e obs"
    by (rule renew_Inr [OF inv ok])
  show ?thesis by (rule renewed_jobs [OF inv r, of obs]) (use that obs tbl' in blast)
qed

text \<open>The renewed lease is held until its deadline.\<close>

lemma renewed_held:
  assumes inv: "sql_inv D tbl" and ok: "renew D tbl job worker expected observed ttl now = (Inr l, tbl')"
    and x: "parse_wire_datetime (or_default observed2 now2) = Inr x" "le_expires l = Some d" "x < d"
  shows "\<exists>l2. require_active tbl' job worker ttl observed2 now2 = Inr l2"
proof -
  obtain r e obs where r: "r \<in> set tbl" "renewable (py_strip job) (py_strip worker) e r" "py_strip job \<noteq> []" "py_strip worker \<noteq> []"
    and tbl': "tbl' = renewed_table tbl (py_strip job) (py_strip worker) e obs"
    and d: "le_expires l = Some (obs + (case ttl of None \<Rightarrow> default_lease_ttl | Some t \<Rightarrow> t) * 1000000)"
      "in_range (obs + (case ttl of None \<Rightarrow> default_lease_ttl | Some t \<Rightarrow> t) * 1000000)"
    by (rule renew_Inr [OF inv ok])
  have "find_row tbl' (py_strip job) = Some (r\<lparr>row_locked_at := Some obs, row_updated_at := obs\<rparr>)"
    by (simp add: tbl' renewed_update(1) [OF inv r(1,2)] find_row_update renewed_update(2) [OF inv r(1,2)])
  then show ?thesis
    using r d x by (simp add: require_active_def inspect_def lease_string_def lease_time_def lease_projection_def Let_def renewable_def)
qed

text \<open>
  The compare and swap: a lock time once moved on from renews no more, whatever renewals of the table
  come in between.
\<close>

lemma renewal_step_effect:
  assumes "renewal_step D tbl tbl'" "sql_inv D tbl"
  shows "sql_inv D tbl'" "locked_after i e tbl \<Longrightarrow> locked_after i e tbl'"
proof -
  obtain job worker expected observed ttl now res where run: "renew D tbl job worker expected observed ttl now = (res, tbl')"
    using assms(1) by (auto elim: renewal_step.cases)
  have "sql_inv D tbl' \<and> (locked_after i e tbl \<longrightarrow> locked_after i e tbl')"
    using assms(2) run
  proof (cases rule: renew_cases)
    case (renewed r e' obs)
    obtain j where "sql_inv D tbl'" by (rule renewed_jobs [OF assms(2) renewed(1,2), of obs]) (use renewed(8) in blast)
    moreover have "locked_after i e tbl'" if "locked_after i e tbl"
      unfolding locked_after_def
    proof
      fix s assume "s \<in> set tbl'"
      then obtain q where q: "q \<in> set tbl" "s = (if renewable (py_strip job) (py_strip worker) e' q
          then q\<lparr>row_locked_at := Some obs, row_updated_at := obs\<rparr> else q)"
        unfolding renewed(8) renewed_table_def by auto
      have "row_locked_at q = Some e'" if "renewable (py_strip job) (py_strip worker) e' q" using that by (simp add: renewable_def)
      then show "row_job_id s = i \<longrightarrow> (\<exists>t. row_locked_at s = Some t \<and> e < t)"
        using \<open>locked_after i e tbl\<close> q renewed(7) unfolding locked_after_def by force
    qed
    ultimately show ?thesis by blast
  qed (use assms(2) in simp)
  then show "sql_inv D tbl'" "locked_after i e tbl \<Longrightarrow> locked_after i e tbl'" by blast+
qed

lemma renew_fences:
  assumes inv: "sql_inv D tbl" and ok: "renew D tbl job worker expected observed ttl now = (Inr l, tbl')"
    and later: "parse_wire_datetime expected = Inr e" "parse_wire_datetime (or_default observed now) = Inr obs" "e < obs"
    and more: "(renewal_step D)\<^sup>*\<^sup>* tbl' t"
  shows "isl (fst (renew D t job w2 expected obs2 ttl2 now2))"
proof (rule ccontr)
  obtain r where r: "r \<in> set tbl" "renewable (py_strip job) (py_strip worker) e r"
    and tbl': "tbl' = renewed_table tbl (py_strip job) (py_strip worker) e obs"
    by (rule renew_Inr [OF inv ok]) (use later in auto)
  have "sql_inv D tbl'" by (rule renew_jobs [OF inv ok])
  moreover have "locked_after (py_strip job) e tbl'"
    using later(3) unfolding tbl' renewed_update(1) [OF inv r] locked_after_def update_row_def by auto
  ultimately have start: "sql_inv D tbl' \<and> locked_after (py_strip job) e tbl'" by blast
  have t: "sql_inv D t \<and> locked_after (py_strip job) e t"
    using more
  proof (induction rule: rtranclp_induct)
    case (step t1 t2)
    then show ?case using renewal_step_effect by blast
  qed (rule start)
  assume "\<not> isl (fst (renew D t job w2 expected obs2 ttl2 now2))"
  then obtain l2 t2 where "renew D t job w2 expected obs2 ttl2 now2 = (Inr l2, t2)"
    by (cases "renew D t job w2 expected obs2 ttl2 now2"; cases "fst (renew D t job w2 expected obs2 ttl2 now2)") auto
  then obtain s where "s \<in> set t" "renewable (py_strip job) (py_strip w2) e s"
    by (rule renew_Inr [OF conjunct1 [OF t]]) (use later(1) in auto)
  with t show False by (auto simp: locked_after_def renewable_def)
qed

end

subsection \<open>What a claim grants\<close>

text \<open>The row a claim leaves carries the worker and the time of the claim.\<close>

lemma sql_claim_row:
  assumes "sql_claim D tbl w ty upd now = Inr (Some j, t')" "find_row t' (job_id j) = Some r"
  shows "row_status r = RUNNING \<and> row_locked_by r = Some w \<and> row_locked_at r = db_time D (or_default upd now)"
proof -
  let ?obs = "or_default upd now"
  from assms(1) obtain j0 new where new: "transition_common_job j0 RUNNING (Some ?obs) now = Inr new"
    "update_job_transition D tbl new (Some w) (Some ?obs) = Inr t'" "sql_get_job D t' (job_id new) = Some j"
    by (auto simp: sql_claim_def Let_def res_simps stored_job_Inr split: option.splits)
  have st: "status new = RUNNING" "\<not> terminal (status new)"
    using transition_ids [OF new(1)] by (simp_all add: TERMINAL_JOB_STATUSES_def)
  have "job_id j = job_id new" using sql_get_wf [OF new(3)] by simp
  moreover from new(2) st obtain u a where "db_time D ?obs = Some a"
    "t' = update_row tbl (job_id new) (\<lambda>r. r\<lparr>row_status := RUNNING, row_attempt_count := attempt_count new,
       row_updated_at := u, row_started_at := coalesce (row_started_at r) (Some u),
       row_completed_at := coalesce None (row_completed_at r), row_locked_by := Some w, row_locked_at := Some a\<rparr>)"
    by (auto simp: update_job_transition_def res_simps db_param_Inr)
  ultimately show ?thesis using assms(2) by (auto simp: find_row_update)
qed

lemma lease_held:
  assumes "find_row tbl i = Some r" "row_status r = RUNNING" "row_locked_by r = Some w" "row_locked_at r = Some t"
    and "py_strip i = i" "i \<noteq> []" "py_strip w = w" "w \<noteq> []"
    and "parse_wire_datetime (or_default observed now) = Inr obs" "obs < t + ttl * 1000000" "in_range (t + ttl * 1000000)"
  shows "\<exists>l. require_active tbl i w (Some ttl) observed now = Inr l"
  using assms by (simp add: require_active_def inspect_def lease_string_def lease_time_def lease_projection_def Let_def)

context sql_database
begin

lemma claim_grants:
  assumes inv: "sql_inv D tbl" and ids: "\<forall>r \<in> set tbl. py_strip (row_job_id r) = row_job_id r"
    and ok: "claim_next_worker_execution D tbl worker wtype workload ttl observed now = (Inr (Some x), tbl')"
  obtains obs j0 job r where "parse_wire_datetime (or_default observed now) = Inr obs" "sql_inv D tbl'"
    "sql_get_job D tbl (job_id job) = Some j0" "status j0 = QUEUED" "job_step j0 job"
    "map_of CURRENT_CX_WORKLOADS (py_strip workload) = Some (job_type job)"
    "sql_get_job D tbl' = (sql_get_job D tbl)(job_id job := Some job)"
    "find_row tbl' (job_id job) = Some r" "row_status r = RUNNING" "row_locked_by r = Some (py_strip worker)"
    "row_locked_at r = Some obs" "ex_worker x = py_strip worker" "ex_state x = X_CLAIMED"
    "ex_attempt x = attempt_count job" "ex_started x = obs"
    "ex_lease x = Some (obs + (case ttl of None \<Rightarrow> default_lease_ttl | Some t \<Rightarrow> t) * 1000000)"
proof -
  let ?w = "py_strip worker" and ?load = "py_strip workload"
  from ok obtain jtype obs job l where load: "map_of CURRENT_CX_WORKLOADS ?load = Some jtype"
    and obs: "parse_wire_datetime (or_default observed now) = Inr obs"
    and claim: "sql_claim D tbl ?w (Some jtype) (Some (wire_timestamp obs)) now = Inr (Some job, tbl')"
    and l: "require_active tbl' (job_id job) ?w ttl (Some (wire_timestamp obs)) now = Inr l"
    and x: "build_cx_worker_execution job ?w wtype ?load
                            (case le_expires l of None \<Rightarrow> ''None'' | Some x \<Rightarrow> wire_timestamp x)
                            (Some (wire_timestamp obs)) now = Inr x"
    unfolding claim_next_worker_execution_def
    by (auto simp: res_simps split: sum.splits option.splits job_exn.splits contract_exn.splits prod.splits)
  have obs': "in_range obs" "or_default (Some (wire_timestamp obs)) now = wire_timestamp obs"
    using parse_wire_datetime_range [OF obs] or_default_wire by auto
  from sql_claim_law [OF inv claim] obtain j0 where law: "sql_inv D tbl'" "status job = RUNNING"
    "sql_get_job D tbl (job_id job) = Some j0" "job_step j0 job" "job_type job = jtype"
    "sql_get_job D tbl' = (sql_get_job D tbl)(job_id job := Some job)" by auto
  have q: "status j0 = QUEUED" using law(2,4) by (auto elim!: job_step.cases simp: TERMINAL_JOB_STATUSES_def)
  have "sql_get_job D tbl' (job_id job) = Some job" using law(6) by simp
  then obtain r where r: "find_row tbl' (job_id job) = Some r" by (auto simp: sql_get_Some)
  have row: "row_status r = RUNNING" "row_locked_by r = Some ?w" "row_locked_at r = Some obs"
    using sql_claim_row [OF claim r] obs' db_reads by simp_all
  have strip: "py_strip (job_id job) = job_id job"
    using law(3) ids find_row_in [of tbl "job_id job"] unfolding sql_get_Some by metis
  let ?t = "obs + (case ttl of None \<Rightarrow> default_lease_ttl | Some t \<Rightarrow> t) * 1000000"
  have t: "le_expires l = Some ?t" "obs < ?t"
    using l obs' r row(3) by (auto elim!: require_active_Inr simp: strip)
  have range: "in_range ?t"
    using l r row(3) strip
    by (auto simp: require_active_def inspect_def lease_projection_def res_simps split: option.splits if_splits)
  obtain t' u where b: "map_of CURRENT_CX_WORKLOADS (ex_workload x) = Some (job_type job)"
    "parse_wire_datetime (wire_timestamp ?t) = Inr t'"
    "parse_wire_datetime (wire_timestamp obs) = Inr u" "ex_state x = X_CLAIMED" "ex_started x = u"
    "ex_lease x = Some t'" "ex_worker x = py_strip ?w" "ex_attempt x = attempt_count job"
    using x t(1) by (auto elim!: build_execution_Inr)
  show ?thesis
    by (rule that [OF obs law(1,3) q law(4) _ law(6) r row])
      (use b load law(5) range obs'(1) in auto)
qed

text \<open>
  A blank worker type is only noticed after the claim has committed: no execution is returned and
  the job stays claimed.
\<close>

lemma claim_blank_type:
  assumes inv: "sql_inv D tbl" and load: "map_of CURRENT_CX_WORKLOADS (py_strip workload) = Some jtype"
    and worker: "py_strip worker \<noteq> []" and obs: "parse_wire_datetime (or_default observed now) = Inr obs"
    and claim: "sql_claim D tbl (py_strip worker) (Some jtype) (Some (wire_timestamp obs)) now = Inr (Some job, t1)"
    and blank: "py_strip wtype = []"
  shows "\<exists>e. claim_next_worker_execution D tbl worker wtype workload ttl observed now = (Inl e, t1)"
    "sql_get_job D t1 (job_id job) = Some job \<and> status job = RUNNING"
proof -
  have build: "build_cx_worker_execution j w wtype l lx o' n \<noteq> Inr x" for j w l lx o' n x
    using blank by (auto simp: build_cx_worker_execution_def res_simps)
  have "py_strip workload \<noteq> []" using load by (auto simp: CURRENT_CX_WORKLOADS_def)
  then have pre: "sbind (lease_string worker ''worker_id'') (\<lambda>w.
           sbind (lease_string workload ''workload'') (\<lambda>load.
           case map_of CURRENT_CX_WORKLOADS load of
             None \<Rightarrow> Inl (lease_error ''workload_invalid'' ''workload must name a registered CX worker workload.'' 422 False)
           | Some jtype \<Rightarrow>
               sbind (lease_time (or_default observed now) ''observed_at'') (\<lambda>obs. Inr (w, load, jtype, obs)))) =
    Inr (py_strip worker, py_strip workload, jtype, obs)"
    using load worker obs by (simp add: lease_string_def lease_time_def)
  show "\<exists>e. claim_next_worker_execution D tbl worker wtype workload ttl observed now = (Inl e, t1)"
    unfolding claim_next_worker_execution_def pre
    using build by (simp add: claim split: sum.split contract_exn.split)
  show "sql_get_job D t1 (job_id job) = Some job \<and> status job = RUNNING"
    using sql_claim_law [OF inv claim] by simp
qed

end

end
