(* ===== verification/Sample_States.thy ===== *)
theory Sample_States
  imports Worker_Runner Job_Control Worker_Leases
begin

section \<open>Sample states\<close>

text \<open>
  Concrete jobs, queues, tables and environments, with what the operations compute on them. The
  witnesses of the properties are instances at these states.
\<close>

definition t0 :: string where "t0 = ''2026-01-01T00:00:00Z''"
definition t1 :: string where "t1 = ''2026-01-01T00:01:00Z''"

definition sample_job :: common_job where
  "sample_job =
     \<lparr>job_schema_version = ''common_job.v1'', job_id = ''job-1'', job_type = ''cx.document_ingestion'', status = QUEUED,
      trace_id = ''trace-1'', request_id = ''request-1'', subject_ref = [(''type'', PStr ''document''), (''id'', PStr ''doc-1'')],
      idempotency_key = ''key-1'', attempt_count = 0, max_attempts = 3, retryable = True, links = [],
      created_at = t0, updated_at = t0, payload = Some (PDict []), error = PNone, available_at = None,
      replay_lineage = PNone\<rparr>"

definition sample_queue :: memory_queue where
  "sample_queue = \<lparr>jobs = [(''job-1'', sample_job)], idempotency_index = [((''cx.document_ingestion'', ''key-1''), ''job-1'')]\<rparr>"

lemma sample_enqueue: "enqueue empty_queue sample_job = Inr (sample_job, sample_queue)"
  by code_simp

lemma sample_reachable: "queue_reachable sample_queue"
  by (rule queue_reachable.step [OF queue_reachable.start])
    (rule queue_step.call [of _ t0 "Enqueue sample_job"], simp add: sample_enqueue)

lemma sample_inv: "queue_inv sample_queue"
  by (rule queue_reachable_inv [OF sample_reachable])

lemma time_t0: "parse_wire_datetime t0 = Inr 63902822400000000"
  by code_simp

definition claimed_job :: common_job where
  "claimed_job = sample_job\<lparr>status := RUNNING, attempt_count := 1, updated_at := t1\<rparr>"

definition claimed_queue :: memory_queue where
  "claimed_queue = sample_queue\<lparr>jobs := [(''job-1'', claimed_job)]\<rparr>"

lemma sample_claim:
  "claim_next_job sample_queue ''worker-1'' (Some ''cx.document_ingestion'') (Some t1) t1 = Inr (Some claimed_job, claimed_queue)"
  by code_simp


subsection \<open>A failing, dead job and its replay\<close>

definition dead_job :: common_job where
  "dead_job = claimed_job\<lparr>status := FAILED, retryable := False, available_at := Some t1,
     error := PDict [(''error_code'', PStr ''job.execution_failed''), (''detail'', PStr ''job execution failed''),
       (''retryable'', PBool False), (''dead_lettered'', PBool True)]\<rparr>"

definition dead_queue :: memory_queue where
  "dead_queue = sample_queue\<lparr>jobs := [(''job-1'', dead_job)]\<rparr>"

lemma sample_dead: "dead_letter_job claimed_queue ''job-1'' None (Some t1) t1 = Inr (dead_job, dead_queue)"
  by code_simp

lemma claimed_reachable: "queue_reachable claimed_queue"
  by (rule queue_reachable.step [OF sample_reachable])
    (rule queue_step.call [of _ t1 "Claim ''worker-1'' (Some ''cx.document_ingestion'') (Some t1)"],
      simp add: sample_claim)

lemma dead_reachable: "queue_reachable dead_queue"
  by (rule queue_reachable.step [OF claimed_reachable])
    (rule queue_step.call [of _ t1 "Dead_Letter ''job-1'' None (Some t1)"], simp add: sample_dead)

definition replay_body :: "string \<Rightarrow> string \<Rightarrow> pydict" where
  "replay_body key at_time =
     [(''replay_job_id'', PStr ''job-2''), (''idempotency_key'', PStr key), (''requested_by'', PStr ''operator''),
      (''reason'', PStr ''provider restored''), (''observed_at'', PStr at_time)]"

definition sample_replay where
  "sample_replay = replay_and_enqueue memory_ops t1 dead_queue ''job-1'' (Some (replay_body ''key-2'' ''soon''))"

definition bad_replay_parts where
  "bad_replay_parts = (case sample_replay of Inr p \<Rightarrow> p)"

lemma sample_replay: "sample_replay = Inr bad_replay_parts"
  by code_simp

subsection \<open>A table\<close>

definition sample_db :: database where
  "sample_db = wire_database (\<lambda>_. Inl ValueError)"

definition sample_row :: job_row where
  "sample_row = (case row_of_job sample_db sample_job of Inr r \<Rightarrow> r)"

definition sample_stored :: common_job where
  "sample_stored = (case job_from_row sample_db sample_row of Inr j \<Rightarrow> j)"

lemma sample_row_of_job: "row_of_job sample_db sample_job = Inr sample_row"
  by code_simp

lemma sample_sql_enqueue: "sql_enqueue sample_db [] sample_job = Inr (sample_stored, [sample_row])"
  by code_simp

lemma sample_stored_form: "stored_form sample_db sample_job = Inr sample_stored"
  by code_simp

lemma sample_sim: "sql_sim sample_db empty_queue []"
  unfolding sql_sim_def
  by (intro conjI allI queue_inv_empty; simp add: sql_inv_def get_job_def sql_get_job_def select_job_def find_row_def
      empty_queue_def)

lemma sample_table_inv: "sql_inv sample_db [sample_row]"
proof -
  have "sql_inv sample_db []" by (simp add: sql_inv_def)
  from this sample_sql_enqueue show ?thesis
    by (cases rule: sql_enqueue_Inr) auto
qed

subsection \<open>Two jobs half a second apart\<close>

definition early_job :: common_job where
  "early_job = sample_job\<lparr>job_id := ''job-early'', idempotency_key := ''key-early'', created_at := ''2026-01-01T00:00:00Z''\<rparr>"

definition late_job :: common_job where
  "late_job = sample_job\<lparr>job_id := ''job-late'', idempotency_key := ''key-late'', created_at := ''2026-01-01T00:00:00.500000Z''\<rparr>"

definition memory_both :: memory_queue where
  "memory_both = snd (projr (enqueue (snd (projr (enqueue empty_queue early_job))) late_job))"

definition sql_both :: table where
  "sql_both = snd (projr (sql_enqueue sample_db (snd (projr (sql_enqueue sample_db [] early_job))) late_job))"

lemma both_alike: "sql_sim sample_db memory_both sql_both"
proof -
  have one: "sql_sim D (snd (projr m)) (snd (projr s))" if "sim_result D m s" "\<not> isl m" for D m s
    using that by (auto simp: sim_result_def isl_def split: sum.splits)
  have "\<not> isl (stored_form sample_db early_job)" "\<not> isl (stored_form sample_db late_job)" by code_simp+
  then obtain e l where sf: "stored_form sample_db early_job = Inr e" "stored_form sample_db late_job = Inr l"
    by (cases "stored_form sample_db early_job"; cases "stored_form sample_db late_job") auto
  have ok: "\<not> isl (enqueue empty_queue early_job)" "\<not> isl (enqueue (snd (projr (enqueue empty_queue early_job))) late_job)"
    by code_simp+
  from one [OF sim_enqueue [OF one [OF sim_enqueue [OF sample_sim sf(1)] ok(1)] sf(2)] ok(2)]
  show ?thesis by (simp add: memory_both_def sql_both_def)
qed

subsection \<open>A second job\<close>

definition other_job :: common_job where
  "other_job = sample_job\<lparr>job_id := ''job-2'', idempotency_key := ''key-2'', created_at := t1, updated_at := t1\<rparr>"

definition two_jobs :: memory_queue where
  "two_jobs = (case enqueue dead_queue other_job of Inr (j, q) \<Rightarrow> q)"

lemma sample_second: "enqueue dead_queue other_job = Inr (other_job, two_jobs)"
  by code_simp

lemma sample_second_step: "queue_step dead_queue two_jobs"
  by (rule queue_step.call [of _ t1 "Enqueue other_job"], simp add: sample_second)

subsection \<open>Workers\<close>

definition sample_config :: worker_config where
  "sample_config = \<lparr>cfg_service = ''nex-cx'', cfg_worker = ''worker-1'', cfg_type = ''ingest'',
     cfg_job_type = ''cx.document_ingestion'', cfg_max_jobs = 5\<rparr>"

definition sample_emitter :: heartbeat_emitter where
  "sample_emitter = \<lparr>em_service = ''nex-cx'', em_worker = ''worker-1'', em_type = ''ingest'', em_started = t0,
     em_metadata = []\<rparr>"

definition sample_handler :: "common_job \<Rightarrow> 's \<Rightarrow> (handler_exn + pydict option) \<times> 's" where
  "sample_handler j s =
     (if attempt_count j = 1 then Inl \<lparr>exn_code = None, exn_detail = None, exn_class = ''TimeoutError''\<rparr> else Inr None, s)"

definition sample_env :: "'s job_queue \<Rightarrow> ('s, unit) runner_env" where
  "sample_env Q = \<lparr>config = sample_config, queue = Q, emitter = sample_emitter, handler = sample_handler,
     log_emit = None, finalizes = False, clock = (\<lambda>_. t1), utc_now = t1\<rparr>"

definition sample_state :: "'s \<Rightarrow> ('s, unit) runner_state" where
  "sample_state s = \<lparr>rs_queue = s, rs_ticks = 0, rs_beats = [], rs_logs = (), rs_beat_results = [],
     rs_log_results = []\<rparr>"

lemma good_t1: "good_time t1"
  by code_simp

lemma sample_runner_ok: "runner_ok (sample_env Q)"
  by (simp add: runner_ok_def sample_env_def quiet_handler_def sample_handler_def handler_error_code_def
      handler_error_detail_def good_t1)

lemma sample_env_queue: "queue (sample_env Q) = Q"
  by (simp add: sample_env_def)

lemma sample_small_memory: "small_jobs get_job sample_queue"
  by (simp add: small_jobs_def sample_queue_def get_job_def sample_job_def)

lemma sample_small_sql: "small_jobs (sql_get_job sample_db) [sample_row]"
proof -
  have "sql_inv sample_db []" by (simp add: sql_inv_def)
  from this sample_sql_enqueue have "sql_get_job sample_db [sample_row] = (sql_get_job sample_db [])(''job-1'' := Some sample_stored)"
    by (cases rule: sql_enqueue_Inr) (simp_all add: sample_job_def)
  moreover have "max_attempts sample_stored = 3" by code_simp
  ultimately show ?thesis by (auto simp: small_jobs_def sql_get_job_def select_job_def find_row_def)
qed

subsection \<open>Leases and executions\<close>


definition sample_claimed :: "common_job option \<times> table" where
  "sample_claimed = (case sql_claim sample_db [sample_row] ''worker-1'' (Some ''cx.document_ingestion'') (Some t1) t1 of Inr p \<Rightarrow> p)"

definition sample_claimed_job :: common_job where
  "sample_claimed_job = (case fst sample_claimed of Some j \<Rightarrow> j)"

definition leased_table :: table where
  "leased_table = snd sample_claimed"

lemma sample_sql_claim:
  "sql_claim sample_db [sample_row] ''worker-1'' (Some ''cx.document_ingestion'') (Some t1) t1 =
     Inr (Some sample_claimed_job, leased_table)"
proof -
  have "case sql_claim sample_db [sample_row] ''worker-1'' (Some ''cx.document_ingestion'') (Some t1) t1 of
      Inr (Some j, tbl) \<Rightarrow> True | _ \<Rightarrow> False"
    by code_simp
  then show ?thesis
    by (auto simp: sample_claimed_job_def leased_table_def sample_claimed_def split: sum.splits option.splits)
qed

definition sample_lease :: lease where
  "sample_lease = (case require_active leased_table ''job-1'' ''worker-1'' (Some 120) (Some t1) t1 of Inr l \<Rightarrow> l)"

lemma sample_lease: "require_active leased_table ''job-1'' ''worker-1'' (Some 120) (Some t1) t1 = Inr sample_lease"
  by code_simp

definition t2 :: string where "t2 = ''2026-01-01T00:01:30Z''"
definition t3 :: string where "t3 = ''2026-01-01T00:03:00Z''"

definition sample_execution :: cx_execution where
  "sample_execution =
     (case build_cx_worker_execution sample_claimed_job ''worker-1'' ''ingest'' ''document_ingestion'' t3 (Some t1) t1 of
        Inr x \<Rightarrow> x)"

lemma sample_build:
  "build_cx_worker_execution sample_claimed_job ''worker-1'' ''ingest'' ''document_ingestion'' t3 (Some t1) t1 =
     Inr sample_execution"
  by code_simp

lemma sample_lease_parts:
  "lease_string ''worker-1'' ''worker_id'' = Inr ''worker-1''"
  "lease_string ''document_ingestion'' ''workload'' = Inr ''document_ingestion''"
  "map_of CURRENT_CX_WORKLOADS ''document_ingestion'' = Some ''cx.document_ingestion''"
  "lease_time t1 ''observed_at'' = Inr 63902822460000000"
  "wire_timestamp 63902822460000000 = t1"
  "job_id sample_claimed_job = ''job-1''"
  "le_expires sample_lease = Some 63902822580000000"
  "wire_timestamp 63902822580000000 = t3"
  by code_simp+

lemma sample_or_default: "or_default (Some t1) d = t1" "or_default (Some t2) d = t2"
  by (simp_all add: t1_def t2_def)

lemma sample_execution_claimed:
  "claim_next_worker_execution sample_db [sample_row] ''worker-1'' ''ingest'' ''document_ingestion'' (Some 120) (Some t1) t1 =
     (Inr (Some sample_execution), leased_table)"
  by (simp add: claim_next_worker_execution_def sample_lease_parts sample_sql_claim sample_lease sample_build t1_def [symmetric] sample_or_default)

lemma sample_leased_inv: "sql_inv sample_db leased_table"
  using sql_claim_law [OF sample_table_inv sample_sql_claim] by simp

definition renewed :: "(lease_exn + lease) \<times> table" where
  "renewed = renew sample_db leased_table ''job-1'' ''worker-1'' t1 (Some t2) (Some 120) t2"

lemma sample_renew_parts:
  "lease_string ''job-1'' ''job_id'' = Inr ''job-1''"
  "lease_time t1 ''expected_locked_at'' = Inr 63902822460000000"
  "lease_time t2 ''observed_at'' = Inr 63902822490000000"
  "lease_param sample_db 63902822460000000 = Inr 63902822460000000"
  "lease_param sample_db 63902822490000000 = Inr 63902822490000000"
  by code_simp+

definition renewed_rows :: table where
  "renewed_rows = renewed_table leased_table ''job-1'' ''worker-1'' 63902822460000000 63902822490000000"

lemma sample_renewed_row:
  "length (filter (renewable ''job-1'' ''worker-1'' 63902822460000000) leased_table) = 1"
  "find_row renewed_rows ''job-1'' = Some (hd renewed_rows)"
  by code_simp+

definition renewed_lease :: lease where
  "renewed_lease = (case lease_projection (hd renewed_rows) 120 63902822490000000 of Inr l \<Rightarrow> l)"

lemma sample_projection: "lease_projection (hd renewed_rows) 120 63902822490000000 = Inr renewed_lease"
  "le_locked renewed_lease = Some 63902822490000000"
  by code_simp+

lemma sample_leased_ids: "\<forall>r \<in> set [sample_row]. py_strip (row_job_id r) = row_job_id r"
  by code_simp

lemma sample_renewed: "renewed = (Inr renewed_lease, renewed_rows)"
  by (simp add: renewed_def renew_def sample_renew_parts sample_lease_parts sample_or_default sample_renewed_row
      renewed_rows_def [symmetric] sample_projection del: One_nat_def)

end
