(* ===== verification/Model_Rollout.thy ===== *)
theory Model_Rollout
  imports Wire_Time
begin

section \<open>Model revisions and GPU capacity\<close>

text \<open>
  \<^verbatim>\<open>services/nex-mo/nex_mo/model_rollout.py\<close>: the identity of a model revision, what a GPU node can
  take and a capacity snapshot of nodes, each validated when it is built. The digest
  (\<open>sha256\<close> of the canonical JSON text, with its prefix) is the argument \<open>digest\<close>. Finite
  floats are rationals; the checks reject the others.
\<close>

subsection \<open>Errors and shared checks\<close>

datatype rollout_exn = RolloutError string string | Rollout_Py py_error

definition ident_start :: "char \<Rightarrow> bool" where
  "ident_start c \<longleftrightarrow>
     (let n = (of_char c :: nat) in 65 \<le> n \<and> n \<le> 90 \<or> 97 \<le> n \<and> n \<le> 122 \<or> 48 \<le> n \<and> n \<le> 57)"

definition ident_char :: "char \<Rightarrow> bool" where
  "ident_char c \<longleftrightarrow> ident_start c \<or> c \<in> set ''._:/-''"

text \<open>\<open>[A-Za-z0-9][A-Za-z0-9._:/-]{0,199}\<close> and \<open>sha256:[0-9a-f]{64}\<close>, as full matches.\<close>

definition is_identifier :: "string \<Rightarrow> bool" where
  "is_identifier s \<longleftrightarrow> s \<noteq> [] \<and> ident_start (hd s) \<and> list_all ident_char (tl s) \<and> length s \<le> 200"

definition is_sha256 :: "string \<Rightarrow> bool" where
  "is_sha256 s \<longleftrightarrow> take 7 s = ''sha256:'' \<and> length s = 71 \<and> list_all (\<lambda>c. c \<in> set ''0123456789abcdef'') (drop 7 s)"

definition check_identifier :: "string \<Rightarrow> string \<Rightarrow> rollout_exn + string" where
  "check_identifier v f =
     (if is_identifier v then Inr v
      else Inl (RolloutError (''mo.'' @ f @ ''_invalid'') (f @ '' must be a stable identifier'')))"

definition digest_text :: "string \<Rightarrow> string \<Rightarrow> rollout_exn + string" where
  "digest_text v f =
     (if is_sha256 v then Inr v
      else Inl (RolloutError (''mo.'' @ f @ ''_invalid'') (f @ '' must be a SHA-256 digest'')))"

text \<open>\<open>_timestamp\<close>: unlike the job queue, a naive time is refused.\<close>

definition rollout_time :: "string \<Rightarrow> string \<Rightarrow> rollout_exn + int" where
  "rollout_time v f =
     (case fromisoformat (replace_Z v) of
        None \<Rightarrow> Inl (RolloutError (''mo.'' @ f @ ''_invalid'') (f @ '' must be ISO 8601''))
      | Some (local, None) \<Rightarrow> Inl (RolloutError (''mo.'' @ f @ ''_invalid'') (f @ '' must include a timezone''))
      | Some (local, Some off) \<Rightarrow> map_err Rollout_Py (to_utc local off))"

fun each_check :: "('a \<Rightarrow> 'e + 'b) \<Rightarrow> 'a list \<Rightarrow> 'e + unit" where
  "each_check f [] = Inr ()"
| "each_check f (x # xs) = sbind (f x) (\<lambda>_. each_check f xs)"

lemma each_check_Inr [res_simps]: "each_check f xs = Inr u \<longleftrightarrow> (\<forall>x \<in> set xs. \<exists>y. f x = Inr y)"
  by (induction xs) (auto simp: res_simps)

lemma check_identifier_Inr [res_simps]: "check_identifier v f = Inr x \<longleftrightarrow> x = v \<and> is_identifier v"
  by (auto simp: check_identifier_def)

lemma digest_text_Inr [res_simps]: "digest_text v f = Inr x \<longleftrightarrow> x = v \<and> is_sha256 v"
  by (auto simp: digest_text_def)

text \<open>The texts the services write are times here too, and a time read here is read so by the queue.\<close>

lemma rollout_time_parse: "rollout_time v f = Inr t \<Longrightarrow> parse_wire_datetime v = Inr t"
  by (auto simp: rollout_time_def parse_wire_datetime_def res_simps split: option.splits)

lemma rollout_time_field: "rollout_time v f = Inr t \<Longrightarrow> rollout_time v g = Inr t"
  by (auto simp: rollout_time_def split: option.splits)

subsection \<open>The identity of a model revision\<close>

record identity =
  id_capability :: string
  id_alias :: string
  id_catalog :: string
  id_revision :: string
  id_deployment :: string
  id_artifact :: string
  id_engine :: string
  id_precision :: string
  id_shape :: string

definition MODEL_CAPABILITIES :: "string list" where
  "MODEL_CAPABILITIES = [''embedding'', ''reranking'', ''generation'']"

definition check_identity :: "identity \<Rightarrow> rollout_exn + unit" where
  "check_identity i =
     (if id_capability i \<notin> set MODEL_CAPABILITIES then
        Inl (RolloutError ''mo.rollout_capability_invalid'' ''unsupported model capability'')
      else
        sbind (each_check (\<lambda>(f, v). check_identifier v f)
          [(''alias'', id_alias i), (''catalog_id'', id_catalog i), (''model_revision'', id_revision i),
           (''deployment_id'', id_deployment i), (''runtime_engine'', id_engine i), (''precision'', id_precision i)]) (\<lambda>_.
        sbind (digest_text (id_artifact i) ''artifact_digest'') (\<lambda>_.
        sbind (digest_text (id_shape i) ''request_shape_hash'') (\<lambda>_. Inr ()))))"

definition identity_wire :: "identity \<Rightarrow> pydict" where
  "identity_wire i =
     [(''provider_capability'', PStr (id_capability i)), (''alias'', PStr (id_alias i)),
      (''catalog_id'', PStr (id_catalog i)), (''model_revision'', PStr (id_revision i)),
      (''deployment_id'', PStr (id_deployment i)), (''artifact_digest'', PStr (id_artifact i)),
      (''runtime_engine'', PStr (id_engine i)), (''precision'', PStr (id_precision i)),
      (''request_shape_hash'', PStr (id_shape i))]"

definition fingerprint :: "(pyval \<Rightarrow> string) \<Rightarrow> identity \<Rightarrow> string" where
  "fingerprint digest i = digest (PDict (identity_wire i))"

definition identity_wf :: "identity \<Rightarrow> bool" where
  "identity_wf i \<longleftrightarrow>
     id_capability i \<in> set MODEL_CAPABILITIES \<and> is_identifier (id_alias i) \<and> is_identifier (id_catalog i) \<and>
     is_identifier (id_revision i) \<and> is_identifier (id_deployment i) \<and> is_identifier (id_engine i) \<and>
     is_identifier (id_precision i) \<and> is_sha256 (id_artifact i) \<and> is_sha256 (id_shape i)"

lemma check_identity_iff [simp]: "check_identity i = Inr u \<longleftrightarrow> identity_wf i"
  by (auto simp: check_identity_def identity_wf_def res_simps)

lemma check_identity_ok [simp]: "identity_wf i \<Longrightarrow> check_identity i = Inr ()"
  by simp

text \<open>Two identities with one wire form are one identity.\<close>

lemma identity_wire_inj: "identity_wire i = identity_wire j \<longleftrightarrow> i = j"
  by (cases i; cases j) (auto simp: identity_wire_def)

subsection \<open>GPU nodes\<close>

record gpu_node =
  gn_id :: string
  gn_type :: string
  gn_gpus :: int
  gn_allocatable :: int
  gn_memory :: int
  gn_reserved :: int
  gn_active :: int
  gn_queue :: int
  gn_utilization :: rat
  gn_temperature :: rat
  gn_health :: string

definition NODE_HEALTH_STATUSES :: "string list" where
  "NODE_HEALTH_STATUSES = [''HEALTHY'', ''DEGRADED'', ''UNAVAILABLE'']"

definition check_node :: "gpu_node \<Rightarrow> rollout_exn + unit" where
  "check_node n =
     sbind (check_identifier (gn_id n) ''node_id'') (\<lambda>_.
     sbind (check_identifier (gn_type n) ''accelerator_type'') (\<lambda>_.
     if gn_gpus n < 1 then
       Inl (RolloutError ''mo.capacity_gpu_count_invalid'' ''gpu_count must be positive'')
     else if \<not> (0 \<le> gn_allocatable n \<and> gn_allocatable n \<le> gn_gpus n) then
       Inl (RolloutError ''mo.capacity_allocatable_gpu_invalid'' ''allocatable GPU count exceeds node capacity'')
     else if gn_memory n < 1 \<or> \<not> (0 \<le> gn_reserved n \<and> gn_reserved n \<le> gn_memory n) then
       Inl (RolloutError ''mo.capacity_memory_invalid'' ''GPU memory capacity is invalid'')
     else if gn_active n < 0 \<or> gn_queue n < 0 then
       Inl (RolloutError ''mo.capacity_workload_invalid'' ''active request and queue counts must not be negative'')
     else if \<not> (0 \<le> gn_utilization n \<and> gn_utilization n \<le> 100) then
       Inl (RolloutError ''mo.capacity_utilization_invalid'' ''GPU utilization must be between 0 and 100'')
     else if \<not> (0 \<le> gn_temperature n \<and> gn_temperature n \<le> 150) then
       Inl (RolloutError ''mo.capacity_temperature_invalid'' ''GPU temperature must be between 0 and 150'')
     else if gn_health n \<notin> set NODE_HEALTH_STATUSES then
       Inl (RolloutError ''mo.capacity_health_invalid'' ''unsupported GPU node health status'')
     else Inr ()))"

definition memory_available :: "gpu_node \<Rightarrow> int" where
  "memory_available n = gn_memory n - gn_reserved n"

definition node_wire :: "gpu_node \<Rightarrow> pydict" where
  "node_wire n =
     [(''node_id'', PStr (gn_id n)), (''accelerator_type'', PStr (gn_type n)), (''gpu_count'', PInt (gn_gpus n)),
      (''allocatable_gpu_count'', PInt (gn_allocatable n)), (''memory_total_mib'', PInt (gn_memory n)),
      (''memory_reserved_mib'', PInt (gn_reserved n)), (''memory_available_mib'', PInt (memory_available n)),
      (''active_requests'', PInt (gn_active n)), (''queue_depth'', PInt (gn_queue n)),
      (''gpu_utilization_percent'', PFloat (gn_utilization n)), (''gpu_temperature_c'', PFloat (gn_temperature n)),
      (''health_status'', PStr (gn_health n))]"

definition node_wf :: "gpu_node \<Rightarrow> bool" where
  "node_wf n \<longleftrightarrow>
     is_identifier (gn_id n) \<and> is_identifier (gn_type n) \<and> 1 \<le> gn_gpus n \<and> 0 \<le> gn_allocatable n \<and>
     gn_allocatable n \<le> gn_gpus n \<and> 1 \<le> gn_memory n \<and> 0 \<le> gn_reserved n \<and> gn_reserved n \<le> gn_memory n \<and>
     0 \<le> gn_active n \<and> 0 \<le> gn_queue n \<and> 0 \<le> gn_utilization n \<and> gn_utilization n \<le> 100 \<and>
     0 \<le> gn_temperature n \<and> gn_temperature n \<le> 150 \<and> gn_health n \<in> set NODE_HEALTH_STATUSES"

lemma check_node_iff [simp]: "check_node n = Inr u \<longleftrightarrow> node_wf n"
  by (auto simp: check_node_def node_wf_def res_simps)

lemma check_node_ok [simp]: "node_wf n \<Longrightarrow> check_node n = Inr ()"
  by simp

subsection \<open>Capacity snapshots\<close>

record snapshot =
  sn_identity :: identity
  sn_nodes :: "gpu_node list"
  sn_source :: string
  sn_observed :: string
  sn_expires :: string

definition CAPACITY_SOURCES :: "string list" where
  "CAPACITY_SOURCES = [''deterministic_fixture'', ''protected_ssh'']"

definition check_snapshot :: "snapshot \<Rightarrow> rollout_exn + unit" where
  "check_snapshot s =
     (if sn_nodes s = [] then
        Inl (RolloutError ''mo.capacity_nodes_missing'' ''at least one GPU node is required'')
      else if \<not> distinct (map gn_id (sn_nodes s)) then
        Inl (RolloutError ''mo.capacity_node_duplicate'' ''GPU node identities must be unique'')
      else if sn_source s \<notin> set CAPACITY_SOURCES then
        Inl (RolloutError ''mo.capacity_source_invalid'' ''unsupported capacity observation source'')
      else
        sbind (rollout_time (sn_observed s) ''observed_at'') (\<lambda>observed.
        sbind (rollout_time (sn_expires s) ''expires_at'') (\<lambda>expires.
        if expires \<le> observed then
          Inl (RolloutError ''mo.capacity_expiry_invalid'' ''capacity expiry must follow observation time'')
        else Inr ())))"

text \<open>The objects a snapshot is built from have been validated when they were built.\<close>

definition build_capacity_snapshot ::
  "identity \<Rightarrow> gpu_node list \<Rightarrow> string \<Rightarrow> string \<Rightarrow> string \<Rightarrow> rollout_exn + snapshot" where
  "build_capacity_snapshot i nodes source observed expires =
     (let s = \<lparr>sn_identity = i, sn_nodes = nodes, sn_source = source, sn_observed = observed, sn_expires = expires\<rparr>
      in sbind (check_snapshot s) (\<lambda>_. Inr s))"

definition total_gpu_count :: "snapshot \<Rightarrow> int" where
  "total_gpu_count s = sum_list (map gn_gpus (sn_nodes s))"

definition allocatable_gpu_count :: "snapshot \<Rightarrow> int" where
  "allocatable_gpu_count s = sum_list (map gn_allocatable (sn_nodes s))"

definition snapshot_memory_available :: "snapshot \<Rightarrow> int" where
  "snapshot_memory_available s = sum_list (map memory_available (sn_nodes s))"

definition is_fresh :: "snapshot \<Rightarrow> string \<Rightarrow> rollout_exn + bool" where
  "is_fresh s at_time =
     sbind (rollout_time at_time ''at'') (\<lambda>instant.
     sbind (rollout_time (sn_observed s) ''observed_at'') (\<lambda>observed.
     if \<not> observed \<le> instant then Inr False
     else sbind (rollout_time (sn_expires s) ''expires_at'') (\<lambda>expires. Inr (instant < expires))))"

definition snapshot_wire :: "(pyval \<Rightarrow> string) \<Rightarrow> snapshot \<Rightarrow> pydict" where
  "snapshot_wire digest s =
     [(''schema_version'', PStr ''mo_model_capacity_snapshot.v1''), (''identity'', PDict (identity_wire (sn_identity s))),
      (''identity_fingerprint'', PStr (fingerprint digest (sn_identity s))), (''source'', PStr (sn_source s)),
      (''observed_at'', PStr (sn_observed s)), (''expires_at'', PStr (sn_expires s)),
      (''nodes'', PList (map (\<lambda>n. PDict (node_wire n)) (sn_nodes s))),
      (''summary'', PDict [(''node_count'', PInt (int (length (sn_nodes s)))),
         (''total_gpu_count'', PInt (total_gpu_count s)),
         (''allocatable_gpu_count'', PInt (allocatable_gpu_count s)),
         (''memory_available_mib'', PInt (snapshot_memory_available s))])]"

definition snapshot_wf :: "snapshot \<Rightarrow> bool" where
  "snapshot_wf s \<longleftrightarrow> identity_wf (sn_identity s) \<and> list_all node_wf (sn_nodes s) \<and> check_snapshot s = Inr ()"

lemma check_snapshot_Inr:
  "check_snapshot s = Inr u \<longleftrightarrow> sn_nodes s \<noteq> [] \<and> distinct (map gn_id (sn_nodes s)) \<and>
    sn_source s \<in> set CAPACITY_SOURCES \<and>
    (\<exists>t e. rollout_time (sn_observed s) ''observed_at'' = Inr t \<and> rollout_time (sn_expires s) ''expires_at'' = Inr e \<and> t < e)"
  by (auto simp: check_snapshot_def res_simps not_le)

lemma is_fresh_Inr:
  assumes "snapshot_wf s"
  shows "is_fresh s at_time = Inr b \<longleftrightarrow> (\<exists>i. rollout_time at_time ''at'' = Inr i \<and>
    b = (\<exists>t e. rollout_time (sn_observed s) ''observed_at'' = Inr t \<and>
      rollout_time (sn_expires s) ''expires_at'' = Inr e \<and> t \<le> i \<and> i < e))"
  using assms by (auto simp: snapshot_wf_def check_snapshot_Inr is_fresh_def res_simps)

lemma snapshot_totals:
  assumes "snapshot_wf s"
  shows "0 \<le> allocatable_gpu_count s" "allocatable_gpu_count s \<le> total_gpu_count s" "0 \<le> snapshot_memory_available s"
proof -
  have "list_all node_wf ns \<Longrightarrow> 0 \<le> sum_list (map gn_allocatable ns) \<and>
    sum_list (map gn_allocatable ns) \<le> sum_list (map gn_gpus ns) \<and> 0 \<le> sum_list (map memory_available ns)" for ns
    by (induction ns) (auto simp: node_wf_def memory_available_def)
  then show "0 \<le> allocatable_gpu_count s" "allocatable_gpu_count s \<le> total_gpu_count s" "0 \<le> snapshot_memory_available s"
    using assms by (auto simp: snapshot_wf_def allocatable_gpu_count_def total_gpu_count_def snapshot_memory_available_def)
qed

end
