(* ===== verification/Capacity_Scheduler.thy ===== *)
theory Capacity_Scheduler
  imports Model_Rollout
begin

section \<open>Capacity admission\<close>

text \<open>
  \<^verbatim>\<open>services/nex-mo/nex_mo/model_capacity_scheduler.py\<close>: whether a rollout gets GPUs on a node of
  a capacity snapshot, given the reservations already held. The headroom is computed in doubles,
  so their rounding is written out.
\<close>

subsection \<open>Doubles\<close>

function bit_length :: "int \<Rightarrow> int" where
  "bit_length n = (if n \<le> 0 then 0 else 1 + bit_length (n div 2))"
  by auto
termination
  by (relation "measure nat") auto

declare bit_length.simps [simp del]

text \<open>The exponent \<open>e\<close> with \<open>2 ^ e \<le> q < 2 ^ (e + 1)\<close>, for a positive \<open>q\<close>.\<close>

definition log2_floor :: "rat \<Rightarrow> int" where
  "log2_floor q =
     (if 1 \<le> q then bit_length \<lfloor>q\<rfloor> - 1 else - bit_length (\<lceil>1 / q\<rceil> - 1))"

definition scale2 :: "rat \<Rightarrow> int \<Rightarrow> rat" where
  "scale2 q e = (if 0 \<le> e then q * 2 ^ nat e else q / 2 ^ nat (- e))"

definition round_half_even :: "rat \<Rightarrow> int" where
  "round_half_even q =
     (let f = \<lfloor>q\<rfloor>; r = q - of_int f in
      if r < 1 / 2 then f else if 1 / 2 < r then f + 1 else if even f then f else f + 1)"

text \<open>The double nearest to a rational in the range of doubles, subnormal ones included.\<close>

definition to_double :: "rat \<Rightarrow> rat" where
  "to_double q =
     (if q = 0 then 0
      else let e = max (-1074) (log2_floor \<bar>q\<bar> - 52);
               m = scale2 (of_int (round_half_even (scale2 \<bar>q\<bar> (- e)))) e
           in if q < 0 then - m else m)"

subsection \<open>Policy, request, reservation\<close>

record capacity_policy =
  cp_headroom :: rat
  cp_utilization :: rat
  cp_temperature :: rat
  cp_queue :: int
  cp_active :: int

definition default_capacity_policy :: capacity_policy where
  "default_capacity_policy =
     \<lparr>cp_headroom = 15, cp_utilization = 85, cp_temperature = 85, cp_queue = 8, cp_active = 32\<rparr>"

definition check_capacity_policy :: "capacity_policy \<Rightarrow> rollout_exn + unit" where
  "check_capacity_policy p =
     (if \<not> (0 \<le> cp_headroom p \<and> cp_headroom p < 100) then
        Inl (RolloutError ''mo.capacity_headroom_policy_invalid'' ''memory headroom policy must be between 0 and 100'')
      else if \<not> (1 \<le> cp_utilization p \<and> cp_utilization p \<le> 100) then
        Inl (RolloutError ''mo.capacity_utilization_policy_invalid'' ''GPU utilization ceiling must be between 1 and 100'')
      else if \<not> (1 \<le> cp_temperature p \<and> cp_temperature p \<le> 150) then
        Inl (RolloutError ''mo.capacity_temperature_policy_invalid'' ''GPU temperature ceiling must be between 1 and 150'')
      else if cp_queue p < 0 \<or> cp_active p < 1 then
        Inl (RolloutError ''mo.capacity_workload_policy_invalid'' ''queue and active request policy is invalid'')
      else Inr ())"

record capacity_request =
  cr_rollout :: string
  cr_fingerprint :: string
  cr_gpus :: int
  cr_memory :: int
  cr_concurrency :: int
  cr_exclusive :: bool

definition fingerprint_invalid :: rollout_exn where
  "fingerprint_invalid =
     RolloutError ''mo.capacity_identity_fingerprint_invalid'' ''identity fingerprint must be a SHA-256 digest''"

definition check_request :: "capacity_request \<Rightarrow> rollout_exn + unit" where
  "check_request r =
     sbind (check_identifier (cr_rollout r) ''rollout_id'') (\<lambda>_.
     if \<not> is_sha256 (cr_fingerprint r) then Inl fingerprint_invalid
     else if cr_gpus r < 1 \<or> cr_memory r < 1 \<or> cr_concurrency r < 1 then
       Inl (RolloutError ''mo.capacity_request_invalid'' ''capacity request values must be positive'')
     else Inr ())"

record reservation =
  rv_id :: string
  rv_rollout :: string
  rv_fingerprint :: string
  rv_node :: string
  rv_gpus :: int
  rv_memory :: int
  rv_concurrency :: int
  rv_exclusive :: bool
  rv_state :: string

definition RESERVATION_STATES :: "string list" where
  "RESERVATION_STATES = [''RESERVED'', ''RELEASED'']"

definition check_reservation :: "reservation \<Rightarrow> rollout_exn + unit" where
  "check_reservation r =
     sbind (each_check (\<lambda>(f, v). check_identifier v f)
       [(''reservation_id'', rv_id r), (''rollout_id'', rv_rollout r), (''node_id'', rv_node r)]) (\<lambda>_.
     if \<not> is_sha256 (rv_fingerprint r) then Inl fingerprint_invalid
     else if rv_gpus r < 1 \<or> rv_memory r < 1 \<or> rv_concurrency r < 1 then
       Inl (RolloutError ''mo.capacity_reservation_invalid'' ''reservation values must be positive'')
     else if rv_state r \<notin> set RESERVATION_STATES then
       Inl (RolloutError ''mo.capacity_reservation_state_invalid'' ''unsupported reservation state'')
     else Inr ())"

definition release :: "reservation \<Rightarrow> rollout_exn + reservation" where
  "release r =
     (if rv_state r = ''RELEASED'' then Inr r
      else let r' = r\<lparr>rv_state := ''RELEASED''\<rparr> in sbind (check_reservation r') (\<lambda>_. Inr r'))"

definition reservation_wire :: "reservation \<Rightarrow> pydict" where
  "reservation_wire r =
     [(''reservation_id'', PStr (rv_id r)), (''rollout_id'', PStr (rv_rollout r)),
      (''identity_fingerprint'', PStr (rv_fingerprint r)), (''node_id'', PStr (rv_node r)),
      (''gpu_count'', PInt (rv_gpus r)), (''memory_mib'', PInt (rv_memory r)),
      (''concurrency'', PInt (rv_concurrency r)), (''exclusive'', PBool (rv_exclusive r)), (''state'', PStr (rv_state r))]"

record admission =
  ad_status :: string
  ad_reason :: "string option"
  ad_evaluated :: int
  ad_eligible :: int
  ad_reservation :: "reservation option"
  ad_failures :: "(string \<times> string) list"

definition admission_wire :: "admission \<Rightarrow> pydict" where
  "admission_wire d =
     [(''schema_version'', PStr ''mo_capacity_admission.v1''), (''status'', PStr (ad_status d)),
      (''reason'', (case ad_reason d of None \<Rightarrow> PNone | Some r \<Rightarrow> PStr r)),
      (''evaluated_node_count'', PInt (ad_evaluated d)), (''eligible_node_count'', PInt (ad_eligible d)),
      (''reservation'', (case ad_reservation d of None \<Rightarrow> PNone | Some r \<Rightarrow> PDict (reservation_wire r))),
      (''node_failures'', PList (map (\<lambda>(n, f). PDict [(''node_id'', PStr n), (''failure_code'', PStr f)]) (ad_failures d)))]"

subsection \<open>Admission\<close>

definition headroom_percent :: "int \<Rightarrow> int \<Rightarrow> rat" where
  "headroom_percent remaining memory = to_double (to_double (of_int remaining / of_int memory) * 100)"

definition node_failure ::
  "gpu_node \<Rightarrow> capacity_request \<Rightarrow> capacity_policy \<Rightarrow> reservation list \<Rightarrow> string option" where
  "node_failure n r p held =
     (if gn_health n \<noteq> ''HEALTHY'' then Some ''capacity_node_not_healthy''
      else if gn_utilization n \<ge> cp_utilization p then Some ''capacity_gpu_utilization_pressure''
      else if gn_temperature n \<ge> cp_temperature p then Some ''capacity_gpu_temperature_pressure''
      else if gn_queue n > cp_queue p then Some ''capacity_queue_pressure''
      else
        let mine = filter (\<lambda>v. rv_node v = gn_id n) held in
        if list_ex rv_exclusive mine \<or> cr_exclusive r \<and> mine \<noteq> [] then Some ''capacity_exclusive_conflict''
        else
          let gpus = sum_list (map rv_gpus mine);
              memory = sum_list (map rv_memory mine);
              concurrency = sum_list (map rv_concurrency mine) in
          if gn_allocatable n - gpus < cr_gpus r then Some ''capacity_gpu_insufficient''
          else if memory_available n - memory < cr_memory r then Some ''capacity_memory_insufficient''
          else if headroom_percent (memory_available n - memory - cr_memory r) (gn_memory n) < cp_headroom p then
            Some ''capacity_memory_headroom_insufficient''
          else if gn_active n + concurrency + cr_concurrency r > cp_active p then Some ''capacity_concurrency_exceeded''
          else None)"

definition blocked :: "snapshot \<Rightarrow> string \<Rightarrow> admission" where
  "blocked s reason =
     \<lparr>ad_status = ''BLOCKED'', ad_reason = Some reason, ad_evaluated = int (length (sn_nodes s)), ad_eligible = 0,
      ad_reservation = None, ad_failures = []\<rparr>"

text \<open>The digest carries the prefix the id leaves out.\<close>

definition reservation_id :: "(pyval \<Rightarrow> string) \<Rightarrow> capacity_request \<Rightarrow> string \<Rightarrow> string" where
  "reservation_id digest r node =
     ''reservation:'' @ take 32 (drop 7 (digest (PDict [(''identity_fingerprint'', PStr (cr_fingerprint r)),
       (''node_id'', PStr node), (''rollout_id'', PStr (cr_rollout r))])))"

definition node_rank :: "gpu_node \<Rightarrow> rat \<times> int \<times> string" where
  "node_rank n = (gn_utilization n, gn_queue n, gn_id n)"

definition failures_of ::
  "gpu_node list \<Rightarrow> capacity_request \<Rightarrow> capacity_policy \<Rightarrow> reservation list \<Rightarrow> (string \<times> string) list" where
  "failures_of nodes r p held =
     List.map_filter (\<lambda>n. map_option (\<lambda>f. (gn_id n, f)) (node_failure n r p held)) nodes"

definition admit_capacity ::
  "(pyval \<Rightarrow> string) \<Rightarrow> snapshot \<Rightarrow> capacity_request \<Rightarrow> string \<Rightarrow> capacity_policy option \<Rightarrow> reservation list
    \<Rightarrow> rollout_exn + admission" where
  "admit_capacity digest s r evaluated policy reservations =
     (let p = (case policy of None \<Rightarrow> default_capacity_policy | Some p \<Rightarrow> p) in
      if cr_fingerprint r \<noteq> fingerprint digest (sn_identity s) then Inr (blocked s ''capacity_identity_mismatch'')
      else sbind (is_fresh s evaluated) (\<lambda>fresh.
        if \<not> fresh then Inr (blocked s ''capacity_snapshot_stale'')
        else
          let held = filter (\<lambda>v. rv_state v = ''RESERVED'') reservations;
              candidates = filter (\<lambda>n. node_failure n r p held = None) (sn_nodes s);
              failures = failures_of (sn_nodes s) r p held in
          if candidates = [] then
            Inr \<lparr>ad_status = ''BLOCKED'',
                 ad_reason = Some (if length (sn_nodes s) = 1 then snd (hd failures) else ''capacity_unavailable''),
                 ad_evaluated = int (length (sn_nodes s)), ad_eligible = 0, ad_reservation = None, ad_failures = failures\<rparr>
          else
            let selected = hd (sort_key node_rank candidates);
                v = \<lparr>rv_id = reservation_id digest r (gn_id selected), rv_rollout = cr_rollout r,
                     rv_fingerprint = cr_fingerprint r, rv_node = gn_id selected, rv_gpus = cr_gpus r,
                     rv_memory = cr_memory r, rv_concurrency = cr_concurrency r, rv_exclusive = cr_exclusive r,
                     rv_state = ''RESERVED''\<rparr>
            in sbind (check_reservation v) (\<lambda>_.
              Inr \<lparr>ad_status = ''ADMITTED'', ad_reason = None, ad_evaluated = int (length (sn_nodes s)),
                   ad_eligible = int (length candidates), ad_reservation = Some v, ad_failures = failures\<rparr>)))"

subsection \<open>What validation accepts\<close>

definition request_wf :: "capacity_request \<Rightarrow> bool" where
  "request_wf r \<longleftrightarrow> is_identifier (cr_rollout r) \<and> is_sha256 (cr_fingerprint r) \<and> 1 \<le> cr_gpus r \<and> 1 \<le> cr_memory r \<and>
     1 \<le> cr_concurrency r"

lemma check_request_iff [simp]: "check_request r = Inr u \<longleftrightarrow> request_wf r"
  by (auto simp: check_request_def request_wf_def res_simps)

lemma check_request_ok [simp]: "request_wf r \<Longrightarrow> check_request r = Inr ()"
  by simp

definition reservation_wf :: "reservation \<Rightarrow> bool" where
  "reservation_wf r \<longleftrightarrow> is_identifier (rv_id r) \<and> is_identifier (rv_rollout r) \<and> is_identifier (rv_node r) \<and>
     is_sha256 (rv_fingerprint r) \<and> 1 \<le> rv_gpus r \<and> 1 \<le> rv_memory r \<and> 1 \<le> rv_concurrency r \<and>
     rv_state r \<in> set RESERVATION_STATES"

lemma check_reservation_iff [simp]: "check_reservation r = Inr u \<longleftrightarrow> reservation_wf r"
  by (auto simp: check_reservation_def reservation_wf_def res_simps)

lemma check_reservation_ok [simp]: "reservation_wf r \<Longrightarrow> check_reservation r = Inr ()"
  by simp

lemma release_Inr:
  "reservation_wf r \<Longrightarrow> release r = Inr (r\<lparr>rv_state := ''RELEASED''\<rparr>)"
proof -
  assume r: "reservation_wf r"
  then have "reservation_wf (r\<lparr>rv_state := ''RELEASED''\<rparr>)"
    by (simp add: reservation_wf_def RESERVATION_STATES_def)
  moreover have "rv_state r = ''RELEASED'' \<Longrightarrow> r\<lparr>rv_state := ''RELEASED''\<rparr> = r" by (cases r) simp
  ultimately show ?thesis by (simp add: release_def Let_def)
qed

subsection \<open>No node is overbooked\<close>

definition held_on :: "gpu_node \<Rightarrow> reservation list \<Rightarrow> reservation list" where
  "held_on n rs = filter (\<lambda>v. rv_state v = ''RESERVED'' \<and> rv_node v = gn_id n) rs"

definition fits :: "gpu_node \<Rightarrow> reservation list \<Rightarrow> bool" where
  "fits n mine \<longleftrightarrow>
     sum_list (map rv_gpus mine) \<le> gn_allocatable n \<and> sum_list (map rv_memory mine) \<le> memory_available n \<and>
     (list_ex rv_exclusive mine \<longrightarrow> length mine = 1)"

definition not_overbooked :: "snapshot \<Rightarrow> reservation list \<Rightarrow> bool" where
  "not_overbooked s rs \<longleftrightarrow> list_all reservation_wf rs \<and> (\<forall>n \<in> set (sn_nodes s). fits n (held_on n rs))"

lemma node_failure_None:
  assumes "node_failure n r p (filter (\<lambda>v. rv_state v = ''RESERVED'') rs) = None"
  shows "gn_health n = ''HEALTHY''" "gn_utilization n < cp_utilization p" "gn_temperature n < cp_temperature p"
    "gn_queue n \<le> cp_queue p" "\<not> list_ex rv_exclusive (held_on n rs)" "cr_exclusive r \<Longrightarrow> held_on n rs = []"
    "sum_list (map rv_gpus (held_on n rs)) + cr_gpus r \<le> gn_allocatable n"
    "sum_list (map rv_memory (held_on n rs)) + cr_memory r \<le> memory_available n"
    "cp_headroom p \<le> headroom_percent (memory_available n - sum_list (map rv_memory (held_on n rs)) - cr_memory r) (gn_memory n)"
    "gn_active n + sum_list (map rv_concurrency (held_on n rs)) + cr_concurrency r \<le> cp_active p"
proof -
  have mine: "filter (\<lambda>v. rv_node v = gn_id n) (filter (\<lambda>v. rv_state v = ''RESERVED'') rs) = held_on n rs"
    by (simp add: held_on_def conj_commute)
  note * = assms [unfolded node_failure_def mine Let_def]
  show "gn_health n = ''HEALTHY''" "gn_utilization n < cp_utilization p" "gn_temperature n < cp_temperature p"
    "gn_queue n \<le> cp_queue p" "\<not> list_ex rv_exclusive (held_on n rs)" "cr_exclusive r \<Longrightarrow> held_on n rs = []"
    "sum_list (map rv_gpus (held_on n rs)) + cr_gpus r \<le> gn_allocatable n"
    "sum_list (map rv_memory (held_on n rs)) + cr_memory r \<le> memory_available n"
    "cp_headroom p \<le> headroom_percent (memory_available n - sum_list (map rv_memory (held_on n rs)) - cr_memory r) (gn_memory n)"
    "gn_active n + sum_list (map rv_concurrency (held_on n rs)) + cr_concurrency r \<le> cp_active p"
    using * by (auto simp: not_le not_less split: if_splits)
qed

lemma admit_Inr:
  assumes "admit_capacity digest s r evaluated policy rs = Inr d"
  defines "p \<equiv> (case policy of None \<Rightarrow> default_capacity_policy | Some p \<Rightarrow> p)"
    and "held \<equiv> filter (\<lambda>v. rv_state v = ''RESERVED'') rs"
  obtains (refused) reason where "d = blocked s reason" "reason \<in> {''capacity_identity_mismatch'', ''capacity_snapshot_stale''}"
  | (full) reason where "ad_status d = ''BLOCKED''" "ad_reservation d = None" "is_fresh s evaluated = Inr True"
      "cr_fingerprint r = fingerprint digest (sn_identity s)"
      "\<forall>n \<in> set (sn_nodes s). node_failure n r p held \<noteq> None"
  | (admitted) n v where "ad_status d = ''ADMITTED''" "ad_reservation d = Some v" "is_fresh s evaluated = Inr True"
      "cr_fingerprint r = fingerprint digest (sn_identity s)"
      "n \<in> set (sn_nodes s)" "node_failure n r p held = None"
      "\<forall>m \<in> set (sn_nodes s). node_failure m r p held = None \<longrightarrow> node_rank n \<le> node_rank m"
      "reservation_wf v" "rv_node v = gn_id n" "rv_gpus v = cr_gpus r" "rv_memory v = cr_memory r"
      "rv_concurrency v = cr_concurrency r" "rv_exclusive v = cr_exclusive r" "rv_state v = ''RESERVED''"
      "rv_rollout v = cr_rollout r" "rv_fingerprint v = cr_fingerprint r"
proof (cases "cr_fingerprint r = fingerprint digest (sn_identity s)")
  case False
  with assms(1) show ?thesis by (intro refused) (auto simp: admit_capacity_def Let_def)
next
  case fp: True
  then obtain fresh where fresh: "is_fresh s evaluated = Inr fresh"
    using assms(1) by (auto simp: admit_capacity_def Let_def sbind_eq_Inr)
  show ?thesis
  proof (cases fresh)
    case False
    with assms(1) fp fresh show ?thesis by (intro refused) (auto simp: admit_capacity_def Let_def)
  next
    case True
    let ?cs = "filter (\<lambda>n. node_failure n r p held = None) (sn_nodes s)"
    note adm = assms(1) [unfolded admit_capacity_def Let_def, folded p_def held_def]
    show ?thesis
    proof (cases "?cs = []")
      case cs: True
      with adm fp fresh True show ?thesis by (intro full) (auto simp: filter_empty_conv)
    next
      case cs: False
      let ?n = "hd (sort_key node_rank ?cs)"
      have n: "?n \<in> set ?cs" by (rule hd_sort_key_in [OF cs])
      have least: "node_rank ?n \<le> node_rank m" if "m \<in> set ?cs" for m by (rule hd_sort_key_least [OF that])
      from adm fp fresh True cs obtain v where
        "ad_status d = ''ADMITTED''" "ad_reservation d = Some v" "reservation_wf v" "rv_node v = gn_id ?n"
        "rv_gpus v = cr_gpus r" "rv_memory v = cr_memory r" "rv_concurrency v = cr_concurrency r"
        "rv_exclusive v = cr_exclusive r" "rv_state v = ''RESERVED''" "rv_rollout v = cr_rollout r"
        "rv_fingerprint v = cr_fingerprint r"
        by (auto simp: sbind_eq_Inr)
      with n least fp fresh True show ?thesis by (intro admitted [of v ?n]) auto
    qed
  qed
qed

lemma held_on_append [simp]:
  "held_on n (rs @ [v]) = held_on n rs @ (if rv_state v = ''RESERVED'' \<and> rv_node v = gn_id n then [v] else [])"
  by (simp add: held_on_def)

lemma admit_not_overbooked:
  assumes booked: "not_overbooked s rs" and d: "distinct (map gn_id (sn_nodes s))"
    and ok: "admit_capacity digest s r evaluated policy rs = Inr d" "ad_reservation d = Some v"
  shows "not_overbooked s (rs @ [v])"
  using ok(1)
proof (cases rule: admit_Inr)
  case (admitted n w)
  then have w: "w = v" using ok(2) by simp
  note room = node_failure_None [OF admitted(6)]
  have "fits m (held_on m (rs @ [v]))" if m: "m \<in> set (sn_nodes s)" for m
  proof (cases "gn_id m = gn_id n")
    case True
    with d m admitted(5) have "m = n" by (auto simp: distinct_map inj_on_def)
    with room admitted w show ?thesis by (auto simp: fits_def list_ex_iff)
  next
    case False
    then show ?thesis using booked m admitted w by (simp add: not_overbooked_def)
  qed
  with booked admitted w show ?thesis by (simp add: not_overbooked_def)
qed (use ok(2) in \<open>auto simp: blocked_def\<close>)

text \<open>Releasing a reservation frees room and takes none.\<close>

lemma held_on_release:
  "held_on n (as @ r\<lparr>rv_state := ''RELEASED''\<rparr> # bs) = held_on n as @ held_on n bs"
  by (simp add: held_on_def)

lemma sum_list_nonneg_wf:
  "list_all reservation_wf rs \<Longrightarrow> 0 \<le> sum_list (map rv_gpus (held_on n rs)) \<and> 0 \<le> sum_list (map rv_memory (held_on n rs))"
  by (induction rs) (auto simp: held_on_def reservation_wf_def)

lemma fits_drop:
  assumes "fits n (xs @ v # ys)" "reservation_wf v"
  shows "fits n (xs @ ys)"
  using assms by (auto simp: fits_def reservation_wf_def)

lemma release_not_overbooked:
  assumes "not_overbooked s (as @ r # bs)" "release r = Inr r'"
  shows "not_overbooked s (as @ r' # bs)"
proof -
  have wf: "reservation_wf r" "list_all reservation_wf as" "list_all reservation_wf bs"
    using assms(1) by (simp_all add: not_overbooked_def)
  then have r': "r' = r\<lparr>rv_state := ''RELEASED''\<rparr>" "reservation_wf r'"
    using assms(2) release_Inr [OF wf(1)] by (auto simp: reservation_wf_def RESERVATION_STATES_def)
  have "fits n (held_on n (as @ r' # bs))" if "n \<in> set (sn_nodes s)" for n
  proof -
    have f: "fits n (held_on n (as @ r # bs))" using assms(1) that by (simp add: not_overbooked_def)
    have split: "held_on n (as @ r # bs) = held_on n as @ (if rv_state r = ''RESERVED'' \<and> rv_node r = gn_id n then [r] else [])
        @ held_on n bs"
      by (simp add: held_on_def)
    have "fits n (held_on n as @ held_on n bs)"
    proof (cases "rv_state r = ''RESERVED'' \<and> rv_node r = gn_id n")
      case True
      with f split have "fits n (held_on n as @ r # held_on n bs)" by simp
      then show ?thesis using wf(1) by (rule fits_drop)
    next
      case False
      then have "held_on n (as @ r # bs) = held_on n as @ held_on n bs" unfolding split by auto
      with f show ?thesis by simp
    qed
    then show ?thesis unfolding r'(1) held_on_release .
  qed
  with wf r'(2) show ?thesis by (simp add: not_overbooked_def)
qed

end
