(* ===== verification/Rollout_State.thy ===== *)
theory Rollout_State
  imports Capacity_Scheduler
begin

section \<open>The state machine of a model rollout\<close>

text \<open>
  \<^verbatim>\<open>services/nex-mo/nex_mo/model_rollout_state.py\<close>: a rollout is registered, validated, made ready
  by evidence, run as a canary, and promoted, blocked or rolled back. Every operation builds a new
  record, whose constructor validates it again. The text of a float that stands for a profile id is
  not modelled.
\<close>

subsection \<open>Canary policy and metrics\<close>

record canary_policy =
  ca_traffic :: rat
  ca_seconds :: int
  ca_samples :: int
  ca_error_rate :: rat
  ca_quality :: rat
  ca_latency :: int

definition check_canary_policy :: "canary_policy \<Rightarrow> rollout_exn + unit" where
  "check_canary_policy p =
     (if \<not> (0 < ca_traffic p \<and> ca_traffic p \<le> 25) then
        Inl (RolloutError ''mo.canary_traffic_invalid'' ''canary traffic must be greater than zero and at most 25 percent'')
      else if ca_seconds p < 60 \<or> ca_samples p < 20 then
        Inl (RolloutError ''mo.canary_observation_invalid'' ''canary observation and sample floors are not met'')
      else if \<not> (0 \<le> ca_error_rate p \<and> ca_error_rate p \<le> 1) then
        Inl (RolloutError ''mo.canary_error_budget_invalid'' ''canary error rate must be between zero and one'')
      else if \<not> (0 \<le> ca_quality p \<and> ca_quality p \<le> 1) then
        Inl (RolloutError ''mo.canary_quality_budget_invalid'' ''canary quality score must be between zero and one'')
      else if ca_latency p < 1 then
        Inl (RolloutError ''mo.canary_latency_budget_invalid'' ''canary latency budget must be positive'')
      else Inr ())"

definition canary_policy_wire :: "canary_policy \<Rightarrow> pydict" where
  "canary_policy_wire p =
     [(''traffic_percent'', PFloat (ca_traffic p)), (''observation_seconds'', PInt (ca_seconds p)),
      (''minimum_sample_count'', PInt (ca_samples p)), (''maximum_error_rate'', PFloat (ca_error_rate p)),
      (''minimum_quality_score'', PFloat (ca_quality p)), (''maximum_p95_latency_ms'', PInt (ca_latency p))]"

definition policy_hash :: "(pyval \<Rightarrow> string) \<Rightarrow> canary_policy \<Rightarrow> string" where
  "policy_hash digest p = digest (PDict (canary_policy_wire p))"

record canary_metrics =
  cm_fingerprint :: string
  cm_samples :: int
  cm_error_rate :: rat
  cm_quality :: rat
  cm_latency :: int
  cm_seconds :: int
  cm_measured :: string

definition check_canary_metrics :: "canary_metrics \<Rightarrow> rollout_exn + unit" where
  "check_canary_metrics m =
     sbind (digest_text (cm_fingerprint m) ''identity_fingerprint'') (\<lambda>_.
     if cm_samples m < 0 \<or> cm_seconds m < 0 \<or> cm_latency m < 0 then
       Inl (RolloutError ''mo.canary_metric_count_invalid'' ''canary count and duration metrics must not be negative'')
     else if \<not> (0 \<le> cm_error_rate m \<and> cm_error_rate m \<le> 1) \<or> \<not> (0 \<le> cm_quality m \<and> cm_quality m \<le> 1) then
       Inl (RolloutError ''mo.canary_metric_rate_invalid'' ''canary rate metrics must be between zero and one'')
     else sbind (rollout_time (cm_measured m) ''measured_at'') (\<lambda>_. Inr ()))"

definition canary_metrics_wire :: "canary_metrics \<Rightarrow> pydict" where
  "canary_metrics_wire m =
     [(''identity_fingerprint'', PStr (cm_fingerprint m)), (''sample_count'', PInt (cm_samples m)),
      (''error_rate'', PFloat (cm_error_rate m)), (''quality_score'', PFloat (cm_quality m)),
      (''p95_latency_ms'', PInt (cm_latency m)), (''observed_seconds'', PInt (cm_seconds m)),
      (''measured_at'', PStr (cm_measured m))]"

subsection \<open>The record\<close>

datatype rollout_state = REGISTERED | VALIDATING | READY | CANARY | BLOCKED | ACTIVE | ROLLED_BACK

fun rollout_state_text :: "rollout_state \<Rightarrow> string" where
  "rollout_state_text REGISTERED = ''REGISTERED''"
| "rollout_state_text VALIDATING = ''VALIDATING''"
| "rollout_state_text READY = ''READY''"
| "rollout_state_text CANARY = ''CANARY''"
| "rollout_state_text BLOCKED = ''BLOCKED''"
| "rollout_state_text ACTIVE = ''ACTIVE''"
| "rollout_state_text ROLLED_BACK = ''ROLLED_BACK''"

record rollout =
  ro_id :: string
  ro_identity :: identity
  ro_state :: rollout_state
  ro_revision :: int
  ro_lkg_binding :: string
  ro_lkg_fingerprint :: string
  ro_readiness :: "string option"
  ro_profile :: "string option"
  ro_profile_hash :: "string option"
  ro_reservation :: "string option"
  ro_policy_hash :: "string option"
  ro_canary :: "string option"
  ro_binding :: "string option"
  ro_failure :: "string option"
  ro_created :: string
  ro_updated :: string

definition opt_each :: "('a \<Rightarrow> 'e + 'b) \<Rightarrow> 'a option \<Rightarrow> 'e + unit" where
  "opt_each f v = (case v of None \<Rightarrow> Inr () | Some x \<Rightarrow> sbind (f x) (\<lambda>_. Inr ()))"

text \<open>The constructor; that the state is one of the seven is the type's.\<close>

definition check_rollout :: "rollout \<Rightarrow> rollout_exn + unit" where
  "check_rollout r =
     sbind (check_identifier (ro_id r) ''rollout_id'') (\<lambda>_.
     sbind (check_identifier (ro_lkg_binding r) ''last_known_good_binding_id'') (\<lambda>_.
     sbind (digest_text (ro_lkg_fingerprint r) ''last_known_good_identity_fingerprint'') (\<lambda>_.
     if ro_revision r < 1 then
       Inl (RolloutError ''mo.rollout_state_revision_invalid'' ''rollout state revision must be positive'')
     else
     sbind (rollout_time (ro_created r) ''created_at'') (\<lambda>created.
     sbind (rollout_time (ro_updated r) ''updated_at'') (\<lambda>updated.
     if updated < created then
       Inl (RolloutError ''mo.rollout_timestamp_invalid'' ''rollout update must not precede creation'')
     else
     sbind (opt_each (\<lambda>v. digest_text v ''readiness_evidence_digest'') (ro_readiness r)) (\<lambda>_.
     sbind (opt_each (\<lambda>v. digest_text v ''calibration_profile_hash'') (ro_profile_hash r)) (\<lambda>_.
     sbind (opt_each (\<lambda>v. digest_text v ''canary_policy_hash'') (ro_policy_hash r)) (\<lambda>_.
     sbind (opt_each (\<lambda>v. check_identifier v ''calibration_profile_id'') (ro_profile r)) (\<lambda>_.
     sbind (opt_each (\<lambda>v. check_identifier v ''reservation_id'') (ro_reservation r)) (\<lambda>_.
     opt_each (\<lambda>v. check_identifier v ''activated_binding_id'') (ro_binding r)))))))))))"

definition make_rollout :: "rollout \<Rightarrow> rollout_exn + rollout" where
  "make_rollout r = sbind (check_rollout r) (\<lambda>_. Inr r)"

definition opt_wire :: "string option \<Rightarrow> pyval" where
  "opt_wire v = (case v of None \<Rightarrow> PNone | Some s \<Rightarrow> PStr s)"

definition rollout_wire :: "(pyval \<Rightarrow> string) \<Rightarrow> rollout \<Rightarrow> pydict" where
  "rollout_wire digest r =
     [(''schema_version'', PStr ''mo_model_rollout.v1''), (''rollout_id'', PStr (ro_id r)),
      (''identity'', PDict (identity_wire (ro_identity r))),
      (''identity_fingerprint'', PStr (fingerprint digest (ro_identity r))),
      (''state'', PStr (rollout_state_text (ro_state r))), (''state_revision'', PInt (ro_revision r)),
      (''last_known_good_binding_id'', PStr (ro_lkg_binding r)),
      (''last_known_good_identity_fingerprint'', PStr (ro_lkg_fingerprint r)),
      (''readiness_evidence_digest'', opt_wire (ro_readiness r)),
      (''calibration_profile_id'', opt_wire (ro_profile r)),
      (''calibration_profile_hash'', opt_wire (ro_profile_hash r)), (''reservation_id'', opt_wire (ro_reservation r)),
      (''canary_policy_hash'', opt_wire (ro_policy_hash r)), (''canary_status'', opt_wire (ro_canary r)),
      (''activated_binding_id'', opt_wire (ro_binding r)), (''failure_code'', opt_wire (ro_failure r)),
      (''created_at'', PStr (ro_created r)), (''updated_at'', PStr (ro_updated r))]"

definition register_rollout ::
  "(pyval \<Rightarrow> string) \<Rightarrow> identity \<Rightarrow> string \<Rightarrow> string \<Rightarrow> string \<Rightarrow> string \<Rightarrow> rollout_exn + rollout" where
  "register_rollout digest i rid binding lkg created =
     (if fingerprint digest i = lkg then
        Inl (RolloutError ''mo.rollout_candidate_revision_required''
          ''candidate must differ from the last-known-good identity'')
      else make_rollout
        \<lparr>ro_id = rid, ro_identity = i, ro_state = REGISTERED, ro_revision = 1, ro_lkg_binding = binding,
         ro_lkg_fingerprint = lkg, ro_readiness = None, ro_profile = None, ro_profile_hash = None,
         ro_reservation = None, ro_policy_hash = None, ro_canary = None, ro_binding = None, ro_failure = None,
         ro_created = created, ro_updated = created\<rparr>)"

subsection \<open>The operations\<close>

definition transition_error :: "rollout_state \<Rightarrow> rollout_state \<Rightarrow> rollout_exn" where
  "transition_error current target =
     RolloutError ''mo.rollout_transition_invalid''
       (''rollout cannot transition from '' @ rollout_state_text current @ '' to '' @ rollout_state_text target)"

definition validate_changed_at :: "rollout \<Rightarrow> string \<Rightarrow> rollout_exn + unit" where
  "validate_changed_at r changed =
     sbind (rollout_time changed ''changed_at'') (\<lambda>c.
     sbind (rollout_time (ro_updated r) ''updated_at'') (\<lambda>u.
     if c < u then
       Inl (RolloutError ''mo.rollout_timestamp_invalid'' ''rollout transition must not precede the current state'')
     else Inr ()))"

definition rollout_transition ::
  "rollout \<Rightarrow> rollout_state \<Rightarrow> rollout_state \<Rightarrow> string \<Rightarrow> rollout_exn + rollout" where
  "rollout_transition r expected target changed =
     (if ro_state r \<noteq> expected then Inl (transition_error (ro_state r) target)
      else sbind (validate_changed_at r changed) (\<lambda>_.
        make_rollout (r\<lparr>ro_state := target, ro_revision := ro_revision r + 1, ro_updated := changed\<rparr>)))"

definition begin_validation :: "rollout \<Rightarrow> string \<Rightarrow> rollout_exn + rollout" where
  "begin_validation r changed = rollout_transition r REGISTERED VALIDATING changed"

text \<open>\<open>str(d.get(k) or "")\<close>.\<close>

definition text_or_empty :: "pydict \<Rightarrow> string \<Rightarrow> string" where
  "text_or_empty d k = (if truthy (dget d k) then py_text (dget d k) else [])"

definition readiness_ok :: "pydict \<Rightarrow> string \<Rightarrow> bool" where
  "readiness_ok d fp \<longleftrightarrow>
     dget d ''status'' = PStr ''READY'' \<and> dget d ''identity_fingerprint'' = PStr fp \<and>
     (case dget d ''evidence_digest'' of PStr s \<Rightarrow> is_sha256 s | _ \<Rightarrow> False)"

definition calibration_ok :: "pydict \<Rightarrow> string \<Rightarrow> bool" where
  "calibration_ok d fp \<longleftrightarrow>
     dget d ''status'' = PStr ''CALIBRATED'' \<and> dget d ''identity_fingerprint'' = PStr fp \<and>
     truthy (dget d ''profile_id'') \<and> is_sha256 (text_or_empty d ''profile_hash'')"

definition mark_rollout_ready ::
  "(pyval \<Rightarrow> string) \<Rightarrow> rollout \<Rightarrow> pydict \<Rightarrow> pydict \<Rightarrow> reservation \<Rightarrow> string \<Rightarrow> rollout_exn + rollout" where
  "mark_rollout_ready digest r readiness calibration v changed =
     (let fp = fingerprint digest (ro_identity r) in
      if ro_state r \<noteq> VALIDATING then Inl (transition_error (ro_state r) READY)
      else if \<not> readiness_ok readiness fp then
        Inl (RolloutError ''mo.rollout_readiness_required'' ''exact revision readiness evidence is required'')
      else if \<not> calibration_ok calibration fp then
        Inl (RolloutError ''mo.rollout_calibration_required'' ''ACTIVE exact revision calibration is required'')
      else if rv_fingerprint v \<noteq> fp \<or> rv_state v \<noteq> ''RESERVED'' then
        Inl (RolloutError ''mo.rollout_reservation_required'' ''active exact revision capacity reservation is required'')
      else sbind (validate_changed_at r changed) (\<lambda>_.
        make_rollout (r\<lparr>ro_state := READY, ro_revision := ro_revision r + 1,
          ro_readiness := Some (py_text (dget readiness ''evidence_digest'')),
          ro_profile := Some (py_text (dget calibration ''profile_id'')),
          ro_profile_hash := Some (py_text (dget calibration ''profile_hash'')),
          ro_reservation := Some (rv_id v), ro_updated := changed\<rparr>)))"

text \<open>\<open>bool\<close> of an optional text.\<close>

definition given :: "string option \<Rightarrow> bool" where
  "given v \<longleftrightarrow> v \<noteq> None \<and> v \<noteq> Some []"

definition start_canary ::
  "(pyval \<Rightarrow> string) \<Rightarrow> rollout \<Rightarrow> canary_policy \<Rightarrow> string \<Rightarrow> rollout_exn + rollout" where
  "start_canary digest r p changed =
     (if ro_state r \<noteq> READY then Inl (transition_error (ro_state r) CANARY)
      else if \<not> (given (ro_readiness r) \<and> given (ro_profile r) \<and> given (ro_profile_hash r) \<and>
                 given (ro_reservation r) \<and> ro_lkg_binding r \<noteq> []) then
        Inl (RolloutError ''mo.rollout_canary_prerequisite_missing'' ''canary prerequisites are incomplete'')
      else sbind (validate_changed_at r changed) (\<lambda>_.
        make_rollout (r\<lparr>ro_state := CANARY, ro_revision := ro_revision r + 1,
          ro_policy_hash := Some (policy_hash digest p), ro_canary := Some ''RUNNING'', ro_updated := changed\<rparr>)))"

definition canary_checks :: "(pyval \<Rightarrow> string) \<Rightarrow> rollout \<Rightarrow> canary_policy \<Rightarrow> canary_metrics \<Rightarrow> (string \<times> bool) list" where
  "canary_checks digest r p m =
     [(''identity_matches'', cm_fingerprint m = fingerprint digest (ro_identity r)),
      (''sample_floor_met'', cm_samples m \<ge> ca_samples p),
      (''observation_window_met'', cm_seconds m \<ge> ca_seconds p),
      (''error_budget_met'', cm_error_rate m \<le> ca_error_rate p),
      (''quality_budget_met'', cm_quality m \<ge> ca_quality p),
      (''latency_budget_met'', cm_latency m \<le> ca_latency p)]"

definition evaluate_canary ::
  "(pyval \<Rightarrow> string) \<Rightarrow> rollout \<Rightarrow> canary_policy \<Rightarrow> canary_metrics \<Rightarrow> string \<Rightarrow> rollout_exn + rollout \<times> pydict" where
  "evaluate_canary digest r p m changed =
     (if ro_state r \<noteq> CANARY \<or> ro_policy_hash r \<noteq> Some (policy_hash digest p) then
        Inl (RolloutError ''mo.rollout_canary_not_active'' ''matching active canary policy is required'')
      else sbind (validate_changed_at r changed) (\<lambda>_.
        let checks = canary_checks digest r p m;
            passed = list_all snd checks;
            decision = [(''schema_version'', PStr ''mo_canary_decision.v1''),
              (''status'', PStr (if passed then ''PASS'' else ''FAIL'')), (''promotable'', PBool passed),
              (''checks'', PDict (map (\<lambda>(k, b). (k, PBool b)) checks)), (''policy_hash'', PStr (policy_hash digest p)),
              (''metrics_digest'', PStr (digest (PDict (canary_metrics_wire m)))),
              (''identity_fingerprint'', PStr (fingerprint digest (ro_identity r))), (''evaluated_at'', PStr changed)]
        in sbind (make_rollout (r\<lparr>ro_state := (if passed then CANARY else BLOCKED), ro_revision := ro_revision r + 1,
             ro_canary := Some (if passed then ''PASSED'' else ''FAILED''),
             ro_failure := (if passed then None else Some ''canary_budget_failed''), ro_updated := changed\<rparr>)) (\<lambda>r'.
           Inr (r', decision))))"

definition mark_rollout_active :: "rollout \<Rightarrow> string \<Rightarrow> string \<Rightarrow> rollout_exn + rollout" where
  "mark_rollout_active r binding changed =
     (if ro_state r \<noteq> CANARY \<or> ro_canary r \<noteq> Some ''PASSED'' then
        Inl (RolloutError ''mo.rollout_promotion_not_admitted'' ''a passing canary is required before alias activation'')
      else
        sbind (check_identifier binding ''activated_binding_id'') (\<lambda>_.
        sbind (validate_changed_at r changed) (\<lambda>_.
        make_rollout (r\<lparr>ro_state := ACTIVE, ro_revision := ro_revision r + 1, ro_binding := Some binding,
          ro_updated := changed\<rparr>))))"

definition mark_rollout_rolled_back :: "rollout \<Rightarrow> string \<Rightarrow> string \<Rightarrow> rollout_exn + rollout" where
  "mark_rollout_rolled_back r failure changed =
     (if ro_state r \<noteq> ACTIVE \<or> ro_binding r = None then
        Inl (RolloutError ''mo.rollout_rollback_not_available'' ''an active rollout binding is required before rollback'')
      else
        sbind (check_identifier failure ''failure_code'') (\<lambda>_.
        sbind (validate_changed_at r changed) (\<lambda>_.
        make_rollout (r\<lparr>ro_state := ROLLED_BACK, ro_revision := ro_revision r + 1, ro_failure := Some failure,
          ro_updated := changed\<rparr>))))"

subsection \<open>The life of a rollout\<close>

inductive rollout_step :: "(pyval \<Rightarrow> string) \<Rightarrow> rollout \<Rightarrow> rollout \<Rightarrow> bool" for digest where
  validate: "begin_validation r changed = Inr r' \<Longrightarrow> rollout_step digest r r'"
| ready: "mark_rollout_ready digest r readiness calibration v changed = Inr r' \<Longrightarrow> rollout_step digest r r'"
| canary: "start_canary digest r p changed = Inr r' \<Longrightarrow> rollout_step digest r r'"
| evaluate: "evaluate_canary digest r p m changed = Inr (r', decision) \<Longrightarrow> rollout_step digest r r'"
| activate: "mark_rollout_active r binding changed = Inr r' \<Longrightarrow> rollout_step digest r r'"
| roll_back: "mark_rollout_rolled_back r failure changed = Inr r' \<Longrightarrow> rollout_step digest r r'"

inductive rollout_reachable :: "(pyval \<Rightarrow> string) \<Rightarrow> rollout \<Rightarrow> bool" for digest where
  registered: "register_rollout digest i rid binding lkg created = Inr r \<Longrightarrow> rollout_reachable digest r"
| stepped: "rollout_reachable digest r \<Longrightarrow> rollout_step digest r r' \<Longrightarrow> rollout_reachable digest r'"

lemma make_rollout_Inr [res_simps]: "make_rollout r = Inr r' \<longleftrightarrow> r' = r \<and> check_rollout r = Inr ()"
  by (auto simp: make_rollout_def res_simps)

text \<open>What every move keeps and does: the lineage stays, the revision counts, time does not go back.\<close>

definition same_lineage :: "rollout \<Rightarrow> rollout \<Rightarrow> bool" where
  "same_lineage r r' \<longleftrightarrow>
     ro_id r' = ro_id r \<and> ro_identity r' = ro_identity r \<and> ro_lkg_binding r' = ro_lkg_binding r \<and>
     ro_lkg_fingerprint r' = ro_lkg_fingerprint r \<and> ro_created r' = ro_created r \<and>
     ro_revision r' = ro_revision r + 1 \<and>
     (\<exists>t t'. parse_wire_datetime (ro_updated r) = Inr t \<and> parse_wire_datetime (ro_updated r') = Inr t' \<and> t \<le> t')"

fun rollout_moves :: "rollout_state \<Rightarrow> rollout_state list" where
  "rollout_moves REGISTERED = [VALIDATING]"
| "rollout_moves VALIDATING = [READY]"
| "rollout_moves READY = [CANARY]"
| "rollout_moves CANARY = [CANARY, BLOCKED, ACTIVE]"
| "rollout_moves ACTIVE = [ROLLED_BACK]"
| "rollout_moves BLOCKED = []"
| "rollout_moves ROLLED_BACK = []"

lemma changed_at_Inr:
  "validate_changed_at r changed = Inr u \<Longrightarrow>
    \<exists>t t'. parse_wire_datetime (ro_updated r) = Inr t \<and> parse_wire_datetime changed = Inr t' \<and> t \<le> t'"
  by (auto simp: validate_changed_at_def res_simps not_less dest: rollout_time_parse)

lemma rollout_step_moves:
  assumes "rollout_step digest r r'"
  shows "ro_state r' \<in> set (rollout_moves (ro_state r)) \<and> same_lineage r r' \<and> check_rollout r' = Inr ()"
  using assms
proof cases
  case (validate changed)
  then show ?thesis
    using changed_at_Inr [of r changed]
    by (auto simp: begin_validation_def rollout_transition_def res_simps same_lineage_def)
next
  case (ready readiness calibration v changed)
  then show ?thesis
    using changed_at_Inr [of r changed] by (auto simp: mark_rollout_ready_def Let_def res_simps same_lineage_def)
next
  case (canary p changed)
  then show ?thesis
    using changed_at_Inr [of r changed] by (auto simp: start_canary_def res_simps same_lineage_def)
next
  case (evaluate p m changed decision)
  then show ?thesis
    using changed_at_Inr [of r changed] by (auto simp: evaluate_canary_def Let_def res_simps same_lineage_def)
next
  case (activate binding changed)
  then show ?thesis
    using changed_at_Inr [of r changed] by (auto simp: mark_rollout_active_def res_simps same_lineage_def)
next
  case (roll_back failure changed)
  then show ?thesis
    using changed_at_Inr [of r changed] by (auto simp: mark_rollout_rolled_back_def res_simps same_lineage_def)
qed

subsection \<open>What a state stands for\<close>

definition evidence_given :: "rollout \<Rightarrow> bool" where
  "evidence_given r \<longleftrightarrow>
     given (ro_readiness r) \<and> given (ro_profile r) \<and> given (ro_profile_hash r) \<and> given (ro_reservation r)"

definition rollout_inv :: "(pyval \<Rightarrow> string) \<Rightarrow> rollout \<Rightarrow> bool" where
  "rollout_inv digest r \<longleftrightarrow>
     check_rollout r = Inr () \<and> fingerprint digest (ro_identity r) \<noteq> ro_lkg_fingerprint r \<and>
     (ro_state r \<notin> {REGISTERED, VALIDATING} \<longrightarrow> evidence_given r) \<and>
     (ro_state r \<in> {ACTIVE, ROLLED_BACK} \<longrightarrow> ro_canary r = Some ''PASSED'') \<and>
     (ro_state r = BLOCKED \<longrightarrow> ro_canary r = Some ''FAILED'') \<and>
     (ro_binding r \<noteq> None \<longleftrightarrow> ro_state r \<in> {ACTIVE, ROLLED_BACK})"

lemma canary_checks_met:
  "list_all snd (canary_checks digest r p m) \<longleftrightarrow>
    cm_fingerprint m = fingerprint digest (ro_identity r) \<and> ca_samples p \<le> cm_samples m \<and>
    ca_seconds p \<le> cm_seconds m \<and> cm_error_rate m \<le> ca_error_rate p \<and> ca_quality p \<le> cm_quality m \<and>
    cm_latency m \<le> ca_latency p"
  by (simp add: canary_checks_def)

lemma check_rollout_ident:
  "check_rollout r = Inr () \<Longrightarrow> (\<forall>v. ro_readiness r = Some v \<longrightarrow> is_sha256 v) \<and>
    (\<forall>v. ro_profile_hash r = Some v \<longrightarrow> is_sha256 v) \<and> (\<forall>v. ro_profile r = Some v \<longrightarrow> is_identifier v) \<and>
    (\<forall>v. ro_reservation r = Some v \<longrightarrow> is_identifier v)"
  by (auto simp: check_rollout_def opt_each_def res_simps split: option.splits)

lemma not_empty [simp]: "\<not> is_sha256 []" "\<not> is_identifier []"
  by (simp_all add: is_sha256_def is_identifier_def)

lemma rollout_step_inv:
  assumes inv: "rollout_inv digest r" and step: "rollout_step digest r r'"
  shows "rollout_inv digest r'"
proof -
  have ok: "check_rollout r' = Inr ()" using rollout_step_moves [OF step] by blast
  note id = check_rollout_ident [OF ok]
  from step show ?thesis
  proof cases
    case (validate changed)
    with inv ok show ?thesis
      by (auto simp: begin_validation_def rollout_transition_def res_simps rollout_inv_def)
  next
    case (ready readiness calibration v changed)
    with inv ok id show ?thesis
      by (auto simp: mark_rollout_ready_def Let_def res_simps rollout_inv_def evidence_given_def given_def)
  next
    case (canary p changed)
    with inv ok show ?thesis
      by (auto simp: start_canary_def res_simps rollout_inv_def evidence_given_def)
  next
    case (evaluate p m changed decision)
    then have r: "ro_state r = CANARY"
      and r': "r' = r\<lparr>ro_state := (if list_all snd (canary_checks digest r p m) then CANARY else BLOCKED),
        ro_revision := ro_revision r + 1,
        ro_canary := Some (if list_all snd (canary_checks digest r p m) then ''PASSED'' else ''FAILED''),
        ro_failure := (if list_all snd (canary_checks digest r p m) then None else Some ''canary_budget_failed''),
        ro_updated := changed\<rparr>"
      by (auto simp: evaluate_canary_def Let_def res_simps)
    show ?thesis using inv ok r by (auto simp: r' rollout_inv_def evidence_given_def)
  next
    case (activate binding changed)
    with inv ok show ?thesis
      by (auto simp: mark_rollout_active_def res_simps rollout_inv_def evidence_given_def)
  next
    case (roll_back failure changed)
    with inv ok show ?thesis
      by (auto simp: mark_rollout_rolled_back_def res_simps rollout_inv_def evidence_given_def)
  qed
qed

lemma rollout_reachable_inv: "rollout_reachable digest r \<Longrightarrow> rollout_inv digest r"
proof (induction rule: rollout_reachable.induct)
  case (registered i rid binding lkg created r)
  then show ?case by (auto simp: register_rollout_def res_simps rollout_inv_def)
qed (rule rollout_step_inv)

subsection \<open>The history of a rollout\<close>

text \<open>
  The operations with their arguments, as the history of a rollout records them. A policy and metrics
  are arguments that their own constructors have accepted.
\<close>

datatype rollout_op =
    Begin_Validation string
  | Mark_Ready pydict pydict reservation string
  | Start_Canary canary_policy string
  | Evaluate_Canary canary_policy canary_metrics string
  | Mark_Active string string
  | Roll_Back string string

fun rollout_call :: "(pyval \<Rightarrow> string) \<Rightarrow> rollout_op \<Rightarrow> rollout \<Rightarrow> rollout_exn + rollout" where
  "rollout_call digest (Begin_Validation w) r = begin_validation r w"
| "rollout_call digest (Mark_Ready d c v w) r = mark_rollout_ready digest r d c v w"
| "rollout_call digest (Start_Canary p w) r = sbind (check_canary_policy p) (\<lambda>_. start_canary digest r p w)"
| "rollout_call digest (Evaluate_Canary p m w) r =
     sbind (check_canary_policy p) (\<lambda>_. sbind (check_canary_metrics m) (\<lambda>_.
     sbind (evaluate_canary digest r p m w) (\<lambda>(r', _). Inr r')))"
| "rollout_call digest (Mark_Active i w) r = mark_rollout_active r i w"
| "rollout_call digest (Roll_Back f w) r = mark_rollout_rolled_back r f w"

primrec rollout_history :: "(pyval \<Rightarrow> string) \<Rightarrow> rollout_op list \<Rightarrow> rollout \<Rightarrow> rollout_exn + rollout" where
  "rollout_history digest [] r = Inr r"
| "rollout_history digest (c # cs) r = sbind (rollout_call digest c r) (rollout_history digest cs)"

lemma rollout_history_snoc:
  "rollout_history digest (cs @ [c]) r = sbind (rollout_history digest cs r) (rollout_call digest c)"
proof (induction cs arbitrary: r)
  case Nil
  show ?case by (cases "rollout_call digest c r") simp_all
next
  case (Cons d cs)
  then show ?case by (cases "rollout_call digest d r") simp_all
qed

lemma rollout_call_step: "rollout_call digest c r = Inr r' \<Longrightarrow> rollout_step digest r r'"
  by (cases c) (auto simp: res_simps intro: rollout_step.intros)

fun promotion_call :: "rollout_op \<Rightarrow> bool" where
  "promotion_call (Mark_Active i w) = True"
| "promotion_call (Roll_Back f w) = True"
| "promotion_call _ = False"

text \<open>The policy the canary runs under is one it was started with.\<close>

definition canary_started :: "(pyval \<Rightarrow> string) \<Rightarrow> rollout_op list \<Rightarrow> string \<Rightarrow> bool" where
  "canary_started digest cs h \<longleftrightarrow> (\<exists>p w. Start_Canary p w \<in> set cs \<and> check_canary_policy p = Inr () \<and> policy_hash digest p = h)"

text \<open>
  The last canary evaluation of the history, after which it was only promoted and rolled back: its
  metrics met the budgets of a policy with the hash of the one the canary was started with.
\<close>

definition canary_passed :: "(pyval \<Rightarrow> string) \<Rightarrow> rollout_op list \<Rightarrow> rollout \<Rightarrow> bool" where
  "canary_passed digest cs r \<longleftrightarrow>
     (\<exists>pre p m w post. cs = pre @ Evaluate_Canary p m w # post \<and> list_all promotion_call post \<and>
        canary_started digest pre (policy_hash digest p) \<and> check_canary_policy p = Inr () \<and> check_canary_metrics m = Inr () \<and>
        list_all snd (canary_checks digest r p m))"

lemma canary_started_snoc: "canary_started digest cs h \<Longrightarrow> canary_started digest (cs @ [c]) h"
  by (auto simp: canary_started_def)

lemma canary_passed_snoc:
  assumes "canary_passed digest cs r" "promotion_call c" "ro_identity r' = ro_identity r"
  shows "canary_passed digest (cs @ [c]) r'"
proof -
  obtain pre p m w post where "cs = pre @ Evaluate_Canary p m w # post" "list_all promotion_call post"
    "canary_started digest pre (policy_hash digest p)" "check_canary_policy p = Inr ()" "check_canary_metrics m = Inr ()"
    "list_all snd (canary_checks digest r p m)"
    using assms(1) unfolding canary_passed_def by blast
  with assms(2,3) show ?thesis unfolding canary_passed_def
    by (intro exI [of _ pre] exI [of _ p] exI [of _ m] exI [of _ w] exI [of _ "post @ [c]"]) (simp add: canary_checks_met)
qed

text \<open>What the record says of its history.\<close>

definition history_told :: "(pyval \<Rightarrow> string) \<Rightarrow> rollout_op list \<Rightarrow> rollout \<Rightarrow> bool" where
  "history_told digest cs r \<longleftrightarrow>
     (ro_state r \<in> {REGISTERED, VALIDATING, READY} \<longrightarrow> ro_policy_hash r = None \<and> ro_canary r = None) \<and>
     (\<forall>h. ro_policy_hash r = Some h \<longrightarrow> canary_started digest cs h) \<and>
     (ro_canary r = Some ''PASSED'' \<longrightarrow> canary_passed digest cs r)"

lemma history_told_snoc:
  assumes told: "history_told digest cs r" and ok: "rollout_call digest c r = Inr r'"
  shows "history_told digest (cs @ [c]) r'"
proof (cases c)
  case (Begin_Validation w)
  with assms show ?thesis
    by (auto simp: history_told_def begin_validation_def rollout_transition_def res_simps)
next
  case (Mark_Ready d e v w)
  with assms show ?thesis
    by (auto simp: history_told_def mark_rollout_ready_def Let_def res_simps)
next
  case (Start_Canary p w)
  with ok have r': "check_canary_policy p = Inr ()" "ro_policy_hash r' = Some (policy_hash digest p)" "ro_canary r' = Some ''RUNNING''"
    "ro_state r' = CANARY"
    by (auto simp: start_canary_def res_simps)
  then have "canary_started digest (cs @ [c]) (policy_hash digest p)"
    unfolding canary_started_def Start_Canary by auto
  with r' show ?thesis by (simp add: history_told_def)
next
  case (Evaluate_Canary p m w)
  with ok have pm: "check_canary_policy p = Inr ()" "check_canary_metrics m = Inr ()" "ro_policy_hash r = Some (policy_hash digest p)"
    and r': "ro_policy_hash r' = ro_policy_hash r" "ro_identity r' = ro_identity r" "ro_state r' \<in> {CANARY, BLOCKED}"
      "ro_canary r' = Some (if list_all snd (canary_checks digest r p m) then ''PASSED'' else ''FAILED'')"
    by (auto simp: evaluate_canary_def Let_def res_simps split: if_splits)
  have started: "canary_started digest cs (policy_hash digest p)" using told pm(3) by (simp add: history_told_def)
  have "canary_passed digest (cs @ [c]) r'" if "list_all snd (canary_checks digest r p m)"
    unfolding canary_passed_def Evaluate_Canary using that pm(1,2) started r'(2)
    by (intro exI [of _ cs] exI [of _ p] exI [of _ m] exI [of _ w] exI [of _ "[]"]) (simp add: canary_checks_met)
  with canary_started_snoc [OF started] pm(3) r' show ?thesis by (auto simp: history_told_def)
next
  case (Mark_Active i w)
  with ok have r': "ro_canary r = Some ''PASSED''" "ro_policy_hash r' = ro_policy_hash r" "ro_identity r' = ro_identity r"
    "ro_state r' = ACTIVE"
    by (auto simp: mark_rollout_active_def res_simps)
  with told have "canary_passed digest (cs @ [c]) r'" using Mark_Active by (intro canary_passed_snoc) (auto simp: history_told_def)
  with told r' show ?thesis using canary_started_snoc by (auto simp: history_told_def)
next
  case (Roll_Back f w)
  with ok have r': "ro_canary r' = ro_canary r" "ro_policy_hash r' = ro_policy_hash r" "ro_identity r' = ro_identity r"
    "ro_state r' = ROLLED_BACK"
    by (auto simp: mark_rollout_rolled_back_def res_simps)
  with told have "ro_canary r' = Some ''PASSED'' \<Longrightarrow> canary_passed digest (cs @ [c]) r'"
    using Roll_Back by (intro canary_passed_snoc) (auto simp: history_told_def)
  with told r' show ?thesis using canary_started_snoc by (auto simp: history_told_def)
qed

lemma rollout_history_told:
  assumes reg: "register_rollout digest i rid binding lkg created = Inr r0" and run: "rollout_history digest cs r0 = Inr r"
  shows "rollout_reachable digest r \<and> ro_identity r = i \<and> history_told digest cs r"
  using run
proof (induction cs arbitrary: r rule: rev_induct)
  case Nil
  then have "r = r0" by simp
  moreover have "ro_identity r0 = i" "history_told digest [] r0" using reg by (auto simp: register_rollout_def res_simps history_told_def)
  ultimately show ?case using rollout_reachable.registered [OF reg] by simp
next
  case (snoc c cs)
  then obtain s where s: "rollout_history digest cs r0 = Inr s" "rollout_call digest c s = Inr r"
    by (auto simp: rollout_history_snoc res_simps)
  note IH = snoc.IH [OF s(1)] and step = rollout_call_step [OF s(2)]
  from IH have "rollout_reachable digest r" using step rollout_reachable.stepped by blast
  moreover have "ro_identity r = ro_identity s" using rollout_step_moves [OF step] by (simp add: same_lineage_def)
  ultimately show ?case using IH history_told_snoc [OF _ s(2)] by simp
qed

end
