(* ===== verification/Rollout_Repository.thy ===== *)
theory Rollout_Repository
  imports Rollout_State
begin

section \<open>Persistence of rollouts and their events\<close>

text \<open>
  \<^verbatim>\<open>services/nex-mo/nex_mo/model_rollout_persistence.py\<close> (the events),
  \<^verbatim>\<open>model_rollout_repository.py\<close> (the repository protocol as a locale, its checks, and the
  in-memory repository) and \<^verbatim>\<open>model_rollout_service.py\<close> (the service over any repository). The
  lock makes each operation of the in-memory repository one step.
\<close>

subsection \<open>Events\<close>

record event =
  ev_id :: string
  ev_rollout :: string
  ev_type :: string
  ev_from :: "string option"
  ev_to :: string
  ev_revision :: int
  ev_evidence :: "string option"
  ev_failure :: "string option"
  ev_occurred :: string

definition ROLLOUT_EVENT_TYPES :: "string list" where
  "ROLLOUT_EVENT_TYPES =
     [''rollout.registered'', ''rollout.validation_started'', ''rollout.ready'', ''rollout.canary_started'',
      ''rollout.canary_evaluated'', ''rollout.activated'', ''rollout.blocked'', ''rollout.rolled_back'']"

definition check_event :: "event \<Rightarrow> rollout_exn + unit" where
  "check_event e =
     sbind (each_check (\<lambda>(f, v). check_identifier v f)
       [(''event_id'', ev_id e), (''rollout_id'', ev_rollout e), (''to_state'', ev_to e)]) (\<lambda>_.
     sbind (opt_each (\<lambda>v. check_identifier v ''from_state'') (ev_from e)) (\<lambda>_.
     if ev_type e \<notin> set ROLLOUT_EVENT_TYPES then
       Inl (RolloutError ''mo.rollout_event_type_invalid'' ''unsupported rollout event type'')
     else if ev_revision e < 1 then
       Inl (RolloutError ''mo.rollout_event_revision_invalid'' ''rollout event revision must be positive'')
     else
     sbind (opt_each (\<lambda>v. digest_text v ''evidence_digest'') (ev_evidence e)) (\<lambda>_.
     sbind (opt_each (\<lambda>v. check_identifier v ''failure_code'') (ev_failure e)) (\<lambda>_.
     sbind (rollout_time (ev_occurred e) ''occurred_at'') (\<lambda>_. Inr ())))))"

definition event_wire :: "event \<Rightarrow> pydict" where
  "event_wire e =
     [(''schema_version'', PStr ''mo_model_rollout_event.v1''), (''event_id'', PStr (ev_id e)),
      (''rollout_id'', PStr (ev_rollout e)), (''event_type'', PStr (ev_type e)), (''from_state'', opt_wire (ev_from e)),
      (''to_state'', PStr (ev_to e)), (''state_revision'', PInt (ev_revision e)),
      (''evidence_digest'', opt_wire (ev_evidence e)), (''failure_code'', opt_wire (ev_failure e)),
      (''occurred_at'', PStr (ev_occurred e))]"

subsection \<open>The checks of the repositories\<close>

datatype repo_exn = RepoError string string

definition ROLLOUT_STATES :: "string list" where
  "ROLLOUT_STATES = map rollout_state_text [REGISTERED, VALIDATING, READY, CANARY, BLOCKED, ACTIVE, ROLLED_BACK]"

definition validate_filters :: "string option \<Rightarrow> string option \<Rightarrow> int \<Rightarrow> repo_exn + unit" where
  "validate_filters capability st limit =
     (if \<not> (case capability of None \<Rightarrow> True | Some c \<Rightarrow> c \<in> set MODEL_CAPABILITIES) then
        Inl (RepoError ''mo.rollout_filter_invalid'' ''unsupported rollout capability filter'')
      else if \<not> (case st of None \<Rightarrow> True | Some s \<Rightarrow> s \<in> set ROLLOUT_STATES) then
        Inl (RepoError ''mo.rollout_filter_invalid'' ''unsupported rollout state filter'')
      else if \<not> (1 \<le> limit \<and> limit \<le> 200) then
        Inl (RepoError ''mo.rollout_filter_invalid'' ''rollout limit must be between 1 and 200'')
      else Inr ())"

definition event_matches :: "rollout \<Rightarrow> event \<Rightarrow> bool" where
  "event_matches r e \<longleftrightarrow>
     ev_rollout e = ro_id r \<and> ev_to e = rollout_state_text (ro_state r) \<and> ev_revision e = ro_revision r"

definition validate_event :: "rollout \<Rightarrow> event \<Rightarrow> repo_exn + unit" where
  "validate_event r e =
     (if \<not> event_matches r e then
        Inl (RepoError ''mo.rollout_event_mismatch'' ''rollout event does not match persisted state'')
      else Inr ())"

definition validate_update ::
  "(pyval \<Rightarrow> string) \<Rightarrow> rollout \<Rightarrow> rollout \<Rightarrow> event \<Rightarrow> int \<Rightarrow> repo_exn + unit" where
  "validate_update digest current r e expected =
     (if ro_revision current \<noteq> expected then
        Inl (RepoError ''mo.rollout_revision_conflict'' ''rollout revision does not match expected revision'')
      else if ro_revision r \<noteq> expected + 1 \<or>
           fingerprint digest (ro_identity r) \<noteq> fingerprint digest (ro_identity current) \<or>
           ro_created r \<noteq> ro_created current \<or> ro_lkg_binding r \<noteq> ro_lkg_binding current \<or>
           ro_lkg_fingerprint r \<noteq> ro_lkg_fingerprint current then
        Inl (RepoError ''mo.rollout_immutable_drift'' ''rollout identity, lineage, or revision has drifted'')
      else if ev_from e \<noteq> Some (rollout_state_text (ro_state current)) then
        Inl (RepoError ''mo.rollout_event_mismatch'' ''rollout event source state does not match durable state'')
      else validate_event r e)"

text \<open>What an update may change.\<close>

definition same_origin :: "(pyval \<Rightarrow> string) \<Rightarrow> rollout \<Rightarrow> rollout \<Rightarrow> bool" where
  "same_origin digest c r \<longleftrightarrow>
     fingerprint digest (ro_identity r) = fingerprint digest (ro_identity c) \<and> ro_created r = ro_created c \<and>
     ro_lkg_binding r = ro_lkg_binding c \<and> ro_lkg_fingerprint r = ro_lkg_fingerprint c"

lemma validate_update_Inr:
  "validate_update digest c r e n = Inr u \<longleftrightarrow>
    ro_revision c = n \<and> ro_revision r = n + 1 \<and> same_origin digest c r \<and>
    ev_from e = Some (rollout_state_text (ro_state c)) \<and> event_matches r e"
  by (auto simp: validate_update_def validate_event_def same_origin_def)

subsection \<open>The repository as an interface\<close>

record 's rollout_store =
  st_insert :: "'s \<Rightarrow> rollout \<Rightarrow> event \<Rightarrow> repo_exn + rollout \<times> 's"
  st_get :: "'s \<Rightarrow> string \<Rightarrow> repo_exn + rollout option"
  st_list :: "'s \<Rightarrow> string option \<Rightarrow> string option \<Rightarrow> int \<Rightarrow> repo_exn + rollout list"
  st_update :: "'s \<Rightarrow> rollout \<Rightarrow> event \<Rightarrow> int \<Rightarrow> repo_exn + rollout \<times> 's"
  st_events :: "'s \<Rightarrow> string \<Rightarrow> repo_exn + event list"

text \<open>
  \<open>look\<close> and \<open>trail\<close> are what the store holds: the record and the events of an id.
\<close>

locale rollout_store_laws =
  fixes S :: "'s rollout_store" and digest :: "pyval \<Rightarrow> string" and inv :: "'s \<Rightarrow> bool"
    and look :: "'s \<Rightarrow> string \<Rightarrow> rollout option" and trail :: "'s \<Rightarrow> string \<Rightarrow> event list"
  assumes get_law: "inv s \<Longrightarrow> st_get S s i = Inr (look s i)"
    and look_id: "inv s \<Longrightarrow> look s i = Some r \<Longrightarrow> ro_id r = i"
    and insert_law: "inv s \<Longrightarrow> st_insert S s r e = Inr (r', s') \<Longrightarrow>
      r' = r \<and> inv s' \<and> look s (ro_id r) = None \<and> event_matches r e \<and>
      look s' = (look s)(ro_id r := Some r) \<and> trail s' = (trail s)(ro_id r := [e])"
    and insert_taken: "inv s \<Longrightarrow> look s (ro_id r) \<noteq> None \<Longrightarrow> event_matches r e \<Longrightarrow>
      \<exists>d. st_insert S s r e = Inl (RepoError ''mo.rollout_conflict'' d)"
    and update_law: "inv s \<Longrightarrow> st_update S s r e n = Inr (r', s') \<Longrightarrow>
      r' = r \<and> inv s' \<and> (\<exists>c. look s (ro_id r) = Some c \<and> ro_revision c = n \<and> ro_revision r = n + 1 \<and>
        same_origin digest c r \<and> ev_from e = Some (rollout_state_text (ro_state c)) \<and> event_matches r e) \<and>
      look s' = (look s)(ro_id r := Some r) \<and> trail s' = (trail s)(ro_id r := trail s (ro_id r) @ [e])"
    and update_stale: "inv s \<Longrightarrow> look s (ro_id r) = Some c \<Longrightarrow> ro_revision c \<noteq> n \<Longrightarrow>
      \<exists>d. st_update S s r e n = Inl (RepoError ''mo.rollout_revision_conflict'' d)"

subsection \<open>The in-memory repository\<close>

record rollout_repo =
  rp_records :: "(string \<times> rollout) list"
  rp_events :: "(string \<times> event list) list"

definition empty_repo :: rollout_repo where
  "empty_repo = \<lparr>rp_records = [], rp_events = []\<rparr>"

definition rollout_not_found :: repo_exn where
  "rollout_not_found = RepoError ''mo.rollout_not_found'' ''rollout was not found''"

definition repo_insert :: "rollout_repo \<Rightarrow> rollout \<Rightarrow> event \<Rightarrow> repo_exn + rollout \<times> rollout_repo" where
  "repo_insert s r e =
     (if map_of (rp_records s) (ro_id r) \<noteq> None then
        Inl (RepoError ''mo.rollout_conflict'' ''rollout identity conflicts with durable state'')
      else sbind (validate_event r e) (\<lambda>_.
        Inr (r, \<lparr>rp_records = dict_put (ro_id r) r (rp_records s), rp_events = dict_put (ro_id r) [e] (rp_events s)\<rparr>)))"

definition repo_get :: "rollout_repo \<Rightarrow> string \<Rightarrow> repo_exn + rollout option" where
  "repo_get s i = Inr (map_of (rp_records s) i)"

text \<open>\<open>sorted(..., reverse=True)\<close> is stable: equal times keep their order.\<close>

definition repo_list ::
  "rollout_repo \<Rightarrow> string option \<Rightarrow> string option \<Rightarrow> int \<Rightarrow> repo_exn + rollout list" where
  "repo_list s capability st limit =
     sbind (validate_filters capability st limit) (\<lambda>_.
       let found = filter (\<lambda>r. (capability = None \<or> capability = Some (id_capability (ro_identity r))) \<and>
                      (st = None \<or> st = Some (rollout_state_text (ro_state r)))) (map snd (rp_records s))
       in Inr (take (nat limit) (rev (sort_key ro_updated (rev found)))))"

definition repo_update ::
  "(pyval \<Rightarrow> string) \<Rightarrow> rollout_repo \<Rightarrow> rollout \<Rightarrow> event \<Rightarrow> int \<Rightarrow> repo_exn + rollout \<times> rollout_repo" where
  "repo_update digest s r e expected =
     (case map_of (rp_records s) (ro_id r) of
        None \<Rightarrow> Inl rollout_not_found
      | Some current \<Rightarrow>
          sbind (validate_update digest current r e expected) (\<lambda>_.
            Inr (r, \<lparr>rp_records = dict_put (ro_id r) r (rp_records s),
                    rp_events = dict_put (ro_id r) (the (map_of (rp_events s) (ro_id r)) @ [e]) (rp_events s)\<rparr>)))"

definition repo_events :: "rollout_repo \<Rightarrow> string \<Rightarrow> repo_exn + event list" where
  "repo_events s i =
     (if map_of (rp_records s) i = None then Inl rollout_not_found else Inr (the (map_of (rp_events s) i)))"

definition repo_store :: "(pyval \<Rightarrow> string) \<Rightarrow> rollout_repo rollout_store" where
  "repo_store digest = \<lparr>st_insert = repo_insert, st_get = repo_get, st_list = repo_list,
     st_update = repo_update digest, st_events = repo_events\<rparr>"

text \<open>Both dictionaries hold the same ids, so the reads of the events never miss a key.\<close>

definition repo_inv :: "rollout_repo \<Rightarrow> bool" where
  "repo_inv s \<longleftrightarrow>
     distinct (map fst (rp_records s)) \<and> dom (map_of (rp_records s)) = dom (map_of (rp_events s)) \<and>
     (\<forall>i r. map_of (rp_records s) i = Some r \<longrightarrow> ro_id r = i)"

definition repo_look :: "rollout_repo \<Rightarrow> string \<Rightarrow> rollout option" where
  "repo_look s i = map_of (rp_records s) i"

definition repo_trail :: "rollout_repo \<Rightarrow> string \<Rightarrow> event list" where
  "repo_trail s i = (case map_of (rp_events s) i of None \<Rightarrow> [] | Some es \<Rightarrow> es)"

lemma repo_inv_put:
  assumes "repo_inv s"
  shows "repo_inv \<lparr>rp_records = dict_put (ro_id r) r (rp_records s), rp_events = dict_put (ro_id r) es (rp_events s)\<rparr>"
  using assms unfolding repo_inv_def by (auto simp del: map_of_eq_Some_iff)

interpretation repo: rollout_store_laws "repo_store digest" digest repo_inv repo_look repo_trail for digest
proof
  fix s s' :: rollout_repo and i and r r' c :: rollout and e n
  assume inv: "repo_inv s"
  show "st_get (repo_store digest) s i = Inr (repo_look s i)"
    by (simp add: repo_store_def repo_get_def repo_look_def)
  show "repo_look s i = Some r \<Longrightarrow> ro_id r = i"
    using inv by (simp add: repo_inv_def repo_look_def)
  show "r' = r \<and> repo_inv s' \<and> repo_look s (ro_id r) = None \<and> event_matches r e \<and>
      repo_look s' = (repo_look s)(ro_id r := Some r) \<and> repo_trail s' = (repo_trail s)(ro_id r := [e])"
    if "st_insert (repo_store digest) s r e = Inr (r', s')"
    using that repo_inv_put [OF inv]
    by (auto simp: repo_store_def repo_insert_def validate_event_def res_simps repo_look_def repo_trail_def fun_eq_iff)
  show "\<exists>d. st_insert (repo_store digest) s r e = Inl (RepoError ''mo.rollout_conflict'' d)"
    if "repo_look s (ro_id r) \<noteq> None"
    using that by (simp add: repo_store_def repo_insert_def repo_look_def)
  show "r' = r \<and> repo_inv s' \<and> (\<exists>c. repo_look s (ro_id r) = Some c \<and> ro_revision c = n \<and> ro_revision r = n + 1 \<and>
        same_origin digest c r \<and> ev_from e = Some (rollout_state_text (ro_state c)) \<and> event_matches r e) \<and>
      repo_look s' = (repo_look s)(ro_id r := Some r) \<and> repo_trail s' = (repo_trail s)(ro_id r := repo_trail s (ro_id r) @ [e])"
    if upd: "st_update (repo_store digest) s r e n = Inr (r', s')"
  proof -
    from upd obtain c where c: "map_of (rp_records s) (ro_id r) = Some c" "validate_update digest c r e n = Inr ()" "r' = r"
      and s': "s' = \<lparr>rp_records = dict_put (ro_id r) r (rp_records s),
                    rp_events = dict_put (ro_id r) (the (map_of (rp_events s) (ro_id r)) @ [e]) (rp_events s)\<rparr>"
      by (auto simp: repo_store_def repo_update_def res_simps split: option.splits)
    from c(1) inv obtain es where "map_of (rp_events s) (ro_id r) = Some es" unfolding repo_inv_def by blast
    with c s' repo_inv_put [OF inv] show ?thesis
      by (auto simp: validate_update_Inr repo_look_def repo_trail_def fun_eq_iff)
  qed
  show "\<exists>d. st_update (repo_store digest) s r e n = Inl (RepoError ''mo.rollout_revision_conflict'' d)"
    if "repo_look s (ro_id r) = Some c" "ro_revision c \<noteq> n"
    using that by (simp add: repo_store_def repo_update_def repo_look_def validate_update_def)
qed

subsection \<open>The service\<close>

text \<open>An error of the service, or the error of an event's constructor, which no one catches.\<close>

datatype rollout_service_exn = ServiceError int string string | Service_Rollout rollout_exn

definition repository_mappings :: "(string \<times> int \<times> string) list" where
  "repository_mappings =
     [(''mo.rollout_not_found'', 404, ''MO_ROLLOUT_NOT_FOUND''),
      (''mo.rollout_conflict'', 409, ''MO_ROLLOUT_CONFLICT''),
      (''mo.rollout_revision_conflict'', 409, ''MO_ROLLOUT_REVISION_CONFLICT''),
      (''mo.rollout_immutable_drift'', 409, ''MO_ROLLOUT_IMMUTABLE_DRIFT''),
      (''mo.rollout_event_mismatch'', 409, ''MO_ROLLOUT_EVENT_MISMATCH''),
      (''mo.rollout_filter_invalid'', 422, ''MO_ROLLOUT_FILTER_INVALID'')]"

fun map_repository_error :: "repo_exn \<Rightarrow> rollout_service_exn" where
  "map_repository_error (RepoError code detail) =
     (case map_of repository_mappings code of
        None \<Rightarrow> ServiceError 503 ''MO_ROLLOUT_PERSISTENCE_UNAVAILABLE''
          ''Model rollout persistence is temporarily unavailable.''
      | Some (sc, shown) \<Rightarrow> ServiceError sc shown detail)"

text \<open>\<open>_event\<close>; \<open>new_id\<close> is what the id factory returns.\<close>

definition service_event ::
  "string \<Rightarrow> rollout \<Rightarrow> string \<Rightarrow> string option \<Rightarrow> string option \<Rightarrow> rollout_service_exn + event" where
  "service_event new_id r type from_state evidence =
     (let e = \<lparr>ev_id = ''event:'' @ new_id, ev_rollout = ro_id r, ev_type = type, ev_from = from_state,
               ev_to = rollout_state_text (ro_state r), ev_revision = ro_revision r, ev_evidence = evidence,
               ev_failure = ro_failure r, ev_occurred = ro_updated r\<rparr>
      in sbind (map_err Service_Rollout (check_event e)) (\<lambda>_. Inr e))"

definition service_register ::
  "'s rollout_store \<Rightarrow> string \<Rightarrow> 's \<Rightarrow> rollout \<Rightarrow> rollout_service_exn + rollout \<times> 's" where
  "service_register S new_id s r =
     (if ro_state r \<noteq> REGISTERED \<or> ro_revision r \<noteq> 1 then
        Inl (ServiceError 409 ''MO_ROLLOUT_REGISTRATION_INVALID'' ''Only an initial REGISTERED rollout may be persisted.'')
      else sbind (service_event new_id r ''rollout.registered'' None None) (\<lambda>e.
        map_err map_repository_error (st_insert S s r e)))"

definition service_get :: "'s rollout_store \<Rightarrow> 's \<Rightarrow> string \<Rightarrow> rollout_service_exn + rollout" where
  "service_get S s i =
     sbind (map_err map_repository_error (st_get S s i)) (\<lambda>found.
       case found of
         None \<Rightarrow> Inl (ServiceError 404 ''MO_ROLLOUT_NOT_FOUND'' ''Model rollout was not found.'')
       | Some r \<Rightarrow> Inr r)"

text \<open>
  The read that fixes the event's source state and the update are two operations of the
  repository: another update may come between, so they take two states.
\<close>

definition persist_transition ::
  "'s rollout_store \<Rightarrow> string \<Rightarrow> 's \<Rightarrow> 's \<Rightarrow> rollout \<Rightarrow> int \<Rightarrow> string \<Rightarrow> string option
    \<Rightarrow> rollout_service_exn + rollout \<times> 's" where
  "persist_transition S new_id seen s r expected type evidence =
     sbind (service_get S seen (ro_id r)) (\<lambda>current.
     sbind (service_event new_id r type (Some (rollout_state_text (ro_state current))) evidence) (\<lambda>e.
       map_err map_repository_error (st_update S s r e expected)))"

definition service_list ::
  "'s rollout_store \<Rightarrow> 's \<Rightarrow> string option \<Rightarrow> string option \<Rightarrow> int \<Rightarrow> rollout_service_exn + rollout list" where
  "service_list S s capability st limit = map_err map_repository_error (st_list S s capability st limit)"

definition service_list_events :: "'s rollout_store \<Rightarrow> 's \<Rightarrow> string \<Rightarrow> rollout_service_exn + event list" where
  "service_list_events S s i = map_err map_repository_error (st_events S s i)"

subsection \<open>The trail of a rollout\<close>

fun chained :: "event list \<Rightarrow> bool" where
  "chained (e # f # es) \<longleftrightarrow> ev_from f = Some (ev_to e) \<and> ev_revision f = ev_revision e + 1 \<and> chained (f # es)"
| "chained es \<longleftrightarrow> True"

definition trail_of :: "rollout \<Rightarrow> event list \<Rightarrow> bool" where
  "trail_of r es \<longleftrightarrow> es \<noteq> [] \<and> chained es \<and> ev_from (hd es) = None \<and> ev_revision (hd es) = 1 \<and>
     ev_to (hd es) = ''REGISTERED'' \<and> event_matches r (last es) \<and> int (length es) = ro_revision r"

lemma chained_append:
  "es \<noteq> [] \<Longrightarrow> chained (es @ [e]) \<longleftrightarrow> chained es \<and> ev_from e = Some (ev_to (last es)) \<and> ev_revision e = ev_revision (last es) + 1"
  by (induction es rule: chained.induct) auto

lemma service_event_Inr:
  assumes "service_event new_id r type from_state evidence = Inr e"
  shows "event_matches r e \<and> ev_from e = from_state \<and> ev_type e = type \<and> ev_evidence e = evidence"
  using assms by (auto simp: service_event_def Let_def res_simps event_matches_def)

context rollout_store_laws
begin

definition trails :: "'s \<Rightarrow> bool" where
  "trails s \<longleftrightarrow> (\<forall>i r. look s i = Some r \<longrightarrow> trail_of r (trail s i))"

lemma register_Inr:
  assumes inv: "inv s" and ok: "service_register S new_id s r = Inr (r', s')"
  obtains e where "r' = r" "inv s'" "ro_state r = REGISTERED" "ro_revision r = 1" "look s (ro_id r) = None"
    "look s' = (look s)(ro_id r := Some r)" "trail s' = (trail s)(ro_id r := [e])" "event_matches r e" "ev_from e = None"
proof -
  from ok obtain e where st: "ro_state r = REGISTERED" "ro_revision r = 1"
    and e: "service_event new_id r ''rollout.registered'' None None = Inr e" and i: "st_insert S s r e = Inr (r', s')"
    by (auto simp: service_register_def res_simps split: if_splits)
  from insert_law [OF inv i] st service_event_Inr [OF e] show ?thesis by (intro that [of e]) auto
qed

lemma persist_Inr:
  assumes inv: "inv s" and ok: "persist_transition S new_id seen s r n type evidence = Inr (r', s')"
  obtains c e where "r' = r" "inv s'" "look s (ro_id r) = Some c" "ro_revision c = n" "ro_revision r = n + 1"
    "same_origin digest c r" "ev_from e = Some (rollout_state_text (ro_state c))" "event_matches r e"
    "look s' = (look s)(ro_id r := Some r)" "trail s' = (trail s)(ro_id r := trail s (ro_id r) @ [e])"
proof -
  from ok obtain e where "st_update S s r e n = Inr (r', s')"
    by (auto simp: persist_transition_def res_simps)
  from update_law [OF inv this] that [of _ e] show ?thesis by blast
qed

lemma trails_register:
  assumes "inv s" "trails s" "service_register S new_id s r = Inr (r', s')"
  shows "inv s' \<and> trails s'"
proof -
  obtain e where *: "inv s'" "ro_state r = REGISTERED" "ro_revision r = 1"
    "look s' = (look s)(ro_id r := Some r)" "trail s' = (trail s)(ro_id r := [e])" "event_matches r e" "ev_from e = None"
    by (rule register_Inr [OF assms(1,3)])
  then have "trail_of r [e]" by (simp add: trail_of_def event_matches_def)
  with * assms(2) show ?thesis by (simp add: trails_def)
qed

lemma trails_persist:
  assumes "inv s" "trails s" "persist_transition S new_id seen s r n type evidence = Inr (r', s')"
  shows "inv s' \<and> trails s'"
proof -
  obtain c e where *: "inv s'" "look s (ro_id r) = Some c" "ro_revision c = n" "ro_revision r = n + 1"
    "ev_from e = Some (rollout_state_text (ro_state c))" "event_matches r e"
    "look s' = (look s)(ro_id r := Some r)" "trail s' = (trail s)(ro_id r := trail s (ro_id r) @ [e])"
    by (rule persist_Inr [OF assms(1,3)])
  have old: "trail_of c (trail s (ro_id r))" using assms(2) *(2) by (simp add: trails_def)
  then have "trail_of r (trail s (ro_id r) @ [e])"
    using * by (auto simp: trail_of_def chained_append event_matches_def)
  with * assms(2) show ?thesis by (simp add: trails_def)
qed

text \<open>Of two updates from the same revision the second is refused, whatever it would write.\<close>

lemma lost_update:
  assumes inv: "inv s" and ok: "persist_transition S new_id seen s r n type evidence = Inr (r', s')"
    and same: "ro_id r2 = ro_id r" and e: "service_event id2 r2 t2 (Some f) ev2 = Inr e2"
    and seen2: "service_get S seen2 (ro_id r2) = Inr c2" "rollout_state_text (ro_state c2) = f"
  shows "\<exists>d. persist_transition S id2 seen2 s' r2 n t2 ev2 = Inl (ServiceError 409 ''MO_ROLLOUT_REVISION_CONFLICT'' d)"
proof -
  obtain c e where "inv s'" "ro_revision r = n + 1" "look s' = (look s)(ro_id r := Some r)"
    by (rule persist_Inr [OF inv ok])
  with same obtain d where "st_update S s' r2 e2 n = Inl (RepoError ''mo.rollout_revision_conflict'' d)"
    using update_stale [of s' r2 r n e2] by auto
  with e seen2 show ?thesis by (simp add: persist_transition_def repository_mappings_def)
qed

end

text \<open>The states a repository reaches through the service, with any interleaving of the reads.\<close>

inductive service_reachable :: "'s rollout_store \<Rightarrow> 's \<Rightarrow> 's \<Rightarrow> bool" for S s0 where
  empty: "service_reachable S s0 s0"
| registered: "service_reachable S s0 s \<Longrightarrow> service_register S new_id s r = Inr (r', s') \<Longrightarrow> service_reachable S s0 s'"
| persisted: "service_reachable S s0 s \<Longrightarrow> service_reachable S s0 seen \<Longrightarrow>
    persist_transition S new_id seen s r n type evidence = Inr (r', s') \<Longrightarrow> service_reachable S s0 s'"

context rollout_store_laws
begin

lemma reachable_trails:
  assumes "service_reachable S s0 s" "inv s0" "trails s0"
  shows "inv s \<and> trails s"
  using assms(1)
proof induction
  case (registered s new_id r r' s')
  then show ?case using trails_register by blast
next
  case (persisted s seen new_id r n type evidence r' s')
  then show ?case using trails_persist by blast
qed (use assms in simp)

end

end
