(* ===== verification/Sample_Rollouts.thy ===== *)
theory Sample_Rollouts
  imports Rollout_Repository
begin

section \<open>Sample rollouts\<close>

text \<open>A node, a reservation and one rollout through its whole life, for the witnesses.\<close>

definition hash0 :: string where "hash0 = ''sha256:'' @ replicate 64 (CHR ''0'')"
definition hash1 :: string where "hash1 = ''sha256:'' @ replicate 64 (CHR ''1'')"

definition sample_digest :: "pyval \<Rightarrow> string" where "sample_digest v = hash0"

definition m0 :: string where "m0 = ''2026-01-01T00:00:00Z''"
definition m1 :: string where "m1 = ''2026-01-01T00:10:00Z''"

definition sample_identity :: identity where
  "sample_identity = \<lparr>id_capability = ''generation'', id_alias = ''chat'', id_catalog = ''cat-2'', id_revision = ''r2'',
     id_deployment = ''dep-2'', id_artifact = hash1, id_engine = ''vllm'', id_precision = ''bf16'', id_shape = hash1\<rparr>"

definition sample_node :: gpu_node where
  "sample_node = \<lparr>gn_id = ''node-1'', gn_type = ''h100'', gn_gpus = 8, gn_allocatable = 4, gn_memory = 100,
     gn_reserved = 20, gn_active = 1, gn_queue = 0, gn_utilization = 10, gn_temperature = 40, gn_health = ''HEALTHY''\<rparr>"

definition sample_snapshot :: snapshot where
  "sample_snapshot = \<lparr>sn_identity = sample_identity, sn_nodes = [sample_node], sn_source = ''deterministic_fixture'',
     sn_observed = m0, sn_expires = m1\<rparr>"

definition sample_request :: capacity_request where
  "sample_request = \<lparr>cr_rollout = ''rollout-1'', cr_fingerprint = hash0, cr_gpus = 2, cr_memory = 30, cr_concurrency = 4,
     cr_exclusive = False\<rparr>"

definition sample_reservation :: reservation where
  "sample_reservation = \<lparr>rv_id = ''reservation:'' @ replicate 32 (CHR ''0''), rv_rollout = ''rollout-1'',
     rv_fingerprint = hash0, rv_node = ''node-1'', rv_gpus = 2, rv_memory = 30, rv_concurrency = 4, rv_exclusive = False,
     rv_state = ''RESERVED''\<rparr>"

definition sample_admission :: admission where
  "sample_admission = \<lparr>ad_status = ''ADMITTED'', ad_reason = None, ad_evaluated = 1, ad_eligible = 1,
     ad_reservation = Some sample_reservation, ad_failures = []\<rparr>"

lemma sample_fresh: "is_fresh sample_snapshot m0 = Inr True"
  by code_simp

lemma sample_headroom: "headroom_percent 50 100 = 50"
  by (simp add: headroom_percent_def to_double_def log2_floor_def bit_length.simps scale2_def round_half_even_def Let_def)

lemma sample_no_failure: "node_failure sample_node sample_request default_capacity_policy [] = None"
  by (simp add: node_failure_def sample_node_def sample_request_def default_capacity_policy_def memory_available_def
      sample_headroom)

lemma sample_reservation_id: "reservation_id sample_digest sample_request ''node-1'' = ''reservation:'' @ replicate 32 (CHR ''0'')"
  by code_simp

lemma sample_reservation_wf: "reservation_wf sample_reservation"
  by code_simp

lemma sample_admit: "admit_capacity sample_digest sample_snapshot sample_request m0 None [] = Inr sample_admission"
proof -
  have nodes: "sn_nodes sample_snapshot = [sample_node]" "gn_id sample_node = ''node-1''"
    by (simp_all add: sample_snapshot_def sample_node_def)
  have fp: "cr_fingerprint sample_request = fingerprint sample_digest (sn_identity sample_snapshot)"
    by (simp add: fingerprint_def sample_digest_def sample_request_def)
  have v: "\<lparr>rv_id = reservation_id sample_digest sample_request ''node-1'', rv_rollout = cr_rollout sample_request,
      rv_fingerprint = cr_fingerprint sample_request, rv_node = ''node-1'', rv_gpus = cr_gpus sample_request,
      rv_memory = cr_memory sample_request, rv_concurrency = cr_concurrency sample_request,
      rv_exclusive = cr_exclusive sample_request, rv_state = ''RESERVED''\<rparr> = sample_reservation"
    by (simp add: sample_reservation_id) (simp add: sample_request_def sample_reservation_def)
  show ?thesis
    using sample_no_failure sample_reservation_wf v
    by (simp add: admit_capacity_def Let_def sample_fresh fp nodes failures_of_def map_filter_def sample_admission_def)
qed

lemma sample_not_overbooked: "not_overbooked sample_snapshot []"
  by (simp add: not_overbooked_def sample_snapshot_def held_on_def fits_def sample_node_def memory_available_def)

lemma sample_distinct: "distinct (map gn_id (sn_nodes sample_snapshot))"
  by (simp add: sample_snapshot_def)

subsection \<open>One rollout\<close>

definition registered_rollout :: rollout where
  "registered_rollout = \<lparr>ro_id = ''rollout-1'', ro_identity = sample_identity, ro_state = REGISTERED, ro_revision = 1,
     ro_lkg_binding = ''binding-1'', ro_lkg_fingerprint = hash1, ro_readiness = None, ro_profile = None,
     ro_profile_hash = None, ro_reservation = None, ro_policy_hash = None, ro_canary = None, ro_binding = None,
     ro_failure = None, ro_created = m0, ro_updated = m0\<rparr>"

lemma sample_register:
  "register_rollout sample_digest sample_identity ''rollout-1'' ''binding-1'' hash1 m0 = Inr registered_rollout"
  by code_simp

definition validating_rollout :: rollout where
  "validating_rollout = registered_rollout\<lparr>ro_state := VALIDATING, ro_revision := 2, ro_updated := m1\<rparr>"

lemma sample_validate: "begin_validation registered_rollout m1 = Inr validating_rollout"
  by code_simp

definition sample_readiness :: pydict where
  "sample_readiness = [(''status'', PStr ''READY''), (''identity_fingerprint'', PStr hash0), (''evidence_digest'', PStr hash1)]"

definition sample_calibration :: pydict where
  "sample_calibration = [(''status'', PStr ''CALIBRATED''), (''identity_fingerprint'', PStr hash0),
     (''profile_id'', PStr ''profile-1''), (''profile_hash'', PStr hash1)]"

definition ready_rollout :: rollout where
  "ready_rollout = validating_rollout\<lparr>ro_state := READY, ro_revision := 3, ro_readiness := Some hash1,
     ro_profile := Some ''profile-1'', ro_profile_hash := Some hash1, ro_reservation := Some (rv_id sample_reservation)\<rparr>"

lemma sample_ready:
  "mark_rollout_ready sample_digest validating_rollout sample_readiness sample_calibration sample_reservation m1 = Inr ready_rollout"
  by code_simp

definition sample_policy :: canary_policy where
  "sample_policy = \<lparr>ca_traffic = 5, ca_seconds = 60, ca_samples = 20, ca_error_rate = 0, ca_quality = 1, ca_latency = 500\<rparr>"

definition sample_metrics :: canary_metrics where
  "sample_metrics = \<lparr>cm_fingerprint = hash0, cm_samples = 40, cm_error_rate = 0, cm_quality = 1, cm_latency = 300,
     cm_seconds = 90, cm_measured = m1\<rparr>"

definition canary_rollout :: rollout where
  "canary_rollout = ready_rollout\<lparr>ro_state := CANARY, ro_revision := 4, ro_policy_hash := Some hash0, ro_canary := Some ''RUNNING''\<rparr>"

lemma sample_canary: "start_canary sample_digest ready_rollout sample_policy m1 = Inr canary_rollout"
  by code_simp

definition passed_rollout :: rollout where
  "passed_rollout = canary_rollout\<lparr>ro_revision := 5, ro_canary := Some ''PASSED''\<rparr>"

lemma sample_evaluate: "map_sum id fst (evaluate_canary sample_digest canary_rollout sample_policy sample_metrics m1) = Inr passed_rollout"
  by code_simp

definition active_rollout :: rollout where
  "active_rollout = passed_rollout\<lparr>ro_state := ACTIVE, ro_revision := 6, ro_binding := Some ''binding-2''\<rparr>"

lemma sample_activate: "mark_rollout_active passed_rollout ''binding-2'' m1 = Inr active_rollout"
  by code_simp

lemma active_reachable: "rollout_reachable sample_digest active_rollout"
proof -
  obtain d where "evaluate_canary sample_digest canary_rollout sample_policy sample_metrics m1 = Inr (passed_rollout, d)"
    using sample_evaluate by (cases "evaluate_canary sample_digest canary_rollout sample_policy sample_metrics m1") auto
  then show ?thesis
    using sample_register sample_validate sample_ready sample_canary sample_activate
    by (meson rollout_reachable.intros rollout_step.intros)
qed

text \<open>The same life as a history of calls.\<close>

definition sample_history :: "rollout_op list" where
  "sample_history = [Begin_Validation m1, Mark_Ready sample_readiness sample_calibration sample_reservation m1,
     Start_Canary sample_policy m1, Evaluate_Canary sample_policy sample_metrics m1, Mark_Active ''binding-2'' m1]"

lemma sample_history: "rollout_history sample_digest sample_history registered_rollout = Inr active_rollout"
  by code_simp

subsection \<open>A repository\<close>

definition registered_repo :: rollout_repo where
  "registered_repo = snd (projr (service_register (repo_store sample_digest) ''1'' empty_repo registered_rollout))"

lemma sample_registered:
  "service_register (repo_store sample_digest) ''1'' empty_repo registered_rollout = Inr (registered_rollout, registered_repo)"
  by code_simp

definition validating_repo :: rollout_repo where
  "validating_repo = snd (projr (persist_transition (repo_store sample_digest) ''2'' registered_repo registered_repo
     validating_rollout 1 ''rollout.validation_started'' None))"

lemma sample_persisted:
  "persist_transition (repo_store sample_digest) ''2'' registered_repo registered_repo
     validating_rollout 1 ''rollout.validation_started'' None = Inr (validating_rollout, validating_repo)"
  by code_simp

lemma sample_repo_reachable: "service_reachable (repo_store sample_digest) empty_repo validating_repo"
  using sample_registered sample_persisted by (meson service_reachable.intros)

lemma empty_repo_inv: "repo_inv empty_repo"
  by (simp add: repo_inv_def empty_repo_def)

lemma registered_repo_inv: "repo_inv registered_repo"
  by (rule repo.register_Inr [OF empty_repo_inv sample_registered])

end
