(* ===== verification/Catalog_Lifecycle.thy ===== *)
theory Catalog_Lifecycle
  imports Model_Rollout
begin

section \<open>The model catalog and its aliases\<close>

text \<open>
  \<^verbatim>\<open>services/nex-mo/nex_mo/catalog_lifecycle.py\<close> (entries and alias bindings),
  \<^verbatim>\<open>catalog_lifecycle_repository.py\<close> (the protocol as a locale and the in-memory repository) and
  \<^verbatim>\<open>catalog_lifecycle_service.py\<close>. The clock and the id factory of the service are the arguments
  \<open>now\<close> and \<open>new_id\<close>: the values they return. The bootstrap lists, which come from the provider
  registry, are arguments.
\<close>

subsection \<open>Entries and bindings\<close>

datatype catalog_exn = CatalogError string string | Catalog_Py py_error

definition CATALOG_CAPABILITIES :: "string list" where
  "CATALOG_CAPABILITIES = [''embedding'', ''reranking'', ''generation'']"

definition CATALOG_STATES :: "string list" where
  "CATALOG_STATES = [''DRAFT'', ''ACTIVE'', ''RETIRED'']"

definition ALIAS_BINDING_STATES :: "string list" where
  "ALIAS_BINDING_STATES = [''ACTIVE'', ''SUPERSEDED'', ''ROLLED_BACK'']"

text \<open>\<open>[a-z0-9][a-z0-9._:-]{0,127}\<close>.\<close>

definition lower_start :: "char \<Rightarrow> bool" where
  "lower_start c \<longleftrightarrow> (let n = (of_char c :: nat) in 97 \<le> n \<and> n \<le> 122 \<or> 48 \<le> n \<and> n \<le> 57)"

definition is_catalog_id :: "string \<Rightarrow> bool" where
  "is_catalog_id s \<longleftrightarrow> s \<noteq> [] \<and> lower_start (hd s) \<and>
     list_all (\<lambda>c. lower_start c \<or> c \<in> set ''._:-'') (tl s) \<and> length s \<le> 128"

definition catalog_identifier :: "string \<Rightarrow> string \<Rightarrow> catalog_exn + string" where
  "catalog_identifier v f =
     (if is_catalog_id v then Inr v
      else Inl (CatalogError (''mo.'' @ f @ ''_invalid'') (f @ '' must be a stable identifier'')))"

definition catalog_string :: "string \<Rightarrow> string \<Rightarrow> catalog_exn + string" where
  "catalog_string v f =
     (if py_strip v = [] then Inl (CatalogError (''mo.'' @ f @ ''_invalid'') (f @ '' is required''))
      else Inr (py_strip v))"

definition catalog_time :: "string \<Rightarrow> string \<Rightarrow> catalog_exn + int" where
  "catalog_time v f =
     (case fromisoformat (replace_Z v) of
        None \<Rightarrow> Inl (CatalogError (''mo.'' @ f @ ''_invalid'') (f @ '' must be ISO 8601''))
      | Some (local, None) \<Rightarrow> Inl (CatalogError (''mo.'' @ f @ ''_invalid'') (f @ '' must include a timezone''))
      | Some (local, Some off) \<Rightarrow> map_err Catalog_Py (to_utc local off))"

record catalog_entry =
  ce_id :: string
  ce_capability :: string
  ce_model :: string
  ce_model_revision :: string
  ce_deployment :: string
  ce_profile :: string
  ce_precision :: string
  ce_provider :: string
  ce_formats :: "string list"
  ce_max_input :: int
  ce_max_output :: int
  ce_state :: string
  ce_revision :: int
  ce_created :: string
  ce_updated :: string
  ce_dimensions :: "int option"

definition check_entry :: "catalog_entry \<Rightarrow> catalog_exn + unit" where
  "check_entry e =
     sbind (catalog_identifier (ce_id e) ''catalog_id'') (\<lambda>_.
     if ce_capability e \<notin> set CATALOG_CAPABILITIES then
       Inl (CatalogError ''mo.catalog_capability_invalid'' ''unsupported catalog capability'')
     else
     sbind (each_check (\<lambda>(f, v). catalog_string v f)
       [(''model_name'', ce_model e), (''model_revision'', ce_model_revision e), (''deployment_id'', ce_deployment e),
        (''runtime_profile'', ce_profile e), (''precision'', ce_precision e), (''provider_type'', ce_provider e)]) (\<lambda>_.
     if ce_state e \<notin> set CATALOG_STATES then
       Inl (CatalogError ''mo.catalog_state_invalid'' ''unsupported catalog state'')
     else if ce_revision e < 1 then
       Inl (CatalogError ''mo.catalog_revision_invalid'' ''catalog revision must be positive'')
     else if ce_formats e = [] \<or> list_ex (\<lambda>f. py_strip f = []) (ce_formats e) then
       Inl (CatalogError ''mo.catalog_response_formats_invalid'' ''response formats must be non-empty strings'')
     else if \<not> distinct (ce_formats e) then
       Inl (CatalogError ''mo.catalog_response_formats_invalid'' ''response formats must be unique'')
     else if ce_max_input e \<le> 0 \<or> ce_max_output e < 0 then
       Inl (CatalogError ''mo.catalog_token_limits_invalid'' ''catalog token limits are invalid'')
     else if ce_capability e = ''embedding'' \<and> (case ce_dimensions e of None \<Rightarrow> True | Some d \<Rightarrow> d \<le> 0) then
       Inl (CatalogError ''mo.catalog_embedding_dimensions_invalid'' ''embedding dimensions must be positive'')
     else if ce_capability e \<noteq> ''embedding'' \<and> ce_dimensions e \<noteq> None then
       Inl (CatalogError ''mo.catalog_embedding_dimensions_invalid''
         ''embedding dimensions are only valid for embedding'')
     else
     sbind (catalog_time (ce_created e) ''created_at'') (\<lambda>created.
     sbind (catalog_time (ce_updated e) ''updated_at'') (\<lambda>updated.
     if updated < created then
       Inl (CatalogError ''mo.catalog_timestamp_invalid'' ''updated_at must not precede created_at'')
     else Inr ()))))"

record alias_binding =
  ab_id :: string
  ab_alias :: string
  ab_capability :: string
  ab_catalog :: string
  ab_revision :: int
  ab_state :: string
  ab_reason :: string
  ab_changed_by :: string
  ab_created :: string
  ab_previous :: "string option"

definition check_binding :: "alias_binding \<Rightarrow> catalog_exn + unit" where
  "check_binding b =
     sbind (each_check (\<lambda>(f, v). catalog_identifier v f)
       [(''binding_id'', ab_id b), (''alias'', ab_alias b), (''catalog_id'', ab_catalog b), (''changed_by'', ab_changed_by b)]) (\<lambda>_.
     sbind (case ab_previous b of None \<Rightarrow> Inr ()
            | Some p \<Rightarrow> sbind (catalog_identifier p ''previous_binding_id'') (\<lambda>_.
                if p = ab_id b then Inl (CatalogError ''mo.alias_lineage_invalid'' ''previous binding must differ from binding'')
                else Inr ())) (\<lambda>_.
     if ab_capability b \<notin> set CATALOG_CAPABILITIES then
       Inl (CatalogError ''mo.alias_capability_invalid'' ''unsupported alias capability'')
     else if ab_revision b < 1 then
       Inl (CatalogError ''mo.alias_revision_invalid'' ''alias binding revision must be positive'')
     else if ab_state b \<notin> set ALIAS_BINDING_STATES then
       Inl (CatalogError ''mo.alias_state_invalid'' ''unsupported alias binding state'')
     else
     sbind (catalog_string (ab_reason b) ''change_reason'') (\<lambda>reason.
     if length reason > 500 then
       Inl (CatalogError ''mo.alias_change_reason_invalid'' ''change reason must be at most 500 characters'')
     else sbind (catalog_time (ab_created b) ''created_at'') (\<lambda>_. Inr ()))))"

lemma catalog_identifier_Inr [res_simps]: "catalog_identifier v f = Inr x \<longleftrightarrow> x = v \<and> is_catalog_id v"
  by (auto simp: catalog_identifier_def)

lemma catalog_string_Inr [res_simps]: "catalog_string v f = Inr x \<longleftrightarrow> x = py_strip v \<and> py_strip v \<noteq> []"
  by (auto simp: catalog_string_def)

lemma check_binding_Inr:
  "check_binding b = Inr u \<longleftrightarrow>
    is_catalog_id (ab_id b) \<and> is_catalog_id (ab_alias b) \<and> is_catalog_id (ab_catalog b) \<and> is_catalog_id (ab_changed_by b) \<and>
    (\<forall>p. ab_previous b = Some p \<longrightarrow> is_catalog_id p \<and> p \<noteq> ab_id b) \<and> ab_capability b \<in> set CATALOG_CAPABILITIES \<and>
    1 \<le> ab_revision b \<and> ab_state b \<in> set ALIAS_BINDING_STATES \<and> py_strip (ab_reason b) \<noteq> [] \<and>
    length (py_strip (ab_reason b)) \<le> 500 \<and> (\<exists>t. catalog_time (ab_created b) ''created_at'' = Inr t)"
  unfolding check_binding_def by (cases "ab_previous b") (auto simp: res_simps not_less)

lemma check_binding_state:
  "check_binding b = Inr () \<Longrightarrow> st \<in> set ALIAS_BINDING_STATES \<Longrightarrow> check_binding (b\<lparr>ab_state := st\<rparr>) = Inr ()"
  by (simp add: check_binding_Inr)

subsection \<open>The consistency check of a catalog\<close>

fun check_bindings ::
  "catalog_entry list \<Rightarrow> (string \<times> string) list \<Rightarrow> alias_binding list \<Rightarrow> catalog_exn + unit" where
  "check_bindings es keys [] = Inr ()"
| "check_bindings es keys (b # bs) =
     (case find (\<lambda>e. ce_id e = ab_catalog b) es of
        None \<Rightarrow> Inl (CatalogError ''mo.alias_catalog_not_found'' ''alias binding references an unknown catalog entry'')
      | Some e \<Rightarrow>
          if ab_capability b \<noteq> ce_capability e then
            Inl (CatalogError ''mo.alias_capability_mismatch'' ''alias and catalog capabilities must match'')
          else if ab_state b \<noteq> ''ACTIVE'' then check_bindings es keys bs
          else if ce_state e \<noteq> ''ACTIVE'' then
            Inl (CatalogError ''mo.alias_catalog_inactive'' ''active alias must reference an active catalog entry'')
          else if (ab_alias b, ab_capability b) \<in> set keys then
            Inl (CatalogError ''mo.alias_active_conflict'' ''only one active binding is allowed per alias and capability'')
          else check_bindings es ((ab_alias b, ab_capability b) # keys) bs)"

text \<open>Once the ids are known to be unique, the dictionary by id is the search of the list.\<close>

definition validate_active_bindings :: "catalog_entry list \<Rightarrow> alias_binding list \<Rightarrow> catalog_exn + unit" where
  "validate_active_bindings es bs =
     (if \<not> distinct (map ce_id es) then
        Inl (CatalogError ''mo.catalog_identity_conflict'' ''catalog identities must be unique'')
      else check_bindings es [] bs)"

subsection \<open>The in-memory repository\<close>

datatype catalog_repo_exn = CatalogRepoError string string | Catalog_Invalid catalog_exn

record catalog_repo =
  cr_entries :: "(string \<times> catalog_entry) list"
  cr_bindings :: "(string \<times> alias_binding) list"

definition empty_catalog :: catalog_repo where
  "empty_catalog = \<lparr>cr_entries = [], cr_bindings = []\<rparr>"

definition deployment_key :: "catalog_entry \<Rightarrow> string \<times> string \<times> string" where
  "deployment_key e = (ce_capability e, ce_deployment e, ce_model_revision e)"

definition catalog_insert :: "catalog_repo \<Rightarrow> catalog_entry \<Rightarrow> catalog_repo_exn + catalog_entry \<times> catalog_repo" where
  "catalog_insert s e =
     (if map_of (cr_entries s) (ce_id e) \<noteq> None \<or>
         list_ex (\<lambda>c. deployment_key c = deployment_key e) (map snd (cr_entries s)) then
        Inl (CatalogRepoError ''mo.catalog_conflict'' ''catalog entry conflicts with durable state'')
      else Inr (e, s\<lparr>cr_entries := dict_put (ce_id e) e (cr_entries s)\<rparr>))"

definition catalog_get :: "catalog_repo \<Rightarrow> string \<Rightarrow> catalog_repo_exn + catalog_entry option" where
  "catalog_get s i = Inr (map_of (cr_entries s) i)"

definition filter_ok :: "string list \<Rightarrow> string option \<Rightarrow> bool" where
  "filter_ok allowed v = (case v of None \<Rightarrow> True | Some x \<Rightarrow> x \<in> set allowed)"

definition validate_catalog_filters :: "string option \<Rightarrow> string option \<Rightarrow> catalog_repo_exn + unit" where
  "validate_catalog_filters capability st =
     (if \<not> filter_ok CATALOG_CAPABILITIES capability then
        Inl (CatalogRepoError ''mo.catalog_filter_invalid'' ''unsupported catalog capability filter'')
      else if \<not> filter_ok CATALOG_STATES st then
        Inl (CatalogRepoError ''mo.catalog_filter_invalid'' ''unsupported catalog state filter'')
      else Inr ())"

definition catalog_list :: "catalog_repo \<Rightarrow> string option \<Rightarrow> string option \<Rightarrow> catalog_repo_exn + catalog_entry list" where
  "catalog_list s capability st =
     sbind (validate_catalog_filters capability st) (\<lambda>_.
       Inr (sort_key (\<lambda>e. (ce_capability e, ce_model e, ce_revision e))
         (filter (\<lambda>e. (capability = None \<or> capability = Some (ce_capability e)) \<and> (st = None \<or> st = Some (ce_state e)))
           (map snd (cr_entries s)))))"

definition catalog_update ::
  "catalog_repo \<Rightarrow> string \<Rightarrow> int \<Rightarrow> string \<Rightarrow> string \<Rightarrow> catalog_repo_exn + catalog_entry \<times> catalog_repo" where
  "catalog_update s i expected target updated =
     (if target \<notin> set CATALOG_STATES then
        Inl (CatalogRepoError ''mo.catalog_state_invalid'' ''unsupported target catalog state'')
      else case map_of (cr_entries s) i of
        None \<Rightarrow> Inl (CatalogRepoError ''mo.catalog_not_found'' ''catalog entry was not found'')
      | Some c \<Rightarrow>
          if ce_revision c \<noteq> expected then
            Inl (CatalogRepoError ''mo.catalog_revision_conflict'' ''catalog revision does not match expected revision'')
          else
            let e = c\<lparr>ce_state := target, ce_revision := ce_revision c + 1, ce_updated := updated\<rparr> in
            sbind (map_err Catalog_Invalid (check_entry e)) (\<lambda>_.
              Inr (e, s\<lparr>cr_entries := dict_put i e (cr_entries s)\<rparr>)))"

definition validate_alias_filters :: "string option \<Rightarrow> string option \<Rightarrow> catalog_repo_exn + unit" where
  "validate_alias_filters capability st =
     (if \<not> filter_ok CATALOG_CAPABILITIES capability then
        Inl (CatalogRepoError ''mo.alias_filter_invalid'' ''unsupported alias capability filter'')
      else if \<not> filter_ok ALIAS_BINDING_STATES st then
        Inl (CatalogRepoError ''mo.alias_filter_invalid'' ''unsupported alias binding state filter'')
      else Inr ())"

definition binding_matches :: "string option \<Rightarrow> string option \<Rightarrow> string option \<Rightarrow> alias_binding \<Rightarrow> bool" where
  "binding_matches al capability st b \<longleftrightarrow>
     (al = None \<or> al = Some (ab_alias b)) \<and> (capability = None \<or> capability = Some (ab_capability b)) \<and>
     (st = None \<or> st = Some (ab_state b))"

definition catalog_bindings ::
  "catalog_repo \<Rightarrow> string option \<Rightarrow> string option \<Rightarrow> string option \<Rightarrow> catalog_repo_exn + alias_binding list" where
  "catalog_bindings s al capability st =
     sbind (validate_alias_filters capability st) (\<lambda>_.
       Inr (sort_key (\<lambda>b. (ab_alias b, ab_capability b, ab_revision b))
         (filter (binding_matches al capability st) (map snd (cr_bindings s)))))"

definition catalog_replace ::
  "catalog_repo \<Rightarrow> alias_binding \<Rightarrow> int \<Rightarrow> string \<Rightarrow> catalog_repo_exn + alias_binding \<times> catalog_repo" where
  "catalog_replace s b expected prior =
     (if ab_state b \<noteq> ''ACTIVE'' \<or> prior \<notin> {''SUPERSEDED'', ''ROLLED_BACK''} then
        Inl (CatalogRepoError ''mo.alias_state_invalid'' ''alias replacement states are invalid'')
      else case map_of (cr_entries s) (ab_catalog b) of
        None \<Rightarrow> Inl (CatalogRepoError ''mo.alias_catalog_not_found'' ''alias target catalog entry was not found'')
      | Some target \<Rightarrow>
          if ce_state target \<noteq> ''ACTIVE'' then
            Inl (CatalogRepoError ''mo.alias_catalog_inactive'' ''alias target catalog entry is not active'')
          else if ce_capability target \<noteq> ab_capability b then
            Inl (CatalogRepoError ''mo.alias_capability_mismatch'' ''alias and target catalog capabilities do not match'')
          else
            let active = filter (binding_matches (Some (ab_alias b)) (Some (ab_capability b)) (Some ''ACTIVE''))
                           (map snd (cr_bindings s)) in
            if length active > 1 then
              Inl (CatalogRepoError ''mo.alias_integrity_invalid'' ''multiple active alias bindings were found'')
            else
              let current = (case active of [] \<Rightarrow> None | c # _ \<Rightarrow> Some c);
                  revision = (case current of None \<Rightarrow> 0 | Some c \<Rightarrow> ab_revision c) in
              if revision \<noteq> expected then
                Inl (CatalogRepoError ''mo.alias_revision_conflict'' ''alias revision does not match expected revision'')
              else if ab_revision b \<noteq> expected + 1 \<or> ab_previous b \<noteq> map_option ab_id current then
                Inl (CatalogRepoError ''mo.alias_lineage_invalid'' ''alias replacement revision or lineage is invalid'')
              else if map_of (cr_bindings s) (ab_id b) \<noteq> None then
                Inl (CatalogRepoError ''mo.alias_revision_conflict'' ''alias binding identity already exists'')
              else
                sbind (case current of None \<Rightarrow> Inr (cr_bindings s)
                       | Some c \<Rightarrow>
                           let c' = c\<lparr>ab_state := prior\<rparr> in
                           sbind (map_err Catalog_Invalid (check_binding c')) (\<lambda>_.
                             Inr (dict_put (ab_id c) c' (cr_bindings s)))) (\<lambda>bs.
                Inr (b, s\<lparr>cr_bindings := dict_put (ab_id b) b bs\<rparr>)))"

definition bootstrap_if_empty :: "catalog_repo \<Rightarrow> catalog_entry list \<Rightarrow> alias_binding list \<Rightarrow> bool \<times> catalog_repo" where
  "bootstrap_if_empty s es bs =
     (if cr_entries s \<noteq> [] then (False, s)
      else (True, \<lparr>cr_entries = fold (\<lambda>e. dict_put (ce_id e) e) es [], cr_bindings = fold (\<lambda>b. dict_put (ab_id b) b) bs []\<rparr>))"


subsection \<open>The repository as an interface\<close>

record 's catalog_store =
  cs_insert :: "'s \<Rightarrow> catalog_entry \<Rightarrow> catalog_repo_exn + catalog_entry \<times> 's"
  cs_get :: "'s \<Rightarrow> string \<Rightarrow> catalog_repo_exn + catalog_entry option"
  cs_list :: "'s \<Rightarrow> string option \<Rightarrow> string option \<Rightarrow> catalog_repo_exn + catalog_entry list"
  cs_update :: "'s \<Rightarrow> string \<Rightarrow> int \<Rightarrow> string \<Rightarrow> string \<Rightarrow> catalog_repo_exn + catalog_entry \<times> 's"
  cs_bindings :: "'s \<Rightarrow> string option \<Rightarrow> string option \<Rightarrow> string option \<Rightarrow> catalog_repo_exn + alias_binding list"
  cs_replace :: "'s \<Rightarrow> alias_binding \<Rightarrow> int \<Rightarrow> string \<Rightarrow> catalog_repo_exn + alias_binding \<times> 's"

definition memory_catalog :: "catalog_repo catalog_store" where
  "memory_catalog = \<lparr>cs_insert = catalog_insert, cs_get = catalog_get, cs_list = catalog_list,
     cs_update = catalog_update, cs_bindings = catalog_bindings, cs_replace = catalog_replace\<rparr>"

text \<open>
  \<open>entry\<close> and \<open>bind\<close> are what the store holds, by id. The active bindings of an alias, and what a
  replacement does to the bindings, are stated over them.
\<close>

definition same_key :: "alias_binding \<Rightarrow> alias_binding \<Rightarrow> bool" where
  "same_key b c \<longleftrightarrow> ab_alias b = ab_alias c \<and> ab_capability b = ab_capability c"

definition actives :: "(string \<Rightarrow> alias_binding option) \<Rightarrow> alias_binding \<Rightarrow> alias_binding set" where
  "actives bind b = {c. \<exists>i. bind i = Some c \<and> same_key c b \<and> ab_state c = ''ACTIVE''}"

definition replaced ::
  "(string \<Rightarrow> alias_binding option) \<Rightarrow> alias_binding \<Rightarrow> int \<Rightarrow> string \<Rightarrow> (string \<Rightarrow> alias_binding option) \<Rightarrow> bool" where
  "replaced bind b n prior bind' \<longleftrightarrow>
     ab_state b = ''ACTIVE'' \<and> ab_revision b = n + 1 \<and> bind (ab_id b) = None \<and>
     (n = 0 \<and> actives bind b = {} \<and> ab_previous b = None \<and> bind' = bind(ab_id b := Some b) \<or>
      (\<exists>c. actives bind b = {c} \<and> ab_revision c = n \<and> ab_previous b = Some (ab_id c) \<and>
        bind' = bind(ab_id c := Some (c\<lparr>ab_state := prior\<rparr>), ab_id b := Some b)))"

locale catalog_store_laws =
  fixes S :: "'s catalog_store" and inv :: "'s \<Rightarrow> bool"
    and entry :: "'s \<Rightarrow> string \<Rightarrow> catalog_entry option" and bind :: "'s \<Rightarrow> string \<Rightarrow> alias_binding option"
  assumes get_law: "inv s \<Longrightarrow> cs_get S s i = Inr (entry s i)"
    and entry_id: "inv s \<Longrightarrow> entry s i = Some e \<Longrightarrow> ce_id e = i"
    and bind_id: "inv s \<Longrightarrow> bind s i = Some b \<Longrightarrow> ab_id b = i"
    and bind_checked: "inv s \<Longrightarrow> bind s i = Some b \<Longrightarrow> check_binding b = Inr ()"
    and insert_law: "inv s \<Longrightarrow> cs_insert S s e = Inr (e', s') \<Longrightarrow>
      e' = e \<and> inv s' \<and> entry s (ce_id e) = None \<and> entry s' = (entry s)(ce_id e := Some e) \<and> bind s' = bind s"
    and update_law: "inv s \<Longrightarrow> cs_update S s i n target now = Inr (e', s') \<Longrightarrow>
      inv s' \<and> (\<exists>c. entry s i = Some c \<and> ce_revision c = n \<and>
        e' = c\<lparr>ce_state := target, ce_revision := n + 1, ce_updated := now\<rparr>) \<and>
      check_entry e' = Inr () \<and> entry s' = (entry s)(i := Some e') \<and> bind s' = bind s"
    and update_stale: "inv s \<Longrightarrow> entry s i = Some c \<Longrightarrow> ce_revision c \<noteq> n \<Longrightarrow> target \<in> set CATALOG_STATES \<Longrightarrow>
      \<exists>d. cs_update S s i n target now = Inl (CatalogRepoError ''mo.catalog_revision_conflict'' d)"
    and bindings_law: "inv s \<Longrightarrow> cs_bindings S s al cap st = Inr bs \<Longrightarrow>
      set bs = {b. \<exists>i. bind s i = Some b \<and> binding_matches al cap st b} \<and> distinct bs"
    and bindings_ok: "inv s \<Longrightarrow> filter_ok CATALOG_CAPABILITIES cap \<Longrightarrow> filter_ok ALIAS_BINDING_STATES st \<Longrightarrow>
      \<exists>bs. cs_bindings S s al cap st = Inr bs"
    and replace_law: "inv s \<Longrightarrow> check_binding b = Inr () \<Longrightarrow> cs_replace S s b n prior = Inr (b', s') \<Longrightarrow>
      b' = b \<and> inv s' \<and> prior \<in> {''SUPERSEDED'', ''ROLLED_BACK''} \<and>
      (\<exists>t. entry s (ab_catalog b) = Some t \<and> ce_state t = ''ACTIVE'' \<and> ce_capability t = ab_capability b) \<and>
      entry s' = entry s \<and> replaced (bind s) b n prior (bind s')"
    and replace_stale: "inv s \<Longrightarrow> entry s (ab_catalog b) = Some t \<Longrightarrow> ce_state t = ''ACTIVE'' \<Longrightarrow>
      ce_capability t = ab_capability b \<Longrightarrow> ab_state b = ''ACTIVE'' \<Longrightarrow> prior \<in> {''SUPERSEDED'', ''ROLLED_BACK''} \<Longrightarrow>
      actives (bind s) b = {a} \<Longrightarrow> ab_revision a \<noteq> n \<Longrightarrow>
      \<exists>d. cs_replace S s b n prior = Inl (CatalogRepoError ''mo.alias_revision_conflict'' d)"
    and replace_ok: "inv s \<Longrightarrow> check_binding b = Inr () \<Longrightarrow> entry s (ab_catalog b) = Some t \<Longrightarrow> ce_state t = ''ACTIVE'' \<Longrightarrow>
      ce_capability t = ab_capability b \<Longrightarrow> ab_state b = ''ACTIVE'' \<Longrightarrow> prior \<in> {''SUPERSEDED'', ''ROLLED_BACK''} \<Longrightarrow>
      actives (bind s) b = {a} \<Longrightarrow> ab_revision b = ab_revision a + 1 \<Longrightarrow> ab_previous b = Some (ab_id a) \<Longrightarrow>
      bind s (ab_id b) = None \<Longrightarrow> \<exists>s'. cs_replace S s b (ab_revision a) prior = Inr (b, s')"

subsection \<open>The in-memory repository keeps the laws\<close>

definition catalog_inv :: "catalog_repo \<Rightarrow> bool" where
  "catalog_inv s \<longleftrightarrow>
     distinct (map fst (cr_entries s)) \<and> distinct (map fst (cr_bindings s)) \<and>
     (\<forall>i e. map_of (cr_entries s) i = Some e \<longrightarrow> ce_id e = i) \<and>
     (\<forall>i b. map_of (cr_bindings s) i = Some b \<longrightarrow> ab_id b = i \<and> check_binding b = Inr ())"

definition repo_entry :: "catalog_repo \<Rightarrow> string \<Rightarrow> catalog_entry option" where
  "repo_entry s = map_of (cr_entries s)"

definition repo_bind :: "catalog_repo \<Rightarrow> string \<Rightarrow> alias_binding option" where
  "repo_bind s = map_of (cr_bindings s)"

lemma catalog_inv_entries:
  "catalog_inv s \<Longrightarrow> ce_id e = i \<Longrightarrow> catalog_inv (s\<lparr>cr_entries := dict_put i e (cr_entries s)\<rparr>)"
  unfolding catalog_inv_def by (auto simp del: map_of_eq_Some_iff)

lemma catalog_inv_bindings:
  "catalog_inv s \<Longrightarrow> ab_id b = i \<Longrightarrow> check_binding b = Inr () \<Longrightarrow> catalog_inv (s\<lparr>cr_bindings := dict_put i b (cr_bindings s)\<rparr>)"
  unfolding catalog_inv_def by (auto simp del: map_of_eq_Some_iff)

lemma catalog_values:
  assumes "catalog_inv s"
  shows "b \<in> set (map snd (cr_bindings s)) \<longleftrightarrow> (\<exists>i. repo_bind s i = Some b)" "distinct (map snd (cr_bindings s))"
proof -
  have d: "distinct (map fst (cr_bindings s))" and i: "\<And>i b. map_of (cr_bindings s) i = Some b \<Longrightarrow> ab_id b = i"
    using assms unfolding catalog_inv_def by blast+
  show "b \<in> set (map snd (cr_bindings s)) \<longleftrightarrow> (\<exists>i. repo_bind s i = Some b)"
    using map_of_values [OF d] by (simp add: repo_bind_def)
  have "map fst (cr_bindings s) = map (ab_id \<circ> snd) (cr_bindings s)"
    by (rule map_cong [OF refl]) (metis comp_apply d i map_of_is_SomeI prod.collapse)
  with d have "distinct (map ab_id (map snd (cr_bindings s)))" by simp
  then show "distinct (map snd (cr_bindings s))" by (rule distinct_map [THEN iffD1, THEN conjunct1])
qed

lemma catalog_bindings_set:
  assumes "catalog_inv s"
  shows "set (filter (binding_matches al cap st) (map snd (cr_bindings s))) =
    {b. \<exists>i. repo_bind s i = Some b \<and> binding_matches al cap st b}"
  using catalog_values(1) [OF assms] by auto

lemma catalog_actives:
  assumes "catalog_inv s"
  shows "set (filter (binding_matches (Some (ab_alias b)) (Some (ab_capability b)) (Some ''ACTIVE''))
    (map snd (cr_bindings s))) = actives (repo_bind s) b"
  unfolding catalog_bindings_set [OF assms] by (auto simp: actives_def binding_matches_def same_key_def)

lemma distinct_set_single: "distinct xs \<Longrightarrow> set xs = {c} \<longleftrightarrow> xs = [c]"
  by (metis distinct.simps(2) empty_iff empty_set insert_iff insertE list.exhaust list.set(2) list.set_intros(1) set_empty)

lemma catalog_replace_Inr:
  assumes inv: "catalog_inv s" and chk: "check_binding b = Inr ()" and ok: "catalog_replace s b n prior = Inr (b', s')"
  shows "b' = b \<and> catalog_inv s' \<and> prior \<in> {''SUPERSEDED'', ''ROLLED_BACK''} \<and>
    (\<exists>t. repo_entry s (ab_catalog b) = Some t \<and> ce_state t = ''ACTIVE'' \<and> ce_capability t = ab_capability b) \<and>
    repo_entry s' = repo_entry s \<and> replaced (repo_bind s) b n prior (repo_bind s')"
proof -
  define xs where "xs = filter (binding_matches (Some (ab_alias b)) (Some (ab_capability b)) (Some ''ACTIVE''))
    (map snd (cr_bindings s))"
  have set: "set xs = actives (repo_bind s) b" unfolding xs_def by (rule catalog_actives [OF inv])
  note ok = ok [unfolded catalog_replace_def Let_def, folded xs_def]
  from ok obtain t where st: "ab_state b = ''ACTIVE''" "prior \<in> {''SUPERSEDED'', ''ROLLED_BACK''}"
    and t: "map_of (cr_entries s) (ab_catalog b) = Some t" "ce_state t = ''ACTIVE''" "ce_capability t = ab_capability b"
    and few: "length xs \<le> 1" and rev: "ab_revision b = n + 1" and new: "map_of (cr_bindings s) (ab_id b) = None"
    by (auto simp: res_simps split: if_splits)
  consider (none) "xs = []" | (one) c where "xs = [c]" using few by (cases xs rule: list.exhaust) (auto simp: Suc_le_eq)
  then show ?thesis
  proof cases
    case none
    with ok st t new rev have n: "n = 0" "ab_previous b = None" "b' = b" "s' = s\<lparr>cr_bindings := dict_put (ab_id b) b (cr_bindings s)\<rparr>"
      by (auto split: if_splits)
    moreover have "actives (repo_bind s) b = {}" using set none by simp
    ultimately show ?thesis
      using st t new rev catalog_inv_bindings [OF inv refl chk] by (simp add: replaced_def repo_bind_def repo_entry_def)
  next
    case (one c)
    let ?c = "c\<lparr>ab_state := prior\<rparr>"
    from one ok st t new rev have n: "check_binding ?c = Inr ()" "ab_revision c = n" "ab_previous b = Some (ab_id c)" "b' = b"
      "s' = s\<lparr>cr_bindings := dict_put (ab_id b) b (dict_put (ab_id c) ?c (cr_bindings s))\<rparr>"
      by (auto simp: res_simps split: if_splits)
    have "catalog_inv (s\<lparr>cr_bindings := dict_put (ab_id c) ?c (cr_bindings s)\<rparr>)"
      by (rule catalog_inv_bindings [OF inv _ n(1)]) simp
    from catalog_inv_bindings [OF this refl chk] have "catalog_inv s'" by (simp add: n)
    moreover have "actives (repo_bind s) b = {c}" using set one by simp
    ultimately show ?thesis
      using st t new rev n by (simp add: replaced_def repo_bind_def repo_entry_def)
  qed
qed

lemma catalog_replace_stale:
  assumes inv: "catalog_inv s" and t: "repo_entry s (ab_catalog b) = Some t" "ce_state t = ''ACTIVE''"
    "ce_capability t = ab_capability b" "ab_state b = ''ACTIVE''" "prior \<in> {''SUPERSEDED'', ''ROLLED_BACK''}"
    and c: "actives (repo_bind s) b = {c}" "ab_revision c \<noteq> n"
  shows "\<exists>d. catalog_replace s b n prior = Inl (CatalogRepoError ''mo.alias_revision_conflict'' d)"
proof -
  have "filter (binding_matches (Some (ab_alias b)) (Some (ab_capability b)) (Some ''ACTIVE'')) (map snd (cr_bindings s)) = [c]"
    using catalog_actives [OF inv, of b] unfolding c(1)
    by (rule distinct_set_single [OF distinct_filter [OF catalog_values(2) [OF inv]], THEN iffD1])
  with t c(2) show ?thesis by (simp add: catalog_replace_def Let_def repo_entry_def)
qed

lemma catalog_replace_ok:
  assumes inv: "catalog_inv s" and t: "repo_entry s (ab_catalog b) = Some t" "ce_state t = ''ACTIVE''"
    "ce_capability t = ab_capability b" "ab_state b = ''ACTIVE''" "prior \<in> {''SUPERSEDED'', ''ROLLED_BACK''}"
    and c: "actives (repo_bind s) b = {c}" "ab_revision b = ab_revision c + 1" "ab_previous b = Some (ab_id c)"
    and new: "repo_bind s (ab_id b) = None"
  shows "\<exists>s'. catalog_replace s b (ab_revision c) prior = Inr (b, s')"
proof -
  have f: "filter (binding_matches (Some (ab_alias b)) (Some (ab_capability b)) (Some ''ACTIVE'')) (map snd (cr_bindings s)) = [c]"
    using catalog_actives [OF inv, of b] unfolding c(1)
    by (rule distinct_set_single [OF distinct_filter [OF catalog_values(2) [OF inv]], THEN iffD1])
  have "c \<in> actives (repo_bind s) b" using c(1) by simp
  then have "check_binding c = Inr ()" using inv unfolding actives_def catalog_inv_def repo_bind_def by blast
  then have "check_binding (c\<lparr>ab_state := prior\<rparr>) = Inr ()"
    by (rule check_binding_state) (use t(5) in \<open>auto simp: ALIAS_BINDING_STATES_def\<close>)
  with t c new f show ?thesis by (simp add: catalog_replace_def Let_def repo_entry_def repo_bind_def)
qed

lemma catalog_update_Inr:
  assumes inv: "catalog_inv s" and ok: "catalog_update s i n target now = Inr (e', s')"
  shows "catalog_inv s' \<and> (\<exists>c. repo_entry s i = Some c \<and> ce_revision c = n \<and>
      e' = c\<lparr>ce_state := target, ce_revision := n + 1, ce_updated := now\<rparr>) \<and>
    check_entry e' = Inr () \<and> repo_entry s' = (repo_entry s)(i := Some e') \<and> repo_bind s' = repo_bind s"
proof -
  from ok obtain c where c: "map_of (cr_entries s) i = Some c" "ce_revision c = n" "check_entry e' = Inr ()"
    and e': "e' = c\<lparr>ce_state := target, ce_revision := n + 1, ce_updated := now\<rparr>"
    and s': "s' = s\<lparr>cr_entries := dict_put i e' (cr_entries s)\<rparr>"
    by (auto simp: catalog_update_def Let_def res_simps split: if_splits option.splits)
  have "ce_id e' = i" using inv c(1) e' unfolding catalog_inv_def by simp
  with catalog_inv_entries [OF inv this] c e' s' show ?thesis by (simp add: repo_entry_def repo_bind_def)
qed

interpretation catalog: catalog_store_laws memory_catalog catalog_inv repo_entry repo_bind
proof
  fix s s' :: catalog_repo and i n target now and e e' c :: catalog_entry and b b' a :: alias_binding and al cap st prior t bs
  assume inv: "catalog_inv s"
  show "cs_get memory_catalog s i = Inr (repo_entry s i)"
    by (simp add: memory_catalog_def catalog_get_def repo_entry_def)
  show "repo_entry s i = Some e \<Longrightarrow> ce_id e = i" "repo_bind s i = Some b \<Longrightarrow> ab_id b = i"
    "repo_bind s i = Some b \<Longrightarrow> check_binding b = Inr ()"
    using inv unfolding catalog_inv_def repo_entry_def repo_bind_def by blast+
  show "e' = e \<and> catalog_inv s' \<and> repo_entry s (ce_id e) = None \<and> repo_entry s' = (repo_entry s)(ce_id e := Some e) \<and>
      repo_bind s' = repo_bind s"
    if "cs_insert memory_catalog s e = Inr (e', s')"
    using that catalog_inv_entries [OF inv refl, of e]
    by (auto simp: memory_catalog_def catalog_insert_def repo_entry_def repo_bind_def split: if_splits)
  show "catalog_inv s' \<and> (\<exists>c. repo_entry s i = Some c \<and> ce_revision c = n \<and>
        e' = c\<lparr>ce_state := target, ce_revision := n + 1, ce_updated := now\<rparr>) \<and>
      check_entry e' = Inr () \<and> repo_entry s' = (repo_entry s)(i := Some e') \<and> repo_bind s' = repo_bind s"
    if "cs_update memory_catalog s i n target now = Inr (e', s')"
    using catalog_update_Inr [OF inv] that by (simp add: memory_catalog_def)
  show "\<exists>d. cs_update memory_catalog s i n target now = Inl (CatalogRepoError ''mo.catalog_revision_conflict'' d)"
    if "repo_entry s i = Some c" "ce_revision c \<noteq> n" "target \<in> set CATALOG_STATES"
    using that by (simp add: memory_catalog_def catalog_update_def repo_entry_def)
  show "set bs = {b. \<exists>i. repo_bind s i = Some b \<and> binding_matches al cap st b} \<and> distinct bs"
    if "cs_bindings memory_catalog s al cap st = Inr bs"
    using that catalog_bindings_set [OF inv, of al cap st] catalog_values(2) [OF inv]
    by (auto simp: memory_catalog_def catalog_bindings_def res_simps)
  show "\<exists>bs. cs_bindings memory_catalog s al cap st = Inr bs"
    if "filter_ok CATALOG_CAPABILITIES cap" "filter_ok ALIAS_BINDING_STATES st"
    using that by (simp add: memory_catalog_def catalog_bindings_def validate_alias_filters_def)
  show "b' = b \<and> catalog_inv s' \<and> prior \<in> {''SUPERSEDED'', ''ROLLED_BACK''} \<and>
      (\<exists>t. repo_entry s (ab_catalog b) = Some t \<and> ce_state t = ''ACTIVE'' \<and> ce_capability t = ab_capability b) \<and>
      repo_entry s' = repo_entry s \<and> replaced (repo_bind s) b n prior (repo_bind s')"
    if "check_binding b = Inr ()" "cs_replace memory_catalog s b n prior = Inr (b', s')"
    using catalog_replace_Inr [OF inv] that by (simp add: memory_catalog_def)
  show "\<exists>d. cs_replace memory_catalog s b n prior = Inl (CatalogRepoError ''mo.alias_revision_conflict'' d)"
    if "repo_entry s (ab_catalog b) = Some t" "ce_state t = ''ACTIVE''" "ce_capability t = ab_capability b"
      "ab_state b = ''ACTIVE''" "prior \<in> {''SUPERSEDED'', ''ROLLED_BACK''}" "actives (repo_bind s) b = {a}" "ab_revision a \<noteq> n"
    using catalog_replace_stale [OF inv that] by (simp add: memory_catalog_def)
  show "\<exists>s'. cs_replace memory_catalog s b (ab_revision a) prior = Inr (b, s')"
    if "check_binding b = Inr ()" "repo_entry s (ab_catalog b) = Some t" "ce_state t = ''ACTIVE''"
      "ce_capability t = ab_capability b" "ab_state b = ''ACTIVE''" "prior \<in> {''SUPERSEDED'', ''ROLLED_BACK''}"
      "actives (repo_bind s) b = {a}" "ab_revision b = ab_revision a + 1" "ab_previous b = Some (ab_id a)"
      "repo_bind s (ab_id b) = None"
    using catalog_replace_ok [OF inv that(2-)] by (simp add: memory_catalog_def)
qed

end
