(* ===== verification/Catalog_Service.thy ===== *)
theory Catalog_Service
  imports Catalog_Lifecycle
begin

section \<open>The catalog service over any repository\<close>

text \<open>
  \<^verbatim>\<open>services/nex-mo/nex_mo/catalog_lifecycle_service.py\<close>: registration and transitions of entries,
  activation and rollback of aliases. Each read and the final write are operations of the repository
  of their own, and another caller may come between them: the \<open>n\<close>-th read of a call sees the state
  \<open>seen n\<close> and its write happens in the state \<open>s\<close>. A call that runs alone has \<open>seen = (\<lambda>_. s)\<close>.
  The clock and the id factory are the arguments \<open>now\<close> and \<open>new_id\<close>: the values they return.
\<close>

subsection \<open>Errors\<close>

text \<open>An error of the service, or the error of a constructor, which no one catches.\<close>

datatype catalog_service_exn = CatalogServiceError int string string | CatalogService_Invalid catalog_exn

definition catalog_mappings :: "(string \<times> int \<times> string) list" where
  "catalog_mappings =
     [(''mo.catalog_not_found'', 404, ''MO_CATALOG_NOT_FOUND''),
      (''mo.catalog_revision_conflict'', 409, ''MO_CATALOG_REVISION_CONFLICT''),
      (''mo.catalog_conflict'', 409, ''MO_CATALOG_CONFLICT''),
      (''mo.catalog_filter_invalid'', 422, ''MO_CATALOG_FILTER_INVALID''),
      (''mo.alias_filter_invalid'', 422, ''MO_ALIAS_FILTER_INVALID''),
      (''mo.alias_catalog_not_found'', 404, ''MO_ALIAS_CATALOG_NOT_FOUND''),
      (''mo.alias_catalog_inactive'', 409, ''MO_ALIAS_CATALOG_INACTIVE''),
      (''mo.alias_capability_mismatch'', 422, ''MO_ALIAS_CAPABILITY_MISMATCH''),
      (''mo.alias_revision_conflict'', 409, ''MO_ALIAS_REVISION_CONFLICT''),
      (''mo.alias_lineage_invalid'', 409, ''MO_ALIAS_LINEAGE_INVALID'')]"

text \<open>The error of a constructor is a \<open>ValueError\<close>: the handler of repository errors lets it pass.\<close>

fun map_catalog_error :: "catalog_repo_exn \<Rightarrow> catalog_service_exn" where
  "map_catalog_error (CatalogRepoError code detail) =
     (case map_of catalog_mappings code of
        None \<Rightarrow> CatalogServiceError 503 ''MO_CATALOG_PERSISTENCE_UNAVAILABLE''
          ''Catalog lifecycle persistence is temporarily unavailable.''
      | Some (sc, shown) \<Rightarrow> CatalogServiceError sc shown detail)"
| "map_catalog_error (Catalog_Invalid e) = CatalogService_Invalid e"

definition CATALOG_TRANSITIONS :: "(string \<times> string list) list" where
  "CATALOG_TRANSITIONS = [(''DRAFT'', [''ACTIVE'', ''RETIRED'']), (''ACTIVE'', [''RETIRED'']), (''RETIRED'', [])]"

definition allowed_targets :: "string \<Rightarrow> string list" where
  "allowed_targets st = (case map_of CATALOG_TRANSITIONS st of None \<Rightarrow> [] | Some ts \<Rightarrow> ts)"

subsection \<open>Entries\<close>

record register_command =
  rc_capability :: string
  rc_model :: string
  rc_model_revision :: string
  rc_deployment :: string
  rc_profile :: string
  rc_precision :: string
  rc_provider :: string
  rc_formats :: "string list"
  rc_max_input :: int
  rc_max_output :: int
  rc_dimensions :: "int option"

definition draft_entry :: "string \<Rightarrow> string \<Rightarrow> register_command \<Rightarrow> catalog_entry" where
  "draft_entry new_id now c =
     \<lparr>ce_id = ''catalog:'' @ new_id, ce_capability = rc_capability c, ce_model = rc_model c,
      ce_model_revision = rc_model_revision c, ce_deployment = rc_deployment c, ce_profile = rc_profile c,
      ce_precision = rc_precision c, ce_provider = rc_provider c, ce_formats = rc_formats c,
      ce_max_input = rc_max_input c, ce_max_output = rc_max_output c, ce_state = ''DRAFT'', ce_revision = 1,
      ce_created = now, ce_updated = now, ce_dimensions = rc_dimensions c\<rparr>"

definition register_catalog_entry ::
  "'s catalog_store \<Rightarrow> string \<Rightarrow> string \<Rightarrow> 's \<Rightarrow> register_command \<Rightarrow> catalog_service_exn + catalog_entry \<times> 's" where
  "register_catalog_entry S new_id now s c =
     (let e = draft_entry new_id now c in
      sbind (map_err CatalogService_Invalid (check_entry e)) (\<lambda>_.
        map_err map_catalog_error (cs_insert S s e)))"

definition get_catalog_entry :: "'s catalog_store \<Rightarrow> 's \<Rightarrow> string \<Rightarrow> catalog_service_exn + catalog_entry" where
  "get_catalog_entry S s i =
     sbind (map_err map_catalog_error (cs_get S s i)) (\<lambda>found.
       case found of
         None \<Rightarrow> Inl (CatalogServiceError 404 ''MO_CATALOG_NOT_FOUND'' ''Catalog entry was not found.'')
       | Some e \<Rightarrow> Inr e)"

definition list_catalog_entries ::
  "'s catalog_store \<Rightarrow> 's \<Rightarrow> string option \<Rightarrow> string option \<Rightarrow> catalog_service_exn + catalog_entry list" where
  "list_catalog_entries S s capability st = map_err map_catalog_error (cs_list S s capability st)"

definition list_alias_bindings ::
  "'s catalog_store \<Rightarrow> 's \<Rightarrow> string option \<Rightarrow> string option \<Rightarrow> string option
    \<Rightarrow> catalog_service_exn + alias_binding list" where
  "list_alias_bindings S s al capability st = map_err map_catalog_error (cs_bindings S s al capability st)"

definition has_active_binding :: "'s catalog_store \<Rightarrow> 's \<Rightarrow> string \<Rightarrow> catalog_service_exn + bool" where
  "has_active_binding S s i =
     sbind (list_alias_bindings S s None None (Some ''ACTIVE'')) (\<lambda>bs. Inr (list_ex (\<lambda>b. ab_catalog b = i) bs))"

definition transition_catalog_entry ::
  "'s catalog_store \<Rightarrow> string \<Rightarrow> (nat \<Rightarrow> 's) \<Rightarrow> 's \<Rightarrow> string \<Rightarrow> int \<Rightarrow> string
    \<Rightarrow> catalog_service_exn + catalog_entry \<times> 's" where
  "transition_catalog_entry S now seen s i expected target =
     sbind (get_catalog_entry S (seen 0) i) (\<lambda>current.
     if ce_revision current \<noteq> expected then
       Inl (CatalogServiceError 409 ''MO_CATALOG_REVISION_CONFLICT''
         ''Catalog revision does not match expected revision.'')
     else if target \<notin> set (allowed_targets (ce_state current)) then
       Inl (CatalogServiceError 409 ''MO_CATALOG_TRANSITION_INVALID''
         (''Cannot transition catalog from '' @ ce_state current @ '' to '' @ target @ ''.''))
     else
     sbind (if target = ''RETIRED'' then has_active_binding S (seen 1) i else Inr False) (\<lambda>used.
     if used then
       Inl (CatalogServiceError 409 ''MO_CATALOG_ACTIVE_ALIAS_CONFLICT''
         ''Catalog entry is still referenced by an active alias.'')
     else map_err map_catalog_error (cs_update S s i expected target now)))"

subsection \<open>Aliases\<close>

definition active_binding ::
  "'s catalog_store \<Rightarrow> 's \<Rightarrow> string \<Rightarrow> string \<Rightarrow> catalog_service_exn + alias_binding option" where
  "active_binding S s al capability =
     sbind (list_alias_bindings S s (Some al) (Some capability) (Some ''ACTIVE'')) (\<lambda>bs.
       if length bs > 1 then
         Inl (CatalogServiceError 503 ''MO_ALIAS_INTEGRITY_INVALID'' ''Multiple active alias bindings were found.'')
       else Inr (case bs of [] \<Rightarrow> None | b # _ \<Rightarrow> Some b))"

definition new_binding ::
  "string \<Rightarrow> string \<Rightarrow> string \<Rightarrow> string \<Rightarrow> string \<Rightarrow> int \<Rightarrow> string \<Rightarrow> string \<Rightarrow> alias_binding option
    \<Rightarrow> catalog_service_exn + alias_binding" where
  "new_binding new_id now al capability catalog expected reason changed_by current =
     (let b = \<lparr>ab_id = ''binding:'' @ new_id, ab_alias = al, ab_capability = capability, ab_catalog = catalog,
               ab_revision = expected + 1, ab_state = ''ACTIVE'', ab_reason = reason, ab_changed_by = changed_by,
               ab_created = now, ab_previous = map_option ab_id current\<rparr>
      in sbind (map_err CatalogService_Invalid (check_binding b)) (\<lambda>_. Inr b))"

definition replace_alias ::
  "'s catalog_store \<Rightarrow> 's \<Rightarrow> alias_binding \<Rightarrow> int \<Rightarrow> string \<Rightarrow> catalog_service_exn + alias_binding \<times> 's" where
  "replace_alias S s b expected prior = map_err map_catalog_error (cs_replace S s b expected prior)"

definition activate_alias ::
  "'s catalog_store \<Rightarrow> string \<Rightarrow> string \<Rightarrow> (nat \<Rightarrow> 's) \<Rightarrow> 's \<Rightarrow> string \<Rightarrow> string \<Rightarrow> string \<Rightarrow> int \<Rightarrow> string
    \<Rightarrow> string \<Rightarrow> catalog_service_exn + alias_binding \<times> 's" where
  "activate_alias S new_id now seen s al capability catalog expected reason changed_by =
     sbind (get_catalog_entry S (seen 0) catalog) (\<lambda>target.
     if ce_state target \<noteq> ''ACTIVE'' then
       Inl (CatalogServiceError 409 ''MO_ALIAS_CATALOG_INACTIVE'' ''Alias target catalog entry is not active.'')
     else if ce_capability target \<noteq> capability then
       Inl (CatalogServiceError 422 ''MO_ALIAS_CAPABILITY_MISMATCH'' ''Alias and target catalog capabilities do not match.'')
     else
     sbind (active_binding S (seen 1) al capability) (\<lambda>current.
     if (case current of None \<Rightarrow> 0 | Some c \<Rightarrow> ab_revision c) \<noteq> expected then
       Inl (CatalogServiceError 409 ''MO_ALIAS_REVISION_CONFLICT'' ''Alias revision does not match expected revision.'')
     else if map_option ab_catalog current = Some catalog then
       Inl (CatalogServiceError 409 ''MO_ALIAS_ALREADY_ACTIVE'' ''Alias already targets this catalog entry.'')
     else
     sbind (new_binding new_id now al capability catalog expected reason changed_by current) (\<lambda>b.
       replace_alias S s b expected ''SUPERSEDED'')))"

definition rollback_alias ::
  "'s catalog_store \<Rightarrow> string \<Rightarrow> string \<Rightarrow> (nat \<Rightarrow> 's) \<Rightarrow> 's \<Rightarrow> string \<Rightarrow> string \<Rightarrow> int \<Rightarrow> string
    \<Rightarrow> string \<Rightarrow> catalog_service_exn + alias_binding \<times> 's" where
  "rollback_alias S new_id now seen s al capability expected reason changed_by =
     sbind (active_binding S (seen 0) al capability) (\<lambda>found.
     case found of
       None \<Rightarrow> Inl (CatalogServiceError 404 ''MO_ALIAS_NOT_FOUND'' ''Active alias binding was not found.'')
     | Some current \<Rightarrow>
     if ab_revision current \<noteq> expected then
       Inl (CatalogServiceError 409 ''MO_ALIAS_REVISION_CONFLICT'' ''Alias revision does not match expected revision.'')
     else
     case ab_previous current of
       None \<Rightarrow> Inl (CatalogServiceError 409 ''MO_ALIAS_ROLLBACK_UNAVAILABLE'' ''Alias has no previous binding to restore.'')
     | Some previous \<Rightarrow>
     sbind (list_alias_bindings S (seen 1) (Some al) (Some capability) None) (\<lambda>history.
     case find (\<lambda>b. ab_id b = previous) history of
       None \<Rightarrow> Inl (CatalogServiceError 409 ''MO_ALIAS_LINEAGE_INVALID'' ''Previous alias binding was not found.'')
     | Some prior \<Rightarrow>
     sbind (get_catalog_entry S (seen 2) (ab_catalog prior)) (\<lambda>target.
     if ce_state target \<noteq> ''ACTIVE'' then
       Inl (CatalogServiceError 409 ''MO_ALIAS_ROLLBACK_TARGET_INACTIVE'' ''Previous alias target is not active.'')
     else
     sbind (new_binding new_id now al capability (ab_catalog prior) expected reason changed_by (Some current)) (\<lambda>b.
       replace_alias S s b expected ''ROLLED_BACK''))))"

subsection \<open>Steps and states\<close>

inductive catalog_step :: "'s catalog_store \<Rightarrow> (nat \<Rightarrow> 's) \<Rightarrow> 's \<Rightarrow> 's \<Rightarrow> bool" for S seen s where
  registered: "register_catalog_entry S new_id now s c = Inr (e, s') \<Longrightarrow> catalog_step S seen s s'"
| transitioned: "transition_catalog_entry S now seen s i n target = Inr (e, s') \<Longrightarrow> catalog_step S seen s s'"
| activated: "activate_alias S new_id now seen s al capability catalog n reason who = Inr (b, s') \<Longrightarrow> catalog_step S seen s s'"
| rolled_back: "rollback_alias S new_id now seen s al capability n reason who = Inr (b, s') \<Longrightarrow> catalog_step S seen s s'"

text \<open>
  A run is the list of the states of the store, the present one first. The reads of a call are any
  states of the run so far, so calls interleave; in \<open>catalog_reachable\<close> they run one after the other.
\<close>

inductive catalog_run :: "'s catalog_store \<Rightarrow> 's \<Rightarrow> 's list \<Rightarrow> bool" for S s0 where
  start: "catalog_run S s0 [s0]"
| call: "catalog_run S s0 (s # hs) \<Longrightarrow> range seen \<subseteq> set (s # hs) \<Longrightarrow> catalog_step S seen s s' \<Longrightarrow>
    catalog_run S s0 (s' # s # hs)"

inductive catalog_reachable :: "'s catalog_store \<Rightarrow> 's \<Rightarrow> 's \<Rightarrow> bool" for S s0 where
  start: "catalog_reachable S s0 s0"
| call: "catalog_reachable S s0 s \<Longrightarrow> catalog_step S (\<lambda>_. s) s s' \<Longrightarrow> catalog_reachable S s0 s'"

text \<open>Every binding names an entry of its capability; every active binding names an active entry.\<close>

definition bound :: "(string \<Rightarrow> catalog_entry option) \<Rightarrow> (string \<Rightarrow> alias_binding option) \<Rightarrow> bool" where
  "bound entry bind \<longleftrightarrow>
     (\<forall>i b. bind i = Some b \<longrightarrow> (\<exists>e. entry (ab_catalog b) = Some e \<and> ce_capability e = ab_capability b))"

definition live :: "(string \<Rightarrow> catalog_entry option) \<Rightarrow> (string \<Rightarrow> alias_binding option) \<Rightarrow> bool" where
  "live entry bind \<longleftrightarrow>
     (\<forall>i b. bind i = Some b \<longrightarrow> ab_state b = ''ACTIVE'' \<longrightarrow> (\<exists>e. entry (ab_catalog b) = Some e \<and> ce_state e = ''ACTIVE''))"

text \<open>
  The bindings of one alias are numbered, each from the one before it, and one of them is active:
  the last.
\<close>

definition alias_lineage :: "(string \<Rightarrow> alias_binding option) \<Rightarrow> bool" where
  "alias_lineage bind \<longleftrightarrow> (\<forall>i b. bind i = Some b \<longrightarrow>
     1 \<le> ab_revision b \<and>
     (\<exists>j a. bind j = Some a \<and> same_key a b \<and> ab_state a = ''ACTIVE'') \<and>
     (ab_state b = ''ACTIVE'' \<longrightarrow> (\<forall>j c. bind j = Some c \<longrightarrow> same_key c b \<longrightarrow> ab_revision c \<le> ab_revision b)) \<and>
     (\<forall>j c. bind j = Some c \<longrightarrow> same_key c b \<longrightarrow> ab_revision c = ab_revision b \<longrightarrow> j = i) \<and>
     (case ab_previous b of None \<Rightarrow> ab_revision b = 1
      | Some p \<Rightarrow> \<exists>c. bind p = Some c \<and> same_key c b \<and> ab_revision b = ab_revision c + 1))"

lemma same_key_refl [simp]: "same_key b b"
  by (simp add: same_key_def)

lemma same_key_sym: "same_key b c \<Longrightarrow> same_key c b"
  by (simp add: same_key_def)

lemma same_key_trans [trans]: "same_key a b \<Longrightarrow> same_key b c \<Longrightarrow> same_key a c"
  by (simp add: same_key_def)

lemma same_key_state [simp]:
  "same_key (c\<lparr>ab_state := x\<rparr>) d \<longleftrightarrow> same_key c d" "same_key d (c\<lparr>ab_state := x\<rparr>) \<longleftrightarrow> same_key d c"
  by (simp_all add: same_key_def)

lemma lineageD:
  assumes "alias_lineage bind" "bind i = Some b"
  shows "1 \<le> ab_revision b" "\<exists>j a. bind j = Some a \<and> same_key a b \<and> ab_state a = ''ACTIVE''"
    "\<And>j c. ab_state b = ''ACTIVE'' \<Longrightarrow> bind j = Some c \<Longrightarrow> same_key c b \<Longrightarrow> ab_revision c \<le> ab_revision b"
    "\<And>j c. bind j = Some c \<Longrightarrow> same_key c b \<Longrightarrow> ab_revision c = ab_revision b \<Longrightarrow> j = i"
    "ab_previous b = None \<Longrightarrow> ab_revision b = 1"
    "\<And>p. ab_previous b = Some p \<Longrightarrow> \<exists>c. bind p = Some c \<and> same_key c b \<and> ab_revision b = ab_revision c + 1"
  using assms unfolding alias_lineage_def by (force split: option.splits)+

text \<open>The one active binding is the last.\<close>

lemma lineage_active_unique:
  assumes "alias_lineage bind" "bind i = Some a" "ab_state a = ''ACTIVE''" "bind j = Some b" "ab_state b = ''ACTIVE''" "same_key a b"
  shows "i = j"
  using lineageD(3) [OF assms(1,2)] lineageD(3) [OF assms(1,4)] lineageD(4) [OF assms(1,4)] assms same_key_sym
  by (metis order_antisym)

lemma lineage_history:
  assumes lin: "alias_lineage bind" and a: "bind i = Some a" and k: "1 \<le> k" "k \<le> ab_revision a"
  shows "\<exists>j b. bind j = Some b \<and> same_key b a \<and> ab_revision b = k"
  using k(2,1) a
proof (induction "nat (ab_revision a - k)" arbitrary: i a)
  case 0
  then have "ab_revision a = k" by simp
  with 0 show ?case by (intro exI [of _ i] exI [of _ a]) simp
next
  case (Suc m)
  have "ab_revision a \<noteq> 1" using Suc.hyps(2) Suc.prems by auto
  then have "ab_previous a \<noteq> None" using lineageD(5) [OF lin Suc.prems(3)] by blast
  then obtain p where "ab_previous a = Some p" by (cases "ab_previous a") auto
  from lineageD(6) [OF lin Suc.prems(3) this] obtain c
    where c: "bind p = Some c" "same_key c a" "ab_revision a = ab_revision c + 1" by blast
  have "m = nat (ab_revision c - k)" "k \<le> ab_revision c" using Suc.hyps(2) c(3) by auto
  from Suc.hyps(1) [OF this Suc.prems(2) c(1)] c(2) same_key_trans show ?case by blast
qed

text \<open>What a replacement does, as one update of every binding: those of the alias are no longer active.\<close>

lemma replaced_view:
  assumes lin: "alias_lineage bind" and ids: "\<forall>i b. bind i = Some b \<longrightarrow> ab_id b = i"
    and rep: "replaced bind b n prior bind'" and prior: "prior \<noteq> ''ACTIVE''"
  obtains f where "bind' = (\<lambda>j. if j = ab_id b then Some b else map_option f (bind j))"
    "\<forall>x. \<exists>st. f x = x\<lparr>ab_state := st\<rparr>"
    "\<forall>j x. bind j = Some x \<longrightarrow> same_key x b \<longrightarrow> ab_state (f x) \<noteq> ''ACTIVE'' \<and> ab_revision x \<le> n"
    "\<forall>j x. bind j = Some x \<longrightarrow> \<not> same_key x b \<longrightarrow> f x = x"
    "0 \<le> n" "ab_previous b = None \<and> n = 0 \<or>
      (\<exists>c. bind (ab_id c) = Some c \<and> same_key c b \<and> ab_revision c = n \<and> ab_previous b = Some (ab_id c))"
proof -
  from rep consider (none) "n = 0" "actives bind b = {}" "ab_previous b = None" "bind' = bind(ab_id b := Some b)"
    | (one) c where "actives bind b = {c}" "ab_revision c = n" "ab_previous b = Some (ab_id c)"
        "bind' = bind(ab_id c := Some (c\<lparr>ab_state := prior\<rparr>), ab_id b := Some b)"
    by (auto simp: replaced_def)
  then show ?thesis
  proof cases
    case none
    have "\<not> same_key x b" if x: "bind j = Some x" for j x
      using lineageD(2) [OF lin x] none(2) same_key_trans unfolding actives_def by blast
    moreover have "\<exists>st. x = x\<lparr>ab_state := st\<rparr>" for x :: alias_binding by (rule exI [of _ "ab_state x"]) simp
    ultimately show ?thesis
      using none by (intro that [of "\<lambda>x. x"]) (auto simp: fun_eq_iff option.map_ident)
  next
    case (one c)
    from one(1) obtain i where "bind i = Some c" "same_key c b" "ab_state c = ''ACTIVE''" by (auto simp: actives_def)
    with ids have c: "bind (ab_id c) = Some c" "same_key c b" "ab_state c = ''ACTIVE''" by auto
    let ?f = "\<lambda>x. if x = c then c\<lparr>ab_state := prior\<rparr> else x"
    have only: "x = c" if "bind j = Some x" "same_key x b" "ab_state x = ''ACTIVE''" for j x
      using that one(1) by (auto simp: actives_def set_eq_iff)
    have top: "ab_revision x \<le> n" if "bind j = Some x" "same_key x b" for j x
      using lineageD(3) [OF lin c(1,3) that(1)] that(2) c(2) one(2) same_key_sym same_key_trans by blast
    show ?thesis
    proof (rule that [of ?f])
      show "bind' = (\<lambda>j. if j = ab_id b then Some b else map_option ?f (bind j))"
      proof
        fix j
        have "bind j = Some c \<Longrightarrow> j = ab_id c" using ids by metis
        then show "bind' j = (if j = ab_id b then Some b else map_option ?f (bind j))"
          using one(4) c(1) by (cases "bind j") auto
      qed
      have "\<exists>st. ?f x = x\<lparr>ab_state := st\<rparr>" for x
        by (cases "x = c") (auto intro: exI [of _ prior] exI [of _ "ab_state x"])
      then show "\<forall>x. \<exists>st. ?f x = x\<lparr>ab_state := st\<rparr>" by blast
      show "\<forall>j x. bind j = Some x \<longrightarrow> same_key x b \<longrightarrow> ab_state (?f x) \<noteq> ''ACTIVE'' \<and> ab_revision x \<le> n"
      proof (intro allI impI)
        fix j x assume x: "bind j = Some x" "same_key x b"
        show "ab_state (?f x) \<noteq> ''ACTIVE'' \<and> ab_revision x \<le> n"
          using only [OF x] top [OF x] prior by (cases "x = c") auto
      qed
      show "\<forall>j x. bind j = Some x \<longrightarrow> \<not> same_key x b \<longrightarrow> ?f x = x"
        using c(2) by auto
      show "0 \<le> n" using lineageD(1) [OF lin c(1)] one(2) by simp
    qed (use c one in blast)
  qed
qed

lemma lineage_replaced:
  assumes lin: "alias_lineage bind" and ids: "\<forall>i b. bind i = Some b \<longrightarrow> ab_id b = i"
    and rep: "replaced bind b n prior bind'" and prior: "prior \<noteq> ''ACTIVE''"
  shows "alias_lineage bind'"
proof -
  have b: "ab_state b = ''ACTIVE''" "ab_revision b = n + 1" "bind (ab_id b) = None" using rep by (auto simp: replaced_def)
  obtain f where bind': "bind' = (\<lambda>j. if j = ab_id b then Some b else map_option f (bind j))"
    and f: "\<forall>x. \<exists>st. f x = x\<lparr>ab_state := st\<rparr>"
    and old': "\<forall>j x. bind j = Some x \<longrightarrow> same_key x b \<longrightarrow> ab_state (f x) \<noteq> ''ACTIVE'' \<and> ab_revision x \<le> n"
    and other': "\<forall>j x. bind j = Some x \<longrightarrow> \<not> same_key x b \<longrightarrow> f x = x"
    and n: "0 \<le> n" and prev: "ab_previous b = None \<and> n = 0 \<or>
      (\<exists>c. bind (ab_id c) = Some c \<and> same_key c b \<and> ab_revision c = n \<and> ab_previous b = Some (ab_id c))"
    by (rule replaced_view [OF assms]) (rule that)
  have keep [simp]: "ab_revision (f x) = ab_revision x" "ab_previous (f x) = ab_previous x"
    "same_key (f x) y = same_key x y" "same_key y (f x) = same_key y x" for x y
    using f [rule_format, of x] by auto
  note old = old' [rule_format] and other = other' [rule_format]
  have at_b: "bind' (ab_id b) = Some b" and kept: "\<And>j x. bind j = Some x \<Longrightarrow> bind' j = Some (f x)"
    and came: "\<And>j x. bind' j = Some x \<Longrightarrow> j = ab_id b \<and> x = b \<or> j \<noteq> ab_id b \<and> (\<exists>y. bind j = Some y \<and> x = f y)"
    using b(3) unfolding bind' by (auto split: if_splits)
  have new: "ab_revision x < ab_revision b" if "bind j = Some x" "same_key x b" for j x
    using old [OF that] b(2) by simp
  show ?thesis
    unfolding alias_lineage_def
  proof (intro allI impI)
    fix i x assume "bind' i = Some x"
    then consider (b) "i = ab_id b" "x = b" | (y) y where "i \<noteq> ab_id b" "bind i = Some y" "x = f y" using came by blast
    then show "1 \<le> ab_revision x \<and> (\<exists>j a. bind' j = Some a \<and> same_key a x \<and> ab_state a = ''ACTIVE'') \<and>
      (ab_state x = ''ACTIVE'' \<longrightarrow> (\<forall>j c. bind' j = Some c \<longrightarrow> same_key c x \<longrightarrow> ab_revision c \<le> ab_revision x)) \<and>
      (\<forall>j c. bind' j = Some c \<longrightarrow> same_key c x \<longrightarrow> ab_revision c = ab_revision x \<longrightarrow> j = i) \<and>
      (case ab_previous x of None \<Rightarrow> ab_revision x = 1
       | Some p \<Rightarrow> \<exists>c. bind' p = Some c \<and> same_key c x \<and> ab_revision x = ab_revision c + 1)"
    proof cases
      case b
      have "case ab_previous b of None \<Rightarrow> ab_revision b = 1
        | Some p \<Rightarrow> \<exists>c. bind' p = Some c \<and> same_key c b \<and> ab_revision b = ab_revision c + 1"
        using prev kept \<open>ab_revision b = n + 1\<close> by auto
      moreover have "ab_revision c \<le> ab_revision b \<and> (ab_revision c = ab_revision b \<longrightarrow> j = ab_id b)"
        if "bind' j = Some c" "same_key c b" for j c
        using came [OF that(1)] that(2) new [of j] by fastforce
      moreover have "\<exists>j a. bind' j = Some a \<and> same_key a b \<and> ab_state a = ''ACTIVE''"
        using at_b \<open>ab_state b = ''ACTIVE''\<close> same_key_refl by blast
      moreover have "1 \<le> ab_revision b" using n \<open>ab_revision b = n + 1\<close> by simp
      ultimately show ?thesis unfolding b by blast
    next
      case (y y)
      have act: "\<exists>j a. bind' j = Some a \<and> same_key a y \<and> ab_state a = ''ACTIVE''"
      proof (cases "same_key y b")
        case True
        then show ?thesis using at_b b(1) same_key_sym by blast
      next
        case False
        from lineageD(2) [OF lin y(2)] obtain j a where "bind j = Some a" "same_key a y" "ab_state a = ''ACTIVE''" by blast
        moreover have "\<not> same_key a b" using False \<open>same_key a y\<close> same_key_sym same_key_trans by blast
        ultimately show ?thesis using kept other by metis
      qed
      have top: "ab_revision c \<le> ab_revision y" if "ab_state (f y) = ''ACTIVE''" "bind' j = Some c" "same_key c y" for j c
      proof -
        have nk: "\<not> same_key y b" using old [OF y(2)] that(1) by blast
        then have "\<not> same_key b y" using same_key_sym by blast
        with came [OF that(2)] that(3) obtain z where "bind j = Some z" "c = f z" by blast
        then show ?thesis using lineageD(3) [OF lin y(2)] that(1,3) other [OF y(2) nk] by simp
      qed
      have uni: "j = i" if "bind' j = Some c" "same_key c y" "ab_revision c = ab_revision y" for j c
        using came [OF that(1)]
      proof
        assume "j = ab_id b \<and> c = b"
        then show ?thesis using new [OF y(2)] that(2,3) same_key_sym by fastforce
      next
        assume "j \<noteq> ab_id b \<and> (\<exists>y. bind j = Some y \<and> c = f y)"
        then show ?thesis using lineageD(4) [OF lin y(2)] that(2,3) by auto
      qed
      have "case ab_previous y of None \<Rightarrow> ab_revision y = 1
        | Some p \<Rightarrow> \<exists>c. bind' p = Some c \<and> same_key c y \<and> ab_revision y = ab_revision c + 1"
        using lineageD(5,6) [OF lin y(2)] kept by (auto split: option.splits)
      with act top uni lineageD(1) [OF lin y(2)] show ?thesis unfolding y(3) keep by blast
    qed
  qed
qed

subsection \<open>How an entry evolves\<close>

definition state_rank :: "string \<Rightarrow> int" where
  "state_rank st = (if st = ''DRAFT'' then 0 else if st = ''ACTIVE'' then 1 else 2)"

text \<open>
  From \<open>e\<close> to \<open>c\<close>: the model data stays, the revision counts the transitions and each one moves the
  state forward. So an entry has at most two transitions, and a retired entry none.
\<close>

definition evolves :: "catalog_entry \<Rightarrow> catalog_entry \<Rightarrow> bool" where
  "evolves e c \<longleftrightarrow>
     c = e\<lparr>ce_state := ce_state c, ce_revision := ce_revision c, ce_updated := ce_updated c\<rparr> \<and>
     ce_revision e \<le> ce_revision c \<and> (ce_revision c = ce_revision e \<longrightarrow> c = e) \<and>
     ce_revision c - ce_revision e \<le> state_rank (ce_state c) - state_rank (ce_state e)"

lemma evolves_refl [simp]: "evolves e e"
  by (cases e) (simp add: evolves_def)

lemma allowed_rank: "target \<in> set (allowed_targets st) \<Longrightarrow> state_rank st + 1 \<le> state_rank target"
  by (auto simp: allowed_targets_def CATALOG_TRANSITIONS_def state_rank_def split: if_splits option.splits)

lemma evolves_step:
  assumes "evolves e c" "target \<in> set (allowed_targets (ce_state c))" "ce_revision c = n"
  shows "evolves e (c\<lparr>ce_state := target, ce_revision := n + 1, ce_updated := now\<rparr>)"
  using assms allowed_rank [OF assms(2)] by (cases e; cases c) (auto simp: evolves_def)

lemma evolves_retired:
  assumes "evolves e c" "ce_state e = ''RETIRED''"
  shows "c = e"
proof -
  have "ce_revision c = ce_revision e" using assms by (auto simp: evolves_def state_rank_def split: if_splits)
  with assms(1) show ?thesis by (simp add: evolves_def)
qed

subsection \<open>What the calls do\<close>

lemma check_new_binding_Inr:
  "new_binding new_id now al capability cat n reason who current = Inr b \<Longrightarrow>
    check_binding b = Inr () \<and> b = \<lparr>ab_id = ''binding:'' @ new_id, ab_alias = al, ab_capability = capability, ab_catalog = cat,
         ab_revision = n + 1, ab_state = ''ACTIVE'', ab_reason = reason, ab_changed_by = who,
         ab_created = now, ab_previous = map_option ab_id current\<rparr>"
  by (auto simp: new_binding_def Let_def res_simps)

context catalog_store_laws
begin

lemma get_Inr: "inv s \<Longrightarrow> get_catalog_entry S s i = Inr e \<longleftrightarrow> entry s i = Some e"
  by (auto simp: get_catalog_entry_def get_law split: option.splits)

lemma list_Inr:
  "inv s \<Longrightarrow> list_alias_bindings S s al cap st = Inr bs \<Longrightarrow>
    set bs = {b. \<exists>i. bind s i = Some b \<and> binding_matches al cap st b} \<and> distinct bs"
  by (auto simp: list_alias_bindings_def res_simps dest: bindings_law)

lemma register_Inr:
  assumes "inv s" "register_catalog_entry S new_id now s c = Inr (e, s')"
  shows "e = draft_entry new_id now c \<and> check_entry e = Inr () \<and> inv s' \<and> entry s (ce_id e) = None \<and>
    entry s' = (entry s)(ce_id e := Some e) \<and> bind s' = bind s"
  using assms by (auto simp: register_catalog_entry_def Let_def res_simps dest: insert_law)

lemma entry_transition_Inr:
  assumes inv: "inv s" and seen: "\<And>k. inv (seen k)" and ok: "transition_catalog_entry S now seen s i n target = Inr (e, s')"
  obtains c c0 where "entry s i = Some c" "ce_revision c = n"
    "e = c\<lparr>ce_state := target, ce_revision := n + 1, ce_updated := now\<rparr>"
    "inv s'" "entry s' = (entry s)(i := Some e)" "bind s' = bind s"
    "entry (seen 0) i = Some c0" "ce_revision c0 = n" "target \<in> set (allowed_targets (ce_state c0))"
    "target = ''RETIRED'' \<longrightarrow> (\<forall>j b. bind (seen 1) j = Some b \<longrightarrow> ab_state b = ''ACTIVE'' \<longrightarrow> ab_catalog b \<noteq> i)"
proof -
  from ok obtain c0 where c0: "entry (seen 0) i = Some c0" "ce_revision c0 = n" "target \<in> set (allowed_targets (ce_state c0))"
    and used: "(if target = ''RETIRED'' then has_active_binding S (seen 1) i else Inr False) = Inr False"
    and upd: "cs_update S s i n target now = Inr (e, s')"
    by (auto simp: transition_catalog_entry_def res_simps get_Inr [OF seen] split: if_splits)
  have "ab_catalog b \<noteq> i" if "target = ''RETIRED''" "bind (seen 1) j = Some b" "ab_state b = ''ACTIVE''" for j b
    using used that list_Inr [OF seen] by (auto simp: has_active_binding_def res_simps list_ex_iff binding_matches_def)
  with update_law [OF inv upd] c0 that show ?thesis by blast
qed

lemma replace_Inr:
  assumes "inv s" "check_binding b = Inr ()" "replace_alias S s b n prior = Inr (b', s')"
  shows "b' = b \<and> inv s' \<and> prior \<in> {''SUPERSEDED'', ''ROLLED_BACK''} \<and>
      (\<exists>t. entry s (ab_catalog b) = Some t \<and> ce_state t = ''ACTIVE'' \<and> ce_capability t = ab_capability b) \<and>
      entry s' = entry s \<and> replaced (bind s) b n prior (bind s')"
proof -
  have "cs_replace S s b n prior = Inr (b', s')" using assms(3) by (simp add: replace_alias_def res_simps)
  from replace_law [OF assms(1,2) this] show ?thesis .
qed

lemma active_binding_Inr:
  assumes inv: "inv s" and ok: "active_binding S s al capability = Inr found"
  shows "case found of
      None \<Rightarrow> \<forall>i b. bind s i = Some b \<longrightarrow> ab_alias b = al \<longrightarrow> ab_capability b = capability \<longrightarrow> ab_state b \<noteq> ''ACTIVE''
    | Some c \<Rightarrow> bind s (ab_id c) = Some c \<and> ab_alias c = al \<and> ab_capability c = capability \<and> ab_state c = ''ACTIVE''"
proof -
  from ok obtain bs where bs: "list_alias_bindings S s (Some al) (Some capability) (Some ''ACTIVE'') = Inr bs"
    and found: "found = (case bs of [] \<Rightarrow> None | b # _ \<Rightarrow> Some b)"
    by (auto simp: active_binding_def res_simps split: if_splits)
  from list_Inr [OF inv bs] have set: "set bs = {b. \<exists>i. bind s i = Some b \<and> binding_matches (Some al) (Some capability) (Some ''ACTIVE'') b}"
    by blast
  show ?thesis
  proof (cases bs)
    case Nil
    then show ?thesis using set found by (auto simp: binding_matches_def)
  next
    case (Cons c cs)
    then have "c \<in> {b. \<exists>i. bind s i = Some b \<and> binding_matches (Some al) (Some capability) (Some ''ACTIVE'') b}"
      using set by auto
    then show ?thesis using found Cons bind_id [OF inv] by (auto simp: binding_matches_def)
  qed
qed

lemma activate_Inr:
  assumes inv: "inv s" and seen: "\<And>k. inv (seen k)"
    and ok: "activate_alias S new_id now seen s al capability cat n reason who = Inr (b, s')"
  shows "inv s' \<and> entry s' = entry s \<and> replaced (bind s) b n ''SUPERSEDED'' (bind s') \<and>
    ab_id b = ''binding:'' @ new_id \<and> ab_alias b = al \<and> ab_capability b = capability \<and> ab_catalog b = cat \<and>
    ab_state b = ''ACTIVE'' \<and> ab_revision b = n + 1 \<and>
    (\<exists>t. entry s cat = Some t \<and> ce_state t = ''ACTIVE'' \<and> ce_capability t = capability)"
proof -
  from ok obtain current b0 where b0: "new_binding new_id now al capability cat n reason who current = Inr b0"
    and rep: "replace_alias S s b0 n ''SUPERSEDED'' = Inr (b, s')"
    by (auto simp: activate_alias_def res_simps split: if_splits)
  note nb = check_new_binding_Inr [OF b0]
  from replace_Inr [OF inv conjunct1 [OF nb] rep] nb show ?thesis by auto
qed

lemma rollback_Inr:
  assumes inv: "inv s" and seen: "\<And>k. inv (seen k)"
    and ok: "rollback_alias S new_id now seen s al capability n reason who = Inr (b, s')"
  obtains current prior where "bind (seen 0) (ab_id current) = Some current" "ab_alias current = al"
    "ab_capability current = capability" "ab_state current = ''ACTIVE''" "ab_revision current = n"
    "ab_previous current = Some (ab_id prior)" "bind (seen 1) (ab_id prior) = Some prior"
    "ab_catalog b = ab_catalog prior" "inv s'" "entry s' = entry s" "replaced (bind s) b n ''ROLLED_BACK'' (bind s')"
    "ab_id b = ''binding:'' @ new_id" "ab_alias b = al" "ab_capability b = capability" "ab_state b = ''ACTIVE''"
    "ab_previous b = Some (ab_id current)"
    "\<exists>t. entry s (ab_catalog b) = Some t \<and> ce_state t = ''ACTIVE'' \<and> ce_capability t = capability"
proof -
  from ok obtain current previous history prior b0
    where cur: "active_binding S (seen 0) al capability = Inr (Some current)" "ab_revision current = n"
      "ab_previous current = Some previous"
    and his: "list_alias_bindings S (seen 1) (Some al) (Some capability) None = Inr history"
      "find (\<lambda>b. ab_id b = previous) history = Some prior"
    and b0: "new_binding new_id now al capability (ab_catalog prior) n reason who (Some current) = Inr b0"
    and rep: "replace_alias S s b0 n ''ROLLED_BACK'' = Inr (b, s')"
    by (auto simp: rollback_alias_def res_simps split: if_splits)
  from his(2) have p: "prior \<in> set history" "ab_id prior = previous" by (auto simp: find_Some_iff in_set_conv_nth)
  then have "prior \<in> {b. \<exists>i. bind (seen 1) i = Some b \<and> binding_matches (Some al) (Some capability) None b}"
    using list_Inr [OF seen his(1)] by blast
  then have "bind (seen 1) (ab_id prior) = Some prior" using bind_id [OF seen] by blast
  then show ?thesis
    using that [of current prior] active_binding_Inr [OF seen cur(1)] cur p(2)
      replace_Inr [OF inv conjunct1 [OF check_new_binding_Inr [OF b0]] rep] check_new_binding_Inr [OF b0] by auto
qed

text \<open>Every call that succeeds adds a draft, moves an entry or replaces the active binding of an alias.\<close>

lemma step_effect:
  assumes inv: "inv s" and seen: "\<And>k. inv (seen k)" and step: "catalog_step S seen s s'"
  obtains
    (draft) e where "inv s'" "ce_state e = ''DRAFT''" "ce_revision e = 1" "check_entry e = Inr ()" "entry s (ce_id e) = None"
      "entry s' = (entry s)(ce_id e := Some e)" "bind s' = bind s"
  | (move) i c c0 target now where "inv s'" "entry s i = Some c" "entry (seen 0) i = Some c0" "ce_revision c0 = ce_revision c"
      "target \<in> set (allowed_targets (ce_state c0))" "bind s' = bind s"
      "entry s' = (entry s)(i := Some (c\<lparr>ce_state := target, ce_revision := ce_revision c + 1, ce_updated := now\<rparr>))"
      "target = ''RETIRED'' \<longrightarrow> (\<forall>j b. bind (seen 1) j = Some b \<longrightarrow> ab_state b = ''ACTIVE'' \<longrightarrow> ab_catalog b \<noteq> i)"
  | (swap) b n prior t where "inv s'" "entry s' = entry s" "prior \<in> {''SUPERSEDED'', ''ROLLED_BACK''}"
      "replaced (bind s) b n prior (bind s')" "entry s (ab_catalog b) = Some t" "ce_state t = ''ACTIVE''"
      "ce_capability t = ab_capability b"
  using step
proof cases
  case (registered new_id now c e)
  note r = register_Inr [OF inv registered]
  have "ce_state e = ''DRAFT'' \<and> ce_revision e = 1" using r by (simp add: draft_entry_def)
  with r show ?thesis using draft [of e] by blast
next
  case (transitioned now i n target e)
  obtain c c0 where "entry s i = Some c" "ce_revision c = n" "inv s'" "bind s' = bind s"
    "e = c\<lparr>ce_state := target, ce_revision := n + 1, ce_updated := now\<rparr>" "entry s' = (entry s)(i := Some e)"
    "entry (seen 0) i = Some c0" "ce_revision c0 = n" "target \<in> set (allowed_targets (ce_state c0))"
    "target = ''RETIRED'' \<longrightarrow> (\<forall>j b. bind (seen 1) j = Some b \<longrightarrow> ab_state b = ''ACTIVE'' \<longrightarrow> ab_catalog b \<noteq> i)"
    by (rule entry_transition_Inr [OF inv seen transitioned])
  then show ?thesis by (intro move [of i c c0 target now]) simp_all
next
  case (activated new_id now al capability cat n reason who b)
  from activate_Inr [OF inv seen activated] show ?thesis by (auto intro: swap [of "''SUPERSEDED''" b n])
next
  case (rolled_back new_id now al capability n reason who b)
  show ?thesis by (rule rollback_Inr [OF inv seen rolled_back]) (auto intro: swap [of "''ROLLED_BACK''" b n])
qed

lemma step_lineage:
  assumes "inv s" "\<And>k. inv (seen k)" "catalog_step S seen s s'" "alias_lineage (bind s)"
  shows "inv s' \<and> alias_lineage (bind s')"
  using assms(1-3)
proof (cases rule: step_effect)
  case (swap b n prior t)
  have "alias_lineage (bind s')"
    by (rule lineage_replaced [OF assms(4) _ swap(4)]) (use bind_id [OF assms(1)] swap(3) in auto)
  with swap show ?thesis by simp
qed (use assms(4) in auto)

lemma step_evolves:
  assumes "inv s" "\<And>k. inv (seen k)" "catalog_step S seen s s'"
    and old: "\<forall>k i e. entry (seen k) i = Some e \<longrightarrow> (\<exists>c. entry s i = Some c \<and> evolves e c)"
    and e: "entry s i = Some c"
  shows "\<exists>c'. entry s' i = Some c' \<and> evolves c c' \<and> (\<forall>e. evolves e c \<longrightarrow> evolves e c')"
  using assms(1-3)
proof (cases rule: step_effect)
  case (move j d d0 target now)
  have "d0 = d" using old [rule_format, OF move(3)] move(2,4) by (auto simp: evolves_def)
  with move e evolves_step [of _ d target "ce_revision d" now] show ?thesis by (cases "j = i") auto
next
  case (draft d)
  with e show ?thesis by (cases "ce_id d = i") auto
qed (use e in auto)

lemma step_bound:
  assumes inv: "inv s" and seen: "\<And>k. inv (seen k)" and step: "catalog_step S seen s s'" and bd: "bound (entry s) (bind s)"
  shows "bound (entry s') (bind s')"
  using inv seen step
proof (cases rule: step_effect)
  case (draft e)
  have "entry s' i = Some c" if "entry s i = Some c" for i c using draft(5,6) that by (cases "i = ce_id e") auto
  with bd draft(7) show ?thesis unfolding bound_def by metis
next
  case (move i c c0 target now)
  have "\<exists>d. entry s' j = Some d \<and> ce_capability d = ce_capability e" if "entry s j = Some e" for j e
    using move(2,7) that by (cases "j = i") auto
  with bd move(6) show ?thesis unfolding bound_def by metis
next
  case (swap b n prior t)
  have "\<exists>y. (bind s j = Some y \<or> y = b) \<and> ab_catalog x = ab_catalog y \<and> ab_capability x = ab_capability y"
    if "bind s' j = Some x" for j x
    using swap(4) that bind_id [OF inv] by (auto simp: replaced_def actives_def split: if_splits) blast+
  with bd swap(2,5,7) show ?thesis unfolding bound_def by metis
qed

lemma step_live:
  assumes inv: "inv s" and step: "catalog_step S (\<lambda>_. s) s s'" and lv: "live (entry s) (bind s)"
  shows "live (entry s') (bind s')"
  using inv inv step
proof (cases rule: step_effect)
  case (draft e)
  have "entry s' i = Some c" if "entry s i = Some c" for i c using draft(5,6) that by (cases "i = ce_id e") auto
  with lv draft(7) show ?thesis unfolding live_def by metis
next
  case (move i c c0 target now)
  have c: "ce_state c = ''ACTIVE'' \<Longrightarrow> target = ''RETIRED''"
    using move(2,3,5) by (auto simp: allowed_targets_def CATALOG_TRANSITIONS_def)
  show ?thesis
    unfolding live_def
  proof (intro allI impI)
    fix j b assume b: "bind s' j = Some b" "ab_state b = ''ACTIVE''"
    then obtain e where e: "entry s (ab_catalog b) = Some e" "ce_state e = ''ACTIVE''"
      using lv move(6) unfolding live_def by metis
    have "ab_catalog b \<noteq> i" using c move(2,6,8) b e by auto
    with e move(7) show "\<exists>e. entry s' (ab_catalog b) = Some e \<and> ce_state e = ''ACTIVE''" by simp
  qed
next
  case (swap b n prior t)
  have "x = b \<or> bind s j = Some x" if "bind s' j = Some x" "ab_state x = ''ACTIVE''" for j x
    using swap(3,4) that by (auto simp: replaced_def split: if_splits)
  with lv swap(2,5,6) show ?thesis unfolding live_def by metis
qed

lemma run_inv:
  assumes run: "catalog_run S s0 hs" and s0: "inv s0" "alias_lineage (bind s0)" "bound (entry s0) (bind s0)"
  shows "hs \<noteq> [] \<and> (\<forall>h \<in> set hs. inv h \<and> alias_lineage (bind h) \<and> bound (entry h) (bind h)) \<and>
    (\<forall>h \<in> set hs. \<forall>i e. entry h i = Some e \<longrightarrow> (\<exists>c. entry (hd hs) i = Some c \<and> evolves e c))"
  using run
proof induction
  case start
  then show ?case using s0 by simp
next
  case (call s hs seen s')
  have mem: "seen k \<in> set (s # hs)" for k using call.hyps(2) by blast
  have all: "\<And>h. h \<in> set (s # hs) \<Longrightarrow> inv h \<and> alias_lineage (bind h) \<and> bound (entry h) (bind h)" using call.IH by blast
  have inv: "inv s" "\<And>k. inv (seen k)" and good: "alias_lineage (bind s)" "bound (entry s) (bind s)"
    using all [OF mem] all [of s] by auto
  have old: "\<And>h i e. h \<in> set (s # hs) \<Longrightarrow> entry h i = Some e \<Longrightarrow> \<exists>c. entry s i = Some c \<and> evolves e c"
    using call.IH unfolding list.sel by blast
  have "\<forall>k i e. entry (seen k) i = Some e \<longrightarrow> (\<exists>c. entry s i = Some c \<and> evolves e c)" using old mem by blast
  note step = step_evolves [OF inv call.hyps(3) this]
  have "\<exists>c. entry s' i = Some c \<and> evolves e c" if "h \<in> set (s # hs)" "entry h i = Some e" for h i e
    using old [OF that] step by blast
  moreover have "inv s' \<and> alias_lineage (bind s')" by (rule step_lineage [OF inv call.hyps(3) good(1)])
  moreover have "bound (entry s') (bind s')" by (rule step_bound [OF inv call.hyps(3) good(2)])
  ultimately show ?case using call.IH by auto
qed

lemma reachable_live:
  assumes "catalog_reachable S s0 s" "inv s0" "alias_lineage (bind s0)" "bound (entry s0) (bind s0)" "live (entry s0) (bind s0)"
  shows "inv s \<and> alias_lineage (bind s) \<and> bound (entry s) (bind s) \<and> live (entry s) (bind s)"
  using assms(1)
proof induction
  case (call s s')
  then have s: "inv s" "alias_lineage (bind s)" "bound (entry s) (bind s)" "live (entry s) (bind s)" by auto
  show ?case
    using step_lineage [OF s(1) s(1) call.hyps(2) s(2)] step_bound [OF s(1) s(1) call.hyps(2) s(3)]
      step_live [OF s(1) call.hyps(2) s(4)] by blast
qed (use assms in simp)

text \<open>No call removes a binding or changes its alias or its number.\<close>

lemma step_bindings_stay:
  assumes inv: "inv s" and seen: "\<And>k. inv (seen k)" and step: "catalog_step S seen s s'" and lin: "alias_lineage (bind s)"
    and b: "bind s i = Some b"
  shows "\<exists>c. bind s' i = Some c \<and> same_key c b \<and> ab_revision c = ab_revision b"
  using inv seen step
proof (cases rule: step_effect)
  case (swap d n prior t)
  have new: "bind s (ab_id d) = None" using swap(4) by (auto simp: replaced_def)
  obtain f where "bind s' = (\<lambda>j. if j = ab_id d then Some d else map_option f (bind s j))"
    and f: "\<forall>x. \<exists>st. f x = x\<lparr>ab_state := st\<rparr>"
    by (rule replaced_view [OF lin _ swap(4)]) (use bind_id [OF inv] swap(3) in auto)
  then have "bind s' i = Some (f b)" using b new by auto
  moreover obtain st where "f b = b\<lparr>ab_state := st\<rparr>" using f by blast
  ultimately show ?thesis by simp
qed (use b same_key_refl in auto)

lemma run_bindings_stay:
  assumes run: "catalog_run S s0 (hs @ s # us)" and s0: "inv s0" "alias_lineage (bind s0)" "bound (entry s0) (bind s0)"
    and b: "bind s i = Some b"
  shows "\<exists>c. bind (hd (hs @ s # us)) i = Some c \<and> same_key c b \<and> ab_revision c = ab_revision b"
  using run
proof (induction hs)
  case Nil
  then show ?case using b by simp
next
  case (Cons t hs)
  from Cons.prems obtain seen where run': "catalog_run S s0 (hs @ s # us)"
    and seen: "range seen \<subseteq> set (hs @ s # us)" and step: "catalog_step S seen (hd (hs @ s # us)) t"
    unfolding append_Cons
  proof cases
    case start
    then show ?thesis by simp
  next
    case (call v vs seen)
    then show ?thesis by (intro that) (simp_all only: list.sel)
  qed
  note good = run_inv [OF run' s0]
  have hd: "hd (hs @ s # us) \<in> set (hs @ s # us)" by (cases hs) auto
  have inv: "inv (hd (hs @ s # us))" "\<And>k. inv (seen k)" and lin: "alias_lineage (bind (hd (hs @ s # us)))"
    using good hd seen by blast+
  from Cons.IH [OF run'] obtain c where c: "bind (hd (hs @ s # us)) i = Some c" "same_key c b" "ab_revision c = ab_revision b"
    by blast
  from step_bindings_stay [OF inv step lin c(1)] obtain d where "bind t i = Some d" "same_key d c" "ab_revision d = ab_revision c" by blast
  with c show ?case using same_key_trans by auto
qed

text \<open>A replacement from a revision that the alias has moved on from is refused.\<close>

lemma replaced_stale:
  assumes lin: "alias_lineage (bind s)" and b: "bind s i = Some b" "n < ab_revision b" and c: "same_key b c"
  shows "\<not> replaced (bind s) c n prior g"
proof
  assume rep: "replaced (bind s) c n prior g"
  obtain j a where a: "bind s j = Some a" "same_key a b" "ab_state a = ''ACTIVE''" using lineageD(2) [OF lin b(1)] by blast
  have "ab_revision b \<le> ab_revision a" by (rule lineageD(3) [OF lin a(1,3) b(1) same_key_sym [OF a(2)]])
  moreover have "a \<in> actives (bind s) c" using a same_key_trans [OF a(2) c] unfolding actives_def by blast
  ultimately show False using rep b(2) unfolding replaced_def by auto
qed

lemma stale_change_refused:
  assumes inv: "inv s" "\<And>k. inv (seen k)" and lin: "alias_lineage (bind s)"
    and b: "bind s i = Some b" "ab_alias b = al" "ab_capability b = cap" "n < ab_revision b"
  shows "isl (activate_alias S new_id now seen s al cap cat n reason who)"
    "isl (rollback_alias S new_id now seen s al cap n reason who)"
proof -
  have no: False if "replaced (bind s) c n prior g" "ab_alias c = al" "ab_capability c = cap" for c prior g
    using replaced_stale [OF lin b(1,4), of c] that b(2,3) by (simp add: same_key_def)
  show "isl (activate_alias S new_id now seen s al cap cat n reason who)"
  proof (rule ccontr)
    assume "\<not> isl (activate_alias S new_id now seen s al cap cat n reason who)"
    then obtain c d where "activate_alias S new_id now seen s al cap cat n reason who = Inr (c, d)"
      by (cases "activate_alias S new_id now seen s al cap cat n reason who") auto
    from activate_Inr [OF inv this] no show False by blast
  qed
  show "isl (rollback_alias S new_id now seen s al cap n reason who)"
  proof (rule ccontr)
    assume "\<not> isl (rollback_alias S new_id now seen s al cap n reason who)"
    then obtain c d where "rollback_alias S new_id now seen s al cap n reason who = Inr (c, d)"
      by (cases "rollback_alias S new_id now seen s al cap n reason who") auto
    then show False by (rule rollback_Inr [OF inv]) (rule no)
  qed
qed

text \<open>Of two replacements from the same revision of an alias the second is refused.\<close>

lemma replace_lost:
  assumes inv: "inv s" and lin: "alias_lineage (bind s)" and rep: "replaced (bind s) b n prior (bind s')" and inv': "inv s'"
    and prior: "prior \<in> {''SUPERSEDED'', ''ROLLED_BACK''}" "prior2 \<in> {''SUPERSEDED'', ''ROLLED_BACK''}"
    and b2: "same_key b2 b" "ab_state b2 = ''ACTIVE''"
    and t: "entry s' (ab_catalog b2) = Some t" "ce_state t = ''ACTIVE''" "ce_capability t = ab_capability b2"
  shows "\<exists>d. replace_alias S s' b2 n prior2 = Inl (CatalogServiceError 409 ''MO_ALIAS_REVISION_CONFLICT'' d)"
proof -
  have b: "bind s' (ab_id b) = Some b" "ab_state b = ''ACTIVE''" "ab_revision b = n + 1"
    using rep by (auto simp: replaced_def)
  have lin': "alias_lineage (bind s')"
    by (rule lineage_replaced [OF lin _ rep]) (use bind_id [OF inv] prior in auto)
  have "c = b" if "bind s' i = Some c" "same_key c b2" "ab_state c = ''ACTIVE''" for i c
    using lineage_active_unique [OF lin' that(1,3) b(1,2) same_key_trans [OF that(2) b2(1)]] that(1) b(1) by simp
  then have "actives (bind s') b2 = {b}"
    using b same_key_sym [OF b2(1)] unfolding actives_def by blast
  from replace_stale [OF inv' t b2(2) prior(2) this, of n] b(3) show ?thesis
    by (auto simp: replace_alias_def catalog_mappings_def)
qed

text \<open>
  A roll back that runs alone finds the binding before the active one, and succeeds unless its
  entry has been retired.
\<close>

lemma active_list:
  assumes inv: "inv s" and lin: "alias_lineage (bind s)" and c: "bind s i = Some c" "ab_state c = ''ACTIVE''"
  shows "list_alias_bindings S s (Some (ab_alias c)) (Some (ab_capability c)) (Some ''ACTIVE'') = Inr [c]"
proof -
  have "filter_ok CATALOG_CAPABILITIES (Some (ab_capability c))" "filter_ok ALIAS_BINDING_STATES (Some ''ACTIVE'')"
    using bind_checked [OF inv c(1)] by (auto simp: check_binding_Inr filter_ok_def ALIAS_BINDING_STATES_def)
  from bindings_ok [OF inv this] obtain bs
    where "cs_bindings S s (Some (ab_alias c)) (Some (ab_capability c)) (Some ''ACTIVE'') = Inr bs" by blast
  then have bs: "list_alias_bindings S s (Some (ab_alias c)) (Some (ab_capability c)) (Some ''ACTIVE'') = Inr bs"
    by (simp add: list_alias_bindings_def)
  have "b = c" if "bind s j = Some b" "binding_matches (Some (ab_alias c)) (Some (ab_capability c)) (Some ''ACTIVE'') b" for j b
  proof -
    have "same_key c b" "ab_state b = ''ACTIVE''" using that(2) by (simp_all add: binding_matches_def same_key_def)
    with lineage_active_unique [OF lin c that(1)] have "i = j" by blast
    with c(1) that(1) show ?thesis by simp
  qed
  moreover have "binding_matches (Some (ab_alias c)) (Some (ab_capability c)) (Some ''ACTIVE'') c"
    by (simp add: binding_matches_def c(2))
  ultimately have "set bs = {c}" unfolding conjunct1 [OF list_Inr [OF inv bs]] using c(1) by blast
  then have "bs = [c]" by (rule distinct_set_single [OF conjunct2 [OF list_Inr [OF inv bs]], THEN iffD1])
  then show ?thesis using bs by simp
qed

lemma history_find:
  assumes inv: "inv s" and p: "bind s i = Some p"
  shows "\<exists>bs. list_alias_bindings S s (Some (ab_alias p)) (Some (ab_capability p)) None = Inr bs \<and>
    find (\<lambda>b. ab_id b = i) bs = Some p"
proof -
  have "filter_ok CATALOG_CAPABILITIES (Some (ab_capability p))" "filter_ok ALIAS_BINDING_STATES None"
    using bind_checked [OF inv p] by (auto simp: check_binding_Inr filter_ok_def)
  from bindings_ok [OF inv this] obtain bs
    where "cs_bindings S s (Some (ab_alias p)) (Some (ab_capability p)) None = Inr bs" by blast
  then have bs: "list_alias_bindings S s (Some (ab_alias p)) (Some (ab_capability p)) None = Inr bs"
    by (simp add: list_alias_bindings_def)
  have "p \<in> set bs" using list_Inr [OF inv bs] p by (auto simp: binding_matches_def)
  then obtain q where q: "find (\<lambda>b. ab_id b = i) bs = Some q"
    using bind_id [OF inv p] by (cases "find (\<lambda>b. ab_id b = i) bs") (auto simp: find_None_iff)
  then have "q \<in> set bs" "ab_id q = i" by (auto simp: find_Some_iff in_set_conv_nth)
  then have "q = p" using list_Inr [OF inv bs] p bind_id [OF inv] by auto
  with bs q show ?thesis by blast
qed

lemma rollback_outcome:
  assumes inv: "inv s" and lin: "alias_lineage (bind s)" and bd: "bound (entry s) (bind s)"
    and c: "bind s i = Some c" "ab_state c = ''ACTIVE''" "ab_revision c \<noteq> 1"
    and new: "bind s (''binding:'' @ new_id) = None" "is_catalog_id (''binding:'' @ new_id)" "is_catalog_id who"
      "py_strip reason \<noteq> []" "length (py_strip reason) \<le> 500" "catalog_time now ''created_at'' = Inr t"
  shows "\<exists>p e. ab_previous c = Some (ab_id p) \<and> bind s (ab_id p) = Some p \<and> entry s (ab_catalog p) = Some e \<and>
    (ce_state e = ''ACTIVE'' \<longrightarrow> (\<exists>b s'. ab_catalog b = ab_catalog p \<and>
       rollback_alias S new_id now (\<lambda>_. s) s (ab_alias c) (ab_capability c) (ab_revision c) reason who = Inr (b, s'))) \<and>
    (ce_state e \<noteq> ''ACTIVE'' \<longrightarrow>
       rollback_alias S new_id now (\<lambda>_. s) s (ab_alias c) (ab_capability c) (ab_revision c) reason who =
         Inl (CatalogServiceError 409 ''MO_ALIAS_ROLLBACK_TARGET_INACTIVE'' ''Previous alias target is not active.''))"
proof -
  from lineageD(5) [OF lin c(1)] c(3) obtain pid where pid: "ab_previous c = Some pid" by (cases "ab_previous c") auto
  from lineageD(6) [OF lin c(1) pid] obtain p where p: "bind s pid = Some p" "same_key p c" by blast
  have id: "ab_id p = pid" by (rule bind_id [OF inv p(1)])
  from bd p(1) obtain e where e: "entry s (ab_catalog p) = Some e" "ce_capability e = ab_capability p"
    unfolding bound_def by blast
  have chk: "check_binding c = Inr ()" "check_binding p = Inr ()" using bind_checked [OF inv] c(1) p(1) by auto
  have key: "ab_alias p = ab_alias c" "ab_capability p = ab_capability c" using p(2) by (simp_all add: same_key_def)
  obtain bs where bs: "list_alias_bindings S s (Some (ab_alias c)) (Some (ab_capability c)) None = Inr bs"
    and q: "find (\<lambda>b. ab_id b = pid) bs = Some p"
    using history_find [OF inv p(1)] unfolding key by blast
  have act: "active_binding S s (ab_alias c) (ab_capability c) = Inr (Some c)"
    using active_list [OF inv lin c(1,2)] by (simp add: active_binding_def)
  let ?b = "\<lparr>ab_id = ''binding:'' @ new_id, ab_alias = ab_alias c, ab_capability = ab_capability c,
    ab_catalog = ab_catalog p, ab_revision = ab_revision c + 1, ab_state = ''ACTIVE'', ab_reason = reason,
    ab_changed_by = who, ab_created = now, ab_previous = Some (ab_id c)\<rparr>"
  have cid: "ab_id c = i" by (rule bind_id [OF inv c(1)])
  have ids: "ab_id c \<noteq> ''binding:'' @ new_id" using new(1) c(1) cid by auto
  have cb: "check_binding ?b = Inr ()"
    using chk new ids by (auto simp: check_binding_Inr ALIAS_BINDING_STATES_def)
  then have nb: "new_binding new_id now (ab_alias c) (ab_capability c) (ab_catalog p) (ab_revision c) reason who (Some c) = Inr ?b"
    by (simp add: new_binding_def Let_def)
  have "actives (bind s) ?b = {c}"
    using lineage_active_unique [OF lin c(1,2)] c unfolding actives_def same_key_def by auto
  then have "ce_state e = ''ACTIVE'' \<Longrightarrow> \<exists>s'. cs_replace S s ?b (ab_revision c) ''ROLLED_BACK'' = Inr (?b, s')"
    using replace_ok [OF inv cb, of e "''ROLLED_BACK''" c] e p(2) new(1) by (simp add: same_key_def)
  then have "ce_state e = ''ACTIVE'' \<Longrightarrow> \<exists>s'. rollback_alias S new_id now (\<lambda>_. s) s (ab_alias c) (ab_capability c)
      (ab_revision c) reason who = Inr (?b, s')"
    using act pid bs q nb e(1)
    by (auto simp: rollback_alias_def get_catalog_entry_def get_law [OF inv] replace_alias_def)
  moreover have "ce_state e \<noteq> ''ACTIVE'' \<Longrightarrow> rollback_alias S new_id now (\<lambda>_. s) s (ab_alias c) (ab_capability c)
      (ab_revision c) reason who =
      Inl (CatalogServiceError 409 ''MO_ALIAS_ROLLBACK_TARGET_INACTIVE'' ''Previous alias target is not active.'')"
    using act pid bs q e(1)
    by (simp add: rollback_alias_def get_catalog_entry_def get_law [OF inv])
  ultimately show ?thesis
    using pid id p(1) e(1) by (intro exI [of _ p] exI [of _ e]) fastforce
qed

end

subsection \<open>The consistency check passes on what the service builds\<close>

definition binding_key :: "alias_binding \<Rightarrow> string \<times> string" where
  "binding_key b = (ab_alias b, ab_capability b)"

definition names_entry :: "catalog_entry list \<Rightarrow> alias_binding \<Rightarrow> bool" where
  "names_entry es b \<longleftrightarrow> (\<exists>e. find (\<lambda>e. ce_id e = ab_catalog b) es = Some e \<and> ab_capability b = ce_capability e \<and>
     (ab_state b = ''ACTIVE'' \<longrightarrow> ce_state e = ''ACTIVE''))"

lemma check_bindings_Inr:
  "check_bindings es keys bs = Inr u \<longleftrightarrow> list_all (names_entry es) bs \<and>
    distinct (map binding_key (filter (\<lambda>b. ab_state b = ''ACTIVE'') bs)) \<and>
    binding_key ` set (filter (\<lambda>b. ab_state b = ''ACTIVE'') bs) \<inter> set keys = {}"
proof (induction bs arbitrary: keys)
  case Nil
  then show ?case by simp
next
  case (Cons b bs)
  show ?case
  proof (cases "find (\<lambda>e. ce_id e = ab_catalog b) es")
    case None
    then show ?thesis by (simp add: names_entry_def)
  next
    case (Some e)
    then show ?thesis
      using Cons.IH by (auto simp: names_entry_def binding_key_def)
  qed
qed

lemma find_map_of:
  assumes "distinct (map fst d)" "\<And>i e. map_of d i = Some e \<Longrightarrow> k e = i"
  shows "find (\<lambda>e. k e = i) (map snd d) = map_of d i"
  using assms
proof (induction d)
  case (Cons a d)
  have "k (snd a) = fst a" using Cons.prems(2) [of "fst a" "snd a"] by simp
  moreover have "find (\<lambda>e. k e = i) (map snd d) = map_of d i"
  proof (rule Cons.IH)
    show "k e = j" if "map_of d j = Some e" for j e
      using Cons.prems that by (metis (mono_tags) distinct.simps(2) fun_upd_apply image_eqI list.set_map list.simps(9) map_of.simps(2)
        map_of_SomeD fst_conv)
  qed (use Cons.prems(1) in simp)
  ultimately show ?case by auto
qed simp

lemma catalog_consistent:
  assumes inv: "catalog_inv s" and lin: "alias_lineage (repo_bind s)" and bd: "bound (repo_entry s) (repo_bind s)"
    and lv: "live (repo_entry s) (repo_bind s)"
  shows "validate_active_bindings (map snd (cr_entries s)) (map snd (cr_bindings s)) = Inr ()"
proof -
  have d: "distinct (map fst (cr_entries s))" and ids: "\<And>i e. map_of (cr_entries s) i = Some e \<Longrightarrow> ce_id e = i"
    using inv unfolding catalog_inv_def by blast+
  have find: "find (\<lambda>e. ce_id e = i) (map snd (cr_entries s)) = repo_entry s i" for i
    unfolding repo_entry_def by (rule find_map_of [OF d ids])
  have "map ce_id (map snd (cr_entries s)) = map fst (cr_entries s)"
    unfolding map_map by (rule map_cong [OF refl]) (metis comp_apply d ids map_of_is_SomeI prod.collapse)
  with d have dist: "distinct (map ce_id (map snd (cr_entries s)))" by (simp only:)
  have "names_entry (map snd (cr_entries s)) b" if "repo_bind s i = Some b" for i b
  proof -
    from bd that obtain e where e: "repo_entry s (ab_catalog b) = Some e" "ce_capability e = ab_capability b"
      unfolding bound_def by blast
    moreover from lv that e(1) have "ab_state b = ''ACTIVE'' \<Longrightarrow> ce_state e = ''ACTIVE''"
      unfolding live_def by (metis option.sel)
    ultimately show ?thesis by (simp add: names_entry_def find)
  qed
  then have "list_all (names_entry (map snd (cr_entries s))) (map snd (cr_bindings s))"
    using catalog_values(1) [OF inv] unfolding list_all_iff by blast
  moreover have "distinct (map binding_key (filter (\<lambda>b. ab_state b = ''ACTIVE'') (map snd (cr_bindings s))))"
  proof (rule distinct_map [THEN iffD2, OF conjI [OF distinct_filter [OF catalog_values(2) [OF inv]]]])
    show "inj_on binding_key (set (filter (\<lambda>b. ab_state b = ''ACTIVE'') (map snd (cr_bindings s))))"
    proof (rule inj_onI)
      fix x y assume *: "x \<in> set (filter (\<lambda>b. ab_state b = ''ACTIVE'') (map snd (cr_bindings s)))"
        "y \<in> set (filter (\<lambda>b. ab_state b = ''ACTIVE'') (map snd (cr_bindings s)))" "binding_key x = binding_key y"
      then obtain i j where "repo_bind s i = Some x" "repo_bind s j = Some y" "ab_state x = ''ACTIVE''" "ab_state y = ''ACTIVE''"
        using catalog_values(1) [OF inv] by auto
      moreover from *(3) have "same_key x y" by (simp add: binding_key_def same_key_def)
      ultimately show "x = y" using lineage_active_unique [OF lin] by (metis option.sel)
    qed
  qed
  ultimately show ?thesis
    using dist by (simp add: validate_active_bindings_def check_bindings_Inr)
qed

subsection \<open>The bootstrap\<close>

text \<open>The bindings of a bootstrap: each the first of its alias.\<close>

definition first_bindings :: "alias_binding list \<Rightarrow> bool" where
  "first_bindings bs \<longleftrightarrow> distinct (map ab_id bs) \<and>
     list_all (\<lambda>b. check_binding b = Inr () \<and> ab_revision b = 1 \<and> ab_previous b = None \<and> ab_state b = ''ACTIVE'') bs"

lemma bootstrap_good:
  assumes es: "validate_active_bindings es bs = Inr ()" and bs: "first_bindings bs"
    and ok: "bootstrap_if_empty empty_catalog es bs = (True, s)"
  shows "catalog_inv s \<and> alias_lineage (repo_bind s) \<and> bound (repo_entry s) (repo_bind s) \<and> live (repo_entry s) (repo_bind s)"
proof -
  have d: "distinct (map ce_id es)" "distinct (map ab_id bs)" "list_all (names_entry es) bs"
    "distinct (map binding_key (filter (\<lambda>b. ab_state b = ''ACTIVE'') bs))"
    using es bs by (auto simp: validate_active_bindings_def first_bindings_def check_bindings_Inr split: if_splits)
  have s: "s = \<lparr>cr_entries = map (\<lambda>e. (ce_id e, e)) es, cr_bindings = map (\<lambda>b. (ab_id b, b)) bs\<rparr>"
    using ok d(1,2) by (simp add: bootstrap_if_empty_def empty_catalog_def fold_dict_put)
  have e: "repo_entry s i = Some e \<longleftrightarrow> e \<in> set es \<and> ce_id e = i" and b: "repo_bind s i = Some b \<longleftrightarrow> b \<in> set bs \<and> ab_id b = i"
    for i e b
    using d(1,2) by (simp_all add: s repo_entry_def repo_bind_def map_of_keyed del: map_of_eq_Some_iff)
  have first: "check_binding b = Inr ()" "ab_revision b = 1" "ab_previous b = None" "ab_state b = ''ACTIVE''"
    if "b \<in> set bs" for b
    using bs that by (auto simp: first_bindings_def list_all_iff)
  have "filter (\<lambda>b. ab_state b = ''ACTIVE'') bs = bs" using first by (simp add: filter_id_conv)
  then have uni: "b = c" if "b \<in> set bs" "c \<in> set bs" "same_key b c" for b c
    using d(4) that by (auto simp: binding_key_def same_key_def distinct_map inj_on_def)
  have "catalog_inv s"
    using d(1,2) e b first(1) unfolding catalog_inv_def repo_entry_def [symmetric] repo_bind_def [symmetric]
    by (simp add: s comp_def)
  moreover have "alias_lineage (repo_bind s)"
  proof -
    have "ab_id c = ab_id b" if "b \<in> set bs" "c \<in> set bs" "same_key c b" for b c using uni [OF that(2,1,3)] by simp
    then show ?thesis
      unfolding alias_lineage_def
    proof (intro allI impI conjI)
      fix i x assume "repo_bind s i = Some x"
      then have x: "x \<in> set bs" "ab_id x = i" by (simp_all add: b)
      show "1 \<le> ab_revision x" using first(2) [OF x(1)] by simp
      show "\<exists>j a. repo_bind s j = Some a \<and> same_key a x \<and> ab_state a = ''ACTIVE''"
        using x first(4) [OF x(1)] b same_key_refl by blast
      show "case ab_previous x of None \<Rightarrow> ab_revision x = 1
        | Some p \<Rightarrow> \<exists>c. repo_bind s p = Some c \<and> same_key c x \<and> ab_revision x = ab_revision c + 1"
        using first(2,3) [OF x(1)] by simp
      fix j c assume "repo_bind s j = Some c" "same_key c x"
      then have c: "c \<in> set bs" "ab_id c = j" "same_key c x" by (simp_all add: b)
      show "ab_revision c \<le> ab_revision x" using first(2) [OF x(1)] first(2) [OF c(1)] by simp
      show "j = i" using \<open>\<And>c b. b \<in> set bs \<Longrightarrow> c \<in> set bs \<Longrightarrow> same_key c b \<Longrightarrow> ab_id c = ab_id b\<close> [OF x(1) c(1,3)] x(2) c(2) by simp
    qed
  qed
  moreover have "bound (repo_entry s) (repo_bind s) \<and> live (repo_entry s) (repo_bind s)"
  proof -
    have "\<exists>e \<in> set es. ce_id e = ab_catalog b \<and> ce_capability e = ab_capability b \<and> ce_state e = ''ACTIVE''" if "b \<in> set bs" for b
    proof -
      from d(3) that obtain e where "find (\<lambda>e. ce_id e = ab_catalog b) es = Some e" "ab_capability b = ce_capability e"
        "ce_state e = ''ACTIVE''"
        using first(4) by (auto simp: list_all_iff names_entry_def)
      then show ?thesis by (auto simp: find_Some_iff)
    qed
    then show ?thesis unfolding bound_def live_def e b by blast
  qed
  ultimately show ?thesis by blast
qed

end
