(* ===== verification/Rollout_Activation.thy ===== *)
theory Rollout_Activation
  imports Catalog_Service Rollout_State
begin

section \<open>Promotion and roll back of a rollout's alias\<close>

text \<open>
  \<^verbatim>\<open>services/nex-mo/nex_mo/model_rollout_activation.py\<close>: a rollout whose canary passed gets the alias,
  and an active rollout gives it back to the last-known-good binding. Both call the catalog service;
  a failure after the service has switched the alias leaves it switched, so a result is the outcome
  and the store after it. The reads of a call are the states \<open>seen\<close>, as in the service.
\<close>

datatype rollout_alias_exn = Alias_Rollout rollout_exn | Alias_Catalog catalog_service_exn

record alias_result =
  ar_operation :: string
  ar_record :: rollout
  ar_binding :: alias_binding
  ar_reservation :: reservation
  ar_digest :: string

definition alias_result_wire :: "(pyval \<Rightarrow> string) \<Rightarrow> alias_result \<Rightarrow> pydict" where
  "alias_result_wire digest a =
     [(''schema_version'', PStr ''mo_rollout_alias_result.v1''), (''operation'', PStr (ar_operation a)),
      (''rollout_id'', PStr (ro_id (ar_record a))), (''state'', PStr (rollout_state_text (ro_state (ar_record a)))),
      (''state_revision'', PInt (ro_revision (ar_record a))),
      (''identity_fingerprint'', PStr (fingerprint digest (ro_identity (ar_record a)))),
      (''binding_id'', PStr (ab_id (ar_binding a))), (''binding_revision'', PInt (ab_revision (ar_binding a))),
      (''reservation_id'', PStr (rv_id (ar_reservation a))), (''reservation_state'', PStr (rv_state (ar_reservation a))),
      (''decision_digest'', PStr (ar_digest a))]"

subsection \<open>The checks\<close>

definition validate_reservation :: "(pyval \<Rightarrow> string) \<Rightarrow> rollout \<Rightarrow> reservation \<Rightarrow> rollout_exn + unit" where
  "validate_reservation digest r v =
     (if Some (rv_id v) \<noteq> ro_reservation r \<or> rv_rollout v \<noteq> ro_id r \<or>
         rv_fingerprint v \<noteq> fingerprint digest (ro_identity r) \<or> rv_state v \<noteq> ''RESERVED'' then
        Inl (RolloutError ''mo.rollout_reservation_drift'' ''the candidate capacity reservation is missing or mismatched'')
      else Inr ())"

text \<open>\<open>decision.get(k) != v\<close> compares with \<open>None\<close> when the key is missing, and so when \<open>v\<close> is \<open>None\<close>.\<close>

definition validate_promotion :: "(pyval \<Rightarrow> string) \<Rightarrow> rollout \<Rightarrow> pydict \<Rightarrow> reservation \<Rightarrow> rollout_exn + unit" where
  "validate_promotion digest r d v =
     (if ro_state r \<noteq> CANARY \<or> ro_canary r \<noteq> Some ''PASSED'' then
        Inl (RolloutError ''mo.rollout_promotion_not_admitted'' ''a passing canary is required before alias activation'')
      else if dget d ''status'' \<noteq> PStr ''PASS'' \<or> dget d ''promotable'' \<noteq> PBool True \<or>
           dget d ''identity_fingerprint'' \<noteq> PStr (fingerprint digest (ro_identity r)) \<or>
           dget d ''policy_hash'' \<noteq> opt_wire (ro_policy_hash r) \<or> \<not> is_sha256 (text_or_empty d ''metrics_digest'') then
        Inl (RolloutError ''mo.rollout_canary_decision_invalid'' ''matching promotable canary evidence is required'')
      else validate_reservation digest r v)"

definition rollout_active_binding ::
  "'s catalog_store \<Rightarrow> 's \<Rightarrow> identity \<Rightarrow> rollout_alias_exn + alias_binding" where
  "rollout_active_binding S s i =
     sbind (map_err Alias_Catalog (list_alias_bindings S s (Some (id_alias i)) (Some (id_capability i)) (Some ''ACTIVE'')))
       (\<lambda>bs. case bs of
          [b] \<Rightarrow> Inr b
        | _ \<Rightarrow> Inl (Alias_Rollout (RolloutError ''mo.rollout_active_binding_invalid''
                 ''exactly one active alias binding is required'')))"

definition validate_last_known_good ::
  "(pyval \<Rightarrow> string) \<Rightarrow> rollout \<Rightarrow> alias_binding \<Rightarrow> identity \<Rightarrow> rollout_exn + unit" where
  "validate_last_known_good digest r b i =
     (if ab_id b \<noteq> ro_lkg_binding r \<or> ab_catalog b \<noteq> id_catalog i \<or> ab_alias b \<noteq> id_alias i \<or>
         ab_capability b \<noteq> id_capability i \<or> fingerprint digest i \<noteq> ro_lkg_fingerprint r then
        Inl (RolloutError ''mo.rollout_last_known_good_drift'' ''last-known-good alias lineage or identity has drifted'')
      else Inr ())"

definition validate_last_known_good_readiness ::
  "(pyval \<Rightarrow> string) \<Rightarrow> rollout \<Rightarrow> identity \<Rightarrow> pydict \<Rightarrow> rollout_exn + unit" where
  "validate_last_known_good_readiness digest r i d =
     (if fingerprint digest i \<noteq> ro_lkg_fingerprint r \<or> dget d ''status'' \<noteq> PStr ''READY'' \<or>
         dget d ''identity_fingerprint'' \<noteq> PStr (fingerprint digest i) \<or>
         \<not> is_sha256 (text_or_empty d ''evidence_digest'') then
        Inl (RolloutError ''mo.rollout_last_known_good_not_ready'' ''exact last-known-good readiness evidence is required'')
      else Inr ())"

text \<open>\<open>str.casefold\<close> on Latin-1, as far as a comparison with an ASCII text can tell.\<close>

definition casefold_char :: "char \<Rightarrow> string" where
  "casefold_char c =
     (let n = (of_char c :: nat) in
      if 65 \<le> n \<and> n \<le> 90 \<or> 192 \<le> n \<and> n \<le> 222 \<and> n \<noteq> 215 then [char_of (n + 32)]
      else if n = 223 then ''ss'' else [c])"

definition casefold :: "string \<Rightarrow> string" where
  "casefold s = concat (map casefold_char s)"

definition validate_catalog_identity :: "identity \<Rightarrow> catalog_entry \<Rightarrow> rollout_exn + unit" where
  "validate_catalog_identity i e =
     (if ce_id e \<noteq> id_catalog i \<or> ce_capability e \<noteq> id_capability i \<or> ce_model_revision e \<noteq> id_revision i \<or>
         ce_deployment e \<noteq> id_deployment i \<or> casefold (ce_precision e) \<noteq> casefold (id_precision i) then
        Inl (RolloutError ''mo.rollout_catalog_identity_drift'' ''candidate catalog metadata does not match rollout identity'')
      else Inr ())"

subsection \<open>The two operations\<close>

text \<open>The part after the catalog service has switched the alias, on the store \<open>s\<close> it left.\<close>

definition after_switch ::
  "'s \<Rightarrow> rollout_exn + alias_result \<Rightarrow> (rollout_alias_exn + alias_result) \<times> 's" where
  "after_switch s m = (map_err Alias_Rollout m, s)"

definition activate_rollout_alias ::
  "'s catalog_store \<Rightarrow> (pyval \<Rightarrow> string) \<Rightarrow> string \<Rightarrow> string \<Rightarrow> (nat \<Rightarrow> 's) \<Rightarrow> 's \<Rightarrow> rollout \<Rightarrow> pydict \<Rightarrow> reservation
    \<Rightarrow> identity \<Rightarrow> string \<Rightarrow> string \<Rightarrow> (rollout_alias_exn + alias_result) \<times> 's" where
  "activate_rollout_alias S digest new_id now seen s r decision v lkg changed_by changed =
     (case
        sbind (map_err Alias_Rollout (validate_promotion digest r decision v)) (\<lambda>_.
        sbind (rollout_active_binding S (seen 0) (ro_identity r)) (\<lambda>good.
        sbind (map_err Alias_Rollout (validate_last_known_good digest r good lkg)) (\<lambda>_.
        sbind (map_err Alias_Catalog (get_catalog_entry S (seen 1) (id_catalog (ro_identity r)))) (\<lambda>candidate.
        sbind (map_err Alias_Rollout (validate_catalog_identity (ro_identity r) candidate)) (\<lambda>_.
        map_err Alias_Catalog (activate_alias S new_id now (\<lambda>k. seen (k + 2)) s (id_alias (ro_identity r))
          (id_capability (ro_identity r)) (id_catalog (ro_identity r)) (ab_revision good)
          ''Model rollout canary passed'' changed_by))))))
      of
        Inl e \<Rightarrow> (Inl e, s)
      | Inr (b, s') \<Rightarrow>
          after_switch s' (sbind (mark_rollout_active r (ab_id b) changed) (\<lambda>updated.
            Inr \<lparr>ar_operation = ''ACTIVATED'', ar_record = updated, ar_binding = b, ar_reservation = v,
                 ar_digest = digest (PDict decision)\<rparr>)))"

definition rollback_rollout_alias ::
  "'s catalog_store \<Rightarrow> (pyval \<Rightarrow> string) \<Rightarrow> string \<Rightarrow> string \<Rightarrow> (nat \<Rightarrow> 's) \<Rightarrow> 's \<Rightarrow> rollout \<Rightarrow> reservation \<Rightarrow> identity
    \<Rightarrow> pydict \<Rightarrow> string \<Rightarrow> string \<Rightarrow> string \<Rightarrow> (rollout_alias_exn + alias_result) \<times> 's" where
  "rollback_rollout_alias S digest new_id now seen s r v lkg readiness failure changed_by changed =
     (case
        sbind (if ro_state r \<noteq> ACTIVE \<or> ro_binding r = None then
            Inl (Alias_Rollout (RolloutError ''mo.rollout_rollback_not_available''
              ''an active rollout binding is required before rollback'')) else Inr ()) (\<lambda>_.
        sbind (map_err Alias_Rollout (validate_reservation digest r v)) (\<lambda>_.
        sbind (rollout_active_binding S (seen 0) (ro_identity r)) (\<lambda>current.
        sbind (if Some (ab_id current) \<noteq> ro_binding r \<or> ab_catalog current \<noteq> id_catalog (ro_identity r) then
            Inl (Alias_Rollout (RolloutError ''mo.rollout_active_binding_drift''
              ''active alias no longer matches the rollout binding'')) else Inr ()) (\<lambda>_.
        sbind (map_err Alias_Rollout (validate_last_known_good_readiness digest r lkg readiness)) (\<lambda>_.
        sbind (map_err Alias_Catalog (list_alias_bindings S (seen 1) (Some (id_alias (ro_identity r)))
          (Some (id_capability (ro_identity r))) None)) (\<lambda>history.
        sbind (case find (\<lambda>b. ab_id b = ro_lkg_binding r) history of
            None \<Rightarrow> Inl (Alias_Rollout (RolloutError ''mo.rollout_last_known_good_missing''
              ''last-known-good alias binding was not found'')) | Some b \<Rightarrow> Inr b) (\<lambda>good.
        sbind (map_err Alias_Rollout (validate_last_known_good digest r good lkg)) (\<lambda>_.
        sbind (map_err Alias_Catalog (rollback_alias S new_id now (\<lambda>k. seen (k + 2)) s (id_alias (ro_identity r))
          (id_capability (ro_identity r)) (ab_revision current) ''Model rollout rollback'' changed_by)) (\<lambda>(b, s').
        Inr (good, b, s'))))))))))
      of
        Inl e \<Rightarrow> (Inl e, s)
      | Inr (good, b, s') \<Rightarrow>
          after_switch s' (
            if ab_catalog b \<noteq> ab_catalog good then
              Inl (RolloutError ''mo.rollout_rollback_target_drift''
                ''rollback did not restore the exact last-known-good catalog'')
            else sbind (release v) (\<lambda>released.
              sbind (mark_rollout_rolled_back r failure changed) (\<lambda>updated.
              Inr \<lparr>ar_operation = ''ROLLED_BACK'', ar_record = updated, ar_binding = b, ar_reservation = released,
                   ar_digest = digest (PDict readiness)\<rparr>))))"

subsection \<open>What the checks ask\<close>

definition promotion_ok :: "(pyval \<Rightarrow> string) \<Rightarrow> rollout \<Rightarrow> pydict \<Rightarrow> bool" where
  "promotion_ok digest r d \<longleftrightarrow>
     ro_state r = CANARY \<and> ro_canary r = Some ''PASSED'' \<and> dget d ''status'' = PStr ''PASS'' \<and>
     dget d ''promotable'' = PBool True \<and> dget d ''identity_fingerprint'' = PStr (fingerprint digest (ro_identity r)) \<and>
     dget d ''policy_hash'' = opt_wire (ro_policy_hash r) \<and> is_sha256 (text_or_empty d ''metrics_digest'')"

definition holds_reservation :: "(pyval \<Rightarrow> string) \<Rightarrow> rollout \<Rightarrow> reservation \<Rightarrow> bool" where
  "holds_reservation digest r v \<longleftrightarrow>
     ro_reservation r = Some (rv_id v) \<and> rv_rollout v = ro_id r \<and>
     rv_fingerprint v = fingerprint digest (ro_identity r) \<and> rv_state v = ''RESERVED''"

definition known_good :: "(pyval \<Rightarrow> string) \<Rightarrow> rollout \<Rightarrow> alias_binding \<Rightarrow> identity \<Rightarrow> bool" where
  "known_good digest r b i \<longleftrightarrow>
     ab_id b = ro_lkg_binding r \<and> ab_catalog b = id_catalog i \<and> ab_alias b = id_alias i \<and>
     ab_capability b = id_capability i \<and> fingerprint digest i = ro_lkg_fingerprint r"

lemma validate_reservation_iff [simp]: "validate_reservation digest r v = Inr u \<longleftrightarrow> holds_reservation digest r v"
  by (auto simp: validate_reservation_def holds_reservation_def)

lemma validate_reservation_ok [simp]: "holds_reservation digest r v \<Longrightarrow> validate_reservation digest r v = Inr ()"
  by simp

lemma validate_promotion_iff [simp]:
  "validate_promotion digest r d v = Inr u \<longleftrightarrow> promotion_ok digest r d \<and> holds_reservation digest r v"
  by (auto simp: validate_promotion_def promotion_ok_def)

lemma validate_last_known_good_iff [simp]: "validate_last_known_good digest r b i = Inr u \<longleftrightarrow> known_good digest r b i"
  by (auto simp: validate_last_known_good_def known_good_def)

lemma validate_last_known_good_ok [simp]: "known_good digest r b i \<Longrightarrow> validate_last_known_good digest r b i = Inr ()"
  by simp

definition lkg_ready :: "(pyval \<Rightarrow> string) \<Rightarrow> rollout \<Rightarrow> identity \<Rightarrow> pydict \<Rightarrow> bool" where
  "lkg_ready digest r i d \<longleftrightarrow>
     fingerprint digest i = ro_lkg_fingerprint r \<and> dget d ''status'' = PStr ''READY'' \<and>
     dget d ''identity_fingerprint'' = PStr (fingerprint digest i) \<and> is_sha256 (text_or_empty d ''evidence_digest'')"

lemma validate_lkg_readiness_iff [simp]:
  "validate_last_known_good_readiness digest r i d = Inr u \<longleftrightarrow> lkg_ready digest r i d"
  by (auto simp: validate_last_known_good_readiness_def lkg_ready_def)

lemma validate_lkg_readiness_ok [simp]:
  "lkg_ready digest r i d \<Longrightarrow> validate_last_known_good_readiness digest r i d = Inr ()"
  by simp

text \<open>A stable identifier of the catalog is one of the rollout.\<close>

lemma catalog_id_identifier: "is_catalog_id s \<Longrightarrow> is_identifier s"
  by (auto simp: is_catalog_id_def is_identifier_def lower_start_def ident_start_def ident_char_def Let_def list_all_iff)

lemma mark_active_Inr:
  "mark_rollout_active r binding changed = Inr r' \<Longrightarrow>
    r' = r\<lparr>ro_state := ACTIVE, ro_revision := ro_revision r + 1, ro_binding := Some binding, ro_updated := changed\<rparr> \<and>
    check_rollout r' = Inr ()"
  by (auto simp: mark_rollout_active_def res_simps)

text \<open>A valid rollout that moves at a valid time stays valid.\<close>

lemma check_rollout_later:
  assumes "check_rollout r = Inr ()" "validate_changed_at r changed = Inr ()"
  shows "check_rollout (r\<lparr>ro_state := st, ro_revision := ro_revision r + 1, ro_updated := changed\<rparr>) = Inr ()"
proof -
  from assms(1) obtain c u where c: "rollout_time (ro_created r) ''created_at'' = Inr c"
    and u: "rollout_time (ro_updated r) ''updated_at'' = Inr u" "c \<le> u"
    by (auto simp: check_rollout_def res_simps not_less)
  from assms(2) u(1) obtain n where n: "rollout_time changed ''changed_at'' = Inr n" "u \<le> n"
    by (auto simp: validate_changed_at_def res_simps not_less)
  have "rollout_time changed ''updated_at'' = Inr n" by (rule rollout_time_field [OF n(1)])
  with assms(1) c u n show ?thesis by (auto simp: check_rollout_def res_simps not_less)
qed

lemma mark_active_ok:
  assumes "check_rollout r = Inr ()" "validate_changed_at r changed = Inr ()" "ro_state r = CANARY" "ro_canary r = Some ''PASSED''"
    "is_identifier binding"
  shows "\<exists>r'. mark_rollout_active r binding changed = Inr r'"
proof -
  have "check_rollout (r\<lparr>ro_state := ACTIVE, ro_revision := ro_revision r + 1, ro_binding := Some binding, ro_updated := changed\<rparr>) = Inr ()"
    using check_rollout_later [OF assms(1,2), of ACTIVE] assms(5) by (auto simp: check_rollout_def res_simps opt_each_def)
  with assms show ?thesis by (simp add: mark_rollout_active_def make_rollout_def check_identifier_def)
qed

lemma mark_rolled_back_ok:
  assumes "check_rollout r = Inr ()" "validate_changed_at r changed = Inr ()" "ro_state r = ACTIVE" "ro_binding r \<noteq> None"
    "is_identifier failure"
  shows "\<exists>r'. mark_rollout_rolled_back r failure changed = Inr r' \<and> ro_state r' = ROLLED_BACK"
proof -
  have "check_rollout (r\<lparr>ro_state := ROLLED_BACK, ro_revision := ro_revision r + 1, ro_failure := Some failure, ro_updated := changed\<rparr>) = Inr ()"
    using check_rollout_later [OF assms(1,2), of ROLLED_BACK] by (auto simp: check_rollout_def res_simps)
  with assms show ?thesis by (simp add: mark_rollout_rolled_back_def make_rollout_def check_identifier_def)
qed

subsection \<open>What the operations do\<close>

context catalog_store_laws
begin

lemma rollout_active_Inr:
  assumes inv: "inv s" and ok: "rollout_active_binding S s i = Inr b"
  shows "bind s (ab_id b) = Some b \<and> ab_alias b = id_alias i \<and> ab_capability b = id_capability i \<and> ab_state b = ''ACTIVE''"
proof -
  from ok obtain bs where bs: "list_alias_bindings S s (Some (id_alias i)) (Some (id_capability i)) (Some ''ACTIVE'') = Inr bs"
    and b: "(case bs of [b] \<Rightarrow> Inr b | _ \<Rightarrow> Inl (Alias_Rollout (RolloutError ''mo.rollout_active_binding_invalid''
      ''exactly one active alias binding is required''))) = Inr b"
    unfolding rollout_active_binding_def sbind_eq_Inr map_err_eq_Inr by blast
  from b have "bs = [b]" by (cases bs rule: remdups_adj.cases) auto
  with bs have "list_alias_bindings S s (Some (id_alias i)) (Some (id_capability i)) (Some ''ACTIVE'') = Inr [b]" by simp
  from list_Inr [OF inv this] have "\<exists>j. bind s j = Some b \<and> binding_matches (Some (id_alias i)) (Some (id_capability i)) (Some ''ACTIVE'') b"
    by auto
  then show ?thesis using bind_id [OF inv] by (auto simp: binding_matches_def)
qed

lemma rollout_active_found:
  assumes "inv s" "alias_lineage (bind s)" "bind s j = Some b" "ab_state b = ''ACTIVE''" "ab_alias b = id_alias i" "ab_capability b = id_capability i"
  shows "rollout_active_binding S s i = Inr b"
  using active_list [OF assms(1-4)] assms(5,6) by (simp add: rollout_active_binding_def)

text \<open>An activation that succeeds, or fails after the switch.\<close>

lemma activate_outcome:
  assumes "activate_rollout_alias S digest new_id now seen s r d v lkg who changed = (res, s')"
  obtains (refused) e where "res = Inl e" "s' = s"
  | (switched) good b where "promotion_ok digest r d" "holds_reservation digest r v"
      "rollout_active_binding S (seen 0) (ro_identity r) = Inr good" "known_good digest r good lkg"
      "activate_alias S new_id now (\<lambda>k. seen (k + 2)) s (id_alias (ro_identity r)) (id_capability (ro_identity r))
        (id_catalog (ro_identity r)) (ab_revision good) ''Model rollout canary passed'' who = Inr (b, s')"
      "res = map_err Alias_Rollout (sbind (mark_rollout_active r (ab_id b) changed) (\<lambda>updated.
        Inr \<lparr>ar_operation = ''ACTIVATED'', ar_record = updated, ar_binding = b, ar_reservation = v,
             ar_digest = digest (PDict d)\<rparr>))"
  using assms unfolding activate_rollout_alias_def after_switch_def
  by (auto simp: res_simps split: sum.splits prod.splits)

text \<open>Only a late check of the record can fail after the switch, so a valid time rules that out.\<close>

lemma activate_error_unchanged:
  assumes inv: "inv s" "\<And>k. inv (seen k)"
    and res: "activate_rollout_alias S digest new_id now seen s r d v lkg who changed = (Inl e, s')"
    and r: "check_rollout r = Inr ()" "validate_changed_at r changed = Inr ()"
  shows "s' = s"
  using res
proof (cases rule: activate_outcome)
  case (switched good b)
  note act = activate_Inr [OF inv(1) inv(2) switched(5)]
  have "is_catalog_id (ab_id b)"
    using act bind_checked [of s' "ab_id b" b] by (auto simp: replaced_def check_binding_Inr)
  then obtain r' where "mark_rollout_active r (ab_id b) changed = Inr r'"
    using mark_active_ok [OF r] switched(1) catalog_id_identifier by (auto simp: promotion_ok_def)
  with switched(6) show ?thesis by simp
qed simp

text \<open>An activation that succeeds: the alias is the candidate's, the last-known-good binding is superseded.\<close>

lemma activate_rollout_Inr:
  assumes inv: "inv s" "\<And>k. inv (seen k)" and lin: "\<And>k. alias_lineage (bind (seen k))"
    and ok: "activate_rollout_alias S digest new_id now seen s r d v lkg who changed = (Inr a, s')"
  shows "promotion_ok digest r d \<and> holds_reservation digest r v \<and> mark_rollout_active r (ab_id (ar_binding a)) changed = Inr (ar_record a) \<and>
    catalog_step S (\<lambda>k. seen (k + 2)) s s' \<and>
    inv s' \<and> entry s' = entry s \<and> ab_state (ar_binding a) = ''ACTIVE'' \<and> bind s' (ab_id (ar_binding a)) = Some (ar_binding a) \<and>
    ab_alias (ar_binding a) = id_alias (ro_identity r) \<and> ab_capability (ar_binding a) = id_capability (ro_identity r) \<and>
    ab_catalog (ar_binding a) = id_catalog (ro_identity r) \<and>
    (\<exists>good. known_good digest r good lkg \<and> bind (seen 0) (ab_id good) = Some good \<and> ab_state good = ''ACTIVE'' \<and>
      same_key good (ar_binding a) \<and> ab_revision (ar_binding a) = ab_revision good + 1 \<and>
      replaced (bind s) (ar_binding a) (ab_revision good) ''SUPERSEDED'' (bind s'))"
  using ok
proof (cases rule: activate_outcome)
  case (switched good b)
  from switched(6) have a: "mark_rollout_active r (ab_id b) changed = Inr (ar_record a)" "ar_binding a = b"
    by (cases "mark_rollout_active r (ab_id b) changed"; simp)+
  note act = activate_Inr [OF inv(1) inv(2) switched(5)]
  have "bind s' (ab_id b) = Some b" using act by (auto simp: replaced_def)
  moreover have "catalog_step S (\<lambda>k. seen (k + 2)) s s'" by (rule catalog_step.activated [OF switched(5)])
  ultimately show ?thesis using act switched(1,2,4) a rollout_active_Inr [OF inv(2) switched(3)]
    by (intro conjI exI [of _ good]) (simp_all add: same_key_def)
qed simp

lemma rollback_rollout_Inr:
  assumes inv: "inv s" "\<And>k. inv (seen k)"
    and ok: "rollback_rollout_alias S digest new_id now seen s r v lkg readiness failure who changed = (Inr a, s')"
  shows "inv s' \<and> ab_catalog (ar_binding a) = id_catalog lkg \<and> bind s' (ab_id (ar_binding a)) = Some (ar_binding a) \<and>
    ab_state (ar_binding a) = ''ACTIVE'' \<and> ab_alias (ar_binding a) = id_alias lkg \<and> ab_capability (ar_binding a) = id_capability lkg \<and>
    fingerprint digest lkg = ro_lkg_fingerprint r \<and> ro_state (ar_record a) = ROLLED_BACK \<and>
    ro_failure (ar_record a) = Some failure \<and> rv_state (ar_reservation a) = ''RELEASED''"
proof -
  have "\<exists>n good b bs. known_good digest r good lkg \<and>
      rollback_alias S new_id now (\<lambda>k. seen (k + 2)) s (id_alias (ro_identity r)) (id_capability (ro_identity r))
        n ''Model rollout rollback'' who = Inr (b, s') \<and>
      list_alias_bindings S (seen 1) (Some (id_alias (ro_identity r))) (Some (id_capability (ro_identity r))) None = Inr bs \<and>
      find (\<lambda>b. ab_id b = ro_lkg_binding r) bs = Some good \<and> ab_catalog b = ab_catalog good \<and>
      release v = Inr (ar_reservation a) \<and> ar_binding a = b \<and> mark_rollout_rolled_back r failure changed = Inr (ar_record a)"
    using ok unfolding rollback_rollout_alias_def after_switch_def
    by (auto simp: res_simps split: sum.splits prod.splits if_splits option.splits)
  then obtain n good b bs where k: "known_good digest r good lkg"
    and b: "rollback_alias S new_id now (\<lambda>k. seen (k + 2)) s (id_alias (ro_identity r)) (id_capability (ro_identity r))
      n ''Model rollout rollback'' who = Inr (b, s')"
    and his: "list_alias_bindings S (seen 1) (Some (id_alias (ro_identity r))) (Some (id_capability (ro_identity r))) None = Inr bs"
      "find (\<lambda>b. ab_id b = ro_lkg_binding r) bs = Some good"
    and a: "ab_catalog b = ab_catalog good" "release v = Inr (ar_reservation a)" "ar_binding a = b"
      "mark_rollout_rolled_back r failure changed = Inr (ar_record a)"
    by blast
  from his(2) have "good \<in> {b. \<exists>i. bind (seen 1) i = Some b \<and>
      binding_matches (Some (id_alias (ro_identity r))) (Some (id_capability (ro_identity r))) None b}"
    using list_Inr [OF inv(2) his(1)] by (fastforce simp: find_Some_iff in_set_conv_nth)
  then have key: "ab_alias good = id_alias (ro_identity r)" "ab_capability good = id_capability (ro_identity r)"
    by (auto simp: binding_matches_def)
  have "rv_state (ar_reservation a) = ''RELEASED''" using a(2) by (auto simp: release_def Let_def res_simps split: if_splits dest: sym)
  moreover have "ro_state (ar_record a) = ROLLED_BACK \<and> ro_failure (ar_record a) = Some failure"
    using a(4) by (auto simp: mark_rollout_rolled_back_def res_simps)
  moreover have "inv s' \<and> bind s' (ab_id b) = Some b \<and> ab_state b = ''ACTIVE'' \<and> ab_alias b = id_alias (ro_identity r) \<and>
    ab_capability b = id_capability (ro_identity r)"
    by (rule rollback_Inr [OF inv(1) inv(2) b]) (auto simp: replaced_def)
  ultimately show ?thesis using k key a(1,3) by (auto simp: known_good_def)
qed

text \<open>
  An activation can be undone: right after it, a roll back with the evidence it asks for restores
  the last-known-good catalog entry, as long as that entry is active.
\<close>

lemma activation_undone:
  assumes inv: "inv s" and lin: "alias_lineage (bind s)" and bd: "bound (entry s) (bind s)"
    and act: "activate_rollout_alias S digest id1 now1 (\<lambda>_. s) s r d v lkg who1 changed1 = (Inr a, s1)"
    and e: "entry s (id_catalog lkg) = Some e" "ce_state e = ''ACTIVE''"
    and v: "reservation_wf v" and ready: "lkg_ready digest r lkg readiness" and failure: "is_identifier failure"
    and changed2: "validate_changed_at (ar_record a) changed2 = Inr ()"
    and new: "bind s1 (''binding:'' @ id2) = None" "is_catalog_id (''binding:'' @ id2)" "is_catalog_id who2"
      "catalog_time now2 ''created_at'' = Inr t"
  shows "\<exists>b s2. rollback_rollout_alias S digest id2 now2 (\<lambda>_. s1) s1 (ar_record a) v lkg readiness failure who2 changed2 = (Inr b, s2)"
proof -
  let ?b = "ar_binding a" and ?r = "ar_record a"
  obtain good
    where step: "catalog_step S (\<lambda>_. s) s s1" and res: "holds_reservation digest r v" and mk: "mark_rollout_active r (ab_id ?b) changed1 = Inr ?r"
      and s1: "inv s1" "entry s1 = entry s" and b: "ab_state ?b = ''ACTIVE''" "bind s1 (ab_id ?b) = Some ?b"
      and bi: "ab_alias ?b = id_alias (ro_identity r)" "ab_capability ?b = id_capability (ro_identity r)"
        "ab_catalog ?b = id_catalog (ro_identity r)"
      and g: "known_good digest r good lkg" "bind s (ab_id good) = Some good" "ab_state good = ''ACTIVE''" "same_key good ?b"
        "ab_revision ?b = ab_revision good + 1"
      and rep: "replaced (bind s) ?b (ab_revision good) ''SUPERSEDED'' (bind s1)"
    using activate_rollout_Inr [where seen = "\<lambda>_. s", OF inv inv lin act] by (elim conjE exE) (rule that)
  have n: "1 \<le> ab_revision good" by (rule lineageD(1) [OF lin g(2)])
  have "good \<in> actives (bind s) ?b" using g(2-4) unfolding actives_def by blast
  moreover from rep n obtain c where c: "actives (bind s) ?b = {c}" "ab_previous ?b = Some (ab_id c)"
      "bind s1 = (bind s)(ab_id c := Some (c\<lparr>ab_state := ''SUPERSEDED''\<rparr>), ab_id ?b := Some ?b)"
    and fresh: "bind s (ab_id ?b) = None"
    unfolding replaced_def by force
  ultimately have "c = good" by simp
  note prev = c(2) [unfolded this] and bind1 = c(3) [unfolded this]
  let ?g = "good\<lparr>ab_state := ''SUPERSEDED''\<rparr>"
  have g1: "bind s1 (ab_id good) = Some ?g" using bind1 fresh g(2) by (auto simp: fun_upd_def)
  have lin1: "alias_lineage (bind s1)" by (rule lineage_replaced [OF lin _ rep]) (use bind_id [OF inv] in auto)
  have bd1: "bound (entry s1) (bind s1)" by (rule step_bound [where seen = "\<lambda>_. s", OF inv inv step bd])
  have r: "ro_identity ?r = ro_identity r" "ro_state ?r = ACTIVE" "ro_binding ?r = Some (ab_id ?b)" "ro_id ?r = ro_id r"
    "ro_reservation ?r = ro_reservation r" "ro_lkg_binding ?r = ro_lkg_binding r" "ro_lkg_fingerprint ?r = ro_lkg_fingerprint r"
    "check_rollout ?r = Inr ()"
    using mark_active_Inr [OF mk] by (auto simp: conjunct1 [OF mark_active_Inr [OF mk]])
  have "ab_revision ?b \<noteq> 1" using g(5) n by simp
  moreover have reason: "py_strip ''Model rollout rollback'' \<noteq> []" "length (py_strip ''Model rollout rollback'') \<le> 500"
    by (simp_all add: py_strip_def py_space_def)
  ultimately obtain p e' where p: "ab_previous ?b = Some (ab_id p)" "bind s1 (ab_id p) = Some p" "entry s1 (ab_catalog p) = Some e'"
    and roll: "ce_state e' = ''ACTIVE'' \<longrightarrow> (\<exists>b2 s2. ab_catalog b2 = ab_catalog p \<and>
       rollback_alias S id2 now2 (\<lambda>_. s1) s1 (ab_alias ?b) (ab_capability ?b) (ab_revision ?b) ''Model rollout rollback'' who2 = Inr (b2, s2))"
    using rollback_outcome [OF s1(1) lin1 bd1 b(2,1) _ new(1-3) reason new(4)] by blast
  have p': "p = ?g" using p(1,2) prev g1 by simp
  then have "e' = e" using p(3) s1(2) e(1) g(1) by (simp add: known_good_def)
  with roll e(2) p' obtain b2 s2 where b2: "ab_catalog b2 = ab_catalog good"
    "rollback_alias S id2 now2 (\<lambda>_. s1) s1 (ab_alias ?b) (ab_capability ?b) (ab_revision ?b) ''Model rollout rollback'' who2 = Inr (b2, s2)"
    by auto
  obtain bs where bs: "list_alias_bindings S s1 (Some (ab_alias ?g)) (Some (ab_capability ?g)) None = Inr bs"
    "find (\<lambda>b. ab_id b = ab_id good) bs = Some ?g"
    using history_find [OF s1(1) g1] by blast
  have key: "ab_alias ?g = ab_alias ?b" "ab_capability ?g = ab_capability ?b" using g(4) by (simp_all add: same_key_def)
  have "rollout_active_binding S s1 (ro_identity ?r) = Inr ?b"
    by (rule rollout_active_found [OF s1(1) lin1 b(2,1)]) (simp_all add: r bi)
  moreover have "holds_reservation digest ?r v" "lkg_ready digest ?r lkg readiness" "known_good digest ?r ?g lkg"
    using res ready g(1) r by (simp_all add: holds_reservation_def lkg_ready_def known_good_def)
  moreover obtain r2 where "mark_rollout_rolled_back ?r failure changed2 = Inr r2"
    using mark_rolled_back_ok [OF r(8) changed2 r(2) _ failure] r(3) by auto
  moreover have "release v = Inr (v\<lparr>rv_state := ''RELEASED''\<rparr>)" by (rule release_Inr [OF v])
  moreover have "ro_lkg_binding r = ab_id good" using g(1) by (simp add: known_good_def)
  ultimately show ?thesis
    using b2 bs r bi key by (simp add: rollback_rollout_alias_def after_switch_def)
qed

end

end
