(* ===== verification/Sample_Catalog.thy ===== *)
theory Sample_Catalog
  imports Rollout_Activation Sample_Rollouts
begin

section \<open>A sample catalog\<close>

text \<open>Two entries and one alias, the calls that race on them, and one promotion, for the witnesses.\<close>

definition sample_entry :: "string \<Rightarrow> string \<Rightarrow> string \<Rightarrow> catalog_entry" where
  "sample_entry i revision deployment =
     \<lparr>ce_id = i, ce_capability = ''generation'', ce_model = ''qwen'', ce_model_revision = revision, ce_deployment = deployment,
      ce_profile = ''default'', ce_precision = ''BF16'', ce_provider = ''openai'', ce_formats = [''text''],
      ce_max_input = 4096, ce_max_output = 1024, ce_state = ''ACTIVE'', ce_revision = 1, ce_created = m0, ce_updated = m0,
      ce_dimensions = None\<rparr>"

definition sample_binding :: alias_binding where
  "sample_binding = \<lparr>ab_id = ''binding-1'', ab_alias = ''chat'', ab_capability = ''generation'', ab_catalog = ''cat-1'',
     ab_revision = 1, ab_state = ''ACTIVE'', ab_reason = ''Static route bootstrap'', ab_changed_by = ''ops'',
     ab_created = m0, ab_previous = None\<rparr>"

definition sample_entries :: "catalog_entry list" where
  "sample_entries = [sample_entry ''cat-1'' ''r1'' ''dep-1'', sample_entry ''cat-2'' ''r2'' ''dep-2'']"

definition sample_catalog :: catalog_repo where
  "sample_catalog = snd (bootstrap_if_empty empty_catalog sample_entries [sample_binding])"

lemma sample_bootstrap: "bootstrap_if_empty empty_catalog sample_entries [sample_binding] = (True, sample_catalog)"
  by code_simp

lemma sample_valid: "validate_active_bindings sample_entries [sample_binding] = Inr ()"
  by code_simp

lemma sample_first: "first_bindings [sample_binding]"
  by code_simp

lemmas sample_catalog_good = bootstrap_good [OF sample_valid sample_first sample_bootstrap]

subsection \<open>An activation, and the retirement that races with it\<close>

definition switched_catalog :: catalog_repo where
  "switched_catalog = snd (projr (activate_alias memory_catalog ''2'' m1 (\<lambda>_. sample_catalog) sample_catalog ''chat'' ''generation''
     ''cat-2'' 1 ''canary passed'' ''ops''))"

definition switched_binding :: alias_binding where
  "switched_binding = fst (projr (activate_alias memory_catalog ''2'' m1 (\<lambda>_. sample_catalog) sample_catalog ''chat'' ''generation''
     ''cat-2'' 1 ''canary passed'' ''ops''))"

lemma sample_switch:
  "activate_alias memory_catalog ''2'' m1 (\<lambda>_. sample_catalog) sample_catalog ''chat'' ''generation'' ''cat-2'' 1
    ''canary passed'' ''ops'' = Inr (switched_binding, switched_catalog)"
  by code_simp

text \<open>Its reads come before the activation, its write after it.\<close>

definition raced_catalog :: catalog_repo where
  "raced_catalog = snd (projr (transition_catalog_entry memory_catalog m1 (\<lambda>_. sample_catalog) switched_catalog ''cat-2'' 1 ''RETIRED''))"

definition raced_entry :: catalog_entry where
  "raced_entry = fst (projr (transition_catalog_entry memory_catalog m1 (\<lambda>_. sample_catalog) switched_catalog ''cat-2'' 1 ''RETIRED''))"

lemma sample_race:
  "transition_catalog_entry memory_catalog m1 (\<lambda>_. sample_catalog) switched_catalog ''cat-2'' 1 ''RETIRED'' =
    Inr (raced_entry, raced_catalog)"
  by code_simp

lemma raced_run: "catalog_run memory_catalog sample_catalog [raced_catalog, switched_catalog, sample_catalog]"
proof -
  have "catalog_run memory_catalog sample_catalog [switched_catalog, sample_catalog]"
    by (rule catalog_run.call [OF catalog_run.start _ catalog_step.activated [OF sample_switch]]) simp
  then show ?thesis
    by (rule catalog_run.call [OF _ _ catalog_step.transitioned [OF sample_race]]) auto
qed

lemma switched_reachable: "catalog_reachable memory_catalog sample_catalog switched_catalog"
  by (rule catalog_reachable.call [OF catalog_reachable.start catalog_step.activated [OF sample_switch]])

lemma raced_invalid:
  "validate_active_bindings (map snd (cr_entries raced_catalog)) (map snd (cr_bindings raced_catalog)) =
    Inl (CatalogError ''mo.alias_catalog_inactive'' ''active alias must reference an active catalog entry'')"
  by code_simp

lemma sample_time: "\<not> isl (catalog_time m1 ''created_at'')"
  by code_simp

subsection \<open>A promotion\<close>

definition lkg_identity :: identity where
  "lkg_identity = sample_identity\<lparr>id_catalog := ''cat-1'', id_revision := ''r1'', id_deployment := ''dep-1''\<rparr>"

text \<open>A digest that tells the two identities apart.\<close>

definition catalog_digest :: "pyval \<Rightarrow> string" where
  "catalog_digest v = (if v = PDict (identity_wire lkg_identity) then hash1 else hash0)"

definition sample_decision :: pydict where
  "sample_decision = [(''status'', PStr ''PASS''), (''promotable'', PBool True), (''identity_fingerprint'', PStr hash0),
     (''policy_hash'', PStr hash0), (''metrics_digest'', PStr hash1)]"

definition sample_lkg_readiness :: pydict where
  "sample_lkg_readiness = [(''status'', PStr ''READY''), (''identity_fingerprint'', PStr hash1), (''evidence_digest'', PStr hash1)]"

definition promotion :: "string \<Rightarrow> (rollout_alias_exn + alias_result) \<times> catalog_repo" where
  "promotion changed = activate_rollout_alias memory_catalog catalog_digest ''2'' m1 (\<lambda>_. sample_catalog) sample_catalog
     passed_rollout sample_decision sample_reservation lkg_identity ''ops'' changed"

lemma sample_promotion: "\<not> isl (fst (promotion m1))"
  by code_simp

lemma late_promotion:
  "fst (promotion ''later'') = Inl (Alias_Rollout (RolloutError ''mo.changed_at_invalid'' ''changed_at must be ISO 8601''))"
  "active_binding memory_catalog (snd (promotion ''later'')) ''chat'' ''generation'' =
    Inr (repo_bind (snd (promotion ''later'')) ''binding:2'')"
  "map_option ab_catalog (repo_bind (snd (promotion ''later'')) ''binding:2'') = Some ''cat-2''"
  by code_simp+

end
