(* ===== verification/Worker_Resilience.thy ===== *)
theory Worker_Resilience
  imports Sql_Queue
begin

section \<open>Settling the failures of CX workers\<close>

text \<open>
  \<^verbatim>\<open>services/nex-cx/nex_cx/worker_resilience.py\<close>: a failure of a handler is classified as
  transient, permanent or poison; a transient one goes to the retry of the queue, the others to its
  dead letter, and the settlement reports what the queue decided. The exception is modelled by the
  four attributes \<open>getattr\<close> reads of it, \<open>PNone\<close> where it has none. The queue is any provider
  of \<open>settling_queue\<close>: the operations of \<open>job_queue\<close> with those the settlement, the
  reconciliation and the worker's runtime call beside them.
\<close>

subsection \<open>Errors and policy\<close>

datatype resilience_exn = ResilienceError string string int bool | Resilience_Other job_exn

abbreviation resilience_error :: "string \<Rightarrow> string \<Rightarrow> int \<Rightarrow> bool \<Rightarrow> resilience_exn" where
  "resilience_error c d s r \<equiv> ResilienceError (''cx.worker_resilience.'' @ c) d s r"

datatype failure_class = TRANSIENT | PERMANENT | POISON

record worker_failure =
  fl_code :: pyval
  fl_class :: pyval
  fl_retryable :: pyval
  fl_status :: pyval

record resilience_policy =
  rp_initial :: int
  rp_max :: int
  rp_multiplier :: rat
  rp_poison :: "string list"

definition SAFE_FAILURE_DETAIL :: string where
  "SAFE_FAILURE_DETAIL = ''CX worker execution failed.''"

text \<open>\<open>DEFAULT_PERMANENT_STATUS_CODES\<close>.\<close>

definition permanent_status :: "int \<Rightarrow> bool" where
  "permanent_status n \<longleftrightarrow> 400 \<le> n \<and> n < 500 \<and> n \<notin> {408, 409, 425, 429}"

text \<open>The constructor of a policy: it builds the retry policy only to check it.\<close>

definition make_resilience_policy ::
  "int \<Rightarrow> int \<Rightarrow> rat \<Rightarrow> string list \<Rightarrow> resilience_exn + resilience_policy" where
  "make_resilience_policy initial maximum multiplier codes =
     sbind (map_err (\<lambda>e. case e of JobQueueError _ d _ \<Rightarrow> resilience_error ''retry_policy_invalid'' d 422 False
                       | Py x \<Rightarrow> Resilience_Other (Py x))
              (make_retry_policy initial maximum multiplier)) (\<lambda>_.
       if \<not> list_all (\<lambda>c. py_strip c \<noteq> []) codes then
         Inl (resilience_error ''poison_codes_invalid'' ''poison_error_codes must be a tuple of non-empty strings.'' 422 False)
       else Inr \<lparr>rp_initial = initial, rp_max = maximum, rp_multiplier = multiplier, rp_poison = codes\<rparr>)"

definition default_resilience_policy :: resilience_policy where
  "default_resilience_policy =
     \<lparr>rp_initial = 30, rp_max = 900, rp_multiplier = 2, rp_poison = [''cx.worker.poison'', ''cx.worker.payload_corrupt'']\<rparr>"

definition resolved_policy :: "resilience_policy option \<Rightarrow> resilience_policy" where
  "resolved_policy pol = (case pol of None \<Rightarrow> default_resilience_policy | Some p \<Rightarrow> p)"

definition retry_policy :: "resilience_policy \<Rightarrow> job_exn + job_retry_policy" where
  "retry_policy p = make_retry_policy (rp_initial p) (rp_max p) (rp_multiplier p)"

subsection \<open>Classification\<close>

definition safe_failure_code :: "worker_failure \<Rightarrow> string" where
  "safe_failure_code fl =
     (case fl_code fl of
        PStr s \<Rightarrow> if py_strip s = [] then ''cx.worker_resilience.handler_failed'' else take 160 (py_strip s)
      | _ \<Rightarrow> ''cx.worker_resilience.handler_failed'')"

text \<open>\<open>v in {...}\<close> of a set: a value that cannot be hashed raises.\<close>

fun in_string_set :: "pyval \<Rightarrow> string list \<Rightarrow> py_error + bool" where
  "in_string_set (PStr s) xs = Inr (s \<in> set xs)"
| "in_string_set (PList _) xs = Inl TypeError"
| "in_string_set (PDict _) xs = Inl TypeError"
| "in_string_set _ xs = Inr False"

record classification =
  wc_code :: string
  wc_class :: failure_class
  wc_retryable :: bool
  wc_status :: pyval

definition classify_worker_failure ::
  "worker_failure \<Rightarrow> resilience_policy option \<Rightarrow> resilience_exn + classification" where
  "classify_worker_failure fl pol =
     (let code = safe_failure_code fl in
      sbind (if code \<in> set (rp_poison (resolved_policy pol)) \<or> fl_class fl = PStr ''poison'' then Inr POISON
        else sbind (map_err (\<lambda>e. Resilience_Other (Py e))
               (in_string_set (fl_class fl) [''validation'', ''authorization'', ''contract'', ''permanent''])) (\<lambda>explicit.
          if explicit then Inr PERMANENT
          else if fl_retryable fl = PBool False then Inr PERMANENT
          else if (case py_int (fl_status fl) of None \<Rightarrow> False | Some n \<Rightarrow> permanent_status n) then Inr PERMANENT
          else Inr TRANSIENT)) (\<lambda>c.
      Inr \<lparr>wc_code = code, wc_class = c, wc_retryable = (c = TRANSIENT),
           wc_status = (if py_int (fl_status fl) = None then PNone else fl_status fl)\<rparr>))"

subsection \<open>The queue a settlement works on\<close>

record 's settling_queue =
  sq_queue :: "'s job_queue"
  sq_read :: "'s \<Rightarrow> string \<Rightarrow> job_exn + common_job option"
  sq_list :: "'s \<Rightarrow> string option \<Rightarrow> job_status option \<Rightarrow> job_exn + common_job list"
  sq_dead_letter :: "'s \<Rightarrow> string \<Rightarrow> pydict option \<Rightarrow> string option \<Rightarrow> string \<Rightarrow> job_exn + common_job \<times> 's"

definition memory_settling :: "memory_queue settling_queue" where
  "memory_settling =
     \<lparr>sq_queue = memory_ops, sq_read = (\<lambda>q i. Inr (get_job q i)), sq_list = (\<lambda>q ty st. Inr (list_jobs q ty st)),
      sq_dead_letter = dead_letter_job\<rparr>"

definition sql_settling :: "database \<Rightarrow> table settling_queue" where
  "sql_settling D =
     \<lparr>sq_queue = sql_ops D, sq_read = select_job D, sq_list = sql_list_jobs D, sq_dead_letter = sql_dead_letter D\<rparr>"

lemma settling_simps [simp]:
  "sq_queue memory_settling = memory_ops" "sq_read memory_settling = (\<lambda>q i. Inr (get_job q i))"
  "sq_list memory_settling = (\<lambda>q ty st. Inr (list_jobs q ty st))" "sq_dead_letter memory_settling = dead_letter_job"
  "sq_queue (sql_settling D) = sql_ops D" "sq_read (sql_settling D) = select_job D"
  "sq_list (sql_settling D) = sql_list_jobs D" "sq_dead_letter (sql_settling D) = sql_dead_letter D"
  by (simp_all add: memory_settling_def sql_settling_def)

subsection \<open>Settlement\<close>

datatype settlement_action = RETRY_SCHEDULED | DEAD_LETTERED

fun settlement_text :: "settlement_action \<Rightarrow> string" where
  "settlement_text RETRY_SCHEDULED = ''RETRY_SCHEDULED''"
| "settlement_text DEAD_LETTERED = ''DEAD_LETTERED''"

record settlement =
  st_job :: string
  st_type :: string
  st_action :: settlement_action
  st_class :: failure_class
  st_code :: string
  st_attempts :: int
  st_max_attempts :: int
  st_retry_at :: "string option"
  st_dead_lettered :: bool
  st_failed_at :: string

text \<open>\<open>isinstance(error, Mapping) and error.get("dead_lettered") is True\<close>.\<close>

definition marked_dead :: "pyval \<Rightarrow> bool" where
  "marked_dead e = (case e of PDict d \<Rightarrow> dget d ''dead_lettered'' = PBool True | _ \<Rightarrow> False)"

definition resilience_string :: "string \<Rightarrow> string \<Rightarrow> resilience_exn + string" where
  "resilience_string s f =
     (if py_strip s = [] then Inl (resilience_error ''field_invalid'' (f @ '' must be a non-empty string.'') 422 False)
      else Inr (py_strip s))"

fun settlement_error :: "job_exn \<Rightarrow> resilience_exn" where
  "settlement_error (JobQueueError _ d sc) = resilience_error ''settlement_failed'' d sc (sc \<ge> 500)"
| "settlement_error (Py e) = Resilience_Other (Py e)"

text \<open>Of the job it is given the code reads the identifier only; the queue reads the stored job.\<close>

definition settle_worker_failure ::
  "'s settling_queue \<Rightarrow> 's \<Rightarrow> common_job \<Rightarrow> worker_failure \<Rightarrow> string \<Rightarrow> resilience_policy option \<Rightarrow> string
    \<Rightarrow> resilience_exn + settlement \<times> 's" where
  "settle_worker_failure Q s job fl failed pol now =
     sbind (classify_worker_failure fl pol) (\<lambda>c.
     sbind (map_err Resilience_Other (build_job_error (wc_code c) SAFE_FAILURE_DETAIL (wc_retryable c) False)) (\<lambda>err.
     sbind (resilience_string (job_id job) ''job_id'') (\<lambda>i.
     sbind (map_err settlement_error
              (if wc_retryable c then
                 sbind (retry_policy (resolved_policy pol)) (\<lambda>p.
                   q_retry (sq_queue Q) s i (Some err) (Some failed) (Some p) now)
               else sq_dead_letter Q s i (Some err) (Some failed) now)) (\<lambda>(new, s').
     let act = (if status new = QUEUED then RETRY_SCHEDULED else DEAD_LETTERED) in
     Inr (\<lparr>st_job = i, st_type = job_type new, st_action = act, st_class = wc_class c, st_code = wc_code c,
            st_attempts = attempt_count new, st_max_attempts = max_attempts new,
            st_retry_at = (if act = RETRY_SCHEDULED then available_at new else None),
            st_dead_lettered = (status new = FAILED \<and> marked_dead (error new)), st_failed_at = failed\<rparr>, s')))))"

record dead_letter_view =
  dv_job :: string
  dv_type :: string
  dv_attempts :: int
  dv_max_attempts :: int
  dv_code :: string
  dv_failed_at :: string

text \<open>A value that is no string is no non-empty string.\<close>

fun resilience_field :: "pyval \<Rightarrow> string \<Rightarrow> resilience_exn + string" where
  "resilience_field (PStr s) f = resilience_string s f"
| "resilience_field _ f = Inl (resilience_error ''field_invalid'' (f @ '' must be a non-empty string.'') 422 False)"

definition project_dead_letter_job :: "common_job \<Rightarrow> resilience_exn + dead_letter_view" where
  "project_dead_letter_job job =
     (case error job of
        PDict err \<Rightarrow>
          if status job \<noteq> FAILED \<or> dget err ''dead_lettered'' \<noteq> PBool True then
            Inl (resilience_error ''dead_letter_required'' ''The job is not a dead-lettered worker job.'' 409 False)
          else
            sbind (resilience_string (job_id job) ''job_id'') (\<lambda>i.
            sbind (resilience_string (job_type job) ''job_type'') (\<lambda>ty.
            sbind (resilience_field (dget err ''error_code'') ''error_code'') (\<lambda>code.
            sbind (resilience_string (updated_at job) ''updated_at'') (\<lambda>at_time.
            Inr \<lparr>dv_job = i, dv_type = ty, dv_attempts = attempt_count job, dv_max_attempts = max_attempts job,
                 dv_code = code, dv_failed_at = at_time\<rparr>))))
      | _ \<Rightarrow> Inl (resilience_error ''dead_letter_required'' ''The job is not a dead-lettered worker job.'' 409 False))"

subsection \<open>Classification is decided\<close>

lemma resilience_string_Inr [res_simps]: "resilience_string s f = Inr x \<longleftrightarrow> x = py_strip s \<and> x \<noteq> []"
  by (auto simp: resilience_string_def)

text \<open>The code of a failure is never blank, so the queue's error can always be built.\<close>

lemma safe_failure_code_nonblank: "py_strip (safe_failure_code fl) \<noteq> []"
proof -
  have "py_strip (take 160 (py_strip s)) \<noteq> []" if "py_strip s \<noteq> []" for s
  proof -
    from that obtain c cs where c: "py_strip s = c # cs" by (cases "py_strip s") auto
    have "\<not> py_space c" using strip_ends [OF that] c by simp
    then show ?thesis unfolding py_strip_Nil c by simp
  qed
  moreover have "py_strip ''cx.worker_resilience.handler_failed'' \<noteq> []" by code_simp
  ultimately show ?thesis by (auto simp: safe_failure_code_def split: pyval.split)
qed

lemma safe_failure_code_length: "length (safe_failure_code fl) \<le> 160"
  by (auto simp: safe_failure_code_def split: pyval.split)

definition explicit_permanent :: "pyval \<Rightarrow> bool" where
  "explicit_permanent v \<longleftrightarrow>
     (case v of PStr s \<Rightarrow> s \<in> {''validation'', ''authorization'', ''contract'', ''permanent''} | _ \<Rightarrow> False)"

definition rejected_status :: "pyval \<Rightarrow> bool" where
  "rejected_status v \<longleftrightarrow> (case py_int v of None \<Rightarrow> False | Some n \<Rightarrow> permanent_status n)"

lemma in_string_set_Inr:
  "in_string_set v [''validation'', ''authorization'', ''contract'', ''permanent''] = Inr b \<Longrightarrow> b = explicit_permanent v"
  by (cases v) (simp_all add: explicit_permanent_def)

lemma in_string_set_total: "(\<exists>b. in_string_set v xs = Inr b) \<longleftrightarrow> (case v of PList _ \<Rightarrow> False | PDict _ \<Rightarrow> False | _ \<Rightarrow> True)"
  by (cases v) auto

lemma classify_Inr:
  assumes "classify_worker_failure fl pol = Inr c"
  shows "wc_code c = safe_failure_code fl" "wc_retryable c \<longleftrightarrow> wc_class c = TRANSIENT"
    "wc_class c =
      (if safe_failure_code fl \<in> set (rp_poison (resolved_policy pol)) \<or> fl_class fl = PStr ''poison'' then POISON
       else if explicit_permanent (fl_class fl) \<or> fl_retryable fl = PBool False \<or> rejected_status (fl_status fl)
       then PERMANENT else TRANSIENT)"
  using assms unfolding classify_worker_failure_def Let_def rejected_status_def [symmetric]
  by (auto simp only: res_simps sum.inject classification.simps refl if_True if_False simp_thms dest!: in_string_set_Inr
      split: if_splits)

lemma classify_total:
  "(\<exists>c. classify_worker_failure fl pol = Inr c) \<longleftrightarrow>
    safe_failure_code fl \<in> set (rp_poison (resolved_policy pol)) \<or>
    (case fl_class fl of PList _ \<Rightarrow> False | PDict _ \<Rightarrow> False | _ \<Rightarrow> True)"
proof (cases "safe_failure_code fl \<in> set (rp_poison (resolved_policy pol)) \<or> fl_class fl = PStr ''poison''")
  case True
  then show ?thesis by (auto simp: classify_worker_failure_def Let_def)
next
  case False
  then show ?thesis
    unfolding in_string_set_total [symmetric, where xs = "[''validation'', ''authorization'', ''contract'', ''permanent'']"]
    by (cases "in_string_set (fl_class fl) [''validation'', ''authorization'', ''contract'', ''permanent'']")
      (auto simp: classify_worker_failure_def Let_def)
qed

lemma retry_policy_default: "retry_policy default_resilience_policy = Inr default_retry_policy"
  by (simp add: retry_policy_def default_resilience_policy_def make_retry_policy_def default_retry_policy_def)

text \<open>A policy that passed its constructor always gives the queue a retry policy.\<close>

lemma make_resilience_policy_Inr:
  "make_resilience_policy a b m codes = Inr p \<longleftrightarrow>
    p = \<lparr>rp_initial = a, rp_max = b, rp_multiplier = m, rp_poison = codes\<rparr> \<and>
    (\<exists>r. retry_policy p = Inr r \<and> policy_wf r) \<and> (\<forall>c \<in> set codes. py_strip c \<noteq> [])"
  by (auto simp: make_resilience_policy_def retry_policy_def make_retry_policy_def policy_wf_def res_simps list_all_iff
      split: if_splits)

subsection \<open>What a settlement promises\<close>

text \<open>
  The contract of a settling queue: beside the laws of the queue, what a read and a list return,
  and that a job the queue fails keeps the error it was given, marked dead.
\<close>

definition dead_with :: "pydict option \<Rightarrow> common_job \<Rightarrow> bool" where
  "dead_with e j \<longleftrightarrow> (\<exists>d. normalize_job_error e False = Inr d \<and> error j = mark_error d False True)"

locale settling_queue_laws = job_queue_laws "sq_queue Q" inv
  for Q :: "'s settling_queue" and inv :: "'s \<Rightarrow> bool" +
  assumes read_law: "inv s \<Longrightarrow> sq_read Q s i = Inr (q_get (sq_queue Q) s i)"
    and list_law: "inv s \<Longrightarrow> \<exists>js. sq_list Q s ty st = Inr js \<and> distinct (map job_id js) \<and>
      (\<forall>j. j \<in> set js \<longleftrightarrow> q_get (sq_queue Q) s (job_id j) = Some j \<and>
        (ty = None \<or> ty = Some (job_type j)) \<and> (st = None \<or> st = Some (status j)))"
    and dead_letter_law: "inv s \<Longrightarrow> sq_dead_letter Q s i e f n = Inr (j', s') \<Longrightarrow>
      inv s' \<and> status j' = FAILED \<and> dead_with e j' \<and> (\<exists>j. q_get (sq_queue Q) s i = Some j \<and> job_step j j') \<and>
      q_get (sq_queue Q) s' = (q_get (sq_queue Q) s)(i := Some j')"
    and dead_letter_running: "inv s \<Longrightarrow> q_get (sq_queue Q) s i = Some j \<Longrightarrow> status j = RUNNING \<Longrightarrow>
      good_time (or_default f n) \<Longrightarrow> \<exists>d. normalize_job_error e False = Inr d \<Longrightarrow>
      \<exists>r. sq_dead_letter Q s i e f n = Inr r"
    and retry_dead: "inv s \<Longrightarrow> q_retry (sq_queue Q) s i e f p n = Inr (j', s') \<Longrightarrow> status j' = FAILED \<Longrightarrow>
      dead_with e j'"
    and retry_default: "q_retry (sq_queue Q) s i e f (Some default_retry_policy) n = q_retry (sq_queue Q) s i e f None n"

text \<open>What the error built from a classification is, for the queue.\<close>

lemma safe_error_parts:
  obtains err where "build_job_error (safe_failure_code fl) SAFE_FAILURE_DETAIL b False = Inr err"
    "\<And>r. normalize_job_error (Some err) r =
      Inr [(''error_code'', PStr (safe_failure_code fl)), (''detail'', PStr SAFE_FAILURE_DETAIL),
           (''retryable'', PBool r), (''dead_lettered'', PBool False)]"
proof -
  have "safe_failure_code fl \<noteq> []" using safe_failure_code_nonblank [of fl] by (auto simp: py_strip_def)
  then show ?thesis
    by (intro that [of "[(''error_code'', PStr (safe_failure_code fl)), (''detail'', PStr SAFE_FAILURE_DETAIL),
           (''retryable'', PBool b), (''dead_lettered'', PBool False)]"])
      (simp_all add: build_job_error_def required_string_def SAFE_FAILURE_DETAIL_def normalize_job_error_def
        get_text_def dget_def)
qed

lemma mark_error_marked [simp]: "marked_dead (mark_error d r True)"
  by (simp add: marked_dead_def mark_error_def dget_def)

context settling_queue_laws
begin

text \<open>A settlement is one step of the stored job, and says what became of it.\<close>

lemma settle_law:
  assumes inv: "inv s" and ok: "settle_worker_failure Q s job fl failed pol now = Inr (r, s')"
  obtains j j' where "inv s'" "q_get (sq_queue Q) s (st_job r) = Some j" "st_job r = py_strip (job_id job)"
    "job_step j j'" "q_get (sq_queue Q) s' = (q_get (sq_queue Q) s)(st_job r := Some j')"
    "st_action r = RETRY_SCHEDULED \<longleftrightarrow> status j' = QUEUED" "st_action r = DEAD_LETTERED \<longleftrightarrow> status j' = FAILED"
    "st_action r = DEAD_LETTERED \<longleftrightarrow> st_dead_lettered r" "st_class r \<noteq> TRANSIENT \<Longrightarrow> st_action r = DEAD_LETTERED"
    "st_code r = safe_failure_code fl" "st_attempts r = attempt_count j'" "st_type r = job_type j'"
    "st_dead_lettered r \<Longrightarrow> \<exists>d. error j' = mark_error ((''error_code'', PStr (safe_failure_code fl)) # d) False True"
proof -
  from ok obtain c err i j' where c: "classify_worker_failure fl pol = Inr c"
    and err: "build_job_error (wc_code c) SAFE_FAILURE_DETAIL (wc_retryable c) False = Inr err"
    and i: "i = py_strip (job_id job)"
    and step: "(if wc_retryable c then
                 sbind (retry_policy (resolved_policy pol)) (\<lambda>p.
                   q_retry (sq_queue Q) s i (Some err) (Some failed) (Some p) now)
               else sq_dead_letter Q s i (Some err) (Some failed) now) = Inr (j', s')"
    and r: "r = \<lparr>st_job = i, st_type = job_type j', st_action = (if status j' = QUEUED then RETRY_SCHEDULED else DEAD_LETTERED),
            st_class = wc_class c, st_code = wc_code c, st_attempts = attempt_count j', st_max_attempts = max_attempts j',
            st_retry_at = (if (if status j' = QUEUED then RETRY_SCHEDULED else DEAD_LETTERED) = RETRY_SCHEDULED
              then available_at j' else None),
            st_dead_lettered = (status j' = FAILED \<and> marked_dead (error j')), st_failed_at = failed\<rparr>"
    unfolding settle_worker_failure_def Let_def by (auto simp only: res_simps prod.case split_paired_all sum.inject prod.inject)
  note code = classify_Inr(1) [OF c]
  obtain err' where err': "build_job_error (wc_code c) SAFE_FAILURE_DETAIL (wc_retryable c) False = Inr err'"
    "\<And>r. normalize_job_error (Some err') r =
      Inr [(''error_code'', PStr (wc_code c)), (''detail'', PStr SAFE_FAILURE_DETAIL),
           (''retryable'', PBool r), (''dead_lettered'', PBool False)]"
    unfolding code using safe_error_parts [of fl "wc_retryable c"] by metis
  then have norm: "normalize_job_error (Some err) r =
      Inr [(''error_code'', PStr (wc_code c)), (''detail'', PStr SAFE_FAILURE_DETAIL),
           (''retryable'', PBool r), (''dead_lettered'', PBool False)]" for r using err by simp
  have law: "inv s' \<and> (status j' = QUEUED \<and> wc_retryable c \<or> status j' = FAILED \<and> dead_with (Some err) j') \<and>
     (\<exists>j. q_get (sq_queue Q) s i = Some j \<and> job_step j j') \<and> q_get (sq_queue Q) s' = (q_get (sq_queue Q) s)(i := Some j')"
  proof (cases "wc_retryable c")
    case True
    with step obtain p where "q_retry (sq_queue Q) s i (Some err) (Some failed) (Some p) now = Inr (j', s')"
      by (auto simp: res_simps)
    from retry_law [OF inv this] retry_dead [OF inv this] True show ?thesis by blast
  next
    case False
    with step have "sq_dead_letter Q s i (Some err) (Some failed) now = Inr (j', s')" by simp
    from dead_letter_law [OF inv this] show ?thesis by blast
  qed
  then obtain j where j: "q_get (sq_queue Q) s i = Some j" "job_step j j'" by blast
  have dead: "status j' = FAILED \<Longrightarrow> marked_dead (error j') \<and>
      (\<exists>d. error j' = mark_error ((''error_code'', PStr (wc_code c)) # d) False True)"
    using law by (auto simp: dead_with_def norm)
  show ?thesis
    by (rule that [of j j']) (use law j dead classify_Inr(2) [OF c] in \<open>auto simp: r i code\<close>)
qed

text \<open>A running job always settles: no failure of a handler leaves it behind.\<close>

lemma settle_running:
  assumes inv: "inv s" and j: "q_get (sq_queue Q) s (job_id job) = Some j" "status j = RUNNING" "attempt_count j \<le> 1000"
    and ids: "py_strip (job_id job) = job_id job" and w: "good_time (or_default (Some failed) now)"
    and c: "classify_worker_failure fl None = Inr c"
  shows "\<exists>r. settle_worker_failure Q s job fl failed None now = Inr r"
proof -
  note code = classify_Inr(1) [OF c]
  obtain err where err: "build_job_error (wc_code c) SAFE_FAILURE_DETAIL (wc_retryable c) False = Inr err"
    "\<And>r. \<exists>d. normalize_job_error (Some err) r = Inr d"
    unfolding code using safe_error_parts [of fl "wc_retryable c"] by metis
  have "job_id j = job_id job" "job_wf j" using get_wf [OF inv j(1)] by simp_all
  then have ne: "job_id job \<noteq> []" by (auto simp: job_wf_def)
  have "\<exists>r. q_retry (sq_queue Q) s (job_id job) (Some err) (Some failed) None now = Inr r"
    "\<exists>r. sq_dead_letter Q s (job_id job) (Some err) (Some failed) now = Inr r"
    using retry_running [OF inv j w err(2)] dead_letter_running [OF inv j(1,2) w err(2)] by auto
  then show ?thesis using c err(1) ids ne
    by (cases "wc_retryable c")
      (auto simp: settle_worker_failure_def Let_def resilience_string_def resolved_policy_def retry_policy_default retry_default)
qed

end

subsection \<open>The in-memory queue settles\<close>

lemma plan_job_retry_dead:
  assumes "plan_job_retry j e f n p = Inr dec" "action dec \<noteq> REQUEUE"
  shows "\<exists>d. normalize_job_error e False = Inr d \<and> decided_error dec = mark_error d False True"
proof (cases "retryable j \<and> attempt_count j < max_attempts j")
  case True
  then show ?thesis using plan_job_retry_Inr(4) [OF assms(1)] assms(2) by simp
next
  case False
  with assms show ?thesis by (auto simp: plan_job_retry_def Let_def res_simps)
qed

lemma plan_job_dead_letter_dead:
  "plan_job_dead_letter j e f n = Inr dec \<Longrightarrow>
    \<exists>d. normalize_job_error e False = Inr d \<and> decided_error dec = mark_error d False True"
  by (auto simp: plan_job_dead_letter_def res_simps)

lemma plan_job_dead_letter_total:
  "job_wf j \<Longrightarrow> status j = RUNNING \<Longrightarrow> normalize_job_error e False = Inr d \<Longrightarrow>
    \<exists>dec. plan_job_dead_letter j e f n = Inr dec"
  by (simp add: plan_job_dead_letter_def)

lemma plan_job_retry_default_policy: "plan_job_retry j e f n (Some default_retry_policy) = plan_job_retry j e f n None"
  unfolding plan_job_retry_def option.case ..

lemma list_jobs_law:
  assumes inv: "queue_inv q"
  shows "distinct (map job_id (list_jobs q ty st)) \<and> (\<forall>j. j \<in> set (list_jobs q ty st) \<longleftrightarrow>
    get_job q (job_id j) = Some j \<and> (ty = None \<or> ty = Some (job_type j)) \<and> (st = None \<or> st = Some (status j)))"
proof -
  note d = queue_invD(1) [OF inv] and own = queue_invD(2) [OF inv]
  have keys: "map job_id (map snd (jobs q)) = map fst (jobs q)"
    using own d by (auto intro!: map_cong simp: get_job_def)
  have vals: "j \<in> set (map snd (jobs q)) \<longleftrightarrow> get_job q (job_id j) = Some j" for j
    using map_of_values [OF d, of j] own [of _ j] by (auto simp: get_job_def)
  have "distinct (map job_id (map snd (jobs q)))" unfolding keys by (rule d)
  then show ?thesis
    unfolding list_jobs_def by (auto simp: vals [simplified] distinct_map_filter simp del: map_map)
qed

interpretation memory: settling_queue_laws memory_settling queue_inv
proof (intro settling_queue_laws.intro settling_queue_laws_axioms.intro)
  show "job_queue_laws (sq_queue memory_settling) queue_inv" by (simp add: memory.job_queue_laws_axioms)
next
  fix q :: memory_queue and i j e f n j' s' p ty st
  assume inv: "queue_inv q"
  show "sq_read memory_settling q i = Inr (q_get (sq_queue memory_settling) q i)" by simp
  show "\<exists>js. sq_list memory_settling q ty st = Inr js \<and> distinct (map job_id js) \<and>
      (\<forall>j. j \<in> set js \<longleftrightarrow> q_get (sq_queue memory_settling) q (job_id j) = Some j \<and>
        (ty = None \<or> ty = Some (job_type j)) \<and> (st = None \<or> st = Some (status j)))"
    using list_jobs_law [OF inv] by simp
  show "queue_inv s' \<and> status j' = FAILED \<and> dead_with e j' \<and>
      (\<exists>j. q_get (sq_queue memory_settling) q i = Some j \<and> job_step j j') \<and>
      q_get (sq_queue memory_settling) s' = (q_get (sq_queue memory_settling) q)(i := Some j')"
    if "sq_dead_letter memory_settling q i e f n = Inr (j', s')"
  proof -
    from that have *: "dead_letter_job q i e f n = Inr (j', s')" by simp
    then have "dead_with e j'"
      by (auto simp: dead_letter_job_def Let_def res_simps dead_with_def dest: plan_job_dead_letter_dead)
    moreover from * obtain j where "get_job q i = Some j" "status j = RUNNING" "s' = put_job q i j'" "same_job j j'"
      "attempt_count j' = attempt_count j" "status j' = FAILED" by (rule dead_letter_job_Inr)
    ultimately show ?thesis using dead_letter_effect [OF inv *] by (simp add: step_finish)
  qed
  show "\<exists>r. sq_dead_letter memory_settling q i e f n = Inr r"
    if run: "q_get (sq_queue memory_settling) q i = Some j" "status j = RUNNING" "\<exists>d. normalize_job_error e False = Inr d"
  proof -
    have "job_wf j" using run(1) queue_invD(3) [OF inv, of i j] by (simp add: get_job_def)
    with run obtain dec where "plan_job_dead_letter j e f n = Inr dec"
      using plan_job_dead_letter_total by blast
    with run(1) show ?thesis by (simp add: dead_letter_job_def get_job_def Let_def)
  qed
  show "dead_with e j'" if "q_retry (sq_queue memory_settling) q i e f p n = Inr (j', s')" "status j' = FAILED"
  proof -
    from that obtain j dec where dec: "plan_job_retry j e f n p = Inr dec"
      and j': "j' = (if action dec = REQUEUE
        then j\<lparr>updated_at := failed_at dec, error := decided_error dec, status := QUEUED,
               available_at := decided_available_at dec\<rparr>
        else j\<lparr>updated_at := failed_at dec, error := decided_error dec, status := FAILED,
               retryable := False, available_at := Some (failed_at dec)\<rparr>)"
      by (auto simp: retry_job_def Let_def res_simps)
    have r: "action dec \<noteq> REQUEUE" using that(2) j' by (metis common_job.select_convs(4) common_job.surjective
      common_job.update_convs(4,15,16,17,18) job_status.distinct(5))
    with plan_job_retry_dead [OF dec r] j' show ?thesis by (simp add: dead_with_def)
  qed
next
  show "q_retry (sq_queue memory_settling) s i e f (Some default_retry_policy) n =
    q_retry (sq_queue memory_settling) s i e f None n" for s i e f n
    by (simp only: settling_simps memory_ops_simps retry_job_def plan_job_retry_default_policy)
qed

subsection \<open>The SQL queue settles\<close>

lemma rows_to_jobs_total:
  "\<forall>r \<in> set rs. \<exists>j. job_from_row D r = Inr j \<Longrightarrow> rows_to_jobs D rs = Inr (map (\<lambda>r. projr (job_from_row D r)) rs)"
  by (induction rs) auto

lemma sql_list_law:
  assumes inv: "sql_inv D tbl"
  shows "\<exists>js. sql_list_jobs D tbl ty st = Inr js \<and> distinct (map job_id js) \<and>
      (\<forall>j. j \<in> set js \<longleftrightarrow> sql_get_job D tbl (job_id j) = Some j \<and>
        (ty = None \<or> ty = Some (job_type j)) \<and> (st = None \<or> st = Some (status j)))"
proof -
  let ?hit = "\<lambda>r. (ty = None \<or> ty = Some (row_job_type r)) \<and> (st = None \<or> st = Some (row_status r))"
  let ?rs = "sort_key (\<lambda>r. (row_created_at r, row_job_id r)) (filter ?hit tbl)"
  let ?f = "\<lambda>r. projr (job_from_row D r)"
  have read: "\<exists>j. job_from_row D r = Inr j" if "r \<in> set tbl" for r using that inv by (auto simp: sql_inv_def)
  have f: "job_from_row D r = Inr (?f r)" if "r \<in> set tbl" for r using read [OF that] by auto
  have js: "sql_list_jobs D tbl ty st = Inr (map ?f ?rs)"
    unfolding sql_list_jobs_def by (rule rows_to_jobs_total) (use read in auto)
  have ids: "map job_id (map ?f ?rs) = map row_job_id ?rs"
    using f by (auto simp: job_from_row_Inr)
  have d: "distinct (map row_job_id ?rs)"
  proof -
    have "distinct (map row_job_id (filter ?hit tbl))" using inv by (simp add: sql_inv_def distinct_map_filter)
    then show ?thesis by (simp add: distinct_map)
  qed
  have "j \<in> set (map ?f ?rs) \<longleftrightarrow> sql_get_job D tbl (job_id j) = Some j \<and>
        (ty = None \<or> ty = Some (job_type j)) \<and> (st = None \<or> st = Some (status j))" for j
  proof
    assume "j \<in> set (map ?f ?rs)"
    then obtain r where r: "r \<in> set tbl" "?hit r" "j = ?f r" by auto
    from f [OF r(1)] r(3) have j: "job_from_row D r = Inr j" by simp
    with r inv have "sql_get_job D tbl (job_id j) = Some j"
      unfolding sql_get_Some by (auto simp: find_row_Some sql_inv_def job_from_row_Inr)
    with r(2) j show "sql_get_job D tbl (job_id j) = Some j \<and>
        (ty = None \<or> ty = Some (job_type j)) \<and> (st = None \<or> st = Some (status j))" by (simp add: job_from_row_Inr)
  next
    assume a: "sql_get_job D tbl (job_id j) = Some j \<and>
        (ty = None \<or> ty = Some (job_type j)) \<and> (st = None \<or> st = Some (status j))"
    then obtain r where r: "find_row tbl (job_id j) = Some r" "job_from_row D r = Inr j" by (auto simp: sql_get_Some)
    have "r \<in> set tbl" using find_row_in [OF r(1)] by simp
    moreover have "?hit r" using a r(2) by (simp add: job_from_row_Inr)
    ultimately have "r \<in> set ?rs" by simp
    moreover have "j = ?f r" using r(2) by simp
    ultimately show "j \<in> set (map ?f ?rs)" by (simp del: set_sort)
  qed
  moreover have "distinct (map job_id (map ?f ?rs))" unfolding ids by (rule d)
  ultimately show ?thesis using js by blast
qed

sublocale sql_database \<subseteq> settling: settling_queue_laws "sql_settling D" "sql_inv D"
proof (intro settling_queue_laws.intro settling_queue_laws_axioms.intro, unfold settling_simps)
  show "job_queue_laws (sql_ops D) (sql_inv D)" by (rule job_queue_laws_axioms)
next
  fix s :: table and i j e f n j' s' p ty st
  assume inv: "sql_inv D s"
  show "select_job D s i = Inr (q_get (sql_ops D) s i)"
    using select_job_Some [of D s i] select_job_None [OF inv, of i] by (cases "sql_get_job D s i") auto
  show "\<exists>js. sql_list_jobs D s ty st = Inr js \<and> distinct (map job_id js) \<and>
      (\<forall>j. j \<in> set js \<longleftrightarrow> q_get (sql_ops D) s (job_id j) = Some j \<and>
        (ty = None \<or> ty = Some (job_type j)) \<and> (st = None \<or> st = Some (status j)))"
    using sql_list_law [OF inv] by simp
  show "sql_inv D s' \<and> status j' = FAILED \<and> dead_with e j' \<and>
      (\<exists>j. q_get (sql_ops D) s i = Some j \<and> job_step j j') \<and> q_get (sql_ops D) s' = (q_get (sql_ops D) s)(i := Some j')"
    if *: "sql_dead_letter D s i e f n = Inr (j', s')"
  proof -
    obtain j dec t where j: "sql_get_job D s i = Some j" "plan_job_dead_letter j e f n = Inr dec" "sql_inv D s'"
      "sql_get_job D s' = (sql_get_job D s)(i := Some j')" "j' = decided_job j dec t t"
      by (rule sql_dead_letter_Inr [OF inv *])
    note p = plan_job_dead_letter_Inr [OF j(2)]
    from p have "job_step j j'" by (simp add: j(5) step_finish TERMINAL_JOB_STATUSES_def)
    with j p plan_job_dead_letter_dead [OF j(2)] show ?thesis by (auto simp: dead_with_def)
  qed
  show "\<exists>r. sql_dead_letter D s i e f n = Inr r"
    if run: "q_get (sql_ops D) s i = Some j" "status j = RUNNING" "good_time (or_default f n)"
      "\<exists>d. normalize_job_error e False = Inr d"
  proof -
    have "job_wf j" using run(1) sql_get_wf [of D s i j] by simp
    with run obtain dec where dec: "plan_job_dead_letter j e f n = Inr dec"
      using plan_job_dead_letter_total by blast
    note p = plan_job_dead_letter_Inr [OF dec]
    obtain t where t: "db_time D (or_default f n) = Some t" using run(3) good_timeE db_reads by metis
    obtain d where d: "decided_error dec = PDict d" using plan_job_dead_letter_error [OF dec] by blast
    have j: "sql_get_job D s i = Some j" using run(1) by simp
    have f: "db_time D (failed_at dec) = Some t" using p t by simp
    have w: "(if action dec = REQUEUE then decided_available_at dec else Some (failed_at dec)) = Some (failed_at dec)"
      using p by simp
    have "\<exists>t'. update_job_retry_decision D s j dec = Inr t' \<and> stored_job D t' i = Inr (decided_job j dec t t, t')"
      using retry_update_forward [OF inv j d f w f] by blast
    with run(1) dec show ?thesis by (auto simp: sql_dead_letter_def select_job_Some [THEN iffD2])
  qed
  show "dead_with e j'" if *: "q_retry (sql_ops D) s i e f p n = Inr (j', s')" and st: "status j' = FAILED"
  proof -
    from * have "sql_retry D s i e f p n = Inr (j', s')" by simp
    from sql_retry_Inr [OF inv this] obtain j dec t a where dec: "plan_job_retry j e f n p = Inr dec"
      "j' = decided_job j dec a t" by metis
    with st have "action dec \<noteq> REQUEUE" by auto
    with plan_job_retry_dead [OF dec(1)] dec(2) show ?thesis by (simp add: dead_with_def)
  qed
next
  show "q_retry (sql_ops D) s i e f (Some default_retry_policy) n = q_retry (sql_ops D) s i e f None n" for s i e f n
    by (simp only: sql_ops_simps sql_retry_def plan_job_retry_default_policy)
qed

subsection \<open>Both queues settle alike\<close>

lemma stored_error_dict: "stored_form D j = Inr k \<Longrightarrow> error j = PDict e \<Longrightarrow> error k = error j"
  by (auto simp: stored_form_Inr)

lemma requeued_time:
  assumes "stored_form (wire_database loads) j = Inr k" "available_at j = Some (wire_timestamp t)" "in_range t"
  shows "available_at k = available_at j"
  using assms by (auto simp: stored_form_Inr effective_available_def wire_database_def)

lemma retried_fields:
  assumes "retry_job q i e f p n = Inr (j, q')"
  shows "\<exists>d. error j = PDict d" "status j = QUEUED \<Longrightarrow> \<exists>t. available_at j = Some (wire_timestamp t) \<and> in_range t"
proof -
  from assms obtain j0 dec where dec: "plan_job_retry j0 e f n p = Inr dec"
    and j: "j = (if action dec = REQUEUE
        then j0\<lparr>updated_at := failed_at dec, error := decided_error dec, status := QUEUED,
               available_at := decided_available_at dec\<rparr>
        else j0\<lparr>updated_at := failed_at dec, error := decided_error dec, status := FAILED,
               retryable := False, available_at := Some (failed_at dec)\<rparr>)"
    by (auto simp: retry_job_def Let_def res_simps)
  show "\<exists>d. error j = PDict d" using plan_job_retry_error [OF dec] by (auto simp: j)
  assume "status j = QUEUED"
  then have "action dec = REQUEUE" by (auto simp: j split: if_splits)
  then show "\<exists>t. available_at j = Some (wire_timestamp t) \<and> in_range t"
    using plan_job_retry_Inr(4,5) [OF dec] by (fastforce simp: j add_seconds_Inr)
qed

lemma dead_fields: "dead_letter_job q i e f n = Inr (j, q') \<Longrightarrow> status j = FAILED \<and> (\<exists>d. error j = PDict d)"
  by (auto simp: dead_letter_job_def Let_def res_simps dest: plan_job_dead_letter_error)

lemma settlement_sim:
  assumes sim: "sql_sim (wire_database loads) q tbl" and w: "db_time (wire_database loads) (or_default (Some failed) now) \<noteq> None"
  shows "case settle_worker_failure memory_settling q job fl failed pol now of
      Inl e \<Rightarrow> settle_worker_failure (sql_settling (wire_database loads)) tbl job fl failed pol now = Inl e
    | Inr (r, q') \<Rightarrow> \<exists>tbl'. settle_worker_failure (sql_settling (wire_database loads)) tbl job fl failed pol now = Inr (r, tbl') \<and>
        sql_sim (wire_database loads) q' tbl'"
proof -
  let ?D = "wire_database loads"
  have calls: "case m of Inl e \<Rightarrow> s = Inl e
    | Inr (j, q') \<Rightarrow> \<exists>k t. s = Inr (k, t) \<and> sql_sim ?D q' t \<and> job_type k = job_type j \<and> status k = status j \<and>
        attempt_count k = attempt_count j \<and> max_attempts k = max_attempts j \<and> error k = error j \<and>
        (status j = QUEUED \<longrightarrow> available_at k = available_at j)"
    if "sim_result ?D m s" "\<And>j q'. m = Inr (j, q') \<Longrightarrow> (\<exists>d. error j = PDict d) \<and>
      (status j = QUEUED \<longrightarrow> (\<exists>t. available_at j = Some (wire_timestamp t) \<and> in_range t))" for m s
  proof (cases m)
    case (Inl e)
    with that(1) show ?thesis by (simp add: sim_result_def)
  next
    case (Inr p)
    obtain j q' where m: "m = Inr (j, q')" using Inr by (cases p) auto
    with that(1) obtain k t where k: "stored_form ?D j = Inr k" "s = Inr (k, t)" "sql_sim ?D q' t"
      by (auto simp: sim_result_def)
    note f = that(2) [OF m]
    have "error k = error j" using stored_error_dict [OF k(1)] f by blast
    moreover have "status j = QUEUED \<Longrightarrow> available_at k = available_at j" using requeued_time [OF k(1)] f by blast
    moreover have "job_type k = job_type j" "status k = status j" "attempt_count k = attempt_count j" "max_attempts k = max_attempts j"
      using k(1) by (auto simp: stored_form_Inr)
    ultimately show ?thesis using m k by auto
  qed
  note retry = calls [OF wire.sim_retry [OF sim w]] and dead = calls [OF sim_dead_letter [OF sim w]]
  show ?thesis
  proof (cases "classify_worker_failure fl pol")
    case (Inl e)
    then show ?thesis by (simp add: settle_worker_failure_def)
  next
    case (Inr c)
    obtain err where err: "build_job_error (wc_code c) SAFE_FAILURE_DETAIL (wc_retryable c) False = Inr err"
      unfolding classify_Inr(1) [OF Inr] using safe_error_parts [of fl "wc_retryable c"] by metis
    show ?thesis
    proof (cases "resilience_string (job_id job) ''job_id''")
      case (Inl e)
      with Inr err show ?thesis by (simp add: settle_worker_failure_def)
    next
      case i: (Inr i)
      define mm where "mm = (if wc_retryable c then
                 sbind (retry_policy (resolved_policy pol)) (\<lambda>p. retry_job q i (Some err) (Some failed) (Some p) now)
               else dead_letter_job q i (Some err) (Some failed) now)"
      define ss where "ss = (if wc_retryable c then
                 sbind (retry_policy (resolved_policy pol)) (\<lambda>p. sql_retry ?D tbl i (Some err) (Some failed) (Some p) now)
               else sql_dead_letter ?D tbl i (Some err) (Some failed) now)"
      have ms: "case mm of Inl e \<Rightarrow> ss = Inl e
        | Inr (j, q') \<Rightarrow> \<exists>k t. ss = Inr (k, t) \<and> sql_sim ?D q' t \<and> job_type k = job_type j \<and> status k = status j \<and>
            attempt_count k = attempt_count j \<and> max_attempts k = max_attempts j \<and> error k = error j \<and>
            (status j = QUEUED \<longrightarrow> available_at k = available_at j)"
      proof (cases "wc_retryable c")
        case True
        show ?thesis
        proof (cases "retry_policy (resolved_policy pol)")
          case (Inl e)
          then show ?thesis by (simp add: mm_def ss_def True)
        next
          case (Inr p)
          have "mm = retry_job q i (Some err) (Some failed) (Some p) now" using True Inr by (simp add: mm_def)
          moreover have "ss = sql_retry ?D tbl i (Some err) (Some failed) (Some p) now" using True Inr by (simp add: ss_def)
          moreover note retry [of i "Some err" "Some p"] retried_fields [of q i "Some err" "Some failed" "Some p" now]
          ultimately show ?thesis by (cases mm) auto
        qed
      next
        case False
        have "mm = dead_letter_job q i (Some err) (Some failed) now" using False by (simp add: mm_def)
        moreover have "ss = sql_dead_letter ?D tbl i (Some err) (Some failed) now" using False by (simp add: ss_def)
        moreover note dead [of i "Some err"] dead_fields [of q i "Some err" "Some failed" now]
        ultimately show ?thesis by (cases mm) auto
      qed
      show ?thesis
        using Inr err i ms unfolding settle_worker_failure_def settling_simps memory_ops_simps sql_ops_simps
        by (cases mm) (auto simp: mm_def [symmetric] ss_def [symmetric] Let_def split: prod.splits)
    qed
  qed
qed

end
