(* ===== verification/Worker_Reconciliation.thy ===== *)
theory Worker_Reconciliation
  imports Worker_Resilience Worker_Leases Worker_Heartbeats
begin

section \<open>Reconciling the jobs of lost CX workers\<close>

text \<open>
  \<^verbatim>\<open>services/nex-cx/nex_cx/worker_reconciliation.py\<close>: a plan compares every running job with its
  lease (the columns of its row) and with the heartbeat of the lease's owner; applying a plan settles
  the jobs it marks for recovery, through a handler of their type or as a failure of the worker. The
  plan reads the table of the SQL queue and the in-memory heartbeat store; applying it works on any
  settling queue. A plan is a dictionary the caller may keep, so applying reads a dictionary again.
  Applying is not one transaction: an error leaves what was settled before it, so its result comes
  with the state it leaves. A recovery handler is a function of the job, the time and the state.
\<close>

subsection \<open>Errors\<close>

datatype recon_exn =
    ReconError string string int bool
  | Recon_Heartbeat heartbeat_exn
  | Recon_Raised job_exn

abbreviation recon_error :: "string \<Rightarrow> string \<Rightarrow> int \<Rightarrow> bool \<Rightarrow> recon_exn" where
  "recon_error c d s r \<equiv> ReconError (''cx.worker_reconciliation.'' @ c) d s r"

fun dependency_error :: "string \<Rightarrow> job_exn \<Rightarrow> recon_exn" where
  "dependency_error c (JobQueueError _ d sc) = recon_error c d sc (sc \<ge> 500)"
| "dependency_error c (Py e) = Recon_Raised (Py e)"

fun lease_read_error :: "lease_exn \<Rightarrow> recon_exn" where
  "lease_read_error (LeaseError _ d sc r) = recon_error ''lease_read_failed'' d sc r"
| "lease_read_error (Lease_Py e) = Recon_Raised (Py e)"

fun heartbeat_read_error :: "heartbeat_exn \<Rightarrow> recon_exn" where
  "heartbeat_read_error (HeartbeatError _ d sc) = recon_error ''heartbeat_read_failed'' d sc (sc \<ge> 500)"
| "heartbeat_read_error (Heartbeat_Py e) = Recon_Raised (Py e)"

fun settlement_failed :: "resilience_exn \<Rightarrow> recon_exn" where
  "settlement_failed (ResilienceError _ d sc r) = recon_error ''settlement_failed'' d sc r"
| "settlement_failed (Resilience_Other e) = Recon_Raised e"

fun recon_string :: "pyval \<Rightarrow> string \<Rightarrow> recon_exn + string" where
  "recon_string (PStr s) f =
     (if py_strip s = [] then Inl (recon_error ''field_invalid'' (f @ '' must be a non-empty string.'') 422 False)
      else Inr (py_strip s))"
| "recon_string _ f = Inl (recon_error ''field_invalid'' (f @ '' must be a non-empty string.'') 422 False)"

subsection \<open>The plan\<close>

datatype recon_action = RECOVER | WAIT_LEASE | WAIT_HEARTBEAT | HEALTHY | MANUAL_REVIEW

fun recon_action_text :: "recon_action \<Rightarrow> string" where
  "recon_action_text RECOVER = ''RECOVER''"
| "recon_action_text WAIT_LEASE = ''WAIT_LEASE''"
| "recon_action_text WAIT_HEARTBEAT = ''WAIT_HEARTBEAT''"
| "recon_action_text HEALTHY = ''HEALTHY''"
| "recon_action_text MANUAL_REVIEW = ''MANUAL_REVIEW''"

definition RECONCILIATION_SCHEMA :: string where
  "RECONCILIATION_SCHEMA = ''cx_worker_reconciliation_plan.v1''"

definition SPECIALIZED_RECOVERY_JOB_TYPES :: "string list" where
  "SPECIALIZED_RECOVERY_JOB_TYPES = [''cx.document_ingestion'', ''cx.grounded-generation.execute'']"

record plan_entry =
  pe_job :: string
  pe_type :: string
  pe_worker :: "string option"
  pe_action :: recon_action
  pe_reason :: string
  pe_expires :: "int option"
  pe_expired :: "bool option"
  pe_heartbeat :: "heartbeat_status option"
  pe_seen :: "string option"

record recon_plan =
  pl_observed :: string
  pl_entries :: "plan_entry list"

definition plan_entry_for ::
  "common_job \<Rightarrow> recon_action \<Rightarrow> string \<Rightarrow> lease option \<Rightarrow> heartbeat option \<Rightarrow> recon_exn + plan_entry" where
  "plan_entry_for job act reason l hb =
     sbind (recon_string (PStr (job_id job)) ''job_id'') (\<lambda>i.
     sbind (recon_string (PStr (job_type job)) ''job_type'') (\<lambda>ty.
     Inr \<lparr>pe_job = i, pe_type = ty, pe_worker = (case l of None \<Rightarrow> None | Some l \<Rightarrow> le_worker l), pe_action = act,
          pe_reason = reason, pe_expires = (case l of None \<Rightarrow> None | Some l \<Rightarrow> le_expires l),
          pe_expired = (case l of None \<Rightarrow> None | Some l \<Rightarrow> Some (le_expired l)),
          pe_heartbeat = map_option hb_status hb, pe_seen = map_option hb_seen hb\<rparr>))"

text \<open>
  Whether the worker still reports: only an active heartbeat is checked for staleness, and the
  error of that check is not translated.
\<close>

definition heartbeat_available :: "heartbeat option \<Rightarrow> int \<Rightarrow> string \<Rightarrow> heartbeat_exn + bool" where
  "heartbeat_available hb stale_after observed =
     (case hb of
        None \<Rightarrow> Inr False
      | Some h \<Rightarrow>
          if hb_status h \<in> set ACTIVE_WORKER_HEARTBEAT_STATUSES
          then sbind (worker_heartbeat_is_stale h stale_after (Some observed) 0) (\<lambda>old. Inr (\<not> old))
          else Inr False)"

definition decide :: "bool \<Rightarrow> bool \<Rightarrow> recon_action \<times> string" where
  "decide expired available =
     (if expired \<and> \<not> available then (RECOVER, ''lease_expired_heartbeat_unavailable'')
      else if expired then (WAIT_HEARTBEAT, ''lease_expired_heartbeat_fresh'')
      else if \<not> available then (WAIT_LEASE, ''heartbeat_unavailable_lease_active'')
      else (HEALTHY, ''lease_and_heartbeat_active''))"

definition plan_job ::
  "table \<Rightarrow> heartbeat_store \<Rightarrow> string \<Rightarrow> int option \<Rightarrow> int \<Rightarrow> string \<Rightarrow> common_job \<Rightarrow> recon_exn + plan_entry" where
  "plan_job tbl hbs observed ttl stale_after now job =
     sbind (recon_string (PStr (job_id job)) ''job_id'') (\<lambda>i.
     sbind (map_err lease_read_error (inspect tbl i ttl (Some observed) now)) (\<lambda>found.
       case (case found of None \<Rightarrow> None
             | Some l \<Rightarrow> (case (le_worker l, le_locked l) of (Some w, Some _) \<Rightarrow> Some (l, w) | _ \<Rightarrow> None)) of
         None \<Rightarrow> plan_entry_for job MANUAL_REVIEW ''durable_lease_missing'' found None
       | Some (l, w) \<Rightarrow>
           sbind (map_err heartbeat_read_error (get_heartbeat hbs ''nex-cx'' w)) (\<lambda>hb.
           sbind (map_err Recon_Heartbeat (heartbeat_available hb stale_after observed)) (\<lambda>available.
           let (act, reason) = decide (le_expired l) available in
           plan_entry_for job act reason (Some l) hb))))"

fun plan_jobs ::
  "table \<Rightarrow> heartbeat_store \<Rightarrow> string \<Rightarrow> int option \<Rightarrow> int \<Rightarrow> string \<Rightarrow> common_job list
    \<Rightarrow> recon_exn + plan_entry list" where
  "plan_jobs tbl hbs observed ttl stale_after now [] = Inr []"
| "plan_jobs tbl hbs observed ttl stale_after now (j # js) =
     sbind (plan_job tbl hbs observed ttl stale_after now j) (\<lambda>e.
     sbind (plan_jobs tbl hbs observed ttl stale_after now js) (\<lambda>es. Inr (e # es)))"

definition build_worker_reconciliation_plan ::
  "database \<Rightarrow> table \<Rightarrow> heartbeat_store \<Rightarrow> string \<Rightarrow> int option \<Rightarrow> int \<Rightarrow> string \<Rightarrow> recon_exn + recon_plan" where
  "build_worker_reconciliation_plan D tbl hbs observed ttl stale_after now =
     sbind (map_err (dependency_error ''job_list_failed'') (sql_list_jobs D tbl None (Some RUNNING))) (\<lambda>js.
     sbind (plan_jobs tbl hbs observed ttl stale_after now js) (\<lambda>es.
     Inr \<lparr>pl_observed = observed, pl_entries = es\<rparr>))"

text \<open>The dictionaries the plan and its entries travel as.\<close>

definition entry_to_dict :: "plan_entry \<Rightarrow> pydict" where
  "entry_to_dict e =
     [(''job_id'', PStr (pe_job e)), (''job_type'', PStr (pe_type e)), (''worker_id'', opt_value (pe_worker e)),
      (''action'', PStr (recon_action_text (pe_action e))), (''reason_code'', PStr (pe_reason e)),
      (''lease_expires_at'', opt_value (map_option wire_timestamp (pe_expires e))),
      (''lease_expired'', (case pe_expired e of None \<Rightarrow> PNone | Some b \<Rightarrow> PBool b)),
      (''heartbeat_status'', opt_value (map_option heartbeat_status_text (pe_heartbeat e))),
      (''heartbeat_last_seen_at'', opt_value (pe_seen e))]"

definition count_action :: "recon_action \<Rightarrow> plan_entry list \<Rightarrow> int" where
  "count_action a es = int (length (filter (\<lambda>e. pe_action e = a) es))"

definition plan_to_dict :: "recon_plan \<Rightarrow> pydict" where
  "plan_to_dict p =
     [(''reconciliation_schema_version'', PStr RECONCILIATION_SCHEMA), (''observed_at'', PStr (pl_observed p)),
      (''running_job_count'', PInt (int (length (pl_entries p)))),
      (''recoverable_count'', PInt (count_action RECOVER (pl_entries p))),
      (''manual_review_count'', PInt (count_action MANUAL_REVIEW (pl_entries p))),
      (''entries'', PList (map (\<lambda>e. PDict (entry_to_dict e)) (pl_entries p)))]"

subsection \<open>Applying a plan\<close>

text \<open>What \<open>getattr\<close> finds on an exception of a recovery handler.\<close>

record handler_failure =
  hf_detail :: "pyval option"
  hf_status :: "int option"
  hf_retryable :: "pyval option"

type_synonym 's recovery_handler = "common_job \<Rightarrow> string \<Rightarrow> 's \<Rightarrow> (handler_failure + pydict) \<times> 's"

definition handler_error :: "handler_failure \<Rightarrow> recon_exn" where
  "handler_error f =
     recon_error ''handler_failed''
       (case hf_detail f of None \<Rightarrow> ''Worker recovery handler failed.'' | Some v \<Rightarrow> py_text v)
       (case hf_status f of None \<Rightarrow> 500 | Some n \<Rightarrow> n)
       (case hf_retryable f of None \<Rightarrow> True | Some v \<Rightarrow> truthy v)"

text \<open>\<open>ExpiredWorkerLeaseFailure\<close>.\<close>

definition expired_worker_lease_failure :: worker_failure where
  "expired_worker_lease_failure =
     \<lparr>fl_code = PStr ''cx.worker_reconciliation.lease_expired'', fl_class = PStr ''dependency'',
      fl_retryable = PBool True, fl_status = PInt 503\<rparr>"

record recovery =
  rv_job :: string
  rv_type :: string
  rv_result :: string
  rv_status :: "pyval option"

definition apply_entry ::
  "'s settling_queue \<Rightarrow> (string \<Rightarrow> 's recovery_handler option) \<Rightarrow> string \<Rightarrow> string \<Rightarrow> pydict \<Rightarrow> 's
    \<Rightarrow> (recon_exn + recovery) \<times> 's" where
  "apply_entry Q handlers observed now entry s =
     (case sbind (recon_string (dget entry ''job_id'') ''job_id'') (\<lambda>i.
           sbind (recon_string (dget entry ''job_type'') ''job_type'') (\<lambda>ty.
           sbind (map_err (dependency_error ''job_read_failed'') (sq_read Q s i)) (\<lambda>found.
             Inr (i, ty, found)))) of
        Inl e \<Rightarrow> (Inl e, s)
      | Inr (i, ty, found) \<Rightarrow>
          (case (case found of None \<Rightarrow> None | Some j \<Rightarrow> if status j = RUNNING then Some j else None) of
             None \<Rightarrow> (Inr \<lparr>rv_job = i, rv_type = ty, rv_result = ''ALREADY_SETTLED'', rv_status = None\<rparr>, s)
           | Some job \<Rightarrow>
               (case handlers ty of
                  Some h \<Rightarrow>
                    (case h job observed s of
                       (Inl f, s') \<Rightarrow> (Inl (handler_error f), s')
                     | (Inr d, s') \<Rightarrow>
                         (Inr \<lparr>rv_job = i, rv_type = ty, rv_result = ''HANDLED'', rv_status = Some (dget d ''status'')\<rparr>, s'))
                | None \<Rightarrow>
                    if ty \<in> set SPECIALIZED_RECOVERY_JOB_TYPES then
                      (Inr \<lparr>rv_job = i, rv_type = ty, rv_result = ''HANDLER_REQUIRED'', rv_status = None\<rparr>, s)
                    else
                      (case settle_worker_failure Q s job expired_worker_lease_failure observed None now of
                         Inl e \<Rightarrow> (Inl (settlement_failed e), s)
                       | Inr (st, s') \<Rightarrow>
                           (Inr \<lparr>rv_job = i, rv_type = ty, rv_result = settlement_text (st_action st), rv_status = None\<rparr>, s')))))"

fun apply_entries ::
  "'s settling_queue \<Rightarrow> (string \<Rightarrow> 's recovery_handler option) \<Rightarrow> string \<Rightarrow> string \<Rightarrow> pyval list \<Rightarrow> 's
    \<Rightarrow> (recon_exn + recovery list) \<times> 's" where
  "apply_entries Q handlers observed now [] s = (Inr [], s)"
| "apply_entries Q handlers observed now (PDict entry # es) s =
     (if dget entry ''action'' \<noteq> PStr (recon_action_text RECOVER) then apply_entries Q handlers observed now es s
      else (case apply_entry Q handlers observed now entry s of
              (Inl e, s') \<Rightarrow> (Inl e, s')
            | (Inr r, s') \<Rightarrow>
                (case apply_entries Q handlers observed now es s' of
                   (Inl e, s'') \<Rightarrow> (Inl e, s'')
                 | (Inr rs, s'') \<Rightarrow> (Inr (r # rs), s''))))"
| "apply_entries Q handlers observed now (_ # es) s = apply_entries Q handlers observed now es s"

record recon_report =
  rr_observed :: string
  rr_results :: "recovery list"

definition apply_worker_reconciliation_plan ::
  "'s settling_queue \<Rightarrow> (string \<Rightarrow> 's recovery_handler option) \<Rightarrow> string \<Rightarrow> pydict \<Rightarrow> 's
    \<Rightarrow> (recon_exn + recon_report) \<times> 's" where
  "apply_worker_reconciliation_plan Q handlers now plan s =
     (if dget plan ''reconciliation_schema_version'' \<noteq> PStr RECONCILIATION_SCHEMA then
        (Inl (recon_error ''plan_invalid'' ''The worker reconciliation plan is invalid.'' 422 False), s)
      else
        (case recon_string (dget plan ''observed_at'') ''observed_at'' of
           Inl e \<Rightarrow> (Inl e, s)
         | Inr observed \<Rightarrow>
             (case dget plan ''entries'' of
                PList es \<Rightarrow>
                  (case apply_entries Q handlers observed now es s of
                     (Inl e, s') \<Rightarrow> (Inl e, s')
                   | (Inr rs, s') \<Rightarrow> (Inr \<lparr>rr_observed = observed, rr_results = rs\<rparr>, s'))
              | _ \<Rightarrow> (Inl (recon_error ''plan_invalid'' ''The worker reconciliation entries must be a list.'' 422 False), s))))"

subsection \<open>What a plan says\<close>

lemma recon_string_Inr [res_simps]: "recon_string v f = Inr x \<longleftrightarrow> (\<exists>s. v = PStr s \<and> x = py_strip s \<and> x \<noteq> [])"
  by (cases v) auto

text \<open>Whether the owner of a lease reports at an instant.\<close>

definition reporting :: "heartbeat_store \<Rightarrow> string \<Rightarrow> int \<Rightarrow> int \<Rightarrow> bool" where
  "reporting hbs w stale_after obs \<longleftrightarrow>
     (\<exists>h t. map_of hbs (''nex-cx'', w) = Some h \<and> hb_status h \<in> set ACTIVE_WORKER_HEARTBEAT_STATUSES \<and>
        parse_wire_datetime (hb_seen h) = Inr t \<and> obs \<le> t + normalize_worker_stale_after_seconds stale_after * 1000000)"

text \<open>The action the state of a row calls for.\<close>

definition row_action :: "heartbeat_store \<Rightarrow> int \<Rightarrow> int \<Rightarrow> int \<Rightarrow> job_row \<Rightarrow> recon_action" where
  "row_action hbs ttl stale_after obs r =
     (case (row_locked_by r, row_locked_at r) of
        (Some w, Some t) \<Rightarrow>
          if w = [] then MANUAL_REVIEW
          else fst (decide (t + ttl * 1000000 \<le> obs) (reporting hbs w stale_after obs))
      | _ \<Rightarrow> MANUAL_REVIEW)"

abbreviation ttl_of :: "int option \<Rightarrow> int" where
  "ttl_of ttl \<equiv> case ttl of None \<Rightarrow> default_lease_ttl | Some t \<Rightarrow> t"

lemma heartbeat_available_Inr:
  assumes "store_inv hbs" "parse_wire_datetime observed = Inr obs"
    and "heartbeat_available (map_of hbs (''nex-cx'', w)) stale_after observed = Inr b"
  shows "b \<longleftrightarrow> reporting hbs w stale_after obs"
proof (cases "map_of hbs (''nex-cx'', w)")
  case None
  with assms(3) show ?thesis by (simp add: heartbeat_available_def reporting_def)
next
  case (Some h)
  then have wf: "heartbeat_wf h" using assms(1) unfolding store_inv_def by blast
  obtain t where t: "parse_wire_datetime (hb_seen h) = Inr t" using heartbeat_wf_times [OF wf] by blast
  show ?thesis
  proof (cases "hb_status h \<in> set ACTIVE_WORKER_HEARTBEAT_STATUSES")
    case True
    then obtain old where "worker_heartbeat_is_stale h stale_after (Some observed) 0 = Inr old" "b = (\<not> old)"
      using assms(3) Some by (auto simp: heartbeat_available_def res_simps)
    then have "b \<longleftrightarrow> \<not> (t + normalize_worker_stale_after_seconds stale_after * 1000000 < obs)"
      using stale_Inr(1) [OF wf t, of stale_after observed 0 old] assms(2) by auto
    moreover have "reporting hbs w stale_after obs \<longleftrightarrow> obs \<le> t + normalize_worker_stale_after_seconds stale_after * 1000000"
      using Some True t by (simp add: reporting_def del: map_of_eq_Some_iff)
    ultimately show ?thesis by linarith
  next
    case False
    with assms(3) Some show ?thesis by (simp add: heartbeat_available_def reporting_def del: map_of_eq_Some_iff)
  qed
qed

lemma heartbeat_available_total:
  assumes "store_inv hbs" "parse_wire_datetime observed = Inr obs" "observed \<noteq> []"
  shows "\<exists>b. heartbeat_available (map_of hbs (''nex-cx'', w)) stale_after observed = Inr b"
proof (cases "map_of hbs (''nex-cx'', w)")
  case (Some h)
  then have wf: "heartbeat_wf h" using assms(1) unfolding store_inv_def by blast
  obtain t where t: "parse_wire_datetime (hb_seen h) = Inr t" using heartbeat_wf_times [OF wf] by blast
  have "\<exists>b. worker_heartbeat_is_stale h stale_after (Some observed) 0 = Inr b"
    using stale_Inr(1) [OF wf t, of stale_after observed 0] assms(2,3) by blast
  then show ?thesis by (auto simp: heartbeat_available_def Some)
qed (auto simp: heartbeat_available_def)

lemma get_heartbeat_cx: "w \<noteq> [] \<Longrightarrow> get_heartbeat hbs ''nex-cx'' w = Inr (map_of hbs (''nex-cx'', w))"
  by (simp add: get_heartbeat_def validate_service_id_def SERVICE_IDS_def)

lemma inspect_Inr_row:
  assumes "inspect tbl i ttl (Some observed) now = Inr found" "py_strip i = i" "observed \<noteq> []"
    and "parse_wire_datetime observed = Inr obs" "find_row tbl i = Some r"
  obtains l where "found = Some l" "lease_projection r (ttl_of ttl) obs = Inr l"
  using assms by (cases observed) (auto simp: inspect_def res_simps)

text \<open>The entry of a running job says what its row and its owner's heartbeat call for.\<close>

lemma plan_job_Inr:
  assumes ok: "plan_job tbl hbs observed ttl stale_after now j = Inr e"
    and row: "find_row tbl (job_id j) = Some r" "py_strip (job_id j) = job_id j"
    and obs: "parse_wire_datetime observed = Inr obs" "observed \<noteq> []" and hbs: "store_inv hbs"
  shows "pe_job e = job_id j \<and> pe_type e = py_strip (job_type j) \<and> pe_action e = row_action hbs (ttl_of ttl) stale_after obs r"
proof -
  from ok row(2) obtain found where f: "inspect tbl (job_id j) ttl (Some observed) now = Inr found"
    and rest: "(case (case found of None \<Rightarrow> None
             | Some l \<Rightarrow> (case (le_worker l, le_locked l) of (Some w, Some _) \<Rightarrow> Some (l, w) | _ \<Rightarrow> None)) of
         None \<Rightarrow> plan_entry_for j MANUAL_REVIEW ''durable_lease_missing'' found None
       | Some (l, w) \<Rightarrow>
           sbind (map_err heartbeat_read_error (get_heartbeat hbs ''nex-cx'' w)) (\<lambda>hb.
           sbind (map_err Recon_Heartbeat (heartbeat_available hb stale_after observed)) (\<lambda>available.
           let (act, reason) = decide (le_expired l) available in
           plan_entry_for j act reason (Some l) hb))) = Inr e"
    by (auto simp: plan_job_def res_simps)
  obtain l where l: "found = Some l" "lease_projection r (ttl_of ttl) obs = Inr l"
    by (rule inspect_Inr_row [OF f row(2) obs(2,1) row(1)])
  note proj = lease_projection_Inr [OF l(2)]
  have entry: "plan_entry_for j a re lo hb = Inr e \<Longrightarrow> pe_job e = job_id j \<and> pe_type e = py_strip (job_type j) \<and> pe_action e = a"
    for a re lo hb using row(2) by (auto simp: plan_entry_for_def res_simps)
  show ?thesis
  proof (cases "\<exists>w t. le_worker l = Some w \<and> le_locked l = Some t")
    case True
    then obtain w t where wt: "le_worker l = Some w" "le_locked l = Some t" by blast
    then have r: "row_locked_by r = Some w" "w \<noteq> []" "row_locked_at r = Some t" using proj by auto
    from rest wt l(1) obtain b where b: "heartbeat_available (map_of hbs (''nex-cx'', w)) stale_after observed = Inr b"
      and e: "plan_entry_for j (fst (decide (le_expired l) b)) (snd (decide (le_expired l) b)) (Some l)
        (map_of hbs (''nex-cx'', w)) = Inr e"
      by (auto simp: get_heartbeat_cx [OF r(2)] res_simps split_beta)
    have "le_expired l \<longleftrightarrow> t + ttl_of ttl * 1000000 \<le> obs" using proj r(3) by auto
    then show ?thesis
      using entry [OF e] heartbeat_available_Inr [OF hbs obs(1) b] r by (simp add: row_action_def)
  next
    case False
    then have "(case (le_worker l, le_locked l) of (Some w, Some _) \<Rightarrow> Some (l, w) | _ \<Rightarrow> None) = None"
      by (auto split: option.splits)
    with rest l(1) have e: "plan_entry_for j MANUAL_REVIEW ''durable_lease_missing'' found None = Inr e" by simp
    have "row_action hbs (ttl_of ttl) stale_after obs r = MANUAL_REVIEW"
      using False proj unfolding row_action_def by (auto split: option.splits)
    with entry [OF e] show ?thesis by simp
  qed
qed

lemma plan_jobs_Inr:
  "plan_jobs tbl hbs observed ttl stale_after now js = Inr es \<longleftrightarrow>
    list_all2 (\<lambda>j e. plan_job tbl hbs observed ttl stale_after now j = Inr e) js es"
  by (induction js arbitrary: es) (auto simp: res_simps list_all2_Cons1)

lemma plan_jobs_total:
  "\<forall>j \<in> set js. \<exists>e. plan_job tbl hbs observed ttl stale_after now j = Inr e \<Longrightarrow>
    \<exists>es. plan_jobs tbl hbs observed ttl stale_after now js = Inr es"
  by (induction js) auto

text \<open>The jobs whose worker is lost: the lease has run out and its owner does not report.\<close>

definition lost_job :: "table \<Rightarrow> heartbeat_store \<Rightarrow> int \<Rightarrow> int \<Rightarrow> int \<Rightarrow> string \<Rightarrow> bool" where
  "lost_job tbl hbs ttl stale_after obs i \<longleftrightarrow>
     (\<exists>r. find_row tbl i = Some r \<and> row_status r = RUNNING \<and> row_action hbs ttl stale_after obs r = RECOVER)"

lemma row_action_RECOVER:
  "row_action hbs ttl stale_after obs r = RECOVER \<longleftrightarrow>
    (\<exists>w t. row_locked_by r = Some w \<and> w \<noteq> [] \<and> row_locked_at r = Some t \<and> t + ttl * 1000000 \<le> obs \<and>
      \<not> reporting hbs w stale_after obs)"
  by (auto simp: row_action_def decide_def split: option.splits if_splits)

text \<open>Identifiers without surrounding blanks, which the code strips before it looks them up.\<close>

definition tidy_rows :: "table \<Rightarrow> bool" where
  "tidy_rows tbl \<longleftrightarrow> (\<forall>r \<in> set tbl. py_strip (row_job_id r) = row_job_id r \<and> py_strip (row_job_type r) = row_job_type r)"

lemma tidy_job:
  assumes "tidy_rows tbl" "sql_get_job D tbl i = Some j"
  shows "py_strip (job_id j) = job_id j" "py_strip (job_type j) = job_type j" "job_id j = i"
proof -
  obtain r where "find_row tbl i = Some r" "job_from_row D r = Inr j" using assms(2) by (auto simp: sql_get_Some)
  then show "py_strip (job_id j) = job_id j" "py_strip (job_type j) = job_type j" "job_id j = i"
    using assms(1) find_row_in [of tbl i r] by (auto simp: tidy_rows_def job_from_row_Inr)
qed

lemma plan_entries:
  assumes inv: "sql_inv D tbl" and tidy: "tidy_rows tbl" and hbs: "store_inv hbs"
    and obs: "parse_wire_datetime observed = Inr obs" "observed \<noteq> []"
    and ok: "build_worker_reconciliation_plan D tbl hbs observed ttl stale_after now = Inr p"
  obtains js where "sql_list_jobs D tbl None (Some RUNNING) = Inr js" "map pe_job (pl_entries p) = map job_id js"
    "distinct (map job_id js)" "pl_observed p = observed"
    "\<And>e. e \<in> set (pl_entries p) \<Longrightarrow> \<exists>j r. sql_get_job D tbl (pe_job e) = Some j \<and> status j = RUNNING \<and>
       find_row tbl (pe_job e) = Some r \<and> pe_type e = job_type j \<and>
       pe_action e = row_action hbs (ttl_of ttl) stale_after obs r"
    "\<And>i j. sql_get_job D tbl i = Some j \<Longrightarrow> status j = RUNNING \<Longrightarrow> \<exists>e \<in> set (pl_entries p). pe_job e = i"
proof -
  obtain js where js: "sql_list_jobs D tbl None (Some RUNNING) = Inr js" "distinct (map job_id js)"
    "\<And>j. j \<in> set js \<longleftrightarrow> sql_get_job D tbl (job_id j) = Some j \<and> status j = RUNNING"
    using sql_list_law [OF inv, of None "Some RUNNING"] by (auto simp: eq_commute [of RUNNING])
  from ok js(1) obtain es where es: "list_all2 (\<lambda>j e. plan_job tbl hbs observed ttl stale_after now j = Inr e) js es"
    and p: "p = \<lparr>pl_observed = observed, pl_entries = es\<rparr>"
    by (auto simp: build_worker_reconciliation_plan_def res_simps plan_jobs_Inr)
  have entry: "pe_job e = job_id j \<and> (\<exists>r. sql_get_job D tbl (pe_job e) = Some j \<and> status j = RUNNING \<and>
       find_row tbl (pe_job e) = Some r \<and> pe_type e = job_type j \<and>
       pe_action e = row_action hbs (ttl_of ttl) stale_after obs r)"
    if "j \<in> set js" "plan_job tbl hbs observed ttl stale_after now j = Inr e" for j e
  proof -
    have j: "sql_get_job D tbl (job_id j) = Some j" "status j = RUNNING" using that(1) js(3) by auto
    then obtain r where r: "find_row tbl (job_id j) = Some r" by (auto simp: sql_get_Some)
    show ?thesis
      using plan_job_Inr [OF that(2) r tidy_job(1) [OF tidy j(1)] obs hbs] tidy_job [OF tidy j(1)] j r by auto
  qed
  have ids: "map pe_job es = map job_id js"
    using es entry by (auto simp: list_eq_iff_nth_eq list_all2_conv_all_nth)
  show ?thesis
  proof (rule that [of js])
    show "\<exists>j r. sql_get_job D tbl (pe_job e) = Some j \<and> status j = RUNNING \<and>
       find_row tbl (pe_job e) = Some r \<and> pe_type e = job_type j \<and>
       pe_action e = row_action hbs (ttl_of ttl) stale_after obs r" if "e \<in> set (pl_entries p)" for e
    proof -
      from that es obtain n where "n < length es" "e = es ! n" "plan_job tbl hbs observed ttl stale_after now (js ! n) = Inr e"
        "n < length js" by (auto simp: p in_set_conv_nth list_all2_conv_all_nth)
      then show ?thesis using entry [of "js ! n" e] by auto
    qed
    show "\<exists>e \<in> set (pl_entries p). pe_job e = i" if "sql_get_job D tbl i = Some j" "status j = RUNNING" for i j
    proof -
      have "j \<in> set js" using that js(3) sql_get_wf [OF that(1)] by simp
      then have "i \<in> set (map job_id js)" using sql_get_wf [OF that(1)] by auto
      then show ?thesis unfolding ids [symmetric] by (auto simp: p)
    qed
  qed (simp_all add: p js ids)
qed

text \<open>When a plan can be made: every lease of a running job ends at a date.\<close>

lemma plan_total:
  assumes inv: "sql_inv D tbl" and tidy: "tidy_rows tbl" and hbs: "store_inv hbs"
    and obs: "parse_wire_datetime observed = Inr obs" "observed \<noteq> []"
    and leases: "\<forall>r \<in> set tbl. \<forall>t. row_status r = RUNNING \<and> row_locked_at r = Some t \<longrightarrow> in_range (t + ttl_of ttl * 1000000)"
  shows "\<exists>p. build_worker_reconciliation_plan D tbl hbs observed ttl stale_after now = Inr p"
proof -
  obtain js where js: "sql_list_jobs D tbl None (Some RUNNING) = Inr js"
    "\<And>j. j \<in> set js \<longleftrightarrow> sql_get_job D tbl (job_id j) = Some j \<and> status j = RUNNING"
    using sql_list_law [OF inv, of None "Some RUNNING"] by (auto simp: eq_commute [of RUNNING])
  have "\<exists>e. plan_job tbl hbs observed ttl stale_after now j = Inr e" if "j \<in> set js" for j
  proof -
    have j: "sql_get_job D tbl (job_id j) = Some j" "status j = RUNNING" using that js(2) by auto
    then obtain r where r: "find_row tbl (job_id j) = Some r" "row_status r = RUNNING"
      by (auto simp: sql_get_Some job_from_row_Inr)
    have wf: "job_id j \<noteq> []" "job_type j \<noteq> []" using sql_get_wf [OF j(1)] by (auto simp: job_wf_def)
    have entry: "\<exists>e. plan_entry_for j a re lo hb = Inr e" for a re lo hb
      using tidy_job [OF tidy j(1)] wf by (simp add: plan_entry_for_def)
    have "row_locked_at r = Some t \<Longrightarrow> in_range (t + ttl_of ttl * 1000000)" for t
      using leases r find_row_in [OF r(1)] by blast
    then obtain l where l: "lease_projection r (ttl_of ttl) obs = Inr l"
      by (cases "row_locked_at r") (auto simp: lease_projection_def Let_def)
    have i: "inspect tbl (job_id j) ttl (Some observed) now = Inr (Some l)"
      using tidy_job [OF tidy j(1)] wf obs r l
      by (cases observed) (auto simp: inspect_def lease_string_def lease_time_def)
    have rs: "recon_string (PStr (job_id j)) ''job_id'' = Inr (job_id j)"
      using tidy_job [OF tidy j(1)] wf by simp
    show ?thesis
    proof (cases "\<exists>w t. le_worker l = Some w \<and> le_locked l = Some t")
      case True
      then obtain w t where wt: "le_worker l = Some w" "le_locked l = Some t" by blast
      then have "w \<noteq> []" using lease_projection_Inr [OF l] by auto
      from get_heartbeat_cx [OF this, of hbs] obtain b where
        "get_heartbeat hbs ''nex-cx'' w = Inr (map_of hbs (''nex-cx'', w))"
        "heartbeat_available (map_of hbs (''nex-cx'', w)) stale_after observed = Inr b"
        using heartbeat_available_total [OF hbs obs] by blast
      with i rs wt entry [of "fst (decide (le_expired l) b)" "snd (decide (le_expired l) b)" "Some l"
          "map_of hbs (''nex-cx'', w)"]
      show ?thesis by (simp add: plan_job_def split_beta)
    next
      case False
      then have "(case (le_worker l, le_locked l) of (Some w, Some _) \<Rightarrow> Some (l, w) | _ \<Rightarrow> None) = None"
        by (auto split: option.splits)
      with i rs entry [of MANUAL_REVIEW "''durable_lease_missing''" "Some l" None]
      show ?thesis by (simp add: plan_job_def)
    qed
  qed
  with plan_jobs_total js(1) show ?thesis by (fastforce simp: build_worker_reconciliation_plan_def)
qed

subsection \<open>What applying a plan does\<close>

text \<open>
  Between two states a running job may have settled, by one step, and nothing else has changed.
  A settled job does not run, so the relation composes.
\<close>

definition settled_from :: "(string \<Rightarrow> common_job option) \<Rightarrow> (string \<Rightarrow> common_job option) \<Rightarrow> bool" where
  "settled_from g g' \<longleftrightarrow> (\<forall>i. g' i = g i \<or>
     (\<exists>j j'. g i = Some j \<and> status j = RUNNING \<and> g' i = Some j' \<and> job_step j j' \<and> status j' \<noteq> RUNNING))"

lemma settled_refl [simp]: "settled_from g g"
  by (simp add: settled_from_def)

lemma settled_trans:
  assumes "settled_from g h" "settled_from h k"
  shows "settled_from g k"
  unfolding settled_from_def
proof
  fix i
  show "k i = g i \<or> (\<exists>j j'. g i = Some j \<and> status j = RUNNING \<and> k i = Some j' \<and> job_step j j' \<and> status j' \<noteq> RUNNING)"
  proof (cases "h i = g i")
    case True
    then show ?thesis using assms(2) unfolding settled_from_def by metis
  next
    case False
    then obtain j j' where j: "g i = Some j" "status j = RUNNING" "h i = Some j'" "job_step j j'" "status j' \<noteq> RUNNING"
      using assms(1) unfolding settled_from_def by metis
    then have "k i = h i" using assms(2) unfolding settled_from_def by (metis option.inject)
    with j show ?thesis by metis
  qed
qed

definition runs :: "(string \<Rightarrow> common_job option) \<Rightarrow> string \<Rightarrow> bool" where
  "runs g i \<longleftrightarrow> (\<exists>j. g i = Some j \<and> status j = RUNNING)"

lemma settled_runs: "settled_from g g' \<Longrightarrow> runs g' i \<Longrightarrow> runs g i \<and> g' i = g i"
  unfolding settled_from_def runs_def by (metis option.inject)

text \<open>The entries applying acts on.\<close>

definition recovers :: "pyval \<Rightarrow> string \<Rightarrow> string \<Rightarrow> bool" where
  "recovers v i ty \<longleftrightarrow> (\<exists>d. v = PDict d \<and> dget d ''action'' = PStr (recon_action_text RECOVER) \<and>
     recon_string (dget d ''job_id'') ''job_id'' = Inr i \<and> recon_string (dget d ''job_type'') ''job_type'' = Inr ty)"

lemma recovers_unique: "recovers v i ty \<Longrightarrow> recovers v k ty' \<Longrightarrow> k = i \<and> ty' = ty"
  by (auto simp: recovers_def)

definition handled_well :: "('s \<Rightarrow> bool) \<Rightarrow> ('s \<Rightarrow> string \<Rightarrow> common_job option) \<Rightarrow> (string \<Rightarrow> 's recovery_handler option) \<Rightarrow> bool" where
  "handled_well good get handlers \<longleftrightarrow> (\<forall>ty h. handlers ty = Some h \<longrightarrow> (\<forall>j w s. good s \<longrightarrow>
     good (snd (h j w s)) \<and> settled_from (get s) (get (snd (h j w s)))))"

lemma handled_well_none [simp]: "handled_well good get (\<lambda>_. None)"
  by (simp add: handled_well_def)

context settling_queue_laws
begin

abbreviation "get \<equiv> q_get (sq_queue Q)"

lemma apply_entry_law:
  assumes inv: "inv s" and h: "handled_well inv get handlers"
    and ok: "apply_entry Q handlers observed now d s = (r, s')"
  shows "inv s' \<and> settled_from (get s) (get s')"
proof -
  let ?parse = "sbind (recon_string (dget d ''job_id'') ''job_id'') (\<lambda>i.
           sbind (recon_string (dget d ''job_type'') ''job_type'') (\<lambda>ty.
           sbind (map_err (dependency_error ''job_read_failed'') (sq_read Q s i)) (\<lambda>found.
             Inr (i, ty, found))))"
  show ?thesis
  proof (cases ?parse)
    case (Inl e)
    with ok inv show ?thesis by (simp add: apply_entry_def)
  next
    case (Inr p)
    obtain i ty found where p: "p = (i, ty, found)" by (cases p)
    have found: "found = get s i" using Inr unfolding p by (auto simp: res_simps read_law [OF inv])
    show ?thesis
    proof (cases "\<exists>j. found = Some j \<and> status j = RUNNING")
      case False
      then have "(case found of None \<Rightarrow> None | Some j \<Rightarrow> if status j = RUNNING then Some j else None) = None"
        by (auto split: option.split)
      with ok Inr p inv show ?thesis by (simp add: apply_entry_def)
    next
      case True
      then obtain j where j: "found = Some j" "status j = RUNNING" by blast
      with get_wf [OF inv, of i j] found have i: "job_id j = i" by simp
      show ?thesis
      proof (cases "handlers ty")
        case (Some hd)
        then have "s' = snd (hd j observed s)"
          using ok Inr p j by (auto simp: apply_entry_def split: prod.splits sum.splits)
        then show ?thesis using h Some inv unfolding handled_well_def by blast
      next
        case None
        have "inv s' \<and> settled_from (get s) (get s')"
          if run: "settle_worker_failure Q s j expired_worker_lease_failure observed None now = Inr (st, s')" for st
        proof -
          obtain k j' where "inv s'" "get s (st_job st) = Some k" "job_step k j'" "get s' = (get s)(st_job st := Some j')"
            "st_action st = RETRY_SCHEDULED \<longleftrightarrow> status j' = QUEUED" "st_action st = DEAD_LETTERED \<longleftrightarrow> status j' = FAILED"
            "st_job st = py_strip (job_id j)"
            by (rule settle_law [OF inv run]) blast
          moreover have "status k = RUNNING" if "status j' \<noteq> RUNNING" "status j' \<noteq> CANCELLED"
            using \<open>job_step k j'\<close> that by (auto elim: job_step.cases)
          ultimately show ?thesis
            unfolding settled_from_def by (cases "st_action st") auto
        qed
        then show ?thesis
          using ok Inr p j None inv
          by (cases "settle_worker_failure Q s j expired_worker_lease_failure observed None now")
            (auto simp: apply_entry_def split: if_splits prod.splits)
      qed
    qed
  qed
qed

lemma apply_entries_law:
  assumes "inv s" "handled_well inv get handlers" "apply_entries Q handlers observed now es s = (r, s')"
  shows "inv s' \<and> settled_from (get s) (get s')"
  using assms(1,3)
proof (induction es arbitrary: s r)
  case (Cons v es)
  show ?case
  proof (cases "\<exists>d. v = PDict d \<and> dget d ''action'' = PStr (recon_action_text RECOVER)")
    case True
    then obtain d where d: "v = PDict d" "dget d ''action'' = PStr (recon_action_text RECOVER)" by blast
    obtain r1 s1 where one: "apply_entry Q handlers observed now d s = (r1, s1)" by (cases "apply_entry Q handlers observed now d s")
    note step = apply_entry_law [OF Cons.prems(1) assms(2) one]
    obtain r2 s2 where two: "apply_entries Q handlers observed now es s1 = (r2, s2)" by (cases "apply_entries Q handlers observed now es s1")
    show ?thesis
    proof (cases r1)
      case (Inl e)
      with Cons.prems(2) d one step show ?thesis by simp
    next
      case (Inr x)
      have s': "s2 = s'" using Cons.prems(2) d one two Inr by (cases r2) auto
      show ?thesis using Cons.IH [OF _ two [unfolded s']] step settled_trans by blast
    qed
  next
    case False
    then have "apply_entries Q handlers observed now (v # es) s = apply_entries Q handlers observed now es s"
      by (cases v) auto
    with Cons show ?thesis by simp
  qed
qed simp

text \<open>
  Without handlers of its type, an entry either settles its job or leaves it: it names a job that
  does not run, or one whose type needs a handler.
\<close>

abbreviation "no_handlers \<equiv> (\<lambda>_. None) :: string \<Rightarrow> 's recovery_handler option"

lemma apply_entry_cases:
  assumes inv: "inv s" and rec: "recovers (PDict d) i ty"
  obtains (kept) x where "apply_entry Q no_handlers observed now d s = (Inr x, s)" "\<not> runs (get s) i \<or> ty \<in> set SPECIALIZED_RECOVERY_JOB_TYPES"
  | (settled) j where "get s i = Some j" "status j = RUNNING" "job_id j = i" "py_strip i = i" "ty \<notin> set SPECIALIZED_RECOVERY_JOB_TYPES"
      "apply_entry Q no_handlers observed now d s =
        (case settle_worker_failure Q s j expired_worker_lease_failure observed None now of
                         Inl e \<Rightarrow> (Inl (settlement_failed e), s)
                       | Inr (st, s') \<Rightarrow>
                           (Inr \<lparr>rv_job = i, rv_type = ty, rv_result = settlement_text (st_action st), rv_status = None\<rparr>, s'))"
proof -
  have i: "py_strip i = i" using rec by (auto simp: recovers_def res_simps)
  have parse: "sbind (recon_string (dget d ''job_id'') ''job_id'') (\<lambda>i.
           sbind (recon_string (dget d ''job_type'') ''job_type'') (\<lambda>ty.
           sbind (map_err (dependency_error ''job_read_failed'') (sq_read Q s i)) (\<lambda>found.
             Inr (i, ty, found)))) = Inr (i, ty, get s i)"
    using rec by (auto simp: recovers_def read_law [OF inv])
  show ?thesis
  proof (cases "\<exists>j. get s i = Some j \<and> status j = RUNNING")
    case True
    then obtain j where j: "get s i = Some j" "status j = RUNNING" by blast
    show ?thesis
    proof (cases "ty \<in> set SPECIALIZED_RECOVERY_JOB_TYPES")
      case True
      then show ?thesis by (intro kept) (simp_all add: apply_entry_def parse j)
    next
      case False
      then show ?thesis using get_wf [OF inv j(1)] i j by (intro settled [OF j]) (simp_all add: apply_entry_def parse j)
    qed
  next
    case False
    then have "(case get s i of None \<Rightarrow> None | Some j \<Rightarrow> if status j = RUNNING then Some j else None) = None"
      by (auto split: option.split)
    with False show ?thesis by (intro kept) (auto simp: apply_entry_def parse runs_def)
  qed
qed

lemma settle_target:
  assumes inv: "inv s" and ids: "job_id j = i" "py_strip i = i"
    and run: "settle_worker_failure Q s j fl observed pol now = Inr (st, s')"
  shows "\<not> runs (get s') i \<and> (\<forall>k. k \<noteq> i \<longrightarrow> get s' k = get s k) \<and> inv s'"
proof -
  obtain k j' where "inv s'" "get s' = (get s)(st_job st := Some j')" "st_job st = py_strip (job_id j)"
    "st_action st = RETRY_SCHEDULED \<longleftrightarrow> status j' = QUEUED" "st_action st = DEAD_LETTERED \<longleftrightarrow> status j' = FAILED"
    by (rule settle_law [OF inv run]) blast
  then show ?thesis using ids by (cases "st_action st") (auto simp: runs_def)
qed

text \<open>What the whole list leaves, and what it touches.\<close>

definition done_with :: "'s \<Rightarrow> pyval \<Rightarrow> bool" where
  "done_with s v \<longleftrightarrow> (\<forall>d. v = PDict d \<and> dget d ''action'' = PStr (recon_action_text RECOVER) \<longrightarrow>
     (\<exists>i ty. recovers v i ty \<and> (\<not> runs (get s) i \<or> ty \<in> set SPECIALIZED_RECOVERY_JOB_TYPES)))"

lemma done_with_mono: "settled_from (get s) (get s') \<Longrightarrow> done_with s v \<Longrightarrow> done_with s' v"
  unfolding done_with_def using settled_runs by blast

lemma done_withI:
  "recovers v i ty \<Longrightarrow> \<not> runs (get s) i \<or> ty \<in> set SPECIALIZED_RECOVERY_JOB_TYPES \<Longrightarrow> done_with s v"
  unfolding done_with_def by blast

lemma apply_entry_done:
  assumes inv: "inv s" and one: "apply_entry Q no_handlers observed now d s = (Inr x, s')"
  shows "done_with s' (PDict d) \<and> (\<forall>k. get s' k \<noteq> get s k \<longrightarrow> (\<exists>ty. recovers (PDict d) k ty \<and> ty \<notin> set SPECIALIZED_RECOVERY_JOB_TYPES) \<or>
    dget d ''action'' \<noteq> PStr (recon_action_text RECOVER))"
proof (cases "dget d ''action'' = PStr (recon_action_text RECOVER)")
  case True
  then obtain i ty where rec: "recovers (PDict d) i ty"
    using one by (auto simp: apply_entry_def recovers_def res_simps split: sum.splits)
  show ?thesis
  proof (rule apply_entry_cases [OF inv rec, of observed now])
    fix y assume "apply_entry Q no_handlers observed now d s = (Inr y, s)"
      "\<not> runs (get s) i \<or> ty \<in> set SPECIALIZED_RECOVERY_JOB_TYPES"
    with one done_withI [OF rec] show ?thesis by auto
  next
    fix j assume j: "job_id j = i" "py_strip i = i" and ty: "ty \<notin> set SPECIALIZED_RECOVERY_JOB_TYPES"
      and "apply_entry Q no_handlers observed now d s =
        (case settle_worker_failure Q s j expired_worker_lease_failure observed None now of
                         Inl e \<Rightarrow> (Inl (settlement_failed e), s)
                       | Inr (st, s') \<Rightarrow>
                           (Inr \<lparr>rv_job = i, rv_type = ty, rv_result = settlement_text (st_action st), rv_status = None\<rparr>, s'))"
    then obtain st where "settle_worker_failure Q s j expired_worker_lease_failure observed None now = Inr (st, s')"
      using one by (auto split: sum.splits prod.splits)
    note t = settle_target [OF inv j this]
    have "done_with s' (PDict d)" by (rule done_withI [OF rec]) (use t in simp)
    moreover have "get s' k \<noteq> get s k \<Longrightarrow> k = i" for k using t by metis
    ultimately show ?thesis using rec ty by metis
  qed
qed (auto simp: done_with_def)

lemma apply_entries_done:
  assumes "inv s" "apply_entries Q no_handlers observed now es s = (Inr rs, s')"
  shows "(\<forall>v \<in> set es. done_with s' v) \<and>
    (\<forall>k. get s' k \<noteq> get s k \<longrightarrow> (\<exists>v \<in> set es. \<exists>ty. recovers v k ty \<and> ty \<notin> set SPECIALIZED_RECOVERY_JOB_TYPES))"
  using assms
proof (induction es arbitrary: s rs)
  case (Cons v es)
  show ?case
  proof (cases "\<exists>d. v = PDict d \<and> dget d ''action'' = PStr (recon_action_text RECOVER)")
    case True
    then obtain d where d: "v = PDict d" "dget d ''action'' = PStr (recon_action_text RECOVER)" by blast
    from Cons.prems(2) d obtain x s1 rs1 where one: "apply_entry Q no_handlers observed now d s = (Inr x, s1)"
      and two: "apply_entries Q no_handlers observed now es s1 = (Inr rs1, s')"
      by (cases "apply_entry Q no_handlers observed now d s"; cases "fst (apply_entry Q no_handlers observed now d s)";
          cases "apply_entries Q no_handlers observed now es (snd (apply_entry Q no_handlers observed now d s))";
          cases "fst (apply_entries Q no_handlers observed now es (snd (apply_entry Q no_handlers observed now d s)))")
        simp_all
    have s1: "inv s1" using apply_entry_law [OF Cons.prems(1) handled_well_none one] by blast
    note later = apply_entries_law [OF s1 handled_well_none two]
    note first = apply_entry_done [OF Cons.prems(1) one]
    have "done_with s' v" using done_with_mono [OF _ first [THEN conjunct1]] later d(1) by blast
    moreover have "\<exists>w \<in> set (v # es). \<exists>ty. recovers w k ty \<and> ty \<notin> set SPECIALIZED_RECOVERY_JOB_TYPES" if "get s' k \<noteq> get s k" for k
    proof (cases "get s1 k = get s k")
      case True
      with that Cons.IH [OF s1 two] show ?thesis by auto
    next
      case False
      with first d show ?thesis by auto
    qed
    ultimately show ?thesis using Cons.IH [OF s1 two] by auto
  next
    case False
    then have "apply_entries Q no_handlers observed now es s = (Inr rs, s')"
      using Cons.prems(2) by (cases v) auto
    from Cons.IH [OF Cons.prems(1) this] False show ?thesis by (auto simp: done_with_def)
  qed
qed simp

text \<open>Once every entry is done with, applying the list again changes nothing.\<close>

lemma apply_entries_again:
  assumes "inv s" "\<forall>v \<in> set es. done_with s v"
  shows "\<exists>rs. apply_entries Q no_handlers observed now es s = (Inr rs, s)"
  using assms(2)
proof (induction es)
  case (Cons v es)
  then obtain rs where rs: "apply_entries Q no_handlers observed now es s = (Inr rs, s)" by auto
  show ?case
  proof (cases "\<exists>d. v = PDict d \<and> dget d ''action'' = PStr (recon_action_text RECOVER)")
    case True
    then obtain d where d: "v = PDict d" "dget d ''action'' = PStr (recon_action_text RECOVER)" by blast
    with Cons.prems obtain i ty where rec: "recovers (PDict d) i ty"
      and q: "\<not> runs (get s) i \<or> ty \<in> set SPECIALIZED_RECOVERY_JOB_TYPES" by (auto simp: done_with_def)
    have "\<exists>x. apply_entry Q no_handlers observed now d s = (Inr x, s)"
      by (rule apply_entry_cases [OF assms(1) rec, of observed now]) (use q in \<open>auto simp: runs_def\<close>)
    with rs d show ?thesis by auto
  next
    case False
    with rs show ?thesis by (cases v) auto
  qed
qed simp

text \<open>When applying cannot fail: every entry names its job, and the running jobs can be settled.\<close>

definition all_settleable :: "'s \<Rightarrow> bool" where
  "all_settleable s \<longleftrightarrow> (\<forall>i j. get s i = Some j \<and> status j = RUNNING \<longrightarrow> attempt_count j \<le> 1000)"

lemma all_settleable_mono: "all_settleable s \<Longrightarrow> settled_from (get s) (get s') \<Longrightarrow> all_settleable s'"
  unfolding all_settleable_def by (metis settled_runs runs_def)

lemma expired_failure_class: "\<exists>c. classify_worker_failure expired_worker_lease_failure None = Inr c"
  unfolding classify_total by (simp add: expired_worker_lease_failure_def)

lemma apply_entries_total:
  assumes "inv s" "all_settleable s" "good_time (or_default (Some observed) now)"
    and "\<forall>d. PDict d \<in> set es \<and> dget d ''action'' = PStr (recon_action_text RECOVER) \<longrightarrow> (\<exists>i ty. recovers (PDict d) i ty)"
  shows "\<exists>rs s'. apply_entries Q no_handlers observed now es s = (Inr rs, s')"
  using assms(1,2,4)
proof (induction es arbitrary: s)
  case (Cons v es)
  show ?case
  proof (cases "\<exists>d. v = PDict d \<and> dget d ''action'' = PStr (recon_action_text RECOVER)")
    case True
    then obtain d where d: "v = PDict d" "dget d ''action'' = PStr (recon_action_text RECOVER)" by blast
    with Cons.prems(3) obtain i ty where rec: "recovers (PDict d) i ty" by auto
    have "\<exists>x s1. apply_entry Q no_handlers observed now d s = (Inr x, s1)"
    proof (rule apply_entry_cases [OF Cons.prems(1) rec, of observed now])
      fix j assume j: "get s i = Some j" "status j = RUNNING" "job_id j = i" "py_strip i = i"
        and eq: "apply_entry Q no_handlers observed now d s =
        (case settle_worker_failure Q s j expired_worker_lease_failure observed None now of
                         Inl e \<Rightarrow> (Inl (settlement_failed e), s)
                       | Inr (st, s') \<Rightarrow>
                           (Inr \<lparr>rv_job = i, rv_type = ty, rv_result = settlement_text (st_action st), rv_status = None\<rparr>, s'))"
      obtain c where c: "classify_worker_failure expired_worker_lease_failure None = Inr c"
        using expired_failure_class by blast
      have "get s (job_id j) = Some j" "attempt_count j \<le> 1000" "py_strip (job_id j) = job_id j"
        using j Cons.prems(2) unfolding all_settleable_def by auto
      with settle_running [OF Cons.prems(1) _ j(2) _ _ assms(3) c] obtain r where
        "settle_worker_failure Q s j expired_worker_lease_failure observed None now = Inr r" by blast
      then show ?thesis unfolding eq by (cases r) simp
    qed blast
    then obtain x s1 where one: "apply_entry Q no_handlers observed now d s = (Inr x, s1)" by blast
    have s1: "inv s1" "settled_from (get s) (get s1)"
      using apply_entry_law [OF Cons.prems(1) handled_well_none one] by auto
    then obtain rs s' where "apply_entries Q no_handlers observed now es s1 = (Inr rs, s')"
      using Cons.IH [OF s1(1) all_settleable_mono [OF Cons.prems(2) s1(2)]] Cons.prems(3) by auto
    with d one show ?thesis by simp
  next
    case False
    then have "apply_entries Q no_handlers observed now (v # es) s = apply_entries Q no_handlers observed now es s"
      by (cases v) auto
    with Cons.IH [OF Cons.prems(1,2)] Cons.prems(3) show ?thesis by simp
  qed
qed simp

end

subsection \<open>Plan and application together\<close>

lemma dget_plan [simp]:
  "dget (plan_to_dict p) ''reconciliation_schema_version'' = PStr RECONCILIATION_SCHEMA"
  "dget (plan_to_dict p) ''observed_at'' = PStr (pl_observed p)"
  "dget (plan_to_dict p) ''entries'' = PList (map (\<lambda>e. PDict (entry_to_dict e)) (pl_entries p))"
  by (simp_all add: plan_to_dict_def dget_def)

lemma dget_entry [simp]:
  "dget (entry_to_dict e) ''action'' = PStr (recon_action_text (pe_action e))"
  "dget (entry_to_dict e) ''job_id'' = PStr (pe_job e)" "dget (entry_to_dict e) ''job_type'' = PStr (pe_type e)"
  by (simp_all add: entry_to_dict_def dget_def)

lemma recon_action_text_inj [simp]: "recon_action_text a = recon_action_text b \<longleftrightarrow> a = b"
  by (cases a; cases b) simp_all

lemma recovers_entry:
  assumes "py_strip (pe_job e) = pe_job e" "pe_job e \<noteq> []" "py_strip (pe_type e) = pe_type e" "pe_type e \<noteq> []"
  shows "recovers (PDict (entry_to_dict e)) i ty \<longleftrightarrow> pe_action e = RECOVER \<and> i = pe_job e \<and> ty = pe_type e"
  using assms recon_action_text_inj [of "pe_action e" RECOVER]
  by (auto simp: recovers_def res_simps simp del: recon_action_text.simps recon_action_text_inj)


context sql_database
begin

text \<open>
  A plan may be applied to a later state of the table: it settles the jobs that were lost when it
  was made and still run, whatever their leases have become, and nothing else.
\<close>

lemma apply_plan_later:
  assumes inv: "sql_inv D tbl" and tidy: "tidy_rows tbl" and hbs: "store_inv hbs"
    and obs: "parse_wire_datetime observed = Inr obs" "good_time observed" "py_strip observed = observed"
    and plan: "build_worker_reconciliation_plan D tbl hbs observed ttl stale_after now = Inr p"
    and later: "sql_inv D tbl1" "\<forall>i j. sql_get_job D tbl1 i = Some j \<and> status j = RUNNING \<longrightarrow> attempt_count j \<le> 1000"
  obtains r tbl2 where
    "apply_worker_reconciliation_plan (sql_settling D) (\<lambda>_. None) now (plan_to_dict p) tbl1 = (Inr r, tbl2)"
    "sql_inv D tbl2" "settled_from (sql_get_job D tbl1) (sql_get_job D tbl2)"
    "\<And>i j. lost_job tbl hbs (ttl_of ttl) stale_after obs i \<Longrightarrow> sql_get_job D tbl i = Some j \<Longrightarrow>
      job_type j \<notin> set SPECIALIZED_RECOVERY_JOB_TYPES \<Longrightarrow> \<not> runs (sql_get_job D tbl2) i"
    "\<And>i. sql_get_job D tbl2 i \<noteq> sql_get_job D tbl1 i \<Longrightarrow> lost_job tbl hbs (ttl_of ttl) stale_after obs i \<and>
      (\<exists>j. sql_get_job D tbl i = Some j \<and> job_type j \<notin> set SPECIALIZED_RECOVERY_JOB_TYPES)"
    "\<exists>r'. apply_worker_reconciliation_plan (sql_settling D) (\<lambda>_. None) now (plan_to_dict p) tbl2 = (Inr r', tbl2)"
proof -
  have ne: "observed \<noteq> []" using obs(2) wire_timestamp_nonempty by (metis good_timeE)
  obtain js where ids: "pl_observed p = observed"
    and entries: "\<And>e. e \<in> set (pl_entries p) \<Longrightarrow> \<exists>j r. sql_get_job D tbl (pe_job e) = Some j \<and> status j = RUNNING \<and>
       find_row tbl (pe_job e) = Some r \<and> pe_type e = job_type j \<and>
       pe_action e = row_action hbs (ttl_of ttl) stale_after obs r"
    and all: "\<And>i j. sql_get_job D tbl i = Some j \<Longrightarrow> status j = RUNNING \<Longrightarrow> \<exists>e \<in> set (pl_entries p). pe_job e = i"
    by (rule plan_entries [OF inv tidy hbs obs(1) ne plan]) blast
  define es where "es = map (\<lambda>e. PDict (entry_to_dict e)) (pl_entries p)"
  have rec: "recovers (PDict (entry_to_dict e)) i ty \<longleftrightarrow> pe_action e = RECOVER \<and> i = pe_job e \<and> ty = pe_type e"
    if "e \<in> set (pl_entries p)" for e i ty
  proof -
    from entries [OF that] obtain j where "sql_get_job D tbl (pe_job e) = Some j" "pe_type e = job_type j" by blast
    with tidy_job [OF tidy this(1)] sql_get_wf [OF this(1)] show ?thesis
      by (intro recovers_entry) (auto simp: job_wf_def)
  qed
  have "\<exists>i ty. recovers (PDict d) i ty" if "PDict d \<in> set es" "dget d ''action'' = PStr (recon_action_text RECOVER)" for d
  proof -
    from that(1) obtain e where e: "e \<in> set (pl_entries p)" "d = entry_to_dict e" by (auto simp: es_def)
    with that(2) have "pe_action e = RECOVER" by (simp del: recon_action_text.simps)
    with rec [OF e(1)] e(2) show ?thesis by blast
  qed
  moreover have "settling.all_settleable tbl1" using later(2) unfolding settling.all_settleable_def by simp
  moreover have "good_time (or_default (Some observed) now)" using obs(2) ne by (cases observed) auto
  ultimately obtain rs tbl2 where run: "apply_entries (sql_settling D) (\<lambda>_. None) observed now es tbl1 = (Inr rs, tbl2)"
    using settling.apply_entries_total [of tbl1 observed now es] later(1) by blast
  have law: "sql_inv D tbl2" "settled_from (sql_get_job D tbl1) (sql_get_job D tbl2)"
    using settling.apply_entries_law [OF later(1) handled_well_none run] by auto
  have final: "\<forall>v \<in> set es. settling.done_with tbl2 v"
    "sql_get_job D tbl2 k \<noteq> sql_get_job D tbl1 k \<Longrightarrow>
      \<exists>v \<in> set es. \<exists>ty. recovers v k ty \<and> ty \<notin> set SPECIALIZED_RECOVERY_JOB_TYPES" for k
    using settling.apply_entries_done [OF later(1) run] by auto
  have app: "apply_worker_reconciliation_plan (sql_settling D) (\<lambda>_. None) now (plan_to_dict p) t =
      (Inr \<lparr>rr_observed = observed, rr_results = x\<rparr>, t')"
    if "apply_entries (sql_settling D) (\<lambda>_. None) observed now es t = (Inr x, t')" for t t' x
    using that ids obs(3) ne by (simp add: apply_worker_reconciliation_plan_def es_def)
  show ?thesis
  proof (rule that [OF app [OF run] law])
    show "\<not> runs (sql_get_job D tbl2) i" if lost: "lost_job tbl hbs (ttl_of ttl) stale_after obs i"
      and j: "sql_get_job D tbl i = Some j" "job_type j \<notin> set SPECIALIZED_RECOVERY_JOB_TYPES" for i j
    proof -
      from lost obtain r where r: "find_row tbl i = Some r" "row_status r = RUNNING"
        "row_action hbs (ttl_of ttl) stale_after obs r = RECOVER" by (auto simp: lost_job_def)
      then have "status j = RUNNING" using j(1) by (auto simp: sql_get_Some job_from_row_Inr)
      from all [OF j(1) this] obtain e where e: "e \<in> set (pl_entries p)" "pe_job e = i" by blast
      with entries [OF e(1)] r j(1) have "pe_action e = RECOVER" "pe_type e = job_type j" by auto
      then have hit: "recovers (PDict (entry_to_dict e)) i (job_type j)" using rec [OF e(1)] e(2) by simp
      have "PDict (entry_to_dict e) \<in> set es" using e(1) by (simp add: es_def)
      with final(1) have "settling.done_with tbl2 (PDict (entry_to_dict e))" by blast
      moreover have "dget (entry_to_dict e) ''action'' = PStr (recon_action_text RECOVER)"
        using \<open>pe_action e = RECOVER\<close> by simp
      ultimately obtain k ty where "recovers (PDict (entry_to_dict e)) k ty"
        "\<not> runs (sql_get_job D tbl2) k \<or> ty \<in> set SPECIALIZED_RECOVERY_JOB_TYPES"
        unfolding settling.done_with_def sql_ops_simps settling_simps by metis
      with recovers_unique [OF hit] j(2) show ?thesis by blast
    qed
    show "lost_job tbl hbs (ttl_of ttl) stale_after obs i \<and>
      (\<exists>j. sql_get_job D tbl i = Some j \<and> job_type j \<notin> set SPECIALIZED_RECOVERY_JOB_TYPES)"
      if changed: "sql_get_job D tbl2 i \<noteq> sql_get_job D tbl1 i" for i
    proof -
      from final(2) [OF changed] obtain e ty where e: "e \<in> set (pl_entries p)" "recovers (PDict (entry_to_dict e)) i ty"
        "ty \<notin> set SPECIALIZED_RECOVERY_JOB_TYPES" by (auto simp: es_def)
      with rec [OF e(1)] have t: "pe_action e = RECOVER" "i = pe_job e" "ty = pe_type e" by auto
      from entries [OF e(1)] obtain j r where j: "sql_get_job D tbl i = Some j" "status j = RUNNING"
        "find_row tbl i = Some r" "ty = job_type j" "row_action hbs (ttl_of ttl) stale_after obs r = RECOVER"
        using t by metis
      then have "row_status r = RUNNING" by (auto simp: sql_get_Some job_from_row_Inr)
      with j e(3) show ?thesis by (auto simp: lost_job_def)
    qed
    obtain rs2 where "apply_entries (sql_settling D) (\<lambda>_. None) observed now es tbl2 = (Inr rs2, tbl2)"
      using settling.apply_entries_again [OF law(1) final(1), of observed now] by blast
    from app [OF this] show "\<exists>r'. apply_worker_reconciliation_plan (sql_settling D) (\<lambda>_. None) now (plan_to_dict p) tbl2 =
      (Inr r', tbl2)" by blast
  qed
qed

text \<open>Applied at once, a plan settles exactly the lost jobs that need no handler of their own.\<close>

lemma reconcile:
  assumes inv: "sql_inv D tbl" and tidy: "tidy_rows tbl" and hbs: "store_inv hbs"
    and obs: "parse_wire_datetime observed = Inr obs" "good_time observed" "py_strip observed = observed"
    and attempts: "\<forall>i j. sql_get_job D tbl i = Some j \<and> status j = RUNNING \<longrightarrow> attempt_count j \<le> 1000"
    and plan: "build_worker_reconciliation_plan D tbl hbs observed ttl stale_after now = Inr p"
  shows "\<exists>r tbl'. apply_worker_reconciliation_plan (sql_settling D) (\<lambda>_. None) now (plan_to_dict p) tbl = (Inr r, tbl') \<and>
    (\<forall>i j. sql_get_job D tbl i = Some j \<longrightarrow>
      (if lost_job tbl hbs (ttl_of ttl) stale_after obs i \<and> job_type j \<notin> set SPECIALIZED_RECOVERY_JOB_TYPES
       then \<exists>j'. sql_get_job D tbl' i = Some j' \<and> job_step j j' \<and> status j' \<noteq> RUNNING
       else sql_get_job D tbl' i = Some j))"
proof -
  obtain r tbl' where app: "apply_worker_reconciliation_plan (sql_settling D) (\<lambda>_. None) now (plan_to_dict p) tbl = (Inr r, tbl')"
    and s: "settled_from (sql_get_job D tbl) (sql_get_job D tbl')"
    and lost: "\<And>i j. lost_job tbl hbs (ttl_of ttl) stale_after obs i \<Longrightarrow> sql_get_job D tbl i = Some j \<Longrightarrow>
      job_type j \<notin> set SPECIALIZED_RECOVERY_JOB_TYPES \<Longrightarrow> \<not> runs (sql_get_job D tbl') i"
    and kept: "\<And>i. sql_get_job D tbl' i \<noteq> sql_get_job D tbl i \<Longrightarrow> lost_job tbl hbs (ttl_of ttl) stale_after obs i \<and>
      (\<exists>j. sql_get_job D tbl i = Some j \<and> job_type j \<notin> set SPECIALIZED_RECOVERY_JOB_TYPES)"
    by (rule apply_plan_later [OF inv tidy hbs obs plan inv attempts]) blast
  have "if lost_job tbl hbs (ttl_of ttl) stale_after obs i \<and> job_type j \<notin> set SPECIALIZED_RECOVERY_JOB_TYPES
       then \<exists>j'. sql_get_job D tbl' i = Some j' \<and> job_step j j' \<and> status j' \<noteq> RUNNING
       else sql_get_job D tbl' i = Some j" if j: "sql_get_job D tbl i = Some j" for i j
  proof (cases "lost_job tbl hbs (ttl_of ttl) stale_after obs i \<and> job_type j \<notin> set SPECIALIZED_RECOVERY_JOB_TYPES")
    case True
    then have "status j = RUNNING" using j by (auto simp: lost_job_def sql_get_Some job_from_row_Inr)
    with lost [OF _ j] True s j have "\<exists>j'. sql_get_job D tbl' i = Some j' \<and> job_step j j' \<and> status j' \<noteq> RUNNING"
      unfolding settled_from_def runs_def by (metis option.inject)
    with True show ?thesis by simp
  next
    case False
    with kept [of i] j have "sql_get_job D tbl' i = Some j" by auto
    with False show ?thesis unfolding if_not_P [OF False] by simp
  qed
  with app show ?thesis by blast
qed

end

end
