(* ===== verification/Worker_Lifecycle.thy ===== *)
theory Worker_Lifecycle
  imports Worker_Heartbeats
begin

section \<open>The lifecycle of a CX worker\<close>

text \<open>
  \<^verbatim>\<open>services/nex-cx/nex_cx/worker_lifecycle.py\<close>: the controller that reports a worker's phases
  as heartbeats, keeps the flag that stops it from claiming, and projects a heartbeat to the
  readiness of its worker. The emitter and the store are the same object in the code, which its
  constructor checks by identity; here the store is part of the controller's state. An operation
  returns what it reports, or raises, with the state it leaves.
\<close>

datatype lifecycle_exn = LifecycleError string string int

abbreviation lifecycle_error :: "string \<Rightarrow> string \<Rightarrow> int \<Rightarrow> lifecycle_exn" where
  "lifecycle_error c d s \<equiv> LifecycleError (''cx.worker_lifecycle.'' @ c) d s"

record lifecycle =
  lc_emitter :: heartbeat_emitter
  lc_store :: heartbeat_store
  lc_shutdown :: bool
  lc_emissions :: "pydict list"

definition make_lifecycle :: "heartbeat_emitter \<Rightarrow> heartbeat_store \<Rightarrow> lifecycle" where
  "make_lifecycle em st = \<lparr>lc_emitter = em, lc_store = st, lc_shutdown = False, lc_emissions = []\<rparr>"

definition can_claim :: "lifecycle \<Rightarrow> bool" where
  "can_claim lc = (\<not> lc_shutdown lc)"

definition lifecycle_string :: "string \<Rightarrow> string \<Rightarrow> lifecycle_exn + string" where
  "lifecycle_string s f =
     (if py_strip s = [] then Inl (lifecycle_error ''field_invalid'' (f @ '' must be a non-empty string.'') 422)
      else Inr (py_strip s))"

subsection \<open>The phases\<close>

definition lifecycle_emit ::
  "lifecycle \<Rightarrow> heartbeat_status \<Rightarrow> string option \<Rightarrow> string option \<Rightarrow> pydict option \<Rightarrow> string option \<Rightarrow> string
    \<Rightarrow> pydict \<times> lifecycle" where
  "lifecycle_emit lc st job trace meta observed now =
     (case safe_emit (lc_emitter lc) (lc_store lc) st job trace meta observed now of
        (r, store) \<Rightarrow> (emit_summary r,
          lc\<lparr>lc_store := store, lc_emissions := lc_emissions lc @ [emit_summary r]\<rparr>))"

definition lc_starting :: "lifecycle \<Rightarrow> string option \<Rightarrow> string \<Rightarrow> pydict \<times> lifecycle" where
  "lc_starting lc observed now = lifecycle_emit lc STARTING None None None observed now"

definition lc_stopping :: "lifecycle \<Rightarrow> string option \<Rightarrow> string \<Rightarrow> pydict \<times> lifecycle" where
  "lc_stopping lc observed now = lifecycle_emit (lc\<lparr>lc_shutdown := True\<rparr>) STOPPING None None None observed now"

definition lc_stopped :: "lifecycle \<Rightarrow> string option \<Rightarrow> string \<Rightarrow> pydict \<times> lifecycle" where
  "lc_stopped lc observed now = lifecycle_emit (lc\<lparr>lc_shutdown := True\<rparr>) STOPPED None None None observed now"

definition lc_idle :: "lifecycle \<Rightarrow> string option \<Rightarrow> string \<Rightarrow> pydict \<times> lifecycle" where
  "lc_idle lc observed now =
     (if lc_shutdown lc then lc_stopping lc observed now
      else lifecycle_emit lc IDLE None None None observed now)"

definition lc_busy ::
  "lifecycle \<Rightarrow> string \<Rightarrow> string \<Rightarrow> string option \<Rightarrow> string \<Rightarrow> (lifecycle_exn + pydict) \<times> lifecycle" where
  "lc_busy lc job trace observed now =
     (if lc_shutdown lc then
        (Inl (lifecycle_error ''shutdown_in_progress'' ''A stopping worker cannot claim another job.'' 409), lc)
      else
        (case sbind (lifecycle_string job ''job_id'') (\<lambda>j. sbind (lifecycle_string trace ''trace_id'') (\<lambda>t. Inr (j, t))) of
           Inl e \<Rightarrow> (Inl e, lc)
         | Inr (j, t) \<Rightarrow>
             (case lifecycle_emit lc BUSY (Some j) (Some t) None observed now of (r, lc') \<Rightarrow> (Inr r, lc'))))"

text \<open>The flag is set before the reason is checked.\<close>

definition lc_request_shutdown ::
  "lifecycle \<Rightarrow> string \<Rightarrow> string option \<Rightarrow> string \<Rightarrow> (lifecycle_exn + pydict) \<times> lifecycle" where
  "lc_request_shutdown lc reason observed now =
     (let lc' = lc\<lparr>lc_shutdown := True\<rparr> in
      case lifecycle_string reason ''reason_code'' of
        Inl e \<Rightarrow> (Inl e, lc')
      | Inr r \<Rightarrow>
          (case lifecycle_emit lc' STOPPING None None (Some [(''reason_code'', PStr r)]) observed now of
             (x, lc'') \<Rightarrow> (Inr x, lc'')))"

definition lc_failed ::
  "lifecycle \<Rightarrow> string \<Rightarrow> string option \<Rightarrow> string option \<Rightarrow> string option \<Rightarrow> string
    \<Rightarrow> (lifecycle_exn + pydict) \<times> lifecycle" where
  "lc_failed lc code job trace observed now =
     (case lifecycle_string code ''error_code'' of
        Inl e \<Rightarrow> (Inl e, lc)
      | Inr c \<Rightarrow>
          (case lifecycle_emit lc ERROR job trace (Some [(''error_code'', PStr c)]) observed now of
             (x, lc') \<Rightarrow> (Inr x, lc')))"

subsection \<open>Readiness\<close>

record readiness =
  rd_ready :: bool
  rd_reason :: string
  rd_worker :: "string option"
  rd_type :: "string option"
  rd_status :: "heartbeat_status option"
  rd_job :: "string option"
  rd_seen :: "string option"

definition ascii_lower :: "string \<Rightarrow> string" where
  "ascii_lower = map (\<lambda>c. let n = (of_char c :: nat) in if 65 \<le> n \<and> n \<le> 90 then char_of (n + 32) else c)"

text \<open>\<open>instant\<close> is the current instant, used when no time is given.\<close>

definition project_worker_readiness ::
  "heartbeat option \<Rightarrow> int \<Rightarrow> string option \<Rightarrow> int \<Rightarrow> heartbeat_exn + readiness" where
  "project_worker_readiness hb stale_after checked instant =
     (case hb of
        None \<Rightarrow> Inr \<lparr>rd_ready = False, rd_reason = ''heartbeat_missing'', rd_worker = None, rd_type = None,
          rd_status = None, rd_job = None, rd_seen = None\<rparr>
      | Some h \<Rightarrow>
          sbind (worker_heartbeat_is_stale h stale_after checked instant) (\<lambda>old.
          let (ready, reason) =
            (if old then (False, ''heartbeat_stale'')
             else if hb_status h \<in> {IDLE, BUSY}
               then (True, if hb_status h = IDLE then ''worker_available'' else ''worker_busy'')
             else (False, ''worker_'' @ ascii_lower (heartbeat_status_text (hb_status h))))
          in Inr \<lparr>rd_ready = ready, rd_reason = reason, rd_worker = Some (hb_worker h), rd_type = Some (hb_type h),
               rd_status = Some (hb_status h), rd_job = hb_job h, rd_seen = Some (hb_seen h)\<rparr>))"

definition lc_readiness :: "lifecycle \<Rightarrow> int \<Rightarrow> string option \<Rightarrow> int \<Rightarrow> heartbeat_exn + readiness" where
  "lc_readiness lc stale_after checked instant =
     sbind (get_heartbeat (lc_store lc) (em_service (lc_emitter lc)) (em_worker (lc_emitter lc))) (\<lambda>hb.
       project_worker_readiness hb stale_after checked instant)"

subsection \<open>What the phases keep\<close>

text \<open>The operations as one step relation, for what holds along every life of a worker.\<close>

inductive lifecycle_step :: "lifecycle \<Rightarrow> lifecycle \<Rightarrow> bool" where
  ls_starting: "lc_starting lc observed now = (r, lc') \<Longrightarrow> lifecycle_step lc lc'"
| ls_idle: "lc_idle lc observed now = (r, lc') \<Longrightarrow> lifecycle_step lc lc'"
| ls_busy: "lc_busy lc job trace observed now = (b, lc') \<Longrightarrow> lifecycle_step lc lc'"
| ls_shutdown: "lc_request_shutdown lc reason observed now = (b, lc') \<Longrightarrow> lifecycle_step lc lc'"
| ls_stopping: "lc_stopping lc observed now = (r, lc') \<Longrightarrow> lifecycle_step lc lc'"
| ls_stopped: "lc_stopped lc observed now = (r, lc') \<Longrightarrow> lifecycle_step lc lc'"
| ls_failed: "lc_failed lc code job_opt trace_opt observed now = (b, lc') \<Longrightarrow> lifecycle_step lc lc'"

lemma lifecycle_emit_law:
  assumes "lifecycle_emit lc st job trace meta observed now = (r, lc')"
  shows "lc_emitter lc' = lc_emitter lc" "lc_shutdown lc' = lc_shutdown lc"
    "store_inv (lc_store lc) \<Longrightarrow> store_inv (lc_store lc')" "lc_emissions lc' = lc_emissions lc @ [r]"
    "lc_store lc' = lc_store lc \<or> (\<exists>h. hb_status h = st \<and> heartbeat_wf h \<and>
       lc_store lc' = dict_put (em_service (lc_emitter lc), em_worker (lc_emitter lc)) h (lc_store lc))"
proof -
  let ?e = "safe_emit (lc_emitter lc) (lc_store lc) st job trace meta observed now"
  have r: "r = emit_summary (fst ?e)" "lc' = lc\<lparr>lc_store := snd ?e, lc_emissions := lc_emissions lc @ [r]\<rparr>"
    using assms by (auto simp: lifecycle_emit_def split_beta)
  then show "lc_emitter lc' = lc_emitter lc" "lc_shutdown lc' = lc_shutdown lc" "lc_emissions lc' = lc_emissions lc @ [r]"
    by simp_all
  show "store_inv (lc_store lc) \<Longrightarrow> store_inv (lc_store lc')" using r(2) safe_emit_inv by simp
  show "lc_store lc' = lc_store lc \<or> (\<exists>h. hb_status h = st \<and> heartbeat_wf h \<and>
       lc_store lc' = dict_put (em_service (lc_emitter lc), em_worker (lc_emitter lc)) h (lc_store lc))"
    by (cases rule: safe_emit_cases [of "lc_emitter lc" "lc_store lc" st job trace meta observed now]) (auto simp: r(2))
qed

text \<open>A worker that was asked to stop never claims again, and reports neither idle nor busy.\<close>

definition working :: "heartbeat_status \<Rightarrow> bool" where
  "working st \<longleftrightarrow> st \<in> {IDLE, BUSY}"

definition lifecycle_effect :: "lifecycle \<Rightarrow> lifecycle \<Rightarrow> bool" where
  "lifecycle_effect lc lc' \<longleftrightarrow> lc_emitter lc' = lc_emitter lc \<and> (lc_shutdown lc \<longrightarrow> lc_shutdown lc') \<and>
    (store_inv (lc_store lc) \<longrightarrow> store_inv (lc_store lc')) \<and>
    (lc_store lc' = lc_store lc \<or> (\<exists>h. (lc_shutdown lc \<longrightarrow> \<not> working (hb_status h)) \<and>
       lc_store lc' = dict_put (em_service (lc_emitter lc), em_worker (lc_emitter lc)) h (lc_store lc)))"

lemma emit_effect:
  assumes e: "lifecycle_emit lc0 st job trace meta observed now = (r, lc')"
    and lc0: "lc_emitter lc0 = lc_emitter lc" "lc_store lc0 = lc_store lc" "lc_shutdown lc \<Longrightarrow> lc_shutdown lc0"
    and st: "lc_shutdown lc \<Longrightarrow> \<not> working st"
  shows "lifecycle_effect lc lc'"
  unfolding lifecycle_effect_def
proof (intro conjI)
  note law = lifecycle_emit_law [OF e]
  show "lc_store lc' = lc_store lc \<or> (\<exists>h. (lc_shutdown lc \<longrightarrow> \<not> working (hb_status h)) \<and>
       lc_store lc' = dict_put (em_service (lc_emitter lc), em_worker (lc_emitter lc)) h (lc_store lc))"
    using law(5) lc0 st by metis
qed (use lifecycle_emit_law [OF e] lc0 in simp_all)

lemma flag_effect: "lifecycle_effect lc lc" "lifecycle_effect lc (lc\<lparr>lc_shutdown := True\<rparr>)"
  by (simp_all add: lifecycle_effect_def)

lemma lifecycle_step_effect:
  assumes "lifecycle_step lc lc'"
  shows "lifecycle_effect lc lc'"
  using assms
proof cases
  case (ls_starting observed now r)
  then show ?thesis unfolding lc_starting_def by (rule emit_effect) (simp_all add: working_def)
next
  case (ls_idle observed now r)
  then show ?thesis
    by (cases "lc_shutdown lc") (auto simp: lc_idle_def lc_stopping_def working_def intro: emit_effect)
next
  case (ls_busy job trace observed now b)
  then consider "lc' = lc" | j t r where "lifecycle_emit lc BUSY (Some j) (Some t) None observed now = (r, lc')" "\<not> lc_shutdown lc"
    by (auto simp: lc_busy_def split: if_splits sum.splits prod.splits)
  then show ?thesis by cases (auto simp: flag_effect intro: emit_effect)
next
  case (ls_shutdown reason observed now b)
  then consider "lc' = lc\<lparr>lc_shutdown := True\<rparr>"
    | m r where "lifecycle_emit (lc\<lparr>lc_shutdown := True\<rparr>) STOPPING None None (Some m) observed now = (r, lc')"
    by (auto simp: lc_request_shutdown_def Let_def split: sum.splits prod.splits)
  then show ?thesis by cases (auto simp: flag_effect working_def intro: emit_effect)
next
  case (ls_stopping observed now r)
  then show ?thesis unfolding lc_stopping_def by (rule emit_effect) (simp_all add: working_def)
next
  case (ls_stopped observed now r)
  then show ?thesis unfolding lc_stopped_def by (rule emit_effect) (simp_all add: working_def)
next
  case (ls_failed code job trace observed now b)
  then consider "lc' = lc" | m r where "lifecycle_emit lc ERROR job trace (Some m) observed now = (r, lc')"
    by (auto simp: lc_failed_def split: sum.splits prod.splits)
  then show ?thesis by cases (auto simp: flag_effect working_def intro: emit_effect)
qed

lemmas lifecycle_step_law = lifecycle_step_effect [unfolded lifecycle_effect_def]

text \<open>
  After a shutdown request the worker's heartbeat can never turn to idle or busy again, in any
  order of calls.
\<close>

definition own_heartbeat :: "lifecycle \<Rightarrow> heartbeat option" where
  "own_heartbeat lc = map_of (lc_store lc) (em_service (lc_emitter lc), em_worker (lc_emitter lc))"

lemma shutdown_is_final:
  assumes "lifecycle_step\<^sup>*\<^sup>* lc lc'" "lc_shutdown lc"
  shows "lc_shutdown lc' \<and> lc_emitter lc' = lc_emitter lc \<and>
    (own_heartbeat lc' = own_heartbeat lc \<or> (\<exists>h. own_heartbeat lc' = Some h \<and> \<not> working (hb_status h)))"
  using assms(1)
proof (induction rule: rtranclp_induct)
  case base
  show ?case using assms(2) by simp
next
  case (step y z)
  note law = lifecycle_step_law [OF step.hyps(2)]
  from law step.IH have same: "lc_emitter z = lc_emitter lc" "lc_shutdown z" by auto
  from law step.IH have "lc_store z = lc_store y \<or> (\<exists>h. \<not> working (hb_status h) \<and>
       lc_store z = dict_put (em_service (lc_emitter lc), em_worker (lc_emitter lc)) h (lc_store y))" by auto
  then show ?case
  proof
    assume "lc_store z = lc_store y"
    then have "own_heartbeat z = own_heartbeat y" using same step.IH by (simp add: own_heartbeat_def)
    with same step.IH show ?thesis by simp
  next
    assume "\<exists>h. \<not> working (hb_status h) \<and>
       lc_store z = dict_put (em_service (lc_emitter lc), em_worker (lc_emitter lc)) h (lc_store y)"
    with same show ?thesis by (auto simp: own_heartbeat_def simp del: map_of_eq_Some_iff)
  qed
qed

lemma readiness_Inr:
  assumes "project_worker_readiness hb stale_after checked instant = Inr r"
  shows "rd_ready r \<longleftrightarrow> (\<exists>h. hb = Some h \<and> working (hb_status h) \<and>
    worker_heartbeat_is_stale h stale_after checked instant = Inr False)"
  using assms by (cases hb) (auto simp: project_worker_readiness_def working_def res_simps split: if_splits)

end
