(* ===== verification/Worker_Runtime.thy ===== *)
theory Worker_Runtime
  imports Worker_Resilience Worker_Leases Worker_Lifecycle
begin

section \<open>The bounded run of a CX worker\<close>

text \<open>
  \<^verbatim>\<open>services/nex-cx/nex_cx/worker_runtime.py\<close>: a batch claims executions one after the other,
  runs the handler on each between two cancellation checkpoints, and completes, cancels or settles
  the job. The queue and the lease store are the table of the SQL queue. The state of a run is the
  table, the number of readings of the clock so far (\<open>clock n\<close> is what the \<open>n\<close>-th reading
  gives) and the lifecycle controller. The handler is a function of the execution and the state: it
  may read the queue through its token, and others may change the queue or request a shutdown while
  it runs.
\<close>

subsection \<open>Errors\<close>

datatype runtime_exn =
    RuntimeError string string int bool
  | Runtime_Contract contract_exn
  | Runtime_Lease lease_exn
  | Runtime_Lifecycle lifecycle_exn
  | Runtime_Other job_exn

abbreviation runtime_error :: "string \<Rightarrow> string \<Rightarrow> int \<Rightarrow> bool \<Rightarrow> runtime_exn" where
  "runtime_error c d s r \<equiv> RuntimeError (''cx.worker_runtime.'' @ c) d s r"

text \<open>
  What the body of an execution raises: the cancellation, an error of the runtime, which passes
  through, or any other exception, of which only the attributes a settlement reads are kept.
\<close>

datatype body_exn = Body_Cancelled string | Body_Runtime runtime_exn | Body_Failure worker_failure

definition plain_failure :: worker_failure where
  "plain_failure = \<lparr>fl_code = PNone, fl_class = PNone, fl_retryable = PNone, fl_status = PNone\<rparr>"

fun queue_failure :: "job_exn \<Rightarrow> worker_failure" where
  "queue_failure (JobQueueError c d sc) = plain_failure\<lparr>fl_code := PStr c, fl_status := PInt sc\<rparr>"
| "queue_failure (Py e) = plain_failure"

fun contract_failure :: "contract_exn \<Rightarrow> worker_failure" where
  "contract_failure (ContractError c d sc) = plain_failure\<lparr>fl_code := PStr c, fl_status := PInt sc\<rparr>"
| "contract_failure (Contract_Py e) = plain_failure"

fun runtime_dependency :: "string \<Rightarrow> job_exn \<Rightarrow> runtime_exn" where
  "runtime_dependency c (JobQueueError _ d sc) = runtime_error c d sc (sc \<ge> 500)"
| "runtime_dependency c (Py e) = Runtime_Other (Py e)"

definition runtime_string :: "string \<Rightarrow> string \<Rightarrow> runtime_exn + string" where
  "runtime_string s f =
     (if py_strip s = [] then Inl (runtime_error ''field_invalid'' (f @ '' must be a non-empty string.'') 422 False)
      else Inr (py_strip s))"

text \<open>\<open>_timestamp\<close>; the \<open>OverflowError\<close> of \<open>astimezone\<close> is not translated.\<close>

definition runtime_time :: "string \<Rightarrow> string \<Rightarrow> runtime_exn + int" where
  "runtime_time s f =
     (case parse_wire_datetime s of
        Inr t \<Rightarrow> Inr t
      | Inl ValueError \<Rightarrow> Inl (runtime_error ''timestamp_invalid'' (f @ '' must be an ISO-8601 timestamp.'') 422 False)
      | Inl e \<Rightarrow> Inl (Runtime_Other (Py e)))"

subsection \<open>Policy and cancellation\<close>

record runtime_policy =
  rt_max_jobs :: int
  rt_max_duration :: int
  rt_stop_on_failure :: bool

definition make_runtime_policy :: "int \<Rightarrow> int \<Rightarrow> bool \<Rightarrow> runtime_exn + runtime_policy" where
  "make_runtime_policy limit duration stop =
     (if limit < 1 \<or> limit > 100 then
        Inl (runtime_error ''max_jobs_invalid'' ''max_jobs must be an integer between 1 and 100.'' 422 False)
      else if duration < 1 \<or> duration > 3600 then
        Inl (runtime_error ''max_duration_invalid''
          ''max_duration_seconds must be an integer between 1 and 3600.'' 422 False)
      else Inr \<lparr>rt_max_jobs = limit, rt_max_duration = duration, rt_stop_on_failure = stop\<rparr>)"

definition default_runtime_policy :: runtime_policy where
  "default_runtime_policy = \<lparr>rt_max_jobs = 10, rt_max_duration = 300, rt_stop_on_failure = True\<rparr>"

text \<open>An error of the runtime inside the body, as the body's handlers tell them apart.\<close>

fun body_error :: "runtime_exn \<Rightarrow> body_exn" where
  "body_error (Runtime_Other e) = Body_Failure (queue_failure e)"
| "body_error (Runtime_Contract e) = Body_Failure (contract_failure e)"
| "body_error e = Body_Runtime e"

text \<open>\<open>CxCancellationToken.checkpoint\<close>.\<close>

definition checkpoint :: "database \<Rightarrow> table \<Rightarrow> string \<Rightarrow> string option \<Rightarrow> string \<Rightarrow> body_exn + unit" where
  "checkpoint D tbl i observed now =
     sbind (map_err body_error (runtime_time (or_default observed now) ''observed_at'')) (\<lambda>t.
     sbind (map_err (\<lambda>e. body_error (runtime_dependency ''cancellation_read_failed'' e)) (select_job D tbl i)) (\<lambda>found.
     case found of
       None \<Rightarrow> Inl (Body_Runtime (runtime_error ''job_not_found''
         ''The worker job was not found at a cancellation checkpoint.'' 404 False))
     | Some j \<Rightarrow>
         if status j = CANCELLED then Inl (Body_Cancelled (wire_timestamp t))
         else if status j \<noteq> RUNNING then
           Inl (Body_Runtime (runtime_error ''job_not_running'' ''The worker job is no longer running.'' 409 False))
         else Inr ()))"

record cancellation =
  cn_job :: string
  cn_type :: string
  cn_status :: job_status
  cn_already :: bool
  cn_requested :: string

definition request_worker_cancellation ::
  "database \<Rightarrow> table \<Rightarrow> string \<Rightarrow> string option \<Rightarrow> string \<Rightarrow> runtime_exn + cancellation \<times> table" where
  "request_worker_cancellation D tbl job observed now =
     sbind (runtime_string job ''job_id'') (\<lambda>i.
     sbind (runtime_time (or_default observed now) ''observed_at'') (\<lambda>t.
     sbind (map_err (runtime_dependency ''cancellation_write_failed'') (select_job D tbl i)) (\<lambda>found.
     case found of
       None \<Rightarrow> Inl (runtime_error ''job_not_found'' ''The worker job was not found.'' 404 False)
     | Some previous \<Rightarrow>
         sbind (map_err (runtime_dependency ''cancellation_write_failed'')
                  (sql_cancel D tbl i (Some (wire_timestamp t)) now)) (\<lambda>(cancelled, tbl').
         Inr (\<lparr>cn_job = i, cn_type = job_type cancelled, cn_status = status cancelled,
                cn_already = (status previous = CANCELLED), cn_requested = wire_timestamp t\<rparr>, tbl')))))"

subsection \<open>One execution\<close>

record run_state =
  rn_table :: table
  rn_ticks :: nat
  rn_life :: "lifecycle option"

type_synonym cx_handler = "cx_execution \<Rightarrow> run_state \<Rightarrow> (body_exn + unit) \<times> run_state"

record run_env =
  re_db :: database
  re_clock :: "nat \<Rightarrow> string"
  re_handler :: cx_handler
  re_worker :: string
  re_type :: string
  re_workload :: string
  re_policy :: runtime_policy
  re_ttl :: "int option"
  re_now :: string

definition ticked :: "run_state \<Rightarrow> run_state" where
  "ticked s = s\<lparr>rn_ticks := rn_ticks s + 1\<rparr>"

definition reading :: "run_env \<Rightarrow> run_state \<Rightarrow> string" where
  "reading E s = re_clock E (rn_ticks s)"

definition moved_to ::
  "run_env \<Rightarrow> cx_execution \<Rightarrow> execution_state \<Rightarrow> string \<Rightarrow> pyval \<Rightarrow> contract_exn + cx_execution" where
  "moved_to E x target at_time code =
     transition_cx_worker_execution (execution_to_dict x) (PStr (execution_state_text target)) (Some at_time) code (re_now E)"

text \<open>The \<open>try\<close> block: checkpoint, handler, checkpoint, completion, transition.\<close>

definition run_body :: "run_env \<Rightarrow> cx_execution \<Rightarrow> run_state \<Rightarrow> (body_exn + cx_execution) \<times> run_state" where
  "run_body E x s =
     (case checkpoint (re_db E) (rn_table s) (ex_job x) (Some (reading E s)) (re_now E) of
        Inl e \<Rightarrow> (Inl e, ticked s)
      | Inr _ \<Rightarrow>
          (case re_handler E x (ticked s) of
             (Inl e, s1) \<Rightarrow> (Inl e, s1)
           | (Inr _, s1) \<Rightarrow>
               (case checkpoint (re_db E) (rn_table s1) (ex_job x) (Some (reading E s1)) (re_now E) of
                  Inl e \<Rightarrow> (Inl e, ticked s1)
                | Inr _ \<Rightarrow>
                    (let s2 = ticked s1; completed = reading E s2; s3 = ticked s2 in
                     case sql_complete (re_db E) (rn_table s3) (ex_job x) (Some completed) (re_now E) of
                       Inl e \<Rightarrow> (Inl (Body_Failure (queue_failure e)), s3)
                     | Inr (_, tbl) \<Rightarrow>
                         (map_err (\<lambda>e. Body_Failure (contract_failure e)) (moved_to E x X_SUCCEEDED completed PNone),
                          s3\<lparr>rn_table := tbl\<rparr>)))))"

text \<open>\<open>_job\<close>.\<close>

definition read_job :: "database \<Rightarrow> table \<Rightarrow> string \<Rightarrow> runtime_exn + common_job" where
  "read_job D tbl i =
     sbind (map_err (runtime_dependency ''job_read_failed'') (select_job D tbl i)) (\<lambda>found.
       case found of None \<Rightarrow> Inl (runtime_error ''job_not_found'' ''The worker job was not found.'' 404 False)
       | Some j \<Rightarrow> Inr j)"

text \<open>The branch of a cancellation: the job is cancelled unless it already is.\<close>

definition finish_cancelled ::
  "run_env \<Rightarrow> cx_execution \<Rightarrow> string \<Rightarrow> run_state \<Rightarrow> (runtime_exn + cx_execution) \<times> run_state" where
  "finish_cancelled E x at_time s =
     (case sbind (read_job (re_db E) (rn_table s) (ex_job x)) (\<lambda>j.
             if status j \<noteq> CANCELLED then
               sbind (request_worker_cancellation (re_db E) (rn_table s) (ex_job x) (Some at_time) (re_now E)) (\<lambda>(_, t). Inr t)
             else Inr (rn_table s)) of
        Inl e \<Rightarrow> (Inl e, s)
      | Inr tbl \<Rightarrow>
          (map_err Runtime_Contract
             (sbind (moved_to E x X_CANCELLATION_REQUESTED at_time PNone) (\<lambda>y. moved_to E y X_CANCELLED at_time PNone)),
           s\<lparr>rn_table := tbl\<rparr>))"

fun failure_write_failed :: "resilience_exn \<Rightarrow> runtime_exn" where
  "failure_write_failed (ResilienceError _ d sc r) = runtime_error ''failure_write_failed'' d sc r"
| "failure_write_failed (Resilience_Other e) = Runtime_Other e"

definition settled_state :: "settlement_action \<Rightarrow> execution_state" where
  "settled_state a = (case a of RETRY_SCHEDULED \<Rightarrow> X_RETRY_SCHEDULED | DEAD_LETTERED \<Rightarrow> X_DEAD_LETTERED)"

definition finish_failed ::
  "run_env \<Rightarrow> cx_execution \<Rightarrow> worker_failure \<Rightarrow> run_state \<Rightarrow> (runtime_exn + cx_execution) \<times> run_state" where
  "finish_failed E x fl s =
     (let failed = reading E s; s1 = ticked s in
      case sbind (read_job (re_db E) (rn_table s1) (ex_job x)) (\<lambda>j.
             map_err failure_write_failed
               (settle_worker_failure (sql_settling (re_db E)) (rn_table s1) j fl failed None (re_now E))) of
        Inl e \<Rightarrow> (Inl e, s1)
      | Inr (st, tbl) \<Rightarrow>
          (map_err Runtime_Contract (moved_to E x (settled_state (st_action st)) failed (PStr (st_code st))),
           s1\<lparr>rn_table := tbl\<rparr>))"

definition execute_claimed :: "run_env \<Rightarrow> cx_execution \<Rightarrow> run_state \<Rightarrow> (runtime_exn + cx_execution) \<times> run_state" where
  "execute_claimed E x s =
     (case moved_to E x X_RUNNING (reading E s) PNone of
        Inl e \<Rightarrow> (Inl (Runtime_Contract e), ticked s)
      | Inr started \<Rightarrow>
          (case run_body E started (ticked s) of
             (Inr y, s1) \<Rightarrow> (Inr y, s1)
           | (Inl (Body_Cancelled at_time), s1) \<Rightarrow> finish_cancelled E started at_time s1
           | (Inl (Body_Runtime e), s1) \<Rightarrow> (Inl e, s1)
           | (Inl (Body_Failure fl), s1) \<Rightarrow> finish_failed E started fl s1))"

subsection \<open>The batch\<close>

text \<open>A call of the lifecycle controller, where the worker has one.\<close>

definition reported :: "(lifecycle \<Rightarrow> pydict \<times> lifecycle) \<Rightarrow> run_state \<Rightarrow> run_state" where
  "reported f s = s\<lparr>rn_life := map_option (\<lambda>lc. snd (f lc)) (rn_life s)\<rparr>"

definition attempted ::
  "(lifecycle \<Rightarrow> (lifecycle_exn + pydict) \<times> lifecycle) \<Rightarrow> run_state \<Rightarrow> (runtime_exn + unit) \<times> run_state" where
  "attempted f s =
     (case rn_life s of
        None \<Rightarrow> (Inr (), s)
      | Some lc \<Rightarrow>
          (case f lc of
             (Inl e, lc') \<Rightarrow> (Inl (Runtime_Lifecycle e), s\<lparr>rn_life := Some lc'\<rparr>)
           | (Inr _, lc') \<Rightarrow> (Inr (), s\<lparr>rn_life := Some lc'\<rparr>)))"

definition stopping_requested :: "run_state \<Rightarrow> bool" where
  "stopping_requested s = (case rn_life s of None \<Rightarrow> False | Some lc \<Rightarrow> lc_shutdown lc)"

datatype stop_reason = MAX_JOBS | SHUTDOWN | MAX_DURATION | IDLE_QUEUE | FAILURE

fun stop_reason_text :: "stop_reason \<Rightarrow> string" where
  "stop_reason_text MAX_JOBS = ''MAX_JOBS''"
| "stop_reason_text SHUTDOWN = ''SHUTDOWN''"
| "stop_reason_text MAX_DURATION = ''MAX_DURATION''"
| "stop_reason_text IDLE_QUEUE = ''IDLE''"
| "stop_reason_text FAILURE = ''FAILURE''"

fun runtime_error_code :: "runtime_exn \<Rightarrow> string" where
  "runtime_error_code (RuntimeError c _ _ _) = c"
| "runtime_error_code (Runtime_Contract (ContractError c _ _)) = c"
| "runtime_error_code (Runtime_Lease (LeaseError c _ _ _)) = c"
| "runtime_error_code (Runtime_Lifecycle (LifecycleError c _ _)) = c"
| "runtime_error_code (Runtime_Other (JobQueueError c _ _)) = c"
| "runtime_error_code _ = ''cx.worker_runtime.failed''"

text \<open>
  The body of the loop: \<open>Inl\<close> the reason to stop before an execution, or the execution's outcome
  and whether the loop stops after it.
\<close>

definition run_one ::
  "run_env \<Rightarrow> int \<Rightarrow> run_state \<Rightarrow> (runtime_exn + (stop_reason + cx_execution)) \<times> run_state" where
  "run_one E started s =
     (case runtime_time (reading E s) ''observed_at'' of
        Inl e \<Rightarrow> (Inl e, ticked s)
      | Inr observed \<Rightarrow>
          (let s1 = ticked s in
           if stopping_requested s1 then (Inr (Inl SHUTDOWN), s1)
           else if observed - started \<ge> rt_max_duration (re_policy E) * 1000000 then (Inr (Inl MAX_DURATION), s1)
           else
             (case claim_next_worker_execution (re_db E) (rn_table s1) (re_worker E) (re_type E) (re_workload E)
                     (re_ttl E) (Some (wire_timestamp observed)) (re_now E) of
                (Inl e, tbl) \<Rightarrow> (Inl (Runtime_Lease e), s1\<lparr>rn_table := tbl\<rparr>)
              | (Inr None, tbl) \<Rightarrow> (Inr (Inl IDLE_QUEUE), s1\<lparr>rn_table := tbl\<rparr>)
              | (Inr (Some x), tbl) \<Rightarrow>
                  (case attempted (\<lambda>lc. lc_busy lc (ex_job x) (ex_trace x) (Some (wire_timestamp observed)) (re_now E))
                          (s1\<lparr>rn_table := tbl\<rparr>) of
                     (Inl e, s2) \<Rightarrow> (Inl e, s2)
                   | (Inr _, s2) \<Rightarrow>
                       (case execute_claimed E x s2 of
                          (Inl e, s3) \<Rightarrow>
                            (if rn_life s3 = None then (Inl e, s3)
                             else (case attempted (\<lambda>lc. lc_failed lc (runtime_error_code e) (Some (ex_job x))
                                           (Some (ex_trace x)) (Some (reading E s3)) (re_now E)) (ticked s3) of
                                     (Inl e', s4) \<Rightarrow> (Inl e', s4)
                                   | (Inr _, s4) \<Rightarrow> (Inl e, s4)))
                        | (Inr y, s3) \<Rightarrow>
                            (Inr (Inr y),
                             if rn_life s3 = None then s3
                             else reported (\<lambda>lc. lc_idle lc (Some (reading E s3)) (re_now E)) (ticked s3)))))))"

fun run_loop ::
  "run_env \<Rightarrow> int \<Rightarrow> nat \<Rightarrow> run_state \<Rightarrow> (runtime_exn + stop_reason \<times> cx_execution list) \<times> run_state" where
  "run_loop E started 0 s = (Inr (MAX_JOBS, []), s)"
| "run_loop E started (Suc k) s =
     (case run_one E started s of
        (Inl e, s') \<Rightarrow> (Inl e, s')
      | (Inr (Inl reason), s') \<Rightarrow> (Inr (reason, []), s')
      | (Inr (Inr y), s') \<Rightarrow>
          if ex_state y \<in> {X_RETRY_SCHEDULED, X_DEAD_LETTERED} \<and> rt_stop_on_failure (re_policy E) then (Inr (FAILURE, [y]), s')
          else (case run_loop E started k s' of
                  (Inl e, s'') \<Rightarrow> (Inl e, s'')
                | (Inr (reason, ys), s'') \<Rightarrow> (Inr (reason, y # ys), s'')))"

record runtime_result =
  rs_worker :: string
  rs_type :: string
  rs_workload :: string
  rs_reason :: stop_reason
  rs_started :: int
  rs_completed :: int
  rs_executions :: "cx_execution list"

fun project_all :: "cx_execution list \<Rightarrow> contract_exn + cx_execution list" where
  "project_all [] = Inr []"
| "project_all (x # xs) =
     sbind (validate_cx_worker_execution (execution_to_dict x)) (\<lambda>y. sbind (project_all xs) (\<lambda>ys. Inr (y # ys)))"

definition count_state :: "execution_state \<Rightarrow> cx_execution list \<Rightarrow> nat" where
  "count_state st xs = length (filter (\<lambda>x. ex_state x = st) xs)"

text \<open>The counts of the result, as the code derives them from the projected executions.\<close>

definition jobs_claimed :: "runtime_result \<Rightarrow> nat" where
  "jobs_claimed r = length (rs_executions r)"

definition outcome_counts :: "runtime_result \<Rightarrow> nat list" where
  "outcome_counts r = map (\<lambda>st. count_state st (rs_executions r)) [X_SUCCEEDED, X_CANCELLED, X_RETRY_SCHEDULED, X_DEAD_LETTERED]"

definition run_bounded_worker_batch :: "run_env \<Rightarrow> run_state \<Rightarrow> (runtime_exn + runtime_result) \<times> run_state" where
  "run_bounded_worker_batch E s =
     (case runtime_time (reading E s) ''started_at'' of
        Inl e \<Rightarrow> (Inl e, ticked s)
      | Inr started \<Rightarrow>
          (let at_start = Some (wire_timestamp started);
               s1 = reported (\<lambda>lc. lc_idle lc at_start (re_now E))
                      (reported (\<lambda>lc. lc_starting lc at_start (re_now E)) (ticked s)) in
           case run_loop E started (nat (rt_max_jobs (re_policy E))) s1 of
             (Inl e, s2) \<Rightarrow> (Inl e, s2)
           | (Inr (reason, xs), s2) \<Rightarrow>
               (case runtime_time (reading E s2) ''completed_at'' of
                  Inl e \<Rightarrow> (Inl e, ticked s2)
                | Inr completed \<Rightarrow>
                    (let at_end = Some (wire_timestamp completed);
                         s3 = (if stopping_requested (ticked s2)
                               then reported (\<lambda>lc. lc_stopped lc at_end (re_now E))
                                      (reported (\<lambda>lc. lc_stopping lc at_end (re_now E)) (ticked s2))
                               else ticked s2) in
                     (sbind (map_err Runtime_Contract (project_all xs)) (\<lambda>ys.
                      sbind (runtime_string (re_worker E) ''worker_id'') (\<lambda>w.
                      sbind (runtime_string (re_type E) ''worker_type'') (\<lambda>t.
                      sbind (runtime_string (re_workload E) ''workload'') (\<lambda>l.
                      Inr \<lparr>rs_worker = w, rs_type = t, rs_workload = l, rs_reason = reason, rs_started = started,
                           rs_completed = completed, rs_executions = ys\<rparr>)))), s3)))))"

subsection \<open>Moves of an execution\<close>

lemma moved_to_Inr:
  assumes wf: "execution_wf x" and ok: "moved_to E x target at_time code = Inr y"
  shows "execution_wf y" "ex_job y = ex_job x" "ex_state y = target"
proof -
  from ok obtain n tgt where n: "validate_cx_worker_execution (execution_to_dict x) = Inr n"
    and t: "execution_state_of (PStr (execution_state_text target)) = Inr tgt"
    and y: "execution_wf y" "tgt = ex_state n \<and> y = n \<or> execution_step n y \<and> ex_state y = tgt"
    unfolding moved_to_def by (rule transition_execution_Inr)
  have "n = x" using n wf by (simp add: validate_execution_to_dict_iff)
  moreover have "tgt = target" using t by simp
  ultimately show "execution_wf y" "ex_job y = ex_job x" "ex_state y = target"
    using y step_fields(10) [of n y] by auto
qed

lemma moved_to_total:
  assumes wf: "execution_wf x" and t: "target \<in> set (VALID_EXECUTION_TRANSITIONS (ex_state x))"
    and obs: "parse_wire_datetime w = Inr obs" "w \<noteq> []" "ex_updated x \<le> obs"
    and code: "if target \<in> {X_RETRY_SCHEDULED, X_DEAD_LETTERED} then \<exists>c. code = PStr c \<and> py_strip c \<noteq> [] else code = PNone"
  shows "\<exists>y. moved_to E x target w code = Inr y \<and> ex_updated y = obs"
proof -
  let ?err = "if target \<in> {X_RETRY_SCHEDULED, X_DEAD_LETTERED}
            then sbind (contract_string code ''error_code'') (\<lambda>c. Inr (Some c))
            else if code \<noteq> PNone then
              Inl (contract_error ''error_code_unexpected''
                ''error_code is only valid for retry or dead-letter outcomes.'' 422)
            else Inr (ex_error x)"
  obtain err where err: "?err = Inr err" "opt_all stripped err"
    "target \<in> {X_RETRY_SCHEDULED, X_DEAD_LETTERED} \<longrightarrow> err \<noteq> None"
  proof (cases "target \<in> {X_RETRY_SCHEDULED, X_DEAD_LETTERED}")
    case True
    with code obtain c where "code = PStr c" "py_strip c \<noteq> []" by auto
    with True show ?thesis by (intro that [of "Some (py_strip c)"]) (auto simp: contract_string_def stripped_def)
  next
    case False
    have "opt_all stripped (ex_error x)" using wf by (simp add: execution_wf_def)
    with False code show ?thesis by (intro that [of "ex_error x"]) auto
  qed
  have "target \<noteq> ex_state x" using t by (cases "ex_state x") auto
  moreover have "contract_time (PStr (or_default (Some w) (re_now E))) ''observed_at'' = Inr obs"
    using obs(1,2) by (cases w) (auto simp: contract_time_def)
  moreover note validate_execution_to_dict [OF wf]
    validate_execution_to_dict [OF moved_wf [OF wf t parse_wire_datetime_range [OF obs(1)] err(2,3)]]
  ultimately show ?thesis
    using t obs(3) err(1) unfolding moved_to_def transition_cx_worker_execution_def by simp
qed

subsection \<open>The jobs of a run\<close>

text \<open>
  What a handler, and every other service that works meanwhile, may do to the table: any call of
  the queue (enqueue, start, complete, fail, cancel, retry, dead-letter, claim) and any renewal of a
  lease, whoever makes it and with whatever arguments.
\<close>

inductive worker_call :: "database \<Rightarrow> table \<Rightarrow> table \<Rightarrow> bool" for D where
  queue_call: "sql_exec D tbl now c = Inr (r, tbl') \<Longrightarrow> worker_call D tbl tbl'"
| renewal_call: "renewal_step D tbl tbl' \<Longrightarrow> worker_call D tbl tbl'"

definition handler_calls :: "run_env \<Rightarrow> bool" where
  "handler_calls E \<longleftrightarrow> (\<forall>x s. (worker_call (re_db E))\<^sup>*\<^sup>* (rn_table s) (rn_table (snd (re_handler E x s))))"

text \<open>How a job moves: by a step of its life, or by a renewal of its lease.\<close>

inductive job_move :: "common_job \<Rightarrow> common_job \<Rightarrow> bool" where
  move_step: "job_step j j' \<Longrightarrow> job_move j j'"
| move_renewed: "status j = RUNNING \<Longrightarrow> job_move j (stamped j u)"

text \<open>No job disappears, and each moves by steps of the queue and renewals.\<close>

definition jobs_evolve :: "(string \<Rightarrow> common_job option) \<Rightarrow> (string \<Rightarrow> common_job option) \<Rightarrow> bool" where
  "jobs_evolve g g' \<longleftrightarrow> (\<forall>i j. g i = Some j \<longrightarrow> (\<exists>j'. g' i = Some j' \<and> job_move\<^sup>*\<^sup>* j j'))"

lemma jobs_evolve_refl [simp]: "jobs_evolve g g"
  by (auto simp: jobs_evolve_def)

lemma jobs_evolve_trans: "jobs_evolve g h \<Longrightarrow> jobs_evolve h k \<Longrightarrow> jobs_evolve g k"
  unfolding jobs_evolve_def by (meson rtranclp_trans)

lemma jobs_evolve_move: "g i = Some j \<Longrightarrow> j' = j \<or> job_move j j' \<Longrightarrow> g' = g(i := Some j') \<Longrightarrow> jobs_evolve g g'"
  by (auto simp: jobs_evolve_def)

lemma jobs_evolve_step: "g i = Some j \<Longrightarrow> j' = j \<or> job_step j j' \<Longrightarrow> g' = g(i := Some j') \<Longrightarrow> jobs_evolve g g'"
  by (rule jobs_evolve_move) (auto intro: move_step)

lemma jobs_evolve_new: "g i = None \<Longrightarrow> g' = g(i := Some j') \<Longrightarrow> jobs_evolve g g'"
  by (auto simp: jobs_evolve_def)

lemma job_move_not_terminal: "job_move j j' \<Longrightarrow> \<not> terminal (status j)"
  by (auto elim!: job_move.cases dest: job_step_not_terminal simp: TERMINAL_JOB_STATUSES_def)

lemma job_moves_terminal: "job_move\<^sup>*\<^sup>* j j' \<Longrightarrow> terminal (status j) \<Longrightarrow> j' = j"
  by (induction rule: converse_rtranclp_induct) (auto dest: job_move_not_terminal)

lemma jobs_evolve_terminal:
  "jobs_evolve g g' \<Longrightarrow> g i = Some j \<Longrightarrow> terminal (status j) \<Longrightarrow> g' i = Some j"
  unfolding jobs_evolve_def using job_moves_terminal by blast

text \<open>What the state of an ended execution says of its job.\<close>

fun agrees :: "execution_state \<Rightarrow> job_status \<Rightarrow> bool" where
  "agrees X_SUCCEEDED st = (st = SUCCEEDED)"
| "agrees X_CANCELLED st = (st = CANCELLED)"
| "agrees X_RETRY_SCHEDULED st = (st = QUEUED)"
| "agrees X_DEAD_LETTERED st = (st = FAILED)"
| "agrees _ st = False"

abbreviation jobs_of :: "run_env \<Rightarrow> run_state \<Rightarrow> string \<Rightarrow> common_job option" where
  "jobs_of E s \<equiv> sql_get_job (re_db E) (rn_table s)"

definition run_good :: "run_env \<Rightarrow> run_state \<Rightarrow> run_state \<Rightarrow> bool" where
  "run_good E s s' \<longleftrightarrow> sql_inv (re_db E) (rn_table s') \<and> jobs_evolve (jobs_of E s) (jobs_of E s')"

lemma rn_table_ticked [simp]: "rn_table (ticked s) = rn_table s"
  by (simp add: ticked_def)

lemma run_good_trans: "run_good E s s1 \<Longrightarrow> run_good E s1 s2 \<Longrightarrow> run_good E s s2"
  unfolding run_good_def using jobs_evolve_trans by blast

lemma run_good_table: "run_good E s s1 \<Longrightarrow> rn_table s2 = rn_table s1 \<Longrightarrow> run_good E s s2"
  by (simp add: run_good_def)

lemma checkpoint_Inr:
  assumes "checkpoint D tbl i w now = Inr u"
  shows "\<exists>j. sql_get_job D tbl i = Some j \<and> status j = RUNNING"
  using assms by (auto simp: checkpoint_def res_simps select_job_Some split: if_splits)

lemma settled_state_agrees:
  "st_action st = RETRY_SCHEDULED \<longleftrightarrow> status j = QUEUED \<Longrightarrow> st_action st = DEAD_LETTERED \<longleftrightarrow> status j = FAILED \<Longrightarrow>
    agrees (settled_state (st_action st)) (status j)"
  by (cases "st_action st") (auto simp: settled_state_def)

context sql_database
begin

lemma worker_call_good:
  assumes "worker_call D tbl tbl'" "sql_inv D tbl"
  shows "sql_inv D tbl' \<and> jobs_evolve (sql_get_job D tbl) (sql_get_job D tbl')"
  using assms(1)
proof cases
  case (queue_call now c r)
  have moved: ?thesis if "sql_transition D tbl i st u now = Inr (j', tbl')" for i st u j'
    using sql_transition_law [OF assms(2) that] by (auto intro: jobs_evolve_step)
  show ?thesis
  proof (cases c)
    case (Enqueue j)
    with queue_call obtain j' where ok: "q_enqueue (sql_ops D) tbl j = Inr (j', tbl')" by (auto simp: res_simps sql_ops_simps)
    from enqueue_law [OF assms(2) ok] show ?thesis by (auto simp: sql_ops_simps intro: jobs_evolve_new)
  next
    case (Retry i e f p)
    with queue_call obtain j' where ok: "sql_retry D tbl i e f p now = Inr (j', tbl')" by (auto simp: res_simps)
    from sql_retry_law [OF assms(2) ok] show ?thesis by (auto intro: jobs_evolve_step)
  next
    case (Dead_Letter i e f)
    with queue_call obtain j' where ok: "sql_dead_letter D tbl i e f now = Inr (j', tbl')" by (auto simp: res_simps)
    from settling.dead_letter_law [OF assms(2), unfolded settling_simps, OF ok] show ?thesis
      by (auto simp: sql_ops_simps intro: jobs_evolve_step)
  next
    case (Claim w ty u)
    with queue_call have ok: "sql_claim D tbl w ty u now = Inr (r, tbl')" by simp
    show ?thesis
    proof (cases r)
      case None
      with sql_claim_law [OF assms(2) ok] assms(2) show ?thesis by simp
    next
      case (Some j)
      with sql_claim_law [OF assms(2) ok] show ?thesis by (auto intro: jobs_evolve_step)
    qed
  qed (use queue_call moved in \<open>auto simp: sql_start_def sql_complete_def sql_fail_def sql_cancel_def res_simps\<close>)
next
  case renewal_call
  then obtain job worker expected observed ttl now res where run: "renew D tbl job worker expected observed ttl now = (res, tbl')"
    by (auto elim: renewal_step.cases)
  show ?thesis
    using assms(2) run
  proof (cases rule: renew_cases)
    case (renewed r e obs)
    obtain j where "sql_get_job D tbl (py_strip job) = Some j" "status j = RUNNING" "sql_inv D tbl'"
      "sql_get_job D tbl' = (sql_get_job D tbl)(py_strip job := Some (stamped j obs))"
      unfolding renewed(8) by (rule renewed_jobs [OF assms(2) renewed(1,2)])
    then show ?thesis using jobs_evolve_move [of "sql_get_job D tbl" "py_strip job" j "stamped j obs"] move_renewed by blast
  qed (use assms(2) in simp)
qed

lemma handler_good:
  assumes "re_db E = D" "handler_calls E" "sql_inv D (rn_table s)"
  shows "run_good E s (snd (re_handler E x s))"
proof -
  have "(worker_call D)\<^sup>*\<^sup>* (rn_table s) (rn_table (snd (re_handler E x s)))"
    using assms(1,2) unfolding handler_calls_def by blast
  then have "sql_inv D (rn_table (snd (re_handler E x s))) \<and>
      jobs_evolve (sql_get_job D (rn_table s)) (sql_get_job D (rn_table (snd (re_handler E x s))))"
  proof (induction rule: rtranclp_induct)
    case base
    then show ?case using assms(3) by simp
  next
    case (step t1 t2)
    then show ?case using worker_call_good [OF step.hyps(2)] jobs_evolve_trans by blast
  qed
  then show ?thesis using assms(1) by (simp add: run_good_def)
qed

lemma run_body_good:
  assumes db: "re_db E = D" and inv: "sql_inv (re_db E) (rn_table s)" and h: "handler_calls E" and wf: "execution_wf x"
    and ok: "run_body E x s = (r, s')"
  shows "run_good E s s'" "\<And>y. r = Inr y \<Longrightarrow> execution_wf y \<and> ex_job y = ex_job x \<and>
    (\<exists>j. jobs_of E s' (ex_job x) = Some j \<and> agrees (ex_state y) (status j))"
proof -
  let ?D = "re_db E"
  have refl: "run_good E s (ticked s)" using inv by (simp add: run_good_def)
  have "run_good E s s' \<and> (\<forall>y. r = Inr y \<longrightarrow> execution_wf y \<and> ex_job y = ex_job x \<and>
    (\<exists>j. jobs_of E s' (ex_job x) = Some j \<and> agrees (ex_state y) (status j)))"
  proof (cases "checkpoint ?D (rn_table s) (ex_job x) (Some (reading E s)) (re_now E)")
    case (Inl e)
    with ok refl show ?thesis by (auto simp: run_body_def)
  next
    case one: (Inr u)
    obtain hr s1 where hs: "re_handler E x (ticked s) = (hr, s1)" by (cases "re_handler E x (ticked s)")
    have "run_good E (ticked s) s1" using handler_good [OF db h, of "ticked s" x] inv db hs by simp
    then have s1: "run_good E s s1" using run_good_trans [OF refl] by blast
    then have inv1: "sql_inv ?D (rn_table s1)" by (simp add: run_good_def)
    show ?thesis
    proof (cases hr)
      case (Inl e)
      with ok one hs s1 show ?thesis by (auto simp: run_body_def)
    next
      case hr: (Inr u')
      show ?thesis
      proof (cases "checkpoint ?D (rn_table s1) (ex_job x) (Some (reading E s1)) (re_now E)")
        case (Inl e)
        with ok one hs hr show ?thesis using run_good_table [OF s1] by (auto simp: run_body_def)
      next
        case two: (Inr u'')
        let ?w = "reading E (ticked s1)"
        show ?thesis
        proof (cases "sql_complete ?D (rn_table s1) (ex_job x) (Some ?w) (re_now E)")
          case (Inl e)
          with ok one hs hr two show ?thesis using run_good_table [OF s1] by (auto simp: run_body_def Let_def)
        next
          case (Inr p)
          obtain j tbl where p: "p = (j, tbl)" by (cases p)
          have r: "r = map_err (\<lambda>e. Body_Failure (contract_failure e)) (moved_to E x X_SUCCEEDED ?w PNone)"
            "s' = (ticked (ticked s1))\<lparr>rn_table := tbl\<rparr>"
            using ok one hs hr two Inr p by (auto simp: run_body_def Let_def)
          note law = sql_transition_law [OF inv1 Inr [unfolded p sql_complete_def]]
          obtain j0 where "jobs_of E s1 (ex_job x) = Some j0" "j = j0 \<or> job_step j0 j" using law(3) by blast
          with law(4) have "jobs_evolve (jobs_of E s1) (sql_get_job ?D tbl)" by (intro jobs_evolve_step) auto
          then have "run_good E s1 s'" using law(1) by (simp add: run_good_def r(2))
          moreover have "jobs_of E s' (ex_job x) = Some j" "status j = SUCCEEDED" using law by (simp_all add: r(2))
          ultimately show ?thesis
            using run_good_trans [OF s1] moved_to_Inr [OF wf] by (auto simp: r(1) res_simps)
        qed
      qed
    qed
  qed
  then show "run_good E s s'" "\<And>y. r = Inr y \<Longrightarrow> execution_wf y \<and> ex_job y = ex_job x \<and>
    (\<exists>j. jobs_of E s' (ex_job x) = Some j \<and> agrees (ex_state y) (status j))" by auto
qed

end

lemma execution_job_stripped: "execution_wf x \<Longrightarrow> py_strip (ex_job x) = ex_job x"
  by (simp add: execution_wf_def stripped_def)

lemma read_job_Inr: "read_job D tbl i = Inr j \<longleftrightarrow> sql_get_job D tbl i = Some j"
  by (auto simp: read_job_def res_simps select_job_Some)

lemma request_cancellation_Inr:
  assumes inv: "sql_inv D tbl" and strip: "py_strip i = i"
    and ok: "request_worker_cancellation D tbl i observed now = Inr (c, tbl')"
  shows "sql_inv D tbl'" "\<exists>j. sql_get_job D tbl' i = Some j \<and> status j = CANCELLED"
    "jobs_evolve (sql_get_job D tbl) (sql_get_job D tbl')" "cn_status c = CANCELLED"
    "cn_already c \<longleftrightarrow> (\<exists>j. sql_get_job D tbl i = Some j \<and> status j = CANCELLED)"
proof -
  from ok strip obtain t previous j where prev: "sql_get_job D tbl i = Some previous"
    and run: "sql_transition D tbl i CANCELLED (Some (wire_timestamp t)) now = Inr (j, tbl')"
    and c: "cn_status c = status j" "cn_already c = (status previous = CANCELLED)"
    by (auto simp: request_worker_cancellation_def runtime_string_def sql_cancel_def res_simps select_job_Some split: if_splits)
  note law = sql_transition_law [OF inv run]
  from law(3) obtain j0 where j0: "sql_get_job D tbl i = Some j0" "j = j0 \<or> job_step j0 j" by blast
  show "sql_inv D tbl'" by (rule law(1))
  show "\<exists>j. sql_get_job D tbl' i = Some j \<and> status j = CANCELLED" using law(2,4) by simp
  show "jobs_evolve (sql_get_job D tbl) (sql_get_job D tbl')" by (rule jobs_evolve_step [OF j0 law(4)])
  show "cn_status c = CANCELLED" using c law(2) by simp
  show "cn_already c \<longleftrightarrow> (\<exists>j. sql_get_job D tbl i = Some j \<and> status j = CANCELLED)" using c prev by simp
qed

lemma finish_cancelled_good:
  assumes inv: "sql_inv (re_db E) (rn_table s)" and wf: "execution_wf x"
    and ok: "finish_cancelled E x w s = (r, s')"
  shows "run_good E s s' \<and> (\<forall>y. r = Inr y \<longrightarrow> execution_wf y \<and> ex_job y = ex_job x \<and>
    (\<exists>j. jobs_of E s' (ex_job x) = Some j \<and> agrees (ex_state y) (status j)))"
proof -
  let ?D = "re_db E"
  let ?m = "sbind (read_job (re_db E) (rn_table s) (ex_job x)) (\<lambda>j.
             if status j \<noteq> CANCELLED then
               sbind (request_worker_cancellation (re_db E) (rn_table s) (ex_job x) (Some w) (re_now E)) (\<lambda>(_, t). Inr t)
             else Inr (rn_table s))"
  show ?thesis
  proof (cases ?m)
    case (Inl e)
    with ok inv show ?thesis by (auto simp: finish_cancelled_def run_good_def)
  next
    case (Inr tbl)
    have r: "r = map_err Runtime_Contract (sbind (moved_to E x X_CANCELLATION_REQUESTED w PNone) (\<lambda>y. moved_to E y X_CANCELLED w PNone))"
      "s' = s\<lparr>rn_table := tbl\<rparr>" using ok unfolding finish_cancelled_def Inr by auto
    from Inr obtain j where j: "jobs_of E s (ex_job x) = Some j" and
      rest: "(if status j \<noteq> CANCELLED then
               sbind (request_worker_cancellation (re_db E) (rn_table s) (ex_job x) (Some w) (re_now E)) (\<lambda>(_, t). Inr t)
             else Inr (rn_table s)) = Inr tbl" by (auto simp: sbind_eq_Inr read_job_Inr)
    have good: "run_good E s s' \<and> (\<exists>j. jobs_of E s' (ex_job x) = Some j \<and> status j = CANCELLED)"
    proof (cases "status j = CANCELLED")
      case True
      with rest have "tbl = rn_table s" by simp
      then show ?thesis using True j inv by (simp add: r(2) run_good_def)
    next
      case False
      with rest obtain c where "request_worker_cancellation ?D (rn_table s) (ex_job x) (Some w) (re_now E) = Inr (c, tbl)"
        by (auto simp: res_simps)
      from request_cancellation_Inr [OF inv execution_job_stripped [OF wf] this] show ?thesis
        by (simp add: r(2) run_good_def)
    qed
    have "execution_wf y \<and> ex_job y = ex_job x \<and> ex_state y = X_CANCELLED" if "r = Inr y" for y
    proof -
      from that r(1) obtain z where z: "moved_to E x X_CANCELLATION_REQUESTED w PNone = Inr z"
        "moved_to E z X_CANCELLED w PNone = Inr y" by (auto simp: res_simps)
      show ?thesis using moved_to_Inr [OF wf z(1)] moved_to_Inr [OF _ z(2)] by simp
    qed
    with good show ?thesis by fastforce
  qed
qed

context sql_database
begin

lemma finish_failed_good:
  assumes db: "re_db E = D" and inv: "sql_inv (re_db E) (rn_table s)" and wf: "execution_wf x"
    and ok: "finish_failed E x fl s = (r, s')"
  shows "run_good E s s' \<and> (\<forall>y. r = Inr y \<longrightarrow> execution_wf y \<and> ex_job y = ex_job x \<and>
    (\<exists>j. jobs_of E s' (ex_job x) = Some j \<and> agrees (ex_state y) (status j)))"
proof -
  let ?m = "sbind (read_job (re_db E) (rn_table s) (ex_job x)) (\<lambda>j.
             map_err failure_write_failed
               (settle_worker_failure (sql_settling (re_db E)) (rn_table s) j fl (reading E s) None (re_now E)))"
  show ?thesis
  proof (cases ?m)
    case (Inl e)
    with ok inv show ?thesis by (auto simp: finish_failed_def run_good_def)
  next
    case (Inr p)
    obtain st tbl where p: "p = (st, tbl)" by (cases p)
    from Inr p obtain j where j: "jobs_of E s (ex_job x) = Some j" and
      run: "settle_worker_failure (sql_settling (re_db E)) (rn_table s) j fl (reading E s) None (re_now E) = Inr (st, tbl)"
      by (auto simp: res_simps read_job_Inr)
    have r: "r = map_err Runtime_Contract (moved_to E x (settled_state (st_action st)) (reading E s) (PStr (st_code st)))"
      "s' = (ticked s)\<lparr>rn_table := tbl\<rparr>"
      using ok Inr p by (auto simp: finish_failed_def Let_def)
    have i: "py_strip (job_id j) = ex_job x"
      using sql_get_wf [OF j] execution_job_stripped [OF wf] by simp
    obtain k j' where law: "sql_inv (re_db E) tbl" "jobs_of E s (ex_job x) = Some k" "job_step k j'"
      "sql_get_job (re_db E) tbl = (jobs_of E s)(ex_job x := Some j')"
      "st_action st = RETRY_SCHEDULED \<longleftrightarrow> status j' = QUEUED" "st_action st = DEAD_LETTERED \<longleftrightarrow> status j' = FAILED"
      using settling.settle_law [OF inv [unfolded db] run [unfolded db]] unfolding db i by (simp add: i) metis
    have "jobs_evolve (jobs_of E s) (sql_get_job (re_db E) tbl)" by (rule jobs_evolve_step [OF law(2) _ law(4)]) (simp add: law(3))
    then have good: "run_good E s s'" using law(1) by (simp add: run_good_def r(2))
    have "jobs_of E s' (ex_job x) = Some j'" by (simp add: r(2) law(4))
    moreover have "agrees (settled_state (st_action st)) (status j')" by (rule settled_state_agrees [OF law(5,6)])
    ultimately show ?thesis using good moved_to_Inr [OF wf] by (auto simp: r(1) res_simps)
  qed
qed

text \<open>An execution that returns agrees with its job, and whatever it does, the jobs only evolve.\<close>

lemma execute_claimed_good:
  assumes db: "re_db E = D" and inv: "sql_inv (re_db E) (rn_table s)" and h: "handler_calls E"
    and wf: "execution_wf x" and ok: "execute_claimed E x s = (r, s')"
  shows "run_good E s s' \<and> (\<forall>y. r = Inr y \<longrightarrow> execution_wf y \<and> ex_job y = ex_job x \<and>
    (\<exists>j. jobs_of E s' (ex_job x) = Some j \<and> agrees (ex_state y) (status j)))"
proof (cases "moved_to E x X_RUNNING (reading E s) PNone")
  case (Inl e)
  with ok inv show ?thesis by (auto simp: execute_claimed_def run_good_def)
next
  case (Inr started)
  note st = moved_to_Inr [OF wf Inr]
  have inv0: "sql_inv (re_db E) (rn_table (ticked s))" using inv by simp
  obtain b s1 where body: "run_body E started (ticked s) = (b, s1)" by (cases "run_body E started (ticked s)")
  note good = run_body_good [OF db inv0 h st(1) body]
  have g1: "run_good E s s1" using good(1) by (simp add: run_good_def)
  then have inv1: "sql_inv (re_db E) (rn_table s1)" by (simp add: run_good_def)
  show ?thesis
  proof (cases b)
    case b: (Inr y)
    have "r = Inr y" "s' = s1" using ok Inr body b by (auto simp: execute_claimed_def)
    with g1 good(2) [OF b] st(2) show ?thesis by simp
  next
    case b: (Inl e)
    show ?thesis
    proof (cases e)
      case (Body_Cancelled w)
      then have "finish_cancelled E started w s1 = (r, s')" using ok Inr body b by (simp add: execute_claimed_def)
      from finish_cancelled_good [OF inv1 st(1) this] show ?thesis using run_good_trans [OF g1] st(2) by auto
    next
      case (Body_Runtime e')
      then have "r = Inl e'" "s' = s1" using ok Inr body b by (auto simp: execute_claimed_def)
      with g1 show ?thesis by simp
    next
      case (Body_Failure fl)
      then have "finish_failed E started fl s1 = (r, s')" using ok Inr body b by (simp add: execute_claimed_def)
      from finish_failed_good [OF db inv1 st(1) this] show ?thesis using run_good_trans [OF g1] st(2) by auto
    qed
  qed
qed

lemma claim_good:
  assumes inv: "sql_inv D tbl" and ok: "claim_next_worker_execution D tbl w ty load ttl observed now = (r, tbl')"
  shows "sql_inv D tbl' \<and> jobs_evolve (sql_get_job D tbl) (sql_get_job D tbl') \<and>
    (\<forall>x. r = Inr (Some x) \<longrightarrow> execution_wf x \<and> ex_state x = X_CLAIMED)"
proof -
  have moved: "sql_inv D t \<and> jobs_evolve (sql_get_job D tbl) (sql_get_job D t)"
    if "sql_claim D tbl a b c d = Inr (res, t)" for a b c d res t
  proof (cases res)
    case None
    with sql_claim_law [OF inv that] inv show ?thesis by simp
  next
    case (Some j)
    with sql_claim_law [OF inv that] show ?thesis by (auto intro: jobs_evolve_step)
  qed
  have "(tbl' = tbl \<and> (\<forall>x. r \<noteq> Inr (Some x))) \<or> (\<exists>a b c d res. sql_claim D tbl a b c d = Inr (res, tbl')) \<and>
    (\<forall>x. r = Inr (Some x) \<longrightarrow> (\<exists>j a b c d e f. build_cx_worker_execution j a b c d e f = Inr x))"
    using ok unfolding claim_next_worker_execution_def
    by (auto split: sum.splits prod.splits option.splits job_exn.splits contract_exn.splits)
  then show ?thesis
  proof (elim disjE conjE)
    assume "tbl' = tbl" "\<forall>x. r \<noteq> Inr (Some x)"
    with inv show ?thesis by simp
  next
    assume c: "\<exists>a b c d res. sql_claim D tbl a b c d = Inr (res, tbl')"
      and b: "\<forall>x. r = Inr (Some x) \<longrightarrow> (\<exists>j a b c d e f. build_cx_worker_execution j a b c d e f = Inr x)"
    have "execution_wf x \<and> ex_state x = X_CLAIMED" if "r = Inr (Some x)" for x
      using b that by (blast elim: build_execution_Inr)
    with c moved show ?thesis by blast
  qed
qed

end

lemma rn_table_reported [simp]: "rn_table (reported f s) = rn_table s"
  by (simp add: reported_def)

lemma attempted_table: "attempted f s = (r, s') \<Longrightarrow> rn_table s' = rn_table s"
  by (auto simp: attempted_def split: option.splits prod.splits sum.splits)

text \<open>What a report says of a job, and that it stays true: only a retried job may move on.\<close>

definition outcome_true :: "run_env \<Rightarrow> run_state \<Rightarrow> cx_execution \<Rightarrow> bool" where
  "outcome_true E s y \<longleftrightarrow> execution_wf y \<and> ex_state y \<in> set TERMINAL_EXECUTION_STATES \<and>
     (ex_state y \<noteq> X_RETRY_SCHEDULED \<longrightarrow> (\<exists>j. jobs_of E s (ex_job y) = Some j \<and> agrees (ex_state y) (status j)))"

lemma outcome_trueI:
  "execution_wf y \<Longrightarrow> jobs_of E s (ex_job y) = Some j \<Longrightarrow> agrees (ex_state y) (status j) \<Longrightarrow> outcome_true E s y"
  by (cases "ex_state y") (auto simp: outcome_true_def TERMINAL_EXECUTION_STATES_def)

lemma outcome_true_mono:
  assumes "run_good E s s'" "outcome_true E s y"
  shows "outcome_true E s' y"
proof (cases "ex_state y = X_RETRY_SCHEDULED")
  case False
  then obtain j where j: "jobs_of E s (ex_job y) = Some j" "agrees (ex_state y) (status j)"
    using assms(2) by (auto simp: outcome_true_def)
  then have "terminal (status j)" using False by (cases "ex_state y") (auto simp: TERMINAL_JOB_STATUSES_def)
  with jobs_evolve_terminal [of "jobs_of E s" "jobs_of E s'"] assms(1) j have "jobs_of E s' (ex_job y) = Some j"
    by (auto simp: run_good_def)
  with j assms(2) show ?thesis by (auto simp: outcome_true_def)
qed (use assms(2) in \<open>simp add: outcome_true_def\<close>)

context sql_database
begin

lemma run_one_good:
  assumes db: "re_db E = D" and inv: "sql_inv D (rn_table s)" and h: "handler_calls E"
    and ok: "run_one E started s = (r, s')"
  shows "run_good E s s' \<and> (\<forall>y. r = Inr (Inr y) \<longrightarrow> outcome_true E s' y)"
proof (cases "runtime_time (reading E s) ''observed_at''")
  case (Inl e)
  with ok inv db show ?thesis by (auto simp: run_one_def run_good_def)
next
  case (Inr observed)
  let ?claim = "claim_next_worker_execution D (rn_table s) (re_worker E) (re_type E) (re_workload E)
                     (re_ttl E) (Some (wire_timestamp observed)) (re_now E)"
  show ?thesis
  proof (cases "stopping_requested (ticked s) \<or> observed - started \<ge> rt_max_duration (re_policy E) * 1000000")
    case True
    with ok Inr inv db show ?thesis by (auto simp: run_one_def Let_def run_good_def split: if_splits)
  next
    case False
    obtain c tbl where c: "?claim = (c, tbl)" by (cases ?claim)
    note cg = claim_good [OF inv c]
    have g1: "run_good E s ((ticked s)\<lparr>rn_table := tbl\<rparr>)" using cg by (simp add: run_good_def db)
    show ?thesis
    proof (cases "\<exists>x. c = Inr (Some x)")
      case no: False
      with ok Inr False c db g1 show ?thesis
        by (auto simp: run_one_def Let_def split: sum.splits option.splits)
    next
      case True
      then obtain x where x: "c = Inr (Some x)" by blast
      with cg have wf: "execution_wf x" by blast
      let ?busy = "attempted (\<lambda>lc. lc_busy lc (ex_job x) (ex_trace x) (Some (wire_timestamp observed)) (re_now E))
                          ((ticked s)\<lparr>rn_table := tbl\<rparr>)"
      obtain b s2 where b: "?busy = (b, s2)" by (cases ?busy)
      have g2: "run_good E s s2" by (rule run_good_table [OF g1]) (use attempted_table [OF b] in simp)
      then have inv2: "sql_inv (re_db E) (rn_table s2)" by (simp add: run_good_def)
      obtain q s3 where q: "execute_claimed E x s2 = (q, s3)" by (cases "execute_claimed E x s2")
      note ex = execute_claimed_good [OF db inv2 h wf q]
      have g3: "run_good E s s3" using run_good_trans [OF g2] ex by blast
      show ?thesis
      proof (cases b)
        case (Inl e)
        with ok Inr False c x b db g2 show ?thesis by (auto simp: run_one_def Let_def)
      next
        case b': (Inr u)
        show ?thesis
        proof (cases q)
          case q': (Inl e)
          have "rn_table s' = rn_table s3 \<and> (\<forall>y. r \<noteq> Inr (Inr y))"
            using ok Inr False c x b b' q q' db
            by (auto simp: run_one_def Let_def attempted_def split: if_splits prod.splits sum.splits option.splits)
          then show ?thesis using run_good_table [OF g3] by blast
        next
          case q': (Inr y)
          have s': "rn_table s' = rn_table s3" "r = Inr (Inr y)"
            using ok Inr False c x b b' q q' db by (auto simp: run_one_def Let_def split: if_splits)
          from ex q' obtain j where "execution_wf y" "ex_job y = ex_job x" "jobs_of E s3 (ex_job x) = Some j"
            "agrees (ex_state y) (status j)" by blast
          then have "outcome_true E s' y" by (intro outcome_trueI) (simp_all add: s')
          with run_good_table [OF g3 s'(1)] s'(2) show ?thesis by simp
        qed
      qed
    qed
  qed
qed

lemma run_loop_good:
  assumes db: "re_db E = D" and h: "handler_calls E"
  shows "sql_inv D (rn_table s) \<Longrightarrow> run_loop E started k s = (r, s') \<Longrightarrow>
    run_good E s s' \<and> (\<forall>reason ys. r = Inr (reason, ys) \<longrightarrow> length ys \<le> k \<and> (\<forall>y \<in> set ys. outcome_true E s' y))"
proof (induction k arbitrary: s r)
  case 0
  then show ?case by (auto simp: run_good_def db)
next
  case (Suc k)
  obtain q s1 where q: "run_one E started s = (q, s1)" by (cases "run_one E started s")
  note one = run_one_good [OF db Suc.prems(1) h q]
  then have inv1: "sql_inv D (rn_table s1)" by (simp add: run_good_def db)
  show ?case
  proof (cases "\<exists>y. q = Inr (Inr y)")
    case False
    then show ?thesis using Suc.prems(2) q one by (auto split: sum.splits)
  next
    case True
    then obtain y where y: "q = Inr (Inr y)" by blast
    show ?thesis
    proof (cases "ex_state y \<in> {X_RETRY_SCHEDULED, X_DEAD_LETTERED} \<and> rt_stop_on_failure (re_policy E)")
      case True
      then show ?thesis using Suc.prems(2) q one y by auto
    next
      case False
      obtain q2 s2 where two: "run_loop E started k s1 = (q2, s2)" by (cases "run_loop E started k s1")
      have r: "r = (case q2 of Inl e \<Rightarrow> Inl e | Inr (reason, ys) \<Rightarrow> Inr (reason, y # ys)) \<and> s2 = s'"
        using Suc.prems(2) q y False two by (cases q2) (auto split: prod.splits)
      note rest = Suc.IH [OF inv1 two [unfolded r [THEN conjunct2]]]
      from r rest one y run_good_trans [of E s s1 s'] outcome_true_mono [of E s1 s' y] show ?thesis
        by (auto split: sum.splits prod.splits)
    qed
  qed
qed

lemma project_all_Inr:
  "\<forall>x \<in> set xs. execution_wf x \<Longrightarrow> project_all xs = Inr xs"
  by (induction xs) (auto simp: validate_execution_to_dict)

lemma batch_good:
  assumes db: "re_db E = D" and h: "handler_calls E" and inv: "sql_inv D (rn_table s)"
    and ok: "run_bounded_worker_batch E s = (r, s')"
  shows "run_good E s s' \<and> (\<forall>res. r = Inr res \<longrightarrow>
    jobs_claimed res \<le> nat (rt_max_jobs (re_policy E)) \<and> (\<forall>y \<in> set (rs_executions res). outcome_true E s' y))"
proof (cases "runtime_time (reading E s) ''started_at''")
  case (Inl e)
  with ok inv db show ?thesis by (auto simp: run_bounded_worker_batch_def run_good_def)
next
  case (Inr started)
  define s1 where "s1 = reported (\<lambda>lc. lc_idle lc (Some (wire_timestamp started)) (re_now E))
                      (reported (\<lambda>lc. lc_starting lc (Some (wire_timestamp started)) (re_now E)) (ticked s))"
  have t1: "rn_table s1 = rn_table s" by (simp add: s1_def)
  obtain q s2 where q: "run_loop E started (nat (rt_max_jobs (re_policy E))) s1 = (q, s2)"
    by (cases "run_loop E started (nat (rt_max_jobs (re_policy E))) s1")
  have "sql_inv D (rn_table s1)" using inv t1 by simp
  note loop = run_loop_good [OF db h this q]
  have g: "run_good E s s2" using loop t1 by (simp add: run_good_def)
  have run: "run_bounded_worker_batch E s =
    (case run_loop E started (nat (rt_max_jobs (re_policy E))) s1 of
             (Inl e, s2) \<Rightarrow> (Inl e, s2)
           | (Inr (reason, xs), s2) \<Rightarrow>
               (case runtime_time (reading E s2) ''completed_at'' of
                  Inl e \<Rightarrow> (Inl e, ticked s2)
                | Inr completed \<Rightarrow>
                    (let at_end = Some (wire_timestamp completed);
                         s3 = (if stopping_requested (ticked s2)
                               then reported (\<lambda>lc. lc_stopped lc at_end (re_now E))
                                      (reported (\<lambda>lc. lc_stopping lc at_end (re_now E)) (ticked s2))
                               else ticked s2) in
                     (sbind (map_err Runtime_Contract (project_all xs)) (\<lambda>ys.
                      sbind (runtime_string (re_worker E) ''worker_id'') (\<lambda>w.
                      sbind (runtime_string (re_type E) ''worker_type'') (\<lambda>t.
                      sbind (runtime_string (re_workload E) ''workload'') (\<lambda>l.
                      Inr \<lparr>rs_worker = w, rs_type = t, rs_workload = l, rs_reason = reason, rs_started = started,
                           rs_completed = completed, rs_executions = ys\<rparr>)))), s3))))"
    unfolding run_bounded_worker_batch_def s1_def Let_def by (simp add: Inr)
  show ?thesis
  proof (cases q)
    case (Inl e)
    with ok q g show ?thesis unfolding run by auto
  next
    case q': (Inr p)
    obtain reason xs where p: "p = (reason, xs)" by (cases p)
    have xs: "length xs \<le> nat (rt_max_jobs (re_policy E))" "\<forall>y \<in> set xs. outcome_true E s2 y" using loop q' p by auto
    then have pr: "project_all xs = Inr xs" by (intro project_all_Inr) (auto simp: outcome_true_def)
    have tab: "rn_table s' = rn_table s2" and res: "\<And>res. r = Inr res \<Longrightarrow> rs_executions res = xs"
      using ok q q' p pr unfolding run Let_def by (auto simp: res_simps split: sum.splits if_splits)
    from tab have same: "outcome_true E s' y = outcome_true E s2 y" for y by (simp add: outcome_true_def)
    show ?thesis using run_good_table [OF g tab] res xs by (auto simp: jobs_claimed_def same)
  qed
qed

end

text \<open>The counts of the outcomes add up to the executions claimed.\<close>

lemma count_states:
  "\<forall>x \<in> set xs. ex_state x \<in> set TERMINAL_EXECUTION_STATES \<Longrightarrow>
    sum_list (map (\<lambda>st. count_state st xs) [X_SUCCEEDED, X_CANCELLED, X_RETRY_SCHEDULED, X_DEAD_LETTERED]) = length xs"
  by (induction xs) (auto simp: count_state_def TERMINAL_EXECUTION_STATES_def)

text \<open>Once a shutdown is requested, a batch claims nothing.\<close>

lemma stopping_reported_idle:
  "stopping_requested s \<Longrightarrow> stopping_requested (reported (\<lambda>lc. lc_idle lc w n) s)"
  "stopping_requested s \<Longrightarrow> stopping_requested (reported (\<lambda>lc. lc_starting lc w n) s)"
  "stopping_requested s \<Longrightarrow> stopping_requested (ticked s)"
  by (auto simp: stopping_requested_def reported_def ticked_def lc_idle_def lc_stopping_def lc_starting_def
      lifecycle_emit_def split_beta split: option.splits)

lemma shutdown_claims_nothing:
  assumes "stopping_requested s" "1 \<le> rt_max_jobs (re_policy E)" "run_bounded_worker_batch E s = (r, s')"
  shows "rn_table s' = rn_table s \<and> (\<forall>res. r = Inr res \<longrightarrow> rs_executions res = [] \<and> rs_reason res = SHUTDOWN)"
proof (cases "runtime_time (reading E s) ''started_at''")
  case (Inl e)
  with assms(3) show ?thesis by (auto simp: run_bounded_worker_batch_def)
next
  case (Inr started)
  define s1 where "s1 = reported (\<lambda>lc. lc_idle lc (Some (wire_timestamp started)) (re_now E))
                      (reported (\<lambda>lc. lc_starting lc (Some (wire_timestamp started)) (re_now E)) (ticked s))"
  have s1: "rn_table s1 = rn_table s" "stopping_requested s1"
    using assms(1) by (simp_all add: s1_def stopping_reported_idle)
  obtain k where k: "nat (rt_max_jobs (re_policy E)) = Suc k" using assms(2) by (cases "nat (rt_max_jobs (re_policy E))") auto
  have "run_loop E started (Suc k) s1 =
    (case runtime_time (reading E s1) ''observed_at'' of
       Inl e \<Rightarrow> (Inl e, ticked s1) | Inr _ \<Rightarrow> (Inr (SHUTDOWN, []), ticked s1))"
    using stopping_reported_idle(3) [OF s1(2)] by (simp add: run_one_def Let_def split: sum.split)
  with assms(3) Inr k s1 show ?thesis
    by (auto simp: run_bounded_worker_batch_def Let_def s1_def [symmetric] res_simps split: sum.splits if_splits)
qed

subsection \<open>An execution ends\<close>

text \<open>
  What a run needs to end each execution: a clock that gives times a service writes and does not go
  back, and a handler under which the job keeps running, in the same attempt, and that returns or fails.
\<close>

definition clock_at :: "run_env \<Rightarrow> (nat \<Rightarrow> int) \<Rightarrow> bool" where
  "clock_at E c \<longleftrightarrow> (\<forall>n. re_clock E n = wire_timestamp (c n) \<and> in_range (c n) \<and> in_range (c n + 900 * 1000000))"

definition handler_ends :: "run_env \<Rightarrow> string \<Rightarrow> bool" where
  "handler_ends E i \<longleftrightarrow> (\<forall>x s j. jobs_of E s i = Some j \<longrightarrow> status j = RUNNING \<longrightarrow>
     rn_ticks s \<le> rn_ticks (snd (re_handler E x s)) \<and>
     (\<exists>j'. jobs_of E (snd (re_handler E x s)) i = Some j' \<and> status j' = RUNNING \<and> attempt_count j' = attempt_count j) \<and>
     (case fst (re_handler E x s) of
        Inr _ \<Rightarrow> True
      | Inl (Body_Failure fl) \<Rightarrow> \<exists>c. classify_worker_failure fl None = Inr c
      | Inl _ \<Rightarrow> False))"

lemma handler_endsD:
  assumes "handler_ends E i" "jobs_of E s i = Some j" "status j = RUNNING" "re_handler E x s = (hr, s1)"
  obtains j' where "rn_ticks s \<le> rn_ticks s1" "jobs_of E s1 i = Some j'" "status j' = RUNNING" "attempt_count j' = attempt_count j"
    "case hr of Inr _ \<Rightarrow> True | Inl (Body_Failure fl) \<Rightarrow> \<exists>c. classify_worker_failure fl None = Inr c | Inl _ \<Rightarrow> False"
proof -
  have "rn_ticks s \<le> rn_ticks s1 \<and>
     (\<exists>j'. jobs_of E s1 i = Some j' \<and> status j' = RUNNING \<and> attempt_count j' = attempt_count j) \<and>
     (case hr of
        Inr _ \<Rightarrow> True
      | Inl (Body_Failure fl) \<Rightarrow> \<exists>c. classify_worker_failure fl None = Inr c
      | Inl _ \<Rightarrow> False)"
    using assms(1) [unfolded handler_ends_def, rule_format, OF assms(2,3), of x] unfolding assms(4) by simp
  then show ?thesis using that by blast
qed

lemma clock_reading:
  assumes "clock_at E c"
  shows "parse_wire_datetime (reading E s) = Inr (c (rn_ticks s))" "reading E s \<noteq> []"
    "good_time (or_default (Some (reading E s)) d)"
  using assms by (simp_all add: clock_at_def reading_def wire_timestamp_nonempty good_time_def)

lemma ticked_ticks [simp]: "rn_ticks (ticked s) = rn_ticks s + 1"
  by (simp add: ticked_def)

lemma checkpoint_running:
  assumes "clock_at E c" "jobs_of E s0 i = Some j" "status j = RUNNING" "rn_table s0 = rn_table s"
  shows "checkpoint (re_db E) (rn_table s) i (Some (reading E s)) now = Inr ()"
proof -
  have "runtime_time (or_default (Some (reading E s)) now) ''observed_at'' = Inr (c (rn_ticks s))"
    using clock_reading [OF assms(1), of s] by (cases "reading E s") (auto simp: runtime_time_def)
  moreover have "select_job (re_db E) (rn_table s) i = Inr (Some j)"
    using assms(2,4) by (simp add: select_job_Some)
  ultimately show ?thesis using assms(3) by (simp add: checkpoint_def)
qed

context sql_database
begin

lemma execute_claimed_ends:
  assumes db: "re_db E = D" and inv: "sql_inv D (rn_table s)" and c: "clock_at E c" and mono: "\<forall>m n. m \<le> n \<longrightarrow> c m \<le> c n"
    and x: "execution_wf x" "ex_state x = X_CLAIMED" "ex_updated x \<le> c (rn_ticks s)"
    and j: "jobs_of E s (ex_job x) = Some j" "status j = RUNNING" "attempt_count j \<le> 1000"
    and h: "handler_calls E" "handler_ends E (ex_job x)"
  shows "\<exists>y s'. execute_claimed E x s = (Inr y, s')"
proof -
  have "\<exists>y. moved_to E x X_RUNNING (reading E s) PNone = Inr y \<and> ex_updated y = c (rn_ticks s)"
    by (rule moved_to_total [OF x(1) _ clock_reading(1,2) [OF c] x(3)]) (simp_all add: x(2))
  then obtain x1 where x1: "moved_to E x X_RUNNING (reading E s) PNone = Inr x1" "ex_updated x1 = c (rn_ticks s)" by blast
  note st = moved_to_Inr [OF x(1) x1(1)]
  let ?s = "ticked s"
  obtain hr s1 where hs: "re_handler E x1 (ticked ?s) = (hr, s1)" by (cases "re_handler E x1 (ticked ?s)")
  have j0: "jobs_of E (ticked ?s) (ex_job x) = Some j" using j(1) by simp
  obtain k where h1: "rn_ticks s + 2 \<le> rn_ticks s1" "jobs_of E s1 (ex_job x) = Some k" "status k = RUNNING" "attempt_count k \<le> 1000"
    "case hr of Inr _ \<Rightarrow> True | Inl (Body_Failure fl) \<Rightarrow> \<exists>c. classify_worker_failure fl None = Inr c | Inl _ \<Rightarrow> False"
    by (rule handler_endsD [OF h(2) j0 j(2) hs]) (use j(3) in simp)
  have inv1: "sql_inv D (rn_table s1)" using handler_good [OF db h(1), of "ticked ?s" x1] inv hs db by (simp add: run_good_def)
  have cp1: "checkpoint (re_db E) (rn_table ?s) (ex_job x1) (Some (reading E ?s)) (re_now E) = Inr ()"
    by (rule checkpoint_running [OF c _ j(2)]) (use j(1) st(2) in simp_all)
  have later: "c (rn_ticks s) \<le> c (rn_ticks s1 + n)" for n
    by (rule mono [rule_format]) (use h1(1) in simp)
  show ?thesis
  proof (cases hr)
    case hr: (Inr u)
    have cp2: "checkpoint (re_db E) (rn_table s1) (ex_job x1) (Some (reading E s1)) (re_now E) = Inr ()"
      by (rule checkpoint_running [OF c _ h1(3)]) (use h1(2) st(2) in simp_all)
    have "\<exists>r. sql_complete D (rn_table s1) (ex_job x) (Some (reading E (ticked s1))) (re_now E) = Inr r"
      by (rule sql_complete_total [OF inv1 _ h1(3) clock_reading(3) [OF c]]) (use h1(2) db in simp)
    moreover have "\<exists>y. moved_to E x1 X_SUCCEEDED (reading E (ticked s1)) PNone = Inr y \<and> ex_updated y = c (rn_ticks (ticked s1))"
      by (rule moved_to_total [OF st(1) _ clock_reading(1,2) [OF c]]) (use later [of 1] x1(2) in \<open>simp_all add: st(3)\<close>)
    ultimately show ?thesis
      using x1(1) cp1 cp2 hs hr st(2) db
      by (auto simp: execute_claimed_def run_body_def Let_def)
  next
    case hr: (Inl e)
    with h1(5) obtain fl d where e: "e = Body_Failure fl" and cl: "classify_worker_failure fl None = Inr d"
      by (cases e) auto
    have exec: "execute_claimed E x s = finish_failed E x1 fl s1"
      using x1(1) cp1 hs hr e by (simp add: execute_claimed_def run_body_def)
    have id: "job_id k = ex_job x" "q_get (sq_queue (sql_settling D)) (rn_table s1) (job_id k) = Some k"
      using sql_get_wf [OF h1(2)] h1(2) db by auto
    have "\<exists>r. settle_worker_failure (sql_settling D) (rn_table s1) k fl (reading E s1) None (re_now E) = Inr r"
      by (rule settling.settle_running [OF inv1 id(2) h1(3,4) _ clock_reading(3) [OF c] cl])
        (use id(1) execution_job_stripped [OF x(1)] in simp)
    then obtain sr tbl where settle: "settle_worker_failure (sql_settling D) (rn_table s1) k fl (reading E s1) None (re_now E) = Inr (sr, tbl)"
      by auto
    have code: "st_code sr = safe_failure_code fl"
      by (rule settling.settle_law [OF inv1 settle]) simp
    have "\<exists>y. moved_to E x1 (settled_state (st_action sr)) (reading E s1) (PStr (st_code sr)) = Inr y \<and> ex_updated y = c (rn_ticks s1)"
      by (rule moved_to_total [OF st(1) _ clock_reading(1,2) [OF c]])
        (use later [of 0] x1(2) safe_failure_code_nonblank [of fl] in
          \<open>auto simp: st(3) code settled_state_def split: settlement_action.split\<close>)
    moreover have "read_job (re_db E) (rn_table s1) (ex_job x1) = Inr k" using h1(2) st(2) by (simp add: read_job_Inr)
    ultimately show ?thesis
      unfolding exec using settle db by (auto simp: finish_failed_def Let_def)
  qed
qed

text \<open>No settlement of a job that is not running any more.\<close>

lemma settle_not_running:
  assumes inv: "sql_inv D tbl" and j: "sql_get_job D tbl (job_id j) = Some j" "status j \<noteq> RUNNING" "py_strip (job_id j) = job_id j"
    and c: "classify_worker_failure fl None = Inr c" "wc_class c = TRANSIENT"
  shows "\<exists>d. settle_worker_failure (sql_settling D) tbl j fl w None now = Inl (resilience_error ''settlement_failed'' d 409 False)"
proof -
  note code = classify_Inr(1) [OF c(1)]
  have retry: "wc_retryable c" using classify_Inr(2) [OF c(1)] c(2) by simp
  obtain err where err: "build_job_error (wc_code c) SAFE_FAILURE_DETAIL (wc_retryable c) False = Inr err"
    unfolding code using safe_error_parts [of fl "wc_retryable c"] by metis
  have wf: "job_wf j" "job_id j \<noteq> []" using sql_get_wf [OF j(1)] by (auto simp: job_wf_def)
  have "sql_retry D tbl (job_id j) (Some err) (Some w) (Some default_retry_policy) now =
      Inl (JobQueueError ''job.retry_status_invalid'' ''only RUNNING jobs can be retried'' 409)"
    using j(1,2) wf(1) by (simp add: sql_retry_def select_job_Some [THEN iffD2] plan_job_retry_def)
  then show ?thesis
    using c(1) err j(3) wf(2) retry
    by (simp add: settle_worker_failure_def resilience_string_def resolved_policy_def retry_policy_default)
qed

lemma time_regression_class:
  "\<exists>c. classify_worker_failure (contract_failure (contract_error ''time_regression'' d 409)) None = Inr c \<and>
    wc_class c = TRANSIENT"
proof -
  have "safe_failure_code (contract_failure (contract_error ''time_regression'' d 409)) = ''cx.worker_execution.time_regression''"
    by (simp add: safe_failure_code_def plain_failure_def, code_simp)
  then show ?thesis
    by (simp add: classify_worker_failure_def Let_def resolved_policy_def default_resilience_policy_def plain_failure_def
        permanent_status_def)
qed

text \<open>
  A clock that goes back between the start and the completion of an execution: the job is completed
  first, then the execution refuses to move, and the failure cannot be written any more.
\<close>

lemma clock_regression_after_completion:
  assumes db: "re_db E = D" and inv: "sql_inv D (rn_table s)" and c: "clock_at E c"
    and x: "execution_wf x" "ex_state x = X_CLAIMED" "ex_updated x \<le> c (rn_ticks s)"
    and j: "jobs_of E s (ex_job x) = Some j" "status j = RUNNING"
    and h: "handler_calls E" "handler_ends E (ex_job x)"
    and ret: "\<forall>x s. fst (re_handler E x s) = Inr () \<and> rn_ticks (snd (re_handler E x s)) = rn_ticks s"
    and regress: "c (rn_ticks s + 3) < c (rn_ticks s)"
  shows "\<exists>d s' j'. execute_claimed E x s = (Inl (runtime_error ''failure_write_failed'' d 409 False), s') \<and>
    jobs_of E s' (ex_job x) = Some j' \<and> status j' = SUCCEEDED"
proof -
  have "\<exists>y. moved_to E x X_RUNNING (reading E s) PNone = Inr y \<and> ex_updated y = c (rn_ticks s)"
    by (rule moved_to_total [OF x(1) _ clock_reading(1,2) [OF c] x(3)]) (simp_all add: x(2))
  then obtain x1 where x1: "moved_to E x X_RUNNING (reading E s) PNone = Inr x1" "ex_updated x1 = c (rn_ticks s)" by blast
  note st = moved_to_Inr [OF x(1) x1(1)]
  let ?s = "ticked s"
  obtain s1 where hs: "re_handler E x1 (ticked ?s) = (Inr (), s1)" "rn_ticks s1 = rn_ticks s + 2"
    using ret by (metis add.assoc one_add_one prod.collapse ticked_ticks)
  have j0: "jobs_of E (ticked ?s) (ex_job x) = Some j" using j(1) by simp
  obtain k where h1: "jobs_of E s1 (ex_job x) = Some k" "status k = RUNNING" by (rule handler_endsD [OF h(2) j0 j(2) hs(1)])
  have inv1: "sql_inv D (rn_table s1)" using handler_good [OF db h(1), of "ticked ?s" x1] inv hs(1) db by (simp add: run_good_def)
  have cp1: "checkpoint (re_db E) (rn_table ?s) (ex_job x1) (Some (reading E ?s)) (re_now E) = Inr ()"
    by (rule checkpoint_running [OF c _ j(2)]) (use j(1) st(2) in simp_all)
  have cp2: "checkpoint (re_db E) (rn_table s1) (ex_job x1) (Some (reading E s1)) (re_now E) = Inr ()"
    by (rule checkpoint_running [OF c _ h1(2)]) (use h1(1) st(2) in simp_all)
  have "\<exists>r. sql_complete D (rn_table s1) (ex_job x) (Some (reading E (ticked s1))) (re_now E) = Inr r"
    by (rule sql_complete_total [OF inv1 _ h1(2) clock_reading(3) [OF c]]) (use h1(1) db in simp)
  then obtain j' tbl where fin: "sql_complete D (rn_table s1) (ex_job x) (Some (reading E (ticked s1))) (re_now E) = Inr (j', tbl)"
    by auto
  note law = sql_transition_law [OF inv1 fin [unfolded sql_complete_def]]
  have "moved_to E x1 X_SUCCEEDED (reading E (ticked s1)) PNone =
      Inl (contract_error ''time_regression'' ''worker execution timestamps must not move backwards.'' 409)"
  proof -
    have "contract_time (PStr (or_default (Some (reading E (ticked s1))) (re_now E))) ''observed_at'' = Inr (c (rn_ticks s + 3))"
      using clock_reading(1,2) [OF c, of "ticked s1"] hs(2) by (cases "reading E (ticked s1)") (auto simp: contract_time_def eval_nat_numeral)
    then show ?thesis
      using validate_execution_to_dict [OF st(1)] regress x1(2)
      by (simp add: moved_to_def transition_cx_worker_execution_def st(3) del: execution_state_text.simps)
  qed
  then have exec: "execute_claimed E x s = finish_failed E x1
      (contract_failure (contract_error ''time_regression'' ''worker execution timestamps must not move backwards.'' 409))
      ((ticked (ticked s1))\<lparr>rn_table := tbl\<rparr>)"
    using x1(1) cp1 cp2 hs(1) fin st(2) db by (simp add: execute_claimed_def run_body_def Let_def)
  have j': "sql_get_job D tbl (ex_job x) = Some j'" "status j' = SUCCEEDED" using law by simp_all
  have id: "job_id j' = ex_job x" using sql_get_wf [OF j'(1)] by simp
  obtain cl where cl: "classify_worker_failure (contract_failure
      (contract_error ''time_regression'' ''worker execution timestamps must not move backwards.'' 409)) None = Inr cl"
    "wc_class cl = TRANSIENT" using time_regression_class by blast
  obtain d where "settle_worker_failure (sql_settling D) tbl j' (contract_failure
      (contract_error ''time_regression'' ''worker execution timestamps must not move backwards.'' 409))
      (reading E ((ticked (ticked s1))\<lparr>rn_table := tbl\<rparr>)) None (re_now E) = Inl (resilience_error ''settlement_failed'' d 409 False)"
    using settle_not_running [OF law(1) _ _ _ cl] j' id execution_job_stripped [OF x(1)] by fastforce
  moreover have "read_job (re_db E) tbl (ex_job x1) = Inr j'" using j'(1) st(2) db by (simp add: read_job_Inr)
  ultimately show ?thesis
    unfolding exec using j' db by (simp add: finish_failed_def Let_def del: contract_failure.simps)
qed

end

end
