(* ===== verification/Sample_Workers.thy ===== *)
theory Sample_Workers
  imports Sample_States Worker_Reconciliation Worker_Runtime
begin

section \<open>Sample workers\<close>

text \<open>
  Concrete tables, plans and runs of the CX workers, with what the operations compute on them, for
  the witnesses of the properties.
\<close>

subsection \<open>A job whose worker is lost\<close>

definition proc_job :: common_job where
  "proc_job = sample_job\<lparr>job_id := ''job-3'', job_type := ''cx.document_processing'', idempotency_key := ''key-3''\<rparr>"

definition proc_table :: table where
  "proc_table = (case sql_enqueue sample_db [] proc_job of Inr (j, t) \<Rightarrow> t)"

definition lost_claim :: "common_job option \<times> table" where
  "lost_claim = (case sql_claim sample_db proc_table ''worker-1'' (Some ''cx.document_processing'') (Some t1) t1 of Inr p \<Rightarrow> p)"

definition lost_table :: table where
  "lost_table = snd lost_claim"

definition late :: string where "late = ''2026-01-01T00:05:00Z''"
definition later :: string where "later = ''2026-01-01T00:05:10Z''"

definition lost_plan :: recon_plan where
  "lost_plan = (case build_worker_reconciliation_plan sample_db lost_table [] late (Some 120) 60 late of Inr p \<Rightarrow> p)"

lemma lost_plan_built:
  "build_worker_reconciliation_plan sample_db lost_table [] late (Some 120) 60 late = Inr lost_plan"
  by code_simp

lemma lost_table_inv: "sql_inv sample_db lost_table"
proof -
  have "case sql_enqueue sample_db [] proc_job of Inr (j, t) \<Rightarrow> True | _ \<Rightarrow> False" by code_simp
  then obtain j where e: "sql_enqueue sample_db [] proc_job = Inr (j, proc_table)"
    by (auto simp: proc_table_def split: sum.splits)
  have empty: "sql_inv sample_db []" by (simp add: sql_inv_def)
  from empty e have inv: "sql_inv sample_db proc_table" by (cases rule: sql_enqueue_Inr) (use empty in auto)
  have "case sql_claim sample_db proc_table ''worker-1'' (Some ''cx.document_processing'') (Some t1) t1 of
      Inr (Some j, tbl) \<Rightarrow> True | _ \<Rightarrow> False"
    by code_simp
  then obtain k where c: "sql_claim sample_db proc_table ''worker-1'' (Some ''cx.document_processing'') (Some t1) t1 = Inr (Some k, lost_table)"
    by (auto simp: lost_table_def lost_claim_def split: sum.splits option.splits)
  from sql_claim_law [OF inv c] show ?thesis by simp
qed

lemma lost_table_tidy: "tidy_rows lost_table"
  by code_simp

lemma lost_table_rows:
  "find_row lost_table ''job-3'' = Some (hd lost_table)" "row_status (hd lost_table) = RUNNING"
  "row_locked_by (hd lost_table) = Some ''worker-1''" "row_locked_at (hd lost_table) = Some 63902822460000000"
  "\<forall>r \<in> set lost_table. row_attempt_count r \<le> 1000"
  by code_simp+

lemma late_time: "parse_wire_datetime late = Inr 63902822700000000" "good_time late" "py_strip late = late"
  by code_simp+

lemma lost_table_lost: "lost_job lost_table [] 120 60 63902822700000000 ''job-3''"
  by (auto simp: lost_job_def lost_table_rows row_action_RECOVER reporting_def)

lemma lost_table_attempts:
  "\<forall>i j. sql_get_job sample_db lost_table i = Some j \<and> status j = RUNNING \<longrightarrow> attempt_count j \<le> 1000"
  using lost_table_rows(5) by (auto simp: sql_get_Some job_from_row_Inr dest: find_row_in)

definition lost_job_stored :: common_job where
  "lost_job_stored = (case sql_get_job sample_db lost_table ''job-3'' of Some j \<Rightarrow> j)"

lemma lost_job_stored: "sql_get_job sample_db lost_table ''job-3'' = Some lost_job_stored"
  "job_type lost_job_stored = ''cx.document_processing''"
  by code_simp+

lemma empty_store: "store_inv []"
  by (simp add: store_inv_def)

subsection \<open>The same running job on both queues\<close>

lemma claimed_sim: "\<exists>tbl. sql_sim sample_db claimed_queue tbl"
proof -
  have one: "sql_sim sample_db sample_queue [sample_row]"
    using sim_enqueue [OF sample_sim sample_stored_form] sample_enqueue sample_sql_enqueue by (simp add: sim_result_def)
  have t: "db_time sample_db (or_default (Some t1) t1) \<noteq> None" by code_simp
  have start: "transition sample_queue ''job-1'' RUNNING (Some t1) t1 = Inr (claimed_job, claimed_queue)" by code_simp
  from sim_transition [OF one t, of "''job-1''" RUNNING] show ?thesis unfolding start by (auto simp: sim_result_def)
qed

definition claimed_settlement :: "settlement \<times> memory_queue" where
  "claimed_settlement =
     (case settle_worker_failure memory_settling claimed_queue claimed_job expired_worker_lease_failure t1 None t1 of Inr p \<Rightarrow> p)"

lemma claimed_settled:
  "settle_worker_failure memory_settling claimed_queue claimed_job expired_worker_lease_failure t1 None t1 = Inr claimed_settlement"
  "st_action (fst claimed_settlement) = RETRY_SCHEDULED"
  by code_simp+

subsection \<open>A renewal after the plan\<close>

lemma late_renewal_parts:
  "lease_string ''job-3'' ''job_id'' = Inr ''job-3''" "lease_string ''worker-1'' ''worker_id'' = Inr ''worker-1''"
  "lease_time t1 ''expected_locked_at'' = Inr 63902822460000000" "or_default (Some later) later = later"
  "lease_time later ''observed_at'' = Inr 63902822710000000"
  "lease_param sample_db 63902822460000000 = Inr 63902822460000000"
  "lease_param sample_db 63902822710000000 = Inr 63902822710000000"
  "length (filter (renewable ''job-3'' ''worker-1'' 63902822460000000) lost_table) = 1"
  by code_simp+

definition late_rows :: table where
  "late_rows = renewed_table lost_table ''job-3'' ''worker-1'' 63902822460000000 63902822710000000"

definition late_lease :: lease where
  "late_lease = (case lease_projection (hd late_rows) 120 63902822710000000 of Inr l \<Rightarrow> l)"

lemma late_renewed_parts:
  "find_row late_rows ''job-3'' = Some (hd late_rows)" "lease_projection (hd late_rows) 120 63902822710000000 = Inr late_lease"
  by code_simp+

lemma late_renewed: "renew sample_db lost_table ''job-3'' ''worker-1'' t1 (Some later) (Some 120) later = (Inr late_lease, late_rows)"
  by (simp add: renew_def late_renewal_parts late_renewed_parts late_rows_def [symmetric] del: One_nat_def)

subsection \<open>A run\<close>

text \<open>A clock that advances a second per reading, for a thousand readings.\<close>

definition second_clock :: "nat \<Rightarrow> int" where
  "second_clock n = 63902822460000000 + int (min n 1000) * 1000000"

definition quiet :: cx_handler where
  "quiet x s = (Inr (), s)"

definition sample_run_env :: run_env where
  "sample_run_env = \<lparr>re_db = sample_db, re_clock = (\<lambda>n. wire_timestamp (second_clock n)), re_handler = quiet,
     re_worker = ''worker-1'', re_type = ''ingest'', re_workload = ''document_ingestion'',
     re_policy = default_runtime_policy, re_ttl = Some 120, re_now = t1\<rparr>"

definition start_state :: run_state where
  "start_state = \<lparr>rn_table = [sample_row], rn_ticks = 0, rn_life = None\<rparr>"

definition claimed_state :: run_state where
  "claimed_state = \<lparr>rn_table = leased_table, rn_ticks = 0, rn_life = None\<rparr>"

lemma after_t1: "63902822460000000 \<le> t \<Longrightarrow> t \<le> 63902825360000000 \<Longrightarrow> in_range t"
proof -
  have "in_range 63902822460000000" "in_range 63902825360000000" by code_simp+
  then show "63902822460000000 \<le> t \<Longrightarrow> t \<le> 63902825360000000 \<Longrightarrow> in_range t" unfolding in_range_def by linarith
qed

lemma second_clock_bounds: "63902822460000000 \<le> second_clock n" "second_clock n \<le> 63902823460000000"
  by (simp_all add: second_clock_def)

lemma near_clock: "63902822460000000 \<le> t \<Longrightarrow> t \<le> 63902824460000000 \<Longrightarrow> in_range t \<and> in_range (t + 900 * 1000000)"
  by (intro conjI after_t1) simp_all

lemma sample_clock: "clock_at sample_run_env second_clock"
proof -
  have "in_range (second_clock n) \<and> in_range (second_clock n + 900 * 1000000)" for n
    using second_clock_bounds [of n] by (intro near_clock) simp_all
  then show ?thesis unfolding clock_at_def by (simp add: sample_run_env_def)
qed

lemma second_clock_mono: "\<forall>m n. m \<le> n \<longrightarrow> second_clock m \<le> second_clock n"
  by (auto simp: second_clock_def min_def)

lemma sample_handler_calls: "handler_calls sample_run_env"
  by (simp add: handler_calls_def sample_run_env_def quiet_def)

lemma sample_handler_ends: "handler_ends sample_run_env i"
  by (simp add: handler_ends_def sample_run_env_def quiet_def)

lemma sample_execution_wf: "execution_wf sample_execution" "ex_state sample_execution = X_CLAIMED"
  "ex_updated sample_execution = 63902822460000000"
proof -
  have "parse_wire_datetime (or_default (Some t1) t1) = Inr 63902822460000000" by code_simp
  with sample_build show "execution_wf sample_execution" "ex_state sample_execution = X_CLAIMED"
    "ex_updated sample_execution = 63902822460000000"
    by (auto elim: build_execution_Inr)
qed

lemma sample_execution_job: "ex_job sample_execution = ''job-1''"
  by code_simp

lemma sample_claimed_stored:
  "sql_get_job sample_db leased_table ''job-1'' = Some sample_claimed_job" "status sample_claimed_job = RUNNING"
  "attempt_count sample_claimed_job \<le> 1000"
proof -
  show "sql_get_job sample_db leased_table ''job-1'' = Some sample_claimed_job" "status sample_claimed_job = RUNNING"
    using sql_claim_law [OF sample_table_inv sample_sql_claim] sample_lease_parts by simp_all
  show "attempt_count sample_claimed_job \<le> 1000" by code_simp
qed

subsection \<open>A run whose clock goes back\<close>

definition turning_clock :: "nat \<Rightarrow> int" where
  "turning_clock n = (if n < 3 then second_clock n + 5000000 else second_clock 0)"

definition turning_env :: run_env where
  "turning_env = sample_run_env\<lparr>re_clock := (\<lambda>n. wire_timestamp (turning_clock n))\<rparr>"

lemma turning_clock_at: "clock_at turning_env turning_clock"
proof -
  have "in_range (turning_clock n) \<and> in_range (turning_clock n + 900 * 1000000)" for n
    using second_clock_bounds [of n] second_clock_bounds [of 0] by (intro near_clock) (simp_all add: turning_clock_def)
  then show ?thesis unfolding clock_at_def by (simp add: turning_env_def)
qed

lemma turning_env_rest: "re_db turning_env = sample_db" "re_handler turning_env = quiet"
  by (simp_all add: turning_env_def sample_run_env_def)

lemma turning_handler_calls: "handler_calls turning_env"
  by (simp add: handler_calls_def turning_env_def sample_run_env_def quiet_def)

lemma turning_handler_ends: "handler_ends turning_env i"
  by (simp add: handler_ends_def turning_env_def sample_run_env_def quiet_def)

end
