(* ===== verification/Oa_Registry.thy ===== *)
theory Oa_Registry
  imports Wire_Time
begin

section \<open>Identities of OA: tenants, subjects and memberships\<close>

text \<open>
  \<^verbatim>\<open>services/nex-oa/nex_oa/subjects.py\<close> and \<^verbatim>\<open>memberships.py\<close>, with the in-memory registries.
  Payloads are dictionaries; what a registry stores is a record. The errors of the service are one
  type, with the exception class as its first field, because handlers select on it. \<open>now\<close> is the
  value of \<open>_utc_now()\<close>. A payload is JSON, so the check that its metadata can be serialised
  always passes and is not translated; snapshots leave out their constant parts.
\<close>

subsection \<open>Errors\<close>

datatype oa_class = SubjectRegistryError | OaMembershipError | OaSessionError | OaIdentityLifecycleError | OaAuthorizationError

datatype oa_exn = OaError oa_class int string string | OaPy py_error

subsection \<open>Text\<close>

text \<open>\<open>str.upper\<close> and \<open>str.lower\<close> on Latin-1; two letters have their upper case outside it.\<close>

definition lower_char :: "char \<Rightarrow> char" where
  "lower_char c = (let n = (of_char c :: nat) in
     if (65 \<le> n \<and> n \<le> 90) \<or> (192 \<le> n \<and> n \<le> 222 \<and> n \<noteq> 215) then char_of (n + 32) else c)"

definition py_lower :: "string \<Rightarrow> string" where
  "py_lower s = map lower_char s"

definition upper_text :: "char \<Rightarrow> string" where
  "upper_text c = (let n = (of_char c :: nat) in
     if n = 223 then ''SS''
     else if (97 \<le> n \<and> n \<le> 122) \<or> (224 \<le> n \<and> n \<le> 254 \<and> n \<noteq> 247) then [char_of (n - 32)] else [c])"

definition py_upper :: "string \<Rightarrow> string" where
  "py_upper s = concat (map upper_text s)"

fun contains_text :: "string \<Rightarrow> string \<Rightarrow> bool" where
  "contains_text p [] = (p = [])"
| "contains_text p (c # s) = (take (length p) (c # s) = p \<or> contains_text p s)"

definition alnum :: "char \<Rightarrow> bool" where
  "alnum c = (let n = (of_char c :: nat) in (48 \<le> n \<and> n \<le> 57) \<or> (65 \<le> n \<and> n \<le> 90) \<or> (97 \<le> n \<and> n \<le> 122))"

text \<open>The same on the bits of a character, for evaluation.\<close>

lemma alnum_code [code]: "alnum (Char b0 b1 b2 b3 b4 b5 b6 b7) \<longleftrightarrow> \<not> b7 \<and>
    (if b6 then (b0 \<or> b1 \<or> b2 \<or> b3 \<or> b4) \<and> \<not> (b4 \<and> b3 \<and> (b2 \<or> (b1 \<and> b0)))
     else b5 \<and> b4 \<and> \<not> (b3 \<and> (b2 \<or> b1)))"
  by (cases b0; cases b1; cases b2; cases b3; cases b4; cases b5; cases b6; cases b7)
     (simp_all add: alnum_def Let_def)

lemma lower_char_code [code]: "lower_char (Char b0 b1 b2 b3 b4 b5 b6 b7) =
    (if b6 \<and> \<not> b5 \<and> (if b7 then \<not> (b0 \<and> b1 \<and> b2 \<and> b3 \<and> b4) \<and> \<not> (b0 \<and> b1 \<and> b2 \<and> \<not> b3 \<and> b4)
        else (b0 \<or> b1 \<or> b2 \<or> b3 \<or> b4) \<and> \<not> (b4 \<and> b3 \<and> (b2 \<or> (b1 \<and> b0))))
     then Char b0 b1 b2 b3 b4 True b6 b7 else Char b0 b1 b2 b3 b4 b5 b6 b7)"
  by (cases b0; cases b1; cases b2; cases b3; cases b4; cases b5; cases b6; cases b7)
     (simp_all add: lower_char_def Let_def char_of_def bit_0)

text \<open>\<open>_ID_PATTERN\<close>.\<close>

definition registry_id_ok :: "string \<Rightarrow> bool" where
  "registry_id_ok s =
     (case s of [] \<Rightarrow> False
      | c # cs \<Rightarrow> alnum c \<and> length cs \<le> 127 \<and> list_all (\<lambda>d. alnum d \<or> d \<in> set ''._:-'') cs)"

text \<open>
  The texts for which \<open>int(s)\<close> gives a natural number whose text is \<open>s\<close> again (\<open>int\<close> refuses
  more than 4300 digits).
\<close>

definition canonical_nat :: "string \<Rightarrow> int option" where
  "canonical_nat s =
     (case take_digits (length s) 0 s of
        Some (v, []) \<Rightarrow> if s \<noteq> [] \<and> (hd s \<noteq> CHR ''0'' \<or> s = ''0'') \<and> length s \<le> 4300 then Some v else None
      | _ \<Rightarrow> None)"

text \<open>\<open>payload.get(k, d)\<close>.\<close>

definition dget_or :: "pydict \<Rightarrow> string \<Rightarrow> pyval \<Rightarrow> pyval" where
  "dget_or d k v = (case map_of d k of None \<Rightarrow> v | Some w \<Rightarrow> w)"

fun str_of :: "pyval \<Rightarrow> string option" where
  "str_of (PStr s) = Some s"
| "str_of _ = None"

subsection \<open>Normalisation\<close>

definition blank_error :: "oa_class \<Rightarrow> string \<Rightarrow> string \<Rightarrow> oa_exn" where
  "blank_error k code f = OaError k 400 code (f @ '' must be a non-empty string.'')"

text \<open>\<open>_non_empty_text\<close> of a module, with its class and error code.\<close>

definition stripped_text :: "oa_class \<Rightarrow> string \<Rightarrow> pyval \<Rightarrow> string \<Rightarrow> oa_exn + string" where
  "stripped_text k code v f =
     (case str_of v of None \<Rightarrow> Inl (blank_error k code f)
      | Some s \<Rightarrow> if py_strip s = [] then Inl (blank_error k code f) else Inr (py_strip s))"

abbreviation subject_text :: "pyval \<Rightarrow> string \<Rightarrow> oa_exn + string" where
  "subject_text \<equiv> stripped_text SubjectRegistryError ''oa.subject_field_invalid''"

abbreviation membership_text :: "pyval \<Rightarrow> string \<Rightarrow> oa_exn + string" where
  "membership_text \<equiv> stripped_text OaMembershipError ''oa.membership_field_invalid''"

definition or_value :: "pyval \<Rightarrow> string option \<Rightarrow> pyval" where
  "or_value v d = (if v = PNone then (case d of None \<Rightarrow> PNone | Some s \<Rightarrow> PStr s) else v)"

definition normalize_registry_id :: "pyval \<Rightarrow> string \<Rightarrow> string option \<Rightarrow> oa_exn + string" where
  "normalize_registry_id v f default_id =
     sbind (subject_text (or_value v default_id) f) (\<lambda>s.
       if registry_id_ok s then Inr s
       else Inl (OaError SubjectRegistryError 400 ''oa.subject_ref_invalid''
         (f @ '' must start with an ASCII letter or digit and contain only ASCII letters, digits, dot, underscore, colon, or hyphen.'')))"

datatype identity_status = S_ACTIVE | S_DISABLED | S_DELETED

fun status_name :: "identity_status \<Rightarrow> string" where
  "status_name S_ACTIVE = ''ACTIVE''"
| "status_name S_DISABLED = ''DISABLED''"
| "status_name S_DELETED = ''DELETED''"

definition status_named :: "identity_status list \<Rightarrow> string \<Rightarrow> identity_status option" where
  "status_named allowed s = find (\<lambda>st. status_name st = s) allowed"

definition OA_SUBJECT_STATUSES :: "identity_status list" where
  "OA_SUBJECT_STATUSES = [S_ACTIVE, S_DISABLED, S_DELETED]"

definition OA_MEMBERSHIP_STATUSES :: "identity_status list" where
  "OA_MEMBERSHIP_STATUSES = [S_ACTIVE, S_DISABLED]"

definition normalize_subject_status :: "pyval \<Rightarrow> oa_exn + identity_status" where
  "normalize_subject_status v =
     sbind (subject_text v ''status'') (\<lambda>s.
     case status_named OA_SUBJECT_STATUSES (py_upper s) of
       None \<Rightarrow> Inl (OaError SubjectRegistryError 400 ''oa.subject_status_invalid''
         ''status must be one of: ACTIVE, DISABLED, DELETED.'')
     | Some st \<Rightarrow> Inr st)"

definition normalize_membership_status :: "pyval \<Rightarrow> oa_exn + identity_status" where
  "normalize_membership_status v =
     sbind (membership_text v ''membership_status'') (\<lambda>s.
     case status_named OA_MEMBERSHIP_STATUSES (py_upper s) of
       None \<Rightarrow> Inl (OaError OaMembershipError 400 ''oa.membership_status_invalid''
         ''membership_status must be one of: ACTIVE, DISABLED.'')
     | Some st \<Rightarrow> Inr st)"

definition PRIVATE_IDENTITY_KEY_PARTS :: "string list" where
  "PRIVATE_IDENTITY_KEY_PARTS =
     [''authorization'', ''email'', ''passwd'', ''password'', ''phone'', ''raw_profile'', ''secret'', ''token'']"

fun payload_has_private_identity_data :: "pyval \<Rightarrow> bool" where
  "payload_has_private_identity_data (PDict d) =
     list_ex (\<lambda>(k, v). list_ex (\<lambda>p. contains_text p (py_lower k)) PRIVATE_IDENTITY_KEY_PARTS \<or>
       payload_has_private_identity_data v) d"
| "payload_has_private_identity_data (PList l) = list_ex payload_has_private_identity_data l"
| "payload_has_private_identity_data _ = False"

definition reject_private :: "oa_class \<Rightarrow> string \<Rightarrow> pyval \<Rightarrow> oa_exn + unit" where
  "reject_private k detail v =
     (if payload_has_private_identity_data v
      then Inl (OaError k 400 ''oa.private_identity_payload_rejected'' detail) else Inr ())"

definition subject_private_detail :: string where
  "subject_private_detail =
     ''Subject registry records must not include passwords, tokens, email addresses, phone numbers, raw profiles, or secrets.''"

definition membership_private_detail :: string where
  "membership_private_detail =
     ''OA memberships must not include passwords, tokens, email addresses, phone numbers, raw profiles, or provider secrets.''"

definition metadata_from_payload :: "oa_class \<Rightarrow> string \<Rightarrow> string \<Rightarrow> string \<Rightarrow> pyval \<Rightarrow> oa_exn + pydict" where
  "metadata_from_payload k code invalid private v =
     (case v of PNone \<Rightarrow> Inr []
      | PDict d \<Rightarrow> sbind (reject_private k private v) (\<lambda>_. Inr d)
      | _ \<Rightarrow> Inl (OaError k 400 code invalid))"

abbreviation subject_metadata :: "pyval \<Rightarrow> oa_exn + pydict" where
  "subject_metadata \<equiv> metadata_from_payload SubjectRegistryError ''oa.subject_metadata_invalid''
     ''metadata must be an object.'' subject_private_detail"

abbreviation membership_metadata :: "pyval \<Rightarrow> oa_exn + pydict" where
  "membership_metadata \<equiv> metadata_from_payload OaMembershipError ''oa.membership_metadata_invalid''
     ''membership metadata must be an object.'' membership_private_detail"

definition bounded_display_name :: "pyval \<Rightarrow> string \<Rightarrow> string \<Rightarrow> oa_exn + string" where
  "bounded_display_name v d f = sbind (subject_text (or_value v (Some d)) f) (\<lambda>s. Inr (take 120 s))"

definition tenant_id_from_payload :: "pydict \<Rightarrow> oa_exn + string" where
  "tenant_id_from_payload payload = normalize_registry_id (dget payload ''tenant_id'') ''tenant_id'' (Some ''local-tenant'')"

definition subject_id_from_payload :: "pydict \<Rightarrow> oa_exn + string" where
  "subject_id_from_payload payload =
     normalize_registry_id (dget_or payload ''subject_id'' (dget_or payload ''owner_user_id'' (dget payload ''user_id'')))
       ''subject_id'' (Some ''local-user'')"

subsection \<open>Tenants and subjects\<close>

record tenant =
  tn_id :: string
  tn_name :: string
  tn_status :: identity_status
  tn_metadata :: pydict
  tn_created :: string
  tn_updated :: string

record subject =
  sj_tenant :: string
  sj_id :: string
  sj_name :: string
  sj_status :: identity_status
  sj_revision :: int
  sj_metadata :: pydict
  sj_created :: string
  sj_updated :: string

record subject_registry =
  sr_tenants :: "(string \<times> tenant) list"
  sr_subjects :: "((string \<times> string) \<times> subject) list"

definition build_tenant_record :: "pydict \<Rightarrow> string \<Rightarrow> oa_exn + tenant" where
  "build_tenant_record payload now =
     sbind (reject_private SubjectRegistryError subject_private_detail (PDict payload)) (\<lambda>_.
     sbind (tenant_id_from_payload payload) (\<lambda>i.
     sbind (bounded_display_name (dget payload ''tenant_display_name'') ''Local Tenant'' ''tenant_display_name'') (\<lambda>n.
     sbind (normalize_subject_status (dget_or payload ''tenant_status'' (PStr ''ACTIVE''))) (\<lambda>st.
     sbind (subject_metadata (dget_or payload ''tenant_metadata'' (PDict []))) (\<lambda>meta.
     Inr \<lparr>tn_id = i, tn_name = n, tn_status = st, tn_metadata = meta, tn_created = now, tn_updated = now\<rparr>)))))"

definition build_subject_record :: "pydict \<Rightarrow> tenant \<Rightarrow> string \<Rightarrow> oa_exn + subject" where
  "build_subject_record payload t now =
     sbind (reject_private SubjectRegistryError subject_private_detail (PDict payload)) (\<lambda>_.
     sbind (subject_id_from_payload payload) (\<lambda>i.
     sbind (bounded_display_name (dget_or payload ''subject_display_name'' (dget payload ''display_name''))
              ''Local User'' ''subject_display_name'') (\<lambda>n.
     sbind (subject_text (PStr (tn_id t)) ''tenant_ref.id'') (\<lambda>ti.
     sbind (normalize_subject_status (dget_or payload ''subject_status'' (PStr ''ACTIVE''))) (\<lambda>st.
     sbind (subject_metadata (dget_or payload ''subject_metadata'' (PDict []))) (\<lambda>meta.
     Inr \<lparr>sj_tenant = ti, sj_id = i, sj_name = n, sj_status = st, sj_revision = 1, sj_metadata = meta,
          sj_created = now, sj_updated = now\<rparr>))))))"

definition ensure_tenant :: "subject_registry \<Rightarrow> pydict \<Rightarrow> string \<Rightarrow> oa_exn + tenant \<times> subject_registry" where
  "ensure_tenant R payload now =
     sbind (build_tenant_record payload now) (\<lambda>t.
     case map_of (sr_tenants R) (tn_id t) of
       Some old \<Rightarrow> Inr (old, R)
     | None \<Rightarrow> Inr (t, R\<lparr>sr_tenants := dict_put (tn_id t) t (sr_tenants R)\<rparr>))"

definition get_tenant :: "subject_registry \<Rightarrow> string \<Rightarrow> oa_exn + tenant option" where
  "get_tenant R ti = sbind (normalize_registry_id (PStr ti) ''tenant_id'' None) (\<lambda>t. Inr (map_of (sr_tenants R) t))"

text \<open>The snapshot of a subject: its tenant and itself, as their stored records.\<close>

definition build_subject_registry_snapshot :: "tenant \<Rightarrow> subject \<Rightarrow> oa_exn + tenant \<times> subject" where
  "build_subject_registry_snapshot t s =
     sbind (subject_text (PStr (tn_id t)) ''tenant_ref.id'') (\<lambda>_.
     sbind (subject_text (PStr (sj_id s)) ''subject_ref.id'') (\<lambda>_. Inr (t, s)))"

text \<open>The tenant is stored before the subject is built, and stays when that fails.\<close>

definition ensure_subject :: "subject_registry \<Rightarrow> pydict \<Rightarrow> string \<Rightarrow> (oa_exn + tenant \<times> subject) \<times> subject_registry" where
  "ensure_subject R payload now =
     (case ensure_tenant R payload now of
        Inl e \<Rightarrow> (Inl e, R)
      | Inr (t, R1) \<Rightarrow>
          (case build_subject_record payload t now of
             Inl e \<Rightarrow> (Inl e, R1)
           | Inr s \<Rightarrow>
               (case map_of (sr_subjects R1) (sj_tenant s, sj_id s) of
                  Some old \<Rightarrow> (build_subject_registry_snapshot t old, R1)
                | None \<Rightarrow>
                    (build_subject_registry_snapshot t s,
                     R1\<lparr>sr_subjects := dict_put (sj_tenant s, sj_id s) s (sr_subjects R1)\<rparr>))))"

definition get_subject :: "subject_registry \<Rightarrow> string \<Rightarrow> string \<Rightarrow> oa_exn + (tenant \<times> subject) option" where
  "get_subject R ti si =
     sbind (normalize_registry_id (PStr ti) ''tenant_id'' None) (\<lambda>t.
     sbind (normalize_registry_id (PStr si) ''subject_id'' None) (\<lambda>s.
     case (map_of (sr_tenants R) t, map_of (sr_subjects R) (t, s)) of
       (Some tn, Some sj) \<Rightarrow> sbind (build_subject_registry_snapshot tn sj) (\<lambda>x. Inr (Some x))
     | _ \<Rightarrow> Inr None))"

subsection \<open>Memberships\<close>

record membership =
  mb_tenant :: string
  mb_subject :: string
  mb_status :: identity_status
  mb_revision :: int
  mb_roles :: "string list"
  mb_scopes :: "string list"
  mb_metadata :: pydict
  mb_created :: string
  mb_updated :: string

record membership_registry =
  mr_subjects :: subject_registry
  mr_memberships :: "((string \<times> string) \<times> membership) list"

text \<open>The class of an error of the subject registry becomes the caller's; the rest stays.\<close>

fun from_subject_error :: "oa_class \<Rightarrow> oa_exn \<Rightarrow> oa_exn" where
  "from_subject_error k (OaError SubjectRegistryError s c d) = OaError k s c d"
| "from_subject_error k e = e"

definition ref_id :: "oa_class \<Rightarrow> string \<Rightarrow> string \<Rightarrow> oa_exn + string" where
  "ref_id k s f = map_err (from_subject_error k) (normalize_registry_id (PStr s) f None)"

fun text_list :: "oa_class \<Rightarrow> string \<Rightarrow> string \<Rightarrow> pyval list \<Rightarrow> oa_exn + string list" where
  "text_list k code f [] = Inr []"
| "text_list k code f (v # vs) =
     sbind (stripped_text k code v (f @ ''[]'')) (\<lambda>s. sbind (text_list k code f vs) (\<lambda>ss. Inr (s # ss)))"

definition membership_list :: "pyval \<Rightarrow> string list \<Rightarrow> string \<Rightarrow> oa_exn + string list" where
  "membership_list v d f =
     (case v of PNone \<Rightarrow> Inr d
      | PList l \<Rightarrow>
          sbind (text_list OaMembershipError ''oa.membership_field_invalid'' f l) (\<lambda>ss.
          if ss = [] then Inl (OaError OaMembershipError 400 ''oa.membership_list_invalid'' (f @ '' must contain at least one value.''))
          else Inr ss)
      | _ \<Rightarrow> Inl (OaError OaMembershipError 400 ''oa.membership_list_invalid'' (f @ '' must be a non-empty list of strings.'')))"

definition build_membership_record :: "pydict \<Rightarrow> tenant \<times> subject \<Rightarrow> string \<Rightarrow> oa_exn + membership" where
  "build_membership_record payload snapshot now =
     sbind (reject_private OaMembershipError membership_private_detail (PDict payload)) (\<lambda>_.
     sbind (ref_id OaMembershipError (tn_id (fst snapshot)) ''tenant_id'') (\<lambda>t.
     sbind (ref_id OaMembershipError (sj_id (snd snapshot)) ''subject_id'') (\<lambda>s.
     sbind (normalize_membership_status
              (dget_or payload ''membership_status'' (dget_or payload ''status'' (PStr ''ACTIVE'')))) (\<lambda>st.
     sbind (membership_list (dget payload ''roles'') [''employee''] ''roles'') (\<lambda>roles.
     sbind (membership_list (dget payload ''scopes'') [''workspace:use''] ''scopes'') (\<lambda>scopes.
     sbind (membership_metadata (dget_or payload ''membership_metadata'' (dget_or payload ''metadata'' (PDict [])))) (\<lambda>meta.
     Inr \<lparr>mb_tenant = t, mb_subject = s, mb_status = st, mb_revision = 1, mb_roles = roles, mb_scopes = scopes,
          mb_metadata = meta, mb_created = now, mb_updated = now\<rparr>)))))))"

definition build_membership_snapshot :: "membership \<Rightarrow> tenant \<times> subject \<Rightarrow> oa_exn + membership \<times> tenant \<times> subject" where
  "build_membership_snapshot m snapshot =
     sbind (ref_id OaMembershipError (mb_tenant m) ''tenant_id'') (\<lambda>_.
     sbind (ref_id OaMembershipError (mb_subject m) ''subject_id'') (\<lambda>_. Inr (m, snapshot)))"

definition ensure_membership ::
  "membership_registry \<Rightarrow> pydict \<Rightarrow> string \<Rightarrow> (oa_exn + membership \<times> tenant \<times> subject) \<times> membership_registry" where
  "ensure_membership R payload now =
     (case ensure_subject (mr_subjects R) payload now of
        (Inl e, S) \<Rightarrow> (Inl (from_subject_error OaMembershipError e), R\<lparr>mr_subjects := S\<rparr>)
      | (Inr snapshot, S) \<Rightarrow>
          (let R1 = R\<lparr>mr_subjects := S\<rparr> in
           case build_membership_record payload snapshot now of
             Inl e \<Rightarrow> (Inl e, R1)
           | Inr m \<Rightarrow>
               (case map_of (mr_memberships R1) (mb_tenant m, mb_subject m) of
                  Some old \<Rightarrow> (build_membership_snapshot old snapshot, R1)
                | None \<Rightarrow>
                    (build_membership_snapshot m snapshot,
                     R1\<lparr>mr_memberships := dict_put (mb_tenant m, mb_subject m) m (mr_memberships R1)\<rparr>))))"

definition get_membership ::
  "membership_registry \<Rightarrow> string \<Rightarrow> string \<Rightarrow> oa_exn + (membership \<times> tenant \<times> subject) option" where
  "get_membership R ti si =
     sbind (ref_id OaMembershipError ti ''tenant_id'') (\<lambda>t.
     sbind (ref_id OaMembershipError si ''subject_id'') (\<lambda>s.
     case map_of (mr_memberships R) (t, s) of
       None \<Rightarrow> Inr None
     | Some m \<Rightarrow>
         sbind (map_err (from_subject_error OaMembershipError) (get_subject (mr_subjects R) t s)) (\<lambda>found.
         case found of
           None \<Rightarrow> Inl (OaError OaMembershipError 503 ''oa.membership_registry_unavailable''
             ''OA membership registry is unavailable.'')
         | Some snapshot \<Rightarrow> sbind (build_membership_snapshot m snapshot) (\<lambda>x. Inr (Some x)))))"

lemma dict_put_Some: "map_of (dict_put k v d) k' = Some u \<longleftrightarrow> k' = k \<and> u = v \<or> k' \<noteq> k \<and> map_of d k' = Some u"
  by (cases "k' = k") auto

subsection \<open>Normalised identifiers\<close>

lemma stripped_text_Inr [res_simps]:
  "stripped_text k code v f = Inr s \<longleftrightarrow> (\<exists>w. v = PStr w \<and> s = py_strip w \<and> s \<noteq> [])"
  by (cases v) (auto simp: stripped_text_def)

lemma registry_id_chars: "registry_id_ok s \<Longrightarrow> c \<in> set s \<Longrightarrow> \<not> py_space c"
  by (auto simp: registry_id_ok_def alnum_def py_space_def Let_def list_all_iff split: list.splits)

lemma registry_id_nonempty: "registry_id_ok s \<Longrightarrow> s \<noteq> []"
  by (auto simp: registry_id_ok_def)

lemma registry_id_strip [simp]: "registry_id_ok s \<Longrightarrow> py_strip s = s"
  using registry_id_chars [of s "hd s"] registry_id_chars [of s "last s"] registry_id_nonempty [of s]
  by (simp add: py_strip_id)

lemma normalize_registry_id_Inr [res_simps]:
  "normalize_registry_id v f d = Inr s \<longleftrightarrow>
     registry_id_ok s \<and> (\<exists>w. or_value v d = PStr w \<and> s = py_strip w)"
  by (auto simp: normalize_registry_id_def res_simps registry_id_nonempty)

lemma normalize_registry_id_ok [simp]: "registry_id_ok s \<Longrightarrow> normalize_registry_id (PStr s) f None = Inr s"
  by (simp add: normalize_registry_id_Inr or_value_def)

lemma ref_id_Inr [res_simps]: "ref_id k w f = Inr s \<longleftrightarrow> registry_id_ok s \<and> s = py_strip w"
  by (auto simp: ref_id_def res_simps or_value_def)

lemma ref_id_ok [simp]: "registry_id_ok s \<Longrightarrow> ref_id k s f = Inr s"
  by (simp add: ref_id_Inr)

lemma subject_text_id [simp]: "registry_id_ok s \<Longrightarrow> subject_text (PStr s) f = Inr s"
  by (simp add: stripped_text_Inr registry_id_nonempty)

subsection \<open>The registries stay well formed\<close>

definition subjects_inv :: "subject_registry \<Rightarrow> bool" where
  "subjects_inv R \<longleftrightarrow>
     (\<forall>k t. map_of (sr_tenants R) k = Some t \<longrightarrow> k = tn_id t \<and> registry_id_ok k) \<and>
     (\<forall>k s. map_of (sr_subjects R) k = Some s \<longrightarrow>
        k = (sj_tenant s, sj_id s) \<and> registry_id_ok (sj_id s) \<and> 1 \<le> sj_revision s \<and>
        (\<exists>t. map_of (sr_tenants R) (sj_tenant s) = Some t))"

definition memberships_inv :: "membership_registry \<Rightarrow> bool" where
  "memberships_inv R \<longleftrightarrow> subjects_inv (mr_subjects R) \<and>
     (\<forall>k m. map_of (mr_memberships R) k = Some m \<longrightarrow>
        k = (mb_tenant m, mb_subject m) \<and> registry_id_ok (mb_tenant m) \<and> registry_id_ok (mb_subject m) \<and>
        mb_status m \<in> set OA_MEMBERSHIP_STATUSES \<and> 1 \<le> mb_revision m \<and>
        (\<exists>s. map_of (sr_subjects (mr_subjects R)) k = Some s))"

lemma status_named_Some: "status_named allowed s = Some st \<Longrightarrow> st \<in> set allowed \<and> s = status_name st"
  by (auto simp: status_named_def find_Some_iff)

lemma normalize_membership_status_Inr:
  "normalize_membership_status v = Inr st \<Longrightarrow> st \<in> set OA_MEMBERSHIP_STATUSES"
  by (auto simp: normalize_membership_status_def res_simps dest: status_named_Some)

lemma build_tenant_record_id: "build_tenant_record payload now = Inr t \<Longrightarrow> registry_id_ok (tn_id t)"
  by (auto simp: build_tenant_record_def tenant_id_from_payload_def res_simps)

lemma ensure_tenant_Inr:
  assumes "subjects_inv R" "ensure_tenant R payload now = Inr (t, R')"
  shows "subjects_inv R'" "registry_id_ok (tn_id t)" "map_of (sr_tenants R') (tn_id t) = Some t"
    "sr_subjects R' = sr_subjects R"
proof -
  obtain u where u: "build_tenant_record payload now = Inr u"
    and tR: "(case map_of (sr_tenants R) (tn_id u) of Some old \<Rightarrow> Inr (old, R)
      | None \<Rightarrow> Inr (u, R\<lparr>sr_tenants := dict_put (tn_id u) u (sr_tenants R)\<rparr>)) = (Inr (t, R') :: oa_exn + _)"
    using assms(2) by (auto simp: ensure_tenant_def res_simps)
  have ok: "registry_id_ok (tn_id u)" using u by (rule build_tenant_record_id)
  have "subjects_inv R' \<and> registry_id_ok (tn_id t) \<and> map_of (sr_tenants R') (tn_id t) = Some t \<and> sr_subjects R' = sr_subjects R"
  proof (cases "map_of (sr_tenants R) (tn_id u)")
    case None
    then have "t = u" "R' = R\<lparr>sr_tenants := dict_put (tn_id u) u (sr_tenants R)\<rparr>" using tR by auto
    then show ?thesis using assms(1) ok unfolding subjects_inv_def by simp blast
  next
    case (Some old)
    then have "t = old" "R' = R" using tR by auto
    moreover have "tn_id old = tn_id u" using assms(1) Some unfolding subjects_inv_def by metis
    ultimately show ?thesis using assms(1) ok Some by simp
  qed
  then show "subjects_inv R'" "registry_id_ok (tn_id t)" "map_of (sr_tenants R') (tn_id t) = Some t"
    "sr_subjects R' = sr_subjects R" by blast+
qed

lemma subjects_inv_put:
  assumes "subjects_inv R" "registry_id_ok (sj_id s)" "1 \<le> sj_revision s" "map_of (sr_tenants R) (sj_tenant s) = Some t"
  shows "subjects_inv (R\<lparr>sr_subjects := dict_put (sj_tenant s, sj_id s) s (sr_subjects R)\<rparr>)"
  unfolding subjects_inv_def
proof (intro conjI allI impI)
  fix k u
  assume "map_of (sr_subjects (R\<lparr>sr_subjects := dict_put (sj_tenant s, sj_id s) s (sr_subjects R)\<rparr>)) k = Some u"
  then have "k = (sj_tenant s, sj_id s) \<and> u = s \<or> k \<noteq> (sj_tenant s, sj_id s) \<and> map_of (sr_subjects R) k = Some u"
    by (simp add: dict_put_Some del: map_of_dict_put)
  then consider "k = (sj_tenant s, sj_id s)" "u = s" | "map_of (sr_subjects R) k = Some u" by blast
  then have "k = (sj_tenant u, sj_id u) \<and> registry_id_ok (sj_id u) \<and> 1 \<le> sj_revision u \<and>
    (\<exists>t. map_of (sr_tenants R) (sj_tenant u) = Some t)"
  proof cases
    case 1
    then show ?thesis using assms by auto
  next
    case 2
    then show ?thesis using assms(1) unfolding subjects_inv_def by blast
  qed
  then show "k = (sj_tenant u, sj_id u)" "registry_id_ok (sj_id u)" "1 \<le> sj_revision u"
    "\<exists>t. map_of (sr_tenants (R\<lparr>sr_subjects := dict_put (sj_tenant s, sj_id s) s (sr_subjects R)\<rparr>)) (sj_tenant u) = Some t"
    by simp_all
next
  fix k u
  assume "map_of (sr_tenants (R\<lparr>sr_subjects := dict_put (sj_tenant s, sj_id s) s (sr_subjects R)\<rparr>)) k = Some u"
  then have "map_of (sr_tenants R) k = Some u" by simp
  then show "k = tn_id u" "registry_id_ok k" using assms(1) unfolding subjects_inv_def by blast+
qed

text \<open>What ensuring a subject does: it never changes a subject that is stored.\<close>

lemma ensure_subject_effect:
  assumes inv: "subjects_inv R" and e: "ensure_subject R payload now = (r, R')"
  shows "subjects_inv R'" "\<And>k s. map_of (sr_subjects R) k = Some s \<Longrightarrow> map_of (sr_subjects R') k = Some s"
    "\<And>t s. r = Inr (t, s) \<Longrightarrow>
      map_of (sr_subjects R') (tn_id t, sj_id s) = Some s \<and> sj_tenant s = tn_id t \<and>
      registry_id_ok (tn_id t) \<and> registry_id_ok (sj_id s)"
proof -
  have "subjects_inv R' \<and> (\<forall>k s. map_of (sr_subjects R) k = Some s \<longrightarrow> map_of (sr_subjects R') k = Some s) \<and>
    (\<forall>t s. r = Inr (t, s) \<longrightarrow> map_of (sr_subjects R') (tn_id t, sj_id s) = Some s \<and> sj_tenant s = tn_id t \<and>
      registry_id_ok (tn_id t) \<and> registry_id_ok (sj_id s))"
  proof (cases "ensure_tenant R payload now")
    case (Inl x)
    then show ?thesis using e inv by (auto simp: ensure_subject_def)
  next
    case (Inr p)
    obtain t R1 where p: "p = (t, R1)" by (cases p)
    note t = ensure_tenant_Inr [OF inv Inr [unfolded p]]
    show ?thesis
    proof (cases "build_subject_record payload t now")
      case (Inl x)
      then show ?thesis using e t by (auto simp: ensure_subject_def Inr p)
    next
      case (Inr s)
      then have s: "sj_tenant s = tn_id t" "registry_id_ok (sj_id s)" "sj_revision s = 1"
        using t(2) by (auto simp: build_subject_record_def subject_id_from_payload_def res_simps)
      have snap: "build_subject_registry_snapshot t u = Inr (t, u)" if "registry_id_ok (sj_id u)" for u
        using that t(2) by (simp add: build_subject_registry_snapshot_def)
      show ?thesis
      proof (cases "map_of (sr_subjects R1) (sj_tenant s, sj_id s)")
        case None
        then have "r = Inr (t, s)" "R' = R1\<lparr>sr_subjects := dict_put (sj_tenant s, sj_id s) s (sr_subjects R1)\<rparr>"
          using e snap s by (auto simp: ensure_subject_def \<open>ensure_tenant R payload now = Inr p\<close> p Inr)
        moreover have "subjects_inv (R1\<lparr>sr_subjects := dict_put (sj_tenant s, sj_id s) s (sr_subjects R1)\<rparr>)"
          by (rule subjects_inv_put) (use t(1,3) s in auto)
        moreover have "map_of (sr_subjects R) k \<noteq> None \<Longrightarrow> k \<noteq> (sj_tenant s, sj_id s)" for k
          using None t(4) by auto
        ultimately show ?thesis using s t(2,4) by auto
      next
        case (Some old)
        have "(sj_tenant s, sj_id s) = (sj_tenant old, sj_id old) \<and> registry_id_ok (sj_id old)"
          using t(1) Some unfolding subjects_inv_def by blast
        then have "registry_id_ok (sj_id old)" "sj_id old = sj_id s" "sj_tenant old = sj_tenant s" by auto
        moreover from this have "r = Inr (t, old)" "R' = R1"
          using e snap Some by (auto simp: ensure_subject_def \<open>ensure_tenant R payload now = Inr p\<close> p Inr)
        ultimately show ?thesis using t s Some by auto
      qed
    qed
  qed
  then show "subjects_inv R'" "\<And>k s. map_of (sr_subjects R) k = Some s \<Longrightarrow> map_of (sr_subjects R') k = Some s"
    "\<And>t s. r = Inr (t, s) \<Longrightarrow>
      map_of (sr_subjects R') (tn_id t, sj_id s) = Some s \<and> sj_tenant s = tn_id t \<and>
      registry_id_ok (tn_id t) \<and> registry_id_ok (sj_id s)" by blast+
qed

lemma memberships_inv_put:
  assumes "memberships_inv R" "registry_id_ok (mb_tenant m)" "registry_id_ok (mb_subject m)"
    "mb_status m \<in> set OA_MEMBERSHIP_STATUSES" "1 \<le> mb_revision m"
    "map_of (sr_subjects (mr_subjects R)) (mb_tenant m, mb_subject m) = Some s"
  shows "memberships_inv (R\<lparr>mr_memberships := dict_put (mb_tenant m, mb_subject m) m (mr_memberships R)\<rparr>)"
  unfolding memberships_inv_def
proof (intro conjI allI impI)
  fix k u
  assume "map_of (mr_memberships (R\<lparr>mr_memberships := dict_put (mb_tenant m, mb_subject m) m (mr_memberships R)\<rparr>)) k = Some u"
  then have "k = (mb_tenant m, mb_subject m) \<and> u = m \<or> k \<noteq> (mb_tenant m, mb_subject m) \<and> map_of (mr_memberships R) k = Some u"
    by (simp add: dict_put_Some del: map_of_dict_put)
  then consider "k = (mb_tenant m, mb_subject m)" "u = m" | "map_of (mr_memberships R) k = Some u" by blast
  then have "k = (mb_tenant u, mb_subject u) \<and> registry_id_ok (mb_tenant u) \<and> registry_id_ok (mb_subject u) \<and>
    mb_status u \<in> set OA_MEMBERSHIP_STATUSES \<and> 1 \<le> mb_revision u \<and>
    (\<exists>s. map_of (sr_subjects (mr_subjects R)) k = Some s)"
  proof cases
    case 1
    then show ?thesis using assms by auto
  next
    case 2
    then show ?thesis using assms(1) unfolding memberships_inv_def by blast
  qed
  then show "k = (mb_tenant u, mb_subject u)" "registry_id_ok (mb_tenant u)" "registry_id_ok (mb_subject u)"
    "mb_status u \<in> set OA_MEMBERSHIP_STATUSES" "1 \<le> mb_revision u"
    "\<exists>s. map_of (sr_subjects (mr_subjects (R\<lparr>mr_memberships := dict_put (mb_tenant m, mb_subject m) m (mr_memberships R)\<rparr>))) k = Some s"
    by (simp_all, metis)
next
  have "subjects_inv (mr_subjects R)" using assms(1) unfolding memberships_inv_def by blast
  then show "subjects_inv (mr_subjects (R\<lparr>mr_memberships := dict_put (mb_tenant m, mb_subject m) m (mr_memberships R)\<rparr>))"
    by simp
qed

lemma ensure_membership_effect:
  assumes inv: "memberships_inv R" and e: "ensure_membership R payload now = (r, R')"
  shows "memberships_inv R'" "\<And>k m. map_of (mr_memberships R) k = Some m \<Longrightarrow> map_of (mr_memberships R') k = Some m"
    "\<And>k s. map_of (sr_subjects (mr_subjects R)) k = Some s \<Longrightarrow> map_of (sr_subjects (mr_subjects R')) k = Some s"
proof -
  obtain q S where S: "ensure_subject (mr_subjects R) payload now = (q, S)" by (metis surj_pair)
  have inv_s: "subjects_inv (mr_subjects R)" using inv by (simp add: memberships_inv_def)
  note eff = ensure_subject_effect [OF inv_s S]
  let ?R1 = "R\<lparr>mr_subjects := S\<rparr>"
  have inv1: "memberships_inv ?R1"
    using inv eff(1,2) unfolding memberships_inv_def by (simp) metis
  have "memberships_inv R' \<and> (\<forall>k m. map_of (mr_memberships R) k = Some m \<longrightarrow> map_of (mr_memberships R') k = Some m) \<and>
    mr_subjects R' = S"
  proof (cases q)
    case (Inl x)
    then show ?thesis using e inv1 by (auto simp: ensure_membership_def S)
  next
    case (Inr snapshot)
    show ?thesis
    proof (cases "build_membership_record payload snapshot now")
      case (Inl x)
      then show ?thesis using e inv1 by (auto simp: ensure_membership_def S Inr)
    next
      case (Inr m)
      obtain t s where ts: "snapshot = (t, s)" by (cases snapshot)
      have sub: "map_of (sr_subjects S) (tn_id t, sj_id s) = Some s" "registry_id_ok (tn_id t)" "registry_id_ok (sj_id s)"
        using eff(3) [of t s] \<open>q = Inr snapshot\<close> ts by auto
      have m: "mb_tenant m = tn_id t" "mb_subject m = sj_id s" "mb_revision m = 1" "mb_status m \<in> set OA_MEMBERSHIP_STATUSES"
        using Inr sub(2,3) normalize_membership_status_Inr by (auto simp: build_membership_record_def ts res_simps)
      show ?thesis
      proof (cases "map_of (mr_memberships R) (mb_tenant m, mb_subject m)")
        case None
        then have "R' = ?R1\<lparr>mr_memberships := dict_put (mb_tenant m, mb_subject m) m (mr_memberships R)\<rparr>"
          using e by (auto simp: ensure_membership_def S \<open>q = Inr snapshot\<close> Inr)
        then show ?thesis using memberships_inv_put [of ?R1 m s] inv1 m sub None by auto
      next
        case (Some old)
        then have "R' = ?R1" using e by (auto simp: ensure_membership_def S \<open>q = Inr snapshot\<close> Inr)
        then show ?thesis using inv1 by auto
      qed
    qed
  qed
  then show "memberships_inv R'" "\<And>k m. map_of (mr_memberships R) k = Some m \<Longrightarrow> map_of (mr_memberships R') k = Some m"
    "\<And>k s. map_of (sr_subjects (mr_subjects R)) k = Some s \<Longrightarrow> map_of (sr_subjects (mr_subjects R')) k = Some s"
    using eff(2) by auto
qed

text \<open>Reading a membership gives the stored one, with its subject.\<close>

lemma get_membership_Inr:
  assumes "memberships_inv R" "get_membership R ti si = Inr (Some (m, t, s))"
  shows "map_of (mr_memberships R) (py_strip ti, py_strip si) = Some m" "mb_tenant m = py_strip ti"
    "mb_subject m = py_strip si" "map_of (sr_subjects (mr_subjects R)) (py_strip ti, py_strip si) = Some s"
  using assms
  by (auto simp: get_membership_def get_subject_def memberships_inv_def res_simps build_membership_snapshot_def
      build_subject_registry_snapshot_def or_value_def split: option.splits prod.splits)

lemma get_membership_ok:
  assumes inv: "memberships_inv R" and m: "map_of (mr_memberships R) (ti, si) = Some m"
  shows "\<exists>t s. get_membership R ti si = Inr (Some (m, t, s)) \<and> map_of (sr_subjects (mr_subjects R)) (ti, si) = Some s"
proof -
  obtain s where s: "map_of (sr_subjects (mr_subjects R)) (ti, si) = Some s"
    and ids: "registry_id_ok ti" "registry_id_ok si" "mb_tenant m = ti" "mb_subject m = si"
    using inv m unfolding memberships_inv_def by blast
  have "subjects_inv (mr_subjects R)" using inv by (simp add: memberships_inv_def)
  with s obtain t where t: "map_of (sr_tenants (mr_subjects R)) ti = Some t" "tn_id t = ti" "sj_id s = si"
    unfolding subjects_inv_def by force
  have "get_subject (mr_subjects R) ti si = Inr (Some (t, s))"
    using ids s t by (simp add: get_subject_def build_subject_registry_snapshot_def)
  then have "get_membership R ti si = Inr (Some (m, t, s))"
    using ids m by (simp add: get_membership_def build_membership_snapshot_def)
  with s show ?thesis by blast
qed

lemma get_subject_Inr:
  assumes "subjects_inv R" "get_subject R ti si = Inr (Some (t, s))"
  shows "map_of (sr_subjects R) (py_strip ti, py_strip si) = Some s" "sj_tenant s = py_strip ti" "sj_id s = py_strip si"
  using assms
  by (auto simp: get_subject_def subjects_inv_def res_simps build_subject_registry_snapshot_def or_value_def
      split: option.splits prod.splits)

lemma get_subject_ok:
  assumes inv: "subjects_inv R" and s: "map_of (sr_subjects R) (ti, si) = Some s"
  shows "\<exists>t. get_subject R ti si = Inr (Some (t, s)) \<and> registry_id_ok (sj_tenant s) \<and> registry_id_ok (sj_id s)"
proof -
  have k: "(ti, si) = (sj_tenant s, sj_id s)" "registry_id_ok (sj_id s)" "\<exists>t. map_of (sr_tenants R) (sj_tenant s) = Some t"
    using inv s unfolding subjects_inv_def by blast+
  then obtain t where t: "map_of (sr_tenants R) ti = Some t" by auto
  then have "tn_id t = ti" "registry_id_ok ti" using inv unfolding subjects_inv_def by blast+
  then have "get_subject R ti si = Inr (Some (t, s))"
    using k s t by (simp add: get_subject_def build_subject_registry_snapshot_def)
  then show ?thesis using k \<open>registry_id_ok ti\<close> by auto
qed

end
