(* ===== verification/Oa_Sessions.thy ===== *)
theory Oa_Sessions
  imports Oa_Registry
begin

section \<open>User sessions of OA\<close>

text \<open>
  \<^verbatim>\<open>services/nex-oa/nex_oa/sessions.py\<close>: the in-memory session registry, and of
  \<^verbatim>\<open>_shared/nex_runtime/auth.py\<close> the user claims a session is built from. \<open>sid\<close> is the
  random session id, \<open>now\<close> an instant (microseconds), and \<open>resolve\<close> the resolver of
  effective authorization, where the registry has one. A call that reads the clock more than once
  has one instant per reading: \<open>clk n\<close> is what the \<open>n\<close>-th reading of an introspection gives. A registry stores before it builds its
  answer, so an answer that cannot be built is an error with a changed state.
\<close>

subsection \<open>Requests\<close>

abbreviation session_text :: "pyval \<Rightarrow> string \<Rightarrow> oa_exn + string" where
  "session_text \<equiv> stripped_text OaSessionError ''oa.session_field_invalid''"

definition SENSITIVE_SESSION_KEY_PARTS :: "string list" where
  "SENSITIVE_SESSION_KEY_PARTS =
     [''access'', ''authorization'', ''cookie'', ''credential'', ''passwd'', ''password'', ''secret'', ''token'']"

fun has_sensitive_key :: "pyval \<Rightarrow> bool" where
  "has_sensitive_key (PDict d) =
     list_ex (\<lambda>(k, v). list_ex (\<lambda>p. contains_text p (py_lower k)) SENSITIVE_SESSION_KEY_PARTS \<or> has_sensitive_key v) d"
| "has_sensitive_key (PList l) = list_ex has_sensitive_key l"
| "has_sensitive_key _ = False"

text \<open>The first check already looks at every depth, so it comes before any of the second.\<close>

definition reject_private_session_payload :: "pyval \<Rightarrow> oa_exn + unit" where
  "reject_private_session_payload v =
     sbind (reject_private OaSessionError ''OA session requests must not include private identity data.'' v) (\<lambda>_.
     if has_sensitive_key v then
       Inl (OaError OaSessionError 400 ''oa.private_identity_payload_rejected''
         ''OA session requests must not include credential material.'')
     else Inr ())"

definition reject_unsupported_session_fields :: "pydict \<Rightarrow> string list \<Rightarrow> string \<Rightarrow> string \<Rightarrow> oa_exn + unit" where
  "reject_unsupported_session_fields payload allowed code request =
     sbind (reject_private_session_payload (PDict payload)) (\<lambda>_.
     if list_all (\<lambda>(k, v). k \<in> set allowed) payload then Inr ()
     else Inl (OaError OaSessionError 400 code (request @ '' request contains an unsupported field.'')))"

definition session_list :: "pyval \<Rightarrow> string \<Rightarrow> oa_exn + string list" where
  "session_list v f =
     (case v of PList l \<Rightarrow> text_list OaSessionError ''oa.session_field_invalid'' f l
      | _ \<Rightarrow> Inl (OaError OaSessionError 400 ''oa.session_list_invalid'' (f @ '' must be a list of strings.'')))"

definition non_empty_session_list :: "pyval \<Rightarrow> string \<Rightarrow> oa_exn + string list" where
  "non_empty_session_list v f =
     sbind (session_list v f) (\<lambda>ss.
     if ss = [] then Inl (OaError OaSessionError 400 ''oa.session_list_invalid'' (f @ '' must contain at least one value.''))
     else Inr ss)"

definition ttl_seconds :: "pyval \<Rightarrow> oa_exn + int" where
  "ttl_seconds v =
     (case v of PNone \<Rightarrow> Inr 3600
      | PInt n \<Rightarrow>
          if n \<le> 0 \<or> n > 86400 then
            Inl (OaError OaSessionError 400 ''oa.session_ttl_invalid'' ''ttl_seconds is outside the allowed range.'')
          else Inr n
      | _ \<Rightarrow> Inl (OaError OaSessionError 400 ''oa.session_ttl_invalid'' ''ttl_seconds must be an integer.''))"

definition session_ref_id :: "pyval \<Rightarrow> string \<Rightarrow> oa_exn + string" where
  "session_ref_id v f = map_err (from_subject_error OaSessionError) (normalize_registry_id v f None)"

record issue_request =
  iq_tenant :: string
  iq_subject :: string
  iq_scopes :: "string list option"
  iq_ttl :: int

definition SESSION_ISSUE_FIELDS :: "string list" where
  "SESSION_ISSUE_FIELDS =
     [''tenant_id'', ''subject_id'', ''user_id'', ''owner_user_id'', ''requested_scopes'', ''ttl_seconds'']"

definition normalize_session_issue_request :: "pydict \<Rightarrow> oa_exn + issue_request" where
  "normalize_session_issue_request payload =
     sbind (reject_unsupported_session_fields payload SESSION_ISSUE_FIELDS
              ''oa.session_issue_field_unsupported'' ''Session issue'') (\<lambda>_.
     sbind (session_ref_id (dget_or payload ''tenant_id'' (PStr ''local-tenant'')) ''tenant_id'') (\<lambda>t.
     sbind (session_ref_id (dget_or payload ''subject_id'' (dget_or payload ''owner_user_id''
              (dget_or payload ''user_id'' (PStr ''local-user'')))) ''subject_id'') (\<lambda>s.
     sbind (if dget payload ''requested_scopes'' = PNone then Inr None
            else sbind (non_empty_session_list (dget payload ''requested_scopes'') ''requested_scopes'') (\<lambda>ss. Inr (Some ss))) (\<lambda>scopes.
     sbind (ttl_seconds (dget payload ''ttl_seconds'')) (\<lambda>ttl.
     Inr \<lparr>iq_tenant = t, iq_subject = s, iq_scopes = scopes, iq_ttl = ttl\<rparr>)))))"

definition normalize_session_introspection_request :: "pydict \<Rightarrow> oa_exn + string" where
  "normalize_session_introspection_request payload =
     sbind (reject_unsupported_session_fields payload [''session_id'']
              ''oa.session_introspection_field_unsupported'' ''Session introspection'') (\<lambda>_.
     session_text (dget payload ''session_id'') ''session_id'')"

subsection \<open>Claims and records\<close>

record user_claims =
  uc_issuer :: string
  uc_subject :: string
  uc_audience :: string
  uc_tenant :: string
  uc_user :: string
  uc_scopes :: "string list"
  uc_roles :: "string list"
  uc_issued :: string
  uc_expires :: string
  uc_use :: string

definition KNOWN_SERVICE_IDS :: "string list" where
  "KNOWN_SERVICE_IDS = [''nex-oa'', ''nex-ag'', ''nex-ae-api'', ''nex-cx'', ''nex-mo'']"

text \<open>\<open>issue_mock_user_token\<close>, up to the encoding of the claims as a token.\<close>

definition issue_user_claims ::
  "string \<Rightarrow> string \<Rightarrow> string \<Rightarrow> string list \<Rightarrow> string list \<Rightarrow> int \<Rightarrow> int \<Rightarrow> oa_exn + user_claims" where
  "issue_user_claims tenant_id user_id audience scopes roles issued ttl =
     (if audience \<notin> set KNOWN_SERVICE_IDS \<or> tenant_id = [] \<or> user_id = [] \<or> ttl \<le> 0 then Inl (OaPy ValueError)
      else if \<not> in_range (issued + ttl * 1000000) then Inl (OaPy OverflowError)
      else Inr \<lparr>uc_issuer = ''nex-oa'', uc_subject = ''user:'' @ tenant_id @ '':'' @ user_id, uc_audience = audience,
        uc_tenant = tenant_id, uc_user = user_id,
        uc_scopes = (if scopes = [] then [''workspace:use''] else scopes), uc_roles = roles,
        uc_issued = wire_timestamp issued, uc_expires = wire_timestamp (issued + ttl * 1000000), uc_use = ''user''\<rparr>)"

datatype session_status = L_ACTIVE | L_EXPIRED | L_REVOKED

record session =
  ss_id :: string
  ss_status :: session_status
  ss_issuer :: string
  ss_audience :: string
  ss_use :: string
  ss_tenant :: string
  ss_subject :: string
  ss_scopes :: "string list"
  ss_roles :: "string list"
  ss_issued :: string
  ss_expires :: string
  ss_auth :: string
  ss_seen :: string
  ss_idle :: string
  ss_revoked :: "string option"
  ss_created :: string
  ss_updated :: string

text \<open>\<open>_wire_timestamp_to_utc\<close>.\<close>

definition session_instant :: "string \<Rightarrow> oa_exn + int" where
  "session_instant s =
     sbind (session_text (PStr s) ''expires_at'') (\<lambda>t.
     case fromisoformat (if last t = CHR ''Z'' then butlast t @ ''+00:00'' else t) of
       None \<Rightarrow> Inl (OaPy ValueError)
     | Some (local, None) \<Rightarrow> map_err OaPy (to_utc local 0)
     | Some (local, Some off) \<Rightarrow> map_err OaPy (to_utc local off))"

definition idle_deadline :: "int \<Rightarrow> int \<Rightarrow> oa_exn + int" where
  "idle_deadline expires seen =
     (if in_range (seen + 1800 * 1000000) then Inr (min expires (seen + 1800 * 1000000)) else Inl (OaPy OverflowError))"

definition build_session_record :: "user_claims \<Rightarrow> string \<Rightarrow> int \<Rightarrow> oa_exn + session" where
  "build_session_record c sid now =
     sbind (session_instant (uc_issued c)) (\<lambda>issued.
     sbind (session_instant (uc_expires c)) (\<lambda>expires.
     sbind (idle_deadline expires issued) (\<lambda>idle.
     Inr \<lparr>ss_id = sid, ss_status = L_ACTIVE, ss_issuer = uc_issuer c, ss_audience = uc_audience c, ss_use = uc_use c,
          ss_tenant = uc_tenant c, ss_subject = uc_user c, ss_scopes = uc_scopes c, ss_roles = uc_roles c,
          ss_issued = uc_issued c, ss_expires = uc_expires c, ss_auth = uc_issued c, ss_seen = uc_issued c,
          ss_idle = wire_timestamp idle, ss_revoked = None, ss_created = wire_timestamp now, ss_updated = wire_timestamp now\<rparr>)))"

definition build_revoked_session_record :: "session \<Rightarrow> int \<Rightarrow> session \<times> bool \<times> bool" where
  "build_revoked_session_record s now =
     (let already = (ss_status s = L_REVOKED) in
      if already \<and> ss_revoked s \<noteq> None then (s, True, False)
      else (s\<lparr>ss_status := L_REVOKED,
              ss_revoked := Some (case ss_revoked s of None \<Rightarrow> wire_timestamp now | Some t \<Rightarrow> t),
              ss_updated := wire_timestamp now\<rparr>, already, True))"

definition inactive_reason_at :: "session \<Rightarrow> int \<Rightarrow> oa_exn + string option" where
  "inactive_reason_at s now =
     (case ss_status s of
        L_REVOKED \<Rightarrow> Inr (Some ''revoked'')
      | L_EXPIRED \<Rightarrow> Inr (Some ''expired'')
      | L_ACTIVE \<Rightarrow>
          sbind (session_instant (ss_expires s)) (\<lambda>expires.
          if expires \<le> now then Inr (Some ''expired'')
          else sbind (session_instant (ss_idle s)) (\<lambda>idle.
            if idle \<le> now then Inr (Some ''idle_expired'') else Inr None)))"

text \<open>\<open>_inactive_reason_for_session_record\<close>: the same tests, with a reading of the clock for each deadline.\<close>

definition inactive_reason :: "session \<Rightarrow> int \<Rightarrow> int \<Rightarrow> oa_exn + string option" where
  "inactive_reason s now1 now2 =
     (case ss_status s of
        L_REVOKED \<Rightarrow> Inr (Some ''revoked'')
      | L_EXPIRED \<Rightarrow> Inr (Some ''expired'')
      | L_ACTIVE \<Rightarrow>
          sbind (session_instant (ss_expires s)) (\<lambda>expires.
          if expires \<le> now1 then Inr (Some ''expired'')
          else sbind (session_instant (ss_idle s)) (\<lambda>idle.
            if idle \<le> now2 then Inr (Some ''idle_expired'') else Inr None)))"

definition refresh_session_for_introspection :: "session \<Rightarrow> int \<Rightarrow> oa_exn + session" where
  "refresh_session_for_introspection s now =
     sbind (inactive_reason_at s now) (\<lambda>reason.
     if reason \<in> {Some ''expired'', Some ''idle_expired''} \<and> ss_status s = L_ACTIVE then
       Inr (s\<lparr>ss_status := L_EXPIRED, ss_updated := wire_timestamp now\<rparr>)
     else if reason \<noteq> None then Inr s
     else sbind (session_instant (ss_expires s)) (\<lambda>expires.
       sbind (idle_deadline expires now) (\<lambda>idle.
       Inr (s\<lparr>ss_seen := wire_timestamp now, ss_idle := wire_timestamp idle, ss_updated := wire_timestamp now\<rparr>))))"

subsection \<open>Answers\<close>

text \<open>\<open>build_browser_session_snapshot\<close>: it reads every field again, as texts.\<close>

record session_view =
  vw_id :: string
  vw_status :: session_status
  vw_tenant :: string
  vw_subject :: string
  vw_scopes :: "string list"
  vw_roles :: "string list"
  vw_issued :: string
  vw_expires :: string
  vw_auth :: string

definition build_browser_session_snapshot :: "session \<Rightarrow> oa_exn + session_view" where
  "build_browser_session_snapshot s =
     sbind (session_text (PStr (ss_id s)) ''session_id'') (\<lambda>i.
     sbind (session_ref_id (PStr (ss_tenant s)) ''tenant_id'') (\<lambda>t.
     sbind (session_ref_id (PStr (ss_subject s)) ''subject_id'') (\<lambda>u.
     sbind (non_empty_session_list (PList (map PStr (ss_scopes s))) ''scopes'') (\<lambda>scopes.
     sbind (session_list (PList (map PStr (ss_roles s))) ''roles'') (\<lambda>roles.
     sbind (session_text (PStr (ss_issued s)) ''issued_at'') (\<lambda>issued.
     sbind (session_text (PStr (ss_expires s)) ''expires_at'') (\<lambda>expires.
     sbind (session_text (PStr (ss_auth s)) ''auth_time'') (\<lambda>auth.
     Inr \<lparr>vw_id = i, vw_status = ss_status s, vw_tenant = t, vw_subject = u, vw_scopes = scopes, vw_roles = roles,
          vw_issued = issued, vw_expires = expires, vw_auth = auth\<rparr>))))))))"

record introspection =
  in_active :: bool
  in_reason :: "string option"
  in_session :: "session_view option"

definition build_session_introspection_response :: "session option \<Rightarrow> int \<Rightarrow> int \<Rightarrow> oa_exn + introspection" where
  "build_session_introspection_response found now1 now2 =
     (case found of
        None \<Rightarrow> Inr \<lparr>in_active = False, in_reason = Some ''not_found'', in_session = None\<rparr>
      | Some s \<Rightarrow>
          sbind (build_browser_session_snapshot s) (\<lambda>v.
          sbind (inactive_reason s now1 now2) (\<lambda>reason.
          Inr \<lparr>in_active = (reason = None), in_reason = reason, in_session = Some v\<rparr>)))"

record revocation =
  rk_session_id :: string
  rk_revoked :: bool
  rk_already :: bool
  rk_reason :: "string option"
  rk_revoked_at :: "string option"
  rk_session :: "session_view option"

definition build_session_revocation_response ::
  "session option \<Rightarrow> string \<Rightarrow> bool \<Rightarrow> int \<Rightarrow> int \<Rightarrow> oa_exn + revocation" where
  "build_session_revocation_response found sid already now1 now2 =
     sbind (build_session_introspection_response found now1 now2) (\<lambda>i.
     Inr \<lparr>rk_session_id = sid, rk_revoked = (found \<noteq> None), rk_already = already, rk_reason = in_reason i,
          rk_revoked_at = (case found of None \<Rightarrow> None | Some s \<Rightarrow> ss_revoked s), rk_session = in_session i\<rparr>)"

subsection \<open>The registry\<close>

type_synonym sessions = "(string \<times> session) list"

record grants =
  gr_roles :: "string list"
  gr_scopes :: "string list"

definition effective_scopes :: "string list \<Rightarrow> string list option \<Rightarrow> oa_exn + string list" where
  "effective_scopes granted requested =
     (case requested of
        None \<Rightarrow> Inr granted
      | Some rs \<Rightarrow>
          (case sort (filter (\<lambda>r. r \<notin> set granted) rs) of
             [] \<Rightarrow> Inr rs
           | r # _ \<Rightarrow> Inl (OaError OaSessionError 403 ''oa.session_scope_not_granted''
               (''Requested scope is not granted by membership: '' @ r))))"

definition claims_for_membership ::
  "membership \<Rightarrow> issue_request \<Rightarrow> grants option \<Rightarrow> int \<Rightarrow> oa_exn + user_claims" where
  "claims_for_membership m q authorization now =
     (let g = (case authorization of None \<Rightarrow> \<lparr>gr_roles = mb_roles m, gr_scopes = mb_scopes m\<rparr> | Some g \<Rightarrow> g) in
      sbind (non_empty_session_list (PList (map PStr (gr_scopes g))) ''scopes'') (\<lambda>granted.
      sbind (effective_scopes granted (iq_scopes q)) (\<lambda>scopes.
      sbind (session_list (PList (map PStr (gr_roles g))) ''roles'') (\<lambda>roles.
      issue_user_claims (iq_tenant q) (iq_subject q) ''nex-ae-api'' scopes roles now (iq_ttl q)))))"

fun from_membership_error :: "oa_exn \<Rightarrow> oa_exn" where
  "from_membership_error (OaError OaMembershipError s c d) = OaError OaSessionError s c d"
| "from_membership_error e = e"

definition required_active_membership ::
  "membership_registry \<Rightarrow> string \<Rightarrow> string \<Rightarrow> oa_exn + membership \<times> tenant \<times> subject" where
  "required_active_membership R t s =
     sbind (map_err from_membership_error (get_membership R t s)) (\<lambda>found.
     case found of
       None \<Rightarrow> Inl (OaError OaSessionError 404 ''oa.membership_not_found''
         (''Membership was not found: '' @ t @ ''/'' @ s))
     | Some snap \<Rightarrow>
         if mb_status (fst snap) \<noteq> S_ACTIVE then
           Inl (OaError OaSessionError 403 ''oa.membership_inactive''
             ''OA cannot issue a session for an inactive membership.'')
         else Inr snap)"

definition issue_session ::
  "membership_registry \<Rightarrow> (membership \<Rightarrow> oa_exn + grants) option \<Rightarrow> sessions \<Rightarrow> pydict \<Rightarrow> string \<Rightarrow> int \<Rightarrow> int
    \<Rightarrow> (oa_exn + session_view) \<times> sessions" where
  "issue_session R resolve S payload sid now stored =
     (case sbind (normalize_session_issue_request payload) (\<lambda>q.
           sbind (required_active_membership R (iq_tenant q) (iq_subject q)) (\<lambda>snap.
           sbind (case resolve of None \<Rightarrow> Inr None | Some f \<Rightarrow> sbind (f (fst snap)) (\<lambda>g. Inr (Some g))) (\<lambda>g.
           sbind (claims_for_membership (fst snap) q g now) (\<lambda>c. build_session_record c sid stored)))) of
        Inl e \<Rightarrow> (Inl e, S)
      | Inr s \<Rightarrow> (build_browser_session_snapshot s, dict_put (ss_id s) s S))"

definition get_session :: "sessions \<Rightarrow> string \<Rightarrow> oa_exn + session_view option" where
  "get_session S sid =
     sbind (session_text (PStr sid) ''session_id'') (\<lambda>i.
     case map_of S i of None \<Rightarrow> Inr None | Some s \<Rightarrow> sbind (build_browser_session_snapshot s) (\<lambda>v. Inr (Some v)))"

definition introspect_session :: "sessions \<Rightarrow> pydict \<Rightarrow> (nat \<Rightarrow> int) \<Rightarrow> (oa_exn + introspection) \<times> sessions" where
  "introspect_session S payload clk =
     (case normalize_session_introspection_request payload of
        Inl e \<Rightarrow> (Inl e, S)
      | Inr i \<Rightarrow>
          (case map_of S i of
             None \<Rightarrow> (build_session_introspection_response None (clk 0) (clk 1), S)
           | Some s \<Rightarrow>
               (case refresh_session_for_introspection s (clk 0) of
                  Inl e \<Rightarrow> (Inl e, S)
                | Inr s' \<Rightarrow> (build_session_introspection_response (Some s') (clk 1) (clk 2), dict_put i s' S))))"

text \<open>The answer of a revocation is of a revoked session, whose reason needs no reading of the clock.\<close>

definition revoke_session :: "sessions \<Rightarrow> string \<Rightarrow> int \<Rightarrow> (oa_exn + revocation) \<times> sessions" where
  "revoke_session S sid now =
     (case session_text (PStr sid) ''session_id'' of
        Inl e \<Rightarrow> (Inl e, S)
      | Inr i \<Rightarrow>
          (case map_of S i of
             None \<Rightarrow> (build_session_revocation_response None i False now now, S)
           | Some s \<Rightarrow>
               (case build_revoked_session_record s now of
                  (s', already, _) \<Rightarrow>
                    (build_session_revocation_response (Some s') i already now now, dict_put i s' S))))"

text \<open>
  What the lifecycle and the authorization repositories do to the sessions of subjects whose rights
  change: every active one is revoked.
\<close>

definition revoke_sessions_of :: "sessions \<Rightarrow> string \<Rightarrow> string list \<Rightarrow> int \<Rightarrow> nat \<times> sessions" where
  "revoke_sessions_of S ti sis now =
     (let hit = (\<lambda>s. ss_status s = L_ACTIVE \<and> ss_tenant s = ti \<and> ss_subject s \<in> set sis) in
      (length (filter (\<lambda>(_, s). hit s) S),
       map (\<lambda>(i, s). (i, if hit s then fst (build_revoked_session_record s now) else s)) S))"

subsection \<open>Reading the times of a session\<close>

lemma digit_no_space: "digit c \<noteq> None \<Longrightarrow> \<not> py_space c"
proof -
  assume "digit c \<noteq> None"
  then have "48 \<le> (of_char c :: int)" "(of_char c :: int) \<le> 57" by (auto simp: digit_def Let_def split: if_splits)
  moreover have "(of_char c :: int) = int (of_char c)" by (simp only: of_nat_of_char)
  ultimately have "48 \<le> (of_char c :: nat)" "(of_char c :: nat) \<le> 57" by linarith+
  then show ?thesis by (auto simp: py_space_def Let_def)
qed

lemma wire_split:
  "\<exists>u. wire_timestamp t = u @ ''Z'' \<and> replace_Z u = u \<and> u \<noteq> [] \<and> \<not> py_space (hd u)"
proof -
  define n r where "n = t div day_us" and "r = t mod day_us"
  define us s where "us = r mod 1000000" and "s = r div 1000000"
  obtain y m d where ymd: "days_to_ymd n = (y, m, d)" by (cases "days_to_ymd n")
  let ?u = "fixed_digits 4 y @ ''-'' @ fixed_digits 2 m @ ''-'' @ fixed_digits 2 d @ ''T'' @
    fixed_digits 2 (s div 3600) @ '':'' @ fixed_digits 2 (s div 60 mod 60) @ '':'' @ fixed_digits 2 (s mod 60) @
    (if us = 0 then [] else ''.'' @ fixed_digits 6 us)"
  have w: "wire_timestamp t = ?u @ ''Z''"
    by (simp add: wire_timestamp_def Let_def flip: n_def r_def us_def s_def) (simp add: ymd)
  have ne: "fixed_digits 4 y \<noteq> []" by (metis length_fixed_digits length_0_conv zero_neq_numeral)
  then have "hd ?u \<in> set (fixed_digits 4 y)" by (cases "fixed_digits 4 y") auto
  then have "\<not> py_space (hd ?u)" by (intro digit_no_space fixed_digits_digit)
  moreover have "replace_Z ?u = ?u" by simp
  ultimately show ?thesis using w ne by (intro exI [of _ ?u]) auto
qed

lemma strip_wire [simp]: "py_strip (wire_timestamp t) = wire_timestamp t"
proof -
  obtain u where "wire_timestamp t = u @ ''Z''" "u \<noteq> []" "\<not> py_space (hd u)" using wire_split [of t] by blast
  moreover have "\<not> py_space CHR ''Z''" by (simp add: py_space_def)
  ultimately show ?thesis by (intro py_strip_id) auto
qed

lemma session_instant_wire [simp]: "in_range t \<Longrightarrow> session_instant (wire_timestamp t) = Inr t"
proof -
  assume t: "in_range t"
  obtain u where u: "wire_timestamp t = u @ ''Z''" "replace_Z u = u" using wire_split [of t] by blast
  have "replace_Z (wire_timestamp t) = butlast (wire_timestamp t) @ ''+00:00''" using u by simp
  moreover have "last (wire_timestamp t) = CHR ''Z''" using u by simp
  moreover have "session_text (PStr (wire_timestamp t)) ''expires_at'' = Inr (wire_timestamp t)"
    by (simp add: stripped_text_Inr)
  ultimately show ?thesis
    using parse_wire_timestamp [OF t]
    by (auto simp: session_instant_def parse_wire_datetime_def to_utc_def split: option.splits prod.splits if_splits)
qed

subsection \<open>Well-formed sessions\<close>

definition good_texts :: "string list \<Rightarrow> bool" where
  "good_texts ss \<longleftrightarrow> (\<forall>s \<in> set ss. py_strip s = s \<and> s \<noteq> [])"

definition session_wf :: "session \<Rightarrow> bool" where
  "session_wf s \<longleftrightarrow> registry_id_ok (ss_tenant s) \<and> registry_id_ok (ss_subject s) \<and>
     ss_scopes s \<noteq> [] \<and> good_texts (ss_scopes s) \<and> good_texts (ss_roles s) \<and> ss_auth s = ss_issued s \<and>
     (ss_status s = L_REVOKED \<longrightarrow> ss_revoked s \<noteq> None) \<and>
     (\<exists>i e d. in_range i \<and> in_range e \<and> in_range d \<and> ss_issued s = wire_timestamp i \<and> ss_expires s = wire_timestamp e \<and>
        ss_idle s = wire_timestamp d \<and> i < e \<and> e \<le> i + 86400 * 1000000 \<and> d \<le> e)"

text \<open>What may happen to a stored session: its rights and its end are fixed, and it never comes back.\<close>

definition session_evolves :: "session \<Rightarrow> session \<Rightarrow> bool" where
  "session_evolves s s' \<longleftrightarrow> ss_id s' = ss_id s \<and> ss_tenant s' = ss_tenant s \<and> ss_subject s' = ss_subject s \<and>
     ss_scopes s' = ss_scopes s \<and> ss_roles s' = ss_roles s \<and> ss_issued s' = ss_issued s \<and> ss_expires s' = ss_expires s \<and>
     (ss_status s' = L_ACTIVE \<longrightarrow> ss_status s = L_ACTIVE) \<and> (ss_status s = L_REVOKED \<longrightarrow> s' = s \<or> ss_status s' = L_REVOKED)"

lemma session_evolves_refl [simp]: "session_evolves s s"
  by (simp add: session_evolves_def)

lemma session_evolves_trans: "session_evolves a b \<Longrightarrow> session_evolves b c \<Longrightarrow> session_evolves a c"
  by (auto simp: session_evolves_def)

definition sessions_inv :: "sessions \<Rightarrow> bool" where
  "sessions_inv S \<longleftrightarrow> distinct (map fst S) \<and> (\<forall>k s. map_of S k = Some s \<longrightarrow> k = ss_id s \<and> session_wf s)"

lemma text_list_Inr: "text_list k code f vs = Inr ss \<Longrightarrow> good_texts ss"
  by (induction vs arbitrary: ss) (auto simp: good_texts_def res_simps)

lemma text_list_set: "text_list k code f (map PStr xs) = Inr ss \<Longrightarrow> set ss \<subseteq> py_strip ` set xs"
  by (induction xs arbitrary: ss) (auto simp: res_simps)

lemma text_list_good: "good_texts ss \<Longrightarrow> text_list k code f (map PStr ss) = Inr ss"
  by (induction ss) (auto simp: good_texts_def stripped_text_def)

lemma session_list_good: "good_texts ss \<Longrightarrow> session_list (PList (map PStr ss)) f = Inr ss"
  by (simp add: session_list_def text_list_good)

lemma non_empty_list_good: "good_texts ss \<Longrightarrow> ss \<noteq> [] \<Longrightarrow> non_empty_session_list (PList (map PStr ss)) f = Inr ss"
  by (simp add: non_empty_session_list_def session_list_good)

lemma session_list_Inr: "session_list v f = Inr ss \<Longrightarrow> good_texts ss"
  by (auto simp: session_list_def text_list_Inr split: pyval.splits)

lemma non_empty_list_Inr: "non_empty_session_list v f = Inr ss \<Longrightarrow> good_texts ss \<and> ss \<noteq> []"
  using session_list_Inr by (auto simp: non_empty_session_list_def res_simps split: if_splits)

lemma idle_deadline_Inr:
  assumes "idle_deadline e t = Inr d" "in_range e"
  shows "in_range d" "d \<le> e"
  using assms by (auto simp: idle_deadline_def min_def split: if_splits)

text \<open>The claims of a session are within the grants and within the longest life.\<close>

lemma claims_Inr:
  assumes "claims_for_membership m q g now = Inr c" and ttl: "iq_ttl q \<le> 86400"
    and q: "\<And>rs. iq_scopes q = Some rs \<Longrightarrow> good_texts rs \<and> rs \<noteq> []"
  shows "uc_tenant c = iq_tenant q" "uc_user c = iq_subject q" "good_texts (uc_scopes c)" "uc_scopes c \<noteq> []"
    "good_texts (uc_roles c)" "uc_issued c = wire_timestamp now"
    "uc_expires c = wire_timestamp (now + iq_ttl q * 1000000)" "in_range (now + iq_ttl q * 1000000)" "0 < iq_ttl q"
    "set (uc_scopes c) \<subseteq> py_strip ` set (case g of None \<Rightarrow> mb_scopes m | Some h \<Rightarrow> gr_scopes h)"
proof -
  let ?g = "case g of None \<Rightarrow> \<lparr>gr_roles = mb_roles m, gr_scopes = mb_scopes m\<rparr> | Some h \<Rightarrow> h"
  obtain granted scopes roles where
    granted: "non_empty_session_list (PList (map PStr (gr_scopes ?g))) ''scopes'' = Inr granted"
    and scopes: "effective_scopes granted (iq_scopes q) = Inr scopes"
    and roles: "session_list (PList (map PStr (gr_roles ?g))) ''roles'' = Inr roles"
    and c: "issue_user_claims (iq_tenant q) (iq_subject q) ''nex-ae-api'' scopes roles now (iq_ttl q) = Inr c"
    using assms(1) by (auto simp: claims_for_membership_def Let_def res_simps)
  note gr = non_empty_list_Inr [OF granted]
  have sc: "good_texts scopes \<and> scopes \<noteq> [] \<and> set scopes \<subseteq> set granted"
    using scopes gr q by (cases "iq_scopes q") (auto simp: effective_scopes_def split: list.splits
      dest!: arg_cong [where f = set])
  have "text_list OaSessionError ''oa.session_field_invalid'' ''scopes'' (map PStr (gr_scopes ?g)) = Inr granted"
    using granted by (simp add: non_empty_session_list_def session_list_def res_simps)
  then have "set granted \<subseteq> py_strip ` set (gr_scopes ?g)" by (rule text_list_set)
  moreover have "gr_scopes ?g = (case g of None \<Rightarrow> mb_scopes m | Some h \<Rightarrow> gr_scopes h)" by (simp split: option.splits)
  ultimately show "set (uc_scopes c) \<subseteq> py_strip ` set (case g of None \<Rightarrow> mb_scopes m | Some h \<Rightarrow> gr_scopes h)"
    using c sc by (auto simp: issue_user_claims_def split: if_splits)
  show "uc_tenant c = iq_tenant q" "uc_user c = iq_subject q" "good_texts (uc_scopes c)" "uc_scopes c \<noteq> []"
    "good_texts (uc_roles c)" "uc_issued c = wire_timestamp now"
    "uc_expires c = wire_timestamp (now + iq_ttl q * 1000000)" "in_range (now + iq_ttl q * 1000000)" "0 < iq_ttl q"
    using c sc session_list_Inr [OF roles] by (auto simp: issue_user_claims_def split: if_splits)
qed

lemma issue_request_Inr:
  assumes "normalize_session_issue_request payload = Inr q"
  shows "registry_id_ok (iq_tenant q)" "registry_id_ok (iq_subject q)" "0 < iq_ttl q" "iq_ttl q \<le> 86400"
    "\<And>rs. iq_scopes q = Some rs \<Longrightarrow> good_texts rs \<and> rs \<noteq> []"
proof -
  obtain t s scopes ttl where
    q: "q = \<lparr>iq_tenant = t, iq_subject = s, iq_scopes = scopes, iq_ttl = ttl\<rparr>" and
    ids: "session_ref_id (dget_or payload ''tenant_id'' (PStr ''local-tenant'')) ''tenant_id'' = Inr t"
      "session_ref_id (dget_or payload ''subject_id'' (dget_or payload ''owner_user_id''
         (dget_or payload ''user_id'' (PStr ''local-user'')))) ''subject_id'' = Inr s" and
    ttl: "ttl_seconds (dget payload ''ttl_seconds'') = Inr ttl" and
    sc: "(if dget payload ''requested_scopes'' = PNone then Inr None
            else sbind (non_empty_session_list (dget payload ''requested_scopes'') ''requested_scopes'') (\<lambda>ss. Inr (Some ss)))
          = (Inr scopes :: oa_exn + _)"
    using assms unfolding normalize_session_issue_request_def sbind_eq_Inr by blast
  show "registry_id_ok (iq_tenant q)" "registry_id_ok (iq_subject q)"
    using ids by (auto simp: q session_ref_id_def res_simps)
  show "0 < iq_ttl q" "iq_ttl q \<le> 86400"
    using ttl by (auto simp: q ttl_seconds_def split: pyval.splits if_splits)
  show "good_texts rs \<and> rs \<noteq> []" if "iq_scopes q = Some rs" for rs
    using sc that non_empty_list_Inr by (auto simp: q res_simps split: if_splits)
qed

lemma build_session_Inr:
  assumes "build_session_record c sid now = Inr s" "uc_issued c = wire_timestamp i" "in_range i"
    "uc_expires c = wire_timestamp e" "in_range e" "i < e" "e \<le> i + 86400 * 1000000"
    "registry_id_ok (uc_tenant c)" "registry_id_ok (uc_user c)" "good_texts (uc_scopes c)" "uc_scopes c \<noteq> []"
    "good_texts (uc_roles c)"
  shows "session_wf s" "ss_id s = sid" "ss_status s = L_ACTIVE" "ss_tenant s = uc_tenant c" "ss_subject s = uc_user c"
    "ss_scopes s = uc_scopes c" "ss_roles s = uc_roles c" "ss_issued s = uc_issued c" "ss_expires s = uc_expires c"
proof -
  obtain d where d: "idle_deadline e i = Inr d"
    and s: "s = \<lparr>ss_id = sid, ss_status = L_ACTIVE, ss_issuer = uc_issuer c, ss_audience = uc_audience c, ss_use = uc_use c,
      ss_tenant = uc_tenant c, ss_subject = uc_user c, ss_scopes = uc_scopes c, ss_roles = uc_roles c,
      ss_issued = uc_issued c, ss_expires = uc_expires c, ss_auth = uc_issued c, ss_seen = uc_issued c,
      ss_idle = wire_timestamp d, ss_revoked = None, ss_created = wire_timestamp now, ss_updated = wire_timestamp now\<rparr>"
    using assms(1-5) by (auto simp: build_session_record_def res_simps)
  have "\<exists>i e d. in_range i \<and> in_range e \<and> in_range d \<and> ss_issued s = wire_timestamp i \<and> ss_expires s = wire_timestamp e \<and>
        ss_idle s = wire_timestamp d \<and> i < e \<and> e \<le> i + 86400 * 1000000 \<and> d \<le> e"
    using assms(2-7) idle_deadline_Inr [OF d assms(5)] by (intro exI [of _ i] exI [of _ e] exI [of _ d]) (simp add: s)
  then show "session_wf s" using assms(8-12) by (simp add: session_wf_def s)
qed (use assms(1) in \<open>auto simp: build_session_record_def res_simps\<close>)

lemma refresh_Inr:
  assumes "refresh_session_for_introspection s now = Inr s'" "session_wf s" "in_range now"
  shows "session_wf s'" "session_evolves s s'" "ss_id s' = ss_id s"
proof -
  obtain i e d where t: "in_range i" "in_range e" "in_range d" "ss_issued s = wire_timestamp i"
    "ss_expires s = wire_timestamp e" "ss_idle s = wire_timestamp d" "i < e" "e \<le> i + 86400 * 1000000" "d \<le> e"
    and rest: "registry_id_ok (ss_tenant s)" "registry_id_ok (ss_subject s)"
     "ss_scopes s \<noteq> []" "good_texts (ss_scopes s)" "good_texts (ss_roles s)" "ss_auth s = ss_issued s"
     "ss_status s = L_REVOKED \<longrightarrow> ss_revoked s \<noteq> None"
    using assms(2) unfolding session_wf_def by blast
  consider (kept) "s' = s"
    | (expired) "s' = s\<lparr>ss_status := L_EXPIRED, ss_updated := wire_timestamp now\<rparr>" "ss_status s = L_ACTIVE"
    | (seen) d' where "s' = s\<lparr>ss_seen := wire_timestamp now, ss_idle := wire_timestamp d', ss_updated := wire_timestamp now\<rparr>"
        "idle_deadline e now = Inr d'" "ss_status s = L_ACTIVE"
  proof (cases "ss_status s = L_ACTIVE")
    case False
    then have "s' = s" using assms(1)
      by (cases "ss_status s") (auto simp: refresh_session_for_introspection_def inactive_reason_at_def)
    then show thesis by (rule kept)
  next
    case True
    show thesis
    proof (cases "e \<le> now \<or> d \<le> now")
      case False
      then obtain d' where "idle_deadline e now = Inr d'"
        "s' = s\<lparr>ss_seen := wire_timestamp now, ss_idle := wire_timestamp d', ss_updated := wire_timestamp now\<rparr>"
        using assms(1) t True by (auto simp: refresh_session_for_introspection_def inactive_reason_at_def res_simps)
      then show thesis using True by (intro seen)
    next
      case late: True
      then have "s' = s\<lparr>ss_status := L_EXPIRED, ss_updated := wire_timestamp now\<rparr>"
        using assms(1) t True by (auto simp: refresh_session_for_introspection_def inactive_reason_at_def split: if_splits)
      then show thesis using True by (intro expired)
    qed
  qed
  then have "session_wf s' \<and> session_evolves s s'"
  proof cases
    case kept
    then show ?thesis using assms(2) by simp
  next
    case expired
    have "session_wf s'" unfolding session_wf_def using t rest
      by (intro conjI exI [of _ i] exI [of _ e] exI [of _ d]) (simp_all add: expired)
    then show ?thesis by (simp add: session_evolves_def expired)
  next
    case seen
    have "session_wf s'" unfolding session_wf_def using t rest idle_deadline_Inr [OF seen(2) t(2)]
      by (intro conjI exI [of _ i] exI [of _ e] exI [of _ d']) (simp_all add: seen)
    then show ?thesis by (simp add: session_evolves_def seen)
  qed
  then show "session_wf s'" "session_evolves s s'" "ss_id s' = ss_id s" by (auto simp: session_evolves_def)
qed

lemma revoked_record:
  assumes "session_wf s"
  shows "session_wf (fst (build_revoked_session_record s now))" "session_evolves s (fst (build_revoked_session_record s now))"
    "ss_status (fst (build_revoked_session_record s now)) = L_REVOKED"
  using assms by (auto simp: build_revoked_session_record_def session_wf_def session_evolves_def Let_def)

text \<open>Whether a session is active at an instant, by the times it was given.\<close>

definition live_at :: "session \<Rightarrow> int \<Rightarrow> bool" where
  "live_at s now \<longleftrightarrow> ss_status s = L_ACTIVE \<and>
     (\<exists>e d. session_instant (ss_expires s) = Inr e \<and> session_instant (ss_idle s) = Inr d \<and> now < e \<and> now < d)"

lemma inactive_reason_live:
  assumes "session_wf s"
  shows "\<exists>r. inactive_reason_at s now = Inr r \<and> (r = None \<longleftrightarrow> live_at s now)"
    "\<exists>r. inactive_reason s now1 now2 = Inr r \<and> (r = None \<longleftrightarrow> ss_status s = L_ACTIVE \<and>
      (\<exists>e d. session_instant (ss_expires s) = Inr e \<and> session_instant (ss_idle s) = Inr d \<and> now1 < e \<and> now2 < d))"
proof -
  obtain e d where "in_range e" "in_range d" "ss_expires s = wire_timestamp e" "ss_idle s = wire_timestamp d"
    using assms unfolding session_wf_def by blast
  then show "\<exists>r. inactive_reason_at s now = Inr r \<and> (r = None \<longleftrightarrow> live_at s now)"
    "\<exists>r. inactive_reason s now1 now2 = Inr r \<and> (r = None \<longleftrightarrow> ss_status s = L_ACTIVE \<and>
      (\<exists>e d. session_instant (ss_expires s) = Inr e \<and> session_instant (ss_idle s) = Inr d \<and> now1 < e \<and> now2 < d))"
    by (auto simp: inactive_reason_at_def inactive_reason_def live_at_def split: session_status.splits)
qed

lemma snapshot_ok:
  assumes "session_wf s" "py_strip (ss_id s) = ss_id s" "ss_id s \<noteq> []"
  shows "\<exists>v. build_browser_session_snapshot s = Inr v \<and> vw_scopes v = ss_scopes s \<and> vw_status v = ss_status s"
proof -
  obtain i e where "ss_issued s = wire_timestamp i" "ss_expires s = wire_timestamp e" "ss_auth s = wire_timestamp i"
    using assms(1) unfolding session_wf_def by metis
  moreover have "session_text (PStr (wire_timestamp t)) f = Inr (wire_timestamp t)" for t f
    by (simp add: stripped_text_Inr)
  moreover have "session_text (PStr (ss_id s)) f = Inr (ss_id s)" for f using assms(2,3) by (simp add: stripped_text_Inr)
  moreover have "session_ref_id (PStr (ss_tenant s)) f = Inr (ss_tenant s)" "session_ref_id (PStr (ss_subject s)) f = Inr (ss_subject s)" for f
    using assms(1) by (simp_all add: session_ref_id_def session_wf_def)
  moreover have "non_empty_session_list (PList (map PStr (ss_scopes s))) f = Inr (ss_scopes s)"
    "session_list (PList (map PStr (ss_roles s))) f = Inr (ss_roles s)" for f
    using assms(1) by (simp_all add: session_wf_def non_empty_list_good session_list_good)
  ultimately show ?thesis by (simp add: build_browser_session_snapshot_def)
qed

end
