(* ===== verification/Oa_Lifecycle.thy ===== *)
theory Oa_Lifecycle
  imports Oa_Sessions
begin

section \<open>The lifecycle of identities\<close>

text \<open>
  \<^verbatim>\<open>services/nex-oa/nex_oa/identity_lifecycle.py\<close>, \<^verbatim>\<open>identity_lifecycle_repository.py\<close> and
  \<^verbatim>\<open>identity_lifecycle_service.py\<close>: the plan of a status change, the in-memory repository that
  applies it to the subject or the membership, revokes the sessions and records an event, and the
  service over both. \<open>eid\<close> is the random event id. The flags of a plan that follow from its statuses
  and that nothing reads are left out. The last part puts the registries, the sessions and the
  events together as \<open>main.py\<close> wires them.
\<close>

subsection \<open>Plans\<close>

datatype lifecycle_entity = SUBJECT_ENTITY | MEMBERSHIP_ENTITY

record lifecycle_plan =
  lp_entity :: lifecycle_entity
  lp_tenant :: string
  lp_subject :: string
  lp_previous :: identity_status
  lp_target :: identity_status
  lp_expected :: int
  lp_next :: int
  lp_changed :: bool
  lp_reason :: "string option"

definition identity_error :: "int \<Rightarrow> string \<Rightarrow> string \<Rightarrow> oa_exn" where
  "identity_error s c d = OaError OaIdentityLifecycleError s c d"

fun SUBJECT_TRANSITIONS :: "identity_status \<Rightarrow> identity_status list" where
  "SUBJECT_TRANSITIONS S_ACTIVE = [S_DISABLED, S_DELETED]"
| "SUBJECT_TRANSITIONS S_DISABLED = [S_ACTIVE, S_DELETED]"
| "SUBJECT_TRANSITIONS S_DELETED = []"

fun MEMBERSHIP_TRANSITIONS :: "identity_status \<Rightarrow> identity_status list" where
  "MEMBERSHIP_TRANSITIONS S_ACTIVE = [S_DISABLED]"
| "MEMBERSHIP_TRANSITIONS S_DISABLED = [S_ACTIVE]"
| "MEMBERSHIP_TRANSITIONS S_DELETED = []"

definition revision_error :: oa_exn where
  "revision_error = identity_error 400 ''oa.lifecycle_revision_invalid'' ''revision must be a positive integer.''"

definition normalize_lifecycle_revision :: "pyval \<Rightarrow> oa_exn + int" where
  "normalize_lifecycle_revision v =
     (case (case v of PInt n \<Rightarrow> Some n | PStr s \<Rightarrow> canonical_nat s | _ \<Rightarrow> None) of
        None \<Rightarrow> Inl revision_error
      | Some n \<Rightarrow> if n < 1 then Inl revision_error else Inr n)"

definition lower_letter :: "char \<Rightarrow> bool" where
  "lower_letter c = (let n = (of_char c :: nat) in 97 \<le> n \<and> n \<le> 122)"

definition decimal_digit :: "char \<Rightarrow> bool" where
  "decimal_digit c = (let n = (of_char c :: nat) in 48 \<le> n \<and> n \<le> 57)"

text \<open>The same on the bits of a character, for evaluation.\<close>

lemma lower_letter_code [code]: "lower_letter (Char b0 b1 b2 b3 b4 b5 b6 b7) \<longleftrightarrow> \<not> b7 \<and> b6 \<and> b5 \<and>
    (b0 \<or> b1 \<or> b2 \<or> b3 \<or> b4) \<and> \<not> (b4 \<and> b3 \<and> (b2 \<or> (b1 \<and> b0)))"
  by (cases b0; cases b1; cases b2; cases b3; cases b4; cases b5; cases b6; cases b7)
     (simp_all add: lower_letter_def Let_def)

lemma decimal_digit_code [code]: "decimal_digit (Char b0 b1 b2 b3 b4 b5 b6 b7) \<longleftrightarrow> \<not> b7 \<and> \<not> b6 \<and> b5 \<and> b4 \<and>
    \<not> (b3 \<and> (b2 \<or> b1))"
  by (cases b0; cases b1; cases b2; cases b3; cases b4; cases b5; cases b6; cases b7)
     (simp_all add: decimal_digit_def Let_def)

text \<open>A lower-case letter and between \<open>low\<close> and 63 letters, digits, dots, underscores and hyphens.\<close>

definition code_ok :: "nat \<Rightarrow> string \<Rightarrow> bool" where
  "code_ok low s =
     (case s of [] \<Rightarrow> False
      | c # cs \<Rightarrow> lower_letter c \<and> low \<le> length cs \<and> length cs \<le> 63 \<and>
          list_all (\<lambda>d. lower_letter d \<or> decimal_digit d \<or> d \<in> set ''_.-'') cs)"

definition reason_error :: "string \<Rightarrow> oa_exn" where
  "reason_error d = identity_error 400 ''oa.lifecycle_reason_invalid'' d"

definition normalize_lifecycle_reason :: "pyval \<Rightarrow> bool \<Rightarrow> oa_exn + string option" where
  "normalize_lifecycle_reason v required =
     (case v of
        PNone \<Rightarrow> if required then Inl (reason_error ''reason_code is required for a lifecycle change.'') else Inr None
      | PStr s \<Rightarrow>
          if code_ok 1 (py_lower (py_strip s)) then Inr (Some (py_lower (py_strip s)))
          else Inl (reason_error ''reason_code must contain 2-64 lowercase letters, digits, '.', '_' or '-'.'')
      | _ \<Rightarrow> Inl (reason_error ''reason_code must be a string.''))"

text \<open>The record of a snapshot, or the mapping itself.\<close>

definition nested_record :: "pydict \<Rightarrow> string \<Rightarrow> oa_exn \<Rightarrow> oa_exn + pydict" where
  "nested_record d k e = (case dget d k of PNone \<Rightarrow> Inr d | PDict r \<Rightarrow> Inr r | _ \<Rightarrow> Inl e)"

definition ref_or :: "pydict \<Rightarrow> string \<Rightarrow> string \<Rightarrow> pyval" where
  "ref_or r ref flat = (case dget r ref of PDict d \<Rightarrow> dget d ''id'' | _ \<Rightarrow> dget r flat)"

definition subject_ids :: "pydict \<Rightarrow> oa_exn + string \<times> string" where
  "subject_ids r =
     sbind (normalize_registry_id (ref_or r ''tenant_ref'' ''tenant_id'') ''tenant_id'' None) (\<lambda>t.
     sbind (normalize_registry_id (dget r ''subject_id'') ''subject_id'' None) (\<lambda>s. Inr (t, s)))"

definition membership_ids :: "pydict \<Rightarrow> oa_exn + string \<times> string" where
  "membership_ids r =
     sbind (normalize_registry_id (ref_or r ''tenant_ref'' ''tenant_id'') ''tenant_id'' None) (\<lambda>t.
     sbind (normalize_registry_id (ref_or r ''subject_ref'' ''subject_id'') ''subject_id'' None) (\<lambda>s. Inr (t, s)))"

definition plan_subject_status_transition :: "pydict \<Rightarrow> pyval \<Rightarrow> pyval \<Rightarrow> pyval \<Rightarrow> oa_exn + lifecycle_plan" where
  "plan_subject_status_transition snapshot target expected reason =
     sbind (nested_record snapshot ''subject''
              (identity_error 400 ''oa.subject_record_invalid'' ''subject must be an object.'')) (\<lambda>r.
     sbind (subject_ids r) (\<lambda>(t, s).
     sbind (normalize_subject_status (dget r ''status'')) (\<lambda>current.
     sbind (normalize_subject_status target) (\<lambda>tgt.
     sbind (normalize_lifecycle_revision (dget_or r ''revision'' (PInt 1))) (\<lambda>rev.
     sbind (normalize_lifecycle_revision expected) (\<lambda>ex.
     if ex \<noteq> rev then
       Inl (identity_error 409 ''oa.lifecycle_revision_conflict''
         ''expected_revision does not match the current subject revision.'')
     else if tgt \<noteq> current \<and> tgt \<notin> set (SUBJECT_TRANSITIONS current) then
       Inl (identity_error 409 ''oa.subject_transition_invalid''
         (''subject status cannot transition from '' @ status_name current @ '' to '' @ status_name tgt @ ''.''))
     else sbind (normalize_lifecycle_reason reason (tgt \<noteq> current)) (\<lambda>why.
       Inr \<lparr>lp_entity = SUBJECT_ENTITY, lp_tenant = t, lp_subject = s, lp_previous = current, lp_target = tgt,
            lp_expected = ex, lp_next = (if tgt \<noteq> current then rev + 1 else rev), lp_changed = (tgt \<noteq> current),
            lp_reason = why\<rparr>)))))))"

definition plan_membership_status_transition :: "pydict \<Rightarrow> pyval \<Rightarrow> pyval \<Rightarrow> pyval \<Rightarrow> oa_exn + lifecycle_plan" where
  "plan_membership_status_transition snapshot target expected reason =
     sbind (nested_record snapshot ''membership''
              (identity_error 400 ''oa.membership_record_invalid'' ''membership must be an object.'')) (\<lambda>r.
     sbind (membership_ids r) (\<lambda>(t, s).
     sbind (normalize_membership_status (dget r ''status'')) (\<lambda>current.
     sbind (normalize_membership_status target) (\<lambda>tgt.
     sbind (normalize_lifecycle_revision (dget_or r ''revision'' (PInt 1))) (\<lambda>rev.
     sbind (normalize_lifecycle_revision expected) (\<lambda>ex.
     if ex \<noteq> rev then
       Inl (identity_error 409 ''oa.lifecycle_revision_conflict''
         ''expected_revision does not match the current membership revision.'')
     else if tgt \<noteq> current \<and> tgt \<notin> set (MEMBERSHIP_TRANSITIONS current) then
       Inl (identity_error 409 ''oa.membership_transition_invalid''
         (''membership status cannot transition from '' @ status_name current @ '' to '' @ status_name tgt @ ''.''))
     else sbind (normalize_lifecycle_reason reason (tgt \<noteq> current)) (\<lambda>why.
       Inr \<lparr>lp_entity = MEMBERSHIP_ENTITY, lp_tenant = t, lp_subject = s, lp_previous = current, lp_target = tgt,
            lp_expected = ex, lp_next = (if tgt \<noteq> current then rev + 1 else rev), lp_changed = (tgt \<noteq> current),
            lp_reason = why\<rparr>)))))))"

text \<open>The stored records and the snapshots as the dictionaries a plan reads.\<close>

definition typed_ref_dict :: "string \<Rightarrow> string \<Rightarrow> pyval" where
  "typed_ref_dict ty i = PDict [(''type'', PStr ty), (''id'', PStr i)]"

definition subject_to_dict :: "subject \<Rightarrow> pydict" where
  "subject_to_dict s =
     [(''registry_schema_version'', PStr ''oa_subject_registry.v1''),
      (''tenant_ref'', typed_ref_dict ''oa.tenant'' (sj_tenant s)),
      (''subject_id'', PStr (sj_id s)), (''subject_ref'', typed_ref_dict ''oa.user'' (sj_id s)),
      (''display_name'', PStr (sj_name s)), (''status'', PStr (status_name (sj_status s))),
      (''revision'', PInt (sj_revision s)), (''metadata'', PDict (sj_metadata s)),
      (''created_at'', PStr (sj_created s)), (''updated_at'', PStr (sj_updated s))]"

definition subject_snapshot_dict :: "tenant \<times> subject \<Rightarrow> pydict" where
  "subject_snapshot_dict p =
     [(''snapshot_schema_version'', PStr ''oa_subject_registry_snapshot.v1''),
      (''tenant_ref'', typed_ref_dict ''oa.tenant'' (tn_id (fst p))),
      (''subject_ref'', typed_ref_dict ''oa.user'' (sj_id (snd p))),
      (''subject'', PDict (subject_to_dict (snd p)))]"

definition membership_to_dict :: "membership \<Rightarrow> pydict" where
  "membership_to_dict m =
     [(''membership_schema_version'', PStr ''oa_tenant_membership.v1''),
      (''tenant_ref'', typed_ref_dict ''oa.tenant'' (mb_tenant m)),
      (''subject_ref'', typed_ref_dict ''oa.user'' (mb_subject m)),
      (''status'', PStr (status_name (mb_status m))), (''revision'', PInt (mb_revision m)),
      (''roles'', PList (map PStr (mb_roles m))), (''scopes'', PList (map PStr (mb_scopes m))),
      (''metadata'', PDict (mb_metadata m)),
      (''created_at'', PStr (mb_created m)), (''updated_at'', PStr (mb_updated m))]"

definition membership_snapshot_dict :: "membership \<times> tenant \<times> subject \<Rightarrow> pydict" where
  "membership_snapshot_dict p =
     [(''membership_snapshot_schema_version'', PStr ''oa_tenant_membership_snapshot.v1''),
      (''tenant_ref'', typed_ref_dict ''oa.tenant'' (mb_tenant (fst p))),
      (''subject_ref'', typed_ref_dict ''oa.user'' (mb_subject (fst p))),
      (''membership'', PDict (membership_to_dict (fst p)))]"

subsection \<open>The repository\<close>

record identity_event =
  iv_id :: string
  iv_tenant :: string
  iv_subject :: string
  iv_entity :: lifecycle_entity
  iv_previous :: identity_status
  iv_target :: identity_status
  iv_previous_revision :: int
  iv_next_revision :: int
  iv_reason :: string
  iv_actor_type :: string
  iv_actor :: string
  iv_request :: string
  iv_trace :: string
  iv_time :: string

record oa_state =
  oa_members :: membership_registry
  oa_sessions :: sessions
  oa_trail :: "identity_event list"

definition context_text :: "pydict \<Rightarrow> string \<Rightarrow> oa_exn + string" where
  "context_text ctx f =
     (case str_of (dget ctx f) of
        Some s \<Rightarrow> if py_strip s \<noteq> [] \<and> length (py_strip s) \<le> 128 then Inr (py_strip s)
          else Inl (identity_error 400 ''oa.lifecycle_context_invalid''
            (f @ '' must be a non-empty string of at most 128 characters.''))
      | None \<Rightarrow> Inl (identity_error 400 ''oa.lifecycle_context_invalid''
          (f @ '' must be a non-empty string of at most 128 characters.'')))"

definition build_identity_event :: "lifecycle_plan \<Rightarrow> pydict \<Rightarrow> string \<Rightarrow> int \<Rightarrow> oa_exn + identity_event" where
  "build_identity_event p ctx eid now =
     sbind (normalize_registry_id (PStr (lp_tenant p)) ''tenant_id'' None) (\<lambda>t.
     sbind (normalize_registry_id (PStr (lp_subject p)) ''subject_id'' None) (\<lambda>s.
     sbind (context_text ctx ''actor_ref_type'') (\<lambda>aty.
     sbind (normalize_registry_id (dget ctx ''actor_ref_id'') ''actor_ref_id'' None) (\<lambda>actor.
     sbind (normalize_registry_id (dget ctx ''request_id'') ''request_id'' None) (\<lambda>req.
     sbind (normalize_registry_id (dget ctx ''trace_id'') ''trace_id'' None) (\<lambda>trace.
     Inr \<lparr>iv_id = eid, iv_tenant = t, iv_subject = s, iv_entity = lp_entity p, iv_previous = lp_previous p,
          iv_target = lp_target p, iv_previous_revision = lp_expected p, iv_next_revision = lp_next p,
          iv_reason = (case lp_reason p of None \<Rightarrow> ''None'' | Some r \<Rightarrow> r), iv_actor_type = aty, iv_actor = actor,
          iv_request = req, iv_trace = trace, iv_time = wire_timestamp now\<rparr>))))))"

definition requires_session_revocation :: "lifecycle_plan \<Rightarrow> bool" where
  "requires_session_revocation p =
     (lp_changed p \<and> (case lp_entity p of SUBJECT_ENTITY \<Rightarrow> lp_target p \<in> {S_DISABLED, S_DELETED}
        | MEMBERSHIP_ENTITY \<Rightarrow> lp_target p = S_DISABLED))"

record transition_result =
  tr_entity :: lifecycle_entity
  tr_tenant :: string
  tr_subject :: string
  tr_status :: identity_status
  tr_revision :: int
  tr_changed :: bool
  tr_revoked :: nat
  tr_event :: "identity_event option"

definition transition_result_of :: "lifecycle_plan \<Rightarrow> nat \<Rightarrow> identity_event option \<Rightarrow> transition_result" where
  "transition_result_of p n ev =
     \<lparr>tr_entity = lp_entity p, tr_tenant = lp_tenant p, tr_subject = lp_subject p, tr_status = lp_target p,
      tr_revision = lp_next p, tr_changed = lp_changed p, tr_revoked = n, tr_event = ev\<rparr>"

fun entity_name :: "lifecycle_entity \<Rightarrow> string" where
  "entity_name SUBJECT_ENTITY = ''subject''"
| "entity_name MEMBERSHIP_ENTITY = ''membership''"

text \<open>
  \<open>_transition\<close>: \<open>current\<close> is the status and the revision of the stored record, \<open>put\<close> writes the new
  ones, \<open>linked\<close> says whether the repository was given the session registry.
\<close>

definition apply_transition ::
  "bool \<Rightarrow> lifecycle_plan \<Rightarrow> pydict \<Rightarrow> string \<Rightarrow> int \<Rightarrow> (identity_status \<times> int) option \<Rightarrow> (oa_state \<Rightarrow> oa_state)
    \<Rightarrow> oa_state \<Rightarrow> oa_exn + transition_result \<times> oa_state" where
  "apply_transition linked p ctx eid now current put st =
     (case current of
        None \<Rightarrow> Inl (identity_error 404 ''oa.lifecycle_target_not_found''
          (entity_name (lp_entity p) @ '' lifecycle target was not found.''))
      | Some (status, revision) \<Rightarrow>
          if status \<noteq> lp_previous p \<or> revision \<noteq> lp_expected p then
            Inl (identity_error 409 ''oa.lifecycle_revision_conflict''
              ''lifecycle state changed before this write could be applied.'')
          else if \<not> lp_changed p then Inr (transition_result_of p 0 None, st)
          else sbind (build_identity_event p ctx eid now) (\<lambda>ev.
            let st1 = put st;
                (n, S) = (if linked \<and> requires_session_revocation p
                          then revoke_sessions_of (oa_sessions st1) (lp_tenant p) [lp_subject p] now
                          else (0, oa_sessions st1))
            in Inr (transition_result_of p n (Some ev), st1\<lparr>oa_sessions := S, oa_trail := oa_trail st1 @ [ev]\<rparr>)))"

definition find_subject :: "oa_state \<Rightarrow> string \<times> string \<Rightarrow> subject option" where
  "find_subject st k = map_of (sr_subjects (mr_subjects (oa_members st))) k"

definition find_membership :: "oa_state \<Rightarrow> string \<times> string \<Rightarrow> membership option" where
  "find_membership st k = map_of (mr_memberships (oa_members st)) k"

definition put_subject :: "string \<times> string \<Rightarrow> subject \<Rightarrow> oa_state \<Rightarrow> oa_state" where
  "put_subject k s st =
     st\<lparr>oa_members := (oa_members st)\<lparr>mr_subjects := (mr_subjects (oa_members st))\<lparr>sr_subjects :=
       dict_put k s (sr_subjects (mr_subjects (oa_members st)))\<rparr>\<rparr>\<rparr>"

definition put_membership :: "string \<times> string \<Rightarrow> membership \<Rightarrow> oa_state \<Rightarrow> oa_state" where
  "put_membership k m st =
     st\<lparr>oa_members := (oa_members st)\<lparr>mr_memberships := dict_put k m (mr_memberships (oa_members st))\<rparr>\<rparr>"

definition repo_transition_subject ::
  "bool \<Rightarrow> oa_state \<Rightarrow> lifecycle_plan \<Rightarrow> pydict \<Rightarrow> string \<Rightarrow> int \<Rightarrow> oa_exn + transition_result \<times> oa_state" where
  "repo_transition_subject linked st p ctx eid now =
     (let k = (lp_tenant p, lp_subject p) in
      apply_transition linked p ctx eid now
        (map_option (\<lambda>s. (sj_status s, sj_revision s)) (find_subject st k))
        (put_subject k ((the (find_subject st k))\<lparr>sj_status := lp_target p, sj_revision := lp_next p, sj_updated := wire_timestamp now\<rparr>))
        st)"

definition repo_transition_membership ::
  "bool \<Rightarrow> oa_state \<Rightarrow> lifecycle_plan \<Rightarrow> pydict \<Rightarrow> string \<Rightarrow> int \<Rightarrow> oa_exn + transition_result \<times> oa_state" where
  "repo_transition_membership linked st p ctx eid now =
     (let k = (lp_tenant p, lp_subject p) in
      apply_transition linked p ctx eid now
        (map_option (\<lambda>m. (mb_status m, mb_revision m)) (find_membership st k))
        (put_membership k ((the (find_membership st k))\<lparr>mb_status := lp_target p, mb_revision := lp_next p, mb_updated := wire_timestamp now\<rparr>))
        st)"

definition event_limit :: "pyval \<Rightarrow> oa_exn + nat" where
  "event_limit v =
     (let e = identity_error 400 ''oa.lifecycle_event_limit_invalid'' ''limit must be an integer between 1 and 500.'' in
      case (case v of PInt n \<Rightarrow> Some n | PStr s \<Rightarrow> canonical_nat s | _ \<Rightarrow> None) of
        None \<Rightarrow> Inl e
      | Some n \<Rightarrow> if n < 1 \<or> n > 500 then Inl e else Inr (nat n))"

definition list_identity_events :: "oa_state \<Rightarrow> string \<Rightarrow> string \<Rightarrow> pyval \<Rightarrow> oa_exn + identity_event list" where
  "list_identity_events st ti si limit =
     sbind (normalize_registry_id (PStr ti) ''tenant_id'' None) (\<lambda>t.
     sbind (normalize_registry_id (PStr si) ''subject_id'' None) (\<lambda>s.
     sbind (event_limit limit) (\<lambda>n.
     Inr (take n (filter (\<lambda>e. iv_tenant e = t \<and> iv_subject e = s) (rev (oa_trail st)))))))"

subsection \<open>The service\<close>

definition normalize_transition_payload :: "pydict \<Rightarrow> oa_exn + pydict" where
  "normalize_transition_payload payload =
     (case sort (filter (\<lambda>k. k \<notin> set [''target_status'', ''expected_revision'', ''reason_code'']) (map fst payload)) of
        k # _ \<Rightarrow> Inl (identity_error 400 ''oa.lifecycle_payload_invalid'' (''unsupported lifecycle field: '' @ k))
      | [] \<Rightarrow>
          (case filter (\<lambda>k. k \<notin> fst ` set payload) [''target_status'', ''expected_revision''] of
             k # _ \<Rightarrow> Inl (identity_error 400 ''oa.lifecycle_payload_invalid'' (''required lifecycle field is missing: '' @ k))
           | [] \<Rightarrow> Inr payload))"

fun to_lifecycle_error :: "oa_class \<Rightarrow> oa_exn \<Rightarrow> oa_exn" where
  "to_lifecycle_error k (OaError k' s c d) = (if k' = k then identity_error s c d else OaError k' s c d)"
| "to_lifecycle_error k e = e"

definition transition_subject ::
  "bool \<Rightarrow> oa_state \<Rightarrow> string \<Rightarrow> string \<Rightarrow> pydict \<Rightarrow> pydict \<Rightarrow> string \<Rightarrow> int \<Rightarrow> oa_exn + transition_result \<times> oa_state" where
  "transition_subject linked st ti si payload ctx eid now =
     sbind (normalize_transition_payload payload) (\<lambda>q.
     sbind (map_err (to_lifecycle_error SubjectRegistryError) (get_subject (mr_subjects (oa_members st)) ti si)) (\<lambda>found.
     case found of
       None \<Rightarrow> Inl (identity_error 404 ''oa.lifecycle_target_not_found'' ''subject lifecycle target was not found.'')
     | Some snap \<Rightarrow>
         sbind (plan_subject_status_transition (subject_snapshot_dict snap) (dget q ''target_status'')
                  (dget q ''expected_revision'') (dget q ''reason_code'')) (\<lambda>p.
         repo_transition_subject linked st p ctx eid now)))"

definition transition_membership ::
  "bool \<Rightarrow> oa_state \<Rightarrow> string \<Rightarrow> string \<Rightarrow> pydict \<Rightarrow> pydict \<Rightarrow> string \<Rightarrow> int \<Rightarrow> oa_exn + transition_result \<times> oa_state" where
  "transition_membership linked st ti si payload ctx eid now =
     sbind (normalize_transition_payload payload) (\<lambda>q.
     sbind (map_err (to_lifecycle_error OaMembershipError) (get_membership (oa_members st) ti si)) (\<lambda>found.
     case found of
       None \<Rightarrow> Inl (identity_error 404 ''oa.lifecycle_target_not_found'' ''membership lifecycle target was not found.'')
     | Some snap \<Rightarrow>
         sbind (plan_membership_status_transition (membership_snapshot_dict snap) (dget q ''target_status'')
                  (dget q ''expected_revision'') (dget q ''reason_code'')) (\<lambda>p.
         repo_transition_membership linked st p ctx eid now)))"

text \<open>
  The status of the answer of the two routes: they translate lifecycle errors only, and an exception
  they do not catch is an internal error.
\<close>

fun lifecycle_route_status :: "oa_exn + 'a \<Rightarrow> int" where
  "lifecycle_route_status (Inr _) = 200"
| "lifecycle_route_status (Inl (OaError OaIdentityLifecycleError s c d)) = s"
| "lifecycle_route_status (Inl e) = 500"

subsection \<open>Plans of stored records\<close>

lemma status_name_inj [simp]: "status_name a = status_name b \<longleftrightarrow> a = b"
  by (cases a; cases b) simp_all

lemma status_texts:
  "normalize_subject_status (PStr ''ACTIVE'') = Inr S_ACTIVE" "normalize_subject_status (PStr ''DISABLED'') = Inr S_DISABLED"
  "normalize_subject_status (PStr ''DELETED'') = Inr S_DELETED"
  "normalize_membership_status (PStr ''ACTIVE'') = Inr S_ACTIVE" "normalize_membership_status (PStr ''DISABLED'') = Inr S_DISABLED"
  by code_simp+

lemma subject_status_of_name [simp]: "normalize_subject_status (PStr (status_name st)) = Inr st"
  by (cases st) (simp_all add: status_texts)

lemma membership_status_of_name [simp]:
  "st \<in> set OA_MEMBERSHIP_STATUSES \<Longrightarrow> normalize_membership_status (PStr (status_name st)) = Inr st"
  by (cases st) (simp_all add: OA_MEMBERSHIP_STATUSES_def status_texts)

lemma revision_of_int [simp]: "normalize_lifecycle_revision (PInt n) = Inr m \<longleftrightarrow> m = n \<and> 1 \<le> n"
  by (auto simp: normalize_lifecycle_revision_def)

lemma nested_subject: "nested_record (subject_snapshot_dict p) ''subject'' e = Inr (subject_to_dict (snd p))"
  by (simp add: nested_record_def subject_snapshot_dict_def dget_def)

lemma nested_membership: "nested_record (membership_snapshot_dict p) ''membership'' e = Inr (membership_to_dict (fst p))"
  by (simp add: nested_record_def membership_snapshot_dict_def dget_def)

lemma subject_dict_fields:
  "dget (subject_to_dict s) ''status'' = PStr (status_name (sj_status s))"
  "dget_or (subject_to_dict s) ''revision'' d = PInt (sj_revision s)"
  "dget (subject_to_dict s) ''subject_id'' = PStr (sj_id s)"
  "ref_or (subject_to_dict s) ''tenant_ref'' ''tenant_id'' = PStr (sj_tenant s)"
  by (simp_all add: subject_to_dict_def dget_def dget_or_def ref_or_def typed_ref_dict_def)

lemma membership_dict_fields:
  "dget (membership_to_dict m) ''status'' = PStr (status_name (mb_status m))"
  "dget_or (membership_to_dict m) ''revision'' d = PInt (mb_revision m)"
  "ref_or (membership_to_dict m) ''subject_ref'' ''subject_id'' = PStr (mb_subject m)"
  "ref_or (membership_to_dict m) ''tenant_ref'' ''tenant_id'' = PStr (mb_tenant m)"
  by (simp_all add: membership_to_dict_def dget_def dget_or_def ref_or_def typed_ref_dict_def)

lemma plan_subject_Inr:
  assumes "plan_subject_status_transition (subject_snapshot_dict (t, s)) target expected reason = Inr p"
    "registry_id_ok (sj_tenant s)" "registry_id_ok (sj_id s)"
  shows "lp_entity p = SUBJECT_ENTITY" "lp_tenant p = sj_tenant s" "lp_subject p = sj_id s" "lp_previous p = sj_status s"
    "lp_expected p = sj_revision s" "lp_changed p \<longleftrightarrow> lp_target p \<noteq> sj_status s"
    "lp_changed p \<Longrightarrow> lp_target p \<in> set (SUBJECT_TRANSITIONS (sj_status s)) \<and> lp_next p = sj_revision s + 1"
    "normalize_subject_status target = Inr (lp_target p)" "normalize_lifecycle_revision expected = Inr (sj_revision s)"
proof -
  obtain tgt why where p: "p = \<lparr>lp_entity = SUBJECT_ENTITY, lp_tenant = sj_tenant s, lp_subject = sj_id s,
      lp_previous = sj_status s, lp_target = tgt, lp_expected = sj_revision s,
      lp_next = (if tgt \<noteq> sj_status s then sj_revision s + 1 else sj_revision s), lp_changed = (tgt \<noteq> sj_status s), lp_reason = why\<rparr>"
    and tgt: "normalize_subject_status target = Inr tgt" "normalize_lifecycle_revision expected = Inr (sj_revision s)"
    and ok: "tgt \<noteq> sj_status s \<longrightarrow> tgt \<in> set (SUBJECT_TRANSITIONS (sj_status s))"
    using assms
    by (auto simp: plan_subject_status_transition_def nested_subject subject_ids_def subject_dict_fields res_simps)
  show "lp_entity p = SUBJECT_ENTITY" "lp_tenant p = sj_tenant s" "lp_subject p = sj_id s" "lp_previous p = sj_status s"
    "lp_expected p = sj_revision s" "lp_changed p \<longleftrightarrow> lp_target p \<noteq> sj_status s"
    "lp_changed p \<Longrightarrow> lp_target p \<in> set (SUBJECT_TRANSITIONS (sj_status s)) \<and> lp_next p = sj_revision s + 1"
    "normalize_subject_status target = Inr (lp_target p)" "normalize_lifecycle_revision expected = Inr (sj_revision s)"
    using tgt ok by (auto simp: p)
qed

lemma plan_membership_Inr:
  assumes "plan_membership_status_transition (membership_snapshot_dict (m, q)) target expected reason = Inr p"
    "registry_id_ok (mb_tenant m)" "registry_id_ok (mb_subject m)" "mb_status m \<in> set OA_MEMBERSHIP_STATUSES"
  shows "lp_entity p = MEMBERSHIP_ENTITY" "lp_tenant p = mb_tenant m" "lp_subject p = mb_subject m" "lp_previous p = mb_status m"
    "lp_expected p = mb_revision m" "lp_changed p \<longleftrightarrow> lp_target p \<noteq> mb_status m"
    "lp_changed p \<Longrightarrow> lp_target p \<in> set (MEMBERSHIP_TRANSITIONS (mb_status m)) \<and> lp_next p = mb_revision m + 1"
    "normalize_membership_status target = Inr (lp_target p)" "normalize_lifecycle_revision expected = Inr (mb_revision m)"
proof -
  obtain tgt why where p: "p = \<lparr>lp_entity = MEMBERSHIP_ENTITY, lp_tenant = mb_tenant m, lp_subject = mb_subject m,
      lp_previous = mb_status m, lp_target = tgt, lp_expected = mb_revision m,
      lp_next = (if tgt \<noteq> mb_status m then mb_revision m + 1 else mb_revision m), lp_changed = (tgt \<noteq> mb_status m), lp_reason = why\<rparr>"
    and tgt: "normalize_membership_status target = Inr tgt" "normalize_lifecycle_revision expected = Inr (mb_revision m)"
    and ok: "tgt \<noteq> mb_status m \<longrightarrow> tgt \<in> set (MEMBERSHIP_TRANSITIONS (mb_status m))"
    using assms
    by (auto simp: plan_membership_status_transition_def nested_membership membership_ids_def membership_dict_fields res_simps)
  show "lp_entity p = MEMBERSHIP_ENTITY" "lp_tenant p = mb_tenant m" "lp_subject p = mb_subject m" "lp_previous p = mb_status m"
    "lp_expected p = mb_revision m" "lp_changed p \<longleftrightarrow> lp_target p \<noteq> mb_status m"
    "lp_changed p \<Longrightarrow> lp_target p \<in> set (MEMBERSHIP_TRANSITIONS (mb_status m)) \<and> lp_next p = mb_revision m + 1"
    "normalize_membership_status target = Inr (lp_target p)" "normalize_lifecycle_revision expected = Inr (mb_revision m)"
    using tgt ok by (auto simp: p)
qed

lemma build_event_Inr:
  assumes "build_identity_event p ctx eid now = Inr ev" "registry_id_ok (lp_tenant p)" "registry_id_ok (lp_subject p)"
  shows "iv_tenant ev = lp_tenant p" "iv_subject ev = lp_subject p" "iv_entity ev = lp_entity p"
    "iv_previous ev = lp_previous p" "iv_target ev = lp_target p" "iv_previous_revision ev = lp_expected p"
    "iv_next_revision ev = lp_next p"
  using assms by (auto simp: build_identity_event_def res_simps)

subsection \<open>What a transition does\<close>

text \<open>The records of identities, whatever their class: status and revision by entity and key.\<close>

definition standing :: "oa_state \<Rightarrow> lifecycle_entity \<Rightarrow> string \<times> string \<Rightarrow> (identity_status \<times> int) option" where
  "standing st e k = (case e of
     SUBJECT_ENTITY \<Rightarrow> map_option (\<lambda>s. (sj_status s, sj_revision s)) (find_subject st k)
   | MEMBERSHIP_ENTITY \<Rightarrow> map_option (\<lambda>m. (mb_status m, mb_revision m)) (find_membership st k))"

fun ALLOWED :: "lifecycle_entity \<Rightarrow> identity_status \<Rightarrow> identity_status list" where
  "ALLOWED SUBJECT_ENTITY s = SUBJECT_TRANSITIONS s"
| "ALLOWED MEMBERSHIP_ENTITY s = MEMBERSHIP_TRANSITIONS s"

text \<open>
  A transition that changed something: one standing moved along an allowed edge to the next revision,
  its event was recorded, and the sessions were revoked where the new status asks for it.
\<close>

definition moved :: "oa_state \<Rightarrow> lifecycle_entity \<Rightarrow> string \<times> string \<Rightarrow> oa_state \<Rightarrow> bool" where
  "moved st e k st' \<longleftrightarrow> (\<exists>a r b ev now.
     standing st e k = Some (a, r) \<and> b \<in> set (ALLOWED e a) \<and>
     (\<forall>e' k'. standing st' e' k' = (if e' = e \<and> k' = k then Some (b, r + 1) else standing st e' k')) \<and>
     oa_trail st' = oa_trail st @ [ev] \<and> iv_entity ev = e \<and> (iv_tenant ev, iv_subject ev) = k \<and>
     iv_previous ev = a \<and> iv_target ev = b \<and> iv_previous_revision ev = r \<and> iv_next_revision ev = r + 1 \<and>
     oa_sessions st' = (if b = S_ACTIVE then oa_sessions st
       else snd (revoke_sessions_of (oa_sessions st) (fst k) [snd k] now)))"

lemma put_find:
  "find_subject (put_subject k s st) = (find_subject st)(k \<mapsto> s)"
  "find_membership (put_subject k s st) = find_membership st"
  "find_subject (put_membership k m st) = find_subject st"
  "find_membership (put_membership k m st) = (find_membership st)(k \<mapsto> m)"
  "oa_sessions (put_subject k s st) = oa_sessions st" "oa_trail (put_subject k s st) = oa_trail st"
  "oa_sessions (put_membership k m st) = oa_sessions st" "oa_trail (put_membership k m st) = oa_trail st"
  by (simp_all add: put_subject_def put_membership_def find_subject_def find_membership_def fun_eq_iff)

lemma find_update [simp]:
  "find_subject (st\<lparr>oa_sessions := S, oa_trail := T\<rparr>) = find_subject st"
  "find_membership (st\<lparr>oa_sessions := S, oa_trail := T\<rparr>) = find_membership st"
  by (simp_all add: find_subject_def find_membership_def fun_eq_iff)

lemma transition_moved:
  assumes r: "apply_transition True p ctx eid now (standing st e k) put st = Inr (res, st')"
    and p: "lp_entity p = e" "k = (lp_tenant p, lp_subject p)" "registry_id_ok (lp_tenant p)" "registry_id_ok (lp_subject p)"
      "lp_changed p \<Longrightarrow> lp_target p \<in> set (ALLOWED e (lp_previous p)) \<and> lp_next p = lp_expected p + 1"
    and put: "\<And>e' k'. standing (put st) e' k' = (if e' = e \<and> k' = k then Some (lp_target p, lp_next p) else standing st e' k')"
      "oa_sessions (put st) = oa_sessions st" "oa_trail (put st) = oa_trail st"
  shows "(\<not> tr_changed res \<and> st' = st) \<or> (tr_changed res \<and> moved st e k st')"
proof -
  obtain a n where cur: "standing st e k = Some (a, n)" "a = lp_previous p" "n = lp_expected p"
    using r by (auto simp: apply_transition_def split: option.splits if_splits)
  show ?thesis
  proof (cases "lp_changed p")
    case False
    then show ?thesis using r cur by (auto simp: apply_transition_def transition_result_of_def)
  next
    case True
    let ?S = "if requires_session_revocation p then revoke_sessions_of (oa_sessions (put st)) (lp_tenant p) [lp_subject p] now
        else (0, oa_sessions (put st))"
    have "sbind (build_identity_event p ctx eid now) (\<lambda>ev. Inr (transition_result_of p (fst ?S) (Some ev),
        (put st)\<lparr>oa_sessions := snd ?S, oa_trail := oa_trail (put st) @ [ev]\<rparr>)) = Inr (res, st')"
      using r True cur by (simp add: apply_transition_def Let_def case_prod_beta)
    then obtain ev where ev: "build_identity_event p ctx eid now = Inr ev"
      and st: "res = transition_result_of p (fst ?S) (Some ev)"
        "st' = (put st)\<lparr>oa_sessions := snd ?S, oa_trail := oa_trail (put st) @ [ev]\<rparr>"
      unfolding sbind_eq_Inr by blast
    note evd = build_event_Inr [OF ev p(3,4)]
    have tgt: "lp_target p \<in> set (ALLOWED e a)" "lp_next p = n + 1" using p(5) [OF True] cur by simp_all
    then have req: "requires_session_revocation p \<longleftrightarrow> lp_target p \<noteq> S_ACTIVE"
      using True p(1) by (cases e; cases a) (auto simp: requires_session_revocation_def)
    have S: "snd ?S = (if lp_target p = S_ACTIVE then oa_sessions st
        else snd (revoke_sessions_of (oa_sessions st) (fst k) [snd k] now))"
      using req by (simp add: put p(2))
    have st': "st' = (put st)\<lparr>oa_sessions := (if lp_target p = S_ACTIVE then oa_sessions st
        else snd (revoke_sessions_of (oa_sessions st) (fst k) [snd k] now)), oa_trail := oa_trail st @ [ev]\<rparr>"
      unfolding st(2) S by (simp add: put)
    have res: "tr_changed res" using True by (simp add: st(1) transition_result_of_def)
    have "standing st' e' k' = standing (put st) e' k'" for e' k' by (cases e') (simp_all add: standing_def st')
    then have "moved st e k st'"
      unfolding moved_def using cur tgt evd p(1,2) put(1)
      by (intro exI [of _ a] exI [of _ n] exI [of _ "lp_target p"] exI [of _ ev] exI [of _ now]) (simp add: st')
    then show ?thesis using res by simp
  qed
qed

lemma transition_members:
  "apply_transition l p ctx eid now cur put st = Inr (res, st') \<Longrightarrow>
    oa_members st' = oa_members st \<or> oa_members st' = oa_members (put st)"
  by (auto simp: apply_transition_def res_simps Let_def case_prod_beta split: option.splits if_splits)

lemma standing_put:
  assumes "standing st e k = Some (a, r)"
  shows "e = SUBJECT_ENTITY \<Longrightarrow> sj_status s = b \<Longrightarrow> sj_revision s = r' \<Longrightarrow>
      standing (put_subject k s st) e' k' = (if e' = e \<and> k' = k then Some (b, r') else standing st e' k')"
    "e = MEMBERSHIP_ENTITY \<Longrightarrow> mb_status m = b \<Longrightarrow> mb_revision m = r' \<Longrightarrow>
      standing (put_membership k m st) e' k' = (if e' = e \<and> k' = k then Some (b, r') else standing st e' k')"
  by (cases e'; simp add: standing_def put_find)+

lemma memberships_inv_subjects: "memberships_inv R \<Longrightarrow> subjects_inv (mr_subjects R)"
  by (simp add: memberships_inv_def)

theorem transition_subject_effect:
  assumes inv: "memberships_inv (oa_members st)"
    and r: "transition_subject True st ti si payload ctx eid now = Inr (res, st')"
  shows "(\<not> tr_changed res \<and> st' = st) \<or> (tr_changed res \<and> moved st SUBJECT_ENTITY (py_strip ti, py_strip si) st')"
    "memberships_inv (oa_members st')"
proof -
  have sinv: "subjects_inv (mr_subjects (oa_members st))" using inv by (rule memberships_inv_subjects)
  obtain q tn s p where g: "get_subject (mr_subjects (oa_members st)) ti si = Inr (Some (tn, s))"
    and plan: "plan_subject_status_transition (subject_snapshot_dict (tn, s)) (dget q ''target_status'')
                  (dget q ''expected_revision'') (dget q ''reason_code'') = Inr p"
    and repo: "repo_transition_subject True st p ctx eid now = Inr (res, st')"
    using r by (auto simp: transition_subject_def res_simps split: option.splits)
  note gs = get_subject_Inr [OF sinv g]
  let ?k = "(py_strip ti, py_strip si)"
  have ids: "registry_id_ok (sj_tenant s)" "registry_id_ok (sj_id s)"
    using g gs(2,3) by (auto simp: get_subject_def res_simps or_value_def split: option.splits)
  note pl = plan_subject_Inr [OF plan ids]
  have k: "?k = (lp_tenant p, lp_subject p)" using gs pl by simp
  have fs: "find_subject st ?k = Some s" using gs(1) by (simp add: find_subject_def)
  let ?s = "s\<lparr>sj_status := lp_target p, sj_revision := lp_next p, sj_updated := wire_timestamp now\<rparr>"
  have st_k: "standing st SUBJECT_ENTITY ?k = Some (sj_status s, sj_revision s)" by (simp add: standing_def fs)
  have ap: "apply_transition True p ctx eid now (standing st SUBJECT_ENTITY ?k) (put_subject ?k ?s) st = Inr (res, st')"
    using repo by (simp add: repo_transition_subject_def Let_def flip: k) (simp add: standing_def fs)
  show "(\<not> tr_changed res \<and> st' = st) \<or> (tr_changed res \<and> moved st SUBJECT_ENTITY ?k st')"
  proof (rule transition_moved [OF ap pl(1) k])
    show "registry_id_ok (lp_tenant p)" "registry_id_ok (lp_subject p)" using ids pl by simp_all
    show "lp_target p \<in> set (ALLOWED SUBJECT_ENTITY (lp_previous p)) \<and> lp_next p = lp_expected p + 1" if "lp_changed p"
      using pl that by simp
    show "standing (put_subject ?k ?s st) e' k' =
        (if e' = SUBJECT_ENTITY \<and> k' = ?k then Some (lp_target p, lp_next p) else standing st e' k')" for e' k'
      by (rule standing_put(1) [OF st_k]) simp_all
  qed (simp_all add: put_find)
  have "memberships_inv (oa_members (put_subject ?k ?s st))"
  proof -
    let ?R = "(mr_subjects (oa_members st))\<lparr>sr_subjects := dict_put ?k ?s (sr_subjects (mr_subjects (oa_members st)))\<rparr>"
    have old: "1 \<le> sj_revision s" "\<exists>t. map_of (sr_tenants (mr_subjects (oa_members st))) (sj_tenant s) = Some t"
      using sinv gs(1) unfolding subjects_inv_def by blast+
    have nxt: "1 \<le> lp_next p" using old(1) plan pl
      by (auto simp: plan_subject_status_transition_def nested_subject subject_dict_fields res_simps split: if_splits)
    have keyed: "?k = (sj_tenant ?s, sj_id ?s)" using gs by simp
    have "subjects_inv ?R" unfolding keyed
      using subjects_inv_put [OF sinv, of ?s] old nxt ids by force
    moreover have "map_of (sr_subjects (mr_subjects (oa_members st))) k' \<noteq> None \<Longrightarrow> map_of (sr_subjects ?R) k' \<noteq> None" for k'
      by simp
    ultimately show ?thesis using inv unfolding memberships_inv_def put_subject_def by simp metis
  qed
  moreover have "oa_members st' = oa_members st \<or> oa_members st' = oa_members (put_subject ?k ?s st)"
    using ap by (rule transition_members)
  ultimately show "memberships_inv (oa_members st')" using inv by auto
qed

theorem transition_membership_effect:
  assumes inv: "memberships_inv (oa_members st)"
    and r: "transition_membership True st ti si payload ctx eid now = Inr (res, st')"
  shows "(\<not> tr_changed res \<and> st' = st) \<or> (tr_changed res \<and> moved st MEMBERSHIP_ENTITY (py_strip ti, py_strip si) st')"
    "memberships_inv (oa_members st')"
proof -
  obtain q m snap p where g: "get_membership (oa_members st) ti si = Inr (Some (m, snap))"
    and plan: "plan_membership_status_transition (membership_snapshot_dict (m, snap)) (dget q ''target_status'')
                  (dget q ''expected_revision'') (dget q ''reason_code'') = Inr p"
    and repo: "repo_transition_membership True st p ctx eid now = Inr (res, st')"
    using r by (auto simp: transition_membership_def res_simps split: option.splits)
  obtain t s where snap: "snap = (t, s)" by (cases snap)
  note gm = get_membership_Inr [OF inv g [unfolded snap]]
  let ?k = "(py_strip ti, py_strip si)"
  have ids: "registry_id_ok (mb_tenant m)" "registry_id_ok (mb_subject m)" "mb_status m \<in> set OA_MEMBERSHIP_STATUSES"
    "1 \<le> mb_revision m" "\<exists>s. map_of (sr_subjects (mr_subjects (oa_members st))) ?k = Some s"
    using inv gm(1) unfolding memberships_inv_def by blast+
  note pl = plan_membership_Inr [OF plan ids(1-3)]
  have k: "?k = (lp_tenant p, lp_subject p)" using gm pl by simp
  have fm: "find_membership st ?k = Some m" using gm(1) by (simp add: find_membership_def)
  let ?m = "m\<lparr>mb_status := lp_target p, mb_revision := lp_next p, mb_updated := wire_timestamp now\<rparr>"
  have st_k: "standing st MEMBERSHIP_ENTITY ?k = Some (mb_status m, mb_revision m)" by (simp add: standing_def fm)
  have ap: "apply_transition True p ctx eid now (standing st MEMBERSHIP_ENTITY ?k) (put_membership ?k ?m) st = Inr (res, st')"
    using repo by (simp add: repo_transition_membership_def Let_def flip: k) (simp add: standing_def fm)
  show "(\<not> tr_changed res \<and> st' = st) \<or> (tr_changed res \<and> moved st MEMBERSHIP_ENTITY ?k st')"
  proof (rule transition_moved [OF ap pl(1) k])
    show "registry_id_ok (lp_tenant p)" "registry_id_ok (lp_subject p)" using ids pl by simp_all
    show "lp_target p \<in> set (ALLOWED MEMBERSHIP_ENTITY (lp_previous p)) \<and> lp_next p = lp_expected p + 1" if "lp_changed p"
      using pl that by simp
    show "standing (put_membership ?k ?m st) e' k' =
        (if e' = MEMBERSHIP_ENTITY \<and> k' = ?k then Some (lp_target p, lp_next p) else standing st e' k')" for e' k'
      by (rule standing_put(2) [OF st_k]) simp_all
  qed (simp_all add: put_find)
  have "lp_target p \<in> set OA_MEMBERSHIP_STATUSES" using pl(8) by (rule normalize_membership_status_Inr)
  moreover have "1 \<le> lp_next p" using ids(4) plan pl
    by (auto simp: plan_membership_status_transition_def nested_membership membership_dict_fields res_simps split: if_splits)
  moreover have keyed: "?k = (mb_tenant ?m, mb_subject ?m)" using gm by simp
  ultimately have "memberships_inv (oa_members (put_membership ?k ?m st))"
    unfolding keyed put_membership_def using memberships_inv_put [OF inv, of ?m] ids gm by force
  moreover have "oa_members st' = oa_members st \<or> oa_members st' = oa_members (put_membership ?k ?m st)"
    using ap by (rule transition_members)
  ultimately show "memberships_inv (oa_members st')" using inv by auto
qed

subsection \<open>Revoking the sessions of a subject\<close>

lemma map_of_revoked:
  "map_of (snd (revoke_sessions_of S t sis now)) i =
     map_option (\<lambda>s. if ss_status s = L_ACTIVE \<and> ss_tenant s = t \<and> ss_subject s \<in> set sis
                     then fst (build_revoked_session_record s now) else s) (map_of S i)"
  by (simp only: revoke_sessions_of_def Let_def snd_conv map_of_map comp_def)

lemma keys_revoked: "map fst (snd (revoke_sessions_of S t sis now)) = map fst S"
  by (simp add: revoke_sessions_of_def Let_def case_prod_beta comp_def)

lemma revoke_all_effect:
  assumes "sessions_inv S" "map_of (snd (revoke_sessions_of S t sis now)) i = Some s'"
  shows "\<exists>s. map_of S i = Some s \<and> session_evolves s s' \<and> session_wf s' \<and>
    (ss_status s' = L_ACTIVE \<longrightarrow> s' = s \<and> \<not> (ss_tenant s = t \<and> ss_subject s \<in> set sis))"
proof -
  obtain s where s: "map_of S i = Some s" "s' = (if ss_status s = L_ACTIVE \<and> ss_tenant s = t \<and> ss_subject s \<in> set sis
                     then fst (build_revoked_session_record s now) else s)"
    using assms(2) by (auto simp: map_of_revoked)
  then have "session_wf s" using assms(1) unfolding sessions_inv_def by blast
  then show ?thesis using s revoked_record [of s now] by auto
qed

lemma sessions_inv_revoked: "sessions_inv S \<Longrightarrow> sessions_inv (snd (revoke_sessions_of S t sis now))"
  unfolding sessions_inv_def keys_revoked
proof (intro conjI allI impI)
  assume inv: "distinct (map fst S) \<and> (\<forall>k s. map_of S k = Some s \<longrightarrow> k = ss_id s \<and> session_wf s)"
  then show "distinct (map fst S)" by blast
  fix k s assume *: "map_of (snd (revoke_sessions_of S t sis now)) k = Some s"
  have "sessions_inv S" using inv by (simp add: sessions_inv_def)
  then obtain u where u: "map_of S k = Some u" "session_evolves u s" "session_wf s"
    using revoke_all_effect [OF _ *] by blast
  then have "k = ss_id u" using inv by blast
  then show "k = ss_id s" "session_wf s" using u by (simp_all add: session_evolves_def)
qed

end
