(* ===== verification/Oa_Authorization.thy ===== *)
theory Oa_Authorization
  imports Oa_Lifecycle
begin

section \<open>Roles, groups and effective authorization\<close>

text \<open>
  \<^verbatim>\<open>services/nex-oa/nex_oa/authorization.py\<close> (the plans of the four kinds of upserts),
  \<^verbatim>\<open>authorization_repository.py\<close> (the in-memory repository, which also revokes the sessions of the
  subjects an upsert affects) and \<^verbatim>\<open>authorization_resolver.py\<close>. \<open>linked\<close> says whether the
  repository was bound to the session registry, as \<^verbatim>\<open>main.py\<close> does. The digest of the revisions
  is represented by the revisions it is taken of.
\<close>

subsection \<open>Normalisation\<close>

definition authz_error :: "int \<Rightarrow> string \<Rightarrow> string \<Rightarrow> oa_exn" where
  "authz_error s c d = OaError OaAuthorizationError s c d"

definition authz_invalid :: "string \<Rightarrow> string \<Rightarrow> oa_exn" where
  "authz_invalid f d = authz_error 400 (''oa.authorization_'' @ f @ ''_invalid'') d"

definition normalize_authorization_id :: "pyval \<Rightarrow> string \<Rightarrow> oa_exn + string" where
  "normalize_authorization_id v f =
     (case str_of v of None \<Rightarrow> Inl (authz_invalid f (f @ '' must be a string.''))
      | Some s \<Rightarrow> if code_ok 1 (py_lower (py_strip s)) then Inr (py_lower (py_strip s))
          else Inl (authz_invalid f (f @ '' must contain 2-64 lowercase letters, digits, '.', '_' or '-'.'')))"

definition OA_AUTHORIZATION_STATUSES :: "identity_status list" where
  "OA_AUTHORIZATION_STATUSES = [S_ACTIVE, S_DISABLED]"

definition normalize_authorization_status :: "pyval \<Rightarrow> oa_exn + identity_status" where
  "normalize_authorization_status v =
     (case (case str_of v of None \<Rightarrow> None | Some s \<Rightarrow> status_named OA_AUTHORIZATION_STATUSES (py_upper (py_strip s))) of
        None \<Rightarrow> Inl (authz_invalid ''status'' ''status must be ACTIVE or DISABLED.'')
      | Some st \<Rightarrow> Inr st)"

text \<open>\<open>_SCOPE_PATTERN\<close>: two names with a colon between them.\<close>

definition scope_ok :: "string \<Rightarrow> bool" where
  "scope_ok s =
     (case dropWhile (\<lambda>c. c \<noteq> CHR '':'') s of [] \<Rightarrow> False
      | _ # action \<Rightarrow> code_ok 0 (takeWhile (\<lambda>c. c \<noteq> CHR '':'') s) \<and> code_ok 0 action)"

fun scope_list :: "pyval list \<Rightarrow> oa_exn + string list" where
  "scope_list [] = Inr []"
| "scope_list (v # vs) =
     (case str_of v of None \<Rightarrow> Inl (authz_invalid ''scopes'' ''each scope must be a string.'')
      | Some s \<Rightarrow>
          if \<not> scope_ok (py_lower (py_strip s)) then
            Inl (authz_invalid ''scopes'' ''each scope must use the resource:action form.'')
          else sbind (scope_list vs) (\<lambda>ss. Inr (py_lower (py_strip s) # ss)))"

definition sorted_set :: "string list \<Rightarrow> string list" where
  "sorted_set xs = sort (remdups xs)"

definition normalize_authorization_scopes :: "pyval \<Rightarrow> oa_exn + string list" where
  "normalize_authorization_scopes v =
     (case v of PList l \<Rightarrow>
          sbind (scope_list l) (\<lambda>ss.
          if ss = [] then Inl (authz_invalid ''scopes'' ''at least one scope is required.'') else Inr (sorted_set ss))
      | _ \<Rightarrow> Inl (authz_invalid ''scopes'' ''scopes must be an array of scope names.''))"

definition AUTHZ_PRIVATE_KEY_PARTS :: "string list" where
  "AUTHZ_PRIVATE_KEY_PARTS = [''password'', ''secret'', ''token'', ''credential'', ''authorization'', ''cookie'']"

text \<open>Whether \<open>_private_paths\<close> finds a path.\<close>

fun has_private_path :: "pyval \<Rightarrow> bool" where
  "has_private_path (PDict d) =
     list_ex (\<lambda>(k, v). list_ex (\<lambda>p. contains_text p (py_lower k)) AUTHZ_PRIVATE_KEY_PARTS \<or> has_private_path v) d"
| "has_private_path (PList l) = list_ex has_private_path l"
| "has_private_path _ = False"

definition normalize_authorization_metadata :: "pyval \<Rightarrow> oa_exn + pydict" where
  "normalize_authorization_metadata v =
     (case v of PNone \<Rightarrow> Inr []
      | PDict d \<Rightarrow> if has_private_path v then Inl (authz_error 400 ''oa.authorization_private_metadata'' ''metadata contains private fields.'')
          else Inr d
      | _ \<Rightarrow> Inl (authz_invalid ''metadata'' ''metadata must be an object.''))"

definition authz_revision :: "pyval \<Rightarrow> oa_exn + int" where
  "authz_revision v =
     (let e = authz_invalid ''expected_revision'' ''expected_revision must be a non-negative integer.'' in
      if v = PNone then Inr 0
      else case (case v of PInt n \<Rightarrow> Some n | PStr s \<Rightarrow> canonical_nat s | _ \<Rightarrow> None) of
        None \<Rightarrow> Inl e
      | Some n \<Rightarrow> if n < 0 then Inl e else Inr n)"

text \<open>\<open>current\<close> is the stored record as the plan reads it: its revision.\<close>

definition next_revision :: "pyval \<Rightarrow> int option \<Rightarrow> oa_exn + int" where
  "next_revision expected current =
     sbind (authz_revision expected) (\<lambda>ex.
     let cur = (case current of None \<Rightarrow> 0 | Some r \<Rightarrow> r) in
     if ex \<noteq> cur then Inl (authz_error 409 ''oa.authorization_revision_conflict''
       ''expected_revision does not match the current authorization revision.'')
     else Inr (cur + 1))"

definition same_identity :: "bool \<Rightarrow> oa_exn + unit" where
  "same_identity b = (if b then Inr () else
     Inl (authz_error 409 ''oa.authorization_identity_immutable'' ''authorization identity fields are immutable.''))"

definition authz_display_name :: "pyval \<Rightarrow> string \<Rightarrow> oa_exn + string" where
  "authz_display_name v fallback =
     (case v of PNone \<Rightarrow> Inr fallback
      | PStr s \<Rightarrow> if py_strip s \<noteq> [] \<and> length (py_strip s) \<le> 128 then Inr (py_strip s)
          else Inl (authz_invalid ''display_name'' ''display_name must contain 1-128 characters.'')
      | _ \<Rightarrow> Inl (authz_invalid ''display_name'' ''display_name must contain 1-128 characters.''))"

definition authz_description :: "pyval \<Rightarrow> oa_exn + string option" where
  "authz_description v =
     (case v of PNone \<Rightarrow> Inr None
      | PStr s \<Rightarrow> if length (py_strip s) > 512 then
            Inl (authz_invalid ''description'' ''description must contain at most 512 characters.'')
          else Inr (if py_strip s = [] then None else Some (py_strip s))
      | _ \<Rightarrow> Inl (authz_invalid ''description'' ''description must be a string.''))"

subsection \<open>Plans\<close>

record role =
  rl_tenant :: string
  rl_id :: string
  rl_name :: string
  rl_description :: "string option"
  rl_status :: identity_status
  rl_scopes :: "string list"
  rl_metadata :: pydict
  rl_revision :: int

record group =
  gp_tenant :: string
  gp_id :: string
  gp_name :: string
  gp_description :: "string option"
  gp_status :: identity_status
  gp_metadata :: pydict
  gp_revision :: int

record group_member =
  gm_tenant :: string
  gm_group :: string
  gm_subject :: string
  gm_status :: identity_status
  gm_revision :: int

record group_role =
  gl_tenant :: string
  gl_group :: string
  gl_role :: string
  gl_status :: identity_status
  gl_revision :: int

abbreviation payload_tenant :: "pydict \<Rightarrow> oa_exn + string" where
  "payload_tenant payload \<equiv> normalize_registry_id (dget payload ''tenant_id'') ''tenant_id'' None"

definition plan_role_upsert :: "pydict \<Rightarrow> role option \<Rightarrow> oa_exn + role" where
  "plan_role_upsert payload current =
     sbind (payload_tenant payload) (\<lambda>t.
     sbind (normalize_authorization_id (dget payload ''role_id'') ''role_id'') (\<lambda>i.
     sbind (next_revision (dget payload ''expected_revision'') (map_option rl_revision current)) (\<lambda>n.
     sbind (same_identity (\<forall>r \<in> set_option current. rl_tenant r = t \<and> rl_id r = i)) (\<lambda>_.
     sbind (authz_display_name (dget payload ''display_name'') i) (\<lambda>name.
     sbind (authz_description (dget payload ''description'')) (\<lambda>desc.
     sbind (normalize_authorization_status (dget_or payload ''status'' (PStr ''ACTIVE''))) (\<lambda>st.
     sbind (normalize_authorization_scopes (dget payload ''scopes'')) (\<lambda>scopes.
     sbind (normalize_authorization_metadata (dget payload ''metadata'')) (\<lambda>meta.
     Inr \<lparr>rl_tenant = t, rl_id = i, rl_name = name, rl_description = desc, rl_status = st, rl_scopes = scopes,
          rl_metadata = meta, rl_revision = n\<rparr>)))))))))"

definition plan_group_upsert :: "pydict \<Rightarrow> group option \<Rightarrow> oa_exn + group" where
  "plan_group_upsert payload current =
     sbind (payload_tenant payload) (\<lambda>t.
     sbind (normalize_authorization_id (dget payload ''group_id'') ''group_id'') (\<lambda>i.
     sbind (next_revision (dget payload ''expected_revision'') (map_option gp_revision current)) (\<lambda>n.
     sbind (same_identity (\<forall>g \<in> set_option current. gp_tenant g = t \<and> gp_id g = i)) (\<lambda>_.
     sbind (authz_display_name (dget payload ''display_name'') i) (\<lambda>name.
     sbind (authz_description (dget payload ''description'')) (\<lambda>desc.
     sbind (normalize_authorization_status (dget_or payload ''status'' (PStr ''ACTIVE''))) (\<lambda>st.
     sbind (normalize_authorization_metadata (dget payload ''metadata'')) (\<lambda>meta.
     Inr \<lparr>gp_tenant = t, gp_id = i, gp_name = name, gp_description = desc, gp_status = st, gp_metadata = meta,
          gp_revision = n\<rparr>))))))))"

definition plan_group_member_upsert :: "pydict \<Rightarrow> group_member option \<Rightarrow> oa_exn + group_member" where
  "plan_group_member_upsert payload current =
     sbind (payload_tenant payload) (\<lambda>t.
     sbind (normalize_authorization_id (dget payload ''group_id'') ''group_id'') (\<lambda>g.
     sbind (normalize_registry_id (dget payload ''subject_id'') ''subject_id'' None) (\<lambda>s.
     sbind (next_revision (dget payload ''expected_revision'') (map_option gm_revision current)) (\<lambda>n.
     sbind (same_identity (\<forall>m \<in> set_option current. gm_tenant m = t \<and> gm_group m = g \<and> gm_subject m = s)) (\<lambda>_.
     sbind (normalize_authorization_status (dget_or payload ''status'' (PStr ''ACTIVE''))) (\<lambda>st.
     Inr \<lparr>gm_tenant = t, gm_group = g, gm_subject = s, gm_status = st, gm_revision = n\<rparr>))))))"

definition plan_group_role_upsert :: "pydict \<Rightarrow> group_role option \<Rightarrow> oa_exn + group_role" where
  "plan_group_role_upsert payload current =
     sbind (payload_tenant payload) (\<lambda>t.
     sbind (normalize_authorization_id (dget payload ''group_id'') ''group_id'') (\<lambda>g.
     sbind (normalize_authorization_id (dget payload ''role_id'') ''role_id'') (\<lambda>r.
     sbind (next_revision (dget payload ''expected_revision'') (map_option gl_revision current)) (\<lambda>n.
     sbind (same_identity (\<forall>l \<in> set_option current. gl_tenant l = t \<and> gl_group l = g \<and> gl_role l = r)) (\<lambda>_.
     sbind (normalize_authorization_status (dget_or payload ''status'' (PStr ''ACTIVE''))) (\<lambda>st.
     Inr \<lparr>gl_tenant = t, gl_group = g, gl_role = r, gl_status = st, gl_revision = n\<rparr>))))))"

subsection \<open>The repository\<close>

datatype authz_record = RoleRecord role | GroupRecord group | MemberRecord group_member | LinkRecord group_role

record authz_event =
  zv_id :: string
  zv_tenant :: string
  zv_type :: string
  zv_entity_id :: string
  zv_subject :: "string option"
  zv_previous :: int
  zv_next :: int
  zv_actor :: string
  zv_request :: string
  zv_trace :: string
  zv_status :: identity_status
  zv_revoked :: nat
  zv_time :: string

record authz =
  az_roles :: "((string \<times> string) \<times> role) list"
  az_groups :: "((string \<times> string) \<times> group) list"
  az_members :: "((string \<times> string \<times> string) \<times> group_member) list"
  az_links :: "((string \<times> string \<times> string) \<times> group_role) list"
  az_events :: "authz_event list"

text \<open>\<open>str(payload.get(k) or "").strip()\<close>, and in lower case.\<close>

definition payload_text :: "pydict \<Rightarrow> string \<Rightarrow> string" where
  "payload_text payload k = (if truthy (dget payload k) then py_strip (py_text (dget payload k)) else [])"

definition key_text :: "pydict \<Rightarrow> string \<Rightarrow> string" where
  "key_text payload k = py_lower (payload_text payload k)"

fun record_tenant :: "authz_record \<Rightarrow> string" where
  "record_tenant (RoleRecord r) = rl_tenant r"
| "record_tenant (GroupRecord g) = gp_tenant g"
| "record_tenant (MemberRecord m) = gm_tenant m"
| "record_tenant (LinkRecord l) = gl_tenant l"

fun record_type :: "authz_record \<Rightarrow> string" where
  "record_type (RoleRecord r) = ''ROLE''"
| "record_type (GroupRecord g) = ''GROUP''"
| "record_type (MemberRecord m) = ''GROUP_MEMBER''"
| "record_type (LinkRecord l) = ''GROUP_ROLE''"

fun record_entity_id :: "authz_record \<Rightarrow> string" where
  "record_entity_id (RoleRecord r) = rl_id r"
| "record_entity_id (GroupRecord g) = gp_id g"
| "record_entity_id (MemberRecord m) = gm_group m @ '':'' @ gm_subject m"
| "record_entity_id (LinkRecord l) = gl_group l @ '':'' @ gl_role l"

fun record_revision :: "authz_record \<Rightarrow> int" where
  "record_revision (RoleRecord r) = rl_revision r"
| "record_revision (GroupRecord g) = gp_revision g"
| "record_revision (MemberRecord m) = gm_revision m"
| "record_revision (LinkRecord l) = gl_revision l"

fun record_status :: "authz_record \<Rightarrow> identity_status" where
  "record_status (RoleRecord r) = rl_status r"
| "record_status (GroupRecord g) = gp_status g"
| "record_status (MemberRecord m) = gm_status m"
| "record_status (LinkRecord l) = gl_status l"

fun record_subject :: "authz_record \<Rightarrow> string option" where
  "record_subject (MemberRecord m) = Some (gm_subject m)"
| "record_subject _ = None"

definition authz_context_text :: "pydict \<Rightarrow> string \<Rightarrow> oa_exn + string" where
  "authz_context_text ctx f =
     (case str_of (dget ctx f) of
        Some s \<Rightarrow> if py_strip s \<noteq> [] \<and> length (py_strip s) \<le> 128 then Inr (py_strip s)
          else Inl (authz_error 400 ''oa.authorization_context_invalid''
            (f @ '' must be a non-empty string of at most 128 characters.''))
      | None \<Rightarrow> Inl (authz_error 400 ''oa.authorization_context_invalid''
          (f @ '' must be a non-empty string of at most 128 characters.'')))"

definition build_authz_event :: "authz_record \<Rightarrow> pydict \<Rightarrow> string \<Rightarrow> int \<Rightarrow> oa_exn + authz_event" where
  "build_authz_event r ctx eid now =
     sbind (authz_context_text ctx ''actor_ref'') (\<lambda>actor.
     sbind (authz_context_text ctx ''request_id'') (\<lambda>req.
     sbind (authz_context_text ctx ''trace_id'') (\<lambda>trace.
     Inr \<lparr>zv_id = eid, zv_tenant = record_tenant r, zv_type = record_type r @ ''_UPSERTED'', zv_entity_id = record_entity_id r,
          zv_subject = record_subject r, zv_previous = record_revision r - 1, zv_next = record_revision r,
          zv_actor = actor, zv_request = req, zv_trace = trace, zv_status = record_status r, zv_revoked = 0,
          zv_time = wire_timestamp now\<rparr>)))"

definition subjects_of_groups :: "authz \<Rightarrow> string \<Rightarrow> string list \<Rightarrow> string list" where
  "subjects_of_groups A t gs =
     sorted_set (map gm_subject (filter (\<lambda>m. gm_tenant m = t \<and> gm_group m \<in> set gs) (map snd (az_members A))))"

fun affected_subject_ids :: "authz \<Rightarrow> authz_record \<Rightarrow> string list" where
  "affected_subject_ids A (MemberRecord m) = [gm_subject m]"
| "affected_subject_ids A (GroupRecord g) = subjects_of_groups A (gp_tenant g) [gp_id g]"
| "affected_subject_ids A (LinkRecord l) = subjects_of_groups A (gl_tenant l) [gl_group l]"
| "affected_subject_ids A (RoleRecord r) =
     subjects_of_groups A (rl_tenant r)
       (map gl_group (filter (\<lambda>l. gl_tenant l = rl_tenant r \<and> gl_role l = rl_id r) (map snd (az_links A))))"

fun store_record :: "pydict \<Rightarrow> authz_record \<Rightarrow> authz \<Rightarrow> authz" where
  "store_record payload (RoleRecord r) A =
     A\<lparr>az_roles := dict_put (key_text payload ''tenant_id'', key_text payload ''role_id'') r (az_roles A)\<rparr>"
| "store_record payload (GroupRecord g) A =
     A\<lparr>az_groups := dict_put (key_text payload ''tenant_id'', key_text payload ''group_id'') g (az_groups A)\<rparr>"
| "store_record payload (MemberRecord m) A =
     A\<lparr>az_members := dict_put (key_text payload ''tenant_id'', key_text payload ''group_id'', key_text payload ''subject_id'') m (az_members A)\<rparr>"
| "store_record payload (LinkRecord l) A =
     A\<lparr>az_links := dict_put (key_text payload ''tenant_id'', key_text payload ''group_id'', key_text payload ''role_id'') l (az_links A)\<rparr>"

record authz_result =
  zr_record :: authz_record
  zr_event :: authz_event
  zr_affected :: "string list"
  zr_revoked :: nat

text \<open>\<open>_upsert\<close>, after its plan.\<close>

definition finish_upsert ::
  "bool \<Rightarrow> authz \<Rightarrow> sessions \<Rightarrow> pydict \<Rightarrow> pydict \<Rightarrow> string \<Rightarrow> int \<Rightarrow> authz_record
    \<Rightarrow> oa_exn + authz_result \<times> authz \<times> sessions" where
  "finish_upsert linked A S payload ctx eid now r =
     (let affected = affected_subject_ids A r in
      sbind (build_authz_event r ctx eid now) (\<lambda>ev.
      let (n, S') = (if linked \<and> affected \<noteq> [] then revoke_sessions_of S (record_tenant r) affected now else (0, S));
          ev' = ev\<lparr>zv_revoked := n\<rparr>
      in Inr (\<lparr>zr_record = r, zr_event = ev', zr_affected = affected, zr_revoked = n\<rparr>,
              (store_record payload r A)\<lparr>az_events := az_events A @ [ev']\<rparr>, S')))"

definition reference_not_found :: "string \<Rightarrow> oa_exn" where
  "reference_not_found n = authz_error 409 ''oa.authorization_reference_not_found'' (''referenced '' @ n @ '' was not found.'')"

definition require_group :: "authz \<Rightarrow> pydict \<Rightarrow> oa_exn + unit" where
  "require_group A payload =
     (if map_of (az_groups A) (payload_text payload ''tenant_id'', key_text payload ''group_id'') = None
      then Inl (reference_not_found ''group'') else Inr ())"

definition upsert_role ::
  "bool \<Rightarrow> authz \<Rightarrow> sessions \<Rightarrow> pydict \<Rightarrow> pydict \<Rightarrow> string \<Rightarrow> int \<Rightarrow> oa_exn + authz_result \<times> authz \<times> sessions" where
  "upsert_role linked A S payload ctx eid now =
     sbind (plan_role_upsert payload (map_of (az_roles A) (key_text payload ''tenant_id'', key_text payload ''role_id'')))
       (\<lambda>r. finish_upsert linked A S payload ctx eid now (RoleRecord r))"

definition upsert_group ::
  "bool \<Rightarrow> authz \<Rightarrow> sessions \<Rightarrow> pydict \<Rightarrow> pydict \<Rightarrow> string \<Rightarrow> int \<Rightarrow> oa_exn + authz_result \<times> authz \<times> sessions" where
  "upsert_group linked A S payload ctx eid now =
     sbind (plan_group_upsert payload (map_of (az_groups A) (key_text payload ''tenant_id'', key_text payload ''group_id'')))
       (\<lambda>g. finish_upsert linked A S payload ctx eid now (GroupRecord g))"

definition upsert_group_member ::
  "bool \<Rightarrow> authz \<Rightarrow> sessions \<Rightarrow> pydict \<Rightarrow> pydict \<Rightarrow> string \<Rightarrow> int \<Rightarrow> oa_exn + authz_result \<times> authz \<times> sessions" where
  "upsert_group_member linked A S payload ctx eid now =
     sbind (require_group A payload) (\<lambda>_.
     sbind (plan_group_member_upsert payload (map_of (az_members A)
              (key_text payload ''tenant_id'', key_text payload ''group_id'', key_text payload ''subject_id'')))
       (\<lambda>m. finish_upsert linked A S payload ctx eid now (MemberRecord m)))"

definition upsert_group_role ::
  "bool \<Rightarrow> authz \<Rightarrow> sessions \<Rightarrow> pydict \<Rightarrow> pydict \<Rightarrow> string \<Rightarrow> int \<Rightarrow> oa_exn + authz_result \<times> authz \<times> sessions" where
  "upsert_group_role linked A S payload ctx eid now =
     sbind (require_group A payload) (\<lambda>_.
     sbind (if map_of (az_roles A) (payload_text payload ''tenant_id'', key_text payload ''role_id'') = None
            then Inl (reference_not_found ''role'') else Inr ()) (\<lambda>_.
     sbind (plan_group_role_upsert payload (map_of (az_links A)
              (key_text payload ''tenant_id'', key_text payload ''group_id'', key_text payload ''role_id'')))
       (\<lambda>l. finish_upsert linked A S payload ctx eid now (LinkRecord l))))"

definition authz_event_limit :: "pyval \<Rightarrow> oa_exn + nat" where
  "authz_event_limit v =
     (let e = authz_error 400 ''oa.authorization_event_limit_invalid'' ''limit must be an integer between 1 and 500.'' in
      case (case v of PInt n \<Rightarrow> Some n | PStr s \<Rightarrow> canonical_nat s | _ \<Rightarrow> None) of
        None \<Rightarrow> Inl e
      | Some n \<Rightarrow> if n < 1 \<or> n > 500 then Inl e else Inr (nat n))"

definition authz_ref :: "string \<Rightarrow> string \<Rightarrow> oa_exn + string" where
  "authz_ref s f =
     map_err (\<lambda>e. case e of OaError SubjectRegistryError _ _ _ \<Rightarrow>
                authz_error 400 ''oa.authorization_reference_invalid'' (f @ '' must be a valid non-empty reference.'')
              | _ \<Rightarrow> e) (normalize_registry_id (PStr s) f None)"

definition list_authz_events :: "authz \<Rightarrow> string \<Rightarrow> pyval \<Rightarrow> oa_exn + authz_event list" where
  "list_authz_events A ti limit =
     sbind (authz_ref ti ''tenant_id'') (\<lambda>t.
     sbind (authz_event_limit limit) (\<lambda>n.
     Inr (take n (filter (\<lambda>e. zv_tenant e = t) (rev (az_events A))))))"

subsection \<open>The resolver\<close>

record authz_inputs =
  zi_roles :: "role list"
  zi_groups :: "group list"
  zi_members :: "group_member list"
  zi_links :: "group_role list"

definition authorization_inputs :: "authz \<Rightarrow> string \<Rightarrow> string \<Rightarrow> oa_exn + authz_inputs" where
  "authorization_inputs A ti si =
     sbind (authz_ref ti ''tenant_id'') (\<lambda>t.
     sbind (authz_ref si ''subject_id'') (\<lambda>s.
     Inr \<lparr>zi_roles = filter (\<lambda>r. rl_tenant r = t) (map snd (az_roles A)),
          zi_groups = filter (\<lambda>g. gp_tenant g = t) (map snd (az_groups A)),
          zi_members = filter (\<lambda>m. gm_tenant m = t \<and> gm_subject m = s) (map snd (az_members A)),
          zi_links = filter (\<lambda>l. gl_tenant l = t) (map snd (az_links A))\<rparr>))"

definition grant_list_error :: "string \<Rightarrow> oa_exn" where
  "grant_list_error f = authz_error 400 ''oa.authorization_grant_list_invalid'' (f @ '' must be an array of non-empty strings.'')"

text \<open>\<open>_string_set\<close> of a list of texts: blanks and duplicates make it invalid.\<close>

definition string_set :: "string list \<Rightarrow> string \<Rightarrow> oa_exn + string list" where
  "string_set xs f =
     (let ys = remdups (map (\<lambda>s. py_lower (py_strip s)) (filter (\<lambda>s. py_strip s \<noteq> []) xs)) in
      if length ys \<noteq> length xs then Inl (grant_list_error f) else Inr ys)"

record effective =
  ea_tenant :: string
  ea_subject :: string
  ea_roles :: "string list"
  ea_scopes :: "string list"
  ea_groups :: "string list"
  ea_unresolved :: "string list"
  ea_revisions :: "int \<times> (string \<times> int) list \<times> (string \<times> int) list"
  ea_counts :: "nat list"

definition membership_error :: "string \<Rightarrow> oa_exn" where
  "membership_error d = authz_error 400 ''oa.authorization_membership_identity_invalid'' d"

definition resolver_ids :: "membership \<Rightarrow> oa_exn + string \<times> string" where
  "resolver_ids m =
     map_err (\<lambda>_. membership_error ''membership tenant and subject references are required.'')
       (sbind (normalize_registry_id (PStr (mb_tenant m)) ''tenant_id'' None) (\<lambda>t.
        sbind (normalize_registry_id (PStr (mb_subject m)) ''subject_id'' None) (\<lambda>s. Inr (t, s))))"

definition inactive_membership :: oa_exn where
  "inactive_membership = authz_error 403 ''oa.authorization_membership_inactive''
     ''effective authorization requires an active membership.''"

fun union_scopes :: "(string \<times> role) list \<Rightarrow> string list \<Rightarrow> oa_exn + string list" where
  "union_scopes R [] = Inr []"
| "union_scopes R (i # is) =
     (case map_of R i of None \<Rightarrow> union_scopes R is
      | Some r \<Rightarrow> sbind (string_set (rl_scopes r) ''role.scopes'') (\<lambda>ss. sbind (union_scopes R is) (\<lambda>rest. Inr (ss @ rest))))"

definition revision_or_one :: "int \<Rightarrow> int" where
  "revision_or_one n = (if n = 0 then 1 else n)"

definition resolve_effective_authorization :: "membership \<Rightarrow> authz_inputs \<Rightarrow> oa_exn + effective" where
  "resolve_effective_authorization m inp =
     sbind (resolver_ids m) (\<lambda>(t, s).
     if mb_status m \<noteq> S_ACTIVE then Inl inactive_membership
     else sbind (string_set (mb_roles m) ''roles'') (\<lambda>direct_roles.
     sbind (string_set (mb_scopes m) ''scopes'') (\<lambda>direct_scopes.
     let tenant_roles = fold (\<lambda>r d. dict_put (rl_id r) r d)
           (filter (\<lambda>r. rl_tenant r = t \<and> rl_status r = S_ACTIVE) (zi_roles inp)) [];
         active_groups = fold (\<lambda>g d. dict_put (gp_id g) g d)
           (filter (\<lambda>g. gp_tenant g = t \<and> gp_status g = S_ACTIVE) (zi_groups inp)) [];
         member_groups = remdups (map gm_group (filter (\<lambda>x. gm_tenant x = t \<and> gm_subject x = s \<and>
           gm_status x = S_ACTIVE \<and> gm_group x \<in> fst ` set active_groups) (zi_members inp)));
         group_roles = remdups (map gl_role (filter (\<lambda>l. gl_tenant l = t \<and> gl_group l \<in> set member_groups \<and>
           gl_role l \<in> fst ` set tenant_roles \<and> gl_status l = S_ACTIVE) (zi_links inp)));
         effective_roles = sorted_set (direct_roles @ group_roles)
     in sbind (union_scopes tenant_roles effective_roles) (\<lambda>role_scopes.
        let scopes = sorted_set (direct_scopes @ role_scopes) in
        Inr \<lparr>ea_tenant = t, ea_subject = s, ea_roles = effective_roles, ea_scopes = scopes,
          ea_groups = sorted_set member_groups,
          ea_unresolved = sorted_set (filter (\<lambda>i. i \<notin> fst ` set tenant_roles) direct_roles),
          ea_revisions = (revision_or_one (mb_revision m),
            map (\<lambda>i. (i, revision_or_one (rl_revision (the (map_of tenant_roles i)))))
              (filter (\<lambda>i. i \<in> fst ` set tenant_roles) effective_roles),
            map (\<lambda>i. (i, revision_or_one (gp_revision (the (map_of active_groups i))))) (sorted_set member_groups)),
          ea_counts = [length direct_roles, length direct_scopes, length member_groups, length group_roles, length scopes]\<rparr>))))"

text \<open>\<open>OaEffectiveAuthorizationResolver.resolve\<close>, of the membership of a snapshot.\<close>

definition resolve_membership :: "authz \<Rightarrow> membership \<Rightarrow> oa_exn + effective" where
  "resolve_membership A m =
     sbind (resolver_ids m) (\<lambda>(t, s).
     if mb_status m \<noteq> S_ACTIVE then Inl inactive_membership
     else sbind (authorization_inputs A t s) (\<lambda>inp. resolve_effective_authorization m inp))"

definition resolved_grants :: "authz \<Rightarrow> membership \<Rightarrow> oa_exn + grants" where
  "resolved_grants A m = sbind (resolve_membership A m) (\<lambda>e. Inr \<lparr>gr_roles = ea_roles e, gr_scopes = ea_scopes e\<rparr>)"

definition require_effective_scopes :: "string list \<Rightarrow> string list \<Rightarrow> oa_exn + unit" where
  "require_effective_scopes scopes required =
     sbind (string_set scopes ''scopes'') (\<lambda>granted.
     sbind (string_set required ''required_scopes'') (\<lambda>req.
     case sort (filter (\<lambda>r. r \<notin> set granted) req) of
       [] \<Rightarrow> Inr ()
     | r # _ \<Rightarrow> Inl (authz_error 403 ''oa.authorization_scope_not_granted'' (''required scope is not granted: '' @ r))))"

subsection \<open>Well-formed repositories\<close>

abbreviation norm_text :: "string \<Rightarrow> string" where
  "norm_text s \<equiv> py_lower (py_strip s)"

definition clean_scopes :: "string list \<Rightarrow> bool" where
  "clean_scopes ss \<longleftrightarrow> distinct ss \<and> (\<forall>s \<in> set ss. norm_text s = s \<and> py_strip s \<noteq> [])"

definition authz_inv :: "authz \<Rightarrow> bool" where
  "authz_inv A \<longleftrightarrow>
     distinct (map fst (az_roles A)) \<and> distinct (map fst (az_groups A)) \<and>
     distinct (map fst (az_members A)) \<and> distinct (map fst (az_links A)) \<and>
     (\<forall>(k, r) \<in> set (az_roles A). k = (py_lower (rl_tenant r), rl_id r) \<and> clean_scopes (rl_scopes r)) \<and>
     (\<forall>(k, g) \<in> set (az_groups A). k = (py_lower (gp_tenant g), gp_id g)) \<and>
     (\<forall>(k, m) \<in> set (az_members A). k = (py_lower (gm_tenant m), gm_group m, py_lower (gm_subject m))) \<and>
     (\<forall>(k, l) \<in> set (az_links A). k = (py_lower (gl_tenant l), gl_group l, gl_role l))"

definition empty_authz :: authz where
  "empty_authz = \<lparr>az_roles = [], az_groups = [], az_members = [], az_links = [], az_events = []\<rparr>"

lemma empty_authz_inv: "authz_inv empty_authz"
  by (simp add: authz_inv_def empty_authz_def)

lemma lower_char_idem: "lower_char (lower_char c) = lower_char c"
proof -
  have n: "(of_char (char_of (of_char c + 32 :: nat) :: char) :: nat) = of_char c + 32" if "of_char c \<le> (222 :: nat)"
    using that by (simp add: of_char_of take_bit_eq_mod)
  show ?thesis
    using n by (simp add: lower_char_def Let_def)
qed

lemma py_lower_idem [simp]: "py_lower (py_lower s) = py_lower s"
  by (simp add: py_lower_def lower_char_idem)

lemma code_ok_chars: "code_ok low s \<Longrightarrow> c \<in> set s \<Longrightarrow> lower_letter c \<or> decimal_digit c \<or> c \<in> set ''_.-''"
  by (auto simp: code_ok_def list_all_iff split: list.splits)

lemma code_char_no_space: "lower_letter c \<or> decimal_digit c \<or> c \<in> set ''_.-:'' \<Longrightarrow> \<not> py_space c"
  by (auto simp: lower_letter_def decimal_digit_def py_space_def Let_def)

lemma no_space_strip: "(\<And>c. c \<in> set s \<Longrightarrow> \<not> py_space c) \<Longrightarrow> s \<noteq> [] \<Longrightarrow> py_strip s = s"
  by (intro py_strip_id) auto

lemma scope_ok_strip:
  assumes "scope_ok s"
  shows "py_strip s = s" "s \<noteq> []"
proof -
  let ?P = "\<lambda>c. c \<noteq> CHR '':''"
  obtain c a where d: "dropWhile ?P s = c # a" and codes: "code_ok 0 (takeWhile ?P s)" "code_ok 0 a"
    using assms by (auto simp: scope_ok_def split: list.splits)
  have "c = CHR '':''" using hd_dropWhile [of ?P s] d by simp
  moreover have "s = takeWhile ?P s @ c # a" using takeWhile_dropWhile_id [of ?P s] d by simp
  ultimately have "set s = set (takeWhile ?P s) \<union> {CHR '':''} \<union> set a" by (metis Un_insert_right list.set(2) set_append sup_bot.right_neutral Un_insert_left)
  then have "\<not> py_space e" if "e \<in> set s" for e
    using that code_ok_chars [OF codes(1), of e] code_ok_chars [OF codes(2), of e]
    by (intro code_char_no_space) auto
  moreover show "s \<noteq> []" using d by auto
  ultimately show "py_strip s = s" by (intro no_space_strip) auto
qed

lemma scope_list_Inr: "scope_list vs = Inr ss \<Longrightarrow> \<forall>s \<in> set ss. scope_ok s \<and> py_lower s = s"
  by (induction vs arbitrary: ss) (auto simp: res_simps)

lemma scopes_clean: "normalize_authorization_scopes v = Inr ss \<Longrightarrow> clean_scopes ss"
  using scope_list_Inr scope_ok_strip
  by (auto simp: normalize_authorization_scopes_def clean_scopes_def sorted_set_def res_simps
      split: pyval.splits if_splits)

lemma authz_id_Inr [res_simps]:
  "normalize_authorization_id v f = Inr i \<longleftrightarrow> (\<exists>w. v = PStr w \<and> i = norm_text w \<and> code_ok 1 i)"
  by (cases v) (auto simp: normalize_authorization_id_def)

lemma authz_id_key:
  assumes "normalize_authorization_id (dget payload k) f = Inr i"
  shows "key_text payload k = i"
proof -
  obtain w where w: "dget payload k = PStr w" "i = norm_text w" "code_ok 1 i" using assms by (auto simp: authz_id_Inr)
  then have "i \<noteq> []" by (auto simp: code_ok_def)
  then have "w \<noteq> []" using w(2) by (auto simp: py_lower_def py_strip_def)
  then show ?thesis using w by (simp add: key_text_def payload_text_def)
qed

lemma registry_key:
  assumes "normalize_registry_id (dget payload k) f None = Inr t"
  shows "key_text payload k = py_lower t" "payload_text payload k = t"
proof -
  obtain w where w: "dget payload k = PStr w" "t = py_strip w" "registry_id_ok t"
    using assms by (auto simp: normalize_registry_id_Inr or_value_def split: if_splits)
  then have "w \<noteq> []" using registry_id_nonempty [of t] by (auto simp: py_strip_def)
  then show "key_text payload k = py_lower t" "payload_text payload k = t" using w
    by (simp_all add: key_text_def payload_text_def)
qed

subsection \<open>What an upsert stores\<close>

abbreviation roles_of :: "authz \<Rightarrow> role set" where "roles_of A \<equiv> snd ` set (az_roles A)"
abbreviation groups_of :: "authz \<Rightarrow> group set" where "groups_of A \<equiv> snd ` set (az_groups A)"
abbreviation members_of :: "authz \<Rightarrow> group_member set" where "members_of A \<equiv> snd ` set (az_members A)"
abbreviation links_of :: "authz \<Rightarrow> group_role set" where "links_of A \<equiv> snd ` set (az_links A)"

text \<open>
  A dictionary of records under a key that their identity fixes, all of them good: what putting a
  record under its key does, as long as the record it replaces has its identity.
\<close>

locale record_store =
  fixes key :: "'r \<Rightarrow> 'k" and ident :: "'r \<Rightarrow> 'i" and good :: "'r \<Rightarrow> bool"
  assumes key_ident: "ident v = ident w \<Longrightarrow> key v = key w"
begin

lemma put_store:
  assumes d: "distinct (map fst d)" and k: "\<forall>(k, v) \<in> set d. k = key v \<and> good v" and w: "good w"
    and same: "\<And>v. map_of d (key w) = Some v \<Longrightarrow> ident v = ident w"
  shows "snd ` set (dict_put (key w) w d) = insert w {v \<in> snd ` set d. ident v \<noteq> ident w}"
    "distinct (map fst (dict_put (key w) w d))" "\<forall>(k, v) \<in> set (dict_put (key w) w d). k = key v \<and> good v"
proof -
  have iff: "q \<noteq> key w \<longleftrightarrow> ident v \<noteq> ident w" if "(q, v) \<in> set d" for q v
  proof
    assume "q \<noteq> key w"
    moreover have "q = key v" using k that by blast
    ultimately show "ident v \<noteq> ident w" using key_ident [of v w] by blast
  next
    assume i: "ident v \<noteq> ident w"
    have "map_of d q = Some v" using d that by (rule map_of_is_SomeI)
    then show "q \<noteq> key w" using same [of v] i by blast
  qed
  have "snd ` {p \<in> set d. fst p \<noteq> key w} = {v \<in> snd ` set d. ident v \<noteq> ident w}"
    using iff by (force simp: image_iff)
  then show "snd ` set (dict_put (key w) w d) = insert w {v \<in> snd ` set d. ident v \<noteq> ident w}"
    by (simp add: set_dict_put_distinct [OF d])
  show "distinct (map fst (dict_put (key w) w d))" using d by simp
  have "q = key v \<and> good v" if "(q, v) \<in> set (dict_put (key w) w d)" for q v
  proof -
    have "(q, v) = (key w, w) \<or> (q, v) \<in> set d" using that by (auto simp: set_dict_put_distinct [OF d])
    then show ?thesis using k w by blast
  qed
  then show "\<forall>(k, v) \<in> set (dict_put (key w) w d). k = key v \<and> good v" by blast
qed

lemma distinct_selected:
  assumes "distinct (map fst d)" "\<And>k v. (k, v) \<in> set d \<Longrightarrow> k = key v"
    "\<And>v w. P v \<Longrightarrow> P w \<Longrightarrow> i v = i w \<Longrightarrow> key v = key w"
  shows "distinct (map i (filter P (map snd d)))"
  using assms
proof (induction d)
  case (Cons a d)
  obtain k v where a: "a = (k, v)" by (cases a)
  have "distinct (map i (filter P (map snd d)))"
  proof (rule Cons.IH)
    show "distinct (map fst d)" using Cons.prems(1) by simp
    show "k = key v" if "(k, v) \<in> set d" for k v by (rule Cons.prems(2)) (simp add: that)
  qed (rule Cons.prems(3))
  moreover have "i v \<notin> i ` set (filter P (map snd d))" if "P v"
  proof
    assume "i v \<in> i ` set (filter P (map snd d))"
    then obtain q w where w: "(q, w) \<in> set d" "P w" "i w = i v" by auto
    then have "q = key w" "k = key v" using Cons.prems(2) a by auto
    then have "q = k" using Cons.prems(3) [OF w(2) that w(3)] by simp
    then show False using Cons.prems(1) w(1) by (force simp: a)
  qed
  ultimately show ?case by (simp add: a)
qed simp

end

interpretation role_store: record_store "\<lambda>r. (py_lower (rl_tenant r), rl_id r)" "\<lambda>r. (rl_tenant r, rl_id r)"
    "\<lambda>r. clean_scopes (rl_scopes r)"
  by unfold_locales simp

interpretation group_store: record_store "\<lambda>g. (py_lower (gp_tenant g), gp_id g)" "\<lambda>g. (gp_tenant g, gp_id g)" "\<lambda>_. True"
  by unfold_locales simp

interpretation member_store: record_store "\<lambda>m. (py_lower (gm_tenant m), gm_group m, py_lower (gm_subject m))"
    "\<lambda>m. (gm_tenant m, gm_group m, gm_subject m)" "\<lambda>_. True"
  by unfold_locales simp

interpretation link_store: record_store "\<lambda>l. (py_lower (gl_tenant l), gl_group l, gl_role l)"
    "\<lambda>l. (gl_tenant l, gl_group l, gl_role l)" "\<lambda>_. True"
  by unfold_locales simp

text \<open>
  The four upserts, by what they store: the record of the plan, in the place of the one of the same
  identity.
\<close>

definition stores :: "authz \<Rightarrow> authz_record \<Rightarrow> authz \<Rightarrow> bool" where
  "stores A rec A' \<longleftrightarrow>
     roles_of A' = (case rec of RoleRecord w \<Rightarrow> insert w {v \<in> roles_of A. (rl_tenant v, rl_id v) \<noteq> (rl_tenant w, rl_id w)} | _ \<Rightarrow> roles_of A) \<and>
     groups_of A' = (case rec of GroupRecord w \<Rightarrow> insert w {v \<in> groups_of A. (gp_tenant v, gp_id v) \<noteq> (gp_tenant w, gp_id w)} | _ \<Rightarrow> groups_of A) \<and>
     members_of A' = (case rec of MemberRecord w \<Rightarrow> insert w {v \<in> members_of A. (gm_tenant v, gm_group v, gm_subject v) \<noteq> (gm_tenant w, gm_group w, gm_subject w)} | _ \<Rightarrow> members_of A) \<and>
     links_of A' = (case rec of LinkRecord w \<Rightarrow> insert w {v \<in> links_of A. (gl_tenant v, gl_group v, gl_role v) \<noteq> (gl_tenant w, gl_group w, gl_role w)} | _ \<Rightarrow> links_of A)"

inductive upsert :: "bool \<Rightarrow> authz \<Rightarrow> sessions \<Rightarrow> authz_result \<Rightarrow> authz \<Rightarrow> sessions \<Rightarrow> bool" where
  role: "upsert_role l A S payload ctx eid now = Inr (res, A', S') \<Longrightarrow> upsert l A S res A' S'"
| group: "upsert_group l A S payload ctx eid now = Inr (res, A', S') \<Longrightarrow> upsert l A S res A' S'"
| member: "upsert_group_member l A S payload ctx eid now = Inr (res, A', S') \<Longrightarrow> upsert l A S res A' S'"
| link: "upsert_group_role l A S payload ctx eid now = Inr (res, A', S') \<Longrightarrow> upsert l A S res A' S'"

lemma finish_upsert_Inr:
  assumes "finish_upsert l A S payload ctx eid now r = Inr (res, A', S')"
  shows "zr_record res = r" "zr_affected res = affected_subject_ids A r"
    "az_roles A' = az_roles (store_record payload r A)" "az_groups A' = az_groups (store_record payload r A)"
    "az_members A' = az_members (store_record payload r A)" "az_links A' = az_links (store_record payload r A)"
    "S' = (if l \<and> affected_subject_ids A r \<noteq> [] then snd (revoke_sessions_of S (record_tenant r) (affected_subject_ids A r) now) else S)"
  using assms by (auto simp: finish_upsert_def Let_def case_prod_beta res_simps)

text \<open>What each plan fixes of its record.\<close>

lemma plan_role_Inr:
  assumes "plan_role_upsert payload cur = Inr r"
  shows "key_text payload ''tenant_id'' = py_lower (rl_tenant r)" "key_text payload ''role_id'' = rl_id r"
    "clean_scopes (rl_scopes r)" "\<And>v. cur = Some v \<Longrightarrow> rl_tenant v = rl_tenant r \<and> rl_id v = rl_id r"
    "rl_revision r = (case cur of None \<Rightarrow> 0 | Some v \<Rightarrow> rl_revision v) + 1"
proof -
  obtain t i n u name desc st scopes meta where
    t: "payload_tenant payload = Inr t" and i: "normalize_authorization_id (dget payload ''role_id'') ''role_id'' = Inr i"
    and n: "next_revision (dget payload ''expected_revision'') (map_option rl_revision cur) = Inr n"
    and same: "same_identity (\<forall>r \<in> set_option cur. rl_tenant r = t \<and> rl_id r = i) = Inr u"
    and scopes: "normalize_authorization_scopes (dget payload ''scopes'') = Inr scopes"
    and r: "r = \<lparr>rl_tenant = t, rl_id = i, rl_name = name, rl_description = desc, rl_status = st, rl_scopes = scopes,
          rl_metadata = meta, rl_revision = n\<rparr>"
    using assms unfolding plan_role_upsert_def sbind_eq_Inr sum.inject by blast
  show "key_text payload ''tenant_id'' = py_lower (rl_tenant r)" "key_text payload ''role_id'' = rl_id r"
    "clean_scopes (rl_scopes r)"
    using registry_key(1) [OF t] authz_id_key [OF i] scopes_clean [OF scopes] by (simp_all add: r)
  show "rl_tenant v = rl_tenant r \<and> rl_id v = rl_id r" if "cur = Some v" for v
    using same that by (simp add: r same_identity_def split: if_splits)
  show "rl_revision r = (case cur of None \<Rightarrow> 0 | Some v \<Rightarrow> rl_revision v) + 1"
    using n by (auto simp: r next_revision_def Let_def res_simps split: option.splits if_splits)
qed

lemma plan_group_Inr:
  assumes "plan_group_upsert payload cur = Inr g"
  shows "key_text payload ''tenant_id'' = py_lower (gp_tenant g)" "key_text payload ''group_id'' = gp_id g"
    "\<And>v. cur = Some v \<Longrightarrow> gp_tenant v = gp_tenant g \<and> gp_id v = gp_id g"
    "gp_revision g = (case cur of None \<Rightarrow> 0 | Some v \<Rightarrow> gp_revision v) + 1"
proof -
  obtain t i n u name desc st meta where
    t: "payload_tenant payload = Inr t" and i: "normalize_authorization_id (dget payload ''group_id'') ''group_id'' = Inr i"
    and n: "next_revision (dget payload ''expected_revision'') (map_option gp_revision cur) = Inr n"
    and same: "same_identity (\<forall>g \<in> set_option cur. gp_tenant g = t \<and> gp_id g = i) = Inr u"
    and g: "g = \<lparr>gp_tenant = t, gp_id = i, gp_name = name, gp_description = desc, gp_status = st, gp_metadata = meta,
          gp_revision = n\<rparr>"
    using assms unfolding plan_group_upsert_def sbind_eq_Inr sum.inject by blast
  show "key_text payload ''tenant_id'' = py_lower (gp_tenant g)" "key_text payload ''group_id'' = gp_id g"
    using registry_key(1) [OF t] authz_id_key [OF i] by (simp_all add: g)
  show "gp_tenant v = gp_tenant g \<and> gp_id v = gp_id g" if "cur = Some v" for v
    using same that by (simp add: g same_identity_def split: if_splits)
  show "gp_revision g = (case cur of None \<Rightarrow> 0 | Some v \<Rightarrow> gp_revision v) + 1"
    using n by (auto simp: g next_revision_def Let_def res_simps split: option.splits if_splits)
qed

lemma plan_member_Inr:
  assumes "plan_group_member_upsert payload cur = Inr m"
  shows "key_text payload ''tenant_id'' = py_lower (gm_tenant m)" "key_text payload ''group_id'' = gm_group m"
    "key_text payload ''subject_id'' = py_lower (gm_subject m)" "payload_text payload ''tenant_id'' = gm_tenant m"
    "\<And>v. cur = Some v \<Longrightarrow> gm_tenant v = gm_tenant m \<and> gm_group v = gm_group m \<and> gm_subject v = gm_subject m"
    "gm_revision m = (case cur of None \<Rightarrow> 0 | Some v \<Rightarrow> gm_revision v) + 1"
proof -
  obtain t g s n u st where
    t: "payload_tenant payload = Inr t" and g: "normalize_authorization_id (dget payload ''group_id'') ''group_id'' = Inr g"
    and s: "normalize_registry_id (dget payload ''subject_id'') ''subject_id'' None = Inr s"
    and n: "next_revision (dget payload ''expected_revision'') (map_option gm_revision cur) = Inr n"
    and same: "same_identity (\<forall>m \<in> set_option cur. gm_tenant m = t \<and> gm_group m = g \<and> gm_subject m = s) = Inr u"
    and m: "m = \<lparr>gm_tenant = t, gm_group = g, gm_subject = s, gm_status = st, gm_revision = n\<rparr>"
    using assms unfolding plan_group_member_upsert_def sbind_eq_Inr sum.inject by blast
  show "key_text payload ''tenant_id'' = py_lower (gm_tenant m)" "key_text payload ''group_id'' = gm_group m"
    "key_text payload ''subject_id'' = py_lower (gm_subject m)" "payload_text payload ''tenant_id'' = gm_tenant m"
    using registry_key [OF t] registry_key(1) [OF s] authz_id_key [OF g] by (simp_all add: m)
  show "gm_tenant v = gm_tenant m \<and> gm_group v = gm_group m \<and> gm_subject v = gm_subject m" if "cur = Some v" for v
    using same that by (simp add: m same_identity_def split: if_splits)
  show "gm_revision m = (case cur of None \<Rightarrow> 0 | Some v \<Rightarrow> gm_revision v) + 1"
    using n by (auto simp: m next_revision_def Let_def res_simps split: option.splits if_splits)
qed

lemma plan_link_Inr:
  assumes "plan_group_role_upsert payload cur = Inr l"
  shows "key_text payload ''tenant_id'' = py_lower (gl_tenant l)" "key_text payload ''group_id'' = gl_group l"
    "key_text payload ''role_id'' = gl_role l"
    "\<And>v. cur = Some v \<Longrightarrow> gl_tenant v = gl_tenant l \<and> gl_group v = gl_group l \<and> gl_role v = gl_role l"
    "gl_revision l = (case cur of None \<Rightarrow> 0 | Some v \<Rightarrow> gl_revision v) + 1"
proof -
  obtain t g i n u st where
    t: "payload_tenant payload = Inr t" and g: "normalize_authorization_id (dget payload ''group_id'') ''group_id'' = Inr g"
    and i: "normalize_authorization_id (dget payload ''role_id'') ''role_id'' = Inr i"
    and n: "next_revision (dget payload ''expected_revision'') (map_option gl_revision cur) = Inr n"
    and same: "same_identity (\<forall>l \<in> set_option cur. gl_tenant l = t \<and> gl_group l = g \<and> gl_role l = i) = Inr u"
    and l: "l = \<lparr>gl_tenant = t, gl_group = g, gl_role = i, gl_status = st, gl_revision = n\<rparr>"
    using assms unfolding plan_group_role_upsert_def sbind_eq_Inr sum.inject by blast
  show "key_text payload ''tenant_id'' = py_lower (gl_tenant l)" "key_text payload ''group_id'' = gl_group l"
    "key_text payload ''role_id'' = gl_role l"
    using registry_key(1) [OF t] authz_id_key [OF g] authz_id_key [OF i] by (simp_all add: l)
  show "gl_tenant v = gl_tenant l \<and> gl_group v = gl_group l \<and> gl_role v = gl_role l" if "cur = Some v" for v
    using same that by (simp add: l same_identity_def split: if_splits)
  show "gl_revision l = (case cur of None \<Rightarrow> 0 | Some v \<Rightarrow> gl_revision v) + 1"
    using n by (auto simp: l next_revision_def Let_def res_simps split: option.splits if_splits)
qed

definition stored_revision :: "authz \<Rightarrow> authz_record \<Rightarrow> int" where
  "stored_revision A rec = (case rec of
     RoleRecord w \<Rightarrow> (case map_of (az_roles A) (py_lower (rl_tenant w), rl_id w) of None \<Rightarrow> 0 | Some v \<Rightarrow> rl_revision v)
   | GroupRecord w \<Rightarrow> (case map_of (az_groups A) (py_lower (gp_tenant w), gp_id w) of None \<Rightarrow> 0 | Some v \<Rightarrow> gp_revision v)
   | MemberRecord w \<Rightarrow> (case map_of (az_members A) (py_lower (gm_tenant w), gm_group w, py_lower (gm_subject w)) of
       None \<Rightarrow> 0 | Some v \<Rightarrow> gm_revision v)
   | LinkRecord w \<Rightarrow> (case map_of (az_links A) (py_lower (gl_tenant w), gl_group w, gl_role w) of
       None \<Rightarrow> 0 | Some v \<Rightarrow> gl_revision v))"

text \<open>Every upsert that returns: what it stores, that the repository stays well formed, whom it revokes.\<close>

definition upserted :: "bool \<Rightarrow> authz \<Rightarrow> sessions \<Rightarrow> authz_result \<Rightarrow> authz \<Rightarrow> sessions \<Rightarrow> bool" where
  "upserted l A S res A' S' \<longleftrightarrow> authz_inv A' \<and> stores A (zr_record res) A' \<and>
     record_revision (zr_record res) = stored_revision A (zr_record res) + 1 \<and>
     zr_affected res = affected_subject_ids A (zr_record res) \<and>
     (\<exists>now. S' = (if l \<and> zr_affected res \<noteq> [] then snd (revoke_sessions_of S (record_tenant (zr_record res)) (zr_affected res) now) else S))"

lemma upsert_role_effect:
  assumes inv: "authz_inv A" and u: "upsert_role l A S payload ctx eid now = Inr (res, A', S')"
  shows "upserted l A S res A' S'"
proof -
  obtain r where p: "plan_role_upsert payload (map_of (az_roles A) (key_text payload ''tenant_id'', key_text payload ''role_id'')) = Inr r"
    and f: "finish_upsert l A S payload ctx eid now (RoleRecord r) = Inr (res, A', S')"
    using u unfolding upsert_role_def sbind_eq_Inr by blast
  note p' = plan_role_Inr [OF p] and f' = finish_upsert_Inr [OF f]
  let ?f = "\<lambda>r. (py_lower (rl_tenant r), rl_id r)" and ?i = "\<lambda>r. (rl_tenant r, rl_id r)"
  have d: "distinct (map fst (az_roles A))" and k: "\<forall>(k, r) \<in> set (az_roles A). k = ?f r \<and> clean_scopes (rl_scopes r)"
    using inv by (simp_all add: authz_inv_def)
  have A': "az_roles A' = dict_put (?f r) r (az_roles A)" "az_groups A' = az_groups A" "az_members A' = az_members A"
    "az_links A' = az_links A" by (simp_all add: f'(3-6) p'(1,2))
  have same: "?i v = ?i r" if "map_of (az_roles A) (?f r) = Some v" for v
    using p'(4) [unfolded p'(1,2), OF that] by simp
  note put = role_store.put_store [OF d k p'(3) same]
  have new: "roles_of A' = insert r {v \<in> roles_of A. ?i v \<noteq> ?i r}" unfolding A'(1) by (rule put(1))
  have good: "authz_inv A'" using inv put(2,3) by (simp add: authz_inv_def A')
  have rev: "record_revision (RoleRecord r) = stored_revision A (RoleRecord r) + 1"
    using p'(5) by (simp add: stored_revision_def p'(1,2))
  have st: "stores A (RoleRecord r) A'" unfolding stores_def authz_record.case using new A'(2-4) by simp
  show ?thesis unfolding upserted_def f'(1,2) by (intro conjI good st rev refl exI [of _ now] f'(7))
qed

lemma upsert_group_effect:
  assumes inv: "authz_inv A" and u: "upsert_group l A S payload ctx eid now = Inr (res, A', S')"
  shows "upserted l A S res A' S'"
proof -
  obtain r where p: "plan_group_upsert payload (map_of (az_groups A) (key_text payload ''tenant_id'', key_text payload ''group_id'')) = Inr r"
    and f: "finish_upsert l A S payload ctx eid now (GroupRecord r) = Inr (res, A', S')"
    using u unfolding upsert_group_def sbind_eq_Inr by blast
  note p' = plan_group_Inr [OF p] and f' = finish_upsert_Inr [OF f]
  let ?f = "\<lambda>r. (py_lower (gp_tenant r), gp_id r)" and ?i = "\<lambda>r. (gp_tenant r, gp_id r)"
  have d: "distinct (map fst (az_groups A))" and k: "\<forall>(k, r) \<in> set (az_groups A). k = ?f r \<and> True"
    using inv by (simp_all add: authz_inv_def)
  have A': "az_groups A' = dict_put (?f r) r (az_groups A)" "az_roles A' = az_roles A" "az_members A' = az_members A"
    "az_links A' = az_links A" by (simp_all add: f'(3-6) p'(1,2))
  have same: "?i v = ?i r" if "map_of (az_groups A) (?f r) = Some v" for v
    using p'(3) [unfolded p'(1,2), OF that] by simp
  note put = group_store.put_store [OF d k TrueI same]
  have new: "groups_of A' = insert r {v \<in> groups_of A. ?i v \<noteq> ?i r}" unfolding A'(1) by (rule put(1))
  have good: "authz_inv A'" using inv put(2,3) by (simp add: authz_inv_def A')
  have rev: "record_revision (GroupRecord r) = stored_revision A (GroupRecord r) + 1"
    using p'(4) by (simp add: stored_revision_def p'(1,2))
  have st: "stores A (GroupRecord r) A'" unfolding stores_def authz_record.case using new A'(2-4) by simp
  show ?thesis unfolding upserted_def f'(1,2) by (intro conjI good st rev refl exI [of _ now] f'(7))
qed

lemma upsert_group_member_effect:
  assumes inv: "authz_inv A" and u: "upsert_group_member l A S payload ctx eid now = Inr (res, A', S')"
  shows "upserted l A S res A' S'"
proof -
  obtain r where p: "plan_group_member_upsert payload (map_of (az_members A)
        (key_text payload ''tenant_id'', key_text payload ''group_id'', key_text payload ''subject_id'')) = Inr r"
    and f: "finish_upsert l A S payload ctx eid now (MemberRecord r) = Inr (res, A', S')"
    using u unfolding upsert_group_member_def sbind_eq_Inr by blast
  note p' = plan_member_Inr [OF p] and f' = finish_upsert_Inr [OF f]
  let ?f = "\<lambda>r. (py_lower (gm_tenant r), gm_group r, py_lower (gm_subject r))" and ?i = "\<lambda>r. (gm_tenant r, gm_group r, gm_subject r)"
  have d: "distinct (map fst (az_members A))" and k: "\<forall>(k, r) \<in> set (az_members A). k = ?f r \<and> True"
    using inv by (simp_all add: authz_inv_def)
  have A': "az_members A' = dict_put (?f r) r (az_members A)" "az_roles A' = az_roles A" "az_groups A' = az_groups A"
    "az_links A' = az_links A" by (simp_all add: f'(3-6) p'(1-3))
  have same: "?i v = ?i r" if "map_of (az_members A) (?f r) = Some v" for v
    using p'(5) [unfolded p'(1-3), OF that] by simp
  note put = member_store.put_store [OF d k TrueI same]
  have new: "members_of A' = insert r {v \<in> members_of A. ?i v \<noteq> ?i r}" unfolding A'(1) by (rule put(1))
  have good: "authz_inv A'" using inv put(2,3) by (simp add: authz_inv_def A')
  have rev: "record_revision (MemberRecord r) = stored_revision A (MemberRecord r) + 1"
    using p'(6) by (simp add: stored_revision_def p'(1-3))
  have st: "stores A (MemberRecord r) A'" unfolding stores_def authz_record.case using new A'(2-4) by simp
  show ?thesis unfolding upserted_def f'(1,2) by (intro conjI good st rev refl exI [of _ now] f'(7))
qed

lemma upsert_group_role_effect:
  assumes inv: "authz_inv A" and u: "upsert_group_role l A S payload ctx eid now = Inr (res, A', S')"
  shows "upserted l A S res A' S'"
proof -
  obtain r where p: "plan_group_role_upsert payload (map_of (az_links A)
        (key_text payload ''tenant_id'', key_text payload ''group_id'', key_text payload ''role_id'')) = Inr r"
    and f: "finish_upsert l A S payload ctx eid now (LinkRecord r) = Inr (res, A', S')"
    using u unfolding upsert_group_role_def sbind_eq_Inr by blast
  note p' = plan_link_Inr [OF p] and f' = finish_upsert_Inr [OF f]
  let ?f = "\<lambda>r. (py_lower (gl_tenant r), gl_group r, gl_role r)" and ?i = "\<lambda>r. (gl_tenant r, gl_group r, gl_role r)"
  have d: "distinct (map fst (az_links A))" and k: "\<forall>(k, r) \<in> set (az_links A). k = ?f r \<and> True"
    using inv by (simp_all add: authz_inv_def)
  have A': "az_links A' = dict_put (?f r) r (az_links A)" "az_roles A' = az_roles A" "az_groups A' = az_groups A"
    "az_members A' = az_members A" by (simp_all add: f'(3-6) p'(1-3))
  have same: "?i v = ?i r" if "map_of (az_links A) (?f r) = Some v" for v
    using p'(4) [unfolded p'(1-3), OF that] by simp
  note put = link_store.put_store [OF d k TrueI same]
  have new: "links_of A' = insert r {v \<in> links_of A. ?i v \<noteq> ?i r}" unfolding A'(1) by (rule put(1))
  have good: "authz_inv A'" using inv put(2,3) by (simp add: authz_inv_def A')
  have rev: "record_revision (LinkRecord r) = stored_revision A (LinkRecord r) + 1"
    using p'(5) by (simp add: stored_revision_def p'(1-3))
  have st: "stores A (LinkRecord r) A'" unfolding stores_def authz_record.case using new A'(2-4) by simp
  show ?thesis unfolding upserted_def f'(1,2) by (intro conjI good st rev refl exI [of _ now] f'(7))
qed

lemma upsert_effect: "upsert l A S res A' S' \<Longrightarrow> authz_inv A \<Longrightarrow> upserted l A S res A' S'"
  by (induction rule: upsert.induct)
    (blast intro: upsert_role_effect upsert_group_effect upsert_group_member_effect upsert_group_role_effect)+

text \<open>
  Keys are in lower case and the references to a group are looked up with the tenant as written, so a
  tenant with a capital letter never has a group member.
\<close>

lemma mixed_case_tenant_has_no_members:
  assumes "authz_inv A" "payload_tenant payload = Inr t" "py_lower t \<noteq> t"
  shows "upsert_group_member l A S payload ctx eid now = Inl (reference_not_found ''group'')"
proof -
  have "payload_text payload ''tenant_id'' = t" using registry_key(2) [OF assms(2)] .
  moreover have "map_of (az_groups A) (t, i) = None" for i
  proof (rule ccontr)
    assume "map_of (az_groups A) (t, i) \<noteq> None"
    then obtain g where "((t, i), g) \<in> set (az_groups A)" using map_of_SomeD [of "az_groups A"] by auto
    then have "(t, i) = (py_lower (gp_tenant g), gp_id g)" using assms(1) unfolding authz_inv_def by blast
    then have "t = py_lower (gp_tenant g)" by simp
    then show False using assms(3) by simp
  qed
  ultimately show ?thesis by (simp add: upsert_group_member_def require_group_def)
qed

end
