(* ===== verification/Oa_Rights.thy ===== *)
theory Oa_Rights
  imports Oa_Authorization
begin

section \<open>The rights an authorization repository grants\<close>

text \<open>
  What the records of a repository grant to a subject, as sets: the specification of the resolver of
  \<^verbatim>\<open>authorization_resolver.py\<close>, and what an upsert of \<^verbatim>\<open>authorization_repository.py\<close> may change of it.
\<close>

definition held_roles :: "authz \<Rightarrow> string \<Rightarrow> string \<Rightarrow> string set \<Rightarrow> string set" where
  "held_roles A t s D = D \<union> {i. \<exists>l \<in> links_of A. gl_tenant l = t \<and> gl_status l = S_ACTIVE \<and> gl_role l = i \<and>
     (\<exists>g \<in> groups_of A. gp_tenant g = t \<and> gp_id g = gl_group l \<and> gp_status g = S_ACTIVE) \<and>
     (\<exists>m \<in> members_of A. gm_tenant m = t \<and> gm_group m = gl_group l \<and> gm_subject m = s \<and> gm_status m = S_ACTIVE)}"

definition granted_scopes :: "authz \<Rightarrow> string \<Rightarrow> string \<Rightarrow> string set \<Rightarrow> string set" where
  "granted_scopes A t s D = {x. \<exists>r \<in> roles_of A. rl_tenant r = t \<and> rl_status r = S_ACTIVE \<and>
     rl_id r \<in> held_roles A t s D \<and> x \<in> set (rl_scopes r)}"

subsection \<open>Whose rights an upsert changes\<close>

lemma subjects_of_groups_iff:
  "s \<in> set (subjects_of_groups A t gs) \<longleftrightarrow> (\<exists>m \<in> members_of A. gm_tenant m = t \<and> gm_group m \<in> set gs \<and> gm_subject m = s)"
  by (auto simp: subjects_of_groups_def sorted_set_def)

lemma held_cong:
  assumes "links_of A' = links_of A" "groups_of A' = groups_of A" "members_of A' = members_of A"
  shows "held_roles A' t s D = held_roles A t s D"
  by (simp add: held_roles_def assms)

lemma granted_cong:
  assumes "roles_of A' = roles_of A" "held_roles A' t s D = held_roles A t s D"
  shows "granted_scopes A' t s D = granted_scopes A t s D"
  by (simp add: granted_scopes_def assms)

lemma member_role:
  "i \<in> held_roles A t s D \<Longrightarrow> i \<notin> D \<Longrightarrow> \<exists>l \<in> links_of A. gl_tenant l = t \<and> gl_role l = i \<and>
     (\<exists>m \<in> members_of A. gm_tenant m = t \<and> gm_group m = gl_group l \<and> gm_subject m = s)"
  unfolding held_roles_def by blast

lemma bex_replaced:
  assumes "\<And>v. Q v \<Longrightarrow> ident v \<noteq> ident w"
  shows "(\<exists>v \<in> insert w {v \<in> X. ident v \<noteq> ident w}. Q v) = (\<exists>v \<in> X. Q v)"
  using assms by blast

lemma role_rights:
  assumes st: "stores A (RoleRecord w) A'" and d: "granted_scopes A' t s D \<noteq> granted_scopes A t s D"
  shows "rl_tenant w = t \<and> rl_id w \<in> held_roles A t s D"
proof (rule ccontr)
  assume no: "\<not> (rl_tenant w = t \<and> rl_id w \<in> held_roles A t s D)"
  have e: "roles_of A' = insert w {v \<in> roles_of A. (rl_tenant v, rl_id v) \<noteq> (rl_tenant w, rl_id w)}"
    "links_of A' = links_of A" "groups_of A' = groups_of A" "members_of A' = members_of A"
    using st by (simp_all add: stores_def)
  have "granted_scopes A' t s D = granted_scopes A t s D"
    unfolding granted_scopes_def held_cong [OF e(2-4)] e(1)
    by (intro Collect_cong bex_replaced) (use no in auto)
  then show False using d by blast
qed

lemma group_rights:
  assumes st: "stores A (GroupRecord w) A'" and d: "granted_scopes A' t s D \<noteq> granted_scopes A t s D"
  shows "gp_tenant w = t \<and> (\<exists>m \<in> members_of A. gm_tenant m = t \<and> gm_group m = gp_id w \<and> gm_subject m = s)"
proof (rule ccontr)
  assume no: "\<not> (gp_tenant w = t \<and> (\<exists>m \<in> members_of A. gm_tenant m = t \<and> gm_group m = gp_id w \<and> gm_subject m = s))"
  have e: "groups_of A' = insert w {v \<in> groups_of A. (gp_tenant v, gp_id v) \<noteq> (gp_tenant w, gp_id w)}"
    "links_of A' = links_of A" "roles_of A' = roles_of A" "members_of A' = members_of A"
    using st by (simp_all add: stores_def)
  have "(\<exists>g \<in> groups_of A'. gp_tenant g = t \<and> gp_id g = i \<and> gp_status g = S_ACTIVE) =
    (\<exists>g \<in> groups_of A. gp_tenant g = t \<and> gp_id g = i \<and> gp_status g = S_ACTIVE)" if "gp_tenant w \<noteq> t \<or> i \<noteq> gp_id w" for i
    unfolding e(1) by (rule bex_replaced) (use that in auto)
  note same = this
  have "(gl_tenant l = t \<and> gl_status l = S_ACTIVE \<and> gl_role l = i \<and>
     (\<exists>g \<in> groups_of A'. gp_tenant g = t \<and> gp_id g = gl_group l \<and> gp_status g = S_ACTIVE) \<and>
     (\<exists>m \<in> members_of A. gm_tenant m = t \<and> gm_group m = gl_group l \<and> gm_subject m = s \<and> gm_status m = S_ACTIVE)) =
    (gl_tenant l = t \<and> gl_status l = S_ACTIVE \<and> gl_role l = i \<and>
     (\<exists>g \<in> groups_of A. gp_tenant g = t \<and> gp_id g = gl_group l \<and> gp_status g = S_ACTIVE) \<and>
     (\<exists>m \<in> members_of A. gm_tenant m = t \<and> gm_group m = gl_group l \<and> gm_subject m = s \<and> gm_status m = S_ACTIVE))"
    for l :: group_role and i
  proof (cases "gp_tenant w \<noteq> t \<or> gl_group l \<noteq> gp_id w")
    case True
    then show ?thesis by (simp only: same [of "gl_group l"])
  next
    case False
    then have "\<not> (\<exists>m \<in> members_of A. gm_tenant m = t \<and> gm_group m = gl_group l \<and> gm_subject m = s \<and> gm_status m = S_ACTIVE)"
      using no by metis
    then show ?thesis by blast
  qed
  then have "held_roles A' t s D = held_roles A t s D" unfolding held_roles_def e(2,4) by (simp only:)
  then show False using d granted_cong [OF e(3)] by blast
qed

lemma member_rights:
  assumes st: "stores A (MemberRecord w) A'" and d: "granted_scopes A' t s D \<noteq> granted_scopes A t s D"
  shows "gm_tenant w = t \<and> gm_subject w = s"
proof (rule ccontr)
  assume no: "\<not> (gm_tenant w = t \<and> gm_subject w = s)"
  have e: "members_of A' = insert w {v \<in> members_of A. (gm_tenant v, gm_group v, gm_subject v) \<noteq> (gm_tenant w, gm_group w, gm_subject w)}"
    "links_of A' = links_of A" "roles_of A' = roles_of A" "groups_of A' = groups_of A"
    using st by (simp_all add: stores_def)
  have "(\<exists>m \<in> members_of A'. gm_tenant m = t \<and> gm_group m = i \<and> gm_subject m = s \<and> gm_status m = S_ACTIVE) =
    (\<exists>m \<in> members_of A. gm_tenant m = t \<and> gm_group m = i \<and> gm_subject m = s \<and> gm_status m = S_ACTIVE)" for i
    unfolding e(1) by (rule bex_replaced) (use no in auto)
  then have "held_roles A' t s D = held_roles A t s D" unfolding held_roles_def e(2,4) by simp
  then show False using d granted_cong [OF e(3)] by blast
qed

lemma link_rights:
  assumes st: "stores A (LinkRecord w) A'" and d: "granted_scopes A' t s D \<noteq> granted_scopes A t s D"
  shows "gl_tenant w = t \<and> (\<exists>m \<in> members_of A. gm_tenant m = t \<and> gm_group m = gl_group w \<and> gm_subject m = s)"
proof (rule ccontr)
  assume no: "\<not> (gl_tenant w = t \<and> (\<exists>m \<in> members_of A. gm_tenant m = t \<and> gm_group m = gl_group w \<and> gm_subject m = s))"
  have e: "links_of A' = insert w {v \<in> links_of A. (gl_tenant v, gl_group v, gl_role v) \<noteq> (gl_tenant w, gl_group w, gl_role w)}"
    "members_of A' = members_of A" "roles_of A' = roles_of A" "groups_of A' = groups_of A"
    using st by (simp_all add: stores_def)
  define P where "P i l \<longleftrightarrow> gl_tenant l = t \<and> gl_status l = S_ACTIVE \<and> gl_role l = i \<and>
     (\<exists>g \<in> groups_of A. gp_tenant g = t \<and> gp_id g = gl_group l \<and> gp_status g = S_ACTIVE) \<and>
     (\<exists>m \<in> members_of A. gm_tenant m = t \<and> gm_group m = gl_group l \<and> gm_subject m = s \<and> gm_status m = S_ACTIVE)" for i and l :: group_role
  have "(\<exists>l \<in> links_of A'. P i l) = (\<exists>l \<in> links_of A. P i l)" for i
  proof -
    have "\<not> P i l" if "(gl_tenant l, gl_group l, gl_role l) = (gl_tenant w, gl_group w, gl_role w)" for l
      using no that unfolding P_def by (metis Pair_inject)
    then show ?thesis unfolding e(1) by (intro bex_replaced) blast
  qed
  then have "held_roles A' t s D = held_roles A t s D" unfolding held_roles_def e(2,4) by (simp add: P_def)
  then show False using d granted_cong [OF e(3)] by blast
qed

text \<open>An upsert changes the rights of the subjects it affects, or those held through a role directly.\<close>

lemma rights_changed:
  assumes u: "upserted l A S res A' S'" and d: "granted_scopes A' t s D \<noteq> granted_scopes A t s D"
  shows "(record_tenant (zr_record res) = t \<and> s \<in> set (zr_affected res)) \<or>
    (\<exists>r. zr_record res = RoleRecord r \<and> rl_tenant r = t \<and> rl_id r \<in> D)"
proof -
  have st: "stores A (zr_record res) A'" and a: "zr_affected res = affected_subject_ids A (zr_record res)"
    using u by (simp_all add: upserted_def)
  show ?thesis
  proof (cases "zr_record res")
    case (RoleRecord w)
    note r = role_rights [OF st [unfolded RoleRecord] d]
    show ?thesis
    proof (cases "rl_id w \<in> D")
      case True
      then show ?thesis using r RoleRecord by blast
    next
      case False
      then obtain l m where "l \<in> links_of A" "gl_tenant l = t" "gl_role l = rl_id w" "m \<in> members_of A" "gm_tenant m = t"
        "gm_group m = gl_group l" "gm_subject m = s" using member_role [OF conjunct2 [OF r]] by blast
      then have "s \<in> set (zr_affected res)" unfolding a RoleRecord affected_subject_ids.simps subjects_of_groups_iff
        using r by (intro bexI [of _ m]) auto
      then show ?thesis using r RoleRecord by simp
    qed
  next
    case (GroupRecord w)
    show ?thesis using group_rights [OF st [unfolded GroupRecord] d] by (simp add: a GroupRecord subjects_of_groups_iff)
  next
    case (MemberRecord w)
    show ?thesis using member_rights [OF st [unfolded MemberRecord] d] by (simp add: a MemberRecord)
  next
    case (LinkRecord w)
    show ?thesis using link_rights [OF st [unfolded LinkRecord] d] by (simp add: a LinkRecord subjects_of_groups_iff)
  qed
qed

text \<open>The sessions of the affected subjects are revoked when the repository is linked to them.\<close>

lemma affected_sessions_end:
  assumes u: "upserted True A S res A' S'" and inv: "sessions_inv S"
    and hit: "record_tenant (zr_record res) = ss_tenant s" "ss_subject s \<in> set (zr_affected res)" and m: "map_of S' i = Some s"
  shows "ss_status s \<noteq> L_ACTIVE"
proof -
  obtain now where "S' = snd (revoke_sessions_of S (record_tenant (zr_record res)) (zr_affected res) now)"
    using u hit(2) unfolding upserted_def by (metis empty_iff list.set(1))
  then show ?thesis using revoke_all_effect [OF inv, of "record_tenant (zr_record res)" "zr_affected res" now i s] m hit
    by (auto simp: session_evolves_def)
qed

subsection \<open>The resolver\<close>

lemma string_set_Inr:
  assumes "string_set xs f = Inr ys"
  shows "set ys = norm_text ` set xs" "distinct ys"
proof -
  let ?g = "map norm_text (filter (\<lambda>s. py_strip s \<noteq> []) xs)"
  have ys: "ys = remdups ?g" and len: "length (remdups ?g) = length xs"
    using assms by (simp_all add: string_set_def Let_def split: if_splits)
  have "length (remdups ?g) \<le> length (filter (\<lambda>s. py_strip s \<noteq> []) xs)" by (metis length_map length_remdups_leq)
  then have "filter (\<lambda>s. py_strip s \<noteq> []) xs = xs" using len length_filter_le [of "\<lambda>s. py_strip s \<noteq> []" xs]
    by (metis filter_id_conv length_filter_less nle_le not_less)
  then show "set ys = norm_text ` set xs" "distinct ys" by (simp_all add: ys)
qed

lemma string_set_clean: "clean_scopes ss \<Longrightarrow> string_set ss f = Inr ss"
proof -
  assume c: "clean_scopes ss"
  then have "filter (\<lambda>s. py_strip s \<noteq> []) ss = ss" "map norm_text ss = ss" "remdups ss = ss"
    by (simp_all add: clean_scopes_def map_idI filter_id_conv)
  then show ?thesis by (simp add: string_set_def)
qed

lemma union_scopes_Inr:
  assumes "\<And>i r. map_of R i = Some r \<Longrightarrow> clean_scopes (rl_scopes r)"
  shows "\<exists>ss. union_scopes R is = Inr ss \<and> set ss = {x. \<exists>i \<in> set is. \<exists>r. map_of R i = Some r \<and> x \<in> set (rl_scopes r)}"
proof (induction "is")
  case (Cons i "is")
  then obtain ss where ss: "union_scopes R is = Inr ss"
    "set ss = {x. \<exists>i \<in> set is. \<exists>r. map_of R i = Some r \<and> x \<in> set (rl_scopes r)}" by blast
  show ?case
  proof (cases "map_of R i")
    case None
    then show ?thesis using ss by auto
  next
    case (Some r)
    then have "string_set (rl_scopes r) ''role.scopes'' = Inr (rl_scopes r)" using assms by (intro string_set_clean)
    then show ?thesis using ss Some by auto
  qed
qed simp

lemma keyed_fold:
  "distinct (map i xs) \<Longrightarrow> fold (\<lambda>x. dict_put (i x) x) xs [] = map (\<lambda>x. (i x, x)) xs"
  by (simp add: fold_dict_put)

lemma tenant_roles_distinct:
  "authz_inv A \<Longrightarrow> distinct (map rl_id (filter (\<lambda>r. rl_tenant r = t \<and> rl_status r = S_ACTIVE) (map snd (az_roles A))))"
  by (rule role_store.distinct_selected) (auto simp: authz_inv_def)

lemma tenant_groups_distinct:
  "authz_inv A \<Longrightarrow> distinct (map gp_id (filter (\<lambda>g. gp_tenant g = t \<and> gp_status g = S_ACTIVE) (map snd (az_groups A))))"
  by (rule group_store.distinct_selected) (auto simp: authz_inv_def)

lemma authz_ref_ok: "registry_id_ok s \<Longrightarrow> authz_ref s f = Inr s"
  by (simp add: authz_ref_def)

lemma selected_roles:
  "y \<in> Y \<Longrightarrow> y \<in> f ` {x. (x \<in> L \<and> T x) \<and> T x \<and> P x \<and> f x \<in> Y \<and> S x} \<longleftrightarrow>
    (\<exists>l \<in> L. T l \<and> S l \<and> f l = y \<and> P l)"
  by auto

text \<open>The resolver gives the direct grants and what the repository grants, and nothing else.\<close>

lemma resolve_grants:
  assumes inv: "authz_inv A" and r: "resolve_membership A m = Inr e"
  shows "set (ea_scopes e) = norm_text ` set (mb_scopes m) \<union>
      granted_scopes A (py_strip (mb_tenant m)) (py_strip (mb_subject m)) (norm_text ` set (mb_roles m))"
    "mb_status m = S_ACTIVE" "ea_tenant e = py_strip (mb_tenant m)" "ea_subject e = py_strip (mb_subject m)"
proof -
  obtain t s inp where ids: "resolver_ids m = Inr (t, s)" and act: "mb_status m = S_ACTIVE"
    and inp: "authorization_inputs A t s = Inr inp" and e: "resolve_effective_authorization m inp = Inr e"
    using r by (auto simp: resolve_membership_def res_simps case_prod_beta split: if_splits)
  have ts: "t = py_strip (mb_tenant m)" "s = py_strip (mb_subject m)" "registry_id_ok t" "registry_id_ok s"
    using ids by (auto simp: resolver_ids_def res_simps or_value_def)
  have inp': "inp = \<lparr>zi_roles = filter (\<lambda>r. rl_tenant r = t) (map snd (az_roles A)),
          zi_groups = filter (\<lambda>g. gp_tenant g = t) (map snd (az_groups A)),
          zi_members = filter (\<lambda>m. gm_tenant m = t \<and> gm_subject m = s) (map snd (az_members A)),
          zi_links = filter (\<lambda>l. gl_tenant l = t) (map snd (az_links A))\<rparr>"
    using inp ts by (simp add: authorization_inputs_def authz_ref_ok)
  define R where "R = filter (\<lambda>r. rl_tenant r = t \<and> rl_status r = S_ACTIVE) (map snd (az_roles A))"
  define G where "G = filter (\<lambda>g. gp_tenant g = t \<and> gp_status g = S_ACTIVE) (map snd (az_groups A))"
  have R: "fold (\<lambda>r d. dict_put (rl_id r) r d) (filter (\<lambda>r. rl_tenant r = t \<and> rl_status r = S_ACTIVE) (zi_roles inp)) [] =
    map (\<lambda>r. (rl_id r, r)) R"
    using keyed_fold [OF tenant_roles_distinct [OF inv]] by (simp add: R_def inp' conj_commute conj_left_commute)
  have G: "fold (\<lambda>g d. dict_put (gp_id g) g d) (filter (\<lambda>g. gp_tenant g = t \<and> gp_status g = S_ACTIVE) (zi_groups inp)) [] =
    map (\<lambda>g. (gp_id g, g)) G"
    using keyed_fold [OF tenant_groups_distinct [OF inv]] by (simp add: G_def inp' conj_commute conj_left_commute)
  define mg where "mg = remdups (map gm_group (filter (\<lambda>x. gm_tenant x = t \<and> gm_subject x = s \<and>
           gm_status x = S_ACTIVE \<and> gm_group x \<in> fst ` set (map (\<lambda>g. (gp_id g, g)) G)) (zi_members inp)))"
  define gr where "gr = remdups (map gl_role (filter (\<lambda>l. gl_tenant l = t \<and> gl_group l \<in> set mg \<and>
           gl_role l \<in> fst ` set (map (\<lambda>r. (rl_id r, r)) R) \<and> gl_status l = S_ACTIVE) (zi_links inp)))"
  have ne: "(mb_status m \<noteq> S_ACTIVE) = False" by (simp add: act)
  obtain dr ds where dr: "string_set (mb_roles m) ''roles'' = Inr dr" and ds: "string_set (mb_scopes m) ''scopes'' = Inr ds"
    using e unfolding resolve_effective_authorization_def ids sbind_simps prod.case ne if_False sbind_eq_Inr by blast
  obtain rs where rs: "union_scopes (map (\<lambda>r. (rl_id r, r)) R) (sorted_set (dr @ gr)) = Inr rs"
    and e': "ea_scopes e = sorted_set (ds @ rs)" "ea_tenant e = t" "ea_subject e = s"
    using e unfolding resolve_effective_authorization_def ids sbind_simps prod.case ne if_False dr ds Let_def R G
      mg_def [symmetric] gr_def [symmetric] sbind_eq_Inr sum.inject by force
  show "mb_status m = S_ACTIVE" "ea_tenant e = py_strip (mb_tenant m)" "ea_subject e = py_strip (mb_subject m)"
    using act e' ts by simp_all
  have Rm: "map_of (map (\<lambda>r. (rl_id r, r)) R) i = Some r \<longleftrightarrow> r \<in> set R \<and> rl_id r = i" for i r
    using tenant_roles_distinct [OF inv, of t] by (intro map_of_keyed) (simp add: R_def)
  have clean: "clean_scopes (rl_scopes r)" if "r \<in> set R" for r
  proof -
    obtain k where "(k, r) \<in> set (az_roles A)" using \<open>r \<in> set R\<close> by (auto simp: R_def)
    then show ?thesis using inv unfolding authz_inv_def by blast
  qed
  have "set rs = {x. \<exists>i \<in> set (sorted_set (dr @ gr)). \<exists>r. r \<in> set R \<and> rl_id r = i \<and> x \<in> set (rl_scopes r)}"
    using union_scopes_Inr [of "map (\<lambda>r. (rl_id r, r)) R" "sorted_set (dr @ gr)"] rs clean by (auto simp: Rm)
  then have rs': "set rs = {x. \<exists>r \<in> set R. rl_id r \<in> set dr \<union> set gr \<and> x \<in> set (rl_scopes r)}"
    by (auto simp: sorted_set_def)
  have Gs: "i \<in> fst ` set (map (\<lambda>g. (gp_id g, g)) G) \<longleftrightarrow>
      (\<exists>g \<in> groups_of A. gp_tenant g = t \<and> gp_id g = i \<and> gp_status g = S_ACTIVE)" for i
    unfolding G_def set_map set_filter by force
  have mgs: "i \<in> set mg \<longleftrightarrow> (\<exists>g \<in> groups_of A. gp_tenant g = t \<and> gp_id g = i \<and> gp_status g = S_ACTIVE) \<and>
      (\<exists>m \<in> members_of A. gm_tenant m = t \<and> gm_group m = i \<and> gm_subject m = s \<and> gm_status m = S_ACTIVE)" for i
    unfolding mg_def Gs unfolding set_remdups set_map set_filter inp' authz_inputs.simps by blast
  have Rs: "i \<in> fst ` set (map (\<lambda>r. (rl_id r, r)) R) \<longleftrightarrow> i \<in> rl_id ` set R" for i by force
  have grs: "rl_id r \<in> set dr \<union> set gr \<longleftrightarrow> rl_id r \<in> held_roles A t s (norm_text ` set (mb_roles m))" if "r \<in> set R" for r
    unfolding string_set_Inr(1) [OF dr] held_roles_def gr_def mgs Rs
    unfolding set_remdups set_map set_filter inp' authz_inputs.simps Un_iff
    by (simp only: selected_roles [OF imageI [OF that, of rl_id]] mem_Collect_eq)
  have "set rs = granted_scopes A t s (norm_text ` set (mb_roles m))"
    proof -
    have "r \<in> set R \<longleftrightarrow> r \<in> roles_of A \<and> rl_tenant r = t \<and> rl_status r = S_ACTIVE" for r by (auto simp: R_def)
    then show ?thesis unfolding rs' granted_scopes_def using grs by blast
  qed
  then show "set (ea_scopes e) = norm_text ` set (mb_scopes m) \<union>
      granted_scopes A (py_strip (mb_tenant m)) (py_strip (mb_subject m)) (norm_text ` set (mb_roles m))"
    using string_set_Inr(1) [OF ds] by (simp add: e' sorted_set_def ts)
qed

end
