(* ===== verification/Oa_System.thy ===== *)
theory Oa_System
  imports Oa_Rights
begin

section \<open>The OA service as a system\<close>

text \<open>
  The registries, the sessions, the audit trail and the authorization repository as
  \<^verbatim>\<open>services/nex-oa/nex_oa/main.py\<close> wires them: every operation of \<^verbatim>\<open>subjects.py\<close>,
  \<^verbatim>\<open>memberships.py\<close>, \<^verbatim>\<open>sessions.py\<close>, \<^verbatim>\<open>identity_lifecycle_service.py\<close> and
  \<^verbatim>\<open>authorization_repository.py\<close> that changes the state is a step. A session id is fresh and not
  blank (it is a random identifier), and the clock is in the range of dates.
\<close>

record oa_system =
  os_state :: oa_state
  os_authz :: authz

abbreviation os_members :: "oa_system \<Rightarrow> membership_registry" where
  "os_members x \<equiv> oa_members (os_state x)"

abbreviation os_sessions :: "oa_system \<Rightarrow> sessions" where
  "os_sessions x \<equiv> oa_sessions (os_state x)"

definition set_members :: "membership_registry \<Rightarrow> oa_system \<Rightarrow> oa_system" where
  "set_members R x = x\<lparr>os_state := (os_state x)\<lparr>oa_members := R\<rparr>\<rparr>"

definition set_sessions :: "sessions \<Rightarrow> oa_system \<Rightarrow> oa_system" where
  "set_sessions S x = x\<lparr>os_state := (os_state x)\<lparr>oa_sessions := S\<rparr>\<rparr>"

definition oa_start :: oa_system where
  "oa_start = \<lparr>os_state = \<lparr>oa_members = \<lparr>mr_subjects = \<lparr>sr_tenants = [], sr_subjects = []\<rparr>, mr_memberships = []\<rparr>,
     oa_sessions = [], oa_trail = []\<rparr>, os_authz = empty_authz\<rparr>"

inductive oa_step :: "oa_system \<Rightarrow> oa_system \<Rightarrow> bool" where
  subject: "ensure_subject (mr_subjects (os_members x)) payload now = (r, R) \<Longrightarrow>
    oa_step x (set_members ((os_members x)\<lparr>mr_subjects := R\<rparr>) x)"
| membership: "ensure_membership (os_members x) payload now = (r, R) \<Longrightarrow> oa_step x (set_members R x)"
| subject_status: "transition_subject True (os_state x) ti si payload ctx eid now = Inr (res, st) \<Longrightarrow>
    oa_step x (x\<lparr>os_state := st\<rparr>)"
| membership_status: "transition_membership True (os_state x) ti si payload ctx eid now = Inr (res, st) \<Longrightarrow>
    oa_step x (x\<lparr>os_state := st\<rparr>)"
| issue: "issue_session (os_members x) (Some (resolved_grants (os_authz x))) (os_sessions x) payload sid now stored = (r, S) \<Longrightarrow>
    map_of (os_sessions x) sid = None \<Longrightarrow> sid \<noteq> [] \<Longrightarrow> py_strip sid = sid \<Longrightarrow> in_range now \<Longrightarrow>
    oa_step x (set_sessions S x)"
| introspect: "introspect_session (os_sessions x) payload clk = (r, S) \<Longrightarrow> in_range (clk 0) \<Longrightarrow> oa_step x (set_sessions S x)"
| revoke: "revoke_session (os_sessions x) sid now = (r, S) \<Longrightarrow> oa_step x (set_sessions S x)"
| rights: "upsert True (os_authz x) (os_sessions x) res A S \<Longrightarrow> oa_step x ((set_sessions S x)\<lparr>os_authz := A\<rparr>)"

abbreviation oa_steps :: "oa_system \<Rightarrow> oa_system \<Rightarrow> bool" where
  "oa_steps \<equiv> oa_step\<^sup>*\<^sup>*"

subsection \<open>The audit trail as a history\<close>

text \<open>What the events of an identity say, read from a status and a revision on.\<close>

fun replay :: "lifecycle_entity \<Rightarrow> identity_status \<times> int \<Rightarrow> identity_event list \<Rightarrow> (identity_status \<times> int) option" where
  "replay e q [] = Some q"
| "replay e q (v # vs) =
     (if (iv_previous v, iv_previous_revision v) = q \<and> iv_target v \<in> set (ALLOWED e (fst q)) \<and> iv_next_revision v = snd q + 1
      then replay e (iv_target v, snd q + 1) vs else None)"

definition events_of :: "identity_event list \<Rightarrow> lifecycle_entity \<Rightarrow> string \<times> string \<Rightarrow> identity_event list" where
  "events_of T e k = filter (\<lambda>v. iv_entity v = e \<and> (iv_tenant v, iv_subject v) = k) T"

lemma replay_append: "replay e q (vs @ ws) = Option.bind (replay e q vs) (\<lambda>q'. replay e q' ws)"
  by (induction vs arbitrary: q) auto

lemma replay_revision: "replay e q vs = Some q' \<Longrightarrow> snd q' = snd q + int (length vs)"
  by (induction vs arbitrary: q) (fastforce split: if_splits)+

text \<open>The trail explains the standing of every identity.\<close>

definition explained :: "oa_state \<Rightarrow> bool" where
  "explained st \<longleftrightarrow> (\<forall>e k. standing st e k = None \<longrightarrow> events_of (oa_trail st) e k = []) \<and>
     (\<forall>e k q. standing st e k = Some q \<longrightarrow> (\<exists>a. replay e (a, 1) (events_of (oa_trail st) e k) = Some q))"

lemma moved_explained:
  assumes x: "explained st" and m: "moved st e k st'"
  shows "explained st'"
proof -
  obtain a r b ev now where q: "standing st e k = Some (a, r)" "b \<in> set (ALLOWED e a)"
    and s: "\<And>e' k'. standing st' e' k' = (if e' = e \<and> k' = k then Some (b, r + 1) else standing st e' k')"
    and t: "oa_trail st' = oa_trail st @ [ev]" "iv_entity ev = e" "(iv_tenant ev, iv_subject ev) = k"
      "iv_previous ev = a" "iv_target ev = b" "iv_previous_revision ev = r" "iv_next_revision ev = r + 1"
    using m unfolding moved_def by blast
  have ev: "events_of (oa_trail st') e' k' = events_of (oa_trail st) e' k' @ (if e' = e \<and> k' = k then [ev] else [])" for e' k'
    using t(2,3) by (auto simp: events_of_def t(1))
  obtain a0 where a0: "replay e (a0, 1) (events_of (oa_trail st) e k) = Some (a, r)"
    using x q(1) unfolding explained_def by blast
  have "replay e (a0, 1) (events_of (oa_trail st') e k) = Some (b, r + 1)"
    using a0 q(2) t(4-7) by (simp add: ev replay_append)
  then have "(\<exists>a. replay e' (a, 1) (events_of (oa_trail st') e' k') = Some q)" if "standing st' e' k' = Some q" for e' k' q
  proof (cases "e' = e \<and> k' = k")
    case True
    then have "q = (b, r + 1)" using that by (simp add: s)
    then show ?thesis using \<open>replay e (a0, 1) (events_of (oa_trail st') e k) = Some (b, r + 1)\<close> True by blast
  next
    case False
    then have "standing st e' k' = Some q" "events_of (oa_trail st') e' k' = events_of (oa_trail st) e' k'"
      using that by (auto simp: s ev)
    then show ?thesis using x unfolding explained_def by metis
  qed
  moreover have "events_of (oa_trail st') e' k' = []" if "standing st' e' k' = None" for e' k'
  proof -
    have no: "\<not> (e' = e \<and> k' = k)" "standing st e' k' = None" using that by (auto simp: s split: if_splits)
    from no(2) have "events_of (oa_trail st) e' k' = []" using x unfolding explained_def by blast
    then show ?thesis using no(1) by (simp add: ev)
  qed
  ultimately show ?thesis unfolding explained_def by blast
qed

lemma standing_sessions [simp]: "standing (st\<lparr>oa_sessions := S\<rparr>) e k = standing st e k"
  by (cases e) (simp_all add: standing_def find_subject_def find_membership_def)

lemma explained_sessions [simp]: "explained (st\<lparr>oa_sessions := S\<rparr>) = explained st"
  by (simp add: explained_def)

subsection \<open>New identities have revision 1\<close>

lemma build_subject_revision: "build_subject_record payload t now = Inr s \<Longrightarrow> sj_revision s = 1"
  by (auto simp: build_subject_record_def res_simps)

lemma build_membership_revision: "build_membership_record payload p now = Inr m \<Longrightarrow> mb_revision m = 1"
  by (auto simp: build_membership_record_def res_simps)

lemma ensure_subject_new:
  assumes "subjects_inv R" "ensure_subject R payload now = (r, R')" "map_of (sr_subjects R') k = Some s"
  shows "map_of (sr_subjects R) k = Some s \<or> (map_of (sr_subjects R) k = None \<and> sj_revision s = 1)"
proof (cases "ensure_tenant R payload now")
  case (Inl x)
  then show ?thesis using assms by (simp add: ensure_subject_def)
next
  case (Inr p)
  obtain t R1 where p: "p = (t, R1)" by (cases p)
  have R1: "sr_subjects R1 = sr_subjects R" using ensure_tenant_Inr(4) [OF assms(1) Inr [unfolded p]] .
  show ?thesis
  proof (cases "build_subject_record payload t now")
    case (Inl x)
    then show ?thesis using assms(2,3) R1 by (simp add: ensure_subject_def Inr p)
  next
    case (Inr u)
    show ?thesis
    proof (cases "map_of (sr_subjects R1) (sj_tenant u, sj_id u)")
      case None
      then have "R' = R1\<lparr>sr_subjects := dict_put (sj_tenant u, sj_id u) u (sr_subjects R1)\<rparr>"
        using assms(2) by (simp add: ensure_subject_def \<open>ensure_tenant R payload now = Inr p\<close> p Inr)
      then show ?thesis using assms(3) None R1 build_subject_revision [OF Inr]
        by (cases "k = (sj_tenant u, sj_id u)") simp_all
    next
      case (Some old)
      then show ?thesis using assms(2,3) R1
        by (simp add: ensure_subject_def \<open>ensure_tenant R payload now = Inr p\<close> p Inr)
    qed
  qed
qed

lemma ensure_membership_new:
  assumes inv: "memberships_inv R" and e: "ensure_membership R payload now = (r, R')"
  shows "map_of (mr_memberships R') k = Some m \<Longrightarrow>
      map_of (mr_memberships R) k = Some m \<or> (map_of (mr_memberships R) k = None \<and> mb_revision m = 1)"
    "map_of (sr_subjects (mr_subjects R')) k = Some s \<Longrightarrow>
      map_of (sr_subjects (mr_subjects R)) k = Some s \<or> (map_of (sr_subjects (mr_subjects R)) k = None \<and> sj_revision s = 1)"
proof -
  obtain q S where S: "ensure_subject (mr_subjects R) payload now = (q, S)" by (metis surj_pair)
  let ?R1 = "R\<lparr>mr_subjects := S\<rparr>"
  consider (same) "R' = ?R1" | (new) snap u where "build_membership_record payload snap now = Inr u"
      "map_of (mr_memberships R) (mb_tenant u, mb_subject u) = None"
      "R' = ?R1\<lparr>mr_memberships := dict_put (mb_tenant u, mb_subject u) u (mr_memberships R)\<rparr>"
  proof (cases q)
    case (Inl x)
    then show thesis using e same by (simp add: ensure_membership_def S)
  next
    case (Inr snap)
    show thesis
    proof (cases "build_membership_record payload snap now")
      case (Inl x)
      then show thesis using e same \<open>q = Inr snap\<close> by (simp add: ensure_membership_def S)
    next
      case (Inr u)
      then show thesis using e same new \<open>q = Inr snap\<close>
        by (cases "map_of (mr_memberships R) (mb_tenant u, mb_subject u)") (simp_all add: ensure_membership_def S)
    qed
  qed
  note cases = this
  have "mr_subjects R' = S" by (rule cases) simp_all
  then show "map_of (sr_subjects (mr_subjects R')) k = Some s \<Longrightarrow>
      map_of (sr_subjects (mr_subjects R)) k = Some s \<or> (map_of (sr_subjects (mr_subjects R)) k = None \<and> sj_revision s = 1)"
    using ensure_subject_new [OF memberships_inv_subjects [OF inv] S] by simp
  assume m: "map_of (mr_memberships R') k = Some m"
  show "map_of (mr_memberships R) k = Some m \<or> (map_of (mr_memberships R) k = None \<and> mb_revision m = 1)"
  proof (rule cases)
    assume "R' = ?R1"
    then show ?thesis using m by simp
  next
    fix snap u assume u: "build_membership_record payload snap now = Inr u"
      "map_of (mr_memberships R) (mb_tenant u, mb_subject u) = None"
      "R' = ?R1\<lparr>mr_memberships := dict_put (mb_tenant u, mb_subject u) u (mr_memberships R)\<rparr>"
    then show ?thesis using m build_membership_revision [OF u(1)]
      by (cases "k = (mb_tenant u, mb_subject u)") simp_all
  qed
qed

text \<open>Ensuring identities keeps every standing and adds new ones at revision 1.\<close>

definition grown :: "oa_state \<Rightarrow> oa_state \<Rightarrow> bool" where
  "grown st st' \<longleftrightarrow> oa_sessions st' = oa_sessions st \<and> oa_trail st' = oa_trail st \<and>
     (\<forall>e k q. standing st e k = Some q \<longrightarrow> standing st' e k = Some q) \<and>
     (\<forall>e k q. standing st e k = None \<longrightarrow> standing st' e k = Some q \<longrightarrow> snd q = 1)"

lemma grown_explained:
  assumes x: "explained st" and g: "grown st st'"
  shows "explained st'"
proof -
  have t: "oa_trail st' = oa_trail st" using g by (simp add: grown_def)
  have "events_of (oa_trail st) e k = []" if "standing st' e k = None" for e k
  proof (cases "standing st e k")
    case None
    then show ?thesis using x unfolding explained_def by blast
  next
    case (Some q)
    then have "standing st' e k = Some q" using g unfolding grown_def by blast
    then show ?thesis using that by simp
  qed
  moreover have "\<exists>a. replay e (a, 1) (events_of (oa_trail st) e k) = Some q" if q: "standing st' e k = Some q" for e k q
  proof (cases "standing st e k")
    case None
    then have "events_of (oa_trail st) e k = []" "snd q = 1" using x g q unfolding explained_def grown_def by blast+
    then show ?thesis by (intro exI [of _ "fst q"]) (simp add: prod_eq_iff)
  next
    case (Some q')
    then have "standing st' e k = Some q'" using g unfolding grown_def by blast
    then have "q' = q" using q by simp
    then show ?thesis using Some x unfolding explained_def by blast
  qed
  ultimately show ?thesis unfolding explained_def t by blast
qed

lemma grown_members:
  assumes "\<And>k s. map_of (sr_subjects (mr_subjects (oa_members st))) k = Some s \<Longrightarrow> map_of (sr_subjects (mr_subjects R)) k = Some s"
    "\<And>k m. map_of (mr_memberships (oa_members st)) k = Some m \<Longrightarrow> map_of (mr_memberships R) k = Some m"
    "\<And>k s. map_of (sr_subjects (mr_subjects R)) k = Some s \<Longrightarrow>
      map_of (sr_subjects (mr_subjects (oa_members st))) k = Some s \<or> (map_of (sr_subjects (mr_subjects (oa_members st))) k = None \<and> sj_revision s = 1)"
    "\<And>k m. map_of (mr_memberships R) k = Some m \<Longrightarrow>
      map_of (mr_memberships (oa_members st)) k = Some m \<or> (map_of (mr_memberships (oa_members st)) k = None \<and> mb_revision m = 1)"
  shows "grown st (st\<lparr>oa_members := R\<rparr>)"
proof -
  have "(\<forall>q. standing st e k = Some q \<longrightarrow> standing (st\<lparr>oa_members := R\<rparr>) e k = Some q) \<and>
    (\<forall>q. standing st e k = None \<longrightarrow> standing (st\<lparr>oa_members := R\<rparr>) e k = Some q \<longrightarrow> snd q = 1)" for e k
  proof (cases e)
    case SUBJECT_ENTITY
    show ?thesis
    proof (cases "map_of (sr_subjects (mr_subjects (oa_members st))) k")
      case None
      then show ?thesis using assms(3) [of k]
        by (cases "map_of (sr_subjects (mr_subjects R)) k") (simp_all add: standing_def find_subject_def SUBJECT_ENTITY)
    next
      case (Some s)
      then show ?thesis using assms(1) [OF Some] by (simp add: standing_def find_subject_def SUBJECT_ENTITY)
    qed
  next
    case MEMBERSHIP_ENTITY
    show ?thesis
    proof (cases "map_of (mr_memberships (oa_members st)) k")
      case None
      then show ?thesis using assms(4) [of k]
        by (cases "map_of (mr_memberships R) k") (simp_all add: standing_def find_membership_def MEMBERSHIP_ENTITY)
    next
      case (Some s)
      then show ?thesis using assms(2) [OF Some] by (simp add: standing_def find_membership_def MEMBERSHIP_ENTITY)
    qed
  qed
  then show ?thesis unfolding grown_def by simp
qed

subsection \<open>Sessions\<close>

definition evolved :: "sessions \<Rightarrow> sessions \<Rightarrow> bool" where
  "evolved S S' \<longleftrightarrow> (\<forall>k. rel_option session_evolves (map_of S k) (map_of S' k))"

lemma evolved_refl [simp]: "evolved S S"
  by (simp add: evolved_def option.rel_refl)

lemma evolved_put:
  assumes "sessions_inv S" "map_of S i = Some s" "session_evolves s s'" "session_wf s'"
  shows "evolved S (dict_put i s' S)" "sessions_inv (dict_put i s' S)"
proof -
  show "evolved S (dict_put i s' S)" using assms(2,3) by (simp add: evolved_def option.rel_refl)
  have "i = ss_id s" using assms(1,2) unfolding sessions_inv_def by blast
  then have i: "i = ss_id s'" using assms(3) by (simp add: session_evolves_def)
  have u: "k = ss_id u \<and> session_wf u" if "map_of (dict_put i s' S) k = Some u" for k u
  proof (cases "k = i")
    case True
    then show ?thesis using that i assms(4) by simp
  next
    case False
    then have "map_of S k = Some u" using that by simp
    then show ?thesis using assms(1) unfolding sessions_inv_def by blast
  qed
  have d: "distinct (map fst S)" using assms(1) unfolding sessions_inv_def by blast
  show "sessions_inv (dict_put i s' S)" unfolding sessions_inv_def distinct_dict_put using d u by blast
qed

lemma evolved_revoked: "sessions_inv S \<Longrightarrow> evolved S (snd (revoke_sessions_of S t sis now))"
  unfolding evolved_def
proof
  fix k assume inv: "sessions_inv S"
  show "rel_option session_evolves (map_of S k) (map_of (snd (revoke_sessions_of S t sis now)) k)"
  proof (cases "map_of S k")
    case (Some s)
    then have "session_wf s" using inv unfolding sessions_inv_def by blast
    then show ?thesis using Some revoked_record(2) [of s now] by (simp add: map_of_revoked)
  qed (simp add: map_of_revoked)
qed

lemma introspect_effect:
  assumes inv: "sessions_inv S" and r: "introspect_session S payload clk = (r, S')" and now: "in_range (clk 0)"
  shows "evolved S S'" "sessions_inv S'"
proof -
  consider (same) "S' = S" | (put) i s s' where "map_of S i = Some s" "refresh_session_for_introspection s (clk 0) = Inr s'"
      "S' = dict_put i s' S"
  proof (cases "normalize_session_introspection_request payload")
    case (Inl e)
    then show thesis using r same by (simp add: introspect_session_def)
  next
    case (Inr i)
    show thesis
    proof (cases "map_of S i")
      case None
      then show thesis using r same Inr by (simp add: introspect_session_def)
    next
      case (Some s)
      show thesis
      proof (cases "refresh_session_for_introspection s (clk 0)")
        case (Inl e)
        then have "S' = S" using r Some \<open>normalize_session_introspection_request payload = Inr i\<close>
          by (simp add: introspect_session_def)
        then show thesis by (rule same)
      next
        case (Inr s')
        then have "S' = dict_put i s' S" using r Some \<open>normalize_session_introspection_request payload = Inr i\<close>
          by (simp add: introspect_session_def)
        then show thesis by (rule put [OF Some Inr])
      qed
    qed
  qed
  then have "evolved S S' \<and> sessions_inv S'"
  proof cases
    case put
    then have "session_wf s" using inv unfolding sessions_inv_def by blast
    then have s': "session_wf s'" "session_evolves s s'" using refresh_Inr [OF put(2) _ now] by simp_all
    show ?thesis unfolding put(3) using evolved_put [OF inv put(1) s'(2,1)] by blast
  qed (use inv in simp)
  then show "evolved S S'" "sessions_inv S'" by blast+
qed

lemma revoke_effect:
  assumes inv: "sessions_inv S" and r: "revoke_session S sid now = (r, S')"
  shows "evolved S S'" "sessions_inv S'"
proof -
  consider (same) "S' = S" | (put) i s where "map_of S i = Some s"
      "S' = dict_put i (fst (build_revoked_session_record s now)) S"
  proof (cases "session_text (PStr sid) ''session_id''")
    case (Inl e)
    then show thesis using r same by (simp add: revoke_session_def)
  next
    case (Inr i)
    show thesis
    proof (cases "map_of S i")
      case None
      then have "S' = S" using r Inr by (simp add: revoke_session_def)
      then show thesis by (rule same)
    next
      case (Some s)
      then have "S' = dict_put i (fst (build_revoked_session_record s now)) S"
        using r Inr by (simp add: revoke_session_def case_prod_beta)
      then show thesis by (rule put [OF Some])
    qed
  qed
  then have "evolved S S' \<and> sessions_inv S'"
  proof cases
    case put
    then have "session_wf s" using inv unfolding sessions_inv_def by blast
    then show ?thesis unfolding put(2) using evolved_put [OF inv put(1) revoked_record(2,1)] by blast
  qed (use inv in simp)
  then show "evolved S S'" "sessions_inv S'" by blast+
qed

text \<open>What issuing a session stores: within the rights of an active membership, for at most a day.\<close>

definition issued_for :: "membership_registry \<Rightarrow> (membership \<Rightarrow> oa_exn + grants) \<Rightarrow> int \<Rightarrow> session \<Rightarrow> bool" where
  "issued_for R f now s \<longleftrightarrow> session_wf s \<and> ss_status s = L_ACTIVE \<and> ss_issued s = wire_timestamp now \<and>
     (\<exists>m g. map_of (mr_memberships R) (ss_tenant s, ss_subject s) = Some m \<and> mb_status m = S_ACTIVE \<and> f m = Inr g \<and>
       set (ss_scopes s) \<subseteq> py_strip ` set (gr_scopes g))"

lemma issue_effect:
  assumes mem: "memberships_inv R" and now: "in_range now"
    and r: "issue_session R (Some f) S payload sid now stored = (r, S')"
  shows "(S' = S \<and> (\<exists>e. r = Inl e)) \<or> (\<exists>s. S' = dict_put sid s S \<and> ss_id s = sid \<and> issued_for R f now s \<and> r = build_browser_session_snapshot s)"
proof (cases "S' = S \<and> (\<exists>e. r = Inl e)")
  case False
  then obtain q m t u h c s where
    q: "normalize_session_issue_request payload = Inr q"
    and m: "required_active_membership R (iq_tenant q) (iq_subject q) = Inr (m, t, u)"
    and h: "f m = Inr h" and c: "claims_for_membership m q (Some h) now = Inr c"
    and s: "build_session_record c sid stored = Inr s" and S': "S' = dict_put (ss_id s) s S" "r = build_browser_session_snapshot s"
    using r by (auto simp: issue_session_def res_simps split: sum.splits)
  note iq = issue_request_Inr [OF q]
  have g: "get_membership R (iq_tenant q) (iq_subject q) = Inr (Some (m, t, u))" "mb_status m = S_ACTIVE"
    using m by (auto simp: required_active_membership_def res_simps split: option.splits if_splits)
  note gm = get_membership_Inr(1) [OF mem g(1)]
  note cl = claims_Inr [OF c iq(4) iq(5)]
  have bs: "session_wf s" "ss_id s = sid" "ss_status s = L_ACTIVE" "ss_tenant s = uc_tenant c" "ss_subject s = uc_user c"
    "ss_scopes s = uc_scopes c" "ss_roles s = uc_roles c" "ss_issued s = uc_issued c" "ss_expires s = uc_expires c"
    using build_session_Inr [OF s cl(6) now cl(7,8)] cl iq by simp_all
  have "map_of (mr_memberships R) (ss_tenant s, ss_subject s) = Some m" using gm iq cl by (simp add: bs)
  moreover have "set (ss_scopes s) \<subseteq> py_strip ` set (gr_scopes h)" using cl(10) by (simp add: bs)
  ultimately show ?thesis using g h bs cl(6) S' unfolding issued_for_def by metis
qed simp

end
