(* ===== verification/Oa_Invariants.thy ===== *)
theory Oa_Invariants
  imports Oa_System
begin

section \<open>The invariants of the OA service\<close>

text \<open>
  What every reachable state of \<open>Oa_System\<close> satisfies, and how one step changes a stored session or
  the standing of an identity.
\<close>

definition backed :: "oa_state \<Rightarrow> bool" where
  "backed st \<longleftrightarrow> (\<forall>k s. map_of (oa_sessions st) k = Some s \<longrightarrow>
     (\<exists>a n. standing st MEMBERSHIP_ENTITY (ss_tenant s, ss_subject s) = Some (a, n) \<and>
       (ss_status s = L_ACTIVE \<longrightarrow> a = S_ACTIVE)))"

definition named_sessions :: "sessions \<Rightarrow> bool" where
  "named_sessions S \<longleftrightarrow> (\<forall>k \<in> fst ` set S. k \<noteq> [] \<and> py_strip k = k)"

definition oa_inv :: "oa_system \<Rightarrow> bool" where
  "oa_inv x \<longleftrightarrow> memberships_inv (os_members x) \<and> sessions_inv (os_sessions x) \<and> named_sessions (os_sessions x) \<and>
     backed (os_state x) \<and> explained (os_state x) \<and> authz_inv (os_authz x)"

text \<open>How the standings of identities and the sessions may change.\<close>

definition identities_kept :: "oa_state \<Rightarrow> oa_state \<Rightarrow> bool" where
  "identities_kept st st' \<longleftrightarrow> (\<forall>e k a n. standing st e k = Some (a, n) \<longrightarrow>
     (\<exists>b m. standing st' e k = Some (b, m) \<and> n \<le> m \<and> (m = n \<longrightarrow> b = a) \<and> (a = S_DELETED \<longrightarrow> b = a \<and> m = n)))"

definition sessions_kept :: "sessions \<Rightarrow> sessions \<Rightarrow> bool" where
  "sessions_kept S S' \<longleftrightarrow> (\<forall>k s. map_of S k = Some s \<longrightarrow> (\<exists>s'. map_of S' k = Some s' \<and> session_evolves s s'))"

lemma kept_refl [simp]: "identities_kept st st" "sessions_kept S S"
  by (auto simp: identities_kept_def sessions_kept_def)

lemma identities_kept_trans:
  assumes "identities_kept a b" "identities_kept b c"
  shows "identities_kept a c"
  unfolding identities_kept_def
proof (intro allI impI)
  fix e k s n assume "standing a e k = Some (s, n)"
  then obtain s' n' where 1: "standing b e k = Some (s', n')" "n \<le> n'" "n' = n \<longrightarrow> s' = s" "s = S_DELETED \<longrightarrow> s' = s \<and> n' = n"
    using assms(1) unfolding identities_kept_def by blast
  then obtain s'' n'' where 2: "standing c e k = Some (s'', n'')" "n' \<le> n''" "n'' = n' \<longrightarrow> s'' = s'"
    "s' = S_DELETED \<longrightarrow> s'' = s' \<and> n'' = n'"
    using assms(2) unfolding identities_kept_def by blast
  have "n \<le> n''" "n'' = n \<longrightarrow> s'' = s" "s = S_DELETED \<longrightarrow> s'' = s \<and> n'' = n" using 1 2 by auto
  then show "\<exists>b m. standing c e k = Some (b, m) \<and> n \<le> m \<and> (m = n \<longrightarrow> b = s) \<and> (s = S_DELETED \<longrightarrow> b = s \<and> m = n)"
    using 2(1) by blast
qed

lemma sessions_kept_trans: "sessions_kept a b \<Longrightarrow> sessions_kept b c \<Longrightarrow> sessions_kept a c"
  unfolding sessions_kept_def by (metis session_evolves_trans)

lemma evolved_kept: "evolved S S' \<Longrightarrow> sessions_kept S S'"
  unfolding evolved_def sessions_kept_def by (metis option_rel_Some1)

lemma evolved_back: "evolved S S' \<Longrightarrow> map_of S' k = Some s' \<Longrightarrow> \<exists>s. map_of S k = Some s \<and> session_evolves s s'"
  unfolding evolved_def by (metis option_rel_Some2)

lemma evolved_keys: "evolved S S' \<Longrightarrow> fst ` set S' = fst ` set S"
proof -
  assume "evolved S S'"
  then have "map_of S' k = None \<longleftrightarrow> map_of S k = None" for k
    unfolding evolved_def by (metis option_rel_Some1 option_rel_Some2 not_None_eq)
  then show ?thesis by (metis map_of_eq_None_iff subsetI subset_antisym)
qed

subsection \<open>Each kind of step\<close>

lemma grown_kept: "grown st st' \<Longrightarrow> identities_kept st st'"
  unfolding grown_def identities_kept_def by blast

lemma grown_backed: "grown st st' \<Longrightarrow> backed st \<Longrightarrow> backed st'"
  unfolding grown_def backed_def by metis

lemma moved_kept: "moved st e k st' \<Longrightarrow> identities_kept st st'"
proof -
  assume "moved st e k st'"
  then obtain a r b where m: "standing st e k = Some (a, r)" "b \<in> set (ALLOWED e a)"
    "\<And>e' k'. standing st' e' k' = (if e' = e \<and> k' = k then Some (b, r + 1) else standing st e' k')"
    unfolding moved_def by blast
  then have "a \<noteq> S_DELETED" by (cases e) auto
  then show ?thesis using m unfolding identities_kept_def by auto
qed

lemma moved_evolved:
  assumes "sessions_inv (oa_sessions st)" "moved st e k st'"
  shows "evolved (oa_sessions st) (oa_sessions st')" "sessions_inv (oa_sessions st')"
proof -
  obtain b now where s: "oa_sessions st' = (if b = S_ACTIVE then oa_sessions st
      else snd (revoke_sessions_of (oa_sessions st) (fst k) [snd k] now))"
    using assms(2) unfolding moved_def by blast
  show "evolved (oa_sessions st) (oa_sessions st')" "sessions_inv (oa_sessions st')"
    using evolved_revoked [OF assms(1)] sessions_inv_revoked [OF assms(1)] assms(1) by (simp_all add: s)
qed

text \<open>After a membership or a subject stops being active, none of its sessions is active.\<close>

lemma moved_inactive:
  assumes inv: "sessions_inv (oa_sessions st)" and m: "moved st e k st'" and s: "map_of (oa_sessions st') i = Some s"
    and k: "(ss_tenant s, ss_subject s) = k" and act: "ss_status s = L_ACTIVE"
  shows "\<exists>n. standing st' e k = Some (S_ACTIVE, n)"
proof -
  obtain r b now where st': "standing st' e k = Some (b, r + 1)"
    "oa_sessions st' = (if b = S_ACTIVE then oa_sessions st
      else snd (revoke_sessions_of (oa_sessions st) (fst k) [snd k] now))"
    using m unfolding moved_def by auto
  have "b = S_ACTIVE"
  proof (rule ccontr)
    assume "b \<noteq> S_ACTIVE"
    then have "map_of (snd (revoke_sessions_of (oa_sessions st) (fst k) [snd k] now)) i = Some s" using s st'(2) by simp
    then obtain u where "session_evolves u s" "ss_status s = L_ACTIVE \<longrightarrow> s = u \<and> \<not> (ss_tenant u = fst k \<and> ss_subject u \<in> set [snd k])"
      using revoke_all_effect [OF inv] by blast
    then show False using act k by auto
  qed
  then show ?thesis using st'(1) by blast
qed

lemma moved_backed:
  assumes inv: "sessions_inv (oa_sessions st)" and b: "backed st" and m: "moved st e k st'"
  shows "backed st'"
  unfolding backed_def
proof (intro allI impI)
  fix i s assume s: "map_of (oa_sessions st') i = Some s"
  obtain u where u: "map_of (oa_sessions st) i = Some u" "session_evolves u s"
    using evolved_back [OF moved_evolved(1) [OF inv m] s] by blast
  have id: "ss_tenant u = ss_tenant s" "ss_subject u = ss_subject s" "ss_status s = L_ACTIVE \<longrightarrow> ss_status u = L_ACTIVE"
    using u(2) by (simp_all add: session_evolves_def)
  obtain a n where a: "standing st MEMBERSHIP_ENTITY (ss_tenant s, ss_subject s) = Some (a, n)" "ss_status s = L_ACTIVE \<longrightarrow> a = S_ACTIVE"
    using b u(1) id unfolding backed_def by metis
  show "\<exists>a n. standing st' MEMBERSHIP_ENTITY (ss_tenant s, ss_subject s) = Some (a, n) \<and> (ss_status s = L_ACTIVE \<longrightarrow> a = S_ACTIVE)"
  proof (cases "e = MEMBERSHIP_ENTITY \<and> (ss_tenant s, ss_subject s) = k")
    case True
    show ?thesis
    proof (cases "ss_status s = L_ACTIVE")
      case act: True
      then show ?thesis using moved_inactive [OF inv m s] True by blast
    next
      case False
      obtain b r where "standing st' e k = Some (b, r)" using m unfolding moved_def by auto
      then show ?thesis using True False by blast
    qed
  next
    case False
    have "standing st' MEMBERSHIP_ENTITY (ss_tenant s, ss_subject s) = standing st MEMBERSHIP_ENTITY (ss_tenant s, ss_subject s)"
    proof -
      obtain b r where "\<And>e' k'. standing st' e' k' = (if e' = e \<and> k' = k then Some (b, r + 1) else standing st e' k')"
        using m unfolding moved_def by blast
      moreover have "\<not> (MEMBERSHIP_ENTITY = e \<and> (ss_tenant s, ss_subject s) = k)" using False by blast
      ultimately show ?thesis by (simp only: if_False)
    qed
    then show ?thesis using a by metis
  qed
qed

lemma evolved_backed:
  assumes "evolved (oa_sessions st) S" "backed st"
  shows "backed (st\<lparr>oa_sessions := S\<rparr>)"
  unfolding backed_def
proof (intro allI impI)
  fix i s assume "map_of (oa_sessions (st\<lparr>oa_sessions := S\<rparr>)) i = Some s"
  then obtain u where u: "map_of (oa_sessions st) i = Some u" "session_evolves u s"
    using evolved_back [OF assms(1)] by (metis oa_state.select_convs(2) oa_state.update_convs(2) oa_state.surjective)
  have id: "ss_tenant u = ss_tenant s" "ss_subject u = ss_subject s" "ss_status s = L_ACTIVE \<longrightarrow> ss_status u = L_ACTIVE"
    using u(2) by (simp_all add: session_evolves_def)
  show "\<exists>a n. standing (st\<lparr>oa_sessions := S\<rparr>) MEMBERSHIP_ENTITY (ss_tenant s, ss_subject s) = Some (a, n) \<and>
      (ss_status s = L_ACTIVE \<longrightarrow> a = S_ACTIVE)"
    using assms(2) u(1) id unfolding backed_def standing_sessions by metis
qed

lemma issued_backed:
  assumes b: "backed st" and s: "issued_for (oa_members st) f now s"
  shows "backed (st\<lparr>oa_sessions := dict_put i s (oa_sessions st)\<rparr>)"
  unfolding backed_def standing_sessions
proof (intro allI impI)
  fix k u assume "map_of (oa_sessions (st\<lparr>oa_sessions := dict_put i s (oa_sessions st)\<rparr>)) k = Some u"
  then have "k = i \<and> u = s \<or> map_of (oa_sessions st) k = Some u" by (cases "k = i") simp_all
  then show "\<exists>a n. standing st MEMBERSHIP_ENTITY (ss_tenant u, ss_subject u) = Some (a, n) \<and>
      (ss_status u = L_ACTIVE \<longrightarrow> a = S_ACTIVE)"
  proof
    assume "k = i \<and> u = s"
    moreover obtain m where "map_of (mr_memberships (oa_members st)) (ss_tenant s, ss_subject s) = Some m" "mb_status m = S_ACTIVE"
      using s unfolding issued_for_def by blast
    ultimately show ?thesis by (simp add: standing_def find_membership_def)
  next
    assume "map_of (oa_sessions st) k = Some u"
    then show ?thesis using b unfolding backed_def by blast
  qed
qed

lemma issued_inv:
  assumes "sessions_inv S" "map_of S i = None" "ss_id s = i" "session_wf s"
  shows "sessions_inv (dict_put i s S)" "sessions_kept S (dict_put i s S)"
proof -
  have "k = ss_id u \<and> session_wf u" if "map_of (dict_put i s S) k = Some u" for k u
  proof (cases "k = i")
    case True
    then show ?thesis using that assms(3,4) by simp
  next
    case False
    then have "map_of S k = Some u" using that by simp
    then show ?thesis using assms(1) unfolding sessions_inv_def by blast
  qed
  moreover have "distinct (map fst S)" using assms(1) unfolding sessions_inv_def by blast
  ultimately show "sessions_inv (dict_put i s S)" unfolding sessions_inv_def distinct_dict_put by blast
  have "map_of (dict_put i s S) k = Some u" if "map_of S k = Some u" for k u
    using that assms(2) by (cases "k = i") simp_all
  then show "sessions_kept S (dict_put i s S)" unfolding sessions_kept_def using session_evolves_refl by blast
qed

text \<open>One step keeps the invariant, the identities and the sessions.\<close>

definition good_step :: "oa_system \<Rightarrow> oa_system \<Rightarrow> bool" where
  "good_step x y \<longleftrightarrow> oa_inv y \<and> identities_kept (os_state x) (os_state y) \<and> sessions_kept (os_sessions x) (os_sessions y)"

lemma grown_good:
  assumes inv: "oa_inv x" and g: "grown (os_state x) ((os_state x)\<lparr>oa_members := R\<rparr>)" and R: "memberships_inv R"
  shows "good_step x (set_members R x)"
  using assms grown_explained [OF _ g] grown_backed [OF g] grown_kept [OF g]
  unfolding good_step_def oa_inv_def set_members_def by simp

lemma moved_good:
  assumes inv: "oa_inv x" and m: "st = os_state x \<or> moved (os_state x) e k st" and R: "memberships_inv (oa_members st)"
  shows "good_step x (x\<lparr>os_state := st\<rparr>)"
  using m
proof
  assume "st = os_state x"
  then show ?thesis using inv by (simp add: good_step_def)
next
  assume m: "moved (os_state x) e k st"
  have i: "sessions_inv (os_sessions x)" "named_sessions (os_sessions x)" "backed (os_state x)" "explained (os_state x)"
    "authz_inv (os_authz x)" using inv by (simp_all add: oa_inv_def)
  have "named_sessions (oa_sessions st)"
    using i(2) evolved_keys [OF moved_evolved(1) [OF i(1) m]] by (simp add: named_sessions_def)
  then show ?thesis
    using R i moved_evolved [OF i(1) m] moved_backed [OF i(1,3) m] moved_explained [OF i(4) m] moved_kept [OF m]
    unfolding good_step_def oa_inv_def by (simp add: evolved_kept)
qed

lemma evolved_good:
  assumes inv: "oa_inv x" and e: "evolved (os_sessions x) S" "sessions_inv S" and A: "authz_inv A"
  shows "good_step x ((set_sessions S x)\<lparr>os_authz := A\<rparr>)"
proof -
  have "named_sessions S" using inv evolved_keys [OF e(1)] by (simp add: oa_inv_def named_sessions_def)
  moreover have "backed ((os_state x)\<lparr>oa_sessions := S\<rparr>)" using inv by (intro evolved_backed [OF e(1)]) (simp add: oa_inv_def)
  moreover have "identities_kept (os_state x) ((os_state x)\<lparr>oa_sessions := S\<rparr>)"
    using kept_refl(1) [of "os_state x"] by (simp add: identities_kept_def)
  ultimately show ?thesis using inv e A evolved_kept [OF e(1)] unfolding good_step_def oa_inv_def set_sessions_def by simp
qed

lemma issue_good:
  assumes inv: "oa_inv x"
    and r: "issue_session (os_members x) (Some (resolved_grants (os_authz x))) (os_sessions x) payload sid now stored = (r, S)"
    and sid: "map_of (os_sessions x) sid = None" "sid \<noteq> []" "py_strip sid = sid" and now: "in_range now"
  shows "good_step x (set_sessions S x)"
proof -
  have mem: "memberships_inv (os_members x)" and i: "sessions_inv (os_sessions x)" "backed (os_state x)"
    using inv by (simp_all add: oa_inv_def)
  consider (same) "S = os_sessions x" | (new) s where "S = dict_put sid s (os_sessions x)" "ss_id s = sid"
      "issued_for (os_members x) (resolved_grants (os_authz x)) now s"
    using issue_effect [OF mem now r] by blast
  then show ?thesis
  proof cases
    case same
    then show ?thesis using inv by (simp add: good_step_def set_sessions_def)
  next
    case new
    have wf: "session_wf s" using new(3) by (simp add: issued_for_def)
    note iss = issued_inv [OF i(1) sid(1) new(2) wf]
    have "named_sessions S" using inv sid by (auto simp: oa_inv_def named_sessions_def new(1))
    moreover have "backed ((os_state x)\<lparr>oa_sessions := S\<rparr>)" unfolding new(1) by (rule issued_backed [OF i(2) new(3)])
    moreover have "identities_kept (os_state x) ((os_state x)\<lparr>oa_sessions := S\<rparr>)"
      using kept_refl(1) [of "os_state x"] by (simp add: identities_kept_def)
    ultimately show ?thesis using inv iss unfolding good_step_def oa_inv_def set_sessions_def new(1) by simp
  qed
qed

lemma step_good: "oa_step x y \<Longrightarrow> oa_inv x \<Longrightarrow> good_step x y"
proof (induction rule: oa_step.induct)
  case (subject x payload now r R)
  have mem: "memberships_inv (os_members x)" using subject.prems by (simp add: oa_inv_def)
  note sinv = memberships_inv_subjects [OF mem]
  note eff = ensure_subject_effect [OF sinv subject.hyps]
  have R: "memberships_inv ((os_members x)\<lparr>mr_subjects := R\<rparr>)"
    using mem eff(1,2) unfolding memberships_inv_def by simp metis
  have "grown (os_state x) ((os_state x)\<lparr>oa_members := (os_members x)\<lparr>mr_subjects := R\<rparr>\<rparr>)"
    by (rule grown_members) (use eff(2) ensure_subject_new [OF sinv subject.hyps] in auto)
  then show ?case using grown_good [OF subject.prems _ R] by simp
next
  case (membership x payload now r R)
  have mem: "memberships_inv (os_members x)" using membership.prems by (simp add: oa_inv_def)
  note eff = ensure_membership_effect [OF mem membership.hyps]
  have "grown (os_state x) ((os_state x)\<lparr>oa_members := R\<rparr>)"
    using eff(3,2) ensure_membership_new(2,1) [OF mem membership.hyps] by (rule grown_members)
  then show ?case using grown_good [OF membership.prems _ eff(1)] by simp
next
  case (subject_status x ti si payload ctx eid now res st)
  have mem: "memberships_inv (os_members x)" using subject_status.prems by (simp add: oa_inv_def)
  note eff = transition_subject_effect [OF mem subject_status.hyps]
  then show ?case using moved_good [OF subject_status.prems _ eff(2)] by blast
next
  case (membership_status x ti si payload ctx eid now res st)
  have mem: "memberships_inv (os_members x)" using membership_status.prems by (simp add: oa_inv_def)
  note eff = transition_membership_effect [OF mem membership_status.hyps]
  then show ?case using moved_good [OF membership_status.prems _ eff(2)] by blast
next
  case (issue x payload sid now stored r S)
  then show ?case by (intro issue_good)
next
  case (introspect x payload clk r S)
  have "sessions_inv (os_sessions x)" "authz_inv (os_authz x)" using introspect.prems by (simp_all add: oa_inv_def)
  then have "good_step x ((set_sessions S x)\<lparr>os_authz := os_authz x\<rparr>)"
    using evolved_good [OF introspect.prems] introspect_effect [OF _ introspect.hyps] by blast
  then show ?case by (simp add: set_sessions_def)
next
  case (revoke x sid now r S)
  have "sessions_inv (os_sessions x)" "authz_inv (os_authz x)" using revoke.prems by (simp_all add: oa_inv_def)
  then have "good_step x ((set_sessions S x)\<lparr>os_authz := os_authz x\<rparr>)"
    using evolved_good [OF revoke.prems] revoke_effect [OF _ revoke.hyps] by blast
  then show ?case by (simp add: set_sessions_def)
next
  case (rights x res A S)
  have i: "sessions_inv (os_sessions x)" "authz_inv (os_authz x)" using rights.prems by (simp_all add: oa_inv_def)
  have u: "upserted True (os_authz x) (os_sessions x) res A S" using upsert_effect [OF rights.hyps i(2)] .
  then obtain t sis now where S: "S = os_sessions x \<or> S = snd (revoke_sessions_of (os_sessions x) t sis now)"
    unfolding upserted_def by metis
  have "evolved (os_sessions x) S \<and> sessions_inv S"
    using S evolved_revoked [OF i(1)] sessions_inv_revoked [OF i(1)] i(1) evolved_refl by metis
  then show ?case using evolved_good [OF rights.prems] u unfolding upserted_def by blast
qed

lemma start_inv: "oa_inv oa_start"
proof -
  have "memberships_inv (os_members oa_start)" by (simp add: oa_start_def memberships_inv_def subjects_inv_def)
  moreover have "standing (os_state oa_start) e k = None" for e k
    by (cases e) (simp_all add: standing_def find_subject_def find_membership_def oa_start_def)
  ultimately show ?thesis
    by (simp add: oa_inv_def explained_def backed_def oa_start_def sessions_inv_def named_sessions_def empty_authz_inv events_of_def)
qed

lemma steps_good: "oa_steps x y \<Longrightarrow> oa_inv x \<Longrightarrow> good_step x y"
proof (induction rule: rtranclp_induct)
  case base
  then show ?case by (simp add: good_step_def)
next
  case (step y z)
  then have "good_step x y" by simp
  moreover from this step have "good_step y z" using step_good unfolding good_step_def by blast
  ultimately show ?case unfolding good_step_def using identities_kept_trans sessions_kept_trans by blast
qed

lemma oa_reachable_inv: "oa_steps oa_start x \<Longrightarrow> oa_inv x"
  using steps_good start_inv unfolding good_step_def by blast

subsection \<open>Rights of an issued session\<close>

lemma space_lower: "py_space (lower_char c) = py_space c"
proof -
  have n: "(of_char (char_of (of_char c + 32 :: nat) :: char) :: nat) = of_char c + 32" if "of_char c \<le> (222 :: nat)"
    using that by (simp add: of_char_of take_bit_eq_mod)
  show ?thesis using n by (simp add: lower_char_def py_space_def Let_def)
qed

lemma strip_lower: "py_strip (py_lower s) = py_lower (py_strip s)"
  by (simp add: py_strip_def py_lower_def dropWhile_map rev_map comp_def space_lower)

lemma strip_norm [simp]: "py_strip (norm_text s) = norm_text s"
  by (simp add: strip_lower)

lemma grants_of_stored:
  assumes inv: "memberships_inv R" "authz_inv A" and m: "map_of (mr_memberships R) (t, u) = Some m"
    and g: "resolved_grants A m = Inr g" and X: "X \<subseteq> py_strip ` set (gr_scopes g)"
  shows "X \<subseteq> norm_text ` set (mb_scopes m) \<union> granted_scopes A t u (norm_text ` set (mb_roles m))"
proof -
  obtain e where e: "resolve_membership A m = Inr e" "gr_scopes g = ea_scopes e"
    using g by (auto simp: resolved_grants_def res_simps)
  have "(t, u) = (mb_tenant m, mb_subject m) \<and> registry_id_ok (mb_tenant m) \<and> registry_id_ok (mb_subject m)"
    using inv(1) m unfolding memberships_inv_def by blast
  then have id: "py_strip (mb_tenant m) = t" "py_strip (mb_subject m) = u" by simp_all
  note r = resolve_grants(1) [OF inv(2) e(1), unfolded id]
  have "py_strip x = x" if "x \<in> set (ea_scopes e)" for x
    using that unfolding r
  proof
    assume "x \<in> norm_text ` set (mb_scopes m)"
    then show ?thesis by auto
  next
    assume "x \<in> granted_scopes A t u (norm_text ` set (mb_roles m))"
    then obtain r where "r \<in> roles_of A" "x \<in> set (rl_scopes r)" unfolding granted_scopes_def by blast
    moreover have "clean_scopes (rl_scopes r)" if "r \<in> roles_of A" for r
      using inv(2) that unfolding authz_inv_def by fastforce
    ultimately have "norm_text x = x" unfolding clean_scopes_def by blast
    then show ?thesis using strip_norm [of x] by simp
  qed
  then show ?thesis using X unfolding e(2) r [symmetric] by force
qed

text \<open>
  What an introspection makes of a session: one that lives at the first reading of the clock stays
  active with a new idle deadline, any other is not active afterwards.
\<close>

lemma refresh_outcome:
  assumes wf: "session_wf s" and now: "in_range now" "in_range (now + 1800 * 1000000)"
  obtains s' where "refresh_session_for_introspection s now = Inr s'" "session_wf s'" "session_evolves s s'"
    "ss_status s' = L_ACTIVE \<longleftrightarrow> live_at s now"
    "\<And>e. live_at s now \<Longrightarrow> session_instant (ss_expires s) = Inr e \<Longrightarrow>
      session_instant (ss_idle s') = Inr (min e (now + 1800 * 1000000))"
proof -
  obtain e d where t: "in_range e" "in_range d" "ss_expires s = wire_timestamp e" "ss_idle s = wire_timestamp d"
    using wf unfolding session_wf_def by blast
  have live: "live_at s now \<longleftrightarrow> ss_status s = L_ACTIVE \<and> now < e \<and> now < d" using t by (simp add: live_at_def)
  let ?idle = "min e (now + 1800 * 1000000)"
  have idle: "idle_deadline e now = Inr ?idle" "in_range ?idle" using now t(1) by (simp_all add: idle_deadline_def min_def)
  consider (lives) "live_at s now" "refresh_session_for_introspection s now =
        Inr (s\<lparr>ss_seen := wire_timestamp now, ss_idle := wire_timestamp ?idle, ss_updated := wire_timestamp now\<rparr>)"
    | (late) "\<not> live_at s now" "refresh_session_for_introspection s now = Inr (s\<lparr>ss_status := L_EXPIRED, ss_updated := wire_timestamp now\<rparr>)"
    | (ended) "\<not> live_at s now" "ss_status s \<noteq> L_ACTIVE" "refresh_session_for_introspection s now = Inr s"
  proof (cases "ss_status s = L_ACTIVE")
    case False
    then obtain r where "inactive_reason_at s now = Inr (Some r)"
      by (cases "ss_status s") (simp_all add: inactive_reason_at_def)
    with False have "refresh_session_for_introspection s now = Inr s" by (simp add: refresh_session_for_introspection_def)
    moreover have "\<not> live_at s now" using False by (simp add: live_at_def)
    ultimately show thesis using False by (intro ended)
  next
    case True
    show thesis
    proof (cases "live_at s now")
      case l: True
      then have "now < e" "now < d" using live by simp_all
      then have "inactive_reason_at s now = Inr None" using True t by (simp add: inactive_reason_at_def)
      with t idle(1) have "refresh_session_for_introspection s now =
          Inr (s\<lparr>ss_seen := wire_timestamp now, ss_idle := wire_timestamp ?idle, ss_updated := wire_timestamp now\<rparr>)"
        by (simp add: refresh_session_for_introspection_def)
      with l show thesis by (rule lives)
    next
      case l: False
      then have "inactive_reason_at s now = Inr (Some (if e \<le> now then ''expired'' else ''idle_expired''))"
        using True t live by (auto simp: inactive_reason_at_def)
      with l True show thesis by (intro late) (simp_all add: refresh_session_for_introspection_def)
    qed
  qed
  then show thesis
  proof cases
    case lives
    from refresh_Inr(1,2) [OF lives(2) wf now(1)] show ?thesis
      by (rule that [OF lives(2)]) (use lives(1) t(1,3) idle(2) in \<open>auto simp: live_at_def\<close>)
  next
    case late
    from refresh_Inr(1,2) [OF late(2) wf now(1)] show ?thesis by (rule that [OF late(2)]) (use late(1) in auto)
  next
    case ended
    from refresh_Inr(1,2) [OF ended(3) wf now(1)] show ?thesis by (rule that [OF ended(3)]) (use ended(1,2) in auto)
  qed
qed

text \<open>
  The answer of an introspection that takes less than the idle time, with a clock that does not go
  back: every session found is answered, and it is active when it lives at the first reading and has
  not ended at the last.
\<close>

lemma introspect_found:
  assumes inv: "sessions_inv S" "named_sessions S" and q: "normalize_session_introspection_request body = Inr i"
    and s: "map_of S i = Some s" and now: "in_range (clk 0)" "in_range (clk 0 + 1800 * 1000000)"
    and clk: "clk 0 \<le> clk 1" "clk 1 \<le> clk 2" "clk 2 < clk 0 + 1800 * 1000000"
  obtains a v S' where "introspect_session S body clk = (Inr a, S')" "in_session a = Some v" "vw_scopes v = ss_scopes s"
    "in_active a \<longleftrightarrow> live_at s (clk 0) \<and> (\<exists>e. session_instant (ss_expires s) = Inr e \<and> clk 2 < e)"
proof -
  have wf: "session_wf s" and id: "ss_id s = i" using inv(1) s unfolding sessions_inv_def by blast+
  obtain s' where s': "refresh_session_for_introspection s (clk 0) = Inr s'" "session_wf s'" "session_evolves s s'"
    "ss_status s' = L_ACTIVE \<longleftrightarrow> live_at s (clk 0)"
    "\<And>e. live_at s (clk 0) \<Longrightarrow> session_instant (ss_expires s) = Inr e \<Longrightarrow>
      session_instant (ss_idle s') = Inr (min e (clk 0 + 1800 * 1000000))"
    by (rule refresh_outcome [OF wf now]) (rule that)
  have name: "py_strip (ss_id s') = ss_id s'" "ss_id s' \<noteq> []"
  proof -
    have "ss_id s' = i" using s'(3) id by (simp add: session_evolves_def)
    moreover have "i \<in> fst ` set S" using s by (force dest: map_of_SomeD)
    ultimately show "py_strip (ss_id s') = ss_id s'" "ss_id s' \<noteq> []" using inv(2) unfolding named_sessions_def by auto
  qed
  obtain v where v: "build_browser_session_snapshot s' = Inr v" "vw_scopes v = ss_scopes s'"
    using snapshot_ok [OF s'(2) name] by blast
  obtain r where r: "inactive_reason s' (clk 1) (clk 2) = Inr r" "r = None \<longleftrightarrow> ss_status s' = L_ACTIVE \<and>
      (\<exists>e d. session_instant (ss_expires s') = Inr e \<and> session_instant (ss_idle s') = Inr d \<and> clk 1 < e \<and> clk 2 < d)"
    using inactive_reason_live(2) [OF s'(2)] by blast
  obtain e where e: "session_instant (ss_expires s) = Inr e" using wf unfolding session_wf_def by auto
  have same: "ss_expires s' = ss_expires s" "ss_scopes s' = ss_scopes s" using s'(3) by (simp_all add: session_evolves_def)
  have "r = None \<longleftrightarrow> live_at s (clk 0) \<and> clk 2 < e"
    unfolding r(2) same e s'(4) using s'(5) [OF _ e] clk by auto
  then show thesis
    using that [of "\<lparr>in_active = (r = None), in_reason = r, in_session = Some v\<rparr>" "dict_put i s' S" v] q s s'(1) v r(1) same(2) e
    by (simp add: introspect_session_def build_session_introspection_response_def)
qed

end
