(* ===== verification/Sample_Oa.thy ===== *)
theory Sample_Oa
  imports Oa_Invariants
begin

section \<open>Sample states of the OA service\<close>

text \<open>
  A run of the OA service on concrete requests: a membership, a session, the membership or its
  subject disabled, and a role that the membership holds; for the witnesses of the properties.
\<close>

definition acme_user :: pydict where
  "acme_user = [(''tenant_id'', PStr ''acme''), (''subject_id'', PStr ''u1'')]"

definition acme_members :: membership_registry where
  "acme_members =
     \<lparr>mr_subjects =
        \<lparr>sr_tenants = [(''acme'', \<lparr>tn_id = ''acme'', tn_name = ''Local Tenant'', tn_status = S_ACTIVE, tn_metadata = [],
           tn_created = ''now'', tn_updated = ''now''\<rparr>)],
         sr_subjects = [((''acme'', ''u1''), \<lparr>sj_tenant = ''acme'', sj_id = ''u1'', sj_name = ''Local User'',
           sj_status = S_ACTIVE, sj_revision = 1, sj_metadata = [], sj_created = ''now'', sj_updated = ''now''\<rparr>)]\<rparr>,
      mr_memberships = [((''acme'', ''u1''), \<lparr>mb_tenant = ''acme'', mb_subject = ''u1'', mb_status = S_ACTIVE,
        mb_revision = 1, mb_roles = [''employee''], mb_scopes = [''workspace:use''], mb_metadata = [],
        mb_created = ''now'', mb_updated = ''now''\<rparr>)]\<rparr>"

definition staff_role :: role where
  "staff_role = \<lparr>rl_tenant = ''acme'', rl_id = ''employee'', rl_name = ''employee'', rl_description = None,
     rl_status = S_ACTIVE, rl_scopes = [''docs:read''], rl_metadata = [], rl_revision = 1\<rparr>"

definition upsert_event :: "string \<Rightarrow> string \<Rightarrow> string \<Rightarrow> string \<Rightarrow> authz_event" where
  "upsert_event i ty ent t = \<lparr>zv_id = i, zv_tenant = ''acme'', zv_type = ty, zv_entity_id = ent,
     zv_subject = None, zv_previous = 0, zv_next = 1, zv_actor = ''nex-oa'', zv_request = ''r1'', zv_trace = ''t1'',
     zv_status = S_ACTIVE, zv_revoked = 0, zv_time = t\<rparr>"

definition staff_event :: authz_event where
  "staff_event = upsert_event ''e2'' ''ROLE_UPSERTED'' ''employee'' ''0001-01-01T00:00:02Z''"

definition staff_authz :: authz where
  "staff_authz = \<lparr>az_roles = [((''acme'', ''employee''), staff_role)], az_groups = [], az_members = [], az_links = [],
     az_events = [staff_event]\<rparr>"

definition group_authz :: authz where
  "group_authz = staff_authz\<lparr>az_groups := [((''acme'', ''team''), \<lparr>gp_tenant = ''acme'', gp_id = ''team'', gp_name = ''team'',
     gp_description = None, gp_status = S_ACTIVE, gp_metadata = [], gp_revision = 1\<rparr>)],
     az_events := [staff_event, upsert_event ''e3'' ''GROUP_UPSERTED'' ''team'' ''0001-01-01T00:00:03Z'']\<rparr>"

definition link_authz :: authz where
  "link_authz = group_authz\<lparr>az_links := [((''acme'', ''team'', ''employee''), \<lparr>gl_tenant = ''acme'', gl_group = ''team'',
     gl_role = ''employee'', gl_status = S_ACTIVE, gl_revision = 1\<rparr>)],
     az_events := [staff_event, upsert_event ''e3'' ''GROUP_UPSERTED'' ''team'' ''0001-01-01T00:00:03Z'',
       upsert_event ''e4'' ''GROUP_ROLE_UPSERTED'' ''team:employee'' ''0001-01-01T00:00:04Z'']\<rparr>"

definition user_session :: "string list \<Rightarrow> session" where
  "user_session scopes = \<lparr>ss_id = ''s1'', ss_status = L_ACTIVE, ss_issuer = ''nex-oa'', ss_audience = ''nex-ae-api'',
     ss_use = ''user'', ss_tenant = ''acme'', ss_subject = ''u1'', ss_scopes = scopes, ss_roles = [''employee''],
     ss_issued = ''0001-01-01T00:00:00Z'', ss_expires = ''0001-01-01T01:00:00Z'', ss_auth = ''0001-01-01T00:00:00Z'',
     ss_seen = ''0001-01-01T00:00:00Z'', ss_idle = ''0001-01-01T00:30:00Z'', ss_revoked = None,
     ss_created = ''0001-01-01T00:00:00Z'', ss_updated = ''0001-01-01T00:00:00Z''\<rparr>"

definition acme_system :: "sessions \<Rightarrow> authz \<Rightarrow> oa_system" where
  "acme_system S A = \<lparr>os_state = \<lparr>oa_members = acme_members, oa_sessions = S, oa_trail = []\<rparr>, os_authz = A\<rparr>"

definition oa_joined :: oa_system where "oa_joined = acme_system [] empty_authz"
definition oa_signed_in :: oa_system where "oa_signed_in = acme_system [(''s1'', user_session [''workspace:use''])] empty_authz"
definition oa_staffed :: oa_system where "oa_staffed = acme_system [] staff_authz"
definition oa_reading :: oa_system where
  "oa_reading = acme_system [(''s1'', user_session [''docs:read'', ''workspace:use''])] staff_authz"

definition disable_payload :: pydict where
  "disable_payload = [(''target_status'', PStr ''DISABLED''), (''expected_revision'', PInt 1), (''reason_code'', PStr ''left'')]"

definition admin_context :: pydict where
  "admin_context = [(''actor_ref_type'', PStr ''nex.service''), (''actor_ref_id'', PStr ''nex-oa''),
     (''request_id'', PStr ''r1''), (''trace_id'', PStr ''t1''), (''actor_ref'', PStr ''nex-oa'')]"

definition member_disabled :: "oa_exn + transition_result \<times> oa_state" where
  "member_disabled = transition_membership True (os_state oa_signed_in) ''acme'' ''u1'' disable_payload admin_context ''e1'' 1000000"

definition oa_left :: oa_system where
  "oa_left = oa_signed_in\<lparr>os_state := snd (projr member_disabled)\<rparr>"

definition subject_disabled :: "oa_exn + transition_result \<times> oa_state" where
  "subject_disabled = transition_subject True (os_state oa_joined) ''acme'' ''u1'' disable_payload admin_context ''e1'' 1000000"

definition oa_suspended :: oa_system where
  "oa_suspended = oa_joined\<lparr>os_state := snd (projr subject_disabled)\<rparr>"

definition role_payload :: "string \<Rightarrow> int \<Rightarrow> pydict" where
  "role_payload st n = [(''tenant_id'', PStr ''acme''), (''role_id'', PStr ''employee''), (''status'', PStr st),
     (''scopes'', PList [PStr ''docs:read'']), (''expected_revision'', PInt n)]"

definition role_upserted :: "oa_system \<Rightarrow> string \<Rightarrow> int \<Rightarrow> oa_exn + authz_result \<times> authz \<times> sessions" where
  "role_upserted x st n = upsert_role True (os_authz x) (os_sessions x) (role_payload st n) admin_context ''e2'' 2000000"

definition after_role :: "oa_system \<Rightarrow> string \<Rightarrow> int \<Rightarrow> oa_system" where
  "after_role x st n = (let r = projr (role_upserted x st n) in (set_sessions (snd (snd r)) x)\<lparr>os_authz := fst (snd r)\<rparr>)"

definition oa_unstaffed :: oa_system where "oa_unstaffed = after_role oa_reading ''DISABLED'' 1"

subsection \<open>The run\<close>

lemma projr_pair: "\<not> isl r \<Longrightarrow> r = Inr (fst (projr r), snd (projr r))"
  by (cases r) simp_all

lemma case_Inr: "(case r of Inl e \<Rightarrow> False | Inr y \<Rightarrow> P y) \<Longrightarrow> \<exists>y. r = Inr y \<and> P y"
  by (cases r) simp_all

lemma joined_reach: "oa_steps oa_start oa_joined"
proof -
  have "snd (ensure_membership (os_members oa_start) acme_user ''now'') = acme_members" by code_simp
  then have e: "ensure_membership (os_members oa_start) acme_user ''now'' =
      (fst (ensure_membership (os_members oa_start) acme_user ''now''), acme_members)" by (metis prod.collapse)
  have "set_members acme_members oa_start = oa_joined"
    by (simp add: set_members_def oa_start_def oa_joined_def acme_system_def)
  with oa_step.membership [OF e] show ?thesis by simp
qed

lemma issue_step:
  assumes "snd (issue_session acme_members (Some (resolved_grants A)) [] acme_user ''s1'' 0 0) = S"
  shows "oa_step (acme_system [] A) (acme_system S A)"
proof -
  have "oa_step (acme_system [] A) (set_sessions S (acme_system [] A))"
  proof (rule oa_step.issue)
    show "issue_session (os_members (acme_system [] A)) (Some (resolved_grants (os_authz (acme_system [] A))))
        (os_sessions (acme_system [] A)) acme_user ''s1'' 0 0 =
      (fst (issue_session acme_members (Some (resolved_grants A)) [] acme_user ''s1'' 0 0), S)"
      using assms by (simp add: acme_system_def prod_eq_iff)
    show "py_strip ''s1'' = ''s1''" by code_simp
    show "in_range 0" by code_simp
  qed (simp_all add: acme_system_def)
  then show ?thesis by (simp add: set_sessions_def acme_system_def)
qed

lemma role_step:
  assumes "\<not> isl (role_upserted x st n)"
  shows "oa_step x (after_role x st n)"
proof -
  obtain res A S where r: "role_upserted x st n = Inr (res, A, S)" using assms by (cases "role_upserted x st n") auto
  show ?thesis unfolding after_role_def r Let_def
    using oa_step.rights [OF upsert.role [OF r [unfolded role_upserted_def]]] by simp
qed

lemma signed_in_reach: "oa_steps oa_start oa_signed_in"
proof -
  have "snd (issue_session acme_members (Some (resolved_grants empty_authz)) [] acme_user ''s1'' 0 0) =
      [(''s1'', user_session [''workspace:use''])]" by code_simp
  from joined_reach [unfolded oa_joined_def] issue_step [OF this] show ?thesis
    unfolding oa_signed_in_def by (rule rtranclp.rtrancl_into_rtrancl)
qed

lemma member_disabled_ok: "\<not> isl member_disabled"
  by code_simp

lemma left_step: "oa_step oa_signed_in oa_left"
  unfolding oa_left_def
  by (rule oa_step.membership_status [OF projr_pair [OF member_disabled_ok, unfolded member_disabled_def], folded member_disabled_def])

lemma subject_disabled_ok: "\<not> isl subject_disabled"
  by code_simp

lemma suspended_reach: "oa_steps oa_start oa_suspended"
proof -
  have "oa_step oa_joined oa_suspended" unfolding oa_suspended_def
    by (rule oa_step.subject_status [OF projr_pair [OF subject_disabled_ok, unfolded subject_disabled_def], folded subject_disabled_def])
  with joined_reach show ?thesis by (rule rtranclp.rtrancl_into_rtrancl)
qed

definition disabled_members :: membership_registry where
  "disabled_members = acme_members\<lparr>mr_subjects := (mr_subjects acme_members)\<lparr>sr_subjects :=
     [((''acme'', ''u1''), \<lparr>sj_tenant = ''acme'', sj_id = ''u1'', sj_name = ''Local User'', sj_status = S_DISABLED,
       sj_revision = 2, sj_metadata = [], sj_created = ''now'', sj_updated = ''0001-01-01T00:00:01Z''\<rparr>)]\<rparr>\<rparr>"

lemma suspended: "os_members oa_suspended = disabled_members" "os_sessions oa_suspended = []"
  "os_authz oa_suspended = empty_authz"
proof -
  show "os_members oa_suspended = disabled_members" "os_sessions oa_suspended = []" by code_simp+
  show "os_authz oa_suspended = empty_authz" by (simp add: oa_suspended_def oa_joined_def acme_system_def)
qed

lemma staffed_reach: "oa_steps oa_start oa_staffed"
proof -
  have "\<not> isl (role_upserted oa_joined ''ACTIVE'' 0)" by code_simp
  from role_step [OF this] joined_reach have "oa_steps oa_start (after_role oa_joined ''ACTIVE'' 0)"
    by (metis rtranclp.rtrancl_into_rtrancl)
  moreover have "after_role oa_joined ''ACTIVE'' 0 = oa_staffed"
  proof -
    have "case role_upserted oa_joined ''ACTIVE'' 0 of Inr (r, p) \<Rightarrow> p = (staff_authz, []) | Inl e \<Rightarrow> False" by code_simp
    then obtain g where "role_upserted oa_joined ''ACTIVE'' 0 = Inr (g, staff_authz, [])"
      by (auto dest!: case_Inr)
    then show ?thesis by (simp add: after_role_def Let_def set_sessions_def oa_joined_def oa_staffed_def acme_system_def)
  qed
  ultimately show ?thesis by simp
qed

lemma reading_reach: "oa_steps oa_start oa_reading"
proof -
  have "snd (issue_session acme_members (Some (resolved_grants staff_authz)) [] acme_user ''s1'' 0 0) =
      [(''s1'', user_session [''docs:read'', ''workspace:use''])]" by code_simp
  from staffed_reach [unfolded oa_staffed_def] issue_step [OF this] show ?thesis
    unfolding oa_reading_def by (rule rtranclp.rtrancl_into_rtrancl)
qed

lemma unstaffed_step: "oa_step oa_reading oa_unstaffed"
proof -
  have "\<not> isl (role_upserted oa_reading ''DISABLED'' 1)" by code_simp
  then show ?thesis unfolding oa_unstaffed_def by (rule role_step)
qed

subsection \<open>A group\<close>

text \<open>In the staffed system with a session: a group, its link to a role, and then its first member.\<close>

abbreviation reading_sessions :: sessions where
  "reading_sessions \<equiv> [(''s1'', user_session [''docs:read'', ''workspace:use''])]"

definition oa_linked :: oa_system where "oa_linked = acme_system reading_sessions link_authz"

definition group_upserted :: "oa_exn + authz_result \<times> authz \<times> sessions" where
  "group_upserted = upsert_group True staff_authz reading_sessions [(''tenant_id'', PStr ''acme''), (''group_id'', PStr ''team'')]
     admin_context ''e3'' 3000000"

definition link_upserted :: "oa_exn + authz_result \<times> authz \<times> sessions" where
  "link_upserted = upsert_group_role True group_authz reading_sessions
     [(''tenant_id'', PStr ''acme''), (''group_id'', PStr ''team''), (''role_id'', PStr ''employee'')] admin_context ''e4'' 4000000"

definition member_upserted :: "oa_exn + authz_result \<times> authz \<times> sessions" where
  "member_upserted = upsert_group_member True link_authz reading_sessions
     [(''tenant_id'', PStr ''acme''), (''group_id'', PStr ''team''), (''subject_id'', PStr ''u1'')] admin_context ''e5'' 5000000"

lemma upsert_step:
  assumes "upsert True A S res A' S'"
  shows "oa_step (acme_system S A) (acme_system S' A')"
  using oa_step.rights [of "acme_system S A" res A' S'] assms by (simp add: acme_system_def set_sessions_def)

lemma linked_reach: "oa_steps oa_start oa_linked"
proof -
  have "case group_upserted of Inr (r, p) \<Rightarrow> p = (group_authz, reading_sessions) | Inl e \<Rightarrow> False" by code_simp
  then obtain g where g: "group_upserted = Inr (g, group_authz, reading_sessions)"
    by (auto dest!: case_Inr)
  have "case link_upserted of Inr (r, p) \<Rightarrow> p = (link_authz, reading_sessions) | Inl e \<Rightarrow> False" by code_simp
  then obtain l where l: "link_upserted = Inr (l, link_authz, reading_sessions)"
    by (auto dest!: case_Inr)
  have "oa_step oa_reading (acme_system reading_sessions group_authz)"
    unfolding oa_reading_def by (rule upsert_step, rule upsert.group, rule g [unfolded group_upserted_def])
  with reading_reach have r: "oa_steps oa_start (acme_system reading_sessions group_authz)"
    by (rule rtranclp.rtrancl_into_rtrancl)
  have "oa_step (acme_system reading_sessions group_authz) oa_linked"
    unfolding oa_linked_def by (rule upsert_step, rule upsert.link, rule l [unfolded link_upserted_def])
  with r show ?thesis by (rule rtranclp.rtrancl_into_rtrancl)
qed

definition team_member :: group_member where
  "team_member = \<lparr>gm_tenant = ''acme'', gm_group = ''team'', gm_subject = ''u1'', gm_status = S_ACTIVE, gm_revision = 1\<rparr>"

lemma member_value:
  "case member_upserted of
     Inr (r, A, S) \<Rightarrow> zr_record r = MemberRecord team_member \<and> az_members A = [((''acme'', ''team'', ''u1''), team_member)] \<and>
       az_roles A = az_roles link_authz \<and> az_groups A = az_groups link_authz \<and> az_links A = az_links link_authz \<and>
       map fst S = [''s1''] \<and> ss_tenant (snd (hd S)) = ''acme'' \<and> ss_subject (snd (hd S)) = ''u1''
   | Inl e \<Rightarrow> False"
  by code_simp

lemma member_ok: "\<not> isl member_upserted" "zr_record (fst (projr member_upserted)) = MemberRecord team_member"
  "az_members (fst (snd (projr member_upserted))) = [((''acme'', ''team'', ''u1''), team_member)]"
  "az_roles (fst (snd (projr member_upserted))) = az_roles link_authz"
  "az_groups (fst (snd (projr member_upserted))) = az_groups link_authz"
  "az_links (fst (snd (projr member_upserted))) = az_links link_authz"
  "map fst (snd (snd (projr member_upserted))) = [''s1'']"
  "ss_tenant (snd (hd (snd (snd (projr member_upserted))))) = ''acme''"
  "ss_subject (snd (hd (snd (snd (projr member_upserted))))) = ''u1''"
proof -
  obtain r A S where m: "member_upserted = Inr (r, A, S)" using case_Inr [OF member_value] by auto
  note v = member_value [unfolded m sum.case prod.case]
  show "\<not> isl member_upserted" "zr_record (fst (projr member_upserted)) = MemberRecord team_member"
    "az_members (fst (snd (projr member_upserted))) = [((''acme'', ''team'', ''u1''), team_member)]"
    "az_roles (fst (snd (projr member_upserted))) = az_roles link_authz"
    "az_groups (fst (snd (projr member_upserted))) = az_groups link_authz"
    "az_links (fst (snd (projr member_upserted))) = az_links link_authz"
    "map fst (snd (snd (projr member_upserted))) = [''s1'']"
    "ss_tenant (snd (hd (snd (snd (projr member_upserted))))) = ''acme''"
    "ss_subject (snd (hd (snd (snd (projr member_upserted))))) = ''u1''"
    using v unfolding m by simp_all
qed

lemma sample_issued:
  "case fst (issue_session disabled_members (Some (resolved_grants empty_authz)) [] acme_user ''s1'' 0 0) of
     Inr v \<Rightarrow> vw_subject v = ''u1'' \<and> vw_status v = L_ACTIVE | Inl e \<Rightarrow> False"
  by code_simp

lemma staffed_issued:
  "\<not> isl (fst (issue_session acme_members (Some (resolved_grants staff_authz)) [] acme_user ''s1'' 0 0))"
  by code_simp

end
