(* ===== verification/Provider_Retry.thy ===== *)
theory Provider_Retry
  imports Nex_Prelude
begin

section \<open>Retries of provider calls\<close>

text \<open>
  \<^verbatim>\<open>services/nex-mo/nex_mo/provider_retry.py\<close>: the policy of a capability, the decision after a
  failure, the delay before the next attempt, and the loop of attempts; and of
  \<^verbatim>\<open>provider_resilience.py\<close> the status of a provider. The operation and the jitter are functions
  of the number of the attempt: what they return the n-th time they are called. A delay is a finite
  number of seconds; the rounding of its product is not translated.
\<close>

subsection \<open>Policies\<close>

definition DEFAULT_MAX_ATTEMPTS :: "(string \<times> int) list" where
  "DEFAULT_MAX_ATTEMPTS = [(''embedding'', 3), (''reranking'', 3), (''generation'', 2)]"

definition GENERATION_AMBIGUOUS_FAILURE_KINDS :: "string list" where
  "GENERATION_AMBIGUOUS_FAILURE_KINDS =
     [''timeout'', ''read_timeout'', ''write_timeout'', ''pool_timeout'', ''malformed_response'']"

record provider_policy =
  pp_capability :: string
  pp_max_attempts :: int
  pp_base_delay :: rat
  pp_max_delay :: rat
  pp_retry_after_max :: rat

definition make_provider_policy :: "string \<Rightarrow> int \<Rightarrow> rat \<Rightarrow> rat \<Rightarrow> rat \<Rightarrow> py_error + provider_policy" where
  "make_provider_policy capability attempts base_delay max_delay after_max =
     (if capability \<notin> fst ` set DEFAULT_MAX_ATTEMPTS then Inl ValueError
      else if attempts < 1 \<or> attempts > 5 then Inl ValueError
      else if base_delay < 0 then Inl ValueError
      else if max_delay < base_delay then Inl ValueError
      else if after_max < 0 then Inl ValueError
      else Inr \<lparr>pp_capability = capability, pp_max_attempts = attempts, pp_base_delay = base_delay,
        pp_max_delay = max_delay, pp_retry_after_max = after_max\<rparr>)"

subsection \<open>Decisions and delays\<close>

text \<open>\<open>ProviderRouteError\<close>, up to the fields no retry reads.\<close>

record route_error =
  re_code :: string
  re_kind :: "string option"
  re_retryable :: bool
  re_after :: "rat option"

record provider_decision =
  pd_retry :: bool
  pd_reason :: string
  pd_attempt :: int
  pd_max :: int

definition decide_provider_retry :: "provider_policy \<Rightarrow> route_error \<Rightarrow> int \<Rightarrow> py_error + provider_decision" where
  "decide_provider_retry p f n =
     (if n < 1 then Inl ValueError
      else let d = (\<lambda>b r. Inr \<lparr>pd_retry = b, pd_reason = r, pd_attempt = n, pd_max = pp_max_attempts p\<rparr>) in
        if \<not> re_retryable f then d False ''failure_not_retryable''
        else if n \<ge> pp_max_attempts p then d False ''attempt_budget_exhausted''
        else if pp_capability p = ''generation'' \<and> re_kind f \<in> Some ` set GENERATION_AMBIGUOUS_FAILURE_KINDS
          then d False ''generation_ambiguous_replay_blocked''
        else d True ''transient_failure_within_budget'')"

definition compute_retry_delay :: "provider_policy \<Rightarrow> int \<Rightarrow> rat option \<Rightarrow> rat \<Rightarrow> py_error + rat" where
  "compute_retry_delay p n after jitter =
     (if n < 1 then Inl ValueError
      else case (case after of Some a \<Rightarrow> if a \<ge> 0 then Some a else None | None \<Rightarrow> None) of
        Some a \<Rightarrow> Inr (min a (pp_retry_after_max p))
      | None \<Rightarrow>
          if jitter < 0 \<or> jitter > 1 then Inl ValueError
          else Inr (min (pp_max_delay p) (pp_base_delay p * 2 ^ nat (n - 1)) * jitter))"

subsection \<open>The loop\<close>

datatype ('e, 'a) attempt = Returns 'a | RouteFails route_error | Raises 'e

datatype 'e retry_failure = RouteFailure route_error | OperationError 'e | RetryPyError py_error

record provider_event =
  pv_capability :: string
  pv_attempt :: int
  pv_next :: int
  pv_delay :: rat
  pv_kind :: string
  pv_reason :: string

record 'a provider_execution =
  px_value :: 'a
  px_attempts :: int
  px_retries :: int

text \<open>\<open>exc.failure_kind or "provider_route_error"\<close>.\<close>

definition kind_text :: "string option \<Rightarrow> string" where
  "kind_text k = (case k of None \<Rightarrow> ''provider_route_error'' | Some s \<Rightarrow> if s = [] then ''provider_route_error'' else s)"

lemma decide_retry:
  "decide_provider_retry p f n = Inr d \<Longrightarrow> pd_retry d \<longleftrightarrow> re_retryable f \<and> n < pp_max_attempts p \<and>
    \<not> (pp_capability p = ''generation'' \<and> re_kind f \<in> Some ` set GENERATION_AMBIGUOUS_FAILURE_KINDS)"
  by (auto simp: decide_provider_retry_def Let_def split: if_splits)

text \<open>
  The loop from an attempt on: the events it gives to \<open>on_retry\<close>, each before a sleep of its delay,
  and the result. An exception of the delay or of the decision leaves the loop.
\<close>

function attempts_from ::
  "provider_policy \<Rightarrow> (int \<Rightarrow> ('e, 'a) attempt) \<Rightarrow> (int \<Rightarrow> rat) \<Rightarrow> int
    \<Rightarrow> provider_event list \<times> ('e retry_failure + 'a provider_execution)" where
  "attempts_from p op jitter n =
     (case op n of
        Returns v \<Rightarrow> ([], Inr \<lparr>px_value = v, px_attempts = n, px_retries = n - 1\<rparr>)
      | Raises e \<Rightarrow> ([], Inl (OperationError e))
      | RouteFails f \<Rightarrow>
          (case decide_provider_retry p f n of
             Inl e \<Rightarrow> ([], Inl (RetryPyError e))
           | Inr d \<Rightarrow>
               if \<not> pd_retry d then ([], Inl (RouteFailure f))
               else (case compute_retry_delay p n (re_after f) (jitter n) of
                   Inl e \<Rightarrow> ([], Inl (RetryPyError e))
                 | Inr delay \<Rightarrow>
                     (case attempts_from p op jitter (n + 1) of
                        (evs, r) \<Rightarrow>
                          (\<lparr>pv_capability = pp_capability p, pv_attempt = n, pv_next = n + 1, pv_delay = delay,
                            pv_kind = kind_text (re_kind f), pv_reason = pd_reason d\<rparr> # evs, r)))))"
  by pat_completeness auto
termination
  by (relation "measure (\<lambda>(p, op, jitter, n). nat (pp_max_attempts p - n))") (auto dest: decide_retry)

declare attempts_from.simps [simp del]

definition execute_with_provider_retry ::
  "provider_policy \<Rightarrow> (int \<Rightarrow> ('e, 'a) attempt) \<Rightarrow> (int \<Rightarrow> rat)
    \<Rightarrow> provider_event list \<times> ('e retry_failure + 'a provider_execution)" where
  "execute_with_provider_retry p op jitter = attempts_from p op jitter 1"

subsection \<open>Resilience\<close>

definition capability_status :: "string \<Rightarrow> string option \<Rightarrow> string" where
  "capability_status route_status last_outcome =
     (if route_status = ''UNAVAILABLE'' then ''UNAVAILABLE''
      else if route_status = ''DEGRADED'' \<or> (route_status = ''READY'' \<and> last_outcome = Some ''failure'') then ''DEGRADED''
      else if route_status = ''READY'' then ''HEALTHY'' else ''UNKNOWN'')"

definition overall_status :: "string list \<Rightarrow> string" where
  "overall_status statuses =
     (case filter (\<lambda>s. s \<in> set statuses) [''UNAVAILABLE'', ''DEGRADED'', ''UNKNOWN''] of
        s # _ \<Rightarrow> s | [] \<Rightarrow> ''HEALTHY'')"

subsection \<open>What the loop does\<close>

definition policy_ok :: "provider_policy \<Rightarrow> bool" where
  "policy_ok p \<longleftrightarrow> 1 \<le> pp_max_attempts p \<and> pp_max_attempts p \<le> 5 \<and> 0 \<le> pp_base_delay p \<and>
     pp_base_delay p \<le> pp_max_delay p \<and> 0 \<le> pp_retry_after_max p"

lemma make_policy_ok: "make_provider_policy c a b m r = Inr p \<Longrightarrow> policy_ok p"
  by (auto simp: make_provider_policy_def policy_ok_def split: if_splits)

lemma delay_bounds:
  assumes "policy_ok p" "compute_retry_delay p n after jitter = Inr d"
  shows "0 \<le> d" "d \<le> max (pp_max_delay p) (pp_retry_after_max p)"
    "(\<forall>a. after = Some a \<longrightarrow> a < 0) \<Longrightarrow> d \<le> pp_base_delay p * 2 ^ nat (n - 1)"
proof -
  have b: "0 \<le> pp_base_delay p" "0 \<le> pp_max_delay p" "0 \<le> pp_retry_after_max p" using assms(1) by (auto simp: policy_ok_def)
  let ?cap = "min (pp_max_delay p) (pp_base_delay p * 2 ^ nat (n - 1))"
  have cap: "0 \<le> ?cap" using b by simp
  consider (after) a where "after = Some a" "0 \<le> a" "d = min a (pp_retry_after_max p)"
    | (jitter) "\<forall>a. after = Some a \<longrightarrow> a < 0" "0 \<le> jitter" "jitter \<le> 1" "d = ?cap * jitter"
    using assms(2) by (auto simp: compute_retry_delay_def split: option.splits if_splits)
  then have "0 \<le> d \<and> d \<le> max (pp_max_delay p) (pp_retry_after_max p) \<and>
    ((\<forall>a. after = Some a \<longrightarrow> a < 0) \<longrightarrow> d \<le> pp_base_delay p * 2 ^ nat (n - 1))"
  proof cases
    case after
    then show ?thesis using b by auto
  next
    case jitter
    have "?cap * jitter \<le> ?cap" by (rule mult_left_le [OF jitter(3) cap])
    then show ?thesis using cap jitter by (auto simp: le_max_iff_disj)
  qed
  then show "0 \<le> d" "d \<le> max (pp_max_delay p) (pp_retry_after_max p)"
    "(\<forall>a. after = Some a \<longrightarrow> a < 0) \<Longrightarrow> d \<le> pp_base_delay p * 2 ^ nat (n - 1)" by blast+
qed

text \<open>One event, and the state of the loop after \<open>k\<close> events.\<close>

definition sound_event :: "provider_policy \<Rightarrow> (int \<Rightarrow> ('e, 'a) attempt) \<Rightarrow> int \<Rightarrow> provider_event \<Rightarrow> bool" where
  "sound_event p op n ev \<longleftrightarrow> pv_attempt ev = n \<and> pv_next ev = n + 1 \<and> n < pp_max_attempts p \<and>
     0 \<le> pv_delay ev \<and> pv_delay ev \<le> max (pp_max_delay p) (pp_retry_after_max p) \<and>
     (\<exists>f. op n = RouteFails f \<and> re_retryable f \<and>
       \<not> (pp_capability p = ''generation'' \<and> re_kind f \<in> Some ` set GENERATION_AMBIGUOUS_FAILURE_KINDS))"

definition sound_result :: "provider_policy \<Rightarrow> (int \<Rightarrow> ('e, 'a) attempt) \<Rightarrow> int \<Rightarrow> ('e retry_failure + 'a provider_execution) \<Rightarrow> bool" where
  "sound_result p op n r \<longleftrightarrow>
     (case r of
        Inr x \<Rightarrow> op n = Returns (px_value x) \<and> px_attempts x = n \<and> px_retries x = n - 1
      | Inl (OperationError e) \<Rightarrow> op n = Raises e
      | Inl (RouteFailure f) \<Rightarrow> op n = RouteFails f \<and>
          (\<not> re_retryable f \<or> n \<ge> pp_max_attempts p \<or>
            (pp_capability p = ''generation'' \<and> re_kind f \<in> Some ` set GENERATION_AMBIGUOUS_FAILURE_KINDS))
      | Inl (RetryPyError e) \<Rightarrow> \<exists>f. op n = RouteFails f \<and> e = ValueError)"

lemma decide_total: "1 \<le> n \<Longrightarrow> \<exists>d. decide_provider_retry p f n = Inr d"
  by (simp add: decide_provider_retry_def Let_def)

lemma attempts_sound:
  assumes "policy_ok p" "1 \<le> n" "n \<le> pp_max_attempts p" "attempts_from p op jitter n = (evs, r)"
  shows "n + int (length evs) \<le> pp_max_attempts p \<and> (\<forall>i < length evs. sound_event p op (n + int i) (evs ! i)) \<and>
    sound_result p op (n + int (length evs)) r"
  using assms
proof (induction p op jitter n arbitrary: evs r rule: attempts_from.induct)
  case (1 p op jitter n)
  note step = attempts_from.simps [of p op jitter n]
  show ?case
  proof (cases "op n")
    case (Returns v)
    then show ?thesis using 1(2-5) by (auto simp: step sound_result_def)
  next
    case (Raises e)
    then show ?thesis using 1(2-5) by (auto simp: step sound_result_def)
  next
    case (RouteFails f)
    obtain d where d: "decide_provider_retry p f n = Inr d" using decide_total 1(3) by blast
    note dr = decide_retry [OF d]
    show ?thesis
    proof (cases "pd_retry d")
      case False
      then have "evs = []" "r = Inl (RouteFailure f)" using 1(5) by (auto simp: step RouteFails d)
      then show ?thesis using False dr 1(4) by (auto simp: sound_result_def RouteFails)
    next
      case True
      show ?thesis
      proof (cases "compute_retry_delay p n (re_after f) (jitter n)")
        case (Inl e)
        then have "evs = []" "r = Inl (RetryPyError e)" using 1(5) True by (auto simp: step RouteFails d)
        moreover have "e = ValueError" using Inl by (auto simp: compute_retry_delay_def split: option.splits if_splits)
        ultimately show ?thesis using 1(4) by (simp add: sound_result_def RouteFails)
      next
        case (Inr delay)
        obtain es q where rest: "attempts_from p op jitter (n + 1) = (es, q)" by (metis surj_pair)
        let ?e = "\<lparr>pv_capability = pp_capability p, pv_attempt = n, pv_next = n + 1, pv_delay = delay,
          pv_kind = kind_text (re_kind f), pv_reason = pd_reason d\<rparr>"
        have evs: "evs = ?e # es" "r = q" using 1(5) True by (auto simp: step RouteFails d Inr rest)
        have lt: "n < pp_max_attempts p" using True dr by blast
        have IH: "n + 1 + int (length es) \<le> pp_max_attempts p \<and> (\<forall>i < length es. sound_event p op (n + 1 + int i) (es ! i)) \<and>
          sound_result p op (n + 1 + int (length es)) q"
          using 1(1) [OF RouteFails d _ Inr 1(2) _ _ rest] True lt 1(3) by simp
        have e: "sound_event p op n ?e"
          using delay_bounds(1,2) [OF 1(2) Inr] lt True dr by (simp add: sound_event_def RouteFails)
        have "sound_event p op (n + int i) (evs ! i)" if "i < length evs" for i
        proof (cases i)
          case 0
          then show ?thesis using e by (simp add: evs)
        next
          case (Suc j)
          then have "sound_event p op (n + 1 + int j) (es ! j)" using IH that by (simp add: evs)
          then show ?thesis by (simp add: evs Suc algebra_simps)
        qed
        moreover have "n + int (length evs) = n + 1 + int (length es)" by (simp add: evs)
        ultimately show ?thesis using IH by (simp add: evs(2) algebra_simps)
      qed
    qed
  qed
qed

end
