(* ===== verification/Further_Facts.thy ===== *)
theory Further_Facts
  imports Sample_States Sample_Rollouts Sample_Catalog Sample_Workers Sample_Oa Provider_Retry
begin

section \<open>Further facts\<close>

text \<open>Facts of the components on concrete inputs, beside the properties of the root theory.\<close>

text \<open>
  One queued job with attempts left and a time that cannot be read makes every claim on the
  in-memory queue raise an exception that is not the queue's own, whatever type is asked for.
\<close>

theorem unreadable_time_blocks_claims:
  assumes "get_job q i = Some j" "status j = QUEUED" "attempt_count j < max_attempts j"
    and "parse_wire_datetime (effective_available j) = Inl e" "worker \<noteq> []"
  shows "\<exists>p. claim_next_job q worker jtype upd now = Inl (Py p)"
  by (rule claim_poisoned [OF assms(1) _ assms(5)]) (use assms in \<open>simp add: poisons_def readable_def\<close>)

theorem unreadable_time_blocks_claims_witness:
  "\<exists>p. claim_next_job (sample_queue\<lparr>jobs := [(''job-1'', sample_job\<lparr>created_at := ''soon''\<rparr>)]\<rparr>)
      ''worker-1'' (Some ''ag.generate'') (Some t1) t1 = Inl (Py p)"
proof -
  have "parse_wire_datetime ''soon'' = Inl ValueError" by code_simp
  then show ?thesis
    by (intro unreadable_time_blocks_claims [of _ "''job-1''" "sample_job\<lparr>created_at := ''soon''\<rparr>" ValueError])
      (simp_all add: get_job_def sample_job_def effective_available_def)
qed

text \<open>
  Asking the in-memory queue twice for the same work is one job: after an enqueue, an enqueue
  of any valid queued job with the same type and idempotency key returns the stored job and
  changes nothing.
\<close>

theorem enqueue_idempotent:
  assumes "queue_inv q" "enqueue q j = Inr (j', q')"
    and "job_wf k" "status k = QUEUED" "job_type k = job_type j" "idempotency_key k = idempotency_key j"
  shows "enqueue q' k = Inr (j', q')"
proof -
  from enqueue_Inr [OF assms(1,2)] have *: "get_job q' (job_id j') = Some j'" "job_type j' = job_type j"
    "idempotency_key j' = idempotency_key j" by blast+
  have "queue_inv q'" using enqueue_effect [OF assms(1,2)] ..
  from queue_invD(4) [OF this, of "job_type j" "idempotency_key j" "job_id j'"] *
  have "map_of (idempotency_index q') (job_type j, idempotency_key j) = Some (job_id j')"
    unfolding get_job_def by blast
  with * assms(3-) show ?thesis by (simp add: enqueue_def get_job_def)
qed

theorem enqueue_idempotent_witness:
  "enqueue sample_queue (sample_job\<lparr>job_id := ''job-9'', created_at := t1\<rparr>) = Inr (sample_job, sample_queue)"
  by (rule enqueue_idempotent [OF queue_inv_empty sample_enqueue]) (simp_all add: sample_job_def job_wf_def COMMON_JOB_SCHEMA_VERSION_def)

text \<open>
  A transition of a well formed job is refused in exactly two cases: the move is not in the
  table, or it would start a job that has no attempt left; otherwise it moves the job and counts
  the attempt of a start.
\<close>

theorem transition_decided:
  assumes "job_wf j"
  shows "transition_common_job j st upd now =
    (if st = status j then Inr j
     else if st \<notin> set (VALID_JOB_TRANSITIONS (status j)) then
       Inl (JobQueueError ''job.transition_invalid''
         (''cannot transition job from '' @ status_text (status j) @ '' to '' @ status_text st) 409)
     else if st = RUNNING \<and> attempt_count j = max_attempts j then
       Inl (JobQueueError ''job.attempts_exhausted'' ''job has no remaining attempts'' 409)
     else Inr (j\<lparr>attempt_count := attempt_count j + (if st = RUNNING then 1 else 0), status := st,
       updated_at := or_default upd now\<rparr>))"
proof -
  have "attempt_count j \<le> max_attempts j" using assms by (simp add: job_wf_def)
  with assms show ?thesis by (auto simp: transition_common_job_def)
qed

theorem transition_decided_witness:
  "transition_common_job dead_job RUNNING None t1 =
    Inl (JobQueueError ''job.transition_invalid'' ''cannot transition job from FAILED to RUNNING'' 409)"
  by (subst transition_decided)
    (simp_all add: dead_job_def claimed_job_def sample_job_def job_wf_def COMMON_JOB_SCHEMA_VERSION_def)

text \<open>
  A retry requeues a running job, available again after the delay of its policy and with the
  attempts it had, when it is retryable and has attempts left; otherwise it fails the job for good
  and marks the error dead-lettered.
\<close>

theorem retry_splits:
  assumes "retry_job q i err fa pol now = Inr (j', q')"
  shows "\<exists>j. get_job q i = Some j \<and> status j = RUNNING \<and> same_job j j' \<and> attempt_count j' = attempt_count j \<and>
    get_job q' = (get_job q)(i := Some j') \<and>
    (if retryable j \<and> attempt_count j < max_attempts j
     then status j' = QUEUED \<and> \<not> dead_lettered (error j') \<and>
       (\<exists>d w. retry_delay_seconds (attempt_count j) (case pol of None \<Rightarrow> default_retry_policy | Some p \<Rightarrow> p) = Inr d \<and>
          add_seconds (or_default fa now) d = Inr w \<and> available_at j' = Some w)
     else status j' = FAILED \<and> \<not> retryable j' \<and> dead_lettered (error j'))"
  using assms
proof (rule retry_job_Inr)
  fix j
  assume *: "get_job q i = Some j" "status j = RUNNING" "same_job j j'" "attempt_count j' = attempt_count j"
    "q' = put_job q i j'"
    and split: "if retryable j \<and> attempt_count j < max_attempts j
     then status j' = QUEUED \<and> retryable j' \<and> \<not> dead_lettered (error j') \<and>
       (\<exists>d w. retry_delay_seconds (attempt_count j) (case pol of None \<Rightarrow> default_retry_policy | Some p \<Rightarrow> p) = Inr d \<and>
          add_seconds (or_default fa now) d = Inr w \<and> available_at j' = Some w)
     else status j' = FAILED \<and> \<not> retryable j' \<and> dead_lettered (error j')"
  from * split show ?thesis by (intro exI [of _ j]) (auto split: if_splits)
qed

definition retried where
  "retried = projr (retry_job claimed_queue ''job-1'' None (Some t1) None t1)"

lemma retried: "retry_job claimed_queue ''job-1'' None (Some t1) None t1 = Inr (fst retried, snd retried)"
proof -
  have "\<not> isl (retry_job claimed_queue ''job-1'' None (Some t1) None t1)" by code_simp
  from sum.collapse(2) [OF this] show ?thesis by (simp add: retried_def)
qed

theorem retry_splits_witness:
  "status (fst retried) = QUEUED \<and> attempt_count (fst retried) = 1"
proof -
  have "get_job claimed_queue ''job-1'' = Some claimed_job"
    "attempt_count claimed_job = 1" "max_attempts claimed_job = 3" "retryable claimed_job"
    by (simp_all add: claimed_queue_def claimed_job_def sample_job_def get_job_def)
  with retry_splits [OF retried] show ?thesis by auto
qed

text \<open>
  The delay before a retry lies between the two bounds of its policy and never shrinks as
  attempts go by.
\<close>

theorem retry_delay_bounded:
  assumes "make_retry_policy i m b = Inr p" "a \<le> a'" "retry_delay_seconds a p = Inr d" "retry_delay_seconds a' p = Inr d'"
  shows "i \<le> d \<and> d \<le> d' \<and> d' \<le> m"
proof -
  have p: "policy_wf p" "i = initial_delay_seconds p" "m = max_delay_seconds p"
    using assms(1) by (simp_all add: make_retry_policy_wf)
  from retry_delay_bounds(1) [OF p(1) assms(3)] retry_delay_mono [OF p(1) assms(2-4)]
    retry_delay_bounds(2) [OF p(1) assms(4)] p show ?thesis by simp
qed

theorem retry_delay_bounded_witness:
  "(30::int) \<le> 60 \<and> (60::int) \<le> 900 \<and> (900::int) \<le> 900"
proof (rule retry_delay_bounded)
  show "make_retry_policy 30 900 2 = Inr default_retry_policy" by code_simp
  show "retry_delay_seconds 2 default_retry_policy = Inr 60" by code_simp
  show "retry_delay_seconds 20 default_retry_policy = Inr 900" by code_simp
qed simp

text \<open>
  A timestamp the service writes reads back as the instant it was written from, so that
  writing loses no two instants, and adding seconds to one is exact.
\<close>

theorem wire_timestamp_round_trip:
  assumes "in_range t"
  shows "parse_wire_datetime (wire_timestamp t) = Inr t \<and>
    (in_range (t + n * 1000000) \<longrightarrow> add_seconds (wire_timestamp t) n = Inr (wire_timestamp (t + n * 1000000)))"
  using parse_wire_timestamp [OF assms] by (auto simp: add_seconds_Inr)

theorem wire_timestamp_round_trip_witness:
  "parse_wire_datetime (wire_timestamp 63902822460000000) = Inr 63902822460000000 \<and>
   add_seconds (wire_timestamp 63902822460000000) 30 = Inr t2"
proof -
  have "in_range 63902822460000000" "in_range (63902822460000000 + 30 * 1000000)"
    "wire_timestamp (63902822460000000 + 30 * 1000000) = t2" by code_simp+
  then show ?thesis using wire_timestamp_round_trip [of 63902822460000000 30] by simp
qed

text \<open>
  A replay plan starts from a failed, dead-lettered job and gives a new queued job with the
  source's work and attempts counted from zero, under the ids asked for, whose lineage names the
  source.
\<close>

theorem replay_plan_from_dead:
  assumes "plan_dead_letter_replay j (PStr rid) (PStr idem) who reason ra now None = Inr dec"
  shows "status j = FAILED \<and> dead_lettered (error j) \<and> job_wf (replay_job dec) \<and>
    job_id (replay_job dec) = rid \<and> idempotency_key (replay_job dec) = idem \<and>
    status (replay_job dec) = QUEUED \<and> attempt_count (replay_job dec) = 0 \<and>
    max_attempts (replay_job dec) = max_attempts j \<and> job_type (replay_job dec) = job_type j \<and>
    payload (replay_job dec) = payload j \<and> error (replay_job dec) = PNone \<and>
    replay_lineage (replay_job dec) = PDict (lineage dec) \<and> dget (lineage dec) ''source_job_id'' = PStr (job_id j)"
  using plan_replay_Inr [OF assms] by (simp add: default_replay_policy_def)

definition sample_plan where
  "sample_plan = plan_dead_letter_replay dead_job (PStr ''job-2'') (PStr ''key-2'') (PStr ''operator'')
     (PStr ''provider restored'') (Some t1) t1 None"

definition planned where
  "planned = (case sample_plan of Inr d \<Rightarrow> d)"

lemma planned: "plan_dead_letter_replay dead_job (PStr ''job-2'') (PStr ''key-2'') (PStr ''operator'')
     (PStr ''provider restored'') (Some t1) t1 None = Inr planned"
proof -
  have "\<not> isl sample_plan" by code_simp
  then show ?thesis by (cases sample_plan) (simp_all add: planned_def sample_plan_def)
qed

theorem replay_plan_from_dead_witness:
  "status (replay_job planned) = QUEUED \<and> job_id (replay_job planned) = ''job-2''"
  using replay_plan_from_dead [OF planned] by simp

text \<open>
  The summary of a queue counts every stored job exactly once, under its status.
\<close>

theorem summary_partitions:
  assumes "queue_reachable q"
  shows "sum_total (queue_summary q) = length (jobs q) \<and>
    sum_active (queue_summary q) + sum_terminal (queue_summary q) = sum_total (queue_summary q) \<and>
    sum_list (map snd (sum_statuses (queue_summary q))) = sum_total (queue_summary q) \<and>
    (\<forall>st. map_of (sum_statuses (queue_summary q)) st =
      Some (card {i. \<exists>j. get_job q i = Some j \<and> status j = st}))"
proof (intro conjI allI)
  let ?js = "map snd (jobs q)"
  have all: "queue_summary q = summarize_jobs ?js" by (simp add: queue_summary_def list_jobs_def)
  show "sum_total (queue_summary q) = length (jobs q)"
    "sum_active (queue_summary q) + sum_terminal (queue_summary q) = sum_total (queue_summary q)"
    "sum_list (map snd (sum_statuses (queue_summary q))) = sum_total (queue_summary q)"
    using count_status_partition [of ?js] by (simp_all add: all summarize_jobs_def JOB_STATUSES_def)
  fix st
  have d: "distinct (map fst (jobs q))" using queue_invD(1) [OF queue_reachable_inv [OF assms]] .
  have "count_status ?js st = length (filter (\<lambda>p. status (snd p) = st) (jobs q))"
    by (simp add: count_status_def filter_map o_def)
  also have "\<dots> = card (fst ` set (filter (\<lambda>p. status (snd p) = st) (jobs q)))"
    using d by (metis distinct_card distinct_map_filter length_map list.set_map)
  also have "fst ` set (filter (\<lambda>p. status (snd p) = st) (jobs q)) = {i. \<exists>j. get_job q i = Some j \<and> status j = st}"
    using d by (force simp: get_job_def image_iff)
  finally show "map_of (sum_statuses (queue_summary q)) st =
      Some (card {i. \<exists>j. get_job q i = Some j \<and> status j = st})"
    by (cases st) (simp_all add: all summarize_jobs_def JOB_STATUSES_def)
qed

theorem summary_partitions_witness:
  "map_of (sum_statuses (queue_summary dead_queue)) FAILED =
    Some (card {i. \<exists>j. get_job dead_queue i = Some j \<and> status j = FAILED})"
  using summary_partitions [OF dead_reachable] by blast

text \<open>
  A batch polls at most as often as its configuration allows; only its last poll may be idle,
  or failed when it stops on failure, and it ends early only after such a poll.
\<close>

theorem batch_bounded:
  assumes "run_worker_batch env stop st = (Inr xs, st')"
  shows "length xs \<le> nat (cfg_max_jobs (config env)) \<and>
    (\<forall>x \<in> set (butlast xs). x_status x \<noteq> ''IDLE'' \<and> (stop \<longrightarrow> x_status x \<noteq> ''FAILED'')) \<and>
    (length xs < nat (cfg_max_jobs (config env)) \<longrightarrow>
      xs \<noteq> [] \<and> (x_status (last xs) = ''IDLE'' \<or> x_status (last xs) = ''FAILED'' \<and> stop))"
  using assms batch_length batch_stops batch_full unfolding run_worker_batch_def by blast

definition sample_batch where
  "sample_batch = run_worker_batch (sample_env memory_ops) True (sample_state sample_queue)"

theorem batch_bounded_witness:
  "length (projr (fst sample_batch)) \<le> 5"
proof -
  have "\<not> isl (fst sample_batch)" by code_simp
  from sum.collapse(2) [OF this] have "run_worker_batch (sample_env memory_ops) True (sample_state sample_queue) =
      (Inr (projr (fst sample_batch)), snd sample_batch)"
    by (simp add: sample_batch_def)
  from batch_bounded [OF this] show ?thesis by (simp add: sample_env_def sample_config_def)
qed

text \<open>
  A job that is cancelled while its handler runs: the completion is refused, and the refusal
  escapes the poll as an exception of the queue.
\<close>

theorem cancelled_job_escapes_poll:
  assumes "queue env = memory_ops" "\<not> finalizes env" "queue_inv (rs_queue st)"
    and "get_job (rs_queue st) (job_id job) = Some j" "status j = CANCELLED"
  shows "\<exists>d. fst (handler_done env job result st) = Inl (JobQueueError ''job.transition_invalid'' d 409)"
  by (rule memory.cancelled_escapes) (use assms in simp_all)

definition cancelled_queue :: memory_queue where
  "cancelled_queue = snd (projr (cancel_job claimed_queue ''job-1'' (Some t1) t1))"

theorem cancelled_job_escapes_poll_witness:
  "\<exists>d. fst (handler_done (sample_env memory_ops) claimed_job [] (sample_state cancelled_queue)) =
    Inl (JobQueueError ''job.transition_invalid'' d 409)"
proof -
  have c: "cancel_job claimed_queue ''job-1'' (Some t1) t1 =
      Inr (claimed_job\<lparr>status := CANCELLED\<rparr>, cancelled_queue)"
    by code_simp
  have "queue_inv claimed_queue" using claimed_reachable by (rule queue_reachable_inv)
  from memory.cancel_law [OF this, of "''job-1''" "Some t1" t1] c
  have "queue_inv cancelled_queue" "get_job cancelled_queue ''job-1'' = Some (claimed_job\<lparr>status := CANCELLED\<rparr>)"
    by auto
  then show ?thesis
    by (intro cancelled_job_escapes_poll [where j = "claimed_job\<lparr>status := CANCELLED\<rparr>"]) (simp_all add: sample_env_def sample_state_def claimed_job_def sample_job_def)
qed

text \<open>
  A guarded emission never raises: it stores exactly the heartbeat it reports under the
  emitter's service and worker and leaves the other entries alone, or it reports a failure and
  stores nothing; either way the store keeps its invariant.
\<close>

theorem safe_emit_exact:
  assumes "store_inv st" "safe_emit em st hs job trace meta observed now = (outcome, st')"
  shows "store_inv st' \<and>
    (case outcome of
      Emitted h \<Rightarrow> heartbeat_wf h \<and> hb_status h = hs \<and> hb_job h = job \<and>
        map_of st' = (map_of st)((em_service em, em_worker em) := Some h)
    | Emit_Failed _ _ _ \<Rightarrow> st' = st)"
  using safe_emit_inv [OF assms(1), of em hs job trace meta observed now] assms(2)
  by (cases rule: safe_emit_cases [of em st hs job trace meta observed now])
    (auto simp del: map_of_eq_Some_iff)

theorem safe_emit_exact_witness:
  "store_inv (snd (safe_emit sample_emitter [] BUSY (Some ''job-1'') None None (Some t1) t1))"
  by (rule conjunct1 [OF safe_emit_exact [OF _ prod.collapse [symmetric]]]) (simp add: store_inv_def)

text \<open>
  A heartbeat that is stale stays stale: a later check with the same threshold finds it stale
  again, whatever the two clocks say in texts.
\<close>

theorem staleness_monotone:
  assumes "worker_heartbeat_is_stale h s (Some w) now = Inr True"
    and "worker_heartbeat_is_stale h s (Some w') now' = Inr b"
    and "parse_wire_datetime w = Inr t" "parse_wire_datetime w' = Inr t'" "t \<le> t'"
  shows "b = True"
  using stale_mono [OF assms] by simp

definition sample_heartbeat :: heartbeat where
  "sample_heartbeat = \<lparr>hb_service = ''nex-cx'', hb_worker = ''worker-1'', hb_type = ''ingest'', hb_status = IDLE,
     hb_job = None, hb_trace = None, hb_started = t0, hb_seen = t0, hb_metadata = []\<rparr>"

theorem staleness_monotone_witness:
  "(projr (worker_heartbeat_is_stale sample_heartbeat 30 (Some t3) 0)) = True"
proof (rule staleness_monotone)
  show "worker_heartbeat_is_stale sample_heartbeat 30 (Some t1) 0 = Inr True" by code_simp
  show "worker_heartbeat_is_stale sample_heartbeat 30 (Some t3) 0 =
      Inr (projr (worker_heartbeat_is_stale sample_heartbeat 30 (Some t3) 0))" by code_simp
  show "parse_wire_datetime t1 = Inr 63902822460000000" by code_simp
  show "parse_wire_datetime t3 = Inr 63902822580000000" by code_simp
qed simp

text \<open>
  The summary of a list of heartbeats counts each once by status and once by service.
\<close>

theorem heartbeat_summary_counts:
  assumes "summarize_worker_heartbeats hs stale checked now = Inr res"
  shows "hs_total res = length hs \<and> sum_list (map snd (hs_statuses res)) = length hs \<and>
    sum_list (map snd (hs_services res)) = length hs \<and> hs_active res \<le> length hs \<and> hs_stale res \<le> length hs"
  using summarize_heartbeats_sums [OF assms] by simp

theorem heartbeat_summary_counts_witness:
  "hs_total (projr (summarize_worker_heartbeats [sample_heartbeat, sample_heartbeat] 30 (Some t1) 0)) =
    length [sample_heartbeat, sample_heartbeat]"
proof -
  have "\<not> isl (summarize_worker_heartbeats [sample_heartbeat, sample_heartbeat] 30 (Some t1) 0)" by code_simp
  from heartbeat_summary_counts [OF sum.collapse(2) [OF this, symmetric]] show ?thesis by blast
qed

text \<open>
  The cancel and retry routes keep the invariant of the queue they serve. They change nothing
  unless the request is authorised, and then at most the job they name, by one step of its life,
  and they serve the changed job.
\<close>

theorem control_routes_step:
  assumes "queue_inv q"
    and "cancel_service_job memory_ops service audience verdict now q i body = (a, q') \<or>
      retry_service_job memory_ops service audience policy verdict now q i body = (a, q')"
  shows "queue_inv q' \<and> (q' = q \<or> (\<exists>j j'. verdict = None \<and> get_job q i = Some j \<and> (j' = j \<or> job_step j j') \<and>
    get_job q' = (get_job q)(i := Some j') \<and> (\<exists>d. a = Served d)))"
  using assms(2)
proof
  assume "cancel_service_job memory_ops service audience verdict now q i body = (a, q')"
  from memory.route_cancel [OF assms(1) this] show ?thesis by auto
next
  assume "retry_service_job memory_ops service audience policy verdict now q i body = (a, q')"
  from memory.route_retry [OF assms(1) this] show ?thesis by auto
qed

theorem control_routes_step_witness:
  "queue_inv (snd (cancel_service_job memory_ops ''nex-cx'' ''nex-cx'' None t1 sample_queue ''job-1'' None))"
  by (rule conjunct1 [OF control_routes_step [OF sample_inv disjI1 [OF prod.collapse [symmetric]]]])

text \<open>
  The replay route answers with a job of the source's type under the requested key, that the
  queue now holds; it leaves the dead source as it is and creates at most one job, queued.
\<close>

theorem replay_route_keeps_source:
  assumes "sql_inv (wire_database loads) tbl"
    and "replay_and_enqueue (sql_ops (wire_database loads)) now tbl i body = Inr (source, dec, j, tbl')"
  shows "sql_inv (wire_database loads) tbl' \<and> status source = FAILED \<and> dead_lettered (error source) \<and>
    job_type j = job_type source \<and> idempotency_key j = idempotency_key (replay_job dec) \<and>
    sql_get_job (wire_database loads) tbl' (job_id j) = Some j \<and>
    sql_get_job (wire_database loads) tbl' i = Some source \<and>
    (sql_get_job (wire_database loads) tbl' = sql_get_job (wire_database loads) tbl \<or>
     sql_get_job (wire_database loads) tbl (job_id j) = None \<and> status j = QUEUED)"
  using wire.route_replay [OF assms] by simp

definition dead_table :: table where
  "dead_table = snd (projr (sql_dead_letter sample_db leased_table ''job-1'' None (Some t2) t2))"

definition sql_replayed where
  "sql_replayed = projr (replay_and_enqueue (sql_ops sample_db) t3 dead_table ''job-1'' (Some (replay_body ''key-2'' t3)))"

theorem replay_route_keeps_source_witness:
  "status (fst sql_replayed) = FAILED"
proof -
  have "\<not> isl (sql_dead_letter sample_db leased_table ''job-1'' None (Some t2) t2)" by code_simp
  from sum.collapse(2) [OF this] have "sql_dead_letter sample_db leased_table ''job-1'' None (Some t2) t2 =
      Inr (fst (projr (sql_dead_letter sample_db leased_table ''job-1'' None (Some t2) t2)), dead_table)"
    by (simp add: dead_table_def)
  from sql_dead_letter_Inr [OF sample_leased_inv this] have inv: "sql_inv sample_db dead_table" by blast
  have "\<not> isl (replay_and_enqueue (sql_ops sample_db) t3 dead_table ''job-1'' (Some (replay_body ''key-2'' t3)))"
    by code_simp
  from sum.collapse(2) [OF this] have "replay_and_enqueue (sql_ops sample_db) t3 dead_table ''job-1'' (Some (replay_body ''key-2'' t3)) =
     Inr (fst sql_replayed, fst (snd sql_replayed), fst (snd (snd sql_replayed)), snd (snd (snd sql_replayed)))"
    by (simp add: sql_replayed_def)
  from replay_route_keeps_source [OF inv [unfolded sample_db_def] this [unfolded sample_db_def]]
  show ?thesis by blast
qed

text \<open>
  No answer about a job shows its payload or its idempotency key.
\<close>

theorem answers_hide_payload:
  assumes "build_service_job_control_response service act j = Inr d" "map_of d ''job'' = Some (PDict shown)"
  shows "map_of shown ''payload'' = None \<and> map_of shown ''idempotency_key'' = None"
  using assms by (rule response_hides)

definition sample_answer where
  "sample_answer = projr (build_service_job_control_response ''nex-cx'' ''read'' sample_job)"

definition sample_shown where
  "sample_shown = (case map_of sample_answer ''job'' of Some (PDict d) \<Rightarrow> d)"

theorem answers_hide_payload_witness:
  "map_of sample_shown ''payload'' = None \<and> map_of sample_shown ''idempotency_key'' = None"
proof (rule answers_hide_payload)
  have "\<not> isl (build_service_job_control_response ''nex-cx'' ''read'' sample_job)" by code_simp
  then show "build_service_job_control_response ''nex-cx'' ''read'' sample_job = Inr sample_answer"
    by (simp add: sample_answer_def)
  show "map_of sample_answer ''job'' = Some (PDict sample_shown)" by code_simp
qed

text \<open>
  A replay under the idempotency key of its own source creates nothing: the queue stays as it
  is and the route answers with the dead job itself.
\<close>

theorem replay_under_own_key:
  assumes "queue_inv q" "replay_and_enqueue memory_ops now q i body = Inr (source, dec, j, q')"
    and "required_payload_string body ''idempotency_key'' = Inr (idempotency_key source)"
  shows "j = source \<and> q' = q"
  using assms by (rule replay_same_key)

definition own_key where
  "own_key = projr (replay_and_enqueue memory_ops t2 dead_queue ''job-1'' (Some (replay_body ''key-1'' t2)))"

theorem replay_under_own_key_witness:
  "fst (snd (snd own_key)) = fst own_key \<and> snd (snd (snd own_key)) = dead_queue"
proof (rule replay_under_own_key [OF queue_reachable_inv [OF dead_reachable]])
  have "\<not> isl (replay_and_enqueue memory_ops t2 dead_queue ''job-1'' (Some (replay_body ''key-1'' t2)))" by code_simp
  from sum.collapse(2) [OF this] show "replay_and_enqueue memory_ops t2 dead_queue ''job-1'' (Some (replay_body ''key-1'' t2)) =
      Inr (fst own_key, fst (snd own_key), fst (snd (snd own_key)), snd (snd (snd own_key)))"
    by (simp add: own_key_def)
  have "idempotency_key (fst own_key) = ''key-1''" by code_simp
  then show "required_payload_string (Some (replay_body ''key-1'' t2)) ''idempotency_key'' = Inr (idempotency_key (fst own_key))"
    by (simp add: required_payload_string_def replay_body_def Let_def)
qed

text \<open>
  A replay whose time cannot be read is accepted, and the job it creates makes every later
  claim of the in-memory queue raise an exception that is not the queue's own.
\<close>

theorem replay_with_unreadable_time:
  assumes "queue_inv q" "replay_and_enqueue memory_ops now q i body = Inr (source, dec, j, q')"
    and "get_job q (job_id j) = None"
    and "optional_timestamp body = Inr (Some w)" "parse_wire_datetime w = Inl e" "worker \<noteq> []"
  shows "\<exists>p. claim_next_job q' worker jtype upd n = Inl (Py p)"
  using assms by (rule replay_poisons)

theorem replay_with_unreadable_time_witness:
  "\<exists>p. claim_next_job (snd (snd (snd bad_replay_parts))) ''worker-1'' None (Some t2) t2 = Inl (Py p)"
proof (rule replay_with_unreadable_time [OF queue_reachable_inv [OF dead_reachable]])
  show "replay_and_enqueue memory_ops t1 dead_queue ''job-1'' (Some (replay_body ''key-2'' ''soon'')) =
      Inr (fst bad_replay_parts, fst (snd bad_replay_parts), fst (snd (snd bad_replay_parts)), snd (snd (snd bad_replay_parts)))"
    using sample_replay by (simp add: sample_replay_def)
  have "job_id (fst (snd (snd bad_replay_parts))) = ''job-2''" by code_simp
  then show "get_job dead_queue (job_id (fst (snd (snd bad_replay_parts)))) = None"
    by (simp add: get_job_def dead_queue_def)
  show "optional_timestamp (Some (replay_body ''key-2'' ''soon'')) = Inr (Some ''soon'')" by code_simp
  show "parse_wire_datetime ''soon'' = Inl ValueError" by code_simp
qed simp

text \<open>
  A transition of an execution that succeeds ends in the state asked for, along the table, and
  an execution in a terminal state can only be asked to stay there, unchanged.
\<close>

theorem execution_transition_sound:
  assumes "transition_cx_worker_execution d tgt observed code now = Inr e"
  shows "\<exists>n. validate_cx_worker_execution d = Inr n \<and> execution_state_of tgt = Inr (ex_state e) \<and>
    validate_cx_worker_execution (execution_to_dict e) = Inr e \<and>
    (e = n \<or> ex_state e \<in> set (VALID_EXECUTION_TRANSITIONS (ex_state n)) \<and> ex_version e = ex_version n + 1 \<and>
      ex_updated n \<le> ex_updated e) \<and>
    (x_terminal (ex_state n) \<longrightarrow> e = n)"
  using assms
proof (rule transition_execution_Inr)
  fix n target
  assume *: "validate_cx_worker_execution d = Inr n" "execution_state_of tgt = Inr target" "execution_wf e"
    "target = ex_state n \<and> e = n \<or> execution_step n e \<and> ex_state e = target"
  show ?thesis
  proof (cases "execution_step n e")
    case True
    have "ex_state e \<in> set (VALID_EXECUTION_TRANSITIONS (ex_state n))" using True by (simp add: execution_step_def)
    with * True step_fields [OF True] validate_execution_to_dict [OF *(3)] show ?thesis
      by (intro exI [of _ n]) (auto simp: x_terminal_iff)
  next
    case False
    with * validate_execution_to_dict [OF *(3)] show ?thesis by auto
  qed
qed

definition running_execution :: cx_execution where
  "running_execution = projr (transition_cx_worker_execution (execution_to_dict sample_execution) (PStr ''RUNNING'') (Some t2) PNone t2)"

theorem execution_transition_sound_witness:
  "ex_state running_execution = X_RUNNING \<and>
   validate_cx_worker_execution (execution_to_dict running_execution) = Inr running_execution"
proof -
  have "\<not> isl (transition_cx_worker_execution (execution_to_dict sample_execution) (PStr ''RUNNING'') (Some t2) PNone t2)"
    "execution_state_of (PStr ''RUNNING'') = Inr X_RUNNING" by code_simp+
  with execution_transition_sound [of "execution_to_dict sample_execution" "PStr ''RUNNING''" "Some t2" PNone t2 running_execution]
  show ?thesis by (auto simp: running_execution_def)
qed

text \<open>
  A job has one holder: whoever passes the lease check on it, at whatever time and with
  whatever policy, is the same worker.
\<close>

theorem lease_has_one_holder:
  assumes "require_active tbl job w1 ttl1 obs1 now1 = Inr l1" "require_active tbl job w2 ttl2 obs2 now2 = Inr l2"
  shows "py_strip w1 = py_strip w2"
  using assms by (rule lease_exclusive)

theorem lease_has_one_holder_witness:
  "py_strip ''worker-1'' = py_strip '' worker-1 ''"
proof (rule lease_has_one_holder [OF sample_lease])
  show "require_active leased_table ''job-1'' '' worker-1 '' (Some 120) (Some t1) t1 = Inr sample_lease" by code_simp
qed

text \<open>
  A claimed execution is backed by the queue: the claim started one queued job of the
  workload's type, the row carries the worker and the claim's time, and the execution it returns
  names the worker, the attempt and the deadline of that lease.
\<close>

theorem claimed_execution_backed:
  assumes "sql_inv (wire_database loads) tbl" "\<forall>r \<in> set tbl. py_strip (row_job_id r) = row_job_id r"
    and "claim_next_worker_execution (wire_database loads) tbl worker wtype workload ttl observed now = (Inr (Some x), tbl')"
  shows "\<exists>obs j0 job r. parse_wire_datetime (or_default observed now) = Inr obs \<and> sql_inv (wire_database loads) tbl' \<and>
    sql_get_job (wire_database loads) tbl (job_id job) = Some j0 \<and> status j0 = QUEUED \<and> job_step j0 job \<and>
    map_of CURRENT_CX_WORKLOADS (py_strip workload) = Some (job_type job) \<and>
    sql_get_job (wire_database loads) tbl' = (sql_get_job (wire_database loads) tbl)(job_id job := Some job) \<and>
    find_row tbl' (job_id job) = Some r \<and> row_locked_by r = Some (py_strip worker) \<and> row_locked_at r = Some obs \<and>
    ex_worker x = py_strip worker \<and> ex_state x = X_CLAIMED \<and> ex_attempt x = attempt_count job \<and>
    ex_lease x = Some (obs + (case ttl of None \<Rightarrow> default_lease_ttl | Some t \<Rightarrow> t) * 1000000)"
  by (rule wire.claim_grants [OF assms]) blast

theorem claimed_execution_backed_witness:
  "\<exists>job. ex_worker sample_execution = ''worker-1'' \<and> ex_attempt sample_execution = attempt_count job \<and>
    sql_get_job sample_db leased_table = (sql_get_job sample_db [sample_row])(job_id job := Some job)"
proof -
  have "py_strip ''worker-1'' = ''worker-1''" by code_simp
  with claimed_execution_backed [OF sample_table_inv [unfolded sample_db_def] sample_leased_ids
      sample_execution_claimed [unfolded sample_db_def]] show ?thesis
    unfolding sample_db_def by metis
qed

text \<open>
  A claim with a blank worker type commits before it fails: no execution is returned and the
  job stays running under the claim.
\<close>

theorem blank_worker_type_strands_job:
  assumes "sql_inv (wire_database loads) tbl" "map_of CURRENT_CX_WORKLOADS (py_strip workload) = Some jtype"
    and "py_strip worker \<noteq> []" "parse_wire_datetime (or_default observed now) = Inr obs"
    and "sql_claim (wire_database loads) tbl (py_strip worker) (Some jtype) (Some (wire_timestamp obs)) now = Inr (Some job, tbl')"
    and "py_strip wtype = []"
  shows "(\<exists>e. claim_next_worker_execution (wire_database loads) tbl worker wtype workload ttl observed now = (Inl e, tbl')) \<and>
    sql_get_job (wire_database loads) tbl' (job_id job) = Some job \<and> status job = RUNNING"
  using wire.claim_blank_type [OF assms] by blast

theorem blank_worker_type_strands_job_witness:
  "(\<exists>e. claim_next_worker_execution sample_db [sample_row] ''worker-1'' '' '' ''document_ingestion'' None (Some t1) t1 =
      (Inl e, leased_table)) \<and>
   sql_get_job sample_db leased_table (job_id sample_claimed_job) = Some sample_claimed_job \<and> status sample_claimed_job = RUNNING"
proof -
  have strip: "py_strip ''document_ingestion'' = ''document_ingestion''" "py_strip ''worker-1'' = ''worker-1''"
    "py_strip '' '' = []" "parse_wire_datetime t1 = Inr 63902822460000000" by code_simp+
  show ?thesis
    unfolding sample_db_def
    by (rule blank_worker_type_strands_job [OF sample_table_inv [unfolded sample_db_def], where jtype = "''cx.document_ingestion''"
            and obs = 63902822460000000])
      (simp_all add: strip sample_lease_parts sample_or_default sample_sql_claim [unfolded sample_db_def])
qed

text \<open>
  Every operation of a rollout moves it along the table of moves, keeps its id, identity and
  lineage, counts its revision and does not let its time go back; a blocked or rolled back rollout
  moves no more.
\<close>

theorem rollout_moves_forward:
  assumes "rollout_step digest r r'"
  shows "ro_state r' \<in> set (rollout_moves (ro_state r)) \<and> same_lineage r r' \<and> ro_state r \<notin> {BLOCKED, ROLLED_BACK}"
  using rollout_step_moves [OF assms] by (cases "ro_state r") auto

theorem rollout_moves_forward_witness:
  "ro_state active_rollout \<in> set (rollout_moves (ro_state passed_rollout)) \<and> same_lineage passed_rollout active_rollout"
  using rollout_moves_forward [OF rollout_step.activate [OF sample_activate, of sample_digest]] by blast

text \<open>
  An admitted request is placed on a healthy node of a fresh snapshot of its own revision that
  has the GPUs, the memory and the concurrency left, and on the least such node by utilisation,
  queue and name; a request that is not admitted gets no reservation.
\<close>

theorem admission_places_least:
  assumes "admit_capacity digest s r evaluated policy rs = Inr d"
  defines "p \<equiv> (case policy of None \<Rightarrow> default_capacity_policy | Some p \<Rightarrow> p)"
  shows "ad_status d = ''BLOCKED'' \<and> ad_reservation d = None \<or>
    (\<exists>n v. ad_status d = ''ADMITTED'' \<and> ad_reservation d = Some v \<and> is_fresh s evaluated = Inr True \<and>
      cr_fingerprint r = fingerprint digest (sn_identity s) \<and> n \<in> set (sn_nodes s) \<and> rv_node v = gn_id n \<and>
      rv_gpus v = cr_gpus r \<and> rv_memory v = cr_memory r \<and> gn_health n = ''HEALTHY'' \<and>
      sum_list (map rv_gpus (held_on n rs)) + cr_gpus r \<le> gn_allocatable n \<and>
      sum_list (map rv_memory (held_on n rs)) + cr_memory r \<le> memory_available n \<and>
      gn_active n + sum_list (map rv_concurrency (held_on n rs)) + cr_concurrency r \<le> cp_active p \<and>
      (\<forall>m. m \<in> set (sn_nodes s) \<and> node_failure m r p (filter (\<lambda>v. rv_state v = ''RESERVED'') rs) = None \<longrightarrow>
        node_rank n \<le> node_rank m))"
  using assms(1)
proof (cases rule: admit_Inr)
  case (admitted n v)
  note room = node_failure_None [OF admitted(6), folded p_def]
  show ?thesis
    by (intro disjI2 exI [of _ n] exI [of _ v]) (use admitted room in \<open>auto simp: p_def\<close>)
qed (auto simp: blocked_def)

theorem admission_places_least_witness:
  "gn_health sample_node = ''HEALTHY'' \<and> gn_active sample_node + 0 + 4 \<le> cp_active default_capacity_policy"
  using admission_places_least [OF sample_admit]
  by (auto simp: sample_admission_def sample_snapshot_def held_on_def sample_request_def)

text \<open>
  No update of a rollout is lost: of two transitions written from the same revision the
  second is refused with a conflict, whatever it read before and whatever it would write.
\<close>

theorem no_lost_rollout_update:
  assumes "repo_inv s" "persist_transition (repo_store digest) new_id seen s r n type evidence = Inr (r', s')"
    and "ro_id r2 = ro_id r" "service_event id2 r2 type2 (Some (rollout_state_text (ro_state c2))) ev2 = Inr e2"
    and "service_get (repo_store digest) seen2 (ro_id r2) = Inr c2"
  shows "\<exists>d. persist_transition (repo_store digest) id2 seen2 s' r2 n type2 ev2 =
    Inl (ServiceError 409 ''MO_ROLLOUT_REVISION_CONFLICT'' d)"
  by (rule repo.lost_update [OF assms refl])

theorem no_lost_rollout_update_witness:
  "\<exists>d. persist_transition (repo_store sample_digest) ''3'' registered_repo validating_repo validating_rollout 1
      ''rollout.validation_started'' None = Inl (ServiceError 409 ''MO_ROLLOUT_REVISION_CONFLICT'' d)"
proof (rule no_lost_rollout_update [OF registered_repo_inv sample_persisted refl])
  show "service_get (repo_store sample_digest) registered_repo (ro_id validating_rollout) = Inr registered_rollout"
    by code_simp
  show "service_event ''3'' validating_rollout ''rollout.validation_started''
      (Some (rollout_state_text (ro_state registered_rollout))) None =
      Inr (projr (service_event ''3'' validating_rollout ''rollout.validation_started''
        (Some (rollout_state_text (ro_state registered_rollout))) None))"
    by code_simp
qed

text \<open>
  A catalog entry only moves forward: in every run of the service, however calls interleave, an
  entry that was ever stored still is, with its model data, at most two transitions later, each
  counted by its revision; and a retired entry is final.
\<close>

theorem entries_move_forward:
  assumes "validate_active_bindings es bs = Inr ()" "first_bindings bs" "bootstrap_if_empty empty_catalog es bs = (True, s0)"
    and run: "catalog_run memory_catalog s0 hs" "h \<in> set hs" and e: "repo_entry h i = Some e"
  shows "\<exists>c. repo_entry (hd hs) i = Some c \<and> evolves e c \<and> ce_revision c \<le> ce_revision e + 2 \<and>
    (ce_state e = ''RETIRED'' \<longrightarrow> c = e)"
proof -
  obtain c where c: "repo_entry (hd hs) i = Some c" "evolves e c"
    using catalog.run_inv [OF run(1)] bootstrap_good [OF assms(1-3)] run(2) e by blast
  moreover have "ce_revision c \<le> ce_revision e + 2"
    using c(2) by (auto simp: evolves_def state_rank_def split: if_splits)
  ultimately show ?thesis using evolves_retired [OF c(2)] by blast
qed

theorem entries_move_forward_witness:
  "\<exists>c. repo_entry raced_catalog ''cat-2'' = Some c \<and> evolves (sample_entry ''cat-2'' ''r2'' ''dep-2'') c"
proof -
  have e: "repo_entry sample_catalog ''cat-2'' = Some (sample_entry ''cat-2'' ''r2'' ''dep-2'')" by code_simp
  have "sample_catalog \<in> set [raced_catalog, switched_catalog, sample_catalog]" by simp
  from entries_move_forward [OF sample_valid sample_first sample_bootstrap raced_run this e]
  show ?thesis by auto
qed

text \<open>
  The check of a retirement and its write are two operations: an activation between them leaves
  an active alias on a retired entry, in a catalog that fails the program's own consistency check.
\<close>

theorem retirement_races_with_activation:
  "catalog_run memory_catalog sample_catalog [raced_catalog, switched_catalog, sample_catalog] \<and>
    validate_active_bindings (map snd (cr_entries sample_catalog)) (map snd (cr_bindings sample_catalog)) = Inr () \<and>
    validate_active_bindings (map snd (cr_entries raced_catalog)) (map snd (cr_bindings raced_catalog)) =
      Inl (CatalogError ''mo.alias_catalog_inactive'' ''active alias must reference an active catalog entry'')"
  using raced_run raced_invalid sample_catalog_good by (simp add: catalog_consistent)

text \<open>
  A roll back of an alias that runs alone is decided by the entry it goes back to: in every
  state reached by calls one after the other, it finds the binding before the active one, succeeds
  with that binding's entry when the entry is active, and otherwise is refused for that reason.
\<close>

theorem rollback_decided:
  assumes "validate_active_bindings es bs = Inr ()" "first_bindings bs" "bootstrap_if_empty empty_catalog es bs = (True, s0)"
    and "catalog_reachable memory_catalog s0 s" and c: "repo_bind s i = Some c" "ab_state c = ''ACTIVE''" "ab_revision c \<noteq> 1"
    and new: "repo_bind s (''binding:'' @ new_id) = None" "is_catalog_id (''binding:'' @ new_id)" "is_catalog_id who"
      "py_strip reason \<noteq> []" "length (py_strip reason) \<le> 500" "catalog_time now ''created_at'' = Inr t"
  shows "\<exists>p e. ab_previous c = Some (ab_id p) \<and> repo_bind s (ab_id p) = Some p \<and> repo_entry s (ab_catalog p) = Some e \<and>
    (ce_state e = ''ACTIVE'' \<longrightarrow> (\<exists>b s'. ab_catalog b = ab_catalog p \<and> rollback_alias memory_catalog new_id now (\<lambda>_. s) s
      (ab_alias c) (ab_capability c) (ab_revision c) reason who = Inr (b, s'))) \<and>
    (ce_state e \<noteq> ''ACTIVE'' \<longrightarrow> rollback_alias memory_catalog new_id now (\<lambda>_. s) s
      (ab_alias c) (ab_capability c) (ab_revision c) reason who =
        Inl (CatalogServiceError 409 ''MO_ALIAS_ROLLBACK_TARGET_INACTIVE'' ''Previous alias target is not active.''))"
proof -
  have "catalog_inv s" "alias_lineage (repo_bind s)" "bound (repo_entry s) (repo_bind s)"
    using catalog.reachable_live [OF assms(4)] bootstrap_good [OF assms(1-3)] by blast+
  from catalog.rollback_outcome [OF this c new] show ?thesis .
qed

theorem rollback_decided_witness:
  "\<exists>p. repo_bind switched_catalog (ab_id p) = Some p \<and> ab_previous switched_binding = Some (ab_id p)"
proof -
  have b: "repo_bind switched_catalog ''binding:2'' = Some switched_binding" "ab_state switched_binding = ''ACTIVE''"
    "ab_revision switched_binding \<noteq> 1" "repo_bind switched_catalog (''binding:'' @ ''3'') = None"
    "is_catalog_id (''binding:'' @ ''3'')" "is_catalog_id ''ops''" "py_strip ''back'' \<noteq> []" "length (py_strip ''back'') \<le> 500"
    by code_simp+
  obtain t where t: "catalog_time m1 ''created_at'' = Inr t"
    by (cases "catalog_time m1 ''created_at''") (use sample_time in auto)
  from rollback_decided [OF sample_valid sample_first sample_bootstrap switched_reachable b t] show ?thesis by blast
qed

text \<open>
  A promotion that fails leaves the catalog as it was, whatever other calls its reads saw, if
  the rollout is valid and the time it is given does not precede it.
\<close>

theorem failed_promotion_keeps_catalog:
  assumes "catalog_inv s" "\<forall>k. catalog_inv (seen k)"
    and "activate_rollout_alias memory_catalog digest new_id now seen s r d v lkg who changed = (Inl e, s')"
    and "check_rollout r = Inr ()" "validate_changed_at r changed = Inr ()"
  shows "s' = s"
  using catalog.activate_error_unchanged [OF assms(1) assms(2) [rule_format] assms(3-5)] .

theorem failed_promotion_keeps_catalog_witness:
  "snd (activate_rollout_alias memory_catalog sample_digest ''2'' m1 (\<lambda>_. sample_catalog) sample_catalog passed_rollout
    sample_decision sample_reservation lkg_identity ''ops'' m1) = sample_catalog"
proof -
  let ?p = "activate_rollout_alias memory_catalog sample_digest ''2'' m1 (\<lambda>_. sample_catalog) sample_catalog passed_rollout
    sample_decision sample_reservation lkg_identity ''ops'' m1"
  have f: "isl (fst ?p)" "check_rollout passed_rollout = Inr ()" "validate_changed_at passed_rollout m1 = Inr ()" by code_simp+
  have p: "?p = (Inl (projl (fst ?p)), snd ?p)" using sum.collapse(1) [OF f(1)] by simp
  have inv: "catalog_inv sample_catalog" using sample_catalog_good by blast
  show ?thesis by (rule failed_promotion_keeps_catalog [where seen = "\<lambda>_. sample_catalog", OF inv _ p f(2,3)]) (simp add: inv)
qed

text \<open>
  The time of a promotion is checked after the alias has been switched: with a text that is no
  time the promotion raises, and the alias is on the candidate all the same.
\<close>

theorem late_time_leaves_alias_switched:
  "fst (promotion ''later'') = Inl (Alias_Rollout (RolloutError ''mo.changed_at_invalid'' ''changed_at must be ISO 8601'')) \<and>
   (\<exists>b. active_binding memory_catalog (snd (promotion ''later'')) ''chat'' ''generation'' = Inr (Some b) \<and> ab_catalog b = ''cat-2'')"
  using late_promotion by auto

text \<open>
  A failure is classified by its code and its declared class first, then by what it says of
  retries and by its status: poison, permanent or transient. Only a declared class that cannot be
  hashed keeps the code from deciding.
\<close>

theorem failures_classified:
  "case classify_worker_failure fl pol of
     Inl e \<Rightarrow> e = Resilience_Other (Py TypeError) \<and> (\<exists>l d. fl_class fl \<in> {PList l, PDict d})
   | Inr c \<Rightarrow> wc_code c = safe_failure_code fl \<and> length (wc_code c) \<le> 160 \<and> py_strip (wc_code c) \<noteq> [] \<and>
       (wc_retryable c \<longleftrightarrow> wc_class c = TRANSIENT) \<and>
       wc_class c =
         (if safe_failure_code fl \<in> set (rp_poison (resolved_policy pol)) \<or> fl_class fl = PStr ''poison'' then POISON
          else if explicit_permanent (fl_class fl) \<or> fl_retryable fl = PBool False \<or> rejected_status (fl_status fl)
          then PERMANENT else TRANSIENT)"
proof (cases "classify_worker_failure fl pol")
  case (Inr c)
  then show ?thesis
    using classify_Inr [OF Inr] safe_failure_code_nonblank [of fl] safe_failure_code_length [of fl] by simp
next
  case (Inl e)
  then show ?thesis
    by (cases "fl_class fl") (auto simp: classify_worker_failure_def Let_def split: if_splits)
qed

text \<open>
  A clock that goes back between the start of an execution and its completion leaves the two at
  odds: the job is completed, then the execution refuses to move to a time before its start, and the
  failure that follows cannot be written because the job does not run any more. The run raises
  although the job SUCCEEDED.
\<close>

theorem clock_back_leaves_error:
  assumes "re_db E = wire_database loads" "sql_inv (re_db E) (rn_table s)" "clock_at E c"
    and "execution_wf x" "ex_state x = X_CLAIMED" "ex_updated x \<le> c (rn_ticks s)"
    and "jobs_of E s (ex_job x) = Some j" "status j = RUNNING" "handler_calls E" "handler_ends E (ex_job x)"
    and "\<forall>x s. fst (re_handler E x s) = Inr () \<and> rn_ticks (snd (re_handler E x s)) = rn_ticks s"
    and "c (rn_ticks s + 3) < c (rn_ticks s)"
  shows "\<exists>d s' j'. execute_claimed E x s = (Inl (runtime_error ''failure_write_failed'' d 409 False), s') \<and>
    jobs_of E s' (ex_job x) = Some j' \<and> status j' = SUCCEEDED"
  by (rule wire.clock_regression_after_completion [OF assms(1) assms(2) [unfolded assms(1)] assms(3-12)])

theorem clock_back_leaves_error_witness:
  "\<exists>d s' j'. execute_claimed turning_env sample_execution claimed_state = (Inl (runtime_error ''failure_write_failed'' d 409 False), s') \<and>
    jobs_of turning_env s' ''job-1'' = Some j' \<and> status j' = SUCCEEDED"
proof -
  have db: "re_db turning_env = wire_database (\<lambda>_. Inl ValueError)" by (simp add: turning_env_rest sample_db_def)
  have st: "sql_inv (re_db turning_env) (rn_table claimed_state)"
    "jobs_of turning_env claimed_state (ex_job sample_execution) = Some sample_claimed_job"
    "ex_updated sample_execution \<le> turning_clock (rn_ticks claimed_state)"
    "turning_clock (rn_ticks claimed_state + 3) < turning_clock (rn_ticks claimed_state)"
    unfolding turning_env_rest by (simp_all add: claimed_state_def sample_leased_inv sample_execution_job sample_claimed_stored
        sample_execution_wf turning_clock_def second_clock_def)
  have ret: "\<forall>x s. fst (re_handler turning_env x s) = Inr () \<and> rn_ticks (snd (re_handler turning_env x s)) = rn_ticks s"
    by (simp add: turning_env_rest quiet_def)
  from clock_back_leaves_error [OF db st(1) turning_clock_at sample_execution_wf(1,2) st(3,2) sample_claimed_stored(2)
      turning_handler_calls turning_handler_ends ret st(4)] show ?thesis unfolding sample_execution_job by blast
qed

text \<open>
  A worker that was asked to stop claims nothing: a batch that starts after the request leaves
  the table as it was and, when it returns, says that it stopped for the shutdown, without an
  execution.
\<close>

theorem shutdown_stops_claims:
  assumes "stopping_requested s" "1 \<le> rt_max_jobs (re_policy E)" "run_bounded_worker_batch E s = (r, s')"
  shows "rn_table s' = rn_table s \<and> (\<forall>res. r = Inr res \<longrightarrow> rs_executions res = [] \<and> rs_reason res = SHUTDOWN)"
  by (rule shutdown_claims_nothing [OF assms])

theorem shutdown_stops_claims_witness:
  "rn_table (snd (run_bounded_worker_batch sample_run_env
      (start_state\<lparr>rn_life := Some ((make_lifecycle sample_emitter [])\<lparr>lc_shutdown := True\<rparr>)\<rparr>))) = [sample_row]"
proof -
  have "stopping_requested (start_state\<lparr>rn_life := Some ((make_lifecycle sample_emitter [])\<lparr>lc_shutdown := True\<rparr>)\<rparr>)"
    "1 \<le> rt_max_jobs (re_policy sample_run_env)"
    by (simp_all add: stopping_requested_def sample_run_env_def default_runtime_policy_def)
  from shutdown_stops_claims [OF this prod.collapse [symmetric]] show ?thesis by (simp add: start_state_def)
qed

end
