(* ===== verification/Spec2Isabelle.thy ===== *)
theory Spec2Isabelle
  imports Further_Facts
begin

text \<open>
  Verification of the asynchronous work of the NEX platform: how a service accepts, stores, claims,
  retries, dead-letters and replays jobs, how workers poll them and report, how CX workers hold
  leases on them; how MO admits and rolls out model revisions and repeats calls to providers; and how
  OA keeps identities, their rights and their sessions. Paths below are under \<^verbatim>\<open>src/services\<close>.

  \<^bold>\<open>The program.\<close> Every service keeps its asynchronous work in a job queue
  (\<^verbatim>\<open>_shared/nex_runtime/jobs.py\<close>): an in-memory one for tests and local runs, a SQL one in
  production, behind one protocol. A worker (\<^verbatim>\<open>_shared/nex_runtime/worker_runner.py\<close>) polls
  the queue, runs a handler and completes or retries the job, emitting heartbeats
  (\<^verbatim>\<open>_shared/nex_runtime/worker_heartbeats.py\<close>) as it goes. Operators read, cancel, retry and
  replay jobs through routes (\<^verbatim>\<open>_shared/nex_runtime/job_control.py\<close>). The CX service adds an
  execution contract (\<^verbatim>\<open>nex-cx/nex_cx/worker_contracts.py\<close>) and leases on the rows of the SQL
  queue (\<^verbatim>\<open>nex-cx/nex_cx/worker_leases.py\<close>), a runtime that claims, runs and settles executions
  in bounded batches (\<^verbatim>\<open>worker_runtime.py\<close>) under a lifecycle that reports its phases
  (\<^verbatim>\<open>worker_lifecycle.py\<close>), the settlement of failures (\<^verbatim>\<open>worker_resilience.py\<close>) and the
  reconciliation of the jobs of lost workers (\<^verbatim>\<open>worker_reconciliation.py\<close>). The MO service
  admits model revisions to GPU nodes (\<^verbatim>\<open>nex-mo/nex_mo/model_capacity_scheduler.py\<close>) and rolls them out through a canary
  (\<^verbatim>\<open>model_rollout_state.py\<close>), keeping each rollout and its events in a repository; a promotion
  moves the alias of the model in a catalog (\<^verbatim>\<open>catalog_lifecycle_service.py\<close>) to the new entry.
  A failed call of a provider is repeated under a policy (\<^verbatim>\<open>provider_retry.py\<close>). The OA service
  stores tenants, subjects and memberships (\<^verbatim>\<open>nex-oa/nex_oa/subjects.py\<close>,
  \<^verbatim>\<open>memberships.py\<close>), issues sessions to members (\<^verbatim>\<open>sessions.py\<close>), moves identities through
  their lifecycle with an audit trail (\<^verbatim>\<open>identity_lifecycle.py\<close> and its repository and service), and
  grants rights by roles and groups (\<^verbatim>\<open>authorization.py\<close>, \<^verbatim>\<open>authorization_repository.py\<close>,
  \<^verbatim>\<open>authorization_resolver.py\<close>); a change of status or of rights revokes sessions.

  \<^bold>\<open>The theories.\<close>
  \<open>Nex_Prelude\<close> has Python values (\<open>pyval\<close>), dictionaries as association lists in insertion
  order, errors as sums with \<open>sbind\<close>, and the collection \<open>res_simps\<close>.
  \<open>Wire_Time\<close> has the texts of times: \<open>_parse_wire_datetime\<close>, \<open>_timestamp_to_wire\<close>,
  \<open>_add_seconds\<close>, on microseconds since the first day of year 1, with the range of Python's dates.
  \<open>Common_Job\<close> is the job contract of \<^verbatim>\<open>jobs.py\<close>: \<open>common_job\<close>, \<open>validate_common_job\<close>,
  \<open>transition_common_job\<close>, the retry, dead-letter and replay plans; \<open>accepted_job\<close> states which
  dictionaries the contract accepts.
  \<open>Job_Queue_Interface\<close> has the steps of a job's life (\<open>job_step\<close>) with the measure that bounds
  them, the operations of the protocol as the record \<open>job_queue\<close> and their laws as the locale
  \<open>job_queue_laws\<close>.
  \<open>Memory_Queue\<close> is \<open>InMemoryJobQueue\<close>, with its invariant \<open>queue_inv\<close>, the step relation of
  its calls and the interpretation \<open>memory\<close>.
  \<open>Sql_Queue\<close> is \<open>SqlAlchemyJobQueue\<close> on a list of rows, with the locale \<open>sql_database\<close> (a
  database that reads back the times it is given), the laws as a sublocale, the interpretation
  \<open>wire\<close> and the simulation of the in-memory queue, \<open>sql_sim\<close>.
  \<open>Worker_Heartbeats\<close>, \<open>Worker_Runner\<close> and \<open>Job_Control\<close> are the worker and the routes, over
  any queue; their lemmas are proved once in \<open>job_queue_laws\<close>.
  \<open>Worker_Contracts\<close> and \<open>Worker_Leases\<close> are the contract and the leases of CX; the renewals anyone
  makes on a table are the relation \<open>renewal_step\<close>.
  \<open>Worker_Resilience\<close> extends the interface of the queues to \<open>settling_queue\<close>, whose laws are the
  locale \<open>settling_queue_laws\<close> (interpreted on both queues), and settles failures on it;
  \<open>Worker_Reconciliation\<close> plans over the table, the leases and the heartbeats, and applies a plan
  inside that locale. \<open>Worker_Lifecycle\<close> is the controller with its calls as the relation
  \<open>lifecycle_step\<close>; \<open>Worker_Runtime\<close> runs a batch, with the \<open>n\<close>-th reading of the clock and the
  handler (a function of the execution and the state) as arguments. Its properties rely on
  \<open>handler_calls\<close>: while a handler runs, it and others change the table by the calls of the queue and
  the renewals of leases, in any number and order.
  \<open>Model_Rollout\<close>, \<open>Capacity_Scheduler\<close> and \<open>Rollout_State\<close> are \<^verbatim>\<open>model_rollout.py\<close>,
  \<^verbatim>\<open>model_capacity_scheduler.py\<close> and \<^verbatim>\<open>model_rollout_state.py\<close>: validated records, admission
  with the rounding of doubles, and the operations of a rollout as the relation \<open>rollout_step\<close> and
  as the datatype \<open>rollout_op\<close>, whose lists are the histories of a rollout (\<open>rollout_history\<close>).
  \<open>Rollout_Repository\<close> has the events, the repository protocol as the locale
  \<open>rollout_store_laws\<close>, the in-memory repository with its interpretation \<open>repo\<close>, and the service.
  \<open>Catalog_Lifecycle\<close> has catalog entries, alias bindings, the repository protocol as the locale
  \<open>catalog_store_laws\<close> and the in-memory repository with its interpretation \<open>catalog\<close>;
  \<open>Catalog_Service\<close> the service over any such repository, its runs with interleaved reads
  (\<open>catalog_run\<close>), and the invariants of the bindings; \<open>Rollout_Activation\<close> is
  \<^verbatim>\<open>model_rollout_activation.py\<close>, the promotion and the roll back over that service.
  \<open>Provider_Retry\<close> is the loop of attempts of a provider call, total because the policy bounds it.
  \<open>Oa_Registry\<close>, \<open>Oa_Sessions\<close>, \<open>Oa_Lifecycle\<close> and \<open>Oa_Authorization\<close> are the registries, the
  sessions, the lifecycle and the authorization of OA with their in-memory repositories; the four
  stores of authorization records are interpretations of the locale \<open>record_store\<close> (a dictionary
  under a key that the identity of a record fixes). An operation on a session that reads the clock
  several times takes the readings one by one (\<open>clk n\<close> is what the \<open>n\<close>-th reading of the call gives,
  and of a call that issues a session the two readings are two arguments). \<open>Oa_Rights\<close> specifies what the records grant, as
  sets (\<open>granted_scopes\<close>), and relates the resolver and the upserts to it. \<open>Oa_System\<close> puts the
  parts together as \<^verbatim>\<open>main.py\<close> does, every operation a step of \<open>oa_step\<close>; \<open>Oa_Invariants\<close> proves
  what its reachable states satisfy and how one step changes an identity or a session.
  \<open>Sample_States\<close>, \<open>Sample_Rollouts\<close>, \<open>Sample_Catalog\<close>, \<open>Sample_Workers\<close> and \<open>Sample_Oa\<close> have
  the concrete states the witnesses use, and \<open>Further_Facts\<close> facts beside the properties below.

  \<^bold>\<open>The lemmas.\<close> Per component: what a successful call returns and changes (the rules named
  \<open>..._Inr\<close>), which errors it raises, that it keeps the invariant, and, for the queues, that it
  keeps the laws of the interface. This theory states the properties.

  \<^bold>\<open>Bounds.\<close> No definition has fuel: every loop is over a list or, in a batch, over the configured
  number of polls, and the attempts at a provider end at the policy's limit by a measure. The
  properties of the worker and of its settlements ask that jobs allow at most a thousand attempts
  (\<open>small_jobs\<close>), because the code raises \<open>OverflowError\<close> for the delay of the 1025th.

  \<^bold>\<open>What is a parameter.\<close> The current time (\<open>now\<close>, the value of \<open>_utc_now()\<close>), the worker's
  clock, handler and service log, the verdict of the token check, how the database reads times
  and JSON texts (\<open>db_time\<close>, \<open>db_loads\<close>), the SHA-256 digest of a JSON text (\<open>digest\<close>), the random ids of
  sessions and events of OA (\<open>sid\<close>, which a step of the system takes fresh, and \<open>eid\<close>), whether
  an OA repository is bound to the sessions (\<open>linked\<close>), and what a provider call and the jitter
  give at each attempt.

  \<^bold>\<open>Where the model is coarser than the code.\<close> A job keeps the fields of the contract only: keys a
  caller adds beyond them, of which \<open>_job_insert_params\<close> would store \<open>locked_at\<close>, \<open>locked_by\<close>,
  \<open>started_at\<close> and \<open>completed_at\<close>, are outside the record, and the model of a new row has them empty;
  a time of a job is the text that \<open>str\<close> gives of it; \<open>None\<close> and a missing key are one for \<open>error\<close> and
  \<open>replay_lineage\<close>. The database orders job ids by code point, whatever its collation, and its integer
  columns are unbounded. The basic and the week formats of ISO times are refused, and the product of a
  retry delay is not rounded to a double. An operation of the OA service is one step, although its
  in-memory registries hold no lock between reading a membership and storing the session, nor between
  the reads of a resolution: of these, interleavings of two requests are not covered. The catalog
  service, the handlers of workers and the reconciliation are modelled with such interleavings.

  \<^bold>\<open>Not modelled.\<close> SQL transactions are atomic steps and their rollback is the unchanged table;
  concurrency of transactions, the SQL heartbeat store, rollout repository and OA registries, FastAPI
  wiring, logging, and every other component listed in the manifest as not modelled. Of OA the
  credentials, the federated login, the signed tokens and the revocation of sessions by a change of
  credentials are left out: they rest on cryptography of libraries. The remaining services (the AE
  gateway, AG, the CX repository) are large modules of SQL, routes and payloads, and the tooling
  operates processes and files; their logic is in calls to code outside the repository.
\<close>

section \<open>Properties\<close>

text \<open>
  C1. Every state the in-memory queue reaches keeps its invariant, and every call it answers adds
  one new queued job, moves one stored job by one step of its life, or changes no job.
\<close>

theorem queue_call_effect:
  assumes "queue_reachable q" "queue_exec q now c = Inr (r, q')"
  shows "queue_inv q' \<and> queue_effect q q'"
  using queue_step_effect [OF queue_step.call [OF assms(2)] queue_reachable_inv [OF assms(1)]] .

theorem queue_call_effect_witness:
  "queue_inv claimed_queue \<and> queue_effect sample_queue claimed_queue"
  by (rule queue_call_effect [OF sample_reachable, of t1 "Claim ''worker-1'' (Some ''cx.document_ingestion'') (Some t1)"])
    (simp add: sample_claim)

text \<open>
  C2. A job that has succeeded, failed or been cancelled never changes again, whatever is called on
  the in-memory queue afterwards.
\<close>

theorem terminal_jobs_frozen:
  assumes "queue_reachable q" "get_job q i = Some j" "terminal (status j)" "queue_step\<^sup>*\<^sup>* q q'"
  shows "get_job q' i = Some j"
proof -
  from assms(4) have "queue_reachable q' \<and> get_job q' i = Some j"
  proof (induction rule: rtranclp_induct)
    case (step q1 q2)
    with queue_step_effect [OF step.hyps(2)] queue_reachable_inv have "queue_effect q1 q2" by blast
    with step.IH obtain j2 where "get_job q2 i = Some j2" "j2 = j \<or> job_step j j2"
      using queue_effect_job by blast
    with step.IH queue_reachable.step [OF _ step.hyps(2)] job_step_not_terminal [of j j2] assms(3) show ?case by auto
  qed (use assms in simp)
  then show ?thesis ..
qed

theorem terminal_jobs_frozen_witness:
  "get_job two_jobs ''job-1'' = Some dead_job"
  by (rule terminal_jobs_frozen [OF dead_reachable _ _ r_into_rtranclp [where r = queue_step, OF sample_second_step]])
    (simp_all add: dead_queue_def sample_queue_def get_job_def dead_job_def TERMINAL_JOB_STATUSES_def)

text \<open>
  C3. A stored job changes only finitely often: along any run of the queue, however long, the
  number of calls that change the job is at most two per remaining attempt and two more.
\<close>

theorem job_changes_bounded:
  assumes "queue_reachable (f 0)" "\<And>k. k < n \<Longrightarrow> queue_step (f k) (f (Suc k))" "get_job (f 0) i = Some j"
  shows "int (card {k. k < n \<and> get_job (f (Suc k)) i \<noteq> get_job (f k) i})
    \<le> 2 * (max_attempts j - attempt_count j) + 2"
proof -
  have j: "0 \<le> attempt_count j" "attempt_count j \<le> max_attempts j"
    using queue_invD(3) [OF queue_reachable_inv [OF assms(1)]] assms(3) by (auto simp: get_job_def job_wf_def)
  have "queue_reachable (f n) \<and> (\<exists>j'. get_job (f n) i = Some j' \<and>
      (job_step ^^ card {k. k < n \<and> get_job (f (Suc k)) i \<noteq> get_job (f k) i}) j j')"
    using assms(2)
  proof (induction n)
    case 0
    with assms(1,3) show ?case by simp
  next
    case (Suc n)
    let ?C = "\<lambda>n. {k. k < n \<and> get_job (f (Suc k)) i \<noteq> get_job (f k) i}"
    from Suc obtain j1 where IH: "queue_reachable (f n)" "get_job (f n) i = Some j1" "(job_step ^^ card (?C n)) j j1"
      by auto
    have step: "queue_step (f n) (f (Suc n))" using Suc.prems by simp
    with queue_step_effect [OF step] queue_reachable_inv [OF IH(1)] IH(2) obtain j2 where
      j2: "get_job (f (Suc n)) i = Some j2" "j2 = j1 \<or> job_step j1 j2"
      using queue_effect_job by blast
    have "?C (Suc n) = (if get_job (f (Suc n)) i \<noteq> get_job (f n) i then insert n (?C n) else ?C n)"
      by (auto simp: less_Suc_eq)
    then have "(job_step ^^ card (?C (Suc n))) j j2"
      using IH j2 by (cases "j2 = j1") auto
    with j2 queue_reachable.step [OF IH(1) step] show ?case by blast
  qed
  then obtain j' where "(job_step ^^ card {k. k < n \<and> get_job (f (Suc k)) i \<noteq> get_job (f k) i}) j j'" by blast
  from job_steps_potential [OF this j] potential_nonneg [of j']
  have "int (card {k. k < n \<and> get_job (f (Suc k)) i \<noteq> get_job (f k) i}) \<le> potential j" by linarith
  also have "\<dots> \<le> 2 * (max_attempts j - attempt_count j) + 2" using j by (simp add: potential_def)
  finally show ?thesis .
qed

theorem job_changes_bounded_witness:
  "int (card {k. k < (1::nat) \<and> get_job (if Suc k = 0 then sample_queue else claimed_queue) ''job-1''
      \<noteq> get_job (if k = 0 then sample_queue else claimed_queue) ''job-1''}) \<le> 2 * (3 - 0) + 2"
proof -
  have "queue_step sample_queue claimed_queue"
    by (rule queue_step.call [of _ t1 "Claim ''worker-1'' (Some ''cx.document_ingestion'') (Some t1)"])
      (simp add: sample_claim)
  from job_changes_bounded [of "\<lambda>k. if k = 0 then sample_queue else claimed_queue" 1 "''job-1''" sample_job]
    this sample_reachable show ?thesis
    by (simp add: sample_queue_def get_job_def sample_job_def)
qed

text \<open>
  C4. A claim on the in-memory queue starts a job that is claimable and least by its claim key
  among all claimable ones, or, when there is none, changes nothing.
\<close>

theorem claim_takes_least:
  assumes "queue_reachable q" "claim_next_job q worker jtype upd now = Inr (r, q')"
  shows "case r of
      None \<Rightarrow> q' = q \<and> (\<forall>i j. get_job q i = Some j \<longrightarrow> \<not> claimable j jtype (or_default upd now))
    | Some j' \<Rightarrow> \<exists>j. get_job q (job_id j') = Some j \<and> claimable j jtype (or_default upd now) \<and>
        j' = j\<lparr>status := RUNNING, attempt_count := attempt_count j + 1, updated_at := or_default upd now\<rparr> \<and>
        get_job q' = (get_job q)(job_id j' := Some j') \<and>
        (\<forall>i k. get_job q i = Some k \<longrightarrow> claimable k jtype (or_default upd now) \<longrightarrow> claim_key j \<le> claim_key k)"
proof -
  note c = claim_next_job_Inr [OF queue_reachable_inv [OF assms(1)] assms(2)]
  show ?thesis
  proof (cases r)
    case (Some j')
    with c obtain j where j: "get_job q (job_id j') = Some j" "claimable j jtype (or_default upd now)"
      "transition_common_job j RUNNING (Some (or_default upd now)) now = Inr j'" "q' = put_job q (job_id j') j'"
      "\<forall>i k. get_job q i = Some k \<longrightarrow> claimable k jtype (or_default upd now) \<longrightarrow> claim_key j \<le> claim_key k"
      by auto
    have "j' = j\<lparr>status := RUNNING, attempt_count := attempt_count j + 1, updated_at := or_default upd now\<rparr>"
      using j(2,3) by (auto simp: transition_Inr claimable_def)
    with j Some show ?thesis by auto
  qed (use c in simp)
qed

theorem claim_takes_least_witness:
  "claim_next_job sample_queue ''worker-1'' (Some ''cx.document_ingestion'') (Some t1) t1 = Inr (Some claimed_job, claimed_queue) \<and>
   (\<exists>j. get_job sample_queue (job_id claimed_job) = Some j \<and> claim_key j \<le> claim_key sample_job)"
proof -
  have "claimable sample_job (Some ''cx.document_ingestion'') (or_default (Some t1) t1)" by code_simp
  moreover have "get_job sample_queue ''job-1'' = Some sample_job" by (simp add: sample_queue_def get_job_def)
  ultimately show ?thesis
    using claim_takes_least [OF sample_reachable sample_claim] sample_claim by auto
qed

text \<open>
  C5. The SQL queue refines the in-memory queue, for calls that bring only what the database can
  store (\<open>storable_call\<close>): times it can read and, for a new job, JSON that it reads back. From states
  that hold the same jobs, every such call but a claim gives the same error on both, or the same job
  up to its stored form and states that again hold the same jobs. (Other calls part the queues: a
  \<open>created_at\<close> that is no time is accepted in memory and refused by the database.)
\<close>

theorem sql_refines_memory:
  assumes "sql_sim (wire_database loads) q tbl" "storable_call (wire_database loads) now c"
  shows "case queue_exec q now c of Inl e \<Rightarrow> sql_exec (wire_database loads) tbl now c = Inl e
    | Inr (res, q') \<Rightarrow> \<exists>t' res'. sql_exec (wire_database loads) tbl now c = Inr (res', t') \<and>
        sql_sim (wire_database loads) q' t' \<and>
        (\<exists>j k. res = Some j \<and> res' = Some k \<and> stored_form (wire_database loads) j = Inr k)"
  using assms by (rule wire.sim_exec)

theorem sql_refines_memory_witness:
  "sql_sim sample_db sample_queue [sample_row]"
proof -
  have "\<exists>k. stored_form (wire_database (\<lambda>_. Inl ValueError)) sample_job = Inr k"
    using sample_stored_form by (auto simp: sample_db_def)
  with sql_refines_memory [OF sample_sim [unfolded sample_db_def], of t0 "Enqueue sample_job"] sample_sql_enqueue
  show ?thesis by (auto simp: sample_enqueue sample_db_def)
qed

text \<open>
  C6. A claim on the SQL queue starts a row that is claimable at the time the database reads and
  least among the claimable rows by instants, not by texts, and changes no other job.
\<close>

theorem sql_claim_takes_least:
  assumes "sql_inv D tbl" "sql_claim D tbl w ty upd now = Inr (res, t')"
  shows "\<exists>n. db_time D (or_default upd now) = Some n \<and>
    (case res of
      None \<Rightarrow> t' = tbl \<and> (\<forall>r \<in> set tbl. \<not> row_claimable ty n r)
    | Some j' \<Rightarrow> \<exists>r j. r \<in> set tbl \<and> row_claimable ty n r \<and>
        (\<forall>s \<in> set tbl. row_claimable ty n s \<longrightarrow> row_claim_key r \<le> row_claim_key s) \<and>
        job_from_row D r = Inr j \<and> job_step j j' \<and> status j' = RUNNING \<and> sql_inv D t' \<and>
        sql_get_job D t' = (sql_get_job D tbl)(job_id j := Some j'))"
  using assms
proof (cases rule: sql_claim_Inr)
  case (some n r j new)
  have "status j = QUEUED" using some(3,5) by (simp add: row_claimable_def job_from_row_Inr)
  moreover have "status new = RUNNING" using transition_ids [OF some(7)] by simp
  ultimately have "job_step j new" "status new = RUNNING" using transition_step [OF some(7)] by auto
  with some show ?thesis by auto
qed auto

theorem sql_claim_takes_least_witness:
  "\<exists>n. db_time sample_db (or_default (Some t1) t1) = Some n \<and>
    (\<exists>r. r \<in> set [sample_row] \<and> row_claimable (Some ''cx.document_ingestion'') n r)"
  using sql_claim_takes_least [OF sample_table_inv sample_sql_claim] by auto

text \<open>
  C7. One poll of the worker, against either queue, settles the job it claims. The conditions: the
  handler finishes no job itself, leaves the queue alone and raises only exceptions with a non-empty
  code and detail; the clock gives readable times (\<open>runner_ok\<close>); and no job allows more than 1000
  attempts (\<open>small_jobs\<close>). Then the poll keeps the invariant of the queue. It raises only what the
  claim raised outside the queue's own errors, and then has changed no job; it changes no job when it
  claims none; otherwise it has claimed one job and left it succeeded, queued again or dead-lettered,
  as it reports (\<open>poll_settled\<close>).
\<close>

theorem worker_poll_settles:
  "(runner_ok env \<and> queue env = memory_ops \<and> queue_inv (rs_queue st) \<and>
      small_jobs get_job (rs_queue st) \<and> run_worker_once env st = (res, st') \<longrightarrow>
      queue_inv (rs_queue st') \<and> poll_settled get_job (rs_queue st) res (rs_queue st')) \<and>
   (runner_ok env2 \<and> queue env2 = sql_ops (wire_database loads) \<and>
      sql_inv (wire_database loads) (rs_queue st2) \<and>
      small_jobs (sql_get_job (wire_database loads)) (rs_queue st2) \<and> run_worker_once env2 st2 = (res2, st2') \<longrightarrow>
      sql_inv (wire_database loads) (rs_queue st2') \<and>
      poll_settled (sql_get_job (wire_database loads)) (rs_queue st2) res2 (rs_queue st2'))"
  using memory.poll_settles [of env st res st', unfolded memory_ops_simps]
    wire.poll_settles [of env2 loads st2 res2 st2', unfolded sql_ops_simps] by blast

theorem worker_poll_settles_witness:
  "(\<exists>res st'. run_worker_once (sample_env memory_ops) (sample_state sample_queue) = (res, st') \<and>
      queue_inv (rs_queue st') \<and> poll_settled get_job sample_queue res (rs_queue st')) \<and>
   (\<exists>res st'. run_worker_once (sample_env (sql_ops sample_db)) (sample_state [sample_row]) = (res, st') \<and>
      sql_inv sample_db (rs_queue st') \<and> poll_settled (sql_get_job sample_db) [sample_row] res (rs_queue st'))"
proof -
  obtain r s r2 s2 where run: "run_worker_once (sample_env memory_ops) (sample_state sample_queue) = (r, s)"
    "run_worker_once (sample_env (sql_ops sample_db)) (sample_state [sample_row]) = (r2, s2)" by fastforce
  have "rs_queue (sample_state sample_queue) = sample_queue" "rs_queue (sample_state [sample_row]) = [sample_row]"
    by (simp_all add: sample_state_def)
  with worker_poll_settles [of "sample_env memory_ops" "sample_state sample_queue" r s
      "sample_env (sql_ops sample_db)" "\<lambda>_. Inl ValueError" "sample_state [sample_row]" r2 s2, folded sample_db_def]
    run sample_runner_ok sample_env_queue sample_inv sample_small_memory sample_table_inv sample_small_sql
  show ?thesis by metis
qed

text \<open>
  C8. A batch of polls against the SQL queue leaves no job running that was not running before,
  and each of its reports is an idle, a failed or a succeeded poll; under the conditions of a poll: a
  handler that finishes no job itself, leaves the queue alone and raises only exceptions with a
  non-empty code and detail, readable times (\<open>runner_ok\<close>), and at most 1000 attempts per job
  (\<open>small_jobs\<close>). (An exception with an empty \<open>error_code\<close> does leave the claimed job running.)
\<close>

theorem sql_batch_leaves_none_running:
  assumes "runner_ok env" "queue env = sql_ops (wire_database loads)" "sql_inv (wire_database loads) (rs_queue st)"
    and "small_jobs (sql_get_job (wire_database loads)) (rs_queue st)" "run_worker_batch env stop st = (res, st')"
  shows "sql_inv (wire_database loads) (rs_queue st') \<and>
    no_new_running (sql_get_job (wire_database loads)) (rs_queue st) (rs_queue st') \<and>
    (\<forall>xs. res = Inr xs \<longrightarrow> (\<forall>x \<in> set xs. x_status x \<in> {''IDLE'', ''FAILED'', ''SUCCEEDED''}))"
  using wire.batch_no_new_running [OF assms(1-3) _ assms(5) [unfolded run_worker_batch_def]] assms(4) by simp

theorem sql_batch_leaves_none_running_witness:
  "no_new_running (sql_get_job sample_db) [sample_row]
    (rs_queue (snd (run_worker_batch (sample_env (sql_ops sample_db)) True (sample_state [sample_row]))))"
proof -
  have "no_new_running (sql_get_job sample_db) (rs_queue (sample_state [sample_row]))
    (rs_queue (snd (run_worker_batch (sample_env (sql_ops sample_db)) True (sample_state [sample_row]))))"
    unfolding sample_db_def
    by (rule conjunct1 [OF conjunct2 [OF sql_batch_leaves_none_running
            [OF sample_runner_ok sample_env_queue _ _ prod.collapse [symmetric]]]])
      (simp_all add: sample_state_def sample_table_inv [unfolded sample_db_def] sample_small_sql [unfolded sample_db_def])
  then show ?thesis by (simp add: sample_state_def)
qed

text \<open>
  C9. An execution tells the truth about its job: when a claimed execution returns as succeeded,
  cancelled, scheduled for a retry or dead-lettered, its job is SUCCEEDED, CANCELLED, QUEUED or
  FAILED; and whether it returns or raises, no job is lost and every job has moved by steps of its
  life and renewals of its lease only. The handler may raise what it likes, and it and others may
  change the table while it runs, in any number of steps, but only through the calls of the queue and
  the renewals of leases (\<open>handler_calls\<close>); the job of the execution may be among those they cancel,
  finish or requeue.
\<close>

theorem execution_agrees_with_job:
  assumes "re_db E = wire_database loads" "sql_inv (re_db E) (rn_table s)" "handler_calls E"
    and "execution_wf x" "execute_claimed E x s = (r, s')"
  shows "run_good E s s' \<and> (\<forall>y. r = Inr y \<longrightarrow> execution_wf y \<and> ex_job y = ex_job x \<and>
    (\<exists>j. jobs_of E s' (ex_job x) = Some j \<and> agrees (ex_state y) (status j)))"
  by (rule wire.execute_claimed_good [OF assms])

theorem execution_agrees_with_job_witness:
  "run_good sample_run_env claimed_state (snd (execute_claimed sample_run_env sample_execution claimed_state))"
proof -
  have "re_db sample_run_env = wire_database (\<lambda>_. Inl ValueError)" "re_db sample_run_env = sample_db"
    by (simp_all add: sample_run_env_def sample_db_def)
  with execution_agrees_with_job [OF _ _ sample_handler_calls sample_execution_wf(1) prod.collapse [symmetric], of _ claimed_state]
  show ?thesis by (simp add: claimed_state_def sample_leased_inv)
qed

text \<open>
  C10. No job of a lost worker stays behind: on any consistent table a reconciliation plan can be
  made and applied, and applying it at once settles, by one step each, exactly the running jobs whose
  lease has run out and whose owner does not report, except those whose type needs a handler of its
  own; every other job is as it was.
\<close>

theorem lost_jobs_recovered:
  assumes "sql_inv (wire_database loads) tbl" "tidy_rows tbl" "store_inv hbs"
    and "parse_wire_datetime observed = Inr obs" "good_time observed" "py_strip observed = observed"
    and "\<forall>i j. sql_get_job (wire_database loads) tbl i = Some j \<and> status j = RUNNING \<longrightarrow> attempt_count j \<le> 1000"
    and "\<forall>r \<in> set tbl. \<forall>t. row_status r = RUNNING \<and> row_locked_at r = Some t \<longrightarrow> in_range (t + ttl_of ttl * 1000000)"
  shows "\<exists>p r tbl'. build_worker_reconciliation_plan (wire_database loads) tbl hbs observed ttl stale_after now = Inr p \<and>
    apply_worker_reconciliation_plan (sql_settling (wire_database loads)) (\<lambda>_. None) now (plan_to_dict p) tbl = (Inr r, tbl') \<and>
    (\<forall>i j. sql_get_job (wire_database loads) tbl i = Some j \<longrightarrow>
      (if lost_job tbl hbs (ttl_of ttl) stale_after obs i \<and> job_type j \<notin> set SPECIALIZED_RECOVERY_JOB_TYPES
       then \<exists>j'. sql_get_job (wire_database loads) tbl' i = Some j' \<and> job_step j j' \<and> status j' \<noteq> RUNNING
       else sql_get_job (wire_database loads) tbl' i = Some j))"
proof -
  have "observed \<noteq> []" using assms(5) wire_timestamp_nonempty by (metis good_timeE)
  then obtain p where p: "build_worker_reconciliation_plan (wire_database loads) tbl hbs observed ttl stale_after now = Inr p"
    using plan_total [OF assms(1-4) _ assms(8)] by blast
  with wire.reconcile [OF assms(1-7) p] show ?thesis by blast
qed

theorem lost_jobs_recovered_witness:
  "\<exists>tbl' j'. sql_get_job sample_db tbl' ''job-3'' = Some j' \<and> job_step lost_job_stored j' \<and> status j' \<noteq> RUNNING"
proof -
  have leases: "\<forall>r \<in> set lost_table. \<forall>t. row_status r = RUNNING \<and> row_locked_at r = Some t \<longrightarrow> in_range (t + ttl_of (Some 120) * 1000000)"
  proof -
    have "\<forall>r \<in> set lost_table. row_locked_at r = Some 63902822460000000" "in_range (63902822460000000 + 120 * 1000000)" by code_simp+
    then show ?thesis by auto
  qed
  note lost_jobs_recovered [OF lost_table_inv [unfolded sample_db_def] lost_table_tidy empty_store late_time
      lost_table_attempts [unfolded sample_db_def] leases, of 60 late, folded sample_db_def]
  then obtain tbl' where X: "\<And>i j. sql_get_job sample_db lost_table i = Some j \<Longrightarrow>
      (if lost_job lost_table [] (ttl_of (Some 120)) 60 63902822700000000 i \<and> job_type j \<notin> set SPECIALIZED_RECOVERY_JOB_TYPES
       then \<exists>j'. sql_get_job sample_db tbl' i = Some j' \<and> job_step j j' \<and> status j' \<noteq> RUNNING
       else sql_get_job sample_db tbl' i = Some j)" by metis
  have "lost_job lost_table [] (ttl_of (Some 120)) 60 63902822700000000 ''job-3'' \<and>
    job_type lost_job_stored \<notin> set SPECIALIZED_RECOVERY_JOB_TYPES"
    using lost_table_lost unfolding lost_job_stored(2) by (simp add: SPECIALIZED_RECOVERY_JOB_TYPES_def)
  with X [OF lost_job_stored(1)] show ?thesis by (simp only: if_True simp_thms) blast
qed

text \<open>
  C11. The two queues settle a failure alike, as long as the database can read the time of the failure
  (it answers 503 for any other, where the in-memory queue stores it): on an in-memory queue and a
  table that hold the same jobs, the settlement raises the same error or returns the same report, down
  to the time of the next attempt, and leaves the two states holding the same jobs again.
\<close>

theorem settlement_same_on_both_queues:
  assumes "sql_sim (wire_database loads) q tbl" "db_time (wire_database loads) (or_default (Some failed) now) \<noteq> None"
  shows "case settle_worker_failure memory_settling q job fl failed pol now of
      Inl e \<Rightarrow> settle_worker_failure (sql_settling (wire_database loads)) tbl job fl failed pol now = Inl e
    | Inr (r, q') \<Rightarrow> \<exists>tbl'. settle_worker_failure (sql_settling (wire_database loads)) tbl job fl failed pol now = Inr (r, tbl') \<and>
        sql_sim (wire_database loads) q' tbl'"
  by (rule settlement_sim [OF assms])

theorem settlement_same_on_both_queues_witness:
  "\<exists>tbl r tbl'. sql_sim sample_db claimed_queue tbl \<and> st_action r = RETRY_SCHEDULED \<and>
    settle_worker_failure (sql_settling sample_db) tbl claimed_job expired_worker_lease_failure t1 None t1 = Inr (r, tbl')"
proof -
  obtain tbl where sim: "sql_sim sample_db claimed_queue tbl" using claimed_sim by blast
  have "db_time sample_db (or_default (Some t1) t1) \<noteq> None" by code_simp
  note same = settlement_same_on_both_queues [OF sim [unfolded sample_db_def] this [unfolded sample_db_def], folded sample_db_def,
      of claimed_job expired_worker_lease_failure None]
  obtain r q where rq: "claimed_settlement = (r, q)" by (cases claimed_settlement)
  from same [unfolded claimed_settled(1) rq] obtain tbl' where
    "settle_worker_failure (sql_settling sample_db) tbl claimed_job expired_worker_lease_failure t1 None t1 = Inr (r, tbl')" by auto
  moreover have "st_action r = RETRY_SCHEDULED" using claimed_settled(2) unfolding rq by simp
  ultimately show ?thesis using sim by blast
qed

text \<open>
  C12. The report of a batch is true and bounded: it claims at most the jobs its policy allows, every
  execution in it has ended, and at the end of the batch the job of each is where the report says,
  except that a retried job may have been claimed again. The handlers may raise what they like, and
  they and others may change the table while they run, but only through the calls of the queue and the
  renewals of leases (\<open>handler_calls\<close>); whether the batch returns or raises, no job is lost and every
  job has moved by steps of its life and renewals of its lease only.
\<close>

theorem batch_report_true:
  assumes "re_db E = wire_database loads" "sql_inv (re_db E) (rn_table s)" "handler_calls E"
    and "run_bounded_worker_batch E s = (r, s')"
  shows "run_good E s s' \<and> (\<forall>res. r = Inr res \<longrightarrow>
    jobs_claimed res \<le> nat (rt_max_jobs (re_policy E)) \<and> sum_list (outcome_counts res) = jobs_claimed res \<and>
    (\<forall>y \<in> set (rs_executions res). outcome_true E s' y))"
proof -
  note good = wire.batch_good [OF assms(1) assms(3) assms(2) [unfolded assms(1)] assms(4)]
  have "sum_list (outcome_counts res) = jobs_claimed res" if "r = Inr res" for res
    unfolding outcome_counts_def jobs_claimed_def
    by (rule count_states) (use good that in \<open>auto simp: outcome_true_def\<close>)
  with good show ?thesis by blast
qed

theorem batch_report_true_witness:
  "run_good sample_run_env start_state (snd (run_bounded_worker_batch sample_run_env start_state))"
proof -
  have "re_db sample_run_env = wire_database (\<lambda>_. Inl ValueError)" "re_db sample_run_env = sample_db"
    by (simp_all add: sample_run_env_def sample_db_def)
  with batch_report_true [OF _ _ sample_handler_calls prod.collapse [symmetric], of _ start_state]
  show ?thesis by (simp add: start_state_def sample_table_inv)
qed

text \<open>
  C13. An execution ends: a claimed execution of a running job, of at most 1000 attempts, returns, as
  completed or as settled, and its job does not run any more but is where the execution says. The
  conditions: the clock gives times a service writes and does not go back, before the execution
  neither (\<open>clock_at\<close> and the two after it); the handler, and others while it runs, change the table
  through the calls of the queue and the renewals of leases only (\<open>handler_calls\<close>); and the handler
  ends (\<open>handler_ends\<close>): it leaves its own job running in the same attempt, and it returns or raises
  an exception, not one of the runtime's own, whose declared class can be looked up in a set.
\<close>

theorem executions_end:
  assumes "re_db E = wire_database loads" "sql_inv (re_db E) (rn_table s)" "clock_at E c" "\<forall>m n. m \<le> n \<longrightarrow> c m \<le> c n"
    and "execution_wf x" "ex_state x = X_CLAIMED" "ex_updated x \<le> c (rn_ticks s)"
    and "jobs_of E s (ex_job x) = Some j" "status j = RUNNING" "attempt_count j \<le> 1000"
    and "handler_calls E" "handler_ends E (ex_job x)"
  shows "\<exists>y s' k. execute_claimed E x s = (Inr y, s') \<and> ex_job y = ex_job x \<and>
    jobs_of E s' (ex_job x) = Some k \<and> status k \<noteq> RUNNING \<and> agrees (ex_state y) (status k)"
proof -
  obtain y s' where run: "execute_claimed E x s = (Inr y, s')"
    using wire.execute_claimed_ends [OF assms(1) assms(2) [unfolded assms(1)] assms(3-12)] by blast
  from wire.execute_claimed_good [OF assms(1,2,11,5) run] obtain k where k: "ex_job y = ex_job x"
    "jobs_of E s' (ex_job x) = Some k" "agrees (ex_state y) (status k)" by blast
  then have "status k \<noteq> RUNNING" by (cases "ex_state y") auto
  with run k show ?thesis by blast
qed

theorem executions_end_witness:
  "\<exists>y s' k. execute_claimed sample_run_env sample_execution claimed_state = (Inr y, s') \<and>
    jobs_of sample_run_env s' (ex_job sample_execution) = Some k \<and> agrees (ex_state y) (status k)"
proof -
  have db: "re_db sample_run_env = wire_database (\<lambda>_. Inl ValueError)" "re_db sample_run_env = sample_db"
    by (simp_all add: sample_run_env_def sample_db_def)
  have st: "sql_inv (re_db sample_run_env) (rn_table claimed_state)"
    "jobs_of sample_run_env claimed_state (ex_job sample_execution) = Some sample_claimed_job"
    "ex_updated sample_execution \<le> second_clock (rn_ticks claimed_state)"
    unfolding db(2) by (simp_all add: claimed_state_def sample_leased_inv sample_execution_job sample_claimed_stored
        sample_execution_wf second_clock_def)
  from executions_end [OF db(1) st(1) sample_clock second_clock_mono sample_execution_wf(1,2) st(3,2)
      sample_claimed_stored(2,3) sample_handler_calls sample_handler_ends] show ?thesis by blast
qed

text \<open>
  C14. A shutdown is final: after it was requested, no sequence of the controller's calls clears the
  flag or turns the worker's heartbeat to idle or busy again.
\<close>

theorem shutdown_final:
  assumes "lifecycle_step\<^sup>*\<^sup>* lc lc'" "lc_shutdown lc"
  shows "lc_shutdown lc' \<and> lc_emitter lc' = lc_emitter lc \<and>
    (own_heartbeat lc' = own_heartbeat lc \<or> (\<exists>h. own_heartbeat lc' = Some h \<and> \<not> working (hb_status h)))"
  by (rule shutdown_is_final [OF assms])

theorem shutdown_final_witness:
  "lc_shutdown (snd (lc_idle ((make_lifecycle sample_emitter [])\<lparr>lc_shutdown := True\<rparr>) (Some t1) t1))"
proof -
  let ?lc = "(make_lifecycle sample_emitter [])\<lparr>lc_shutdown := True\<rparr>"
  have "lifecycle_step\<^sup>*\<^sup>* ?lc (snd (lc_idle ?lc (Some t1) t1))"
    by (rule r_into_rtranclp, rule lifecycle_step.ls_idle [where r = "fst (lc_idle ?lc (Some t1) t1)"]) (rule prod.collapse [symmetric])
  moreover have "lc_shutdown ?lc" by simp
  ultimately show ?thesis using shutdown_final [of ?lc "snd (lc_idle ?lc (Some t1) t1)"] by blast
qed

text \<open>
  C15. A plan can be applied late and more than once: applied to any later state of the table, it
  moves each job by at most one step out of RUNNING, touches only the jobs that were lost when it
  was made, and applying it a second time changes nothing.
\<close>

theorem plan_applies_once:
  assumes "sql_inv (wire_database loads) tbl" "tidy_rows tbl" "store_inv hbs"
    and "parse_wire_datetime observed = Inr obs" "good_time observed" "py_strip observed = observed"
    and "build_worker_reconciliation_plan (wire_database loads) tbl hbs observed ttl stale_after now = Inr p"
    and "sql_inv (wire_database loads) tbl1"
    and "\<forall>i j. sql_get_job (wire_database loads) tbl1 i = Some j \<and> status j = RUNNING \<longrightarrow> attempt_count j \<le> 1000"
  shows "\<exists>r tbl2. apply_worker_reconciliation_plan (sql_settling (wire_database loads)) (\<lambda>_. None) now (plan_to_dict p) tbl1 = (Inr r, tbl2) \<and>
    settled_from (sql_get_job (wire_database loads) tbl1) (sql_get_job (wire_database loads) tbl2) \<and>
    (\<forall>i. lost_job tbl hbs (ttl_of ttl) stale_after obs i \<or>
       sql_get_job (wire_database loads) tbl2 i = sql_get_job (wire_database loads) tbl1 i) \<and>
    (\<exists>r'. apply_worker_reconciliation_plan (sql_settling (wire_database loads)) (\<lambda>_. None) now (plan_to_dict p) tbl2 = (Inr r', tbl2))"
  by (rule wire.apply_plan_later [OF assms]) metis

theorem plan_applies_once_witness:
  "\<exists>r tbl2. apply_worker_reconciliation_plan (sql_settling sample_db) (\<lambda>_. None) late (plan_to_dict lost_plan) lost_table = (Inr r, tbl2) \<and>
    (\<exists>r'. apply_worker_reconciliation_plan (sql_settling sample_db) (\<lambda>_. None) late (plan_to_dict lost_plan) tbl2 = (Inr r', tbl2))"
  using plan_applies_once [OF lost_table_inv [unfolded sample_db_def] lost_table_tidy empty_store late_time
      lost_plan_built [unfolded sample_db_def] lost_table_inv [unfolded sample_db_def] lost_table_attempts [unfolded sample_db_def]]
  unfolding sample_db_def by blast

text \<open>
  C16. A rollout that is active, or was rolled back, earned it: in every history of the rollout's own
  operations from its registration, the last evaluation of its canary was one whose metrics were
  measured on this very identity and met each budget, and the floors of samples and of observation
  time, of a policy with the hash of one the canary was started with before; after it came only the
  activation and the roll back. The policy is one its constructor accepts, so the evaluation saw at
  least 20 samples in 60 seconds. And the record carries the readiness, calibration and reservation
  evidence, the outcome PASSED and the binding it activated, and is not the last-known-good identity.
\<close>

theorem active_rollout_passed_canary:
  assumes "register_rollout digest identity rid lkg_binding lkg created = Inr r0"
    and "rollout_history digest calls r0 = Inr r" "ro_state r \<in> {ACTIVE, ROLLED_BACK}"
  shows "(\<exists>before policy metrics changed after.
      calls = before @ Evaluate_Canary policy metrics changed # after \<and> (\<forall>c \<in> set after. promotion_call c) \<and>
      (\<exists>started when. Start_Canary started when \<in> set before \<and> policy_hash digest started = policy_hash digest policy) \<and>
      cm_fingerprint metrics = fingerprint digest identity \<and>
      20 \<le> cm_samples metrics \<and> ca_samples policy \<le> cm_samples metrics \<and>
      60 \<le> cm_seconds metrics \<and> ca_seconds policy \<le> cm_seconds metrics \<and>
      cm_error_rate metrics \<le> ca_error_rate policy \<and> ca_quality policy \<le> cm_quality metrics \<and>
      cm_latency metrics \<le> ca_latency policy) \<and>
    ro_identity r = identity \<and> evidence_given r \<and> ro_canary r = Some ''PASSED'' \<and> ro_binding r \<noteq> None \<and>
    fingerprint digest identity \<noteq> ro_lkg_fingerprint r \<and> check_rollout r = Inr ()"
proof -
  note told = rollout_history_told [OF assms(1,2)]
  have rec: "evidence_given r" "ro_canary r = Some ''PASSED''" "ro_binding r \<noteq> None"
    "fingerprint digest identity \<noteq> ro_lkg_fingerprint r" "check_rollout r = Inr ()" "ro_identity r = identity"
    using rollout_reachable_inv [of digest r] told assms(3) unfolding rollout_inv_def by auto
  with told have "canary_passed digest calls r" by (simp add: history_told_def)
  then obtain before policy metrics changed after where h:
    "calls = before @ Evaluate_Canary policy metrics changed # after" "list_all promotion_call after"
    "canary_started digest before (policy_hash digest policy)" "check_canary_policy policy = Inr ()"
    "list_all snd (canary_checks digest r policy metrics)"
    unfolding canary_passed_def by blast
  have floors: "20 \<le> ca_samples policy" "60 \<le> ca_seconds policy"
    using h(4) by (auto simp: check_canary_policy_def split: if_splits)
  have met: "cm_fingerprint metrics = fingerprint digest identity" "ca_samples policy \<le> cm_samples metrics"
    "ca_seconds policy \<le> cm_seconds metrics" "cm_error_rate metrics \<le> ca_error_rate policy"
    "ca_quality policy \<le> cm_quality metrics" "cm_latency metrics \<le> ca_latency policy"
    using h(5) rec(6) unfolding canary_checks_met by simp_all
  have seen: "20 \<le> cm_samples metrics" "60 \<le> cm_seconds metrics" using floors met(2,3) by linarith+
  have started: "\<exists>started when. Start_Canary started when \<in> set before \<and> policy_hash digest started = policy_hash digest policy"
    using h(3) by (auto simp: canary_started_def)
  have post: "\<forall>c \<in> set after. promotion_call c" using h(2) by (simp add: list_all_iff)
  show ?thesis
    by (intro conjI rec)
      (rule exI [of _ before], rule exI [of _ policy], rule exI [of _ metrics], rule exI [of _ changed], rule exI [of _ after],
       intro conjI h(1) post started met seen)
qed

theorem active_rollout_passed_canary_witness:
  "\<exists>before policy metrics changed after.
     sample_history = before @ Evaluate_Canary policy metrics changed # after \<and> ca_samples policy \<le> cm_samples metrics \<and>
     cm_fingerprint metrics = fingerprint sample_digest sample_identity"
  using active_rollout_passed_canary [OF sample_register sample_history] by (simp add: active_rollout_def) blast

text \<open>
  C17. The trail of a rollout is complete: in every state the service reaches on the in-memory
  repository, whatever was read before which update, the events of a rollout start with its
  registration, follow each other from state to state with the revisions 1, 2, 3, and the last
  one is the record's own state and revision.
\<close>

theorem rollout_trail_complete:
  assumes "service_reachable (repo_store digest) empty_repo s" "repo_look s i = Some r"
  shows "trail_of r (repo_trail s i)"
proof -
  have "repo.trails empty_repo" by (simp add: repo.trails_def repo_look_def empty_repo_def)
  from repo.reachable_trails [OF assms(1) empty_repo_inv this] assms(2) show ?thesis
    by (simp add: repo.trails_def)
qed

theorem rollout_trail_complete_witness:
  "trail_of validating_rollout (repo_trail validating_repo ''rollout-1'')"
proof (rule rollout_trail_complete [OF sample_repo_reachable])
  show "repo_look validating_repo ''rollout-1'' = Some validating_rollout"
    by (rule repo.persist_Inr [OF registered_repo_inv sample_persisted])
      (simp add: validating_rollout_def registered_rollout_def)
qed

text \<open>
  C18. No rights without a membership: in every state the OA service reaches, every active session
  belongs to a subject whose membership of the tenant is stored and ACTIVE. So disabling a membership
  ends its sessions, whatever happened before.
\<close>

theorem active_session_has_membership:
  assumes "oa_steps oa_start x" "map_of (os_sessions x) i = Some s" "ss_status s = L_ACTIVE"
  shows "\<exists>m. map_of (mr_memberships (os_members x)) (ss_tenant s, ss_subject s) = Some m \<and> mb_status m = S_ACTIVE"
proof -
  have "backed (os_state x)" using oa_reachable_inv [OF assms(1)] by (simp add: oa_inv_def)
  then obtain n where "standing (os_state x) MEMBERSHIP_ENTITY (ss_tenant s, ss_subject s) = Some (S_ACTIVE, n)"
    using assms(2,3) unfolding backed_def by blast
  then show ?thesis by (auto simp: standing_def find_membership_def)
qed

theorem active_session_has_membership_witness:
  "\<exists>m. map_of (mr_memberships acme_members) (''acme'', ''u1'') = Some m \<and> mb_status m = S_ACTIVE"
proof -
  have s: "map_of (os_sessions oa_signed_in) ''s1'' = Some (user_session [''workspace:use''])"
    by (simp add: oa_signed_in_def acme_system_def)
  from active_session_has_membership [OF signed_in_reach s] show ?thesis
    by (simp add: user_session_def oa_signed_in_def acme_system_def)
qed

text \<open>
  C19. The audit trail explains every identity: in every state the OA service reaches, the events of a
  subject or of a membership, replayed from revision 1 along the allowed transitions, give exactly the
  stored status and revision; the revision is one more than the number of events, and an identity
  that is not stored has none.
\<close>

theorem identity_trail_complete:
  assumes "oa_steps oa_start x"
  shows "case standing (os_state x) e k of
      None \<Rightarrow> events_of (oa_trail (os_state x)) e k = []
    | Some (a, n) \<Rightarrow> n = 1 + int (length (events_of (oa_trail (os_state x)) e k)) \<and>
        (\<exists>b. replay e (b, 1) (events_of (oa_trail (os_state x)) e k) = Some (a, n))"
proof -
  have x: "explained (os_state x)" using oa_reachable_inv [OF assms] by (simp add: oa_inv_def)
  show ?thesis
  proof (cases "standing (os_state x) e k")
    case None
    then have "events_of (oa_trail (os_state x)) e k = []" using x unfolding explained_def by blast
    then show ?thesis by (simp add: None)
  next
    case (Some q)
    then obtain b where "replay e (b, 1) (events_of (oa_trail (os_state x)) e k) = Some q"
      using x unfolding explained_def by blast
    then show ?thesis using replay_revision by (fastforce simp: Some split: prod.split)
  qed
qed

theorem identity_trail_complete_witness:
  "\<exists>b. replay MEMBERSHIP_ENTITY (b, 1) (events_of (oa_trail (os_state oa_left)) MEMBERSHIP_ENTITY (''acme'', ''u1'')) = Some (S_DISABLED, 2)"
proof -
  have "oa_steps oa_start oa_left" using signed_in_reach left_step by (rule rtranclp.rtrancl_into_rtrancl)
  note identity_trail_complete [OF this, of MEMBERSHIP_ENTITY "(''acme'', ''u1'')"]
  moreover have "standing (os_state oa_left) MEMBERSHIP_ENTITY (''acme'', ''u1'') = Some (S_DISABLED, 2)" by code_simp
  ultimately show ?thesis by simp
qed

text \<open>
  C20. Lost rights end sessions: when an upsert of a role, a group, a group member or a group role
  changes what a subject is granted, in either direction, then no session of that subject is active
  afterwards, unless the upsert is of a role that the membership holds directly.
\<close>

theorem rights_change_ends_sessions:
  assumes "oa_steps oa_start x" "upsert True (os_authz x) (os_sessions x) res A S"
    and "granted_scopes A t u D \<noteq> granted_scopes (os_authz x) t u D"
    and "\<not> (\<exists>r. zr_record res = RoleRecord r \<and> rl_tenant r = t \<and> rl_id r \<in> D)"
    and "map_of S i = Some s" "ss_tenant s = t" "ss_subject s = u"
  shows "ss_status s \<noteq> L_ACTIVE"
proof -
  have inv: "sessions_inv (os_sessions x)" "authz_inv (os_authz x)" using oa_reachable_inv [OF assms(1)] by (simp_all add: oa_inv_def)
  have up: "upserted True (os_authz x) (os_sessions x) res A S" by (rule upsert_effect [OF assms(2) inv(2)])
  have "record_tenant (zr_record res) = t \<and> u \<in> set (zr_affected res)"
    using rights_changed [OF up assms(3)] assms(4) by blast
  then have "record_tenant (zr_record res) = ss_tenant s" "ss_subject s \<in> set (zr_affected res)"
    using assms(6,7) by simp_all
  then show ?thesis using affected_sessions_end [OF up inv(1)] assms(5) by blast
qed

theorem rights_change_ends_sessions_witness:
  "ss_status (snd (hd (snd (snd (projr member_upserted))))) \<noteq> L_ACTIVE"
proof -
  let ?A = "fst (snd (projr member_upserted))" and ?S = "snd (snd (projr member_upserted))"
  have m: "member_upserted = Inr (fst (projr member_upserted), ?A, ?S)"
    using projr_pair [OF member_ok(1)] by (metis prod.collapse)
  have u: "upsert True (os_authz oa_linked) (os_sessions oa_linked) (fst (projr member_upserted)) ?A ?S"
    using upsert.member [OF m [unfolded member_upserted_def], folded member_upserted_def] by (simp add: oa_linked_def acme_system_def)
  have a: "granted_scopes ?A ''acme'' ''u1'' {} = {''docs:read''}"
    by (simp add: granted_scopes_def held_roles_def member_ok(3-6) team_member_def link_authz_def group_authz_def
        staff_authz_def staff_role_def)
  have b: "granted_scopes (os_authz oa_linked) ''acme'' ''u1'' {} = {}"
    by (simp add: granted_scopes_def held_roles_def oa_linked_def acme_system_def link_authz_def group_authz_def staff_authz_def)
  have ne: "granted_scopes ?A ''acme'' ''u1'' {} \<noteq> granted_scopes (os_authz oa_linked) ''acme'' ''u1'' {}" by (simp add: a b)
  have no: "\<not> (\<exists>r. zr_record (fst (projr member_upserted)) = RoleRecord r \<and> rl_tenant r = ''acme'' \<and> rl_id r \<in> {})" by simp
  note S = member_ok(7-9)
  then have "map_of ?S ''s1'' = Some (snd (hd ?S))" by (cases ?S) auto
  from rights_change_ends_sessions [OF linked_reach u ne no this S(2,3)] show ?thesis .
qed

text \<open>
  C21. The resolver is exact: what it resolves for a membership are the scopes granted to it directly and
  those of the active roles of its own tenant that it holds directly or through an active group, an
  active place in it and an active link; nothing of another tenant or subject, and it resolves only
  active memberships.
\<close>

theorem resolver_exact:
  assumes "authz_inv A" "resolve_membership A m = Inr e"
  shows "set (ea_scopes e) = norm_text ` set (mb_scopes m) \<union>
      granted_scopes A (py_strip (mb_tenant m)) (py_strip (mb_subject m)) (norm_text ` set (mb_roles m)) \<and>
    mb_status m = S_ACTIVE \<and> ea_tenant e = py_strip (mb_tenant m) \<and> ea_subject e = py_strip (mb_subject m)"
  using resolve_grants [OF assms] by blast

theorem resolver_exact_witness:
  "granted_scopes staff_authz ''acme'' ''u1'' {''employee''} \<subseteq> {''docs:read'', ''workspace:use''}"
proof -
  let ?m = "snd (hd (mr_memberships acme_members))"
  have inv: "authz_inv staff_authz"
    using oa_reachable_inv [OF reading_reach] by (simp add: oa_inv_def oa_reading_def acme_system_def)
  have "\<not> isl (resolve_membership staff_authz ?m)" by code_simp
  then obtain e where e: "resolve_membership staff_authz ?m = Inr e" by (cases "resolve_membership staff_authz ?m") auto
  have "ea_scopes (projr (resolve_membership staff_authz ?m)) = [''docs:read'', ''workspace:use'']" by code_simp
  then have sc: "set (ea_scopes e) = {''docs:read'', ''workspace:use''}" by (simp add: e)
  have m: "py_strip (mb_tenant ?m) = ''acme''" "py_strip (mb_subject ?m) = ''u1''"
    "map norm_text (mb_roles ?m) = [''employee'']" by code_simp+
  then have r: "norm_text ` set (mb_roles ?m) = {''employee''}" by (metis list.simps(15) empty_set set_map)
  from resolver_exact [OF inv e] show ?thesis unfolding sc m r by blast
qed

text \<open>
  C22. A session is issued within rights: in every state the OA service reaches, issuing a session
  under a fresh id either fails and stores nothing, or stores one active session of an ACTIVE
  membership whose scopes are among those the membership and the authorization repository grant at
  that moment.
\<close>

theorem session_within_rights:
  assumes "oa_steps oa_start x" "in_range now"
    and "issue_session (os_members x) (Some (resolved_grants (os_authz x))) (os_sessions x) body sid now stored = (r, S)"
  shows "(S = os_sessions x \<and> (\<exists>e. r = Inl e)) \<or>
    (\<exists>s m. S = dict_put sid s (os_sessions x) \<and> ss_status s = L_ACTIVE \<and>
      map_of (mr_memberships (os_members x)) (ss_tenant s, ss_subject s) = Some m \<and> mb_status m = S_ACTIVE \<and>
      set (ss_scopes s) \<subseteq> norm_text ` set (mb_scopes m) \<union>
        granted_scopes (os_authz x) (ss_tenant s) (ss_subject s) (norm_text ` set (mb_roles m)))"
proof -
  have inv: "memberships_inv (os_members x)" "authz_inv (os_authz x)" using oa_reachable_inv [OF assms(1)] by (simp_all add: oa_inv_def)
  show ?thesis
  proof (cases "S = os_sessions x \<and> (\<exists>e. r = Inl e)")
    case False
    then obtain s where s: "S = dict_put sid s (os_sessions x)" "issued_for (os_members x) (resolved_grants (os_authz x)) now s"
      using issue_effect [OF inv(1) assms(2,3)] by blast
    then obtain m g where m: "map_of (mr_memberships (os_members x)) (ss_tenant s, ss_subject s) = Some m" "mb_status m = S_ACTIVE"
      "resolved_grants (os_authz x) m = Inr g" "set (ss_scopes s) \<subseteq> py_strip ` set (gr_scopes g)"
      unfolding issued_for_def by blast
    have "set (ss_scopes s) \<subseteq> norm_text ` set (mb_scopes m) \<union>
        granted_scopes (os_authz x) (ss_tenant s) (ss_subject s) (norm_text ` set (mb_roles m))"
      by (rule grants_of_stored [OF inv m(1,3,4)])
    then show ?thesis using s m unfolding issued_for_def by blast
  qed simp
qed

theorem session_within_rights_witness:
  "\<exists>s. map_of (snd (issue_session acme_members (Some (resolved_grants staff_authz)) [] acme_user ''s1'' 0 0)) ''s1'' = Some s \<and>
    ss_status s = L_ACTIVE"
proof -
  let ?r = "issue_session acme_members (Some (resolved_grants staff_authz)) [] acme_user ''s1'' 0 0"
  have now: "in_range 0" by code_simp
  have "\<not> (\<exists>e. fst ?r = Inl e)" using staffed_issued by auto
  moreover have "issue_session (os_members oa_staffed) (Some (resolved_grants (os_authz oa_staffed))) (os_sessions oa_staffed)
      acme_user ''s1'' 0 0 = (fst ?r, snd ?r)" by (simp add: oa_staffed_def acme_system_def)
  ultimately show ?thesis using session_within_rights [OF staffed_reach now] by fastforce
qed

text \<open>
  C23. A session never comes back and never grows: whatever the OA service does later, a stored session
  stays stored with its tenant, subject, scopes, roles and end, and once it is not active, it never is
  again. It ends within a day of its start, and its idle deadline is never after its end.
\<close>

theorem sessions_never_return:
  assumes "oa_steps oa_start x" "oa_steps x y" "map_of (os_sessions x) i = Some s"
  shows "\<exists>s' t0 t1 t2. map_of (os_sessions y) i = Some s' \<and> ss_id s' = i \<and> ss_tenant s' = ss_tenant s \<and>
    ss_subject s' = ss_subject s \<and> ss_scopes s' = ss_scopes s \<and> ss_roles s' = ss_roles s \<and>
    ss_issued s' = ss_issued s \<and> ss_expires s' = ss_expires s \<and> (ss_status s \<noteq> L_ACTIVE \<longrightarrow> ss_status s' \<noteq> L_ACTIVE) \<and>
    ss_issued s' = wire_timestamp t0 \<and> ss_expires s' = wire_timestamp t1 \<and> ss_idle s' = wire_timestamp t2 \<and>
    t0 < t1 \<and> t1 \<le> t0 + 86400 * 1000000 \<and> t2 \<le> t1"
proof -
  have g: "good_step x y" by (rule steps_good [OF assms(2) oa_reachable_inv [OF assms(1)]])
  then obtain s' where s': "map_of (os_sessions y) i = Some s'" "session_evolves s s'"
    using assms(3) unfolding good_step_def sessions_kept_def by blast
  have "sessions_inv (os_sessions y)" using g by (simp add: good_step_def oa_inv_def)
  then have "i = ss_id s'" "session_wf s'" using s'(1) unfolding sessions_inv_def by blast+
  then show ?thesis using s' unfolding session_wf_def session_evolves_def by metis
qed

theorem sessions_never_return_witness:
  "\<exists>s'. map_of (os_sessions oa_left) ''s1'' = Some s' \<and> ss_scopes s' = [''workspace:use'']"
proof -
  have "map_of (os_sessions oa_signed_in) ''s1'' = Some (user_session [''workspace:use''])"
    by (simp add: oa_signed_in_def acme_system_def)
  from sessions_never_return [OF signed_in_reach r_into_rtranclp [of oa_step, OF left_step] this]
  show ?thesis by (auto simp: user_session_def)
qed

text \<open>
  C24. Introspection tells whether a session lives: in every state the OA service reaches, a well-formed
  introspection that takes less than half an hour, by a clock that does not go back, is answered. It
  says active exactly when the session asked for is stored, ACTIVE, before its idle deadline at the
  first reading of the clock and before its end at the last; and it shows a session, with the stored
  scopes, exactly when one is stored.
\<close>

theorem introspection_true:
  assumes "oa_steps oa_start x" "normalize_session_introspection_request body = Inr i"
    and "in_range (clk 0)" "in_range (clk 0 + 1800 * 1000000)"
    and "clk 0 \<le> clk 1" "clk 1 \<le> clk 2" "clk 2 < clk 0 + 1800 * 1000000"
  shows "\<exists>a S. introspect_session (os_sessions x) body clk = (Inr a, S) \<and>
    (in_active a \<longleftrightarrow> (\<exists>s e. map_of (os_sessions x) i = Some s \<and> live_at s (clk 0) \<and>
       session_instant (ss_expires s) = Inr e \<and> clk 2 < e)) \<and>
    map_option vw_scopes (in_session a) = map_option ss_scopes (map_of (os_sessions x) i)"
proof (cases "map_of (os_sessions x) i")
  case None
  then show ?thesis using assms(2) by (auto simp: introspect_session_def build_session_introspection_response_def)
next
  case (Some s)
  have inv: "sessions_inv (os_sessions x)" "named_sessions (os_sessions x)"
    using oa_reachable_inv [OF assms(1)] by (simp_all add: oa_inv_def)
  obtain a v S where "introspect_session (os_sessions x) body clk = (Inr a, S)" "in_session a = Some v" "vw_scopes v = ss_scopes s"
    "in_active a \<longleftrightarrow> live_at s (clk 0) \<and> (\<exists>e. session_instant (ss_expires s) = Inr e \<and> clk 2 < e)"
    by (rule introspect_found [where clk = clk, OF inv assms(2) Some assms(3-7)]) (rule that)
  then show ?thesis using Some by auto
qed

theorem introspection_true_witness:
  "\<exists>a S. introspect_session (os_sessions oa_signed_in) [(''session_id'', PStr ''s1'')] (\<lambda>n. 60000000 + int n) = (Inr a, S) \<and>
    in_active a \<and> map_option vw_scopes (in_session a) = Some [''workspace:use'']"
proof -
  have now: "in_range (60000000 + int 0)" "in_range (60000000 + int 0 + 1800 * 1000000)" by code_simp+
  have q: "normalize_session_introspection_request [(''session_id'', PStr ''s1'')] = Inr ''s1''" by code_simp
  have s: "map_of (os_sessions oa_signed_in) ''s1'' = Some (user_session [''workspace:use''])"
    by (simp add: oa_signed_in_def acme_system_def)
  have e: "session_instant (ss_expires (user_session [])) = Inr 3600000000" "session_instant (ss_idle (user_session [])) = Inr 1800000000"
    by code_simp+
  then have "live_at (user_session [''workspace:use'']) (60000000 + int 0)"
    "session_instant (ss_expires (user_session [''workspace:use''])) = Inr 3600000000"
    "ss_scopes (user_session [''workspace:use'']) = [''workspace:use'']" by (simp_all add: live_at_def user_session_def)
  with introspection_true [where clk = "\<lambda>n. 60000000 + int n", OF signed_in_reach q now] s show ?thesis by auto
qed

text \<open>
  C25. Identities only move on: whatever the OA service does later, a stored subject or membership stays
  stored, its revision never goes back and fixes its status, and a deleted one never changes again.
\<close>

theorem identities_move_on:
  assumes "oa_steps oa_start x" "oa_steps x y" "standing (os_state x) e k = Some (a, n)"
  shows "\<exists>b m. standing (os_state y) e k = Some (b, m) \<and> n \<le> m \<and> (m = n \<longrightarrow> b = a) \<and> (a = S_DELETED \<longrightarrow> b = a \<and> m = n)"
  using steps_good [OF assms(2) oa_reachable_inv [OF assms(1)]] assms(3) unfolding good_step_def identities_kept_def by blast

theorem identities_move_on_witness:
  "\<exists>b m. standing (os_state oa_left) MEMBERSHIP_ENTITY (''acme'', ''u1'') = Some (b, m) \<and> 1 \<le> m"
proof -
  have "standing (os_state oa_signed_in) MEMBERSHIP_ENTITY (''acme'', ''u1'') = Some (S_ACTIVE, 1)" by code_simp
  from identities_move_on [OF signed_in_reach r_into_rtranclp [of oa_step, OF left_step] this] show ?thesis by blast
qed

text \<open>
  C26. The history of an alias is complete: in every state of every run of the catalog service from
  a valid bootstrap, however its reads and writes interleave, the bindings of an alias that has an
  active one are numbered without gap or repetition up to it, it is the only active one, and its
  catalog entry exists with its capability.
\<close>

theorem alias_history_complete:
  assumes "validate_active_bindings es bs = Inr ()" "first_bindings bs" "bootstrap_if_empty empty_catalog es bs = (True, s0)"
    and run: "catalog_run memory_catalog s0 hs" "h \<in> set hs" and a: "repo_bind h i = Some a" "ab_state a = ''ACTIVE''"
  shows "(\<exists>e. repo_entry h (ab_catalog a) = Some e \<and> ce_capability e = ab_capability a) \<and>
    (\<forall>k. 1 \<le> k \<and> k \<le> ab_revision a \<longrightarrow> (\<exists>!j. \<exists>b. repo_bind h j = Some b \<and> same_key b a \<and> ab_revision b = k)) \<and>
    (\<forall>j b. repo_bind h j = Some b \<and> same_key b a \<longrightarrow> 1 \<le> ab_revision b \<and> ab_revision b \<le> ab_revision a \<and>
      (ab_state b = ''ACTIVE'' \<longrightarrow> j = i))"
proof -
  have "\<forall>h \<in> set hs. catalog_inv h \<and> alias_lineage (repo_bind h) \<and> bound (repo_entry h) (repo_bind h)"
    using catalog.run_inv [OF run(1)] bootstrap_good [OF assms(1-3)] by blast
  then have lin: "alias_lineage (repo_bind h)" and bd: "bound (repo_entry h) (repo_bind h)" using run(2) by blast+
  have one: "\<exists>!j. \<exists>b. repo_bind h j = Some b \<and> same_key b a \<and> ab_revision b = k" if k: "1 \<le> k" "k \<le> ab_revision a" for k
  proof -
    obtain j b where b: "repo_bind h j = Some b" "same_key b a" "ab_revision b = k"
      using lineage_history [OF lin a(1) k] by blast
    have "x = j" if "repo_bind h x = Some c" "same_key c a" "ab_revision c = k" for x c
      using lineageD(4) [OF lin b(1) that(1) same_key_trans [OF that(2) same_key_sym [OF b(2)]]] that(3) b(3) by simp
    with b show ?thesis by blast
  qed
  have "1 \<le> ab_revision b \<and> ab_revision b \<le> ab_revision a \<and> (ab_state b = ''ACTIVE'' \<longrightarrow> j = i)"
    if "repo_bind h j = Some b" "same_key b a" for j b
    using lineageD(1) [OF lin that(1)] lineageD(3) [OF lin a that] lineage_active_unique [OF lin that(1) _ a _] that(2) by blast
  with one bd a(1) show ?thesis unfolding bound_def by blast
qed

theorem alias_history_complete_witness:
  "\<exists>!j. \<exists>b. repo_bind raced_catalog j = Some b \<and> same_key b switched_binding \<and> ab_revision b = 1"
proof -
  have b: "repo_bind raced_catalog ''binding:2'' = Some switched_binding" "ab_state switched_binding = ''ACTIVE''"
    "ab_revision switched_binding = 2"
    by code_simp+
  have "raced_catalog \<in> set [raced_catalog, switched_catalog, sample_catalog]" by simp
  from alias_history_complete [OF sample_valid sample_first sample_bootstrap raced_run this b(1,2)] b(3)
  show ?thesis by simp
qed

text \<open>
  C27. A promotion can be undone: in every state reached by calls one after the other, a roll back
  right after a promotion, with the evidence it asks for, succeeds as long as the last-known-good
  entry is active. The alias is then on exactly that entry again, the rollout is rolled back and
  its reservation released.
\<close>

theorem promotion_undone:
  assumes "validate_active_bindings es bs = Inr ()" "first_bindings bs" "bootstrap_if_empty empty_catalog es bs = (True, s0)"
    and "catalog_reachable memory_catalog s0 s"
    and act: "activate_rollout_alias memory_catalog digest id1 now1 (\<lambda>_. s) s r d v lkg who1 changed1 = (Inr a, s1)"
    and e: "repo_entry s (id_catalog lkg) = Some e" "ce_state e = ''ACTIVE''"
    and ev: "reservation_wf v" "lkg_ready digest r lkg readiness" "is_identifier failure"
      "validate_changed_at (ar_record a) changed2 = Inr ()"
    and new: "repo_bind s1 (''binding:'' @ id2) = None" "is_catalog_id (''binding:'' @ id2)" "is_catalog_id who2"
      "catalog_time now2 ''created_at'' = Inr t"
  shows "\<exists>b s2. rollback_rollout_alias memory_catalog digest id2 now2 (\<lambda>_. s1) s1 (ar_record a) v lkg readiness failure who2 changed2
      = (Inr b, s2) \<and> ab_catalog (ar_binding b) = id_catalog lkg \<and> repo_bind s2 (ab_id (ar_binding b)) = Some (ar_binding b) \<and>
    ab_state (ar_binding b) = ''ACTIVE'' \<and> ab_alias (ar_binding b) = id_alias (ro_identity r) \<and>
    ro_state (ar_record b) = ROLLED_BACK \<and> rv_state (ar_reservation b) = ''RELEASED''"
proof -
  have inv: "catalog_inv s" "alias_lineage (repo_bind s)" "bound (repo_entry s) (repo_bind s)"
    using catalog.reachable_live [OF assms(4)] bootstrap_good [OF assms(1-3)] by blast+
  obtain b s2 where ok: "rollback_rollout_alias memory_catalog digest id2 now2 (\<lambda>_. s1) s1 (ar_record a) v lkg readiness failure
      who2 changed2 = (Inr b, s2)"
    using catalog.activation_undone [OF inv act e ev new] by blast
  note up = catalog.activate_rollout_Inr [where seen = "\<lambda>_. s", OF inv(1) inv(1) inv(2) act]
  from up obtain good where "catalog_inv s1" "known_good digest r good lkg" "same_key good (ar_binding a)"
    "ab_alias (ar_binding a) = id_alias (ro_identity r)" by blast
  then have "catalog_inv s1" "id_alias lkg = id_alias (ro_identity r)" by (auto simp: known_good_def same_key_def)
  with catalog.rollback_rollout_Inr [where seen = "\<lambda>_. s1", OF this(1) this(1) ok] ok show ?thesis by auto
qed

theorem promotion_undone_witness:
  "\<exists>b s2. rollback_rollout_alias memory_catalog catalog_digest ''3'' m1 (\<lambda>_. snd (promotion m1)) (snd (promotion m1))
      (ar_record (projr (fst (promotion m1)))) sample_reservation lkg_identity sample_lkg_readiness ''canary_regressed'' ''ops'' m1
    = (Inr b, s2) \<and> ab_catalog (ar_binding b) = ''cat-1''"
proof -
  have act: "activate_rollout_alias memory_catalog catalog_digest ''2'' m1 (\<lambda>_. sample_catalog) sample_catalog
     passed_rollout sample_decision sample_reservation lkg_identity ''ops'' m1 =
       (Inr (projr (fst (promotion m1))), snd (promotion m1))"
    using sum.collapse(2) [OF sample_promotion] by (simp add: promotion_def)
  have e: "repo_entry sample_catalog (id_catalog lkg_identity) = Some (sample_entry ''cat-1'' ''r1'' ''dep-1'')"
    "ce_state (sample_entry ''cat-1'' ''r1'' ''dep-1'') = ''ACTIVE''"
    "lkg_ready catalog_digest passed_rollout lkg_identity sample_lkg_readiness" "is_identifier ''canary_regressed''"
    "validate_changed_at (ar_record (projr (fst (promotion m1)))) m1 = Inr ()"
    "repo_bind (snd (promotion m1)) (''binding:'' @ ''3'') = None" "is_catalog_id (''binding:'' @ ''3'')" "is_catalog_id ''ops''"
    "id_catalog lkg_identity = ''cat-1''"
    by code_simp+
  obtain t where t: "catalog_time m1 ''created_at'' = Inr t"
    by (cases "catalog_time m1 ''created_at''") (use sample_time in auto)
  from promotion_undone [OF sample_valid sample_first sample_bootstrap catalog_reachable.start act e(1,2) sample_reservation_wf e(3-8) t] e(9)
  show ?thesis by auto
qed

text \<open>
  C28. As long as the calls of the service run one after the other, from a valid bootstrap, the
  catalog passes the program's own consistency check: every binding names an entry of its
  capability, an active one an active entry, and no alias has two.
\<close>

theorem catalog_stays_consistent:
  assumes "validate_active_bindings es bs = Inr ()" "first_bindings bs" "bootstrap_if_empty empty_catalog es bs = (True, s0)"
    and "catalog_reachable memory_catalog s0 s"
  shows "validate_active_bindings (map snd (cr_entries s)) (map snd (cr_bindings s)) = Inr ()"
  using catalog.reachable_live [OF assms(4)] bootstrap_good [OF assms(1-3)] catalog_consistent by blast

theorem catalog_stays_consistent_witness:
  "validate_active_bindings (map snd (cr_entries switched_catalog)) (map snd (cr_bindings switched_catalog)) = Inr ()"
  by (rule catalog_stays_consistent [OF sample_valid sample_first sample_bootstrap switched_reachable])

text \<open>
  C29. No change of an alias is lost: once an activation or a roll back has moved an alias on from a
  revision, every later change of that alias from that revision or an older one is refused, whatever
  it reads and wherever it leads, however many calls of the service came in between and however all of
  them interleave, in every run from a valid bootstrap.
\<close>

theorem no_lost_alias_change:
  assumes "validate_active_bindings es bs = Inr ()" "first_bindings bs" "bootstrap_if_empty empty_catalog es bs = (True, s0)"
    and run: "catalog_run memory_catalog s0 (newer @ s' # s # older)"
    and seen: "range seen \<subseteq> set (s # older)" "range seen2 \<subseteq> set (newer @ s' # s # older)"
    and first: "activate_alias memory_catalog id1 now1 seen s al cap cat1 n reason1 who1 = Inr (b, s') \<or>
      rollback_alias memory_catalog id1 now1 seen s al cap n reason1 who1 = Inr (b, s')"
    and old: "m \<le> n"
  shows "isl (activate_alias memory_catalog id2 now2 seen2 (hd (newer @ s' # s # older)) al cap cat2 m reason2 who2) \<and>
    isl (rollback_alias memory_catalog id2 now2 seen2 (hd (newer @ s' # s # older)) al cap m reason2 who2)"
proof -
  let ?hs = "newer @ s' # s # older"
  have good: "catalog_inv h \<and> alias_lineage (repo_bind h)" if "h \<in> set ?hs" for h
    using catalog.run_inv [OF run] bootstrap_good [OF assms(1-3)] that by blast
  have inv: "catalog_inv s" "catalog_inv (seen k)" for k using good seen(1) by auto
  have b: "repo_bind s' (ab_id b) = Some b" "ab_alias b = al" "ab_capability b = cap" "ab_revision b = n + 1"
  proof -
    from first have "repo_bind s' (ab_id b) = Some b \<and> ab_alias b = al \<and> ab_capability b = cap \<and> ab_revision b = n + 1"
    proof
      assume "activate_alias memory_catalog id1 now1 seen s al cap cat1 n reason1 who1 = Inr (b, s')"
      from catalog.activate_Inr [OF inv this] show ?thesis by (auto simp: replaced_def)
    next
      assume "rollback_alias memory_catalog id1 now1 seen s al cap n reason1 who1 = Inr (b, s')"
      then show ?thesis by (rule catalog.rollback_Inr [OF inv]) (auto simp: replaced_def)
    qed
    then show "repo_bind s' (ab_id b) = Some b" "ab_alias b = al" "ab_capability b = cap" "ab_revision b = n + 1" by blast+
  qed
  obtain c where c: "repo_bind (hd ?hs) (ab_id b) = Some c" "same_key c b" "ab_revision c = ab_revision b"
    using catalog.run_bindings_stay [OF run _ _ _ b(1)] bootstrap_good [OF assms(1-3)] by blast
  have key: "ab_alias c = al" "ab_capability c = cap" "m < ab_revision c"
    using c(2,3) b(2-4) old by (simp_all add: same_key_def)
  have hd: "hd ?hs \<in> set ?hs" by (cases newer) auto
  have seen2: "catalog_inv (seen2 k)" for k using good seen(2) by auto
  note refused = catalog.stale_change_refused [where seen = seen2, OF conjunct1 [OF good [OF hd]] seen2 conjunct2 [OF good [OF hd]] c(1) key]
  show ?thesis by (rule conjI) (rule refused)+
qed

theorem no_lost_alias_change_witness:
  "isl (activate_alias memory_catalog ''3'' m1 (\<lambda>_. sample_catalog) raced_catalog ''chat'' ''generation'' ''cat-2'' 1 ''again'' ''ops'')"
proof -
  have "catalog_run memory_catalog sample_catalog ([raced_catalog] @ switched_catalog # sample_catalog # [])"
    using raced_run by simp
  from no_lost_alias_change [OF sample_valid sample_first sample_bootstrap this, of "\<lambda>_. sample_catalog" "\<lambda>_. sample_catalog",
      OF _ _ disjI1 [OF sample_switch], of 1] show ?thesis by simp
qed

text \<open>
  C30. Admission never overbooks: if the reservations held fit their nodes, in GPUs, memory and
  exclusiveness, they still fit after the reservation of an admitted request is added; and whichever
  of them is then released, the old ones or the new, the release succeeds and the rest still fits.
\<close>

theorem admission_keeps_room:
  assumes "not_overbooked s rs" "distinct (map gn_id (sn_nodes s))"
    and "admit_capacity digest s r evaluated policy rs = Inr d" "ad_reservation d = Some v"
  shows "not_overbooked s (rs @ [v]) \<and>
    (\<forall>i < length (rs @ [v]). \<exists>v'. release ((rs @ [v]) ! i) = Inr v' \<and> rv_state v' = ''RELEASED'' \<and>
       not_overbooked s ((rs @ [v])[i := v']))"
proof (intro conjI allI impI)
  show booked: "not_overbooked s (rs @ [v])" by (rule admit_not_overbooked [OF assms])
  fix i assume i: "i < length (rs @ [v])"
  define w as bs where "w = (rs @ [v]) ! i" and "as = take i (rs @ [v])" and "bs = drop (Suc i) (rs @ [v])"
  have split: "rs @ [v] = as @ w # bs" unfolding w_def as_def bs_def by (rule id_take_nth_drop [OF i])
  have upd: "(rs @ [v])[i := v'] = as @ v' # bs" for v'
    unfolding as_def bs_def by (rule upd_conv_take_nth_drop [OF i])
  from booked have fit: "not_overbooked s (as @ w # bs)" unfolding split .
  then have "reservation_wf w" by (simp add: not_overbooked_def)
  from release_Inr [OF this] release_not_overbooked [OF fit]
  show "\<exists>v'. release ((rs @ [v]) ! i) = Inr v' \<and> rv_state v' = ''RELEASED'' \<and> not_overbooked s ((rs @ [v])[i := v'])"
    unfolding upd w_def [symmetric] by auto
qed

theorem admission_keeps_room_witness:
  "not_overbooked sample_snapshot [sample_reservation] \<and>
   (\<exists>v'. release sample_reservation = Inr v' \<and> not_overbooked sample_snapshot [v'])"
  using admission_keeps_room [OF sample_not_overbooked sample_distinct sample_admit]
  by (simp add: sample_admission_def) blast

text \<open>
  C31. A renewal, made later than the lock time it renewed from, takes over that lock time: the new
  lease names the worker, the time of the renewal and the deadline that is the time to live after it,
  and the worker passes the lease check at every time before that deadline. Of the jobs it changes
  only the update time of its own, which runs. And the old lock time is fenced: whatever renewals of
  the table follow, in any number, no renewal from the old lock time succeeds any more, by any worker.
\<close>

theorem renewal_fences:
  assumes "sql_inv (wire_database loads) tbl"
    and "renew (wire_database loads) tbl job worker expected observed ttl now = (Inr l, tbl')"
    and "parse_wire_datetime expected = Inr e" "parse_wire_datetime (or_default observed now) = Inr obs" "e < obs"
  shows "le_locked l = Some obs \<and> le_worker l = Some (py_strip worker) \<and> le_status l = RUNNING \<and>
    le_expires l = Some (obs + (case ttl of None \<Rightarrow> default_lease_ttl | Some t \<Rightarrow> t) * 1000000) \<and>
    (\<forall>observed2 now2 x. parse_wire_datetime (or_default observed2 now2) = Inr x \<and>
       x < obs + (case ttl of None \<Rightarrow> default_lease_ttl | Some t \<Rightarrow> t) * 1000000 \<longrightarrow>
       (\<exists>l2. require_active tbl' job worker ttl observed2 now2 = Inr l2)) \<and>
    sql_inv (wire_database loads) tbl' \<and>
    (\<exists>j. sql_get_job (wire_database loads) tbl (py_strip job) = Some j \<and> status j = RUNNING \<and>
       sql_get_job (wire_database loads) tbl' =
         (sql_get_job (wire_database loads) tbl)(py_strip job := Some (j\<lparr>updated_at := wire_timestamp obs\<rparr>))) \<and>
    (\<forall>t w2 obs2 ttl2 now2. (renewal_step (wire_database loads))\<^sup>*\<^sup>* tbl' t \<longrightarrow>
       isl (fst (renew (wire_database loads) t job w2 expected obs2 ttl2 now2)))"
proof -
  have lease: "le_locked l = Some obs" "le_worker l = Some (py_strip worker)" "le_status l = RUNNING"
    "le_expires l = Some (obs + (case ttl of None \<Rightarrow> default_lease_ttl | Some t \<Rightarrow> t) * 1000000)"
    by (rule wire.renew_Inr [OF assms(1,2)]; use assms(4) in simp)+
  obtain j where j: "sql_get_job (wire_database loads) tbl (py_strip job) = Some j" "status j = RUNNING"
    "sql_inv (wire_database loads) tbl'"
    "sql_get_job (wire_database loads) tbl' = (sql_get_job (wire_database loads) tbl)(py_strip job := Some (stamped j obs))"
    by (rule wire.renew_jobs [OF assms(1,2)]) (use assms(4) in auto)
  note j(4) [unfolded stamped_def]
  moreover note wire.renewed_held [OF assms(1,2) _ lease(4)] wire.renew_fences [OF assms]
  ultimately show ?thesis using lease j(1-3) by blast
qed

theorem renewal_fences_witness:
  "le_locked renewed_lease = Some 63902822490000000 \<and>
   (\<exists>l. require_active renewed_rows ''job-1'' ''worker-1'' (Some 120) (Some t3) t3 = Inr l) \<and>
   isl (fst (renew sample_db renewed_rows ''job-1'' ''worker-2'' t1 (Some t3) None t3))"
proof -
  have "parse_wire_datetime t1 = Inr 63902822460000000" "parse_wire_datetime (or_default (Some t2) t2) = Inr 63902822490000000"
    "parse_wire_datetime (or_default (Some t3) t3) = Inr 63902822580000000" "63902822580000000 < (63902822490000000::int) + 120 * 1000000"
    by code_simp+
  with renewal_fences [OF sample_leased_inv [unfolded sample_db_def]
      sample_renewed [unfolded renewed_def sample_db_def]] show ?thesis
    unfolding sample_db_def by simp
qed

text \<open>
  C32. Every execution that the contract builds and moves is well formed, has moved at most three
  times, holds a lease exactly until it ends, carries the time of its end and, exactly for a retry
  or a dead letter, an error code.
\<close>

theorem executions_keep_contract:
  assumes "execution_reachable e"
  shows "execution_wf e \<and> ex_version e \<le> 4 \<and> ex_started e \<le> ex_updated e \<and>
    (ex_lease e = None \<longleftrightarrow> x_terminal (ex_state e)) \<and>
    (ex_completed e = (if x_terminal (ex_state e) then Some (ex_updated e) else None)) \<and>
    (ex_error e \<noteq> None \<longleftrightarrow> ex_state e \<in> {X_RETRY_SCHEDULED, X_DEAD_LETTERED})"
  using reachable_inv [OF assms] state_rank_nonneg [of "ex_state e"] unfolding execution_inv_def by auto

theorem executions_keep_contract_witness:
  "execution_wf sample_execution \<and> ex_lease sample_execution \<noteq> None"
proof -
  have "\<not> x_terminal (ex_state sample_execution)" by code_simp
  with executions_keep_contract [OF execution_reachable.built [OF sample_build]] show ?thesis by blast
qed

text \<open>
  C33. Validation accepts exactly what the contract asks for: a dictionary validates if and only if its
  fields are present and of the types and ranges required (\<open>accepted_job\<close>); what validation returns is
  well formed and has the values of the dictionary; and the dictionary of every well formed job
  validates, to that job.
\<close>

theorem validate_common_job_exact:
  "((\<exists>j. validate_common_job d = Inr j) \<longleftrightarrow> accepted_job d) \<and>
   (\<forall>j. validate_common_job d = Inr j \<longrightarrow> job_wf j \<and> payload j = map_of d ''payload'' \<and>
      py_int (dget d ''attempt_count'') = Some (attempt_count j) \<and>
      py_int (dget d ''max_attempts'') = Some (max_attempts j) \<and>
      (\<forall>k \<in> set [''job_schema_version'', ''job_id'', ''job_type'', ''status'', ''trace_id'', ''request_id'',
          ''subject_ref'', ''idempotency_key'', ''retryable'', ''links'', ''error'', ''replay_lineage''].
         dget (job_to_dict j) k = dget d k)) \<and>
   (\<forall>j. job_wf j \<longrightarrow> validate_common_job (job_to_dict j) = Inr j)"
  using validate_common_job_accepts validate_common_job_wf validate_keeps validate_round_trip by blast

theorem validate_common_job_exact_witness:
  "accepted_job (job_to_dict sample_job) \<and> validate_common_job (job_to_dict sample_job) = Inr sample_job"
proof -
  have "validate_common_job (job_to_dict sample_job) = Inr sample_job" by code_simp
  with validate_common_job_exact [of "job_to_dict sample_job"] show ?thesis by blast
qed

text \<open>
  C34. Provider retries are bounded and safe: under a policy that its checks accept, the loop makes at most
  five attempts, never more than the policy allows. It goes on only after an attempt that failed
  with a retryable error, and never after an ambiguous failure of a generation; every delay is between 0
  and the larger limit of the policy, and the result is that of the last attempt.
\<close>

theorem provider_retries_bounded:
  assumes "make_provider_policy capability attempts base_delay max_delay after_max = Inr p"
    and "execute_with_provider_retry p op jitter = (evs, r)"
  shows "1 + length evs \<le> nat attempts \<and> attempts \<le> 5 \<and>
    (\<forall>i < length evs. sound_event p op (1 + int i) (evs ! i)) \<and> sound_result p op (1 + int (length evs)) r"
proof -
  have p: "policy_ok p" "pp_max_attempts p = attempts"
    using make_policy_ok [OF assms(1)] assms(1) by (auto simp: make_provider_policy_def split: if_splits)
  have r: "attempts_from p op jitter 1 = (evs, r)" using assms(2) by (simp add: execute_with_provider_retry_def)
  have "1 \<le> attempts" "attempts \<le> 5" using p by (simp_all add: policy_ok_def)
  then show ?thesis using attempts_sound [OF p(1) _ _ r] p(2) by auto
qed

theorem provider_retries_bounded_witness:
  "1 + length (fst (execute_with_provider_retry
      \<lparr>pp_capability = ''generation'', pp_max_attempts = 3, pp_base_delay = 1 / 4, pp_max_delay = 2, pp_retry_after_max = 5\<rparr>
      (\<lambda>n. if n = 1 then RouteFails \<lparr>re_code = ''mo.provider_unavailable'', re_kind = Some ''connect'', re_retryable = True, re_after = None\<rparr>
         else RouteFails \<lparr>re_code = ''mo.provider_timeout'', re_kind = Some ''timeout'', re_retryable = True, re_after = None\<rparr>
         :: (unit, unit) attempt) (\<lambda>_. 1 / 2))) \<le> 3"
proof -
  let ?p = "\<lparr>pp_capability = ''generation'', pp_max_attempts = 3, pp_base_delay = 1 / 4, pp_max_delay = 2, pp_retry_after_max = 5\<rparr>"
  have "make_provider_policy ''generation'' 3 (1 / 4) 2 5 = Inr ?p"
    by (simp add: make_provider_policy_def DEFAULT_MAX_ATTEMPTS_def)
  from provider_retries_bounded [OF this prod.collapse [symmetric]] show ?thesis by fastforce
qed

text \<open>
  C35. Applying a plan checks that the job still runs, not that its worker is still lost: when the
  owner renews its lease after the plan was made, the job is taken from it all the same, although the
  renewed lease is good, and nobody holds a lease on it any more.
\<close>

theorem stale_plan_takes_live_lease:
  assumes "sql_inv (wire_database loads) tbl" "tidy_rows tbl" "store_inv hbs"
    and "parse_wire_datetime observed = Inr obs" "good_time observed" "py_strip observed = observed"
    and "build_worker_reconciliation_plan (wire_database loads) tbl hbs observed ttl stale_after now = Inr p"
    and "\<forall>i j. sql_get_job (wire_database loads) tbl i = Some j \<and> status j = RUNNING \<longrightarrow> attempt_count j \<le> 1000"
    and "lost_job tbl hbs (ttl_of ttl) stale_after obs i" "sql_get_job (wire_database loads) tbl i = Some j"
    and "job_type j \<notin> set SPECIALIZED_RECOVERY_JOB_TYPES"
    and "renew (wire_database loads) tbl i worker expected renewed_at ttl now1 = (Inr l, tbl1)"
  shows "le_worker l = Some (py_strip worker) \<and> le_status l = RUNNING \<and>
    (\<exists>r tbl2. apply_worker_reconciliation_plan (sql_settling (wire_database loads)) (\<lambda>_. None) now (plan_to_dict p) tbl1 = (Inr r, tbl2) \<and>
      \<not> runs (sql_get_job (wire_database loads) tbl2) i \<and>
      (\<forall>w ttl2 w2 now2. isl (require_active tbl2 i w ttl2 w2 now2)))"
proof (intro conjI)
  show "le_worker l = Some (py_strip worker)" "le_status l = RUNNING"
    by (rule wire.renew_Inr [OF assms(1) assms(12)], simp)+
  have i: "py_strip i = i" using tidy_job [OF assms(2) assms(10)] by simp
  obtain k u where k: "sql_inv (wire_database loads) tbl1" "sql_get_job (wire_database loads) tbl i = Some k"
    "sql_get_job (wire_database loads) tbl1 = (sql_get_job (wire_database loads) tbl)(i := Some (stamped k u))"
    by (rule wire.renew_jobs [OF assms(1) assms(12)]) (simp add: i)
  have attempts: "\<forall>i j. sql_get_job (wire_database loads) tbl1 i = Some j \<and> status j = RUNNING \<longrightarrow> attempt_count j \<le> 1000"
    using assms(8) k(2) by (auto simp: k(3) split: if_splits)
  obtain r tbl2 where app: "apply_worker_reconciliation_plan (sql_settling (wire_database loads)) (\<lambda>_. None) now (plan_to_dict p) tbl1 = (Inr r, tbl2)"
    and inv2: "sql_inv (wire_database loads) tbl2" and off: "\<not> runs (sql_get_job (wire_database loads) tbl2) i"
    by (rule wire.apply_plan_later [OF assms(1-7) k(1) attempts]) (use assms(9-11) in blast)
  have "isl (require_active tbl2 i w ttl2 w2 now2)" for w ttl2 w2 now2
  proof (rule ccontr)
    assume "\<not> isl (require_active tbl2 i w ttl2 w2 now2)"
    then obtain l2 where "require_active tbl2 i w ttl2 w2 now2 = Inr l2" by (cases "require_active tbl2 i w ttl2 w2 now2") auto
    then obtain row where row: "find_row tbl2 i = Some row" "row_status row = RUNNING"
      by (rule require_active_Inr) (simp add: i)
    moreover obtain j2 where "job_from_row (wire_database loads) row = Inr j2"
      using inv2 find_row_in [OF row(1)] by (auto simp: sql_inv_def)
    ultimately have "runs (sql_get_job (wire_database loads) tbl2) i"
      by (auto simp: runs_def sql_get_Some job_from_row_Inr)
    with off show False by simp
  qed
  with app off show "\<exists>r tbl2. apply_worker_reconciliation_plan (sql_settling (wire_database loads)) (\<lambda>_. None) now (plan_to_dict p) tbl1 = (Inr r, tbl2) \<and>
      \<not> runs (sql_get_job (wire_database loads) tbl2) i \<and>
      (\<forall>w ttl2 w2 now2. isl (require_active tbl2 i w ttl2 w2 now2))" by blast
qed

theorem stale_plan_takes_live_lease_witness:
  "\<exists>r tbl2. apply_worker_reconciliation_plan (sql_settling sample_db) (\<lambda>_. None) late (plan_to_dict lost_plan) late_rows = (Inr r, tbl2) \<and>
    \<not> runs (sql_get_job sample_db tbl2) ''job-3'' \<and> isl (require_active tbl2 ''job-3'' ''worker-1'' (Some 120) (Some later) later)"
proof -
  have lost: "lost_job lost_table [] (ttl_of (Some 120)) 60 63902822700000000 ''job-3''" using lost_table_lost by simp
  have ty: "job_type lost_job_stored \<notin> set SPECIALIZED_RECOVERY_JOB_TYPES" unfolding lost_job_stored(2) by code_simp
  show ?thesis
    using stale_plan_takes_live_lease [OF lost_table_inv [unfolded sample_db_def] lost_table_tidy empty_store late_time
        lost_plan_built [unfolded sample_db_def] lost_table_attempts [unfolded sample_db_def]
        lost lost_job_stored(1) [unfolded sample_db_def] ty late_renewed [unfolded sample_db_def], folded sample_db_def]
    by blast
qed

text \<open>
  C36. Members of a tenant whose name has a capital letter are refused: the repository stores groups under
  the tenant's name in lower case and looks a group up by the name as written, so in every state the OA
  service reaches adding a member to a group of such a tenant fails with a reference that was not found.
\<close>

theorem mixed_case_tenant_refused:
  assumes "oa_steps oa_start x" "payload_tenant body = Inr t" "py_lower t \<noteq> t"
  shows "upsert_group_member True (os_authz x) (os_sessions x) body ctx eid now = Inl (reference_not_found ''group'')"
proof -
  have "authz_inv (os_authz x)" using oa_reachable_inv [OF assms(1)] by (simp add: oa_inv_def)
  then show ?thesis using assms(2,3) by (rule mixed_case_tenant_has_no_members)
qed

theorem mixed_case_tenant_refused_witness:
  "upsert_group_member True (os_authz oa_linked) (os_sessions oa_linked)
     [(''tenant_id'', PStr ''Acme''), (''group_id'', PStr ''team''), (''subject_id'', PStr ''u1'')] admin_context ''e6'' 0
   = Inl (reference_not_found ''group'')"
proof -
  have t: "payload_tenant [(''tenant_id'', PStr ''Acme''), (''group_id'', PStr ''team''), (''subject_id'', PStr ''u1'')] = Inr ''Acme''"
    by code_simp
  have "py_lower ''Acme'' \<noteq> ''Acme''" by code_simp
  with mixed_case_tenant_refused [OF linked_reach t] show ?thesis by blast
qed

text \<open>
  C37. An unknown target status is an internal error: the lifecycle routes translate lifecycle errors only,
  and the status is checked by the subject registry, so in every state the OA service reaches a request
  to move a stored subject that has the fields of such a request, and whatever else they hold, a
  target that names no subject status, is answered with 500, not 400.
\<close>

theorem unknown_status_is_internal_error:
  assumes "oa_steps oa_start x" "standing (os_state x) SUBJECT_ENTITY (t, u) = Some q"
    and "fst ` set body \<subseteq> {''target_status'', ''expected_revision'', ''reason_code''}"
    and "{''target_status'', ''expected_revision''} \<subseteq> fst ` set body"
    and "\<And>w. dget body ''target_status'' = PStr w \<Longrightarrow> status_named OA_SUBJECT_STATUSES (py_upper (py_strip w)) = None"
  shows "lifecycle_route_status (transition_subject linked (os_state x) t u body ctx eid now) = 500"
proof -
  have inv: "subjects_inv (mr_subjects (os_members x))"
    using oa_reachable_inv [OF assms(1)] by (simp add: oa_inv_def memberships_inv_subjects)
  obtain s where "map_of (sr_subjects (mr_subjects (os_members x))) (t, u) = Some s"
    using assms(2) by (auto simp: standing_def find_subject_def)
  then obtain tn where g: "get_subject (mr_subjects (os_members x)) t u = Inr (Some (tn, s))"
    "registry_id_ok (sj_tenant s)" "registry_id_ok (sj_id s)"
    using get_subject_ok [OF inv] by blast
  have "filter (\<lambda>k. k \<notin> set [''target_status'', ''expected_revision'', ''reason_code'']) (map fst body) = []"
    using assms(3) by (auto simp: filter_empty_conv)
  moreover have "filter (\<lambda>k. k \<notin> fst ` set body) [''target_status'', ''expected_revision''] = []" using assms(4) by simp
  ultimately have q: "normalize_transition_payload body = Inr body" unfolding normalize_transition_payload_def by simp
  have "\<exists>c d. normalize_subject_status (dget body ''target_status'') = Inl (OaError SubjectRegistryError 400 c d)"
    using assms(5) by (cases "dget body ''target_status''") (auto simp: normalize_subject_status_def stripped_text_def blank_error_def)
  then have "\<exists>c d. plan_subject_status_transition (subject_snapshot_dict (tn, s)) (dget body ''target_status'')
      (dget body ''expected_revision'') (dget body ''reason_code'') = Inl (OaError SubjectRegistryError 400 c d)"
    using g(2,3) by (auto simp: plan_subject_status_transition_def nested_subject subject_ids_def subject_dict_fields)
  then show ?thesis by (auto simp: transition_subject_def q g(1))
qed

theorem unknown_status_is_internal_error_witness:
  "lifecycle_route_status (transition_subject True (os_state oa_joined) ''acme'' ''u1''
    [(''reason_code'', PStr ''lockout''), (''target_status'', PStr ''LOCKED''), (''expected_revision'', PInt 1)]
    admin_context ''e1'' 0) = 500"
proof -
  let ?b = "[(''reason_code'', PStr ''lockout''), (''target_status'', PStr ''LOCKED''), (''expected_revision'', PInt 1)]"
  have at: "standing (os_state oa_joined) SUBJECT_ENTITY (''acme'', ''u1'') = Some (S_ACTIVE, 1)" by code_simp
  have "Option.is_none (status_named OA_SUBJECT_STATUSES (py_upper (py_strip ''LOCKED'')))" by code_simp
  then have "dget ?b ''target_status'' = PStr w \<Longrightarrow> status_named OA_SUBJECT_STATUSES (py_upper (py_strip w)) = None" for w
    by (auto simp: dget_def Option.is_none_def)
  then show ?thesis by (intro unknown_status_is_internal_error [OF joined_reach at]) auto
qed

text \<open>
  C38. A disabled subject signs in again: the OA service reaches a state where a subject was disabled and
  still issues a session to it, because only the status of the membership is checked.
\<close>

theorem disabled_subject_signs_in:
  "\<exists>x v S. oa_steps oa_start x \<and> standing (os_state x) SUBJECT_ENTITY (''acme'', ''u1'') = Some (S_DISABLED, 2) \<and>
    issue_session (os_members x) (Some (resolved_grants (os_authz x))) (os_sessions x) acme_user ''s1'' 0 0 = (Inr v, S) \<and>
    vw_subject v = ''u1'' \<and> vw_status v = L_ACTIVE"
proof -
  let ?r = "issue_session disabled_members (Some (resolved_grants empty_authz)) [] acme_user ''s1'' 0 0"
  obtain v where v: "fst ?r = Inr v" "vw_subject v = ''u1''" "vw_status v = L_ACTIVE"
    using sample_issued by (cases "fst ?r") auto
  have e: "?r = (Inr v, snd ?r)" using v(1) by (metis prod.collapse)
  have st: "standing (os_state oa_suspended) SUBJECT_ENTITY (''acme'', ''u1'') = Some (S_DISABLED, 2)"
    by (simp add: standing_def find_subject_def suspended disabled_members_def)
  show ?thesis
  proof (intro exI conjI)
    show "issue_session (os_members oa_suspended) (Some (resolved_grants (os_authz oa_suspended))) (os_sessions oa_suspended)
        acme_user ''s1'' 0 0 = (Inr v, snd ?r)" unfolding suspended by (rule e)
  qed (rule suspended_reach st v(2,3))+
qed

text \<open>
  C39. A role held directly can be withdrawn under a live session: the OA service reaches a state, by
  disabling a role, where an active session still has a scope that nothing grants to its subject any more.
\<close>

theorem direct_role_outlives_itself:
  "\<exists>x s. oa_steps oa_start x \<and> map_of (os_sessions x) ''s1'' = Some s \<and> ss_status s = L_ACTIVE \<and>
    ''docs:read'' \<in> set (ss_scopes s) \<and>
    ''docs:read'' \<notin> {''workspace:use''} \<union> granted_scopes (os_authz x) ''acme'' ''u1'' {''employee''} \<and>
    mb_scopes (the (map_of (mr_memberships (os_members x)) (''acme'', ''u1''))) = [''workspace:use''] \<and>
    mb_roles (the (map_of (mr_memberships (os_members x)) (''acme'', ''u1''))) = [''employee'']"
proof -
  have S: "os_sessions oa_unstaffed = reading_sessions" by code_simp
  have "list_all (\<lambda>(k, r). rl_status r = S_DISABLED) (az_roles (os_authz oa_unstaffed))" by code_simp
  then have "\<forall>r \<in> roles_of (os_authz oa_unstaffed). rl_status r = S_DISABLED" by (auto simp: list_all_iff)
  then have "granted_scopes (os_authz oa_unstaffed) ''acme'' ''u1'' {''employee''} = {}" by (auto simp: granted_scopes_def)
  moreover have "mb_scopes (the (map_of (mr_memberships (os_members oa_unstaffed)) (''acme'', ''u1''))) = [''workspace:use'']"
    "mb_roles (the (map_of (mr_memberships (os_members oa_unstaffed)) (''acme'', ''u1''))) = [''employee'']" by code_simp+
  moreover have "oa_steps oa_start oa_unstaffed" using reading_reach unstaffed_step by (rule rtranclp.rtrancl_into_rtrancl)
  ultimately show ?thesis
    by (intro exI [of _ oa_unstaffed] exI [of _ "user_session [''docs:read'', ''workspace:use'']"])
      (simp add: S, simp add: user_session_def)
qed

text \<open>
  C40. The two queues do not claim in the same order: of two waiting jobs that both can be claimed, one
  at a whole second and one at a fraction of that second later, the in-memory queue never takes the
  earlier one, since it compares times as texts, and the SQL queue never takes the later one; when no
  other job can be claimed, the in-memory queue takes the later and the SQL queue the earlier. (The
  two queues hold the same jobs, and the times in the table are times Python can represent.)
\<close>

theorem queues_claim_in_different_order:
  assumes "sql_sim (wire_database loads) q tbl" "\<forall>r \<in> set tbl. in_range (row_available_at r)"
    and "get_job q i = Some a" "claimable a jtype (or_default upd now)" "effective_available a = wire_timestamp t"
    and "get_job q k = Some b" "claimable b jtype (or_default upd now)" "effective_available b = wire_timestamp (t + d)"
    and "t mod 1000000 = 0" "0 < d" "d < 1000000" "in_range t" "in_range (t + d)"
    and "claim_next_job q worker jtype upd now = Inr (r, q')"
    and "sql_claim (wire_database loads) tbl worker jtype upd now = Inr (r2, tbl')"
  shows "\<exists>j j2. r = Some j \<and> r2 = Some j2 \<and> job_id j \<noteq> i \<and> job_id j2 \<noteq> k \<and>
    ((\<forall>m c. get_job q m = Some c \<and> claimable c jtype (or_default upd now) \<longrightarrow> m \<in> {i, k}) \<longrightarrow>
       job_id j = k \<and> job_id j2 = i)"
proof -
  let ?obs = "or_default upd now"
  have inv: "queue_inv q" using assms(1) by (simp add: sql_sim_def)
  have key: "claim_key b < claim_key a"
    using fraction_sorts_first [OF assms(9-11)] assms(5,8) by (simp add: claim_key_def)
  obtain j j0 where j: "r = Some j" "get_job q (job_id j) = Some j0" "claimable j0 jtype ?obs" "job_id j \<noteq> i"
    by (rule claim_passes_over [OF inv assms(14,3,6,7) key])
  obtain ra where ra: "ra \<in> set tbl" "row_job_id ra = i" using sim_job_row [OF assms(1,3)] by blast
  obtain rb where rb: "rb \<in> set tbl" "row_job_id rb = k" using sim_job_row [OF assms(1,6)] by blast
  have "row_available_at ra = t" by (rule sim_row [OF assms(1) ra(1)]) (use assms ra in auto)
  moreover have "row_available_at rb = t + d" by (rule sim_row [OF assms(1) rb(1)]) (use assms rb in auto)
  ultimately have rows: "row_claim_key ra < row_claim_key rb" using assms(10) by (simp add: row_claim_key_def)
  obtain j2 c where j2: "r2 = Some j2" "get_job q (job_id j2) = Some c" "claimable c jtype ?obs" "job_id j2 \<noteq> k"
    by (rule sql_claim_passes_over [OF assms(1,2,15) ra(1) _ assms(4) rb(1) rows]) (use assms(3) ra(2) rb(2) in auto)
  show ?thesis
  proof (intro exI conjI impI)
    assume only: "\<forall>m c. get_job q m = Some c \<and> claimable c jtype ?obs \<longrightarrow> m \<in> {i, k}"
    from only [rule_format, OF conjI [OF j(2,3)]] j(4) show "job_id j = k" by simp
    from only [rule_format, OF conjI [OF j2(2,3)]] j2(4) show "job_id j2 = i" by simp
  qed (use j j2 in simp_all)
qed

theorem queues_claim_in_different_order_witness:
  "\<exists>j j2 q' tbl'. claim_next_job memory_both ''worker-1'' None (Some t1) t1 = Inr (Some j, q') \<and>
     sql_claim sample_db sql_both ''worker-1'' None (Some t1) t1 = Inr (Some j2, tbl') \<and>
     job_id j \<noteq> ''job-early'' \<and> job_id j2 \<noteq> ''job-late''"
proof -
  have jobs: "get_job memory_both ''job-early'' = Some early_job" "get_job memory_both ''job-late'' = Some late_job"
    "claimable early_job None (or_default (Some t1) t1)" "claimable late_job None (or_default (Some t1) t1)"
    "effective_available early_job = wire_timestamp 63902822400000000"
    "effective_available late_job = wire_timestamp (63902822400000000 + 500000)"
    "(63902822400000000::int) mod 1000000 = 0" "(0::int) < 500000" "(500000::int) < 1000000"
    "in_range 63902822400000000" "in_range (63902822400000000 + 500000)"
    by code_simp+
  have range: "\<forall>r \<in> set sql_both. in_range (row_available_at r)"
    unfolding list_all_iff [symmetric] by code_simp
  have "\<not> isl (claim_next_job memory_both ''worker-1'' None (Some t1) t1)"
    "\<not> isl (sql_claim sample_db sql_both ''worker-1'' None (Some t1) t1)" by code_simp+
  then obtain r q' r2 tbl' where run: "claim_next_job memory_both ''worker-1'' None (Some t1) t1 = Inr (r, q')"
    "sql_claim sample_db sql_both ''worker-1'' None (Some t1) t1 = Inr (r2, tbl')"
    by (cases "claim_next_job memory_both ''worker-1'' None (Some t1) t1";
        cases "sql_claim sample_db sql_both ''worker-1'' None (Some t1) t1") auto
  from queues_claim_in_different_order [OF both_alike [unfolded sample_db_def] range jobs(1,3,5,2,4,6-11)
      run(1) run(2) [unfolded sample_db_def]] run
  show ?thesis unfolding sample_db_def by blast
qed

end
